(* ===== verification/Prelude.thy ===== *)
theory Prelude
  imports Complex_Main "HOL-Library.Word" "HOL-Library.Char_ord" "HOL-Library.List_Lexorder"
    "HOL-Library.Sublist"
begin

text \<open>
  Shared vocabulary of the development: the exceptions of \<open>include/utils/BaseUtils.hpp\<close> as a
  datatype, results (\<open>exn + 'a\<close>) and state actions (a state goes in, a result and the state
  come out, also when an exception is raised), the character classes of the C locale, and the
  list, string and map facts the components use.
\<close>

named_theorems act_simps \<open>unfolding rules of the result and state combinators\<close>
named_theorems run_simps \<open>running a sequence of actions from a state\<close>
named_theorems key_simps \<open>facts on key encodings\<close>
named_theorems table_simps \<open>projections of the concrete tables\<close>

section \<open>Exceptions and results\<close>

text \<open>The exception classes, with the message and the code their constructors take.
  \<open>StdException\<close> is an exception of the C++ library (\<open>std::invalid_argument\<close>).\<close>

datatype exn =
    InitialException string int
  | ConfigException string int
  | BadDataException string int
  | BadCodeException string int
  | LocalException string int
  | BadGeoHashException
  | BadQueryException string int
  | StdException string

definition M_UNKNOWN :: int where "M_UNKNOWN = 101"
definition M_INVALID_PARAM :: int where "M_INVALID_PARAM = 104"

type_synonym 'a res = "exn + 'a"
type_synonym ('s, 'a) act = "'s \<Rightarrow> 'a res \<times> 's"

definition bindR :: "'a res \<Rightarrow> ('a \<Rightarrow> 'b res) \<Rightarrow> 'b res" where
  "bindR r f = (case r of Inl e \<Rightarrow> Inl e | Inr x \<Rightarrow> f x)"

definition ret :: "'a \<Rightarrow> ('s, 'a) act" where
  "ret x = (\<lambda>s. (Inr x, s))"

definition raise :: "exn \<Rightarrow> ('s, 'a) act" where
  "raise e = (\<lambda>s. (Inl e, s))"

definition bindA :: "('s, 'a) act \<Rightarrow> ('a \<Rightarrow> ('s, 'b) act) \<Rightarrow> ('s, 'b) act" where
  "bindA m f = (\<lambda>s. case m s of (Inl e, s') \<Rightarrow> (Inl e, s') | (Inr x, s') \<Rightarrow> f x s')"

definition readA :: "('s \<Rightarrow> 'a) \<Rightarrow> ('s, 'a) act" where
  "readA f = (\<lambda>s. (Inr (f s), s))"

definition updA :: "('s \<Rightarrow> 's) \<Rightarrow> ('s, unit) act" where
  "updA f = (\<lambda>s. (Inr (), f s))"

text \<open>An early throw: \<open>if (b) throw e;\<close>\<close>

definition throwIf :: "bool \<Rightarrow> exn \<Rightarrow> ('s, unit) act" where
  "throwIf b e = (if b then raise e else ret ())"

definition liftR :: "('s \<Rightarrow> 'a res) \<Rightarrow> ('s, 'a) act" where
  "liftR f = (\<lambda>s. (f s, s))"

text \<open>A loop over a list that threads an accumulator and stops at the first exception.\<close>

fun foldA :: "('x \<Rightarrow> 'a \<Rightarrow> ('s, 'a) act) \<Rightarrow> 'x list \<Rightarrow> 'a \<Rightarrow> ('s, 'a) act" where
  "foldA f [] a = ret a"
| "foldA f (x # xs) a = bindA (f x a) (foldA f xs)"

fun foldR :: "('x \<Rightarrow> 'a \<Rightarrow> 'a res) \<Rightarrow> 'x list \<Rightarrow> 'a \<Rightarrow> 'a res" where
  "foldR f [] a = Inr a"
| "foldR f (x # xs) a = bindR (f x a) (foldR f xs)"

lemma bindR_simps [simp, act_simps]:
  "bindR (Inl e) f = Inl e" "bindR (Inr x) f = f x"
  by (simp_all add: bindR_def)

lemma bindR_Inr_iff: "bindR r f = Inr y \<longleftrightarrow> (\<exists>x. r = Inr x \<and> f x = Inr y)"
  by (cases r) auto

lemma ret_run [simp, act_simps]: "ret x s = (Inr x, s)"
  by (simp add: ret_def)

lemma raise_run [simp, act_simps]: "raise e s = (Inl e, s)"
  by (simp add: raise_def)

lemma readA_run [simp, act_simps]: "readA f s = (Inr (f s), s)"
  by (simp add: readA_def)

lemma updA_run [simp, act_simps]: "updA f s = (Inr (), f s)"
  by (simp add: updA_def)

lemma liftR_run [simp, act_simps]: "liftR f s = (f s, s)"
  by (simp add: liftR_def)

lemma throwIf_run [act_simps]: "throwIf b e s = (if b then (Inl e, s) else (Inr (), s))"
  by (simp add: throwIf_def)

lemma bindA_run [act_simps]:
  "bindA m f s = (case m s of (Inl e, s') \<Rightarrow> (Inl e, s') | (Inr x, s') \<Rightarrow> f x s')"
  by (simp add: bindA_def)

lemma bindA_Inr_iff:
  "bindA m f s = (Inr y, t) \<longleftrightarrow> (\<exists>x u. m s = (Inr x, u) \<and> f x u = (Inr y, t))"
  by (auto simp: bindA_def split: prod.splits sum.splits)

lemma bindA_Inr_cases:
  assumes "bindA m f s = (Inr y, t)"
  obtains x u where "m s = (Inr x, u)" and "f x u = (Inr y, t)"
  using assms by (auto simp: bindA_Inr_iff)

lemma bindA_step: "m s = (Inr x, u) \<Longrightarrow> bindA m f s = f x u"
  by (simp add: bindA_def)

lemma bindA_throws: "m s = (Inl e, u) \<Longrightarrow> bindA m f s = (Inl e, u)"
  by (simp add: bindA_def)

lemma throwIf_False [simp]: "throwIf False e = ret ()"
  by (simp add: throwIf_def)

lemma throwIf_True [simp]: "throwIf True e = raise e"
  by (simp add: throwIf_def)

lemma bindA_ret [simp]: "bindA (ret x) f = f x"
  by (simp add: bindA_def fun_eq_iff)

lemma bindA_raise [simp]: "bindA (raise e) f = raise e"
  by (simp add: bindA_def raise_def)

lemma bindA_readA [simp]: "bindA (readA f) g s = g (f s) s"
  by (simp add: bindA_def)

lemma bindA_throwIf [run_simps]: "bindA (throwIf b e) f s = (if b then (Inl e, s) else f () s)"
  by (simp add: bindA_def throwIf_def)

lemma bindA_liftR [run_simps]: "bindA (liftR m) f s = (case m s of Inl e \<Rightarrow> (Inl e, s) | Inr x \<Rightarrow> f x s)"
  by (simp add: bindA_def split: sum.split)

lemma bindA_updA [run_simps]: "bindA (updA u) f s = f () (u s)"
  by (simp add: bindA_def)

lemma bindA_assoc: "bindA (bindA m f) g = bindA m (\<lambda>x. bindA (f x) g)"
  by (simp add: bindA_def fun_eq_iff split: prod.split sum.split)

lemma throwIf_Inr_iff: "throwIf b e s = (Inr y, t) \<longleftrightarrow> \<not> b \<and> s = t"
  by (auto simp: throwIf_def)

text \<open>Once an invariant of the state holds, every action of a loop keeps it, and so does the loop,
  whether it ends normally or by an exception.\<close>

lemma foldA_invariant:
  assumes "\<And>x a s. P s \<Longrightarrow> P (snd (f x a s))" and "P s"
  shows "P (snd (foldA f xs a s))"
  using assms(2)
proof (induction xs arbitrary: a s)
  case Nil
  then show ?case by simp
next
  case (Cons x xs)
  from assms(1) [OF Cons.prems] have "P (snd (f x a s))" .
  then show ?case
    using Cons.IH by (auto simp: bindA_def split: prod.splits sum.splits)
qed

text \<open>An action keeps a predicate of the state whatever it returns. The rules follow the structure of
  the action.\<close>

definition keeps :: "('s \<Rightarrow> bool) \<Rightarrow> ('s, 'a) act \<Rightarrow> bool" where
  "keeps P m \<longleftrightarrow> (\<forall>s. P s \<longrightarrow> P (snd (m s)))"

named_theorems keeps_intros \<open>rules for \<open>keeps\<close>\<close>

lemma keepsD: "keeps P m \<Longrightarrow> P s \<Longrightarrow> P (snd (m s))"
  by (simp add: keeps_def)

lemma keepsI: "(\<And>s. P s \<Longrightarrow> P (snd (m s))) \<Longrightarrow> keeps P m"
  by (simp add: keeps_def)

lemma keeps_ret [keeps_intros]: "keeps P (ret x)"
  by (simp add: keeps_def)

lemma keeps_raise [keeps_intros]: "keeps P (raise e)"
  by (simp add: keeps_def)

lemma keeps_readA [keeps_intros]: "keeps P (readA f)"
  by (simp add: keeps_def)

lemma keeps_liftR [keeps_intros]: "keeps P (liftR f)"
  by (simp add: keeps_def)

lemma keeps_throwIf [keeps_intros]: "keeps P (throwIf b e)"
  by (simp add: keeps_def throwIf_def)

lemma keeps_updA: "(\<And>s. P s \<Longrightarrow> P (f s)) \<Longrightarrow> keeps P (updA f)"
  by (simp add: keeps_def)

lemma keeps_bindA [keeps_intros]:
  assumes "keeps P m" and "\<And>x. keeps P (f x)"
  shows "keeps P (bindA m f)"
proof (rule keepsI)
  fix s assume "P s"
  with assms(1) have "P (snd (m s))" by (rule keepsD)
  then show "P (snd (bindA m f s))"
    using assms(2) by (auto simp: bindA_def keeps_def split: prod.splits sum.splits)
qed

lemma keeps_if [keeps_intros]: "(b \<Longrightarrow> keeps P m) \<Longrightarrow> (\<not> b \<Longrightarrow> keeps P m') \<Longrightarrow> keeps P (if b then m else m')"
  by simp

lemma keeps_option [keeps_intros]:
  "keeps P n \<Longrightarrow> (\<And>x. keeps P (f x)) \<Longrightarrow> keeps P (case y of None \<Rightarrow> n | Some x \<Rightarrow> f x)"
  by (cases y) simp_all

lemma keeps_prod [keeps_intros]: "(\<And>a b. keeps P (f a b)) \<Longrightarrow> keeps P (case y of (a, b) \<Rightarrow> f a b)"
  by (cases y) simp

lemma keeps_prod_app [keeps_intros]: "(\<And>a b. keeps P (f a b c)) \<Longrightarrow> keeps P ((case y of (a, b) \<Rightarrow> f a b) c)"
  by (cases y) simp

lemma keeps_sum [keeps_intros]:
  "(\<And>e. keeps P (f e)) \<Longrightarrow> (\<And>x. keeps P (g x)) \<Longrightarrow> keeps P (case y of Inl e \<Rightarrow> f e | Inr x \<Rightarrow> g x)"
  by (cases y) simp_all

lemma keeps_Let [keeps_intros]: "(\<And>x. keeps P (f x)) \<Longrightarrow> keeps P (Let y f)"
  by simp

lemma keeps_foldA [keeps_intros]:
  assumes "\<And>x a. keeps P (f x a)"
  shows "keeps P (foldA f xs a)"
proof (rule keepsI)
  fix s assume "P s"
  show "P (snd (foldA f xs a s))"
    by (rule foldA_invariant [where P = P, OF keepsD [OF assms] \<open>P s\<close>])
qed

section \<open>Characters of the C locale\<close>

definition isdigit :: "char \<Rightarrow> bool" where
  "isdigit c \<longleftrightarrow> 48 \<le> (of_char c :: nat) \<and> (of_char c :: nat) \<le> 57"

definition isupper :: "char \<Rightarrow> bool" where
  "isupper c \<longleftrightarrow> 65 \<le> (of_char c :: nat) \<and> (of_char c :: nat) \<le> 90"

definition islower :: "char \<Rightarrow> bool" where
  "islower c \<longleftrightarrow> 97 \<le> (of_char c :: nat) \<and> (of_char c :: nat) \<le> 122"

definition isalnum :: "char \<Rightarrow> bool" where
  "isalnum c \<longleftrightarrow> isdigit c \<or> isupper c \<or> islower c"

definition isspace :: "char \<Rightarrow> bool" where
  "isspace c \<longleftrightarrow> (of_char c :: nat) = 32 \<or> (9 \<le> (of_char c :: nat) \<and> (of_char c :: nat) \<le> 13)"

definition ispunct :: "char \<Rightarrow> bool" where
  "ispunct c \<longleftrightarrow> 33 \<le> (of_char c :: nat) \<and> (of_char c :: nat) \<le> 126 \<and> \<not> isalnum c"

definition tolower :: "char \<Rightarrow> char" where
  "tolower c = (if isupper c then char_of ((of_char c :: nat) + 32) else c)"

lemma of_char_less_256 [simp]: "(of_char c :: nat) < 256"
  by (metis nat_of_char_less_256)

lemma of_char_tolower: "(of_char (tolower c) :: nat) = (if isupper c then of_char c + 32 else of_char c)"
  by (auto simp: tolower_def isupper_def of_char_of)

lemma tolower_isalnum [simp]: "isalnum (tolower c) = isalnum c"
  by (auto simp: isalnum_def isdigit_def isupper_def islower_def of_char_tolower)

lemma tolower_not_upper [simp]: "\<not> isupper (tolower c)"
  by (auto simp: isupper_def of_char_tolower)

lemma tolower_idem [simp]: "tolower (tolower c) = tolower c"
  by (simp add: tolower_def [of "tolower c"])

lemma isalnum_not_space: "isalnum c \<Longrightarrow> \<not> isspace c"
  by (auto simp: isalnum_def isdigit_def isupper_def islower_def isspace_def)

lemma ispunct_not_space: "ispunct c \<Longrightarrow> \<not> isspace c"
  by (auto simp: ispunct_def isspace_def)

section \<open>Lists and strings\<close>

text \<open>\<open>Slice::starts_with\<close>\<close>

definition starts_with :: "string \<Rightarrow> string \<Rightarrow> bool" where
  "starts_with s p \<longleftrightarrow> take (length p) s = p"

lemma starts_with_append [simp]: "starts_with (p @ s) p"
  by (simp add: starts_with_def)

lemma starts_with_iff: "starts_with s p \<longleftrightarrow> (\<exists>r. s = p @ r)"
  by (metis append_eq_conv_conj append_take_drop_id starts_with_def)

lemma less_snoc_iff:
  fixes xs ys :: "'a :: linorder list"
  assumes "length xs = length ys"
  shows "xs @ [a] < ys @ [b] \<longleftrightarrow> xs < ys \<or> (xs = ys \<and> a < b)"
  using assms by (induction xs ys rule: list_induct2) auto

lemma less_append_iff:
  fixes xs ys :: "'a :: linorder list"
  assumes "length xs = length ys"
  shows "xs @ us < ys @ vs \<longleftrightarrow> xs < ys \<or> (xs = ys \<and> us < vs)"
  using assms by (induction xs ys rule: list_induct2) auto

lemma sorted_list_unique:
  fixes xs ys :: "'a :: linorder list"
  assumes "sorted_wrt (<) xs" and "sorted_wrt (<) ys" and "set xs = set ys"
  shows "xs = ys"
  using assms by (metis strict_sorted_equal)

text \<open>Splitting a string at the first separator is unambiguous when the left part has none.\<close>

lemma append_sep_inject:
  assumes "x @ c # y = x' @ c # y'" and "c \<notin> set x" and "c \<notin> set x'"
  shows "x = x' \<and> y = y'"
  using assms
proof (induction x arbitrary: x')
  case Nil
  then show ?case by (cases x') auto
next
  case (Cons a x)
  then show ?case by (cases x') auto
qed

end
