(* ===== verification/Messages.thy ===== *)
theory Messages
  imports Prelude
begin

text \<open>
  The messages of \<open>proto/Store.proto\<close>, \<open>proto/Query.proto\<close>, \<open>proto/Search.proto\<close> and
  \<open>proto/Hrpc.proto\<close> that the store and the replication use, one record per message with the
  fields the code reads or writes. Enums of proto3 are open, so they are \<open>int\<close>; \<open>uint64\<close> is
  \<open>64 word\<close>, \<open>double\<close> is \<open>real\<close>, a repeated field is a list. No code here asks whether a
  sub-message is present, so an absent one is the default value. The submessages \<open>alias\<close> and
  \<open>parent\<close> of an item are items of which only the three fields of \<open>ItemRefT\<close> are ever used.
\<close>

section \<open>Store\<close>

record NodeT =
  node_keytype :: int
  node_id :: "64 word"

text \<open>A transaction: the batch of puts and deletes that is logged and replicated.\<close>

record 'b TransItemT =
  ti_key :: string
  ti_value :: 'b
  ti_to_del :: bool

record 'b TransactionT =
  tr_id :: "64 word"
  tr_item :: "'b TransItemT list"
  tr_ts :: "64 word"
  tr_updater :: string
  tr_notfound :: bool

record 'b TransListT =
  tl_lastid :: "64 word"
  tl_limit :: "64 word"
  tl_trans :: "'b TransactionT list"
  tl_currid :: "64 word"
  tl_ts :: "64 word"
  tl_endpoint :: string

record SignKeyT =
  sk_pubkey :: string
  sk_seckey :: string
  sk_algo :: string

record VerifiedT =
  ver_vtype :: int
  ver_data :: string
  ver_verified_at :: "64 word"
  ver_countrycode :: string
  ver_can_contact :: bool

record TagDataT =
  tag_id :: "64 word"
  tag_keytype :: int
  tag_name :: string
  tag_value :: string
  tag_lang :: int
  tag_is_allowed :: bool
  tag_is_repeated :: bool
  tag_is_searchable :: bool
  tag_manager :: string
  tag_is_deleted :: bool
  tag_created_at :: "64 word"
  tag_updated_at :: "64 word"
  tag_notfound :: bool

record CategoryT =
  cat_id :: "64 word"
  cat_name :: string
  cat_description :: string
  cat_lang :: int
  cat_cansee_type :: int
  cat_cansee_price :: real
  cat_manager :: string
  cat_is_deleted :: bool
  cat_created_at :: "64 word"
  cat_updated_at :: "64 word"
  cat_notfound :: bool

record QueryRuleT =
  qr_weight :: "64 word"
  qr_max_records :: "64 word"
  qr_oneword_length :: "64 word"
  qr_desc :: string
  qr_distance_def :: real
  qr_distance_band :: int
  qr_limit_type :: int
  qr_search_type :: int
  qr_order_type :: int
  qr_input_type :: int

record QueryProfT =
  qp_query_type :: int
  qp_rules :: "QueryRuleT list"

record UserDataT =
  user_id :: "64 word"
  user_name :: string
  user_signkey :: SignKeyT
  user_passkey :: string
  user_sessionkey :: string
  user_lang :: int
  user_description :: string
  user_subscription :: int
  user_last_otp :: string
  user_primary_mobile :: string
  user_primary_email :: string
  user_profiles :: "QueryProfT list"
  user_given_name :: string
  user_is_invited :: bool
  user_tags :: "TagDataT list"
  user_categories :: "string list"
  user_is_admin :: bool
  user_can_add_users :: bool
  user_can_add_tags :: bool
  user_can_add_category :: bool
  user_can_add_items :: bool
  user_can_add_profiles :: bool
  user_keytype :: int
  user_expired :: bool
  user_locked :: bool
  user_manager :: string
  user_is_deleted :: bool
  user_created_at :: "64 word"
  user_updated_at :: "64 word"
  user_notfound :: bool

record ItemRefT =
  ref_id :: "64 word"
  ref_unique_id :: string
  ref_keytype :: int

record CatHostT =
  ch_origin :: string
  ch_categories :: "string list"

record ItemDataT =
  item_id :: "64 word"
  item_unique_id :: string
  item_olddata :: CatHostT
  item_origin :: string
  item_categories :: "string list"
  item_lang :: int
  item_title :: string
  item_summary :: string
  item_details :: string
  item_tags :: "TagDataT list"
  item_attr :: "TagDataT list"
  item_cansee_type :: int
  item_thumbnail :: string
  item_poster :: string
  item_posters :: "string list"
  item_landscape :: string
  item_alias :: ItemRefT
  item_parent :: ItemRefT
  item_importance :: real
  item_contacts :: "VerifiedT list"
  item_local_name :: string
  item_ccode :: string
  item_scode :: string
  item_city :: string
  item_country :: string
  item_state :: string
  item_fld_name :: string
  item_fld_area :: string
  item_address :: string
  item_pincode :: string
  item_region :: string
  item_accuracy :: real
  item_lat :: real
  item_lon :: real
  item_location :: string
  item_landmark :: string
  item_osm_id :: int
  item_osm_key :: string
  item_osm_value :: string
  item_osm_type :: string
  item_geometry :: string
  item_rating :: real
  item_keytype :: int
  item_expired :: bool
  item_locked :: bool
  item_manager :: string
  item_is_deleted :: bool
  item_created_at :: "64 word"
  item_updated_at :: "64 word"
  item_notfound :: bool

section \<open>Default messages\<close>

text \<open>What a message holds before a field is set: zero, the empty string, \<open>false\<close>, the empty list.\<close>

definition NodeT_new :: NodeT where
  "NodeT_new = \<lparr>node_keytype = 0, node_id = 0\<rparr>"

definition TransactionT_new :: "'b TransactionT" where
  "TransactionT_new = \<lparr>tr_id = 0, tr_item = [], tr_ts = 0, tr_updater = [], tr_notfound = False\<rparr>"

definition TransListT_new :: "'b TransListT" where
  "TransListT_new = \<lparr>tl_lastid = 0, tl_limit = 0, tl_trans = [], tl_currid = 0, tl_ts = 0, tl_endpoint = []\<rparr>"

definition SignKeyT_new :: SignKeyT where
  "SignKeyT_new = \<lparr>sk_pubkey = [], sk_seckey = [], sk_algo = []\<rparr>"

definition TagDataT_new :: TagDataT where
  "TagDataT_new = \<lparr>tag_id = 0, tag_keytype = 0, tag_name = [], tag_value = [], tag_lang = 0,
     tag_is_allowed = False, tag_is_repeated = False, tag_is_searchable = False, tag_manager = [],
     tag_is_deleted = False, tag_created_at = 0, tag_updated_at = 0, tag_notfound = False\<rparr>"

definition CategoryT_new :: CategoryT where
  "CategoryT_new = \<lparr>cat_id = 0, cat_name = [], cat_description = [], cat_lang = 0,
     cat_cansee_type = 0, cat_cansee_price = 0, cat_manager = [], cat_is_deleted = False,
     cat_created_at = 0, cat_updated_at = 0, cat_notfound = False\<rparr>"

definition QueryRuleT_new :: QueryRuleT where
  "QueryRuleT_new = \<lparr>qr_weight = 0, qr_max_records = 0, qr_oneword_length = 0, qr_desc = [],
     qr_distance_def = 0, qr_distance_band = 0, qr_limit_type = 0, qr_search_type = 0,
     qr_order_type = 0, qr_input_type = 0\<rparr>"

definition UserDataT_new :: UserDataT where
  "UserDataT_new = \<lparr>user_id = 0, user_name = [], user_signkey = SignKeyT_new, user_passkey = [],
     user_sessionkey = [], user_lang = 0, user_description = [], user_subscription = 0,
     user_last_otp = [], user_primary_mobile = [], user_primary_email = [], user_profiles = [],
     user_given_name = [], user_is_invited = False, user_tags = [], user_categories = [],
     user_is_admin = False, user_can_add_users = False, user_can_add_tags = False,
     user_can_add_category = False, user_can_add_items = False, user_can_add_profiles = False,
     user_keytype = 0, user_expired = False, user_locked = False, user_manager = [],
     user_is_deleted = False, user_created_at = 0, user_updated_at = 0, user_notfound = False\<rparr>"

definition ItemRefT_new :: ItemRefT where
  "ItemRefT_new = \<lparr>ref_id = 0, ref_unique_id = [], ref_keytype = 0\<rparr>"

definition CatHostT_new :: CatHostT where
  "CatHostT_new = \<lparr>ch_origin = [], ch_categories = []\<rparr>"

definition ItemDataT_new :: ItemDataT where
  "ItemDataT_new = \<lparr>item_id = 0, item_unique_id = [], item_olddata = CatHostT_new, item_origin = [],
     item_categories = [], item_lang = 0, item_title = [], item_summary = [], item_details = [],
     item_tags = [], item_attr = [], item_cansee_type = 0, item_thumbnail = [], item_poster = [],
     item_posters = [], item_landscape = [], item_alias = ItemRefT_new, item_parent = ItemRefT_new,
     item_importance = 0, item_contacts = [], item_local_name = [], item_ccode = [], item_scode = [],
     item_city = [], item_country = [], item_state = [], item_fld_name = [], item_fld_area = [],
     item_address = [], item_pincode = [], item_region = [], item_accuracy = 0, item_lat = 0,
     item_lon = 0, item_location = [], item_landmark = [], item_osm_id = 0, item_osm_key = [],
     item_osm_value = [], item_osm_type = [], item_geometry = [], item_rating = 0, item_keytype = 0,
     item_expired = False, item_locked = False, item_manager = [], item_is_deleted = False,
     item_created_at = 0, item_updated_at = 0, item_notfound = False\<rparr>"

section \<open>Queries\<close>

definition W_NONE :: int where "W_NONE = 0"
definition W_CREATE :: int where "W_CREATE = 1"
definition W_UPSERT :: int where "W_UPSERT = 2"
definition W_UPDATE :: int where "W_UPDATE = 3"
definition W_DELETE :: int where "W_DELETE = 4"
definition W_UMERGE :: int where "W_UMERGE = 5"

definition R_NONE :: int where "R_NONE = 0"
definition R_SELF :: int where "R_SELF = 1"
definition R_ADMIN :: int where "R_ADMIN = 2"
definition R_CREATR :: int where "R_CREATR = 3"
definition R_OTHER :: int where "R_OTHER = 4"
definition R_USER :: int where "R_USER = 5"
definition R_PUBLIC :: int where "R_PUBLIC = 6"

lemmas query_enum_defs = W_NONE_def W_CREATE_def W_UPSERT_def W_UPDATE_def W_DELETE_def W_UMERGE_def
  R_NONE_def R_SELF_def R_ADMIN_def R_CREATR_def R_OTHER_def R_USER_def R_PUBLIC_def

record StatusT =
  st_success :: bool
  st_inputcount :: "64 word"
  st_updatecount :: "64 word"

record LoginRespT =
  lr_username :: string
  lr_password :: string
  lr_sessionkey :: string

record ResetRespT =
  rr_username :: string
  rr_oldpass :: string
  rr_newpass :: string
  rr_otp :: string
  rr_status :: StatusT

text \<open>The four responses of the data services share their shape; a payload is a tag, a category, a
  user or an item. Fields a service does not have are not read by it.\<close>

record 'm DataRespT =
  dr_username :: string
  dr_sessionkey :: string
  dr_status :: StatusT
  dr_action :: int
  dr_keytype :: int
  dr_fields :: int
  dr_payload :: 'm
  dr_payloads :: "'m list"

section \<open>Replication\<close>

record RemoteT =
  rem_address :: string
  rem_logcounter :: "64 word"
  rem_updated_at :: "64 word"

record StateT =
  sta_hostname :: string
  sta_master :: string
  sta_logcounter :: "64 word"
  sta_is_master :: bool
  sta_ts :: "64 word"
  sta_thisurl :: string
  sta_remotes :: "RemoteT list"

definition StateT_new :: StateT where
  "StateT_new = \<lparr>sta_hostname = [], sta_master = [], sta_logcounter = 0, sta_is_master = False,
     sta_ts = 0, sta_thisurl = [], sta_remotes = []\<rparr>"

end
