(* ===== verification/Keys.thy ===== *)
theory Keys
  imports Prelude
begin

text \<open>
  Component \<open>StoreBase\<close> (\<open>include/store/StoreBase.hpp\<close>, \<open>src/store/StoreBase.cc\<close>): the key types of
  \<open>proto/Store.proto\<close>, the textual encodings of primary and secondary keys and their decoding,
  and the sanitisers for names. A stream writes numbers in lower-case hexadecimal; the field
  width (\<open>setw\<close>) is a minimum. Keys compare bytewise, which is the lexicographic order of
  \<open>string\<close> here. Proved: decoding inverts encoding, keys of fixed width compare as their
  numbers, keys with different prefixes never meet, the signed encoding keeps the order, and the
  sanitisers are idempotent.
\<close>

section \<open>Key types\<close>

text \<open>Enums of proto3 are open: a value outside the list is kept as its number.\<close>

type_synonym keytype = int

definition K_NONODE :: keytype where "K_NONODE = 10"
definition K_TAGDATA :: keytype where "K_TAGDATA = 11"
definition K_EXTERDATA :: keytype where "K_EXTERDATA = 12"
definition K_USERDATA :: keytype where "K_USERDATA = 13"
definition K_CATEGORY :: keytype where "K_CATEGORY = 15"
definition K_LOCALDATA :: keytype where "K_LOCALDATA = 16"
definition K_WIKIDATA :: keytype where "K_WIKIDATA = 17"
definition K_LOGNODE :: keytype where "K_LOGNODE = 49"
definition K_MAXNODE :: keytype where "K_MAXNODE = 50"
definition I_LOGNODE_TS :: keytype where "I_LOGNODE_TS = 52"
definition U_TAGDATA_KEYTYPE_NAME :: keytype where "U_TAGDATA_KEYTYPE_NAME = 53"
definition U_EXTERDATA_NAME :: keytype where "U_EXTERDATA_NAME = 54"
definition U_USERDATA_NAME :: keytype where "U_USERDATA_NAME = 55"
definition F_USERDATA_NAME_CATEGORY :: keytype where "F_USERDATA_NAME_CATEGORY = 56"
definition U_CATEGORY_NAME :: keytype where "U_CATEGORY_NAME = 62"
definition U_LOCALDATA_UNIQUEID :: keytype where "U_LOCALDATA_UNIQUEID = 71"
definition U_WIKIDATA_UNIQUEID :: keytype where "U_WIKIDATA_UNIQUEID = 72"
definition NOKEY :: keytype where "NOKEY = 0"

lemmas keytype_defs = K_NONODE_def K_TAGDATA_def K_EXTERDATA_def K_USERDATA_def K_CATEGORY_def
  K_LOCALDATA_def K_WIKIDATA_def K_LOGNODE_def K_MAXNODE_def I_LOGNODE_TS_def
  U_TAGDATA_KEYTYPE_NAME_def U_EXTERDATA_NAME_def U_USERDATA_NAME_def
  F_USERDATA_NAME_CATEGORY_def U_CATEGORY_NAME_def U_LOCALDATA_UNIQUEID_def
  U_WIKIDATA_UNIQUEID_def NOKEY_def

definition ZPDS_KEYID_LEN :: nat where "ZPDS_KEYID_LEN = 2"
definition ZPDS_NODE_LEN :: nat where "ZPDS_NODE_LEN = 16"

section \<open>Hexadecimal output\<close>

definition hexd :: "nat \<Rightarrow> char" where
  "hexd d = (if d < 10 then char_of (48 + d) else char_of (87 + d))"

fun to_hex :: "nat \<Rightarrow> string" where
  "to_hex n = (if n < 16 then [hexd n] else to_hex (n div 16) @ [hexd (n mod 16)])"

declare to_hex.simps [simp del]

text \<open>\<open>ZPDS_MACRO_HEX(w) << n\<close>: at least \<open>w\<close> characters, filled with \<open>0\<close> on the left.\<close>

definition ZPDS_MACRO_HEX :: "nat \<Rightarrow> nat \<Rightarrow> string" where
  "ZPDS_MACRO_HEX w n = replicate (w - length (to_hex n)) (CHR ''0'') @ to_hex n"

text \<open>The key type is printed as an \<open>unsigned short\<close>.\<close>

definition ZPDS_FMT_ID_KEY :: "keytype \<Rightarrow> string" where
  "ZPDS_FMT_ID_KEY k = ZPDS_MACRO_HEX ZPDS_KEYID_LEN (nat (k mod 65536))"

definition ZPDS_FMT_NODE_ONLY :: "64 word \<Rightarrow> string" where
  "ZPDS_FMT_NODE_ONLY i = ZPDS_MACRO_HEX ZPDS_NODE_LEN (unat i)"

definition EncodeKeyType :: "keytype \<Rightarrow> string" where
  "EncodeKeyType k = ZPDS_FMT_ID_KEY k"

definition EncodePrimaryKey :: "keytype \<Rightarrow> 64 word \<Rightarrow> string" where
  "EncodePrimaryKey k i = ZPDS_FMT_ID_KEY k @ ZPDS_FMT_NODE_ONLY i"

section \<open>Hexadecimal input\<close>

text \<open>\<open>std::stoi(s,0,16)\<close> and \<open>std::stoull(s,0,16)\<close>: leading white space, a sign, a prefix \<open>0x\<close> and
  then the longest run of hexadecimal digits; no digit at all raises \<open>std::invalid_argument\<close>.
  The strings read here have at most sixteen characters, so no value is out of range.\<close>

definition xval :: "char \<Rightarrow> nat option" where
  "xval c = (let n = of_char c in
     if 48 \<le> n \<and> n \<le> 57 then Some (n - 48)
     else if 97 \<le> n \<and> n \<le> 102 then Some (n - 87)
     else if 65 \<le> n \<and> n \<le> 70 then Some (n - 55) else None)"

fun read_digits :: "string \<Rightarrow> nat \<Rightarrow> nat" where
  "read_digits [] acc = acc"
| "read_digits (c # cs) acc = (case xval c of None \<Rightarrow> acc | Some d \<Rightarrow> read_digits cs (16 * acc + d))"

fun strip_sign :: "string \<Rightarrow> bool \<times> string" where
  "strip_sign [] = (False, [])"
| "strip_sign (c # cs) =
     (if c = CHR ''-'' then (True, cs) else if c = CHR ''+'' then (False, cs) else (False, c # cs))"

fun strip_0x :: "string \<Rightarrow> string" where
  "strip_0x (c # x # d # cs) =
     (if c = CHR ''0'' \<and> (x = CHR ''x'' \<or> x = CHR ''X'') \<and> xval d \<noteq> None then d # cs else c # x # d # cs)"
| "strip_0x cs = cs"

definition strtoull16 :: "string \<Rightarrow> (bool \<times> nat) option" where
  "strtoull16 s = (let (neg, r) = strip_sign (dropWhile isspace s); ds = strip_0x r in
     case ds of [] \<Rightarrow> None
     | d # _ \<Rightarrow> (if xval d = None then None else Some (neg, read_digits ds 0)))"

definition stoi16 :: "string \<Rightarrow> int res" where
  "stoi16 s = (case strtoull16 s of None \<Rightarrow> Inl (StdException ''stoi'')
     | Some (neg, n) \<Rightarrow> Inr (if neg then - int n else int n))"

definition stoull16 :: "string \<Rightarrow> 64 word res" where
  "stoull16 s = (case strtoull16 s of None \<Rightarrow> Inl (StdException ''stoull'')
     | Some (neg, n) \<Rightarrow> Inr (if neg then - of_nat n else of_nat n))"

definition CheckPrimaryKey :: "string \<Rightarrow> bool res" where
  "CheckPrimaryKey key =
     (if length key \<noteq> ZPDS_KEYID_LEN + ZPDS_NODE_LEN then Inr False
      else bindR (stoi16 (take ZPDS_KEYID_LEN key)) (\<lambda>x. Inr (K_NONODE \<le> x \<and> x \<le> K_MAXNODE)))"

definition DecodePrimaryKey :: "string \<Rightarrow> (keytype \<times> 64 word) res" where
  "DecodePrimaryKey key =
     bindR (CheckPrimaryKey key) (\<lambda>ok.
       if \<not> ok then Inl (BadDataException ''Invalid Key probed'' 0)
       else bindR (stoi16 (take ZPDS_KEYID_LEN key)) (\<lambda>x.
            bindR (stoull16 (take ZPDS_NODE_LEN (drop ZPDS_KEYID_LEN key))) (\<lambda>y. Inr (x, y))))"

section \<open>Secondary keys\<close>

text \<open>The types the variadic templates accept, as the tags of one argument.\<close>

datatype keyarg = AStr string | AU64 "64 word" | AU32 "32 word" | AI64 "64 word" | AI32 "32 word"

definition ZPDS_FMT_SEP :: char where "ZPDS_FMT_SEP = char_of (30 :: nat)"

definition ZPDS_MAX_INTVAL :: "64 word" where "ZPDS_MAX_INTVAL = 0x7FFFFFFFFFFFFFFF"

text \<open>\<open>ZPDS_MAX_INTVAL - |t|\<close> for negative \<open>t\<close>, \<open>ZPDS_MAX_INTVAL + |t|\<close> otherwise, in unsigned
  64-bit arithmetic. \<open>std::abs\<close> of the smallest integer is undefined in the source; here it wraps.\<close>

definition shift64 :: "64 word \<Rightarrow> 64 word" where
  "shift64 t = (if sint t < 0 then ZPDS_MAX_INTVAL - (- t) else ZPDS_MAX_INTVAL + t)"

definition shift32 :: "32 word \<Rightarrow> 64 word" where
  "shift32 t = (if sint t < 0 then ZPDS_MAX_INTVAL - scast (- t) else ZPDS_MAX_INTVAL + scast t)"

fun keyarg_text :: "keyarg \<Rightarrow> string" where
  "keyarg_text (AStr s) = s"
| "keyarg_text (AU64 w) = ZPDS_FMT_NODE_ONLY w"
| "keyarg_text (AU32 w) = ZPDS_FMT_NODE_ONLY (ucast w)"
| "keyarg_text (AI64 w) = ZPDS_FMT_NODE_ONLY (shift64 w)"
| "keyarg_text (AI32 w) = ZPDS_FMT_NODE_ONLY (shift32 w)"

fun MakeSuffix :: "keyarg list \<Rightarrow> string" where
  "MakeSuffix [] = []"
| "MakeSuffix (a # as) = ZPDS_FMT_SEP # keyarg_text a @ MakeSuffix as"

fun MakePrefix :: "keytype \<Rightarrow> keyarg list \<Rightarrow> string" where
  "MakePrefix k [] = []"
| "MakePrefix k (a # as) = ZPDS_FMT_ID_KEY k @ keyarg_text a @ MakeSuffix as"

definition EncodeSecondaryKey :: "keytype \<Rightarrow> keyarg list \<Rightarrow> string" where
  "EncodeSecondaryKey k as = MakePrefix k as"

section \<open>Sanitisers\<close>

definition SanitNSLower :: "string \<Rightarrow> string" where
  "SanitNSLower orig = concat (map (\<lambda>c. if isalnum c then [tolower c]
     else if c = CHR ''-'' \<or> c = CHR ''.'' \<or> c = CHR ''_'' then [c] else []) orig)"

text \<open>The two loops differ in what they do to a kept letter; the flag says whether the last
  character written was a space.\<close>

fun sanit_loop :: "(char \<Rightarrow> char) \<Rightarrow> bool \<Rightarrow> string \<Rightarrow> string" where
  "sanit_loop f last_is_space [] = []"
| "sanit_loop f last_is_space (c # cs) =
     (if isalnum c then f c # sanit_loop f False cs
      else if ispunct c then c # sanit_loop f False cs
      else if isspace c then
        (if last_is_space then sanit_loop f True cs else c # sanit_loop f True cs)
      else sanit_loop f last_is_space cs)"

text \<open>\<open>boost::algorithm::trim_copy\<close>\<close>

definition trim_copy :: "string \<Rightarrow> string" where
  "trim_copy s = rev (dropWhile isspace (rev (dropWhile isspace s)))"

definition SanitLower :: "string \<Rightarrow> bool \<Rightarrow> string" where
  "SanitLower orig notrim =
     (if orig = [] then [] else let x = sanit_loop tolower False orig in if notrim then x else trim_copy x)"

definition SanitKeepCase :: "string \<Rightarrow> bool \<Rightarrow> string" where
  "SanitKeepCase orig notrim =
     (if orig = [] then [] else let x = sanit_loop (\<lambda>c. c) False orig in if notrim then x else trim_copy x)"

section \<open>Fixed-width hexadecimal\<close>

text \<open>The last \<open>w\<close> digits, which is what the padded output is for a number of at most \<open>w\<close> digits.\<close>

fun hexn :: "nat \<Rightarrow> nat \<Rightarrow> string" where
  "hexn 0 n = []"
| "hexn (Suc w) n = hexn w (n div 16) @ [hexd (n mod 16)]"

lemma length_hexn [simp]: "length (hexn w n) = w"
  by (induction w arbitrary: n) auto

lemma of_char_hexd: "d < 16 \<Longrightarrow> (of_char (hexd d) :: nat) = (if d < 10 then 48 + d else 87 + d)"
  by (auto simp: hexd_def of_char_of)

lemma hexd_less_iff: "a < 16 \<Longrightarrow> b < 16 \<Longrightarrow> hexd a < hexd b \<longleftrightarrow> a < b"
  by (simp add: less_char_def of_char_hexd)

lemma hexd_inject: "a < 16 \<Longrightarrow> b < 16 \<Longrightarrow> hexd a = hexd b \<longleftrightarrow> a = b"
  by (metis hexd_less_iff linorder_neq_iff)

lemma hexd_0 [simp]: "hexd 0 = CHR ''0''"
  by code_simp

lemma hexn_0: "hexn w 0 = replicate w (CHR ''0'')"
  by (induction w) (auto simp: replicate_append_same)

lemma hexn_inject: "n < 16 ^ w \<Longrightarrow> m < 16 ^ w \<Longrightarrow> hexn w n = hexn w m \<longleftrightarrow> n = m"
proof (induction w arbitrary: n m)
  case 0
  then show ?case by simp
next
  case (Suc w)
  then have "n div 16 < 16 ^ w" "m div 16 < 16 ^ w" by auto
  from Suc.IH [OF this] show ?case
    by (auto simp: hexd_inject) (metis div_mult_mod_eq)
qed

lemma digit_less: "n < m \<longleftrightarrow> n div 16 < m div 16 \<or> (n div 16 = m div 16 \<and> n mod 16 < m mod (16::nat))"
proof -
  have n: "n = 16 * (n div 16) + n mod 16" and m: "m = 16 * (m div 16) + m mod 16" by simp_all
  have b: "n mod 16 < 16" "m mod 16 < 16" by simp_all
  consider "n div 16 < m div 16" | "n div 16 = m div 16" | "m div 16 < n div 16" by linarith
  then show ?thesis
    using n m b by cases linarith+
qed

lemma hexn_less: "n < 16 ^ w \<Longrightarrow> m < 16 ^ w \<Longrightarrow> hexn w n < hexn w m \<longleftrightarrow> n < m"
proof (induction w arbitrary: n m)
  case 0
  then show ?case by simp
next
  case (Suc w)
  then have b: "n div 16 < 16 ^ w" "m div 16 < 16 ^ w" by auto
  have "hexn (Suc w) n < hexn (Suc w) m \<longleftrightarrow>
      n div 16 < m div 16 \<or> (n div 16 = m div 16 \<and> n mod 16 < m mod 16)"
    by (simp add: less_snoc_iff Suc.IH [OF b] hexn_inject [OF b] hexd_less_iff)
  also have "\<dots> \<longleftrightarrow> n < m"
    by (rule digit_less [symmetric])
  finally show ?case .
qed

lemma length_to_hex: "n < 16 ^ Suc w \<Longrightarrow> length (to_hex n) \<le> Suc w"
proof (induction w arbitrary: n)
  case 0
  then show ?case by (simp add: to_hex.simps [of n])
next
  case (Suc w)
  then have "n div 16 < 16 ^ Suc w" by auto
  from Suc.IH [OF this] show ?case by (subst to_hex.simps) simp
qed

lemma ZPDS_MACRO_HEX_hexn: "n < 16 ^ Suc w \<Longrightarrow> ZPDS_MACRO_HEX (Suc w) n = hexn (Suc w) n"
proof (induction w arbitrary: n)
  case 0
  then show ?case by (simp add: ZPDS_MACRO_HEX_def to_hex.simps [of n])
next
  case (Suc w)
  show ?case
  proof (cases "n < 16")
    case True
    then show ?thesis
      by (simp add: ZPDS_MACRO_HEX_def to_hex.simps [of n] hexn_0 replicate_append_same flip: replicate_Suc)
  next
    case False
    from Suc.prems have b: "n div 16 < 16 ^ Suc w" by auto
    have "ZPDS_MACRO_HEX (Suc (Suc w)) n = ZPDS_MACRO_HEX (Suc w) (n div 16) @ [hexd (n mod 16)]"
      using False by (simp add: ZPDS_MACRO_HEX_def to_hex.simps [of n])
    also have "\<dots> = hexn (Suc (Suc w)) n"
      by (simp only: Suc.IH [OF b] hexn.simps(2) [of "Suc w" n])
    finally show ?thesis .
  qed
qed

text \<open>The byte key types (\<open>0\<close> to \<open>255\<close>) all have two digits.\<close>

definition byte_keytype :: "keytype \<Rightarrow> bool" where
  "byte_keytype k \<longleftrightarrow> 0 \<le> k \<and> k < 256"

lemma byte_keytypes [simp, key_simps]:
  "byte_keytype K_NONODE" "byte_keytype K_TAGDATA" "byte_keytype K_EXTERDATA"
  "byte_keytype K_USERDATA" "byte_keytype K_CATEGORY" "byte_keytype K_LOCALDATA"
  "byte_keytype K_WIKIDATA" "byte_keytype K_LOGNODE" "byte_keytype K_MAXNODE"
  "byte_keytype I_LOGNODE_TS" "byte_keytype U_TAGDATA_KEYTYPE_NAME"
  "byte_keytype U_EXTERDATA_NAME" "byte_keytype U_USERDATA_NAME"
  "byte_keytype F_USERDATA_NAME_CATEGORY" "byte_keytype U_CATEGORY_NAME"
  "byte_keytype U_LOCALDATA_UNIQUEID" "byte_keytype U_WIKIDATA_UNIQUEID"
  by (simp_all add: byte_keytype_def keytype_defs)

lemma ZPDS_FMT_ID_KEY_hexn: "byte_keytype k \<Longrightarrow> ZPDS_FMT_ID_KEY k = hexn 2 (nat k)"
  using ZPDS_MACRO_HEX_hexn [of "nat k" 1]
  by (simp add: ZPDS_FMT_ID_KEY_def byte_keytype_def ZPDS_KEYID_LEN_def numeral_2_eq_2 nat_less_iff del: hexn.simps)

lemma length_ZPDS_FMT_ID_KEY [simp]: "byte_keytype k \<Longrightarrow> length (ZPDS_FMT_ID_KEY k) = 2"
  by (simp add: ZPDS_FMT_ID_KEY_hexn)

lemma ZPDS_FMT_ID_KEY_inject:
  "byte_keytype k \<Longrightarrow> byte_keytype l \<Longrightarrow> ZPDS_FMT_ID_KEY k = ZPDS_FMT_ID_KEY l \<longleftrightarrow> k = l"
  by (auto simp: ZPDS_FMT_ID_KEY_hexn byte_keytype_def hexn_inject)

lemma ZPDS_FMT_ID_KEY_less:
  "byte_keytype k \<Longrightarrow> byte_keytype l \<Longrightarrow> ZPDS_FMT_ID_KEY k < ZPDS_FMT_ID_KEY l \<longleftrightarrow> k < l"
  by (auto simp: ZPDS_FMT_ID_KEY_hexn byte_keytype_def hexn_less)

lemma unat64_less: "unat (w :: 64 word) < 16 ^ 16"
  using unsigned_less [of w, where ?'a = nat] by simp

lemma ZPDS_FMT_NODE_ONLY_hexn: "ZPDS_FMT_NODE_ONLY i = hexn 16 (unat i)"
  using ZPDS_MACRO_HEX_hexn [of "unat i" 15] unat64_less [of i]
  by (simp add: ZPDS_FMT_NODE_ONLY_def ZPDS_NODE_LEN_def)

lemma length_ZPDS_FMT_NODE_ONLY [simp]: "length (ZPDS_FMT_NODE_ONLY i) = 16"
  by (simp add: ZPDS_FMT_NODE_ONLY_hexn)

lemma ZPDS_FMT_NODE_ONLY_inject [simp]: "ZPDS_FMT_NODE_ONLY i = ZPDS_FMT_NODE_ONLY j \<longleftrightarrow> i = j"
  by (simp add: ZPDS_FMT_NODE_ONLY_hexn hexn_inject unat64_less [simplified] word_unat_eq_iff)

lemma ZPDS_FMT_NODE_ONLY_less: "ZPDS_FMT_NODE_ONLY i < ZPDS_FMT_NODE_ONLY j \<longleftrightarrow> i < j"
  by (simp add: ZPDS_FMT_NODE_ONLY_hexn hexn_less unat64_less [simplified] word_less_nat_alt)

section \<open>The interface of a fixed-width key text\<close>

text \<open>What the store relies on: texts of one width, compared as the ranks of what they encode.\<close>

locale fixed_key =
  fixes enc :: "'a \<Rightarrow> string" and rank :: "'a \<Rightarrow> int" and width :: nat and ok :: "'a \<Rightarrow> bool"
  assumes enc_length: "ok x \<Longrightarrow> length (enc x) = width"
    and enc_less: "ok x \<Longrightarrow> ok y \<Longrightarrow> enc x < enc y \<longleftrightarrow> rank x < rank y"
    and rank_inject: "ok x \<Longrightarrow> ok y \<Longrightarrow> rank x = rank y \<Longrightarrow> x = y"
begin

lemma enc_inject: "ok x \<Longrightarrow> ok y \<Longrightarrow> enc x = enc y \<longleftrightarrow> x = y"
  using enc_less [of x y] enc_less [of y x] rank_inject [of x y] by auto

lemma enc_append_less:
  "ok x \<Longrightarrow> ok y \<Longrightarrow> enc x @ s < enc y @ t \<longleftrightarrow> rank x < rank y \<or> (x = y \<and> s < t)"
  by (simp add: less_append_iff enc_length enc_less enc_inject)

lemma enc_append_inject: "ok x \<Longrightarrow> ok y \<Longrightarrow> enc x @ s = enc y @ t \<longleftrightarrow> x = y \<and> s = t"
  using enc_length [of x] enc_length [of y] by (auto simp: append_eq_append_conv enc_inject)

lemma starts_with_enc: "ok x \<Longrightarrow> ok y \<Longrightarrow> starts_with (enc x @ s) (enc y) \<longleftrightarrow> x = y"
  by (auto simp: starts_with_def enc_length enc_inject)

end

interpretation id_key: fixed_key ZPDS_FMT_ID_KEY "\<lambda>k. k" 2 byte_keytype
  by unfold_locales (simp_all add: ZPDS_FMT_ID_KEY_less)

interpretation node_key: fixed_key ZPDS_FMT_NODE_ONLY uint 16 "\<lambda>_. True"
  by unfold_locales (simp_all add: ZPDS_FMT_NODE_ONLY_less word_less_def word_uint_eq_iff)

text \<open>The signed encoding keeps the order of the signed values; the smallest integer, for which
  \<open>std::abs\<close> is undefined, is left out.\<close>

lemma uint_word_of_int64: "0 \<le> x \<Longrightarrow> x < 2 ^ 64 \<Longrightarrow> uint (word_of_int x :: 64 word) = x"
  by (simp add: uint_word_of_int take_bit_int_eq_self)

lemma uint_shift64:
  assumes "- (2 ^ 63) < sint (t :: 64 word)"
  shows "uint (shift64 t) = 2 ^ 63 - 1 + sint t"
proof -
  have t: "t = word_of_int (sint t)" by simp
  have r: "sint t < 2 ^ 63" using sint_less [of t] by simp
  have m: "ZPDS_MAX_INTVAL = word_of_int (2 ^ 63 - 1)" by (simp add: ZPDS_MAX_INTVAL_def)
  have "shift64 t = ZPDS_MAX_INTVAL + t" by (simp add: shift64_def)
  also have "\<dots> = word_of_int (2 ^ 63 - 1 + sint t)"
    by (subst (1) t) (simp only: m wi_hom_add)
  finally have "uint (shift64 t) = uint (word_of_int (2 ^ 63 - 1 + sint t) :: 64 word)" by (rule arg_cong)
  also have "\<dots> = 2 ^ 63 - 1 + sint t"
    using assms r by (intro uint_word_of_int64) auto
  finally show ?thesis .
qed

interpretation i64_key: fixed_key "\<lambda>t. keyarg_text (AI64 t)" sint 16 "\<lambda>t. - (2 ^ 63) < sint t"
proof (unfold_locales, goal_cases)
  case (1 t)
  then show ?case by simp
next
  case (2 t u)
  then show ?case by (simp add: ZPDS_FMT_NODE_ONLY_less word_less_def uint_shift64)
next
  case (3 t u)
  then have "word_of_int (sint t) = (word_of_int (sint u) :: 64 word)" by simp
  then show ?case by simp
qed

definition prim_text :: "keytype \<times> 64 word \<Rightarrow> string" where
  "prim_text p = EncodePrimaryKey (fst p) (snd p)"

interpretation prim_key: fixed_key prim_text "\<lambda>p. fst p * 2 ^ 64 + uint (snd p)" 18 "\<lambda>p. byte_keytype (fst p)"
proof (unfold_locales, goal_cases)
  case (1 p)
  then show ?case by (simp add: prim_text_def EncodePrimaryKey_def)
next
  case (2 p q)
  have b: "0 \<le> uint (snd p)" "uint (snd p) < 2 ^ 64" "0 \<le> uint (snd q)" "uint (snd q) < 2 ^ 64"
    using uint_lt2p [of "snd p"] uint_lt2p [of "snd q"] by simp_all
  have "prim_text p < prim_text q \<longleftrightarrow> fst p < fst q \<or> (fst p = fst q \<and> uint (snd p) < uint (snd q))"
    using 2 by (simp add: prim_text_def EncodePrimaryKey_def id_key.enc_append_less
        ZPDS_FMT_NODE_ONLY_less word_less_def)
  also have "\<dots> \<longleftrightarrow> fst p * 2 ^ 64 + uint (snd p) < fst q * 2 ^ 64 + uint (snd q)"
    using b by (auto; linarith)
  finally show ?case .
next
  case (3 p q)
  have b: "0 \<le> uint (snd p)" "uint (snd p) < 2 ^ 64" "0 \<le> uint (snd q)" "uint (snd q) < 2 ^ 64"
    using uint_lt2p [of "snd p"] uint_lt2p [of "snd q"] by simp_all
  from 3(3) b have "fst p = fst q" by (simp; linarith)
  with 3(3) show ?case by (simp add: prod_eq_iff word_uint_eq_iff)
qed

section \<open>Decoding inverts encoding\<close>

lemma xval_hexd [simp]: "d < 16 \<Longrightarrow> xval (hexd d) = Some d"
  by (auto simp: xval_def of_char_hexd)

lemma hexd_not_syntax:
  assumes "d < 16"
  shows "\<not> isspace (hexd d)" "hexd d \<noteq> CHR ''-''" "hexd d \<noteq> CHR ''+''" "hexd d \<noteq> CHR ''x''"
    "hexd d \<noteq> CHR ''X''"
proof -
  have n: "(of_char (hexd d) :: nat) = (if d < 10 then 48 + d else 87 + d)"
    using assms by (rule of_char_hexd)
  then show "\<not> isspace (hexd d)" by (auto simp: isspace_def)
  from n assms show "hexd d \<noteq> CHR ''-''" "hexd d \<noteq> CHR ''+''" "hexd d \<noteq> CHR ''x''" "hexd d \<noteq> CHR ''X''"
    by (auto split: if_splits)
qed

lemma read_digits_hexn: "read_digits (hexn w n @ cs) acc = read_digits cs (16 ^ w * acc + n mod 16 ^ w)"
proof (induction w arbitrary: n cs acc)
  case 0
  then show ?case by simp
next
  case (Suc w)
  have "16 * (16 ^ w * acc + n div 16 mod 16 ^ w) + n mod 16 = 16 ^ Suc w * acc + n mod 16 ^ Suc w"
    by (simp add: mod_mult2_eq)
  then show ?case by (simp add: Suc.IH del: power_Suc)
qed

lemma hexn_digits: "\<forall>c \<in> set (hexn w n). \<exists>d < 16. c = hexd d"
  by (induction w arbitrary: n) (auto intro!: exI [of _ "_ mod 16"])

lemma strip_sign_hexn: "strip_sign (hexn w n) = (False, hexn w n)"
  using hexn_digits [of w n] by (cases "hexn w n") (auto simp: hexd_not_syntax)

lemma strip_0x_hexn: "strip_0x (hexn w n) = hexn w n"
  using hexn_digits [of w n] by (cases "hexn w n" rule: strip_0x.cases) (auto simp: hexd_not_syntax)

lemma dropWhile_isspace_hexn: "dropWhile isspace (hexn w n) = hexn w n"
  using hexn_digits [of w n] by (cases "hexn w n") (auto simp: hexd_not_syntax)

lemma strtoull16_hexn:
  assumes "n < 16 ^ Suc w"
  shows "strtoull16 (hexn (Suc w) n) = Some (False, n)"
proof -
  have r: "read_digits (hexn (Suc w) n) 0 = n"
    using read_digits_hexn [of "Suc w" n "[]" 0] assms by simp
  have u: "strtoull16 (hexn (Suc w) n) = (case hexn (Suc w) n of [] \<Rightarrow> None
      | d # _ \<Rightarrow> (if xval d = None then None else Some (False, read_digits (hexn (Suc w) n) 0)))"
    by (simp only: strtoull16_def dropWhile_isspace_hexn strip_sign_hexn strip_0x_hexn Let_def prod.case)
  show ?thesis
  proof (cases "hexn (Suc w) n")
    case Nil
    then show ?thesis by (metis length_hexn list.size(3) nat.distinct(1))
  next
    case (Cons c cs)
    then have "\<exists>d < 16. c = hexd d" using hexn_digits [of "Suc w" n] by auto
    then have "xval c \<noteq> None" by auto
    with u r show ?thesis by (simp only: Cons list.case if_False)
  qed
qed

lemma stoi16_ID_KEY: "byte_keytype k \<Longrightarrow> stoi16 (ZPDS_FMT_ID_KEY k) = Inr k"
  using strtoull16_hexn [of "nat k" 1]
  by (auto simp: stoi16_def ZPDS_FMT_ID_KEY_hexn byte_keytype_def numeral_2_eq_2 nat_less_iff
      simp del: hexn.simps)

lemma stoull16_NODE: "stoull16 (ZPDS_FMT_NODE_ONLY i) = Inr i"
  using strtoull16_hexn [of "unat i" 15] unat64_less [of i]
  by (simp add: stoull16_def ZPDS_FMT_NODE_ONLY_hexn del: hexn.simps)

lemma length_EncodePrimaryKey [simp]: "byte_keytype k \<Longrightarrow> length (EncodePrimaryKey k i) = 18"
  by (simp add: EncodePrimaryKey_def)

lemma CheckPrimaryKey_Encode:
  "byte_keytype k \<Longrightarrow> CheckPrimaryKey (EncodePrimaryKey k i) = Inr (K_NONODE \<le> k \<and> k \<le> K_MAXNODE)"
  by (simp add: CheckPrimaryKey_def ZPDS_KEYID_LEN_def ZPDS_NODE_LEN_def)
    (simp add: EncodePrimaryKey_def stoi16_ID_KEY)

lemma DecodePrimaryKey_Encode:
  "K_NONODE \<le> k \<Longrightarrow> k \<le> K_MAXNODE \<Longrightarrow> DecodePrimaryKey (EncodePrimaryKey k i) = Inr (k, i)"
proof -
  assume k: "K_NONODE \<le> k" "k \<le> K_MAXNODE"
  then have b: "byte_keytype k" by (simp add: byte_keytype_def keytype_defs)
  with k show ?thesis
    by (simp add: DecodePrimaryKey_def CheckPrimaryKey_Encode ZPDS_KEYID_LEN_def ZPDS_NODE_LEN_def)
      (simp add: EncodePrimaryKey_def stoi16_ID_KEY stoull16_NODE)
qed

text \<open>A key that starts with the digits of a key type outside the primary range is never taken for a
  primary key, whatever follows.\<close>

lemma CheckPrimaryKey_other:
  assumes "byte_keytype k" and "k < K_NONODE \<or> K_MAXNODE < k"
  shows "CheckPrimaryKey (ZPDS_FMT_ID_KEY k @ s) = Inr False"
  using assms by (auto simp: CheckPrimaryKey_def ZPDS_KEYID_LEN_def stoi16_ID_KEY)

section \<open>Secondary keys\<close>

lemma EncodeSecondaryKey_Cons:
  "EncodeSecondaryKey k (a # as) = ZPDS_FMT_ID_KEY k @ keyarg_text a @ MakeSuffix as"
  by (simp add: EncodeSecondaryKey_def)

lemma EncodeSecondaryKey_str_inject:
  "EncodeSecondaryKey k [AStr s] = EncodeSecondaryKey k [AStr t] \<longleftrightarrow> s = t"
  by (simp add: EncodeSecondaryKey_Cons)

lemma EncodeSecondaryKey_type_inject:
  "byte_keytype k \<Longrightarrow> byte_keytype l \<Longrightarrow>
    EncodeSecondaryKey k (a # as) = EncodeSecondaryKey l (b # bs) \<longleftrightarrow>
    k = l \<and> keyarg_text a @ MakeSuffix as = keyarg_text b @ MakeSuffix bs"
  by (simp add: EncodeSecondaryKey_Cons ZPDS_FMT_ID_KEY_inject append_eq_append_conv)

lemma uint_shift32:
  assumes "- (2 ^ 31) < sint (t :: 32 word)"
  shows "uint (shift32 t) = 2 ^ 63 - 1 + sint t"
proof -
  have r: "- (2 ^ 31) \<le> sint t" "sint t < 2 ^ 31" using sint_less [of t] sint_ge [of t] by simp_all
  have m: "ZPDS_MAX_INTVAL = word_of_int (2 ^ 63 - 1)" by (simp add: ZPDS_MAX_INTVAL_def)
  have sg: "signed_take_bit 31 x = x" if "- (2 ^ 31) \<le> x" "x < 2 ^ 31" for x :: int
    using that by (simp add: signed_take_bit_int_eq_self)
  have neg: "sint (- t) = - sint t"
    using assms r sg [of "- sint t"] by (simp add: sint_word_ariths)
  have "shift32 t = word_of_int (2 ^ 63 - 1 + sint t)"
  proof (cases "sint t < 0")
    case True
    have "(scast (- t) :: 64 word) = word_of_int (- sint t)"
      by (metis neg scast_eq)
    with True show ?thesis by (simp add: shift32_def m wi_hom_sub flip: wi_hom_neg)
  next
    case False
    have "(scast t :: 64 word) = word_of_int (sint t)" by (rule scast_eq)
    with False show ?thesis by (simp add: shift32_def m flip: wi_hom_add)
  qed
  then have "uint (shift32 t) = uint (word_of_int (2 ^ 63 - 1 + sint t) :: 64 word)" by simp
  also have "\<dots> = 2 ^ 63 - 1 + sint t"
    using r by (intro uint_word_of_int64) auto
  finally show ?thesis .
qed

interpretation i32_key: fixed_key "\<lambda>t. keyarg_text (AI32 t)" sint 16 "\<lambda>t. - (2 ^ 31) < sint t"
proof (unfold_locales, goal_cases)
  case (1 t)
  then show ?case by simp
next
  case (2 t u)
  then show ?case by (simp add: ZPDS_FMT_NODE_ONLY_less word_less_def uint_shift32)
next
  case (3 t u)
  then have "word_of_int (sint t) = (word_of_int (sint u) :: 32 word)" by simp
  then show ?case by simp
qed

lemma MakeSuffix_str [simp]: "MakeSuffix [AStr s] = ZPDS_FMT_SEP # s"
  by simp

text \<open>Two strings under one key type determine the key when the first has no separator.\<close>

lemma EncodeSecondaryKey_str2_inject:
  assumes "ZPDS_FMT_SEP \<notin> set s" and "ZPDS_FMT_SEP \<notin> set t"
  shows "EncodeSecondaryKey k [AStr s, AStr u] = EncodeSecondaryKey k [AStr t, AStr v] \<longleftrightarrow> s = t \<and> u = v"
  using append_sep_inject [OF _ assms, of u v] by (auto simp: EncodeSecondaryKey_Cons)

section \<open>The sanitisers\<close>

definition ns_char :: "char \<Rightarrow> bool" where
  "ns_char c \<longleftrightarrow> isalnum c \<and> \<not> isupper c \<or> c = CHR ''-'' \<or> c = CHR ''.'' \<or> c = CHR ''_''"

lemma SanitNSLower_Nil [simp]: "SanitNSLower [] = []"
  by (simp add: SanitNSLower_def)

lemma SanitNSLower_Cons: "SanitNSLower (c # cs) =
    (if isalnum c then [tolower c] else if c = CHR ''-'' \<or> c = CHR ''.'' \<or> c = CHR ''_'' then [c] else [])
    @ SanitNSLower cs"
  by (simp add: SanitNSLower_def)

lemma SanitNSLower_chars: "c \<in> set (SanitNSLower s) \<Longrightarrow> ns_char c"
  by (induction s) (auto simp: SanitNSLower_Cons ns_char_def split: if_splits)

lemma tolower_ns_char: "ns_char c \<Longrightarrow> isalnum c \<Longrightarrow> tolower c = c"
  by (auto simp: ns_char_def tolower_def isupper_def)

lemma SanitNSLower_id: "\<forall>c \<in> set s. ns_char c \<Longrightarrow> SanitNSLower s = s"
  by (induction s) (auto simp: SanitNSLower_Cons tolower_ns_char, auto simp: ns_char_def)

lemma SanitNSLower_idem: "SanitNSLower (SanitNSLower s) = SanitNSLower s"
  by (rule SanitNSLower_id) (auto dest: SanitNSLower_chars)

lemma SanitNSLower_fixpoint_iff: "SanitNSLower s = s \<longleftrightarrow> (\<forall>c \<in> set s. ns_char c)"
  by (metis SanitNSLower_chars SanitNSLower_id)

lemma ns_char_not_sep: "\<not> ns_char ZPDS_FMT_SEP"
  by code_simp

lemma SanitNSLower_no_sep: "SanitNSLower s = s \<Longrightarrow> ZPDS_FMT_SEP \<notin> set s"
  using ns_char_not_sep by (auto simp: SanitNSLower_fixpoint_iff)

text \<open>The loop of the other two: its output keeps the loop's own shape (\<open>squeezed\<close>), and the loop is
  the identity on that shape.\<close>

fun squeezed :: "(char \<Rightarrow> bool) \<Rightarrow> bool \<Rightarrow> string \<Rightarrow> bool" where
  "squeezed ok sp [] = True"
| "squeezed ok sp (c # cs) =
     (if isalnum c then ok c \<and> squeezed ok False cs
      else if ispunct c then squeezed ok False cs
      else if isspace c then \<not> sp \<and> squeezed ok True cs else False)"

lemma sanit_loop_squeezed:
  assumes "\<And>c. isalnum c \<Longrightarrow> isalnum (f c) \<and> ok (f c)"
  shows "squeezed ok sp (sanit_loop f sp s)"
  using assms by (induction s arbitrary: sp) auto

lemma sanit_loop_id:
  assumes "\<And>c. isalnum c \<Longrightarrow> ok c \<Longrightarrow> f c = c" and "squeezed ok sp s"
  shows "sanit_loop f sp s = s"
  using assms by (induction s arbitrary: sp) (auto split: if_splits)

lemma squeezed_dropWhile: "squeezed ok sp s \<Longrightarrow> squeezed ok sp' (dropWhile isspace s)"
proof (induction s arbitrary: sp)
  case Nil
  then show ?case by simp
next
  case (Cons c cs)
  show ?case
  proof (cases "isspace c")
    case True
    then have "\<not> isalnum c" "\<not> ispunct c"
      using isalnum_not_space [of c] ispunct_not_space [of c] by blast+
    with True Cons show ?thesis by auto
  next
    case False
    with Cons.prems show ?thesis by (auto split: if_splits)
  qed
qed

lemma squeezed_prefix: "squeezed ok sp (s @ t) \<Longrightarrow> squeezed ok sp s"
  by (induction s arbitrary: sp) (auto split: if_splits)

lemma rev_dropWhile_rev_prefix: "\<exists>t. s = rev (dropWhile P (rev s)) @ t"
  by (metis rev_append rev_rev_ident takeWhile_dropWhile_id)

lemma squeezed_trim: "squeezed ok sp s \<Longrightarrow> squeezed ok False (trim_copy s)"
  unfolding trim_copy_def
  by (metis rev_dropWhile_rev_prefix squeezed_dropWhile squeezed_prefix)

lemma dropWhile_rev_dropWhile_rev:
  assumes "dropWhile P s = s"
  shows "dropWhile P (rev (dropWhile P (rev s))) = rev (dropWhile P (rev s))"
proof -
  obtain t where t: "s = rev (dropWhile P (rev s)) @ t" using rev_dropWhile_rev_prefix by blast
  show ?thesis
  proof (cases "rev (dropWhile P (rev s))")
    case Nil
    then show ?thesis by (simp only: dropWhile.simps)
  next
    case (Cons c cs)
    then have "s = c # cs @ t" using t by simp
    with assms have "\<not> P c"
      by (metis append_Cons dropWhile_eq_self_iff list.sel(1) list.distinct(1))
    with Cons show ?thesis by (simp only: dropWhile.simps if_False)
  qed
qed

lemma trim_copy_idem: "trim_copy (trim_copy s) = trim_copy s"
  using dropWhile_rev_dropWhile_rev [of isspace "dropWhile isspace s"]
  by (simp add: trim_copy_def)

lemma trim_copy_Nil [simp]: "trim_copy [] = []"
  by (simp add: trim_copy_def)

text \<open>Both sanitisers, with and without trimming, are idempotent: a name a service has sanitised
  passes the services' test \<open>name == Sanit...(name)\<close>.\<close>

lemma sanit_idem:
  assumes S: "\<And>s b. S s b = (if s = [] then [] else let x = sanit_loop f False s in if b then x else trim_copy x)"
    and ok: "\<And>c. isalnum c \<Longrightarrow> isalnum (f c) \<and> f (f c) = f c"
  shows "S (S s b) b = S s b"
proof (cases "s = []")
  case True
  then show ?thesis by (simp add: S)
next
  case False
  let ?ok = "\<lambda>c. f c = c"
  have "squeezed ?ok False (sanit_loop f False s)"
    using sanit_loop_squeezed [of f ?ok] ok by blast
  then have "squeezed ?ok False (S s b)"
    using False by (auto simp: S Let_def dest: squeezed_trim)
  then have "sanit_loop f False (S s b) = S s b"
    using sanit_loop_id [of ?ok f] by blast
  moreover have "b \<or> trim_copy (S s b) = S s b"
    using False by (simp add: S Let_def trim_copy_idem)
  ultimately show ?thesis
    by (subst (1) S) (auto simp: Let_def)
qed

lemma SanitLower_idem: "SanitLower (SanitLower s b) b = SanitLower s b"
  by (rule sanit_idem [where f = tolower]) (simp_all add: SanitLower_def)

lemma SanitKeepCase_idem: "SanitKeepCase (SanitKeepCase s b) b = SanitKeepCase s b"
  by (rule sanit_idem [where f = "\<lambda>c. c"]) (simp_all add: SanitKeepCase_def)

end
