(* ===== verification/Base64.thy ===== *)
theory Base64
  imports Prelude
begin

text \<open>
  Component \<open>B64String\<close> (\<open>src/utils/B64String.cc\<close>): the program counts and appends the padding, reads \<open>=\<close> as
  \<open>A\<close> and drops as many bytes as there were \<open>=\<close>; the rest is done by the iterators of
  \<open>boost::archive::iterators\<close>, which are not part of the program: they are the fields of the record \<open>b64_iters\<close>,
  an argument of both functions. What their documentation says of them is the predicate \<open>boost_ok\<close>. Proved:
  decoding inverts encoding, for every string. \<open>toy_b64\<close> is a concrete instance, on which the witnesses run.
\<close>

section \<open>The iterators\<close>

text \<open>An iterator adaptor is the function from the sequence it is put on to the sequence it yields.
  \<open>from_base64\<close> has no value where \<open>binary_from_base64\<close> throws.\<close>

record b64_iters =
  to_sextets :: "nat list \<Rightarrow> nat list" \<comment> \<open>\<open>transform_width<_,6,8>\<close>\<close>
  to_octets :: "nat list \<Rightarrow> nat list" \<comment> \<open>\<open>transform_width<_,8,6>\<close>\<close>
  to_base64 :: "nat \<Rightarrow> char" \<comment> \<open>\<open>base64_from_binary\<close>\<close>
  from_base64 :: "char \<Rightarrow> nat option" \<comment> \<open>\<open>binary_from_base64\<close>\<close>
  linebreaks :: "string \<Rightarrow> string" \<comment> \<open>\<open>insert_linebreaks<_,72>\<close>\<close>
  no_space :: "string \<Rightarrow> string" \<comment> \<open>\<open>remove_whitespace\<close>\<close>

section \<open>The functions\<close>

definition B64_Encode :: "b64_iters \<Rightarrow> string \<Rightarrow> string" where
  "B64_Encode B input =
     (let writePaddChars = (3 - length input mod 3) mod 3;
          base64 = linebreaks B (map (to_base64 B) (to_sextets B (map of_char input)))
      in base64 @ replicate writePaddChars (CHR ''=''))"

text \<open>Erasing more characters than there are is undefined in C++ (a string of \<open>=\<close> only); here nothing is left.\<close>

definition B64_Decode :: "b64_iters \<Rightarrow> string \<Rightarrow> string res" where
  "B64_Decode B input =
     (let paddChars = length (filter (\<lambda>c. c = CHR ''='') input);
          input' = map (\<lambda>c. if c = CHR ''='' then CHR ''A'' else c) input in
      case those (map (from_base64 B) (no_space B input')) of
        None \<Rightarrow> Inl (StdException ''dataflow_exception'')
      | Some vs \<Rightarrow> (let result = map char_of (to_octets B vs) in
          Inr (take (length result - paddChars) result)))"

section \<open>Documented behaviour of the iterators\<close>

text \<open>The \<open>w\<close> lowest bits of a number, the most significant one first, and those of a sequence.\<close>

definition bits_of :: "nat \<Rightarrow> nat \<Rightarrow> bool list" where
  "bits_of w n = rev (map (bit n) [0..<w])"

definition stream_of :: "nat \<Rightarrow> nat list \<Rightarrow> bool list" where
  "stream_of w ns = concat (map (bits_of w) ns)"

definition b64_alphabet :: string where
  "b64_alphabet = ''ABCDEFGHIJKLMNOPQRSTUVWXYZabcdefghijklmnopqrstuvwxyz0123456789+/''"

text \<open>The alphabet is that of base64; a line break comes after every 72 characters; white space is skipped;
  and \<open>transform_width\<close> groups the same bits differently: into groups of six, the last one filled with zeros,
  and back into bytes, where nothing is said of an incomplete last byte.\<close>

definition boost_ok :: "b64_iters \<Rightarrow> bool" where
  "boost_ok B \<longleftrightarrow>
     (\<forall>n < 64. to_base64 B n = b64_alphabet ! n \<and> from_base64 B (b64_alphabet ! n) = Some n) \<and>
     (\<forall>s. linebreaks B s = (if length s \<le> 72 then s else take 72 s @ CHR 0x0A # linebreaks B (drop 72 s))) \<and>
     (\<forall>s. no_space B s = filter (\<lambda>c. \<not> isspace c) s) \<and>
     (\<forall>bs. (\<forall>b \<in> set bs. b < 256) \<longrightarrow> (\<forall>n \<in> set (to_sextets B bs). n < 64) \<and>
        (\<exists>k < 6. stream_of 6 (to_sextets B bs) = stream_of 8 bs @ replicate k False)) \<and>
     (\<forall>ns. (\<forall>n \<in> set ns. n < 64) \<longrightarrow> 8 dvd 6 * length ns \<longrightarrow>
        (\<forall>b \<in> set (to_octets B ns). b < 256) \<and> stream_of 8 (to_octets B ns) = stream_of 6 ns)"

section \<open>Bits\<close>

lemma length_bits_of [simp]: "length (bits_of w n) = w"
  by (simp add: bits_of_def)

lemma stream_of_simps [simp]:
  "stream_of w [] = []" "stream_of w (n # ns) = bits_of w n @ stream_of w ns"
  "stream_of w (ms @ ns) = stream_of w ms @ stream_of w ns"
  by (simp_all add: stream_of_def)

lemma length_stream_of [simp]: "length (stream_of w ns) = w * length ns"
  by (induction ns) auto

lemma stream_of_zeros: "stream_of w (replicate n 0) = replicate (w * n) False"
proof (induction n)
  case (Suc n)
  have "bits_of w 0 = replicate w False" by (intro nth_equalityI) (auto simp: bits_of_def rev_nth)
  with Suc show ?case by (simp add: replicate_add)
qed simp

lemma bits_of_inject:
  assumes "bits_of w m = bits_of w n" and "m < 2 ^ w" and "n < 2 ^ w"
  shows "m = n"
proof -
  have "map (bit m) [0..<w] = map (bit n) [0..<w]" using assms(1) by (simp add: bits_of_def)
  then have "take_bit w m = take_bit w n" by (metis horner_sum_bit_eq_take_bit)
  with assms(2,3) show ?thesis by (simp add: take_bit_nat_eq_self)
qed

lemma stream_of_inject:
  "stream_of w ms = stream_of w ns \<Longrightarrow> 0 < w \<Longrightarrow> \<forall>m \<in> set ms. m < 2 ^ w \<Longrightarrow> \<forall>n \<in> set ns. n < 2 ^ w \<Longrightarrow> ms = ns"
proof (induction ms arbitrary: ns)
  case Nil
  then have "w * length ns = 0" by (metis length_stream_of list.size(3) mult_0_right)
  with Nil(2) show ?case by simp
next
  case (Cons m ms)
  have "w * length ns = w * Suc (length ms)" using Cons.prems(1) by (metis length_stream_of length_Cons)
  with Cons.prems(2) obtain n ns' where "ns = n # ns'" by (cases ns) auto
  with Cons bits_of_inject [of w m n] show ?case by auto
qed

section \<open>Round trip\<close>

lemma boost_alphabet:
  assumes "boost_ok B" and "n < 64"
  shows "from_base64 B (to_base64 B n) = Some n" and "\<not> isspace (to_base64 B n)" and "to_base64 B n \<noteq> CHR ''=''"
    and "to_base64 B n \<noteq> CHR 0x0A"
proof -
  have a: "to_base64 B n = b64_alphabet ! n" "from_base64 B (b64_alphabet ! n) = Some n" using assms by (auto simp: boost_ok_def)
  have l: "length b64_alphabet = 64" by code_simp
  have "\<forall>c \<in> set b64_alphabet. \<not> isspace c \<and> c \<noteq> CHR ''='' \<and> c \<noteq> CHR 0x0A" by code_simp
  then have "\<not> isspace (b64_alphabet ! n) \<and> b64_alphabet ! n \<noteq> CHR ''='' \<and> b64_alphabet ! n \<noteq> CHR 0x0A"
    using nth_mem [of n b64_alphabet] assms(2) unfolding l by blast
  with a show "from_base64 B (to_base64 B n) = Some n" "\<not> isspace (to_base64 B n)" "to_base64 B n \<noteq> CHR ''=''" "to_base64 B n \<noteq> CHR 0x0A"
    by metis+
qed

lemma boost_A:
  assumes "boost_ok B"
  shows "to_base64 B 0 = CHR ''A''"
proof -
  have "to_base64 B 0 = b64_alphabet ! 0" using assms by (simp add: boost_ok_def)
  also have "\<dots> = CHR ''A''" by code_simp
  finally show ?thesis .
qed

lemma boost_linebreaks:
  assumes "boost_ok B" and "\<forall>c \<in> set s. P c" and "\<not> P (CHR 0x0A)"
  shows "filter P (linebreaks B s) = s \<and> set (linebreaks B s) \<subseteq> insert (CHR 0x0A) (set s)"
  using assms(2)
proof (induction s rule: length_induct)
  case (1 s)
  have e: "linebreaks B s = (if length s \<le> 72 then s else take 72 s @ CHR 0x0A # linebreaks B (drop 72 s))"
    using assms(1) unfolding boost_ok_def by blast
  show ?case
  proof (cases "length s \<le> 72")
    case True
    with e 1(2) show ?thesis by (auto simp: filter_id_conv)
  next
    case False
    have sub: "set (take 72 s) \<subseteq> set s" "set (drop 72 s) \<subseteq> set s" by (rule set_take_subset, rule set_drop_subset)
    have "filter P (take 72 s) = take 72 s" using 1(2) sub(1) by (auto simp: filter_id_conv)
    moreover have "filter P (linebreaks B (drop 72 s)) = drop 72 s \<and> set (linebreaks B (drop 72 s)) \<subseteq> insert (CHR 0x0A) (set (drop 72 s))"
    proof (rule mp [OF mp [OF spec [OF 1(1)]]])
      show "length (drop 72 s) < length s" using False by simp
      show "\<forall>c \<in> set (drop 72 s). P c" using 1(2) sub(2) by blast
    qed
    ultimately show ?thesis using e False assms(3) sub by auto
  qed
qed

lemma boost_no_space: "boost_ok B \<Longrightarrow> no_space B s = filter (\<lambda>c. \<not> isspace c) s"
  by (simp add: boost_ok_def)

lemma those_map: "\<forall>x \<in> set xs. f (g x) = Some x \<Longrightarrow> those (map f (map g xs)) = Some xs"
  by (induction xs) auto

definition pads :: "nat \<Rightarrow> nat" where "pads n = (3 - n mod 3) mod 3"

text \<open>The groups of six bits, with a zero for each character of padding, are regrouped to the bytes, with a zero for
  each.\<close>

lemma regroup:
  assumes "boost_ok B" and "\<forall>b \<in> set bs. b < 256"
  shows "to_octets B (to_sextets B bs @ replicate (pads (length bs)) 0) = bs @ replicate (pads (length bs)) 0"
proof -
  let ?p = "pads (length bs)" and ?v = "to_sextets B bs"
  obtain k where v: "\<forall>n \<in> set ?v. n < 64" "k < 6" "stream_of 6 ?v = stream_of 8 bs @ replicate k False"
    using assms unfolding boost_ok_def by meson
  have len: "6 * length ?v = 8 * length bs + k" using arg_cong [OF v(3), of length] by simp
  have k: "k = 2 * ?p"
  proof -
    consider q where "length bs = 3 * q" | q where "length bs = 3 * q + 1" | q where "length bs = 3 * q + 2"
      using mult_div_mod_eq [of 3 "length bs"] mod_less_divisor [of 3 "length bs"] by (metis One_nat_def Suc_1 add_0_right less_2_cases less_Suc_eq numeral_3_eq_3 zero_less_Suc)
    then show ?thesis
    proof cases
      case (1 q)
      then have "pads (length bs) = 0" by (simp add: pads_def)
      with len v(2) 1 show ?thesis by simp presburger
    next
      case (2 q)
      then have "pads (length bs) = 2" by (simp add: pads_def mod_mult_self4 del: mult_Suc)
      with len v(2) 2 show ?thesis by simp presburger
    next
      case (3 q)
      then have "pads (length bs) = 1" by (simp add: pads_def) (simp add: mod_Suc)
      with len v(2) 3 show ?thesis by simp presburger
    qed
  qed
  have all: "\<forall>n \<in> set (?v @ replicate ?p 0). n < 64" using v(1) by auto
  have "8 dvd 6 * length (?v @ replicate ?p 0)" using len k by (simp add: distrib_left)
  with all have r: "\<forall>b \<in> set (to_octets B (?v @ replicate ?p 0)). b < 256"
    "stream_of 8 (to_octets B (?v @ replicate ?p 0)) = stream_of 6 (?v @ replicate ?p 0)"
    using assms(1) unfolding boost_ok_def by blast+
  have "stream_of 6 (?v @ replicate ?p 0) = stream_of 8 (bs @ replicate ?p 0)"
    by (simp add: v(3) k stream_of_zeros replicate_add [symmetric])
  with r(2) have "stream_of 8 (to_octets B (?v @ replicate ?p 0)) = stream_of 8 (bs @ replicate ?p 0)" by simp
  then show ?thesis by (rule stream_of_inject) (use r(1) assms(2) in auto)
qed

text \<open>Base64 decoding inverts encoding: whatever bytes are encoded (keys and tokens of any length,
  line breaks and padding included), \<open>Decode(Encode(s))\<close> returns them.\<close>

lemma B64_Decode_Encode:
  assumes "boost_ok B"
  shows "B64_Decode B (B64_Encode B s) = Inr s"
proof -
  let ?bs = "map of_char s :: nat list"
  let ?v = "to_sextets B ?bs" and ?p = "pads (length s)"
  let ?t = "map (to_base64 B) ?v"
  let ?b = "linebreaks B ?t"
  have lt: "\<forall>b \<in> set ?bs. b < 256" by auto
  with assms have v: "\<forall>n \<in> set ?v. n < 64" unfolding boost_ok_def by blast
  note a = boost_alphabet [OF assms]
  have nl: "isspace (CHR 0x0A)" "\<not> isspace (CHR ''A'')" by code_simp+
  have tp: "\<forall>c \<in> set ?t. \<not> isspace c" "CHR ''='' \<notin> set ?t"
    using a(2,3) v by (auto simp: image_iff) (metis a(3))
  have b: "filter (\<lambda>c. \<not> isspace c) ?b = ?t" "CHR ''='' \<notin> set ?b"
    using boost_linebreaks [OF assms, of ?t "\<lambda>c. \<not> isspace c"] tp nl(1) by auto
  have enc: "B64_Encode B s = ?b @ replicate ?p (CHR ''='')" by (simp add: B64_Encode_def pads_def)
  have cnt: "filter (\<lambda>c. c = CHR ''='') ?b = []" and rep: "map (\<lambda>c. if c = CHR ''='' then CHR ''A'' else c) ?b = ?b"
    using b(2) by (auto simp: filter_empty_conv intro: map_idI)
  have A: "replicate n (CHR ''A'') = map (to_base64 B) (replicate n 0)" for n
    by (simp add: boost_A [OF assms])
  have "those (map (from_base64 B) (map (to_base64 B) (?v @ replicate ?p 0))) = Some (?v @ replicate ?p 0)"
    by (rule those_map) (use v a(1) in auto)
  then have vals: "those (map (from_base64 B) (?t @ replicate ?p (CHR ''A''))) = Some (?v @ replicate ?p 0)"
    by (simp only: A map_append)
  have ns: "no_space B (?b @ replicate ?p (CHR ''A'')) = ?t @ replicate ?p (CHR ''A'')"
    using nl(2) by (simp add: boost_no_space [OF assms] b(1))
  have pc: "length (filter (\<lambda>c. c = CHR ''='') (?b @ replicate ?p (CHR ''=''))) = ?p" by (simp add: cnt)
  have inp: "map (\<lambda>c. if c = CHR ''='' then CHR ''A'' else c) (?b @ replicate ?p (CHR ''='')) = ?b @ replicate ?p (CHR ''A'')"
    by (simp add: rep)
  have "to_octets B (?v @ replicate ?p 0) = ?bs @ replicate ?p 0" using regroup [OF assms lt] by simp
  then have "B64_Decode B (B64_Encode B s) =
      (let result = map char_of (?bs @ replicate ?p 0) in Inr (take (length result - ?p) result))"
    unfolding B64_Decode_def enc Let_def pc inp ns vals by simp
  also have "\<dots> = Inr s" by (simp add: comp_def)
  finally show ?thesis .
qed

section \<open>A concrete instance\<close>

fun chunks :: "nat \<Rightarrow> bool list \<Rightarrow> bool list list" where
  "chunks w xs = (if w = 0 \<or> xs = [] then [] else take w xs # chunks w (drop w xs))"

fun break72 :: "string \<Rightarrow> string" where
  "break72 s = (if length s \<le> 72 then s else take 72 s @ CHR 0x0A # break72 (drop 72 s))"

declare chunks.simps [simp del] break72.simps [simp del]

definition number_of :: "bool list \<Rightarrow> nat" where
  "number_of bs = horner_sum of_bool 2 (rev bs)"

definition toy_b64 :: b64_iters where
  "toy_b64 = \<lparr>to_sextets = (\<lambda>bs. let s = stream_of 8 bs in map number_of (chunks 6 (s @ replicate ((6 - length s mod 6) mod 6) False))),
     to_octets = (\<lambda>ns. map number_of (filter (\<lambda>c. length c = 8) (chunks 8 (stream_of 6 ns)))),
     to_base64 = (\<lambda>n. b64_alphabet ! n),
     from_base64 = (\<lambda>c. let i = length (takeWhile (\<lambda>d. d \<noteq> c) b64_alphabet) in if i < 64 then Some i else None),
     linebreaks = break72, no_space = filter (\<lambda>c. \<not> isspace c)\<rparr>"

lemma chunks_ok: "w dvd length xs \<Longrightarrow> 0 < w \<Longrightarrow> concat (chunks w xs) = xs \<and> (\<forall>c \<in> set (chunks w xs). length c = w)"
proof (induction w xs rule: chunks.induct)
  case (1 w xs)
  show ?case
  proof (cases "xs = []")
    case False
    with 1(2) have "w \<le> length xs" by (simp add: dvd_imp_le)
    have "w dvd length (drop w xs)" using 1(2) by (simp add: dvd_diff_nat)
    then have ih: "concat (chunks w (drop w xs)) = drop w xs \<and> (\<forall>c \<in> set (chunks w (drop w xs)). length c = w)"
      using 1(3) False by (intro 1(1)) simp_all
    have "chunks w xs = take w xs # chunks w (drop w xs)" using False 1(3) by (subst chunks.simps) simp
    then show ?thesis using ih \<open>w \<le> length xs\<close> append_take_drop_id [of w xs]
      by (metis concat.simps(2) length_take min.absorb2 set_ConsD)
  qed (subst (1 2) chunks.simps, simp)
qed

lemma number_of_bits: "bits_of (length bs) (number_of bs) = bs"
  by (intro nth_equalityI) (auto simp: bits_of_def number_of_def rev_nth bit_horner_sum_bit_iff)

lemma number_of_less: "number_of bs < 2 ^ length bs"
  using horner_sum_of_bool_2_less [of "rev bs"] by (simp add: number_of_def)

lemma stream_of_chunks:
  assumes "w dvd length xs" and "0 < w"
  shows "stream_of w (map number_of (chunks w xs)) = xs" and "\<forall>n \<in> set (map number_of (chunks w xs)). n < 2 ^ w"
proof -
  note c = chunks_ok [OF assms]
  then have "map (\<lambda>c. bits_of w (number_of c)) (chunks w xs) = map (\<lambda>c. c) (chunks w xs)"
    by (intro map_cong) (auto intro: number_of_bits)
  with c show "stream_of w (map number_of (chunks w xs)) = xs" by (simp add: stream_of_def comp_def)
  show "\<forall>n \<in> set (map number_of (chunks w xs)). n < 2 ^ w" using c number_of_less by auto
qed

lemma fill_up: "0 < m \<Longrightarrow> m dvd n + (m - n mod m) mod m" for m n :: nat
proof (cases "n mod m = 0")
  case False
  assume m: "0 < m"
  with False have "(m - n mod m) mod m = m - n mod m" by simp
  then have "n + (m - n mod m) mod m = n div m * m + m" using div_mult_mod_eq [of n m] mod_less_divisor [OF m, of n] by linarith
  then show ?thesis by simp
qed auto

lemma toy_boost_ok: "boost_ok toy_b64"
proof -
  have "\<forall>n \<in> set [0..<64]. from_base64 toy_b64 (b64_alphabet ! n) = Some n" by code_simp
  moreover have "(\<forall>n \<in> set (to_sextets toy_b64 bs). n < 64) \<and> (\<exists>k < 6. stream_of 6 (to_sextets toy_b64 bs) = stream_of 8 bs @ replicate k False)" for bs
  proof -
    let ?k = "(6 - 8 * length bs mod 6) mod 6"
    have "6 dvd length (stream_of 8 bs @ replicate ?k False)" using fill_up [of 6 "8 * length bs"] by simp
    from stream_of_chunks [OF this] show ?thesis by (intro conjI exI [of _ ?k]) (simp_all add: toy_b64_def Let_def)
  qed
  moreover have "(\<forall>b \<in> set (to_octets toy_b64 ns). b < 256) \<and> stream_of 8 (to_octets toy_b64 ns) = stream_of 6 ns"
    if "8 dvd 6 * length ns" for ns
  proof -
    have d: "8 dvd length (stream_of 6 ns)" using that by simp
    then have "filter (\<lambda>c. length c = 8) (chunks 8 (stream_of 6 ns)) = chunks 8 (stream_of 6 ns)"
      using chunks_ok [OF d] by (simp add: filter_id_conv)
    with stream_of_chunks [OF d] show ?thesis by (simp add: toy_b64_def)
  qed
  moreover have "linebreaks toy_b64 s = (if length s \<le> 72 then s else take 72 s @ CHR 0x0A # linebreaks toy_b64 (drop 72 s))" for s
    by (simp add: toy_b64_def break72.simps [of s])
  moreover have "to_base64 toy_b64 n = b64_alphabet ! n" "no_space toy_b64 s = filter (\<lambda>c. \<not> isspace c) s" for n s
    by (simp_all add: toy_b64_def)
  ultimately show ?thesis unfolding boost_ok_def by simp
qed

end
