(* ===== verification/Env.thy ===== *)
theory Env
  imports Messages Keys Base64
begin

text \<open>
  What the program uses and does not contain, as the fields of one record: the key-value store
  (RocksDB), the generated protobuf codecs, AES-CBC of CryptoPP, the base64 iterators of Boost, the HTTP client,
  the clock and the random generator. Serialised messages are values of a type \<open>'b\<close> (the C++ code keeps them
  in strings), a database is a value of a type \<open>'d\<close>. The documented behaviour the theorems rely
  on is stated by the predicates \<open>kv_ok\<close>, \<open>codec_ok\<close>, \<open>aes_ok\<close> and \<open>boost_ok\<close>, which a theorem names as
  hypotheses; \<open>toy_env\<close> is a concrete environment, on which the witnesses run.
\<close>

section \<open>The record\<close>

text \<open>\<open>SerializeToString\<close> and \<open>ParseFromString\<close> of a message type: parsing returns whether it
  succeeded and what the message holds afterwards.\<close>

record ('m, 'b) codec =
  ser :: "'m \<Rightarrow> 'b"
  par :: "'b \<Rightarrow> bool \<times> 'm"

text \<open>The operations of a \<open>WriteBatch\<close>.\<close>

datatype 'b bop = Put string 'b | Delete string

text \<open>A request of the HTTP client and what it can answer: an error code of the connection is
  \<open>None\<close>; a body is given after the transfer encoding is undone.\<close>

record 'b http_req =
  hq_host :: string
  hq_port :: int
  hq_endpoint :: string
  hq_service :: int
  hq_secret :: string
  hq_body :: 'b

record 'b http_resp =
  hr_status :: int
  hr_service_error :: "int option"
  hr_encoded :: bool
  hr_text :: string
  hr_body :: 'b

record ('b, 'd) env =
  kv_get :: "'d \<Rightarrow> string \<Rightarrow> 'b option"
  kv_write :: "'d \<Rightarrow> 'b bop list \<Rightarrow> 'd option"
  kv_entries :: "'d \<Rightarrow> (string \<times> 'b) list"
  blank :: 'b
  of_str :: "string \<Rightarrow> 'b"
  c_node :: "(NodeT, 'b) codec"
  c_trans :: "('b TransactionT, 'b) codec"
  c_tlist :: "('b TransListT, 'b) codec"
  c_state :: "(StateT, 'b) codec"
  c_tag :: "(TagDataT, 'b) codec"
  c_cat :: "(CategoryT, 'b) codec"
  c_user :: "(UserDataT, 'b) codec"
  c_item :: "(ItemDataT, 'b) codec"
  clock :: "nat \<Rightarrow> 64 word"
  rand_str :: "nat \<Rightarrow> nat \<Rightarrow> string"
  aes_enc :: "string \<Rightarrow> string \<Rightarrow> 'b \<Rightarrow> string"
  aes_dec :: "string \<Rightarrow> string \<Rightarrow> string \<Rightarrow> bool \<times> 'b"
  b64 :: b64_iters
  http_post :: "nat \<Rightarrow> 'b http_req \<Rightarrow> 'b http_resp option"

section \<open>Documented behaviour\<close>

type_synonym 'b lookup = "string \<Rightarrow> 'b option"

fun bop_apply :: "'b bop \<Rightarrow> 'b lookup \<Rightarrow> 'b lookup" where
  "bop_apply (Put k v) g = g(k \<mapsto> v)"
| "bop_apply (Delete k) g = g(k := None)"

text \<open>A database holds one value per key, its iterator runs in bytewise order of the keys, and a
  batch is applied in order and as a whole.\<close>

definition kv_ok :: "('b, 'd) env \<Rightarrow> bool" where
  "kv_ok E \<longleftrightarrow>
     (\<forall>d. sorted_wrt (<) (map fst (kv_entries E d)) \<and> kv_get E d = map_of (kv_entries E d)) \<and>
     (\<forall>d ops d'. kv_write E d ops = Some d' \<longrightarrow> kv_get E d' = fold bop_apply ops (kv_get E d))"

text \<open>Parsing what was serialised gives it back; the empty string is the default message.\<close>

definition codec_ok :: "('m, 'b) codec \<Rightarrow> 'b \<Rightarrow> 'm \<Rightarrow> bool" where
  "codec_ok c e dflt \<longleftrightarrow> (\<forall>x. par c (ser c x) = (True, x)) \<and> par c e = (True, dflt)"

definition pb_ok :: "('b, 'd) env \<Rightarrow> bool" where
  "pb_ok E \<longleftrightarrow> codec_ok (c_node E) (blank E) NodeT_new \<and> codec_ok (c_trans E) (blank E) TransactionT_new \<and>
     codec_ok (c_tlist E) (blank E) TransListT_new \<and> codec_ok (c_state E) (blank E) StateT_new \<and>
     codec_ok (c_tag E) (blank E) TagDataT_new \<and> codec_ok (c_cat E) (blank E) CategoryT_new \<and>
     codec_ok (c_user E) (blank E) UserDataT_new \<and> codec_ok (c_item E) (blank E) ItemDataT_new"

text \<open>CBC decryption with the key and the initial vector of the encryption inverts it, asked for the
  session tokens only (a serialised user message with a name and a time); a random string has the
  length asked for.\<close>

definition session_msg :: "string \<Rightarrow> 64 word \<Rightarrow> UserDataT" where
  "session_msg n t = UserDataT_new\<lparr>user_name := n, user_updated_at := t\<rparr>"

definition aes_ok :: "('b, 'd) env \<Rightarrow> bool" where
  "aes_ok E \<longleftrightarrow>
     (\<forall>k iv n t. length k = 16 \<longrightarrow> length iv = 16 \<longrightarrow>
        aes_dec E k iv (aes_enc E k iv (ser (c_user E) (session_msg n t))) = (True, ser (c_user E) (session_msg n t)) \<and>
        aes_enc E k iv (ser (c_user E) (session_msg n t)) \<noteq> []) \<and>
     (\<forall>n l. length (rand_str E n l) = l)"

lemma codec_ok_par [simp]: "codec_ok c e x0 \<Longrightarrow> par c (ser c x) = (True, x)"
  by (simp add: codec_ok_def)

lemma codec_ok_blank [simp]: "codec_ok c e x0 \<Longrightarrow> par c e = (True, x0)"
  by (simp add: codec_ok_def)

lemma pb_okD:
  assumes "pb_ok E"
  shows "codec_ok (c_node E) (blank E) NodeT_new" "codec_ok (c_trans E) (blank E) TransactionT_new"
    "codec_ok (c_tlist E) (blank E) TransListT_new" "codec_ok (c_state E) (blank E) StateT_new"
    "codec_ok (c_tag E) (blank E) TagDataT_new" "codec_ok (c_cat E) (blank E) CategoryT_new"
    "codec_ok (c_user E) (blank E) UserDataT_new" "codec_ok (c_item E) (blank E) ItemDataT_new"
  using assms by (simp_all add: pb_ok_def)

lemma pb_par [simp]:
  assumes "pb_ok E"
  shows "par (c_node E) (ser (c_node E) n) = (True, n)"
    "par (c_trans E) (ser (c_trans E) tr) = (True, tr)"
    "par (c_tlist E) (ser (c_tlist E) lst) = (True, lst)"
    "par (c_state E) (ser (c_state E) st) = (True, st)"
    "par (c_tag E) (ser (c_tag E) tg) = (True, tg)"
    "par (c_cat E) (ser (c_cat E) ct) = (True, ct)"
    "par (c_user E) (ser (c_user E) us) = (True, us)"
    "par (c_item E) (ser (c_item E) it) = (True, it)"
  using pb_okD [OF assms] by simp_all

lemma kv_get_entries: "kv_ok E \<Longrightarrow> kv_get E d = map_of (kv_entries E d)"
  by (simp add: kv_ok_def)

lemma kv_entries_sorted: "kv_ok E \<Longrightarrow> sorted_wrt (<) (map fst (kv_entries E d))"
  by (simp add: kv_ok_def)

lemma kv_get_write: "kv_ok E \<Longrightarrow> kv_write E d ops = Some d' \<Longrightarrow> kv_get E d' = fold bop_apply ops (kv_get E d)"
  unfolding kv_ok_def by blast

lemma kv_entries_distinct: "kv_ok E \<Longrightarrow> distinct (map fst (kv_entries E d))"
  using kv_entries_sorted [of E d] by (simp add: strict_sorted_iff)

lemma kv_get_iff: "kv_ok E \<Longrightarrow> kv_get E d k = Some v \<longleftrightarrow> (k, v) \<in> set (kv_entries E d)"
  by (simp add: kv_get_entries kv_entries_distinct)

section \<open>Iterators\<close>

text \<open>\<open>it->Seek(start)\<close> puts the iterator on the first entry whose key is not less than \<open>start\<close>; the loops
  run on while the key starts with \<open>match\<close>.\<close>

definition seek :: "(string \<times> 'b) list \<Rightarrow> string \<Rightarrow> (string \<times> 'b) list" where
  "seek es start = dropWhile (\<lambda>e. fst e < start) es"

text \<open>\<open>it->Seek(start); it->Prev()\<close>: the last entry before \<open>start\<close>.\<close>

definition seek_prev :: "(string \<times> 'b) list \<Rightarrow> string \<Rightarrow> (string \<times> 'b) option" where
  "seek_prev es start = (case rev (takeWhile (\<lambda>e. fst e < start) es) of [] \<Rightarrow> None | e # _ \<Rightarrow> Some e)"

definition seek_match :: "(string \<times> 'b) list \<Rightarrow> string \<Rightarrow> string \<Rightarrow> (string \<times> 'b) list" where
  "seek_match es start match = takeWhile (\<lambda>e. starts_with (fst e) match) (seek es start)"

lemma starts_with_convex:
  fixes k l :: string
  shows "m \<le> k \<Longrightarrow> k \<le> l \<Longrightarrow> starts_with l m \<Longrightarrow> starts_with k m"
proof (induction m arbitrary: k l)
  case Nil
  then show ?case by (simp add: starts_with_def)
next
  case (Cons c m)
  from Cons.prems obtain l' where l: "l = c # l'" "starts_with l' m"
    by (cases l) (auto simp: starts_with_def)
  from Cons.prems l obtain k' where "k = c # k'" "m \<le> k'" "k' \<le> l'"
    by (cases k) auto
  with Cons.IH [of k' l'] l show ?case by (simp add: starts_with_def)
qed

lemma prefix_le: "starts_with s m \<Longrightarrow> m \<le> (s :: string)"
proof -
  assume "starts_with s m"
  then obtain r where "s = m @ r" by (auto simp: starts_with_iff)
  moreover have "m \<le> m @ r" by (induction m) auto
  ultimately show ?thesis by simp
qed

lemma dropWhile_filter_sorted:
  fixes es :: "(string \<times> 'b) list"
  assumes "sorted_wrt (<) (map fst es)"
  shows "dropWhile (\<lambda>e. fst e < s) es = filter (\<lambda>e. s \<le> fst e) es"
  using assms
proof (induction es)
  case Nil
  then show ?case by simp
next
  case (Cons e es)
  show ?case
  proof (cases "fst e < s")
    case True
    with Cons show ?thesis by simp
  next
    case False
    with Cons.prems have "\<forall>x \<in> set es. s \<le> fst x" by auto
    with False show ?thesis by (simp add: filter_id_conv)
  qed
qed

lemma takeWhile_filter_sorted:
  fixes es :: "(string \<times> 'b) list"
  assumes "sorted_wrt (<) (map fst es)" and "\<forall>e \<in> set es. m \<le> fst e"
  shows "takeWhile (\<lambda>e. starts_with (fst e) m) es = filter (\<lambda>e. starts_with (fst e) m) es"
  using assms
proof (induction es)
  case Nil
  then show ?case by simp
next
  case (Cons e es)
  show ?case
  proof (cases "starts_with (fst e) m")
    case True
    with Cons show ?thesis by simp
  next
    case False
    have "\<not> starts_with (fst x) m" if "x \<in> set es" for x
      using False starts_with_convex [of m "fst e" "fst x"] Cons.prems that
      by (auto dest: order.strict_implies_order)
    with False show ?thesis by (simp add: filter_empty_conv)
  qed
qed

text \<open>On a sorted store, seeking and matching is filtering, when the start has the prefix itself.\<close>

lemma seek_match_filter:
  assumes "sorted_wrt (<) (map fst es)" and "starts_with start m"
  shows "seek_match es start m = filter (\<lambda>e. start \<le> fst e \<and> starts_with (fst e) m) es"
proof -
  let ?d = "filter (\<lambda>e. start \<le> fst e) es"
  have "sorted_wrt (<) (map fst ?d)"
    using assms(1) by (simp add: sorted_wrt_filter sorted_wrt_map)
  moreover have "\<forall>e \<in> set ?d. m \<le> fst e"
    using prefix_le [OF assms(2)] by auto
  ultimately have "takeWhile (\<lambda>e. starts_with (fst e) m) ?d = filter (\<lambda>e. starts_with (fst e) m) ?d"
    by (rule takeWhile_filter_sorted)
  then show ?thesis
    by (simp add: seek_match_def seek_def dropWhile_filter_sorted [OF assms(1)] conj_commute)
qed

lemma seek_prev_None: "seek_prev es start = None \<longleftrightarrow> takeWhile (\<lambda>e. fst e < start) es = []"
  by (auto simp: seek_prev_def split: list.splits)

lemma takeWhile_less_filter:
  fixes es :: "(string \<times> 'b) list"
  assumes "sorted_wrt (<) (map fst es)"
  shows "takeWhile (\<lambda>e. fst e < s) es = filter (\<lambda>e. fst e < s) es"
  using assms
proof (induction es)
  case Nil
  then show ?case by simp
next
  case (Cons e es)
  show ?case
  proof (cases "fst e < s")
    case True
    with Cons show ?thesis by simp
  next
    case False
    with Cons.prems have "\<forall>x \<in> set es. \<not> fst x < s" by auto
    with False show ?thesis by (simp add: filter_empty_conv)
  qed
qed

text \<open>The entry before the start is the greatest one below it.\<close>

lemma seek_prev_Some:
  assumes "sorted_wrt (<) (map fst es)" and "seek_prev es start = Some e"
  shows "e \<in> set es \<and> fst e < start \<and> (\<forall>x \<in> set es. fst x < start \<longrightarrow> fst x \<le> fst e)"
proof -
  let ?t = "filter (\<lambda>e. fst e < start) es"
  have t: "takeWhile (\<lambda>e. fst e < start) es = ?t"
    using assms(1) by (rule takeWhile_less_filter)
  from assms(2) t obtain xs where "rev ?t = e # xs"
    by (auto simp: seek_prev_def split: list.splits)
  then have r: "?t = rev xs @ [e]" by (metis rev.simps(2) rev_rev_ident)
  have "sorted_wrt (<) (map fst ?t)" using assms(1) by (simp add: sorted_wrt_filter sorted_wrt_map)
  with r have m: "\<forall>x \<in> set xs. fst x < fst e" by (simp add: sorted_wrt_append)
  have "e \<in> set ?t" and s: "set ?t = insert e (set xs)" using r by (simp_all add: r)
  moreover have "fst x \<le> fst e" if "x \<in> set es" "fst x < start" for x
  proof -
    from that have "x \<in> set ?t" by simp
    with s m show ?thesis by (metis insertE order.strict_implies_order order_refl)
  qed
  ultimately show ?thesis by auto
qed

section \<open>A concrete environment\<close>

text \<open>Values tagged with their message type; a sorted association list as the store; a cipher that
  only spells out the token; no answer from the network.\<close>

datatype toy =
    TBlank
  | TStr string
  | TNode NodeT
  | TTrans "64 word" "(string \<times> toy \<times> bool) list" "64 word" string bool
  | TTList "64 word" "64 word" "toy list" "64 word" "64 word" string
  | TState StateT
  | TTag TagDataT
  | TCat CategoryT
  | TUser UserDataT
  | TItem ItemDataT
  | TTagResp "TagDataT DataRespT"
  | TCatResp "CategoryT DataRespT"
  | TUserResp "UserDataT DataRespT"
  | TItemResp "ItemDataT DataRespT"
  | TResetResp ResetRespT

definition toy_item :: "toy TransItemT \<Rightarrow> string \<times> toy \<times> bool" where
  "toy_item i = (ti_key i, ti_value i, ti_to_del i)"

definition item_toy :: "string \<times> toy \<times> bool \<Rightarrow> toy TransItemT" where
  "item_toy p = \<lparr>ti_key = fst p, ti_value = fst (snd p), ti_to_del = snd (snd p)\<rparr>"

definition toy_trans :: "toy TransactionT \<Rightarrow> toy" where
  "toy_trans t = TTrans (tr_id t) (map toy_item (tr_item t)) (tr_ts t) (tr_updater t) (tr_notfound t)"

fun trans_toy :: "toy \<Rightarrow> bool \<times> toy TransactionT" where
  "trans_toy (TTrans i its ts u nf) =
     (True, \<lparr>tr_id = i, tr_item = map item_toy its, tr_ts = ts, tr_updater = u, tr_notfound = nf\<rparr>)"
| "trans_toy TBlank = (True, TransactionT_new)"
| "trans_toy _ = (False, TransactionT_new)"

definition toy_tlist :: "toy TransListT \<Rightarrow> toy" where
  "toy_tlist l = TTList (tl_lastid l) (tl_limit l) (map toy_trans (tl_trans l)) (tl_currid l) (tl_ts l) (tl_endpoint l)"

fun tlist_toy :: "toy \<Rightarrow> bool \<times> toy TransListT" where
  "tlist_toy (TTList i l ts c t e) = (True, \<lparr>tl_lastid = i, tl_limit = l,
     tl_trans = map (\<lambda>x. snd (trans_toy x)) ts, tl_currid = c, tl_ts = t, tl_endpoint = e\<rparr>)"
| "tlist_toy TBlank = (True, TransListT_new)"
| "tlist_toy _ = (False, TransListT_new)"

lemma item_toy_item [simp]: "item_toy (toy_item i) = i"
  by (simp add: item_toy_def toy_item_def)

lemma trans_toy_trans [simp]: "trans_toy (toy_trans t) = (True, t)"
  by (simp add: toy_trans_def comp_def)

lemma tlist_toy_tlist [simp]: "tlist_toy (toy_tlist l) = (True, l)"
  by (simp add: toy_tlist_def comp_def)

fun toy_put :: "string \<Rightarrow> toy \<Rightarrow> (string \<times> toy) list \<Rightarrow> (string \<times> toy) list" where
  "toy_put k v [] = [(k, v)]"
| "toy_put k v ((l, w) # es) = (if k < l then (k, v) # (l, w) # es else if k = l then (k, v) # es
     else (l, w) # toy_put k v es)"

fun toy_bop :: "toy bop \<Rightarrow> (string \<times> toy) list \<Rightarrow> (string \<times> toy) list" where
  "toy_bop (Put k v) es = toy_put k v es"
| "toy_bop (Delete k) es = filter (\<lambda>e. fst e \<noteq> k) es"

text \<open>A database is an association list; its entries are what inserting them one by one leaves.\<close>

definition toy_entries :: "(string \<times> toy) list \<Rightarrow> (string \<times> toy) list" where
  "toy_entries d = foldr (\<lambda>(k, v) es. toy_put k v es) d []"

definition toy_env :: "(toy, (string \<times> toy) list) env" where
  "toy_env = \<lparr>
     kv_get = \<lambda>d. map_of (toy_entries d),
     kv_write = \<lambda>d ops. Some (fold toy_bop ops (toy_entries d)),
     kv_entries = toy_entries,
     blank = TBlank, of_str = TStr,
     c_node = \<lparr>ser = TNode, par = (\<lambda>b. case b of TNode x \<Rightarrow> (True, x) | TBlank \<Rightarrow> (True, NodeT_new) | _ \<Rightarrow> (False, NodeT_new))\<rparr>,
     c_trans = \<lparr>ser = toy_trans, par = trans_toy\<rparr>,
     c_tlist = \<lparr>ser = toy_tlist, par = tlist_toy\<rparr>,
     c_state = \<lparr>ser = TState, par = (\<lambda>b. case b of TState x \<Rightarrow> (True, x) | TBlank \<Rightarrow> (True, StateT_new) | _ \<Rightarrow> (False, StateT_new))\<rparr>,
     c_tag = \<lparr>ser = TTag, par = (\<lambda>b. case b of TTag x \<Rightarrow> (True, x) | TBlank \<Rightarrow> (True, TagDataT_new) | _ \<Rightarrow> (False, TagDataT_new))\<rparr>,
     c_cat = \<lparr>ser = TCat, par = (\<lambda>b. case b of TCat x \<Rightarrow> (True, x) | TBlank \<Rightarrow> (True, CategoryT_new) | _ \<Rightarrow> (False, CategoryT_new))\<rparr>,
     c_user = \<lparr>ser = TUser, par = (\<lambda>b. case b of TUser x \<Rightarrow> (True, x) | TBlank \<Rightarrow> (True, UserDataT_new) | _ \<Rightarrow> (False, UserDataT_new))\<rparr>,
     c_item = \<lparr>ser = TItem, par = (\<lambda>b. case b of TItem x \<Rightarrow> (True, x) | TBlank \<Rightarrow> (True, ItemDataT_new) | _ \<Rightarrow> (False, ItemDataT_new))\<rparr>,
     clock = (\<lambda>n. of_nat (1000000 + n)),
     rand_str = (\<lambda>n l. replicate l (CHR ''x'')),
     aes_enc = (\<lambda>k iv m. case m of TUser x \<Rightarrow> ZPDS_FMT_NODE_ONLY (user_updated_at x) @ user_name x | _ \<Rightarrow> ''?''),
     aes_dec = (\<lambda>k iv s. case stoull16 (take 16 s) of Inl _ \<Rightarrow> (False, TBlank)
        | Inr t \<Rightarrow> (True, TUser (session_msg (drop 16 s) t))),
     b64 = toy_b64,
     http_post = (\<lambda>n q. None)\<rparr>"

lemma set_toy_put: "fst ` set (toy_put k v es) = insert k (fst ` set es)"
  by (induction es rule: toy_put.induct) auto

lemma sorted_toy_put: "sorted_wrt (<) (map fst es) \<Longrightarrow> sorted_wrt (<) (map fst (toy_put k v es))"
proof (induction k v es rule: toy_put.induct)
  case (1 k v)
  then show ?case by simp
next
  case (2 k v l w es)
  have "\<forall>x \<in> fst ` set (toy_put k v es). l < x" if "l < k" "\<forall>x \<in> set es. l < fst x"
    unfolding set_toy_put using that by auto
  with 2 show ?case by (auto dest: order.strict_trans)
qed

lemma map_of_toy_put: "map_of (toy_put k v es) = (map_of es)(k \<mapsto> v)"
  by (induction k v es rule: toy_put.induct) auto

lemma sorted_toy_bop: "sorted_wrt (<) (map fst es) \<Longrightarrow> sorted_wrt (<) (map fst (toy_bop b es))"
proof (cases b)
  case (Put k v)
  assume "sorted_wrt (<) (map fst es)"
  with Put show ?thesis by (simp add: sorted_toy_put)
next
  case (Delete k)
  assume "sorted_wrt (<) (map fst es)"
  with Delete show ?thesis by (simp add: sorted_wrt_filter sorted_wrt_map)
qed

lemma map_of_toy_bop: "map_of (toy_bop b es) = bop_apply b (map_of es)"
proof (cases b)
  case (Put k v)
  then show ?thesis by (simp add: map_of_toy_put)
next
  case (Delete k)
  have "map_of (filter (\<lambda>e. fst e \<noteq> k) es) = (map_of es)(k := None)"
    by (induction es) auto
  with Delete show ?thesis by simp
qed

lemma sorted_toy_bops: "sorted_wrt (<) (map fst es) \<Longrightarrow> sorted_wrt (<) (map fst (fold toy_bop ops es))"
  by (induction ops arbitrary: es) (simp_all add: sorted_toy_bop)

lemma map_of_toy_bops: "map_of (fold toy_bop ops es) = fold bop_apply ops (map_of es)"
  by (induction ops arbitrary: es) (simp_all add: map_of_toy_bop)

lemma toy_entries_sorted: "sorted_wrt (<) (map fst (toy_entries d))"
  by (induction d) (auto simp: toy_entries_def sorted_toy_put)

lemma toy_put_front: "\<forall>e \<in> set es. k < fst e \<Longrightarrow> toy_put k v es = (k, v) # es"
  by (cases es) auto

lemma toy_entries_id: "sorted_wrt (<) (map fst d) \<Longrightarrow> toy_entries d = d"
  by (induction d) (auto simp: toy_entries_def toy_put_front)

lemma toy_kv_ok [simp]: "kv_ok toy_env"
  by (simp add: kv_ok_def toy_env_def toy_entries_sorted toy_entries_id sorted_toy_bops map_of_toy_bops)

lemma toy_pb_ok [simp]: "pb_ok toy_env"
  by (simp add: pb_ok_def codec_ok_def toy_env_def)

lemma toy_env_b64 [simp]: "b64 toy_env = toy_b64"
  by (simp add: toy_env_def)

lemma toy_aes_ok [simp]: "aes_ok toy_env"
proof -
  have "ZPDS_FMT_NODE_ONLY t @ n \<noteq> []" for t n
    by (metis append_is_Nil_conv length_ZPDS_FMT_NODE_ONLY list.size(3) zero_neq_numeral)
  then show ?thesis
    by (simp add: aes_ok_def toy_env_def session_msg_def stoull16_NODE)
qed

end
