(* ===== verification/TableLaws.thy ===== *)
theory TableLaws
  imports StoreTable
begin

text \<open>
  The contract between a table and the store. The locale \<open>table_laws\<close> states what a concrete table
  must satisfy (how its keys are made); inside it the invariant \<open>wf_table\<close> (every record is
  reachable by its unique keys and no unique key dangles) is proved to be kept by \<open>AddRecord\<close>, for
  one record and for a batch that is committed at once, and the table is proved to refine the
  abstract map \<open>abs_table\<close> from ids to records.
\<close>

section \<open>What a committed transaction does to the lookup\<close>

definition item_bop :: "'b TransItemT \<Rightarrow> 'b bop" where
  "item_bop it = (if ti_to_del it then Delete (ti_key it) else Put (ti_key it) (ti_value it))"

definition apply_items :: "'b TransItemT list \<Rightarrow> 'b lookup \<Rightarrow> 'b lookup" where
  "apply_items its g = fold bop_apply (map item_bop its) g"

lemma apply_items_simps [simp]:
  "apply_items [] g = g"
  "apply_items (its @ its') g = apply_items its' (apply_items its g)"
  "apply_items (it # its) g = apply_items its (bop_apply (item_bop it) g)"
  by (simp_all add: apply_items_def)

section \<open>The invariant and the abstraction\<close>

definition abs_table :: "('r, 'b) table \<Rightarrow> 'b lookup \<Rightarrow> 64 word \<Rightarrow> 'r option" where
  "abs_table T g i = (if i = 0 then None else case g (EncodePrimaryKey (PrimaryKey T) i) of None \<Rightarrow> None
     | Some v \<Rightarrow> if fst (par (rcodec T) v) then Some (snd (par (rcodec T) v)) else None)"

definition records_ok :: "('r, 'b) table \<Rightarrow> 'b lookup \<Rightarrow> bool" where
  "records_ok T g \<longleftrightarrow> (\<forall>i v. i \<noteq> 0 \<longrightarrow> g (EncodePrimaryKey (PrimaryKey T) i) = Some v \<longrightarrow>
     (\<exists>r. par (rcodec T) v = (True, r) \<and> rid T r = i \<and> \<not> rnotfound T r))"

definition node_at :: "('b, 'd) env \<Rightarrow> ('r, 'b) table \<Rightarrow> 'b lookup \<Rightarrow> string \<Rightarrow> 64 word \<Rightarrow> bool" where
  "node_at E T g k i \<longleftrightarrow> (\<exists>v. g k = Some v \<and> par (c_node E) v = (True, \<lparr>node_keytype = PrimaryKey T, node_id = i\<rparr>))"

definition index_complete :: "('b, 'd) env \<Rightarrow> ('r, 'b) table \<Rightarrow> 'b lookup \<Rightarrow> bool" where
  "index_complete E T g \<longleftrightarrow> (\<forall>i r. abs_table T g i = Some r \<longrightarrow>
     (\<forall>u \<in> set (unique_keys T). node_at E T g (GetKey T r u False) i))"

definition index_sound :: "('b, 'd) env \<Rightarrow> ('r, 'b) table \<Rightarrow> 'b lookup \<Rightarrow> bool" where
  "index_sound E T g \<longleftrightarrow> (\<forall>u \<in> set (unique_keys T). \<forall>k. starts_with k (ZPDS_FMT_ID_KEY u) \<longrightarrow> g k \<noteq> None \<longrightarrow>
     (\<exists>i r. abs_table T g i = Some r \<and> GetKey T r u False = k \<and> node_at E T g k i))"

text \<open>Nothing but primary keys starts with the digits of the table's key type.\<close>

definition primary_only :: "('r, 'b) table \<Rightarrow> 'b lookup \<Rightarrow> bool" where
  "primary_only T g \<longleftrightarrow> (\<forall>k. starts_with k (ZPDS_FMT_ID_KEY (PrimaryKey T)) \<longrightarrow> g k \<noteq> None \<longrightarrow>
     (\<exists>i. k = EncodePrimaryKey (PrimaryKey T) i))"

definition wf_table :: "('b, 'd) env \<Rightarrow> ('r, 'b) table \<Rightarrow> 'b lookup \<Rightarrow> bool" where
  "wf_table E T g \<longleftrightarrow> records_ok T g \<and> primary_only T g \<and> index_complete E T g \<and> index_sound E T g"

text \<open>The keys of a table, by their two leading digits.\<close>

definition table_key :: "('r, 'b) table \<Rightarrow> string \<Rightarrow> bool" where
  "table_key T k \<longleftrightarrow> (\<exists>u \<in> insert (PrimaryKey T) (set (unique_keys T)). starts_with k (ZPDS_FMT_ID_KEY u))"

definition codecs_ok :: "('b, 'd) env \<Rightarrow> ('r, 'b) table \<Rightarrow> bool" where
  "codecs_ok E T \<longleftrightarrow> (\<forall>n. par (c_node E) (ser (c_node E) n) = (True, n)) \<and>
     (\<forall>r. par (rcodec T) (ser (rcodec T) r) = (True, r))"

text \<open>A batch: \<open>AddRecord\<close> on each record in turn, all against the same store, into one transaction.\<close>

inductive adds :: "('b, 'd) env \<Rightarrow> ('r, 'b) table \<Rightarrow> 'b lookup \<Rightarrow> 'r list \<Rightarrow> 'b TransactionT \<Rightarrow> 'b TransactionT \<Rightarrow> bool"
  for E T g where
  adds_Nil: "adds E T g [] t t"
| adds_Cons: "AddRecord E T g r up t = Inr (True, t1) \<Longrightarrow> adds E T g rs t1 t2 \<Longrightarrow> adds E T g (r # rs) t t2"

inductive_cases adds_NilE: "adds E T g [] t t'"
inductive_cases adds_ConsE: "adds E T g (r # rs) t t'"

definition upd_abs :: "('r, 'b) table \<Rightarrow> 'r \<Rightarrow> (64 word \<Rightarrow> 'r option) \<Rightarrow> (64 word \<Rightarrow> 'r option)" where
  "upd_abs T r a = a(rid T r \<mapsto> r)"

section \<open>The items of one \<open>AddRecord\<close>\<close>

definition key_items :: "('b, 'd) env \<Rightarrow> ('r, 'b) table \<Rightarrow> 'r \<Rightarrow> 'r option \<Rightarrow> 'b \<Rightarrow> keytype \<Rightarrow> 'b TransItemT list" where
  "key_items E T r old dumpid u =
     (let put = \<lparr>ti_key = GetKey T r u False, ti_value = dumpid, ti_to_del = False\<rparr> in
      case old of None \<Rightarrow> [put]
      | Some old \<Rightarrow> if GetKey T old u False \<noteq> GetKey T r u False
          then [\<lparr>ti_key = GetKey T old u False, ti_value = blank E, ti_to_del = True\<rparr>, put] else [])"

lemma add_keys_items:
  "add_keys E T r ex old dumpid kts t = t\<lparr>tr_item := tr_item t @
     concat (map (key_items E T r (if ex then Some old else None) dumpid) kts)\<rparr>"
  by (induction kts arbitrary: t) (auto simp: Let_def AddTrans_def key_items_def)

definition node_of :: "('b, 'd) env \<Rightarrow> ('r, 'b) table \<Rightarrow> 'r \<Rightarrow> 'b" where
  "node_of E T r = ser (c_node E) \<lparr>node_keytype = PrimaryKey T, node_id = rid T r\<rparr>"

definition record_items :: "('b, 'd) env \<Rightarrow> ('r, 'b) table \<Rightarrow> 'r \<Rightarrow> 'r option \<Rightarrow> 'b TransItemT list" where
  "record_items E T r old = concat (map (key_items E T r old (node_of E T r)) (unique_keys T)) @
     [\<lparr>ti_key = GetKey T r (PrimaryKey T) False, ti_value = ser (rcodec T) r, ti_to_del = False\<rparr>]"

text \<open>The clash check passes exactly when no unique key of the record leads to another id.\<close>

lemma unique_clash_iff:
  assumes "set kts \<subseteq> set (unique_keys T)"
  shows "unique_clash E T g r kts n \<longleftrightarrow>
    (\<exists>u \<in> set kts. \<exists>v m. g (GetKey T r u False) = Some v \<and> par (c_node E) v = (True, m) \<and> node_id m \<noteq> rid T r)"
  using assms
proof (induction kts arbitrary: n)
  case Nil
  then show ?case by simp
next
  case (Cons u kts)
  then have u: "u \<in> set (unique_keys T)" and s: "set kts \<subseteq> set (unique_keys T)" by auto
  show ?case
  proof (cases "g (GetKey T r u False)")
    case None
    with Cons.IH [OF s] u show ?thesis by (simp add: GetSecondaryValue_def)
  next
    case (Some v)
    obtain ok m where "par (c_node E) v = (ok, m)" by force
    with Some Cons.IH [OF s] u show ?thesis by (auto simp: GetSecondaryValue_def)
  qed
qed

section \<open>The laws of a table\<close>

locale table_laws =
  fixes T :: "('r, 'b) table"
  assumes pkey_range: "K_NONODE < PrimaryKey T \<and> PrimaryKey T < K_LOGNODE"
    and GetKey_primary: "GetKey T r (PrimaryKey T) pre = EncodePrimaryKey (PrimaryKey T) (rid T r)"
    and GetKey_unique: "u \<in> set (unique_keys T) \<Longrightarrow> starts_with (GetKey T r u pre) (ZPDS_FMT_ID_KEY u)"
    and unique_range: "u \<in> set (unique_keys T) \<Longrightarrow> byte_keytype u \<and> I_LOGNODE_TS < u"
    and distinct_unique: "distinct (unique_keys T)"
    and no_index: "index_keys T = []"
    and rid_set_rid: "rid T (set_rid T i r) = i"
    and GetKey_set_rid: "u \<in> set (unique_keys T) \<Longrightarrow> GetKey T (set_rid T i r) u pre = GetKey T r u pre"
begin

lemma pkey_byte [simp]: "byte_keytype (PrimaryKey T)"
  using pkey_range by (simp add: byte_keytype_def keytype_defs)

lemma pkey_not_unique: "u \<in> set (unique_keys T) \<Longrightarrow> u \<noteq> PrimaryKey T"
  using pkey_range unique_range [of u] by (auto simp: keytype_defs)

lemma pkey_inject [simp]:
  "EncodePrimaryKey (PrimaryKey T) i = EncodePrimaryKey (PrimaryKey T) j \<longleftrightarrow> i = j"
  by (simp add: EncodePrimaryKey_def)

lemma starts_with_prefix:
  "byte_keytype u \<Longrightarrow> byte_keytype w \<Longrightarrow> starts_with k (ZPDS_FMT_ID_KEY u) \<Longrightarrow> starts_with k (ZPDS_FMT_ID_KEY w) \<Longrightarrow> u = w"
  by (auto simp: starts_with_def ZPDS_FMT_ID_KEY_inject)

lemma unique_prefix_inj:
  assumes "u \<in> set (unique_keys T)" "w \<in> set (unique_keys T)"
    and "GetKey T r u False = GetKey T s w False"
  shows "u = w"
  using starts_with_prefix [of u w] GetKey_unique [of u r False] GetKey_unique [of w s False]
    unique_range [of u] unique_range [of w] assms by auto

lemma unique_not_primary:
  "u \<in> set (unique_keys T) \<Longrightarrow> starts_with k (ZPDS_FMT_ID_KEY u) \<Longrightarrow> k \<noteq> EncodePrimaryKey (PrimaryKey T) i"
  using starts_with_prefix [of u "PrimaryKey T" k] unique_range [of u] pkey_not_unique [of u]
  by (auto simp: EncodePrimaryKey_def)

lemma unique_key_not_primary:
  "u \<in> set (unique_keys T) \<Longrightarrow> GetKey T r u pre \<noteq> EncodePrimaryKey (PrimaryKey T) i"
  using unique_not_primary GetKey_unique by blast

text \<open>Whether a record is there and what it is.\<close>

lemma GetOne_primary:
  assumes "records_ok T g" and "i \<noteq> 0"
  shows "GetOne E T g (set_rid T i r) (PrimaryKey T) =
    Inr (case abs_table T g i of None \<Rightarrow> (False, set_rid T i r) | Some x \<Rightarrow> (True, x))"
proof (cases "g (EncodePrimaryKey (PrimaryKey T) i)")
  case None
  with assms show ?thesis by (simp add: GetOne_def GetByPrimary_def GetKey_primary rid_set_rid abs_table_def)
next
  case (Some v)
  with assms obtain x where "par (rcodec T) v = (True, x)" unfolding records_ok_def by blast
  with Some assms show ?thesis by (simp add: GetOne_def GetByPrimary_def GetKey_primary rid_set_rid abs_table_def)
qed

lemma abs_table_rid: "records_ok T g \<Longrightarrow> abs_table T g i = Some r \<Longrightarrow> rid T r = i \<and> i \<noteq> 0 \<and> \<not> rnotfound T r"
  unfolding abs_table_def records_ok_def by (fastforce split: if_splits option.splits)

lemma AddRecord_True:
  assumes "records_ok T g" and "AddRecord E T g r up t = Inr (True, t')"
  shows "rid T r \<noteq> 0 \<and> \<not> rnotfound T r \<and> (up \<or> abs_table T g (rid T r) = None) \<and>
    \<not> unique_clash E T g r (unique_keys T) NodeT_new \<and>
    t' = t\<lparr>tr_item := tr_item t @ record_items E T r (abs_table T g (rid T r))\<rparr>"
proof -
  from assms(2) have i: "rid T r \<noteq> 0" "\<not> rnotfound T r" by (auto simp: AddRecord_def split: if_splits)
  show ?thesis
    using assms(2) i
    by (simp add: AddRecord_def GetOne_primary [OF assms(1) i(1)] add_keys_items no_index AddTrans_def
        record_items_def node_of_def split: option.splits if_splits)
qed

lemma AddRecord_iff:
  assumes "records_ok T g"
  shows "AddRecord E T g r up t =
    (if rnotfound T r \<or> rid T r = 0 \<or> (abs_table T g (rid T r) \<noteq> None \<and> \<not> up) \<or>
        unique_clash E T g r (unique_keys T) NodeT_new then Inr (False, t)
     else Inr (True, t\<lparr>tr_item := tr_item t @ record_items E T r (abs_table T g (rid T r))\<rparr>))"
proof (cases "rnotfound T r \<or> rid T r = 0")
  case True
  then show ?thesis by (auto simp: AddRecord_def)
next
  case False
  then show ?thesis
    by (simp add: AddRecord_def GetOne_primary [OF assms] add_keys_items no_index AddTrans_def
        record_items_def node_of_def split: option.splits)
qed

text \<open>What the items of the unique keys do to a lookup: the keys they leave alone, the new keys, the
  replaced keys.\<close>

lemma key_items_frame:
  assumes "k \<noteq> GetKey T r u False" and "\<And>o'. old = Some o' \<Longrightarrow> k \<noteq> GetKey T o' u False"
  shows "apply_items (key_items E T r old d u) g k = g k"
  using assms by (cases old) (auto simp: key_items_def Let_def item_bop_def)

lemma apply_key_items_frame:
  assumes "\<forall>u \<in> set kts. k \<noteq> GetKey T r u False \<and> (\<forall>o'. old = Some o' \<longrightarrow> k \<noteq> GetKey T o' u False)"
  shows "apply_items (concat (map (key_items E T r old d) kts)) g k = g k"
  using assms by (induction kts arbitrary: g) (simp_all add: key_items_frame)

lemma key_items_at:
  "apply_items (key_items E T r old d u) g (GetKey T r u False) =
    (if \<exists>o'. old = Some o' \<and> GetKey T o' u False = GetKey T r u False then g (GetKey T r u False) else Some d)"
  by (cases old) (auto simp: key_items_def Let_def item_bop_def)

lemma key_items_gone:
  "GetKey T o' u False \<noteq> GetKey T r u False \<Longrightarrow>
   apply_items (key_items E T r (Some o') d u) g (GetKey T o' u False) = None"
  by (auto simp: key_items_def Let_def item_bop_def)

lemma other_key:
  assumes "set (u # kts) \<subseteq> set (unique_keys T)" and "distinct (u # kts)" and "w \<in> set kts"
  shows "GetKey T x w False \<noteq> GetKey T y u False" and "GetKey T x u False \<noteq> GetKey T y w False"
  using unique_prefix_inj [of w u x y] unique_prefix_inj [of u w x y] assms by auto

lemma apply_key_items_at:
  assumes "set kts \<subseteq> set (unique_keys T)" and "distinct kts" and "w \<in> set kts"
  shows "apply_items (concat (map (key_items E T r old d) kts)) g (GetKey T r w False) =
    (if \<exists>o'. old = Some o' \<and> GetKey T o' w False = GetKey T r w False then g (GetKey T r w False) else Some d)"
  using assms
proof (induction kts arbitrary: g)
  case Nil
  then show ?case by simp
next
  case (Cons u kts)
  show ?case
  proof (cases "w = u")
    case True
    have "apply_items (concat (map (key_items E T r old d) kts)) h (GetKey T r w False) = h (GetKey T r w False)" for h
      using other_key [OF Cons.prems(1,2)] True by (intro apply_key_items_frame) auto
    then show ?thesis by (auto simp: True key_items_at)
  next
    case False
    then have w: "w \<in> set kts" using Cons.prems by simp
    have "apply_items (key_items E T r old d u) g (GetKey T r w False) = g (GetKey T r w False)"
      using other_key [OF Cons.prems(1,2) w] by (intro key_items_frame) auto
    with Cons.IH [of "apply_items (key_items E T r old d u) g"] Cons.prems w show ?thesis by auto
  qed
qed

lemma apply_key_items_gone:
  assumes "set kts \<subseteq> set (unique_keys T)" and "distinct kts" and "w \<in> set kts"
    and "GetKey T o' w False \<noteq> GetKey T r w False"
  shows "apply_items (concat (map (key_items E T r (Some o') d) kts)) g (GetKey T o' w False) = None"
  using assms
proof (induction kts arbitrary: g)
  case Nil
  then show ?case by simp
next
  case (Cons u kts)
  show ?case
  proof (cases "w = u")
    case True
    have "apply_items (concat (map (key_items E T r (Some o') d) kts)) h (GetKey T o' w False) = h (GetKey T o' w False)" for h
      using other_key [OF Cons.prems(1,2)] True by (intro apply_key_items_frame) auto
    with Cons.prems(4) True show ?thesis by (simp add: key_items_gone)
  next
    case False
    then have w: "w \<in> set kts" using Cons.prems by simp
    with Cons.IH [of "apply_items (key_items E T r (Some o') d u) g"] Cons.prems show ?thesis by simp
  qed
qed

text \<open>The same for all items of one record.\<close>

lemma apply_record_primary [simp]:
  "apply_items (record_items E T r old) g (EncodePrimaryKey (PrimaryKey T) (rid T r)) = Some (ser (rcodec T) r)"
  by (simp add: record_items_def item_bop_def GetKey_primary)

lemma apply_record_frame:
  assumes "k \<noteq> EncodePrimaryKey (PrimaryKey T) (rid T r)"
    and "\<forall>u \<in> set (unique_keys T). k \<noteq> GetKey T r u False \<and> (\<forall>o'. old = Some o' \<longrightarrow> k \<noteq> GetKey T o' u False)"
  shows "apply_items (record_items E T r old) g k = g k"
  using assms by (simp add: record_items_def item_bop_def GetKey_primary apply_key_items_frame)

lemma apply_record_other_primary:
  "i \<noteq> rid T r \<Longrightarrow> apply_items (record_items E T r old) g (EncodePrimaryKey (PrimaryKey T) i) = g (EncodePrimaryKey (PrimaryKey T) i)"
  using unique_key_not_primary by (intro apply_record_frame) (auto, metis+)

lemma apply_record_at:
  assumes "u \<in> set (unique_keys T)"
  shows "apply_items (record_items E T r old) g (GetKey T r u False) =
    (if \<exists>o'. old = Some o' \<and> GetKey T o' u False = GetKey T r u False then g (GetKey T r u False) else Some (node_of E T r))"
  using apply_key_items_at [OF subset_refl distinct_unique assms, of E r old "node_of E T r" g]
    unique_key_not_primary [OF assms, of r False "rid T r"]
  by (auto simp: record_items_def item_bop_def GetKey_primary)

lemma apply_record_gone:
  assumes "u \<in> set (unique_keys T)" and "GetKey T o' u False \<noteq> GetKey T r u False"
  shows "apply_items (record_items E T r (Some o')) g (GetKey T o' u False) = None"
  using apply_key_items_gone [OF subset_refl distinct_unique assms] unique_key_not_primary [OF assms(1)]
  by (simp add: record_items_def item_bop_def GetKey_primary)

section \<open>One record\<close>

lemma abs_table_record:
  assumes "codecs_ok E T" and "rid T r \<noteq> 0"
  shows "abs_table T (apply_items (record_items E T r old) g) = upd_abs T r (abs_table T g)"
proof
  fix i
  show "abs_table T (apply_items (record_items E T r old) g) i = upd_abs T r (abs_table T g) i"
    using assms by (cases "i = rid T r") (simp_all add: abs_table_def upd_abs_def codecs_ok_def apply_record_other_primary)
qed

text \<open>A unique key of the record to add is free or leads to the record's own id.\<close>

lemma no_clash_owner:
  assumes "\<not> unique_clash E T g r (unique_keys T) NodeT_new" and "u \<in> set (unique_keys T)"
    and "node_at E T g (GetKey T r u False) i"
  shows "i = rid T r"
  using assms by (auto simp: unique_clash_iff node_at_def)

lemma records_ok_record:
  assumes "codecs_ok E T" and "records_ok T g" and "\<not> rnotfound T r"
  shows "records_ok T (apply_items (record_items E T r old) g)"
  unfolding records_ok_def
proof (intro allI impI)
  fix i v
  assume i: "i \<noteq> 0" and v: "apply_items (record_items E T r old) g (EncodePrimaryKey (PrimaryKey T) i) = Some v"
  show "\<exists>r. par (rcodec T) v = (True, r) \<and> rid T r = i \<and> \<not> rnotfound T r"
  proof (cases "i = rid T r")
    case True
    with v assms show ?thesis by (auto simp: codecs_ok_def)
  next
    case False
    with v assms(2) i show ?thesis by (simp add: records_ok_def apply_record_other_primary)
  qed
qed

lemma primary_only_record:
  assumes "primary_only T g"
  shows "primary_only T (apply_items (record_items E T r old) g)"
  unfolding primary_only_def
proof (intro allI impI)
  fix k assume k: "starts_with k (ZPDS_FMT_ID_KEY (PrimaryKey T))"
    and v: "apply_items (record_items E T r old) g k \<noteq> None"
  show "\<exists>i. k = EncodePrimaryKey (PrimaryKey T) i"
  proof (rule ccontr)
    assume n: "\<not> ?thesis"
    have "k \<noteq> GetKey T x u False" if "u \<in> set (unique_keys T)" for x u
      using starts_with_prefix [of "PrimaryKey T" u k] GetKey_unique [OF that, of x False] k
        unique_range [OF that] pkey_not_unique [OF that] by auto
    then have "apply_items (record_items E T r old) g k = g k"
      using n by (intro apply_record_frame) blast+
    with assms k v n show False by (simp add: primary_only_def)
  qed
qed

lemma node_at_new:
  assumes "codecs_ok E T" and "wf_table E T g" and "u \<in> set (unique_keys T)"
    and "old = abs_table T g (rid T r)"
  shows "node_at E T (apply_items (record_items E T r old) g) (GetKey T r u False) (rid T r)"
proof (cases "\<exists>o'. old = Some o' \<and> GetKey T o' u False = GetKey T r u False")
  case True
  then obtain o' where "abs_table T g (rid T r) = Some o'" "GetKey T o' u False = GetKey T r u False"
    using assms by auto
  with assms have "node_at E T g (GetKey T r u False) (rid T r)"
    unfolding wf_table_def index_complete_def by metis
  with True assms show ?thesis by (simp add: node_at_def apply_record_at)
next
  case False
  with assms show ?thesis by (auto simp: node_at_def apply_record_at node_of_def codecs_ok_def)
qed

text \<open>The unique keys of the other records are left alone.\<close>

lemma node_at_other:
  assumes "wf_table E T g" and "\<not> unique_clash E T g r (unique_keys T) NodeT_new"
    and "old = abs_table T g (rid T r)" and "u \<in> set (unique_keys T)"
    and "node_at E T g k i" and "starts_with k (ZPDS_FMT_ID_KEY u)" and "i \<noteq> rid T r"
  shows "apply_items (record_items E T r old) g k = g k"
proof (rule apply_record_frame)
  show "k \<noteq> EncodePrimaryKey (PrimaryKey T) (rid T r)"
    using unique_not_primary assms(4,6) by blast
  show "\<forall>u \<in> set (unique_keys T). k \<noteq> GetKey T r u False \<and> (\<forall>o'. old = Some o' \<longrightarrow> k \<noteq> GetKey T o' u False)"
  proof (intro ballI conjI allI impI)
    fix w assume w: "w \<in> set (unique_keys T)"
    show "k \<noteq> GetKey T r w False"
      using no_clash_owner [OF assms(2) w, of i] assms(5,7) by auto
    fix o' assume "old = Some o'"
    with assms(1,3) w have "node_at E T g (GetKey T o' w False) (rid T r)"
      unfolding wf_table_def index_complete_def by metis
    with assms(5,7) show "k \<noteq> GetKey T o' w False" by (auto simp: node_at_def)
  qed
qed

text \<open>The invariant after the items of one record are applied.\<close>

lemma wf_table_record:
  assumes c: "codecs_ok E T" and wf: "wf_table E T g"
    and r: "rid T r \<noteq> 0" "\<not> rnotfound T r" and nc: "\<not> unique_clash E T g r (unique_keys T) NodeT_new"
    and old: "old = abs_table T g (rid T r)"
  shows "wf_table E T (apply_items (record_items E T r old) g)" (is "wf_table E T ?m")
proof -
  have ab: "abs_table T ?m = upd_abs T r (abs_table T g)" using c r(1) by (rule abs_table_record)
  have ro: "records_ok T g" and ic: "index_complete E T g" and isd: "index_sound E T g"
    using wf by (simp_all add: wf_table_def)
  have "records_ok T ?m" using c ro r(2) by (rule records_ok_record)
  moreover have "primary_only T ?m" using wf primary_only_record [of g E r old] by (simp add: wf_table_def)
  moreover have "index_complete E T ?m"
    unfolding index_complete_def
  proof (intro allI impI ballI)
    fix i r' u assume i: "abs_table T ?m i = Some r'" and u: "u \<in> set (unique_keys T)"
    show "node_at E T ?m (GetKey T r' u False) i"
    proof (cases "i = rid T r")
      case True
      with i ab node_at_new [OF c wf u old] show ?thesis by (simp add: upd_abs_def)
    next
      case False
      with i ab have "abs_table T g i = Some r'" by (simp add: upd_abs_def)
      with ic u have n: "node_at E T g (GetKey T r' u False) i" by (simp add: index_complete_def)
      from node_at_other [OF wf nc old u this GetKey_unique [OF u] False] n show ?thesis
        by (simp add: node_at_def)
    qed
  qed
  moreover have "index_sound E T ?m"
    unfolding index_sound_def
  proof (intro ballI allI impI)
    fix u k assume u: "u \<in> set (unique_keys T)" and k: "starts_with k (ZPDS_FMT_ID_KEY u)" and v: "?m k \<noteq> None"
    show "\<exists>i r'. abs_table T ?m i = Some r' \<and> GetKey T r' u False = k \<and> node_at E T ?m k i"
    proof (cases "k = GetKey T r u False")
      case True
      with ab node_at_new [OF c wf u old] show ?thesis by (auto simp: upd_abs_def)
    next
      case False
      have nk: "k \<noteq> GetKey T x w False" if "w \<in> set (unique_keys T)" "w \<noteq> u" for x w
        using starts_with_prefix [of u w k] GetKey_unique [OF that(1), of x False] k u that unique_range by auto
      have no: "k \<noteq> GetKey T o' u False" if "old = Some o'" for o'
        using apply_record_gone [OF u, of o' r E g] False v that by auto
      have "k \<noteq> GetKey T r w False \<and> (\<forall>o'. old = Some o' \<longrightarrow> k \<noteq> GetKey T o' w False)"
        if "w \<in> set (unique_keys T)" for w
        using False nk [OF that] no by (cases "w = u") auto
      then have "?m k = g k"
        using unique_not_primary [OF u k] by (intro apply_record_frame) blast+
      with v k u isd obtain i r' where i: "abs_table T g i = Some r'" "GetKey T r' u False = k" "node_at E T g k i"
        unfolding index_sound_def by metis
      have "i \<noteq> rid T r" using i old no by auto
      with i ab \<open>?m k = g k\<close> show ?thesis by (auto simp: upd_abs_def node_at_def)
    qed
  qed
  ultimately show ?thesis by (simp add: wf_table_def)
qed

text \<open>The changed keys belong to the record.\<close>

lemma record_items_changed:
  assumes "apply_items (record_items E T r old) g k \<noteq> g k"
  shows "k = EncodePrimaryKey (PrimaryKey T) (rid T r) \<or> (\<exists>u \<in> set (unique_keys T). k = GetKey T r u False) \<or>
    (\<exists>u \<in> set (unique_keys T). \<exists>o'. old = Some o' \<and> k = GetKey T o' u False)"
  using apply_record_frame assms by metis

lemma AddRecord_step:
  assumes "codecs_ok E T" and "wf_table E T g" and "AddRecord E T g r up t = Inr (True, t')"
  shows "\<exists>its. t' = t\<lparr>tr_item := tr_item t @ its\<rparr> \<and> wf_table E T (apply_items its g) \<and>
    abs_table T (apply_items its g) = upd_abs T r (abs_table T g)"
proof -
  from assms(2) have "records_ok T g" by (simp add: wf_table_def)
  from AddRecord_True [OF this assms(3)] assms(1,2) show ?thesis
    by (intro exI [of _ "record_items E T r (abs_table T g (rid T r))"])
      (simp add: wf_table_record abs_table_record)
qed

section \<open>A batch\<close>

definition touched :: "('b, 'd) env \<Rightarrow> 'b lookup \<Rightarrow> 'r list \<Rightarrow> string \<Rightarrow> bool" where
  "touched E g ps k \<longleftrightarrow> (\<exists>r \<in> set ps. k = EncodePrimaryKey (PrimaryKey T) (rid T r) \<or>
     (\<exists>u \<in> set (unique_keys T). k = GetKey T r u False \<or> starts_with k (ZPDS_FMT_ID_KEY u) \<and> node_at E T g k (rid T r)))"

lemma untouched_primary:
  assumes "rid T r \<notin> rid T ` set ps"
  shows "\<not> touched E g ps (EncodePrimaryKey (PrimaryKey T) (rid T r))"
  using assms unique_not_primary unique_key_not_primary by (auto simp: touched_def) metis

lemma untouched_unique:
  assumes "rid T r \<notin> rid T ` set ps" and "u \<in> set (unique_keys T)"
    and "GetKey T r u False \<notin> (\<lambda>r. GetKey T r u False) ` set ps"
    and "\<not> unique_clash E T g r (unique_keys T) NodeT_new"
  shows "\<not> touched E g ps (GetKey T r u False)"
proof
  assume "touched E g ps (GetKey T r u False)"
  then obtain p w where p: "p \<in> set ps" and w: "GetKey T r u False = EncodePrimaryKey (PrimaryKey T) (rid T p) \<or>
      w \<in> set (unique_keys T) \<and> (GetKey T r u False = GetKey T p w False \<or> node_at E T g (GetKey T r u False) (rid T p))"
    by (auto simp: touched_def)
  moreover have "GetKey T r u False \<noteq> EncodePrimaryKey (PrimaryKey T) (rid T p)"
    using unique_key_not_primary assms(2) by blast
  moreover have "GetKey T r u False \<noteq> GetKey T p w False" if "w \<in> set (unique_keys T)"
    using unique_prefix_inj [OF assms(2) that, of r p] assms(3) p by auto
  moreover have "\<not> node_at E T g (GetKey T r u False) (rid T p)"
    using no_clash_owner [OF assms(4,2), of "rid T p"] assms(1) p by (metis imageI)
  ultimately show False by blast
qed

lemma unique_clash_cong:
  assumes "\<And>u. u \<in> set (unique_keys T) \<Longrightarrow> g (GetKey T r u False) = h (GetKey T r u False)"
  shows "unique_clash E T g r (unique_keys T) n = unique_clash E T h r (unique_keys T) n"
  using assms by (simp add: unique_clash_iff)

definition batch_inv :: "('b, 'd) env \<Rightarrow> 'b lookup \<Rightarrow> 'r list \<Rightarrow> 'b lookup \<Rightarrow> bool" where
  "batch_inv E g ps m \<longleftrightarrow> wf_table E T m \<and> abs_table T m = fold (upd_abs T) ps (abs_table T g) \<and>
     (\<forall>k. m k \<noteq> g k \<longrightarrow> touched E g ps k)"

lemma batch_step:
  assumes c: "codecs_ok E T" and g: "wf_table E T g" and inv: "batch_inv E g ps m"
    and ids: "rid T r \<notin> rid T ` set ps"
    and keys: "\<And>u. u \<in> set (unique_keys T) \<Longrightarrow> GetKey T r u False \<notin> (\<lambda>r. GetKey T r u False) ` set ps"
    and a: "AddRecord E T g r up t = Inr (True, t')"
  shows "\<exists>its. t' = t\<lparr>tr_item := tr_item t @ its\<rparr> \<and> batch_inv E g (ps @ [r]) (apply_items its m)"
proof -
  let ?old = "abs_table T g (rid T r)"
  let ?its = "record_items E T r ?old"
  from g have "records_ok T g" by (simp add: wf_table_def)
  from AddRecord_True [OF this a] have r: "rid T r \<noteq> 0" "\<not> rnotfound T r"
    and nc: "\<not> unique_clash E T g r (unique_keys T) NodeT_new" and t': "t' = t\<lparr>tr_item := tr_item t @ ?its\<rparr>" by auto
  have wm: "wf_table E T m" and am: "abs_table T m = fold (upd_abs T) ps (abs_table T g)"
    and tm: "\<And>k. m k \<noteq> g k \<Longrightarrow> touched E g ps k" using inv by (auto simp: batch_inv_def)
  have mp: "m (EncodePrimaryKey (PrimaryKey T) (rid T r)) = g (EncodePrimaryKey (PrimaryKey T) (rid T r))"
    using tm untouched_primary [OF ids] by blast
  then have old: "?old = abs_table T m (rid T r)" by (simp add: abs_table_def)
  have mu: "m (GetKey T r u False) = g (GetKey T r u False)" if "u \<in> set (unique_keys T)" for u
    using tm untouched_unique [OF ids that keys [OF that] nc] by blast
  then have nm: "\<not> unique_clash E T m r (unique_keys T) NodeT_new"
    using nc unique_clash_cong [of m r g E] by simp
  have ch: "touched E g (ps @ [r]) k" if "apply_items ?its m k \<noteq> g k" for k
  proof (cases "m k = g k")
    case False
    then show ?thesis using tm [OF False] by (auto simp: touched_def)
  next
    case True
    with that have "apply_items ?its m k \<noteq> m k" by simp
    from record_items_changed [OF this] show ?thesis
    proof (elim disjE)
      assume "\<exists>u \<in> set (unique_keys T). \<exists>o'. ?old = Some o' \<and> k = GetKey T o' u False"
      then obtain u o' where u: "u \<in> set (unique_keys T)" and k: "?old = Some o'" "k = GetKey T o' u False" by blast
      with g have "node_at E T g k (rid T r)" unfolding wf_table_def index_complete_def by metis
      with u k GetKey_unique [OF u] show ?thesis by (auto simp: touched_def)
    qed (auto simp: touched_def)
  qed
  have "wf_table E T (apply_items ?its m)" using c wm r nm old by (rule wf_table_record)
  moreover have "abs_table T (apply_items ?its m) = fold (upd_abs T) (ps @ [r]) (abs_table T g)"
    using abs_table_record [OF c r(1)] am by simp
  ultimately show ?thesis using t' ch by (auto simp: batch_inv_def)
qed

lemma batch_induct:
  assumes c: "codecs_ok E T" and g: "wf_table E T g" and a: "adds E T g rs t t'"
    and inv: "batch_inv E g ps m"
    and ids: "distinct (map (rid T) (ps @ rs))"
    and keys: "\<And>u. u \<in> set (unique_keys T) \<Longrightarrow> distinct (map (\<lambda>r. GetKey T r u False) (ps @ rs))"
  shows "\<exists>its. t' = t\<lparr>tr_item := tr_item t @ its\<rparr> \<and> batch_inv E g (ps @ rs) (apply_items its m)"
  using a inv ids keys
proof (induction arbitrary: ps m rule: adds.induct)
  case (adds_Nil t)
  then show ?case by (intro exI [of _ "[]"]) simp
next
  case (adds_Cons r up t t1 rs t2)
  have "\<exists>its. t1 = t\<lparr>tr_item := tr_item t @ its\<rparr> \<and> batch_inv E g (ps @ [r]) (apply_items its m)"
    by (rule batch_step [OF c g adds_Cons.prems(1) _ _ adds_Cons.hyps(1)])
      (use adds_Cons.prems in auto)
  then obtain its where its: "t1 = t\<lparr>tr_item := tr_item t @ its\<rparr>" "batch_inv E g (ps @ [r]) (apply_items its m)" by blast
  from adds_Cons.IH [OF its(2)] adds_Cons.prems obtain its' where
    "t2 = t1\<lparr>tr_item := tr_item t1 @ its'\<rparr>" "batch_inv E g (ps @ r # rs) (apply_items its' (apply_items its m))" by auto
  with its show ?case by (intro exI [of _ "its @ its'"]) simp
qed

lemma touched_table_key: "touched E g ps k \<Longrightarrow> table_key T k"
  using GetKey_unique by (fastforce simp: touched_def table_key_def EncodePrimaryKey_def)

lemma adds_refines:
  assumes "codecs_ok E T" and "wf_table E T g" and "adds E T g rs t t'"
    and "distinct (map (rid T) rs)"
    and "\<And>u. u \<in> set (unique_keys T) \<Longrightarrow> distinct (map (\<lambda>r. GetKey T r u False) rs)"
  shows "\<exists>its. t' = t\<lparr>tr_item := tr_item t @ its\<rparr> \<and> wf_table E T (apply_items its g) \<and>
    abs_table T (apply_items its g) = fold (upd_abs T) rs (abs_table T g) \<and>
    (\<forall>k. \<not> table_key T k \<longrightarrow> apply_items its g k = g k)"
proof -
  have "batch_inv E g [] g" using assms(2) by (simp add: batch_inv_def)
  from batch_induct [OF assms(1-3) this] assms(4,5) obtain its where
    "t' = t\<lparr>tr_item := tr_item t @ its\<rparr>" "batch_inv E g rs (apply_items its g)" by auto
  then show ?thesis using touched_table_key [of E g rs] by (intro exI [of _ its]) (auto simp: batch_inv_def)
qed

section \<open>Lookup by a unique key\<close>

lemma wf_table_cong:
  assumes "\<And>k. table_key T k \<Longrightarrow> g k = h k"
  shows "wf_table E T g = wf_table E T h" and "abs_table T g = abs_table T h"
proof -
  have p: "g (EncodePrimaryKey (PrimaryKey T) i) = h (EncodePrimaryKey (PrimaryKey T) i)" for i
    using assms by (auto simp: table_key_def EncodePrimaryKey_def)
  then show a: "abs_table T g = abs_table T h" by (auto simp: abs_table_def)
  have u: "g k = h k" if "u \<in> set (unique_keys T)" "starts_with k (ZPDS_FMT_ID_KEY u)" for u k
    using assms that by (auto simp: table_key_def)
  then have n: "node_at E T g k i = node_at E T h k i" if "u \<in> set (unique_keys T)" "starts_with k (ZPDS_FMT_ID_KEY u)" for u k i
    using that by (simp add: node_at_def)
  show "wf_table E T g = wf_table E T h"
    using GetKey_unique
    by (simp add: wf_table_def records_ok_def primary_only_def index_complete_def index_sound_def p a u n assms table_key_def)
qed

text \<open>On a consistent table, \<open>GetOne\<close> by a unique key finds exactly the record that has the key.\<close>

lemma GetOne_unique:
  assumes "wf_table E T g" and "u \<in> set (unique_keys T)"
  shows "(\<exists>i x. abs_table T g i = Some x \<and> GetKey T x u False = GetKey T r u False \<and>
      GetOne E T g r u = Inr (True, x)) \<or>
    (GetOne E T g r u = Inr (False, r) \<and>
      (\<forall>i x. abs_table T g i = Some x \<longrightarrow> GetKey T x u False \<noteq> GetKey T r u False))"
proof (cases "g (GetKey T r u False)")
  case None
  have "GetKey T x u False \<noteq> GetKey T r u False" if "abs_table T g i = Some x" for i x
    using assms that None unfolding wf_table_def index_complete_def node_at_def by (metis option.distinct(1))
  with None assms(2) pkey_not_unique show ?thesis by (auto simp: GetOne_def)
next
  case (Some v)
  with assms GetKey_unique [OF assms(2)] obtain i x where i: "abs_table T g i = Some x"
      "GetKey T x u False = GetKey T r u False" "node_at E T g (GetKey T r u False) i"
    unfolding wf_table_def index_sound_def by (metis option.distinct(1))
  from assms(1) have ro: "records_ok T g" by (simp add: wf_table_def)
  from abs_table_rid [OF ro i(1)] have nz: "i \<noteq> 0" by simp
  from Some i(3) have "par (c_node E) v = (True, \<lparr>node_keytype = PrimaryKey T, node_id = i\<rparr>)"
    by (simp add: node_at_def)
  with Some assms(2) pkey_not_unique [OF assms(2)] have "GetOne E T g r u = GetByPrimary T g (set_rid T i r)"
    by (simp add: GetOne_def)
  also have "\<dots> = Inr (True, x)"
    using GetOne_primary [OF ro nz, of E r] i(1) by (simp add: GetOne_def)
  finally show ?thesis using i by blast
qed

section \<open>Scanning\<close>

text \<open>The visitor that collects every record.\<close>

definition collect :: "'r \<Rightarrow> 'r list \<Rightarrow> bool \<times> 'r list" where
  "collect r rs = (True, rs @ [r])"

definition at_most :: "64 word \<Rightarrow> 'x list \<Rightarrow> 'x list" where
  "at_most limit xs = (if limit = 0 then xs else take (unat limit) xs)"

lemma scan_loop_collect:
  assumes "\<forall>e \<in> set es. fst (par (rcodec T) (snd e))"
    and "unat counter + length es < 2 ^ 64" and "limit = 0 \<or> counter < limit"
  shows "scan_loop T collect limit counter es s =
    Inr (s @ (if limit = 0 then id else take (unat limit - unat counter)) (map (\<lambda>e. snd (par (rcodec T) (snd e))) es))"
  using assms
proof (induction es arbitrary: counter s)
  case Nil
  then show ?case by simp
next
  case (Cons e es)
  obtain r where r: "par (rcodec T) (snd e) = (True, r)" using Cons.prems(1) by (metis list.set_intros(1) prod.collapse)
  have c: "unat (counter + 1) = unat counter + 1"
    using Cons.prems(2) by (simp add: unat_word_ariths)
  show ?case
  proof (cases "counter + 1 = limit")
    case True
    then have "unat limit = unat counter + 1" using c by simp
    moreover have "limit \<noteq> 0" using True c by (metis add_is_0 one_neq_zero unat_0)
    ultimately show ?thesis using r True by (simp add: collect_def)
  next
    case False
    have l: "limit = 0 \<or> counter + 1 < limit"
    proof (cases "limit = 0")
      case nz: False
      with Cons.prems(3) have "unat counter < unat limit" by (simp add: word_less_nat_alt)
      moreover have "unat (counter + 1) \<noteq> unat limit" using False by (simp add: word_unat_eq_iff)
      ultimately show ?thesis using c by (simp add: word_less_nat_alt)
    qed simp
    have t: "unat limit - unat counter = Suc (unat limit - unat (counter + 1))" if "limit \<noteq> 0"
      using l that c by (simp add: word_less_nat_alt)
    from Cons.IH [OF _ _ l] Cons.prems r c False t show ?thesis by (auto simp: collect_def)
  qed
qed

lemma primary_le: "EncodePrimaryKey (PrimaryKey T) i \<le> EncodePrimaryKey (PrimaryKey T) j \<longleftrightarrow> i \<le> j"
  using less_append_iff [of "ZPDS_FMT_ID_KEY (PrimaryKey T)" "ZPDS_FMT_ID_KEY (PrimaryKey T)"
      "ZPDS_FMT_NODE_ONLY j" "ZPDS_FMT_NODE_ONLY i"]
  by (auto simp: EncodePrimaryKey_def ZPDS_FMT_NODE_ONLY_less not_less [symmetric])

lemma primary_less: "EncodePrimaryKey (PrimaryKey T) i < EncodePrimaryKey (PrimaryKey T) j \<longleftrightarrow> i < j"
  using primary_le [of j i] by (simp add: not_le [symmetric])

lemma primary_prefix: "starts_with (EncodePrimaryKey (PrimaryKey T) i) (ZPDS_FMT_ID_KEY (PrimaryKey T))"
  by (simp add: EncodePrimaryKey_def)

lemma abs_table_Some_iff:
  "abs_table T g i = Some r \<longleftrightarrow> i \<noteq> 0 \<and> (\<exists>v. g (EncodePrimaryKey (PrimaryKey T) i) = Some v \<and> par (rcodec T) v = (True, r))"
  by (auto simp: abs_table_def prod_eq_iff split: option.splits)

text \<open>The entries a scan passes are the stored records from the start on.\<close>

lemma scan_entry:
  assumes "records_ok T g" and "primary_only T g" and "s > 0"
    and "g k = Some v" and "EncodePrimaryKey (PrimaryKey T) s \<le> k"
    and "starts_with k (ZPDS_FMT_ID_KEY (PrimaryKey T))"
  shows "\<exists>r. par (rcodec T) v = (True, r) \<and> k = EncodePrimaryKey (PrimaryKey T) (rid T r) \<and> s \<le> rid T r \<and>
    abs_table T g (rid T r) = Some r"
proof -
  from assms(2,4,6) obtain i where i: "k = EncodePrimaryKey (PrimaryKey T) i"
    unfolding primary_only_def by blast
  with assms(5) have s: "s \<le> i" by (simp add: primary_le)
  with assms(3) have "i \<noteq> 0" by auto
  with assms(1,4) i s show ?thesis unfolding records_ok_def abs_table_Some_iff by blast
qed

theorem ScanTable_collect:
  assumes "sorted_wrt (<) (map fst es)" and "length es < 2 ^ 64"
    and "records_ok T (map_of es)" and "primary_only T (map_of es)"
  shows "\<exists>rs. ScanTable T es startid limit collect [] = Inr (at_most limit rs) \<and>
    sorted_wrt (<) (map (rid T) rs) \<and>
    set rs = {r. \<exists>i. (if startid > 0 then startid else 1) \<le> i \<and> abs_table T (map_of es) i = Some r}"
proof -
  define s where "s = (if startid > 0 then startid else (1 :: 64 word))"
  have s0: "s > 0" by (simp add: s_def word_gt_0)
  let ?k = "EncodePrimaryKey (PrimaryKey T) s" and ?m = "ZPDS_FMT_ID_KEY (PrimaryKey T)"
  define F where "F = filter (\<lambda>e. ?k \<le> fst e \<and> starts_with (fst e) ?m) es"
  let ?rec = "\<lambda>e. snd (par (rcodec T) (snd e))"
  have dist: "distinct (map fst es)" using assms(1) by (simp add: strict_sorted_iff)
  have F: "seek_match es ?k ?m = F"
    using seek_match_filter [OF assms(1) primary_prefix] by (simp add: F_def)
  have ent: "\<exists>r. par (rcodec T) (snd e) = (True, r) \<and> fst e = EncodePrimaryKey (PrimaryKey T) (rid T r) \<and>
      s \<le> rid T r \<and> abs_table T (map_of es) (rid T r) = Some r" if "e \<in> set F" for e
    using scan_entry [OF assms(3,4) s0, of "fst e" "snd e"] that dist by (auto simp: F_def)
  then have ok: "\<forall>e \<in> set F. fst (par (rcodec T) (snd e))" by fastforce
  have "length F \<le> length es" by (simp add: F_def)
  with assms(2) have len: "unat (0 :: 64 word) + length F < 2 ^ 64" by simp
  have "ScanTable T es startid limit collect [] = scan_loop T collect limit 0 F []"
    by (simp add: ScanTable_def Let_def EncodeKeyType_def s_def [symmetric] F)
  also have "\<dots> = Inr (at_most limit (map ?rec F))"
    using scan_loop_collect [OF ok len, of limit] by (auto simp: at_most_def word_gt_0)
  finally have 1: "ScanTable T es startid limit collect [] = Inr (at_most limit (map ?rec F))" .
  have "map fst F = map (EncodePrimaryKey (PrimaryKey T)) (map (rid T) (map ?rec F))"
    using ent by (fastforce simp: comp_def)
  moreover have "sorted_wrt (<) (map fst F)"
    using assms(1) by (simp add: F_def sorted_wrt_filter sorted_wrt_map)
  ultimately have "sorted_wrt (<) (map (EncodePrimaryKey (PrimaryKey T)) (map (rid T) (map ?rec F)))"
    by (simp only:)
  then have 2: "sorted_wrt (<) (map (rid T) (map ?rec F))"
    unfolding sorted_wrt_map [of _ "EncodePrimaryKey (PrimaryKey T)"] by (simp only: primary_less)
  have 3: "set (map ?rec F) = {r. \<exists>i. s \<le> i \<and> abs_table T (map_of es) i = Some r}"
  proof (intro set_eqI iffI)
    fix r assume "r \<in> set (map ?rec F)"
    with ent show "r \<in> {r. \<exists>i. s \<le> i \<and> abs_table T (map_of es) i = Some r}" by fastforce
  next
    fix r assume "r \<in> {r. \<exists>i. s \<le> i \<and> abs_table T (map_of es) i = Some r}"
    then obtain i v where i: "s \<le> i" "map_of es (EncodePrimaryKey (PrimaryKey T) i) = Some v" "par (rcodec T) v = (True, r)"
      by (auto simp: abs_table_Some_iff)
    then have "(EncodePrimaryKey (PrimaryKey T) i, v) \<in> set F"
      using primary_prefix by (auto simp: F_def primary_le dest: map_of_SomeD)
    with i(3) show "r \<in> set (map ?rec F)" by force
  qed
  from 1 2 3 show ?thesis unfolding s_def by blast
qed

end

end
