(* ===== verification/Tables.thy ===== *)
theory Tables
  imports TableLaws
begin

text \<open>
  The six concrete tables (\<open>src/store/*Table.cc\<close>): their key types and their \<open>GetKey\<close>. Each has one
  unique key; external users and users share a message type, and so do the two kinds of items.
  Every table is an interpretation of \<open>table_laws\<close>, so the invariant, the refinement and the scans
  proved there hold of each; and no two tables share a key.
\<close>

section \<open>\<open>TagDataTable\<close>\<close>

definition TagDataTable_GetKey :: "TagDataT \<Rightarrow> keytype \<Rightarrow> bool \<Rightarrow> string" where
  "TagDataTable_GetKey record kt pre =
     (if kt = U_TAGDATA_KEYTYPE_NAME then EncodeSecondaryKey kt [AI32 (word_of_int (tag_keytype record)), AStr (tag_name record)]
      else EncodePrimaryKey K_TAGDATA (tag_id record))"

definition TagDataTable :: "('b, 'd) env \<Rightarrow> (TagDataT, 'b) table" where
  "TagDataTable E = \<lparr>PrimaryKey = K_TAGDATA, unique_keys = [U_TAGDATA_KEYTYPE_NAME], index_keys = [],
     GetKey = TagDataTable_GetKey, rid = tag_id, set_rid = (\<lambda>i r. r\<lparr>tag_id := i\<rparr>),
     rnotfound = tag_notfound, rnew = TagDataT_new, rcodec = c_tag E\<rparr>"

lemma TagDataTable_simps [simp, table_simps]:
  "PrimaryKey (TagDataTable E) = K_TAGDATA" "unique_keys (TagDataTable E) = [U_TAGDATA_KEYTYPE_NAME]" "index_keys (TagDataTable E) = []"
  "GetKey (TagDataTable E) r U_TAGDATA_KEYTYPE_NAME pre = EncodeSecondaryKey U_TAGDATA_KEYTYPE_NAME [AI32 (word_of_int (tag_keytype r)), AStr (tag_name r)]"
  "GetKey (TagDataTable E) r K_TAGDATA pre = EncodePrimaryKey K_TAGDATA (tag_id r)"
  "rid (TagDataTable E) r = tag_id r" "set_rid (TagDataTable E) i r = r\<lparr>tag_id := i\<rparr>"
  "rnotfound (TagDataTable E) r = tag_notfound r" "rnew (TagDataTable E) = TagDataT_new" "rcodec (TagDataTable E) = c_tag E"
  by (simp_all add: TagDataTable_def TagDataTable_GetKey_def keytype_defs)

interpretation tagdata_tbl: table_laws "TagDataTable E" for E
  by unfold_locales (auto simp: keytype_defs EncodeSecondaryKey_Cons TagDataTable_def TagDataTable_GetKey_def byte_keytype_def)

lemma TagDataTable_codecs [simp]: "pb_ok E \<Longrightarrow> codecs_ok E (TagDataTable E)"
  by (simp add: codecs_ok_def)

section \<open>\<open>CategoryTable\<close>\<close>

definition CategoryTable_GetKey :: "CategoryT \<Rightarrow> keytype \<Rightarrow> bool \<Rightarrow> string" where
  "CategoryTable_GetKey record kt pre =
     (if kt = U_CATEGORY_NAME then EncodeSecondaryKey kt [AStr (cat_name record)]
      else EncodePrimaryKey K_CATEGORY (cat_id record))"

definition CategoryTable :: "('b, 'd) env \<Rightarrow> (CategoryT, 'b) table" where
  "CategoryTable E = \<lparr>PrimaryKey = K_CATEGORY, unique_keys = [U_CATEGORY_NAME], index_keys = [],
     GetKey = CategoryTable_GetKey, rid = cat_id, set_rid = (\<lambda>i r. r\<lparr>cat_id := i\<rparr>),
     rnotfound = cat_notfound, rnew = CategoryT_new, rcodec = c_cat E\<rparr>"

lemma CategoryTable_simps [simp, table_simps]:
  "PrimaryKey (CategoryTable E) = K_CATEGORY" "unique_keys (CategoryTable E) = [U_CATEGORY_NAME]" "index_keys (CategoryTable E) = []"
  "GetKey (CategoryTable E) r U_CATEGORY_NAME pre = EncodeSecondaryKey U_CATEGORY_NAME [AStr (cat_name r)]"
  "GetKey (CategoryTable E) r K_CATEGORY pre = EncodePrimaryKey K_CATEGORY (cat_id r)"
  "rid (CategoryTable E) r = cat_id r" "set_rid (CategoryTable E) i r = r\<lparr>cat_id := i\<rparr>"
  "rnotfound (CategoryTable E) r = cat_notfound r" "rnew (CategoryTable E) = CategoryT_new" "rcodec (CategoryTable E) = c_cat E"
  by (simp_all add: CategoryTable_def CategoryTable_GetKey_def keytype_defs)

interpretation category_tbl: table_laws "CategoryTable E" for E
  by unfold_locales (auto simp: keytype_defs EncodeSecondaryKey_Cons CategoryTable_def CategoryTable_GetKey_def byte_keytype_def)

lemma CategoryTable_codecs [simp]: "pb_ok E \<Longrightarrow> codecs_ok E (CategoryTable E)"
  by (simp add: codecs_ok_def)

section \<open>\<open>ExterDataTable\<close>\<close>

definition ExterDataTable_GetKey :: "UserDataT \<Rightarrow> keytype \<Rightarrow> bool \<Rightarrow> string" where
  "ExterDataTable_GetKey record kt pre =
     (if kt = U_EXTERDATA_NAME then EncodeSecondaryKey kt [AStr (user_name record)]
      else EncodePrimaryKey K_EXTERDATA (user_id record))"

definition ExterDataTable :: "('b, 'd) env \<Rightarrow> (UserDataT, 'b) table" where
  "ExterDataTable E = \<lparr>PrimaryKey = K_EXTERDATA, unique_keys = [U_EXTERDATA_NAME], index_keys = [],
     GetKey = ExterDataTable_GetKey, rid = user_id, set_rid = (\<lambda>i r. r\<lparr>user_id := i\<rparr>),
     rnotfound = user_notfound, rnew = UserDataT_new, rcodec = c_user E\<rparr>"

lemma ExterDataTable_simps [simp, table_simps]:
  "PrimaryKey (ExterDataTable E) = K_EXTERDATA" "unique_keys (ExterDataTable E) = [U_EXTERDATA_NAME]" "index_keys (ExterDataTable E) = []"
  "GetKey (ExterDataTable E) r U_EXTERDATA_NAME pre = EncodeSecondaryKey U_EXTERDATA_NAME [AStr (user_name r)]"
  "GetKey (ExterDataTable E) r K_EXTERDATA pre = EncodePrimaryKey K_EXTERDATA (user_id r)"
  "rid (ExterDataTable E) r = user_id r" "set_rid (ExterDataTable E) i r = r\<lparr>user_id := i\<rparr>"
  "rnotfound (ExterDataTable E) r = user_notfound r" "rnew (ExterDataTable E) = UserDataT_new" "rcodec (ExterDataTable E) = c_user E"
  by (simp_all add: ExterDataTable_def ExterDataTable_GetKey_def keytype_defs)

interpretation exterdata_tbl: table_laws "ExterDataTable E" for E
  by unfold_locales (auto simp: keytype_defs EncodeSecondaryKey_Cons ExterDataTable_def ExterDataTable_GetKey_def byte_keytype_def)

lemma ExterDataTable_codecs [simp]: "pb_ok E \<Longrightarrow> codecs_ok E (ExterDataTable E)"
  by (simp add: codecs_ok_def)

section \<open>\<open>UserDataTable\<close>\<close>

definition UserDataTable_GetKey :: "UserDataT \<Rightarrow> keytype \<Rightarrow> bool \<Rightarrow> string" where
  "UserDataTable_GetKey record kt pre =
     (if kt = U_USERDATA_NAME then EncodeSecondaryKey kt [AStr (user_name record)]
      else EncodePrimaryKey K_USERDATA (user_id record))"

definition UserDataTable :: "('b, 'd) env \<Rightarrow> (UserDataT, 'b) table" where
  "UserDataTable E = \<lparr>PrimaryKey = K_USERDATA, unique_keys = [U_USERDATA_NAME], index_keys = [],
     GetKey = UserDataTable_GetKey, rid = user_id, set_rid = (\<lambda>i r. r\<lparr>user_id := i\<rparr>),
     rnotfound = user_notfound, rnew = UserDataT_new, rcodec = c_user E\<rparr>"

lemma UserDataTable_simps [simp, table_simps]:
  "PrimaryKey (UserDataTable E) = K_USERDATA" "unique_keys (UserDataTable E) = [U_USERDATA_NAME]" "index_keys (UserDataTable E) = []"
  "GetKey (UserDataTable E) r U_USERDATA_NAME pre = EncodeSecondaryKey U_USERDATA_NAME [AStr (user_name r)]"
  "GetKey (UserDataTable E) r K_USERDATA pre = EncodePrimaryKey K_USERDATA (user_id r)"
  "rid (UserDataTable E) r = user_id r" "set_rid (UserDataTable E) i r = r\<lparr>user_id := i\<rparr>"
  "rnotfound (UserDataTable E) r = user_notfound r" "rnew (UserDataTable E) = UserDataT_new" "rcodec (UserDataTable E) = c_user E"
  by (simp_all add: UserDataTable_def UserDataTable_GetKey_def keytype_defs)

interpretation userdata_tbl: table_laws "UserDataTable E" for E
  by unfold_locales (auto simp: keytype_defs EncodeSecondaryKey_Cons UserDataTable_def UserDataTable_GetKey_def byte_keytype_def)

lemma UserDataTable_codecs [simp]: "pb_ok E \<Longrightarrow> codecs_ok E (UserDataTable E)"
  by (simp add: codecs_ok_def)

section \<open>\<open>LocalDataTable\<close>\<close>

definition LocalDataTable_GetKey :: "ItemDataT \<Rightarrow> keytype \<Rightarrow> bool \<Rightarrow> string" where
  "LocalDataTable_GetKey record kt pre =
     (if kt = U_LOCALDATA_UNIQUEID then EncodeSecondaryKey kt [AStr (item_unique_id record)]
      else EncodePrimaryKey K_LOCALDATA (item_id record))"

definition LocalDataTable :: "('b, 'd) env \<Rightarrow> (ItemDataT, 'b) table" where
  "LocalDataTable E = \<lparr>PrimaryKey = K_LOCALDATA, unique_keys = [U_LOCALDATA_UNIQUEID], index_keys = [],
     GetKey = LocalDataTable_GetKey, rid = item_id, set_rid = (\<lambda>i r. r\<lparr>item_id := i\<rparr>),
     rnotfound = item_notfound, rnew = ItemDataT_new, rcodec = c_item E\<rparr>"

lemma LocalDataTable_simps [simp, table_simps]:
  "PrimaryKey (LocalDataTable E) = K_LOCALDATA" "unique_keys (LocalDataTable E) = [U_LOCALDATA_UNIQUEID]" "index_keys (LocalDataTable E) = []"
  "GetKey (LocalDataTable E) r U_LOCALDATA_UNIQUEID pre = EncodeSecondaryKey U_LOCALDATA_UNIQUEID [AStr (item_unique_id r)]"
  "GetKey (LocalDataTable E) r K_LOCALDATA pre = EncodePrimaryKey K_LOCALDATA (item_id r)"
  "rid (LocalDataTable E) r = item_id r" "set_rid (LocalDataTable E) i r = r\<lparr>item_id := i\<rparr>"
  "rnotfound (LocalDataTable E) r = item_notfound r" "rnew (LocalDataTable E) = ItemDataT_new" "rcodec (LocalDataTable E) = c_item E"
  by (simp_all add: LocalDataTable_def LocalDataTable_GetKey_def keytype_defs)

interpretation localdata_tbl: table_laws "LocalDataTable E" for E
  by unfold_locales (auto simp: keytype_defs EncodeSecondaryKey_Cons LocalDataTable_def LocalDataTable_GetKey_def byte_keytype_def)

lemma LocalDataTable_codecs [simp]: "pb_ok E \<Longrightarrow> codecs_ok E (LocalDataTable E)"
  by (simp add: codecs_ok_def)

section \<open>\<open>WikiDataTable\<close>\<close>

definition WikiDataTable_GetKey :: "ItemDataT \<Rightarrow> keytype \<Rightarrow> bool \<Rightarrow> string" where
  "WikiDataTable_GetKey record kt pre =
     (if kt = U_WIKIDATA_UNIQUEID then EncodeSecondaryKey kt [AStr (item_unique_id record)]
      else EncodePrimaryKey K_WIKIDATA (item_id record))"

definition WikiDataTable :: "('b, 'd) env \<Rightarrow> (ItemDataT, 'b) table" where
  "WikiDataTable E = \<lparr>PrimaryKey = K_WIKIDATA, unique_keys = [U_WIKIDATA_UNIQUEID], index_keys = [],
     GetKey = WikiDataTable_GetKey, rid = item_id, set_rid = (\<lambda>i r. r\<lparr>item_id := i\<rparr>),
     rnotfound = item_notfound, rnew = ItemDataT_new, rcodec = c_item E\<rparr>"

lemma WikiDataTable_simps [simp, table_simps]:
  "PrimaryKey (WikiDataTable E) = K_WIKIDATA" "unique_keys (WikiDataTable E) = [U_WIKIDATA_UNIQUEID]" "index_keys (WikiDataTable E) = []"
  "GetKey (WikiDataTable E) r U_WIKIDATA_UNIQUEID pre = EncodeSecondaryKey U_WIKIDATA_UNIQUEID [AStr (item_unique_id r)]"
  "GetKey (WikiDataTable E) r K_WIKIDATA pre = EncodePrimaryKey K_WIKIDATA (item_id r)"
  "rid (WikiDataTable E) r = item_id r" "set_rid (WikiDataTable E) i r = r\<lparr>item_id := i\<rparr>"
  "rnotfound (WikiDataTable E) r = item_notfound r" "rnew (WikiDataTable E) = ItemDataT_new" "rcodec (WikiDataTable E) = c_item E"
  by (simp_all add: WikiDataTable_def WikiDataTable_GetKey_def keytype_defs)

interpretation wikidata_tbl: table_laws "WikiDataTable E" for E
  by unfold_locales (auto simp: keytype_defs EncodeSecondaryKey_Cons WikiDataTable_def WikiDataTable_GetKey_def byte_keytype_def)

lemma WikiDataTable_codecs [simp]: "pb_ok E \<Longrightarrow> codecs_ok E (WikiDataTable E)"
  by (simp add: codecs_ok_def)

section \<open>The tables do not meet\<close>

lemma table_key_iff:
  "table_key T k \<longleftrightarrow> starts_with k (ZPDS_FMT_ID_KEY (PrimaryKey T)) \<or> (\<exists>u \<in> set (unique_keys T). starts_with k (ZPDS_FMT_ID_KEY u))"
  by (auto simp: table_key_def)

definition disjoint_tables :: "('r, 'b) table \<Rightarrow> ('s, 'b) table \<Rightarrow> bool" where
  "disjoint_tables T U \<longleftrightarrow> (\<forall>k. \<not> (table_key T k \<and> table_key U k))"

lemma disjoint_tablesI:
  assumes "\<forall>a \<in> insert (PrimaryKey T) (set (unique_keys T)). byte_keytype a"
    and "\<forall>b \<in> insert (PrimaryKey U) (set (unique_keys U)). byte_keytype b"
    and "insert (PrimaryKey T) (set (unique_keys T)) \<inter> insert (PrimaryKey U) (set (unique_keys U)) = {}"
  shows "disjoint_tables T U"
  unfolding disjoint_tables_def table_key_def
proof (intro allI notI, elim conjE bexE)
  fix k a b
  assume a: "a \<in> insert (PrimaryKey T) (set (unique_keys T))" and b: "b \<in> insert (PrimaryKey U) (set (unique_keys U))"
    and s: "starts_with k (ZPDS_FMT_ID_KEY a)" "starts_with k (ZPDS_FMT_ID_KEY b)"
  from a b assms(1,2) have "byte_keytype a" "byte_keytype b" by auto
  with s have "a = b" by (auto simp: starts_with_def ZPDS_FMT_ID_KEY_inject)
  with a b assms(3) show False by auto
qed

lemma tables_disjoint:
  "disjoint_tables (TagDataTable E) (CategoryTable E)"
  "disjoint_tables (TagDataTable E) (ExterDataTable E)"
  "disjoint_tables (TagDataTable E) (UserDataTable E)"
  "disjoint_tables (TagDataTable E) (LocalDataTable E)"
  "disjoint_tables (TagDataTable E) (WikiDataTable E)"
  "disjoint_tables (CategoryTable E) (TagDataTable E)"
  "disjoint_tables (CategoryTable E) (ExterDataTable E)"
  "disjoint_tables (CategoryTable E) (UserDataTable E)"
  "disjoint_tables (CategoryTable E) (LocalDataTable E)"
  "disjoint_tables (CategoryTable E) (WikiDataTable E)"
  "disjoint_tables (ExterDataTable E) (TagDataTable E)"
  "disjoint_tables (ExterDataTable E) (CategoryTable E)"
  "disjoint_tables (ExterDataTable E) (UserDataTable E)"
  "disjoint_tables (ExterDataTable E) (LocalDataTable E)"
  "disjoint_tables (ExterDataTable E) (WikiDataTable E)"
  "disjoint_tables (UserDataTable E) (TagDataTable E)"
  "disjoint_tables (UserDataTable E) (CategoryTable E)"
  "disjoint_tables (UserDataTable E) (ExterDataTable E)"
  "disjoint_tables (UserDataTable E) (LocalDataTable E)"
  "disjoint_tables (UserDataTable E) (WikiDataTable E)"
  "disjoint_tables (LocalDataTable E) (TagDataTable E)"
  "disjoint_tables (LocalDataTable E) (CategoryTable E)"
  "disjoint_tables (LocalDataTable E) (ExterDataTable E)"
  "disjoint_tables (LocalDataTable E) (UserDataTable E)"
  "disjoint_tables (LocalDataTable E) (WikiDataTable E)"
  "disjoint_tables (WikiDataTable E) (TagDataTable E)"
  "disjoint_tables (WikiDataTable E) (CategoryTable E)"
  "disjoint_tables (WikiDataTable E) (ExterDataTable E)"
  "disjoint_tables (WikiDataTable E) (UserDataTable E)"
  "disjoint_tables (WikiDataTable E) (LocalDataTable E)"
  by (rule disjoint_tablesI; simp add: keytype_defs byte_keytype_def)+

end
