(* ===== verification/SharedState.thy ===== *)
theory SharedState
  imports Tables
begin

text \<open>
  The state the program shares between its services (\<open>include/utils/SharedTable.hpp\<close> with
  \<open>SharedObject\<close>, \<open>SharedCounter\<close>, \<open>SharedMap\<close> and \<open>SharedPairMap\<close>), the cache
  (\<open>src/store/CacheContainer.cc\<close>), the reservations of names (\<open>src/store/TempNameCache.cc\<close>) and the
  opening of the store (\<open>StoreLevel::Initialize\<close>). Every operation of these classes takes one
  lock, so it is one atomic step on the state. The default build keeps data and log in one
  database. Proved: a counter never hands out the same number twice, a name that is reserved is
  refused to everyone else until it is released, a check of two steps does not keep two threads
  apart, and \<open>Initialize\<close> finds counters above every id in use.
\<close>

section \<open>The shared table\<close>

datatype xap_event = XapAdd keytype ItemDataT | XapDel keytype ItemDataT | XapCommit

text \<open>\<open>ticks\<close>, \<open>draws\<close> and \<open>sends\<close> count the readings of the clock, of the random generator and the
  requests sent so far; \<open>outbox\<close> and \<open>xaplog\<close> record what was sent to other hosts and to the search
  index.\<close>

record ('b, 'd) shared =
  db :: 'd
  maincounter :: "64 word"
  logcounter :: "64 word"
  dbcache :: "string \<Rightarrow> 'b option"
  tmpcache :: "string \<Rightarrow> 'b option"
  is_master :: bool
  is_ready :: bool
  force_commit :: bool
  no_xapian :: bool
  sh_master :: string
  hostname :: string
  thisurl :: string
  lastslave :: string
  shared_secret :: string
  remotes :: "(string \<times> 64 word \<times> 64 word) list"
  transactions :: "(64 word \<times> 'b) list"
  ticks :: nat
  draws :: nat
  sends :: nat
  outbox :: "'b http_req list"
  xaplog :: "xap_event list"

text \<open>\<open>ZPDS_CURRTIME_MS\<close>\<close>

definition CURRTIME_MS :: "('b, 'd) env \<Rightarrow> (('b, 'd) shared, 64 word) act" where
  "CURRTIME_MS E = (\<lambda>s. (Inr (clock E (ticks s)), s\<lparr>ticks := ticks s + 1\<rparr>))"

text \<open>\<open>SharedCounter::GetNext\<close>\<close>

definition GetNext_main :: "(('b, 'd) shared, 64 word) act" where
  "GetNext_main = (\<lambda>s. (Inr (maincounter s + 1), s\<lparr>maincounter := maincounter s + 1\<rparr>))"

definition GetNext_log :: "(('b, 'd) shared, 64 word) act" where
  "GetNext_log = (\<lambda>s. (Inr (logcounter s + 1), s\<lparr>logcounter := logcounter s + 1\<rparr>))"

lemma bindA_CURRTIME [run_simps]: "bindA (CURRTIME_MS E) f s = f (clock E (ticks s)) (s\<lparr>ticks := ticks s + 1\<rparr>)"
  by (simp add: bindA_def CURRTIME_MS_def)

lemma bindA_GetNext_main [run_simps]:
  "bindA GetNext_main f s = f (maincounter s + 1) (s\<lparr>maincounter := maincounter s + 1\<rparr>)"
  by (simp add: bindA_def GetNext_main_def)

text \<open>\<open>SharedMap\<close> and \<open>SharedPairMap\<close> over an unordered map, as an association list in the order of
  its iteration (which the code never relies on). \<open>Swap\<close> takes its argument by value: the caller's
  map is left as it was and the old contents are dropped with the parameter.\<close>

definition AddOne :: "'k \<Rightarrow> 'v \<Rightarrow> ('k \<times> 'v) list \<Rightarrow> ('k \<times> 'v) list" where
  "AddOne k v m = (if k \<in> fst ` set m then map (\<lambda>p. if fst p = k then (k, v) else p) m else m @ [(k, v)])"

definition AddMany :: "('k \<times> 'v) list \<Rightarrow> ('k \<times> 'v) list \<Rightarrow> ('k \<times> 'v) list" where
  "AddMany m' m = fold (\<lambda>p. AddOne (fst p) (snd p)) m' m"

definition Swap :: "('k \<times> 'v) list \<Rightarrow> ('k \<times> 'v) list \<Rightarrow> ('k \<times> 'v) list \<times> ('k \<times> 'v) list" where
  "Swap t m = (t, t)"

lemma map_of_AddOne: "map_of (AddOne k v m) = (map_of m)(k \<mapsto> v)"
proof -
  have "map_of (map (\<lambda>p. if fst p = k then (k, v) else p) m) = (map_of m)(k \<mapsto> v)" if "k \<in> fst ` set m"
    using that
  proof (induction m)
    case Nil
    then show ?case by simp
  next
    case (Cons p m)
    show ?case
    proof (cases "k \<in> fst ` set m")
      case True
      with Cons show ?thesis by (cases p) auto
    next
      case False
      then have "map (\<lambda>p. if fst p = k then (k, v) else p) m = m" by (intro map_idI) force
      with Cons False show ?thesis by (cases p) auto
    qed
  qed
  moreover have "map_of (m @ [(k, v)]) = (map_of m)(k \<mapsto> v)" if "k \<notin> fst ` set m"
    using that by (induction m) auto
  ultimately show ?thesis by (simp add: AddOne_def)
qed

lemma distinct_AddOne: "distinct (map fst m) \<Longrightarrow> distinct (map fst (AddOne k v m))"
proof -
  assume d: "distinct (map fst m)"
  have "map fst (map (\<lambda>p. if fst p = k then (k, v) else p) m) = map fst m" by auto
  with d show ?thesis by (auto simp: AddOne_def simp del: map_map)
qed

section \<open>The cache\<close>

definition SetAssoc :: "string \<Rightarrow> 'b \<Rightarrow> bool \<Rightarrow> (string \<Rightarrow> 'b option) \<Rightarrow> (string \<Rightarrow> 'b option)" where
  "SetAssoc hash assoc only_if_exists m =
     (if only_if_exists \<and> m hash = None then m else m(hash \<mapsto> assoc))"

definition GetAssoc :: "string \<Rightarrow> (string \<Rightarrow> 'b option) \<Rightarrow> 'b option" where
  "GetAssoc hash m = m hash"

definition DelAssoc :: "string \<Rightarrow> (string \<Rightarrow> 'b option) \<Rightarrow> (string \<Rightarrow> 'b option)" where
  "DelAssoc hash m = m(hash := None)"

definition CheckAssoc :: "string \<Rightarrow> (string \<Rightarrow> 'b option) \<Rightarrow> bool" where
  "CheckAssoc hash m \<longleftrightarrow> m hash \<noteq> None"

definition SetCache :: "string \<Rightarrow> 'b \<Rightarrow> (('b, 'd) shared, unit) act" where
  "SetCache k v = updA (\<lambda>s. s\<lparr>dbcache := SetAssoc k v False (dbcache s)\<rparr>)"

definition DelCache :: "string \<Rightarrow> (('b, 'd) shared, unit) act" where
  "DelCache k = updA (\<lambda>s. s\<lparr>dbcache := DelAssoc k (dbcache s)\<rparr>)"

section \<open>Reserved names\<close>

text \<open>A \<open>TempNameCache\<close> is a local object: its set \<open>inset\<close> of keys it has put into the shared
  \<open>tmpcache\<close> is threaded beside the state, and its destructor releases them when the scope is
  left, also by an exception.\<close>

definition ZPDS_LOCK_SLAVE_UPDATES :: "64 word" where "ZPDS_LOCK_SLAVE_UPDATES = 999"

type_synonym ('b, 'd) nstate = "('b, 'd) shared \<times> string list"

definition onS :: "('s, 'a) act \<Rightarrow> ('s \<times> 'i, 'a) act" where
  "onS m = (\<lambda>(s, i). case m s of (r, s') \<Rightarrow> (r, (s', i)))"

definition release_names :: "string list \<Rightarrow> (string \<Rightarrow> 'b option) \<Rightarrow> (string \<Rightarrow> 'b option)" where
  "release_names inset m = fold DelAssoc inset m"

definition with_namecache :: "(('b, 'd) nstate, 'a) act \<Rightarrow> (('b, 'd) shared, 'a) act" where
  "with_namecache body = (\<lambda>s. case body (s, []) of
     (r, (s', inset)) \<Rightarrow> (r, s'\<lparr>tmpcache := release_names inset (tmpcache s')\<rparr>))"

definition MakeKey :: "keytype \<Rightarrow> string \<Rightarrow> string res" where
  "MakeKey kt indata =
     (if kt = K_TAGDATA then Inr (EncodeSecondaryKey U_TAGDATA_KEYTYPE_NAME [AStr indata])
      else if kt = K_CATEGORY then Inr (EncodeSecondaryKey U_CATEGORY_NAME [AStr indata])
      else if kt = K_EXTERDATA then Inr (EncodeSecondaryKey U_EXTERDATA_NAME [AStr indata])
      else if kt = K_USERDATA then Inr (EncodeSecondaryKey U_USERDATA_NAME [AStr indata])
      else if kt = K_LOCALDATA then Inr (EncodeSecondaryKey U_LOCALDATA_UNIQUEID [AStr indata])
      else if kt = K_WIKIDATA then Inr (EncodeSecondaryKey U_WIKIDATA_UNIQUEID [AStr indata])
      else Inl (BadCodeException ''Invalid keytype to check'' 0))"

definition reserve_key :: "('b, 'd) env \<Rightarrow> string \<Rightarrow> (('b, 'd) nstate, bool) act" where
  "reserve_key E xdata = (\<lambda>(s, inset).
     if CheckAssoc xdata (tmpcache s) then (Inr False, (s, inset))
     else (Inr True, (s\<lparr>tmpcache := SetAssoc xdata (blank E) False (tmpcache s)\<rparr>, List.insert xdata inset)))"

definition ReserveName :: "('b, 'd) env \<Rightarrow> keytype \<Rightarrow> string \<Rightarrow> bool \<Rightarrow> (('b, 'd) nstate, bool) act" where
  "ReserveName E kt indata isnew =
     bindA (liftR (\<lambda>_. MakeKey kt indata)) (\<lambda>xdata.
     bindA (readA (\<lambda>(s, _). kv_get E (db s))) (\<lambda>g.
       if isnew \<and> CheckKeyExists g xdata then ret False else reserve_key E xdata))"

definition CheckLocal :: "keytype \<Rightarrow> string \<Rightarrow> (('b, 'd) nstate, bool) act" where
  "CheckLocal kt indata =
     bindA (liftR (\<lambda>_. MakeKey kt indata)) (\<lambda>xdata. readA (\<lambda>(_, inset). xdata \<in> set inset))"

definition MultiTypeLock :: "('b, 'd) env \<Rightarrow> 64 word \<Rightarrow> (('b, 'd) nstate, bool) act" where
  "MultiTypeLock E locktype = reserve_key E (EncodePrimaryKey K_NONODE locktype)"

lemma onS_run [act_simps]: "onS m (s, i) = (case m s of (r, s') \<Rightarrow> (r, (s', i)))"
  by (simp add: onS_def)

lemma onS_Inr_iff: "onS m (s, i) = (Inr x, (s', i')) \<longleftrightarrow> m s = (Inr x, s') \<and> i' = i"
  by (auto simp: onS_def split: prod.splits)

lemma release_names_apply: "release_names inset m k = (if k \<in> set inset then None else m k)"
  by (induction inset arbitrary: m) (auto simp: release_names_def DelAssoc_def)

section \<open>Opening the store\<close>

text \<open>\<open>StoreLevel::Initialize\<close> after the database is open: write the missing fences (only the status
  of the last one is looked at), then find the greatest log id and the greatest id of any other
  primary type. The key types run from \<open>K_NONODE\<close> to \<open>K_MAXNODE\<close>.\<close>

definition fence_step :: "('b, 'd) env \<Rightarrow> keytype \<Rightarrow> 'd \<times> bool \<Rightarrow> 'd \<times> bool" where
  "fence_step E kt = (\<lambda>(d, status).
     let key = EncodePrimaryKey kt 0 in
     case kv_get E d key of Some v \<Rightarrow> (d, True)
     | None \<Rightarrow> (case kv_write E d [Put key (blank E)] of None \<Rightarrow> (d, False) | Some d' \<Rightarrow> (d', True)))"

definition add_fences :: "('b, 'd) env \<Rightarrow> 'd \<Rightarrow> 'd \<times> bool" where
  "add_fences E d = fold (fence_step E) [K_NONODE .. K_MAXNODE] (d, True)"

text \<open>The key before the first one of type \<open>kt\<close>, when it has type \<open>kt - 1\<close>.\<close>

definition last_of_prev :: "('b, 'd) env \<Rightarrow> 'd \<Rightarrow> keytype \<Rightarrow> string \<Rightarrow> string \<Rightarrow> 64 word \<Rightarrow> 64 word res" where
  "last_of_prev E d kt nokey nozero last_id =
     (let es = kv_entries E d; start = take ZPDS_KEYID_LEN (EncodePrimaryKey kt 0);
          match = take ZPDS_KEYID_LEN (EncodePrimaryKey (kt - 1) 0) in
      if seek es start = [] then Inl (InitialException nokey 0)
      else case seek_prev es start of
        None \<Rightarrow> Inl (InitialException nozero 0)
      | Some e \<Rightarrow> if \<not> starts_with (fst e) match then Inr last_id
          else bindR (DecodePrimaryKey (fst e)) (\<lambda>(usekey, i). Inr (if i > last_id then i else last_id)))"

definition Initialize :: "('b, 'd) env \<Rightarrow> 'd \<Rightarrow> 64 word \<Rightarrow> 64 word \<Rightarrow> ('d \<times> 64 word \<times> 64 word) res" where
  "Initialize E d0 last_pkey last_lkey =
     (case add_fences E d0 of (d, status) \<Rightarrow>
      if \<not> status then Inl (InitialException ''Cannot Write DB: '' 0)
      else bindR (last_of_prev E d K_MAXNODE ''Fixed record K_MAXNODE missing''
                    ''Zero record before K_MAXNODE missing'' last_lkey) (\<lambda>lkey.
           bindR (foldR (\<lambda>kt. last_of_prev E d kt ''Some fixed records missing'' ''Some zero records missing'')
                    (rev [K_NONODE + 1 .. K_LOGNODE]) last_pkey) (\<lambda>pkey.
           Inr (d, pkey, lkey))))"

text \<open>\<open>WorkServer::init\<close> sets the counters from it.\<close>

definition InitCounters :: "('b, 'd) env \<Rightarrow> (('b, 'd) shared, unit) act" where
  "InitCounters E = (\<lambda>s. case Initialize E (db s) 0 0 of
      Inl e \<Rightarrow> (Inl e, s)
    | Inr (d, last_pkey, last_lkey) \<Rightarrow> (Inr (), s\<lparr>db := d,
        maincounter := (if last_pkey > 0 then last_pkey else 1), logcounter := last_lkey\<rparr>))"

section \<open>The keys of the store\<close>

text \<open>Every key starts with two digits of a key type, and those of a primary type are primary keys.\<close>

definition store_key :: "string \<Rightarrow> bool" where
  "store_key k \<longleftrightarrow> (\<exists>u. byte_keytype u \<and> starts_with k (ZPDS_FMT_ID_KEY u) \<and>
     (K_NONODE \<le> u \<and> u \<le> K_MAXNODE \<longrightarrow> (\<exists>i. k = EncodePrimaryKey u i)))"

definition store_keys_ok :: "'b lookup \<Rightarrow> bool" where
  "store_keys_ok g \<longleftrightarrow> (\<forall>k. g k \<noteq> None \<longrightarrow> store_key k)"

lemma store_key_primary: "byte_keytype u \<Longrightarrow> store_key (EncodePrimaryKey u i)"
  unfolding store_key_def by (intro exI [of _ u]) (auto simp: EncodePrimaryKey_def)

lemma store_keys_ok_put: "store_keys_ok g \<Longrightarrow> store_key k \<Longrightarrow> store_keys_ok (g(k \<mapsto> v))"
  by (auto simp: store_keys_ok_def)

lemma ID_KEY_le: "byte_keytype u \<Longrightarrow> byte_keytype w \<Longrightarrow> ZPDS_FMT_ID_KEY u \<le> ZPDS_FMT_ID_KEY w \<longleftrightarrow> u \<le> w"
  using ZPDS_FMT_ID_KEY_less [of w u] by (auto simp: not_less [symmetric])

lemma prefix_less_ID_KEY:
  assumes "byte_keytype u" and "byte_keytype w"
  shows "ZPDS_FMT_ID_KEY u @ s < ZPDS_FMT_ID_KEY w \<longleftrightarrow> u < w"
  using less_append_iff [of "ZPDS_FMT_ID_KEY u" "ZPDS_FMT_ID_KEY w" s "[]"] assms
  by (simp add: ZPDS_FMT_ID_KEY_less ZPDS_FMT_ID_KEY_inject)

lemma take_primary: "byte_keytype u \<Longrightarrow> take ZPDS_KEYID_LEN (EncodePrimaryKey u i) = ZPDS_FMT_ID_KEY u"
  by (simp add: EncodePrimaryKey_def ZPDS_KEYID_LEN_def)

lemma primary_range_byte: "K_NONODE \<le> u \<Longrightarrow> u \<le> K_MAXNODE \<Longrightarrow> byte_keytype u"
  by (simp add: byte_keytype_def keytype_defs)

text \<open>A store key below the first key of type \<open>kt\<close> and not below some key of type \<open>kt - 1\<close> has
  type \<open>kt - 1\<close>.\<close>

lemma store_key_between:
  assumes k: "store_key k" and kt: "K_NONODE < kt" "kt \<le> K_MAXNODE"
    and lo: "EncodePrimaryKey (kt - 1) i \<le> k" and hi: "k < ZPDS_FMT_ID_KEY kt"
  shows "\<exists>j. k = EncodePrimaryKey (kt - 1) j"
proof -
  from k obtain u s where u: "byte_keytype u" "k = ZPDS_FMT_ID_KEY u @ s"
      "K_NONODE \<le> u \<and> u \<le> K_MAXNODE \<longrightarrow> (\<exists>j. k = EncodePrimaryKey u j)"
    by (auto simp: store_key_def starts_with_iff)
  have b: "byte_keytype kt" "byte_keytype (kt - 1)" using kt by (auto simp: byte_keytype_def keytype_defs)
  from hi u b have "u < kt" by (simp add: prefix_less_ID_KEY)
  moreover have "\<not> u < kt - 1"
    using lo u b less_append_iff [of "ZPDS_FMT_ID_KEY u" "ZPDS_FMT_ID_KEY (kt - 1)" s "ZPDS_FMT_NODE_ONLY i"]
    by (auto simp: EncodePrimaryKey_def ZPDS_FMT_ID_KEY_less not_less [symmetric])
  ultimately have "u = kt - 1" by simp
  with u kt show ?thesis by auto
qed

lemma last_of_prev_spec:
  assumes E: "kv_ok E" and d: "store_keys_ok (kv_get E d)" and kt: "K_NONODE < kt" "kt \<le> K_MAXNODE"
    and f: "kv_get E d (EncodePrimaryKey kt 0) \<noteq> None" "kv_get E d (EncodePrimaryKey (kt - 1) 0) \<noteq> None"
  shows "\<exists>r. last_of_prev E d kt a b l = Inr r \<and> l \<le> r \<and>
    (\<forall>i. kv_get E d (EncodePrimaryKey (kt - 1) i) \<noteq> None \<longrightarrow> i \<le> r) \<and>
    (r = l \<or> kv_get E d (EncodePrimaryKey (kt - 1) r) \<noteq> None)"
proof -
  let ?es = "kv_entries E d" and ?start = "ZPDS_FMT_ID_KEY kt" and ?m = "ZPDS_FMT_ID_KEY (kt - 1)"
  have b: "byte_keytype kt" "byte_keytype (kt - 1)" using kt by (auto simp: byte_keytype_def keytype_defs)
  have srt: "sorted_wrt (<) (map fst ?es)" using E by (rule kv_entries_sorted)
  have dom: "kv_get E d k \<noteq> None \<longleftrightarrow> k \<in> fst ` set ?es" for k
    by (simp add: kv_get_entries [OF E] map_of_eq_None_iff)
  have ge: "?start \<le> EncodePrimaryKey kt 0"
    using prefix_less_ID_KEY [OF b(1) b(1), of "ZPDS_FMT_NODE_ONLY 0"] by (simp add: EncodePrimaryKey_def not_less [symmetric])
  have lt: "EncodePrimaryKey (kt - 1) i < ?start" for i
    using prefix_less_ID_KEY [OF b(2) b(1)] by (simp add: EncodePrimaryKey_def)
  have ne: "seek ?es ?start \<noteq> []"
  proof -
    obtain e where "e \<in> set ?es" "fst e = EncodePrimaryKey kt 0" using f(1) dom by force
    with ge show ?thesis by (simp add: seek_def dropWhile_eq_Nil_conv not_less [symmetric]) metis
  qed
  obtain e0 where e0: "e0 \<in> set ?es" "fst e0 = EncodePrimaryKey (kt - 1) 0" using f(2) dom by force
  have "seek_prev ?es ?start \<noteq> None"
  proof -
    have "e0 \<in> set (takeWhile (\<lambda>e. fst e < ?start) ?es)"
      using e0 lt by (simp add: takeWhile_less_filter [OF srt])
    then show ?thesis by (auto simp: seek_prev_None)
  qed
  then obtain e where e: "seek_prev ?es ?start = Some e" by auto
  from seek_prev_Some [OF srt e] have ee: "e \<in> set ?es" "fst e < ?start"
    and mx: "\<And>x. x \<in> set ?es \<Longrightarrow> fst x < ?start \<Longrightarrow> fst x \<le> fst e" by auto
  have sk: "store_key (fst e)" using d dom ee(1) by (auto simp: store_keys_ok_def)
  have "EncodePrimaryKey (kt - 1) 0 \<le> fst e" using mx [OF e0(1)] e0(2) lt by simp
  from store_key_between [OF sk kt this ee(2)] obtain j where j: "fst e = EncodePrimaryKey (kt - 1) j" by blast
  have le: "i \<le> j" if "kv_get E d (EncodePrimaryKey (kt - 1) i) \<noteq> None" for i
  proof -
    from that dom obtain x where "x \<in> set ?es" "fst x = EncodePrimaryKey (kt - 1) i" by force
    with mx lt j have "EncodePrimaryKey (kt - 1) i \<le> EncodePrimaryKey (kt - 1) j" by metis
    then show ?thesis
      using less_append_iff [of ?m ?m "ZPDS_FMT_NODE_ONLY j" "ZPDS_FMT_NODE_ONLY i"]
      by (auto simp: EncodePrimaryKey_def ZPDS_FMT_NODE_ONLY_less not_less [symmetric])
  qed
  have sw: "starts_with (fst e) ?m" by (simp add: j EncodePrimaryKey_def)
  have dec: "DecodePrimaryKey (fst e) = Inr (kt - 1, j)"
    unfolding j using kt by (intro DecodePrimaryKey_Encode) auto
  have "last_of_prev E d kt a b l = Inr (if j > l then j else l)"
    by (simp add: last_of_prev_def Let_def take_primary b ne e sw dec)
  moreover have "kv_get E d (EncodePrimaryKey (kt - 1) j) \<noteq> None" using dom ee(1) j by force
  ultimately show ?thesis
  proof (cases "j > l")
    case True
    with \<open>last_of_prev E d kt a b l = _\<close> \<open>kv_get E d (EncodePrimaryKey (kt - 1) j) \<noteq> None\<close> le show ?thesis
      by (intro exI [of _ j]) auto
  next
    case False
    then have "\<forall>i. kv_get E d (EncodePrimaryKey (kt - 1) i) \<noteq> None \<longrightarrow> i \<le> l"
      using le by (meson not_less order.trans)
    with False \<open>last_of_prev E d kt a b l = _\<close> show ?thesis by (intro exI [of _ l]) simp
  qed
qed

text \<open>The fences leave every other key as it was.\<close>

definition writes_succeed :: "('b, 'd) env \<Rightarrow> bool" where
  "writes_succeed E \<longleftrightarrow> (\<forall>d ops. kv_write E d ops \<noteq> None)"

definition fence :: "keytype list \<Rightarrow> string \<Rightarrow> bool" where
  "fence kts k \<longleftrightarrow> (\<exists>kt \<in> set kts. k = EncodePrimaryKey kt 0)"

lemma fences_spec:
  assumes E: "kv_ok E" and w: "writes_succeed E" and st: "status \<or> kts \<noteq> []"
  shows "\<exists>d'. fold (fence_step E) kts (d, status) = (d', True) \<and>
    (\<forall>k. kv_get E d' k = (if fence kts k \<and> kv_get E d k = None then Some (blank E) else kv_get E d k))"
  using st
proof (induction kts arbitrary: d status)
  case Nil
  then show ?case by (simp add: fence_def)
next
  case (Cons kt kts)
  have "\<exists>d1. fence_step E kt (d, status) = (d1, True) \<and>
      (\<forall>k. kv_get E d1 k = (if k = EncodePrimaryKey kt 0 \<and> kv_get E d k = None then Some (blank E) else kv_get E d k))"
  proof (cases "kv_get E d (EncodePrimaryKey kt 0)")
    case None
    obtain d1 where d1: "kv_write E d [Put (EncodePrimaryKey kt 0) (blank E)] = Some d1"
      using w by (auto simp: writes_succeed_def)
    from kv_get_write [OF E this] None d1 show ?thesis by (simp add: fence_step_def)
  next
    case (Some v)
    then show ?thesis by (auto simp: fence_step_def)
  qed
  then obtain d1 where d1: "fence_step E kt (d, status) = (d1, True)"
    and g: "\<And>k. kv_get E d1 k = (if k = EncodePrimaryKey kt 0 \<and> kv_get E d k = None then Some (blank E) else kv_get E d k)"
    by blast
  from Cons.IH [of True d1] obtain d' where d': "fold (fence_step E) kts (d1, True) = (d', True)"
    "\<And>k. kv_get E d' k = (if fence kts k \<and> kv_get E d1 k = None then Some (blank E) else kv_get E d1 k)" by blast
  with d1 g show ?case by (auto simp: fence_def)
qed

lemma add_fences_spec:
  assumes "kv_ok E" and "writes_succeed E"
  shows "\<exists>d'. add_fences E d = (d', True) \<and>
    (\<forall>k. kv_get E d' k = (if fence [K_NONODE .. K_MAXNODE] k \<and> kv_get E d k = None then Some (blank E) else kv_get E d k))"
  using fences_spec [OF assms, of True "[K_NONODE .. K_MAXNODE]" d] by (simp add: add_fences_def)

lemma last_ids_spec:
  assumes E: "kv_ok E" and d: "store_keys_ok (kv_get E d)"
    and f: "\<And>kt. K_NONODE \<le> kt \<Longrightarrow> kt \<le> K_MAXNODE \<Longrightarrow> kv_get E d (EncodePrimaryKey kt 0) \<noteq> None"
    and kts: "\<forall>kt \<in> set kts. K_NONODE < kt \<and> kt \<le> K_MAXNODE"
  shows "\<exists>r. foldR (\<lambda>kt. last_of_prev E d kt a b) kts l = Inr r \<and> l \<le> r \<and>
    (\<forall>kt \<in> set kts. \<forall>i. kv_get E d (EncodePrimaryKey (kt - 1) i) \<noteq> None \<longrightarrow> i \<le> r) \<and>
    (r = l \<or> (\<exists>kt \<in> set kts. kv_get E d (EncodePrimaryKey (kt - 1) r) \<noteq> None))"
  using kts
proof (induction kts arbitrary: l)
  case Nil
  then show ?case by simp
next
  case (Cons kt kts)
  then have kt: "K_NONODE < kt" "kt \<le> K_MAXNODE" by auto
  have "kv_get E d (EncodePrimaryKey kt 0) \<noteq> None" "kv_get E d (EncodePrimaryKey (kt - 1) 0) \<noteq> None"
    using f kt by auto
  from last_of_prev_spec [OF E d kt this] obtain r1 where r1: "last_of_prev E d kt a b l = Inr r1" "l \<le> r1"
      "\<forall>i. kv_get E d (EncodePrimaryKey (kt - 1) i) \<noteq> None \<longrightarrow> i \<le> r1"
      "r1 = l \<or> kv_get E d (EncodePrimaryKey (kt - 1) r1) \<noteq> None" by blast
  from Cons.IH [of r1] Cons.prems obtain r where r: "foldR (\<lambda>kt. last_of_prev E d kt a b) kts r1 = Inr r" "r1 \<le> r"
      "\<forall>kt \<in> set kts. \<forall>i. kv_get E d (EncodePrimaryKey (kt - 1) i) \<noteq> None \<longrightarrow> i \<le> r"
      "r = r1 \<or> (\<exists>kt \<in> set kts. kv_get E d (EncodePrimaryKey (kt - 1) r) \<noteq> None)" by auto
  show ?case
  proof (intro exI conjI)
    show "foldR (\<lambda>kt. last_of_prev E d kt a b) (kt # kts) l = Inr r" using r1 r by simp
    show "l \<le> r" using r1 r by (blast intro: order.trans)
    show "\<forall>k \<in> set (kt # kts). \<forall>i. kv_get E d (EncodePrimaryKey (k - 1) i) \<noteq> None \<longrightarrow> i \<le> r"
      using r1 r by (auto intro: order.trans)
    show "r = l \<or> (\<exists>k \<in> set (kt # kts). kv_get E d (EncodePrimaryKey (k - 1) r) \<noteq> None)" using r1 r by auto
  qed
qed

lemma store_keys_ok_fences:
  assumes "store_keys_ok g"
    and "\<And>k. g' k = (if fence [K_NONODE .. K_MAXNODE] k \<and> g k = None then Some v else g k)"
  shows "store_keys_ok g'"
  unfolding store_keys_ok_def
proof (intro allI impI)
  fix k assume "g' k \<noteq> None"
  with assms(2) have "fence [K_NONODE .. K_MAXNODE] k \<or> g k \<noteq> None" by (metis (full_types))
  then show "store_key k"
    using assms(1) store_key_primary primary_range_byte by (auto simp: fence_def store_keys_ok_def)
qed

lemma Initialize_run:
  assumes E: "kv_ok E" and w: "writes_succeed E" and ok: "store_keys_ok (kv_get E d0)"
  shows "\<exists>d pk lk. Initialize E d0 0 0 = Inr (d, pk, lk) \<and>
    (\<forall>k. kv_get E d k = (if fence [K_NONODE .. K_MAXNODE] k \<and> kv_get E d0 k = None then Some (blank E) else kv_get E d0 k)) \<and>
    (\<forall>kt i. K_NONODE \<le> kt \<and> kt < K_LOGNODE \<and> kv_get E d0 (EncodePrimaryKey kt i) \<noteq> None \<longrightarrow> i \<le> pk) \<and>
    (\<forall>i. kv_get E d0 (EncodePrimaryKey K_LOGNODE i) \<noteq> None \<longrightarrow> i \<le> lk) \<and>
    (pk = 0 \<or> (\<exists>kt. K_NONODE \<le> kt \<and> kt < K_LOGNODE \<and> kv_get E d0 (EncodePrimaryKey kt pk) \<noteq> None)) \<and>
    (lk = 0 \<or> kv_get E d0 (EncodePrimaryKey K_LOGNODE lk) \<noteq> None)"
proof -
  obtain d where d: "add_fences E d0 = (d, True)"
    and g: "\<And>k. kv_get E d k = (if fence [K_NONODE .. K_MAXNODE] k \<and> kv_get E d0 k = None then Some (blank E) else kv_get E d0 k)"
    using add_fences_spec [OF E w] by metis
  have dk: "store_keys_ok (kv_get E d)" using store_keys_ok_fences [OF ok g] .
  have f: "kv_get E d (EncodePrimaryKey kt 0) \<noteq> None" if "K_NONODE \<le> kt" "kt \<le> K_MAXNODE" for kt
    using g [of "EncodePrimaryKey kt 0"] that by (auto simp: fence_def)
  have keep: "kv_get E d k = Some v" if "kv_get E d0 k = Some v" for k v using g [of k] that by simp
  have bk: "kv_get E d0 (EncodePrimaryKey kt i) \<noteq> None"
    if n: "kv_get E d (EncodePrimaryKey kt i) \<noteq> None" and kt: "K_NONODE \<le> kt" "kt \<le> K_MAXNODE" and i: "i \<noteq> 0" for kt i
  proof -
    have "\<not> fence [K_NONODE .. K_MAXNODE] (EncodePrimaryKey kt i)"
      using i kt primary_range_byte by (auto simp: fence_def EncodePrimaryKey_def append_eq_append_conv)
    with n g [of "EncodePrimaryKey kt i"] show ?thesis by simp
  qed
  have M: "K_NONODE < K_MAXNODE" "K_MAXNODE - 1 = K_LOGNODE" "K_NONODE < K_LOGNODE" "K_LOGNODE < K_MAXNODE"
    by (simp_all add: keytype_defs)
  obtain lk where lk: "last_of_prev E d K_MAXNODE ''Fixed record K_MAXNODE missing''
        ''Zero record before K_MAXNODE missing'' 0 = Inr lk"
      "\<And>i. kv_get E d (EncodePrimaryKey K_LOGNODE i) \<noteq> None \<Longrightarrow> i \<le> lk"
      "lk = 0 \<or> kv_get E d (EncodePrimaryKey K_LOGNODE lk) \<noteq> None"
    using last_of_prev_spec [OF E dk M(1) order_refl f f] M by (metis order_le_less order_less_imp_le)
  have "\<forall>kt \<in> set (rev [K_NONODE + 1 .. K_LOGNODE]). K_NONODE < kt \<and> kt \<le> K_MAXNODE"
    by (auto simp: keytype_defs)
  from last_ids_spec [OF E dk f this] obtain pk where pk: "foldR (\<lambda>kt. last_of_prev E d kt ''Some fixed records missing''
        ''Some zero records missing'') (rev [K_NONODE + 1 .. K_LOGNODE]) 0 = Inr pk"
      "\<And>kt i. K_NONODE + 1 \<le> kt \<Longrightarrow> kt \<le> K_LOGNODE \<Longrightarrow> kv_get E d (EncodePrimaryKey (kt - 1) i) \<noteq> None \<Longrightarrow> i \<le> pk"
      "pk = 0 \<or> (\<exists>kt. K_NONODE + 1 \<le> kt \<and> kt \<le> K_LOGNODE \<and> kv_get E d (EncodePrimaryKey (kt - 1) pk) \<noteq> None)"
    by (simp only: set_rev set_upto atLeastAtMost_iff Ball_def Bex_def) blast
  show ?thesis
  proof (intro exI conjI allI impI)
    show "Initialize E d0 0 0 = Inr (d, pk, lk)"
      using d lk(1) pk(1) by (simp add: Initialize_def)
    show "kv_get E d k = (if fence [K_NONODE .. K_MAXNODE] k \<and> kv_get E d0 k = None then Some (blank E) else kv_get E d0 k)" for k
      by (rule g)
    show "i \<le> pk" if "K_NONODE \<le> kt \<and> kt < K_LOGNODE \<and> kv_get E d0 (EncodePrimaryKey kt i) \<noteq> None" for kt i
      using that pk(2) [of "kt + 1" i] keep by force
    show "i \<le> lk" if "kv_get E d0 (EncodePrimaryKey K_LOGNODE i) \<noteq> None" for i
      using that lk(2) [of i] keep by force
    show "pk = 0 \<or> (\<exists>kt. K_NONODE \<le> kt \<and> kt < K_LOGNODE \<and> kv_get E d0 (EncodePrimaryKey kt pk) \<noteq> None)"
    proof (cases "pk = 0")
      case False
      with pk(3) obtain kt where "K_NONODE + 1 \<le> kt" "kt \<le> K_LOGNODE" "kv_get E d (EncodePrimaryKey (kt - 1) pk) \<noteq> None" by auto
      with bk [of "kt - 1" pk] False M show ?thesis by (intro disjI2 exI [of _ "kt - 1"]) auto
    qed simp
    show "lk = 0 \<or> kv_get E d0 (EncodePrimaryKey K_LOGNODE lk) \<noteq> None"
      using lk(3) bk [of K_LOGNODE lk] M by auto
  qed
qed

text \<open>C36: Opening the store never fails on a consistent store whose writes succeed, keeps what is stored, and
  the counters it returns are the greatest ids in use: every data id (types \<open>K_NONODE\<close> up to but not
  including \<open>K_LOGNODE\<close>) is at most the first and every log id at most the second, so that the next
  id handed out is a fresh one.\<close>

theorem Initialize_counters:
  assumes E: "kv_ok E" and w: "writes_succeed E" and ok: "store_keys_ok (kv_get E d0)"
  shows "\<exists>d pk lk. Initialize E d0 0 0 = Inr (d, pk, lk) \<and>
    (\<forall>k v. kv_get E d0 k = Some v \<longrightarrow> kv_get E d k = Some v) \<and>
    (\<forall>kt i. K_NONODE \<le> kt \<and> kt < K_LOGNODE \<and> kv_get E d0 (EncodePrimaryKey kt i) \<noteq> None \<longrightarrow> i \<le> pk) \<and>
    (\<forall>i. kv_get E d0 (EncodePrimaryKey K_LOGNODE i) \<noteq> None \<longrightarrow> i \<le> lk) \<and>
    (pk = 0 \<or> (\<exists>kt. K_NONODE \<le> kt \<and> kt < K_LOGNODE \<and> kv_get E d0 (EncodePrimaryKey kt pk) \<noteq> None)) \<and>
    (lk = 0 \<or> kv_get E d0 (EncodePrimaryKey K_LOGNODE lk) \<noteq> None)"
proof -
  from Initialize_run [OF assms] obtain d pk lk where
    g: "\<forall>k. kv_get E d k = (if fence [K_NONODE .. K_MAXNODE] k \<and> kv_get E d0 k = None then Some (blank E) else kv_get E d0 k)" and
    I: "Initialize E d0 0 0 = Inr (d, pk, lk)"
      "\<forall>kt i. K_NONODE \<le> kt \<and> kt < K_LOGNODE \<and> kv_get E d0 (EncodePrimaryKey kt i) \<noteq> None \<longrightarrow> i \<le> pk"
      "\<forall>i. kv_get E d0 (EncodePrimaryKey K_LOGNODE i) \<noteq> None \<longrightarrow> i \<le> lk"
      "pk = 0 \<or> (\<exists>kt. K_NONODE \<le> kt \<and> kt < K_LOGNODE \<and> kv_get E d0 (EncodePrimaryKey kt pk) \<noteq> None)"
      "lk = 0 \<or> kv_get E d0 (EncodePrimaryKey K_LOGNODE lk) \<noteq> None" by blast
  from g have "\<forall>k v. kv_get E d0 k = Some v \<longrightarrow> kv_get E d k = Some v" by simp
  with I show ?thesis by blast
qed

end
