(* ===== verification/HrpcClient.thy ===== *)
theory HrpcClient
  imports SharedState
begin

text \<open>
  Component \<open>HrpcClient\<close> (\<open>src/hrpc/HrpcClient.cc\<close>): a message is posted to another host and overwritten
  by what comes back. The HTTP client is a parameter (\<open>http_post\<close>: an answer to the n-th request, or
  none); the compression and base64 of the bodies are undone on the way. The functions return the
  result of the call and what the message holds afterwards, also when they throw.
\<close>

section \<open>Addresses\<close>

definition to_dec_digit :: "nat \<Rightarrow> char" where
  "to_dec_digit d = char_of (48 + d)"

text \<open>\<open>std::to_string\<close> of an unsigned integer\<close>

fun to_dec :: "nat \<Rightarrow> string" where
  "to_dec n = (if n < 10 then [to_dec_digit n] else to_dec (n div 10) @ [to_dec_digit (n mod 10)])"

declare to_dec.simps [simp del]

fun split_on :: "char \<Rightarrow> string \<Rightarrow> string list" where
  "split_on c [] = [[]]"
| "split_on c (x # xs) = (if x = c then [] # split_on c xs
     else (case split_on c xs of [] \<Rightarrow> [[x]] | w # ws \<Rightarrow> (x # w) # ws))"

text \<open>\<open>SplitWith::Regex(input, ":", true)\<close>: split at every match, trim the pieces.\<close>

definition Regex_colon :: "string \<Rightarrow> string list" where
  "Regex_colon input = map trim_copy (split_on (CHR '':'') input)"

text \<open>\<open>std::stoi\<close> in base ten\<close>

definition dval :: "char \<Rightarrow> nat option" where
  "dval c = (if isdigit c then Some (of_char c - 48) else None)"

fun read_dec :: "string \<Rightarrow> nat \<Rightarrow> nat" where
  "read_dec [] acc = acc"
| "read_dec (c # cs) acc = (case dval c of None \<Rightarrow> acc | Some d \<Rightarrow> read_dec cs (10 * acc + d))"

definition stoi10 :: "string \<Rightarrow> int res" where
  "stoi10 s = (case strip_sign (dropWhile isspace s) of (neg, ds) \<Rightarrow>
     (case ds of [] \<Rightarrow> Inl (StdException ''stoi'')
      | d # _ \<Rightarrow> if dval d = None then Inl (StdException ''stoi'')
          else (let n = int (read_dec ds 0); v = (if neg then - n else n) in
            if v < - (2 ^ 31) \<or> v \<ge> 2 ^ 31 then Inl (StdException ''stoi'') else Inr v)))"

definition host_port :: "string \<Rightarrow> (string \<times> string) res" where
  "host_port address =
     (case Regex_colon address of
        [p, h, port] \<Rightarrow> Inr (if length h > 2 then drop 2 h else h, port)
      | [h, port] \<Rightarrow> Inr (h, port)
      | _ \<Rightarrow> Inl (BadDataException (''Bad Host:Port '' @ address) 0))"

section \<open>Sending\<close>

definition ZPDS_M_ERROR_MIN :: int where "ZPDS_M_ERROR_MIN = 101"
definition ZPDS_M_ERROR_MAX :: int where "ZPDS_M_ERROR_MAX = 107"

definition R_NOACTION :: int where "R_NOACTION = 0"
definition R_REGISTER :: int where "R_REGISTER = 1"
definition R_READONE :: int where "R_READONE = 2"
definition R_TRANSLOG :: int where "R_TRANSLOG = 3"
definition R_SETINFO :: int where "R_SETINFO = 4"
definition R_ADDHOST :: int where "R_ADDHOST = 5"
definition R_BUFFTRANS :: int where "R_BUFFTRANS = 6"
definition M_NOACTION :: int where "M_NOACTION = 0"

lemmas remote_cmd_defs = R_NOACTION_def R_REGISTER_def R_READONE_def R_TRANSLOG_def R_SETINFO_def
  R_ADDHOST_def R_BUFFTRANS_def M_NOACTION_def

text \<open>What is done with a response: the message is overwritten only by a body.\<close>

definition handle_response :: "('m, 'b) codec \<Rightarrow> string \<Rightarrow> bool \<Rightarrow> 'b http_resp \<Rightarrow> 'm \<Rightarrow> unit res \<times> 'm" where
  "handle_response c endpoint for_master r msg =
     (if hr_status r \<noteq> 200 then (Inl (BadDataException ''Cannot connect , bad HTTP Status'' 0), msg)
      else case hr_service_error r of
        Some ecode \<Rightarrow>
          (if for_master \<and> ecode \<ge> ZPDS_M_ERROR_MIN \<and> ecode \<le> ZPDS_M_ERROR_MAX
           then (Inl (LocalException (hr_text r) ecode), msg)
           else (Inl (BadDataException (hr_text r) M_UNKNOWN), msg))
      | None \<Rightarrow>
          if \<not> hr_encoded r then (Inl (BadCodeException ''Bad Hrpc data'' 0), msg)
          else (case par c (hr_body r) of (ok, m) \<Rightarrow>
            if ok then (Inr (), m)
            else (Inl (BadDataException (''Bad Received Protobuf Data Format from master endpoint: '' @ endpoint) 0), m)))"

definition SendFunction :: "('b, 'd) env \<Rightarrow> ('m, 'b) codec \<Rightarrow> string \<Rightarrow> string \<Rightarrow> int \<Rightarrow> 'm \<Rightarrow> bool \<Rightarrow> ('b, 'd) shared \<Rightarrow> (unit res \<times> 'm) \<times> ('b, 'd) shared" where
  "SendFunction E c address endpoint service_name msg for_master s =
     (case bindR (host_port address) (\<lambda>(h, p). bindR (stoi10 p) (\<lambda>port. Inr (h, port))) of
        Inl e \<Rightarrow> ((Inl e, msg), s)
      | Inr (h, port) \<Rightarrow>
         (let q = \<lparr>hq_host = h, hq_port = port, hq_endpoint = endpoint, hq_service = service_name,
                hq_secret = shared_secret s, hq_body = ser c msg\<rparr>;
              s' = s\<lparr>sends := sends s + 1, outbox := outbox s @ [q]\<rparr> in
          case http_post E (sends s) q of
            None \<Rightarrow> ((Inl (BadDataException ''Cannot connect , Unknown Error'' 0), msg), s')
          | Some r \<Rightarrow> (handle_response c endpoint for_master r msg, s')))"

text \<open>With \<open>nothrow\<close> every exception becomes the status \<open>false\<close>.\<close>

definition SendToMaster :: "('b, 'd) env \<Rightarrow> ('m, 'b) codec \<Rightarrow> int \<Rightarrow> 'm \<Rightarrow> bool \<Rightarrow> ('b, 'd) shared \<Rightarrow> (bool res \<times> 'm) \<times> ('b, 'd) shared" where
  "SendToMaster E c service_id msg nothrow s =
     (case (if service_id = M_NOACTION then ((Inl (BadDataException ''Bad Service Id for master service'' 0), msg), s)
            else SendFunction E c (sh_master s) ''/_zpds/master/v1/endpoint'' service_id msg True s) of
        ((Inl e, m), s') \<Rightarrow> ((if nothrow then Inr False else Inl e, m), s')
      | ((Inr _, m), s') \<Rightarrow> ((Inr True, m), s'))"

definition SendToRemote :: "('b, 'd) env \<Rightarrow> ('m, 'b) codec \<Rightarrow> string \<Rightarrow> int \<Rightarrow> 'm \<Rightarrow> bool \<Rightarrow> ('b, 'd) shared \<Rightarrow> (bool res \<times> 'm) \<times> ('b, 'd) shared" where
  "SendToRemote E c address service_id msg nothrow s =
     (case (if service_id = R_NOACTION then ((Inl (BadDataException ''Bad Service Id for remote service'' 0), msg), s)
            else SendFunction E c address ''/_zpds/remote/v1/endpoint'' service_id msg False s) of
        ((Inl e, m), s') \<Rightarrow> ((if nothrow then Inr False else Inl e, m), s')
      | ((Inr _, m), s') \<Rightarrow> ((Inr True, m), s'))"

section \<open>Facts\<close>

text \<open>Sending changes the counters of what was sent, and nothing else of the state.\<close>

definition same_store :: "('b, 'd) shared \<Rightarrow> ('b, 'd) shared \<Rightarrow> bool" where
  "same_store s s' \<longleftrightarrow> (\<exists>n ob. s' = s\<lparr>sends := n, outbox := ob\<rparr>)"

lemma same_store_refl [simp]: "same_store s s"
  unfolding same_store_def by (intro exI [of _ "sends s"] exI [of _ "outbox s"]) simp

lemma same_storeD:
  assumes "same_store s s'"
  shows "db s' = db s" "maincounter s' = maincounter s" "logcounter s' = logcounter s" "dbcache s' = dbcache s"
    "tmpcache s' = tmpcache s" "is_master s' = is_master s" "is_ready s' = is_ready s" "lastslave s' = lastslave s"
    "sh_master s' = sh_master s" "thisurl s' = thisurl s" "remotes s' = remotes s" "transactions s' = transactions s"
    "no_xapian s' = no_xapian s" "force_commit s' = force_commit s" "ticks s' = ticks s" "xaplog s' = xaplog s"
    "hostname s' = hostname s" "shared_secret s' = shared_secret s" "draws s' = draws s"
  using assms by (auto simp: same_store_def)

lemma SendFunction_same_store: "same_store s (snd (SendFunction E c a ep n msg fm s))"
proof -
  have "snd (SendFunction E c a ep n msg fm s) = s \<or>
      (\<exists>q. snd (SendFunction E c a ep n msg fm s) = s\<lparr>sends := sends s + 1, outbox := outbox s @ [q]\<rparr>)"
    by (simp add: SendFunction_def Let_def split: sum.split option.split prod.split) blast
  then show ?thesis
    by (elim disjE exE) (simp, unfold same_store_def, blast)
qed

lemma SendToRemote_same_store: "same_store s (snd (SendToRemote E c a n msg nt s))"
proof -
  have "\<exists>r. SendToRemote E c a n msg nt s = (r, s) \<or>
      SendToRemote E c a n msg nt s = (r, snd (SendFunction E c a ''/_zpds/remote/v1/endpoint'' n msg False s))"
    by (auto simp: SendToRemote_def split: prod.splits sum.splits)
  then show ?thesis using SendFunction_same_store by (metis same_store_refl snd_conv)
qed

text \<open>With \<open>nothrow\<close> the call never throws.\<close>

lemma SendToRemote_nothrow: "\<exists>b m. fst (SendToRemote E c a n msg True s) = (Inr b, m)"
  by (auto simp: SendToRemote_def split: prod.splits sum.splits)

end
