(* ===== verification/StoreTrans.thy ===== *)
theory StoreTrans
  imports HrpcClient
begin

text \<open>
  Component \<open>StoreTrans\<close> (\<open>src/store/StoreTrans.cc\<close>): committing a transaction (log entry, data, push to
  the last slave, cache and index) and reading the log. Proved: what a commit does to the store,
  the log is gapless and its entry is the transaction, a failed write leaves the data alone, the
  cache is dropped for every record written, and \<open>ReadLog\<close> returns the run of entries that follows
  the one asked for.
\<close>

section \<open>Committing\<close>

definition log_key :: "64 word \<Rightarrow> string" where
  "log_key i = EncodePrimaryKey K_LOGNODE i"

definition CommitLog :: "('b, 'd) env \<Rightarrow> 64 word \<Rightarrow> 'b TransactionT \<Rightarrow> bool \<Rightarrow> (('b, 'd) shared, bool \<times> 'b TransactionT) act" where
  "CommitLog E use_currtime txn as_master =
     (if tr_item txn = [] then ret (True, txn)
      else bindA GetNext_log (\<lambda>i.
        let t1 = txn\<lparr>tr_id := i\<rparr>;
            t2 = (if as_master then t1\<lparr>tr_ts := use_currtime\<rparr> else t1);
            batch = [Put (EncodePrimaryKey K_LOGNODE (tr_id t2)) (ser (c_trans E) t2),
                     Put (EncodeSecondaryKey I_LOGNODE_TS [AI64 (tr_ts t2), AI64 (tr_id t2)])
                       (of_str E (to_dec (unat (tr_id t2))))]
        in (\<lambda>s. case kv_write E (db s) batch of
              None \<Rightarrow> (Inr (False, t2), s)
            | Some d \<Rightarrow> (Inr (True, t2), s\<lparr>db := d\<rparr>))))"

definition CommitData :: "('b, 'd) env \<Rightarrow> 'b TransactionT \<Rightarrow> (('b, 'd) shared, bool) act" where
  "CommitData E txn =
     (if tr_item txn = [] then ret True
      else (\<lambda>s. case kv_write E (db s) (map item_bop (tr_item txn)) of
            None \<Rightarrow> (Inr False, s)
          | Some d \<Rightarrow> (Inr True, s\<lparr>db := d\<rparr>)))"

text \<open>One item of \<open>AddToCache\<close>: the cached copy of a record is dropped by its name, an item is passed to
  the search index. A value that cannot be parsed is skipped.\<close>

definition cache_item :: "('b, 'd) env \<Rightarrow> 'b TransItemT \<Rightarrow> (('b, 'd) shared, unit) act" where
  "cache_item E it =
     bindA (liftR (\<lambda>_. CheckPrimaryKey (ti_key it))) (\<lambda>ok.
       if \<not> ok then ret ()
       else bindA (liftR (\<lambda>_. DecodePrimaryKey (ti_key it))) (\<lambda>kp.
         if fst kp = K_TAGDATA then
           (case par (c_tag E) (ti_value it) of (ok, r) \<Rightarrow> if \<not> ok then ret () else
              DelCache (EncodeSecondaryKey U_TAGDATA_KEYTYPE_NAME [AI32 (word_of_int (tag_keytype r)), AStr (tag_name r)]))
         else if fst kp = K_CATEGORY then
           (case par (c_cat E) (ti_value it) of (ok, r) \<Rightarrow> if \<not> ok then ret () else
              DelCache (EncodeSecondaryKey U_CATEGORY_NAME [AStr (cat_name r)]))
         else if fst kp = K_EXTERDATA then
           (case par (c_user E) (ti_value it) of (ok, r) \<Rightarrow> if \<not> ok then ret () else
              DelCache (EncodeSecondaryKey U_EXTERDATA_NAME [AStr (user_name r)]))
         else if fst kp = K_USERDATA then
           (case par (c_user E) (ti_value it) of (ok, r) \<Rightarrow> if \<not> ok then ret () else
              DelCache (EncodeSecondaryKey U_USERDATA_NAME [AStr (user_name r)]))
         else if fst kp = K_LOCALDATA \<or> fst kp = K_WIKIDATA then
           (\<lambda>s. if no_xapian s then (Inr (), s)
             else (case par (c_item E) (ti_value it) of (ok, r) \<Rightarrow> if \<not> ok then (Inr (), s) else
               (Inr (), s\<lparr>xaplog := xaplog s @ [if ti_to_del it then XapDel (fst kp) r else XapAdd (fst kp) r]\<rparr>)))
         else ret ()))"

definition AddToCache :: "('b, 'd) env \<Rightarrow> 'b TransactionT \<Rightarrow> (('b, 'd) shared, unit) act" where
  "AddToCache E txn =
     (if tr_item txn = [] then ret ()
      else bindA (foldA (\<lambda>it _. cache_item E it) (tr_item txn) ())
        (\<lambda>_ s. if force_commit s then (Inr (), s\<lparr>force_commit := False, xaplog := xaplog s @ [XapCommit]\<rparr>)
               else (Inr (), s)))"

text \<open>The push to the last slave: the transaction is overwritten by the answer, and a failed push
  forgets the slave.\<close>

definition push_lastslave :: "('b, 'd) env \<Rightarrow> 'b TransactionT \<Rightarrow> bool \<Rightarrow> (('b, 'd) shared, 'b TransactionT) act" where
  "push_lastslave E txn as_master = (\<lambda>s.
     let ls = lastslave s in
     if as_master \<and> is_master s \<and> length ls > 0 then
       (case SendToRemote E (c_trans E) ls R_BUFFTRANS txn True s of
          ((Inl e, t), s') \<Rightarrow> (Inl e, s')
        | ((Inr status, t), s') \<Rightarrow> (Inr t, if status then s' else s'\<lparr>lastslave := []\<rparr>))
     else (Inr txn, s))"

definition slave_lock :: "('b, 'd) env \<Rightarrow> bool \<Rightarrow> (('b, 'd) nstate, bool) act" where
  "slave_lock E m = (if \<not> m then MultiTypeLock E ZPDS_LOCK_SLAVE_UPDATES else ret True)"

definition Commit :: "('b, 'd) env \<Rightarrow> 64 word \<Rightarrow> 'b TransactionT \<Rightarrow> bool \<Rightarrow> (('b, 'd) shared, unit) act" where
  "Commit E use_currtime txn as_master = with_namecache (
     bindA (readA (\<lambda>(s, _). is_master s)) (\<lambda>m.
     bindA (slave_lock E m) (\<lambda>_.
     if tr_item txn = [] then ret ()
     else
       bindA (onS (CommitLog E use_currtime txn as_master)) (\<lambda>(ok1, t1).
       bindA (throwIf (\<not> ok1) (BadDataException ''Insert failed for log'' 0)) (\<lambda>_.
       bindA (onS (CommitData E t1)) (\<lambda>ok2.
       bindA (throwIf (\<not> ok2) (BadDataException ''Insert failed for data'' 0)) (\<lambda>_.
       bindA (onS (push_lastslave E t1 as_master)) (\<lambda>t2.
       onS (AddToCache E t2)))))))))"

section \<open>Reading the log\<close>

text \<open>The loop of \<open>ReadLog\<close>: entries that cannot be parsed and the entry asked for are skipped, a gap
  ends it, and so does a count above the limit.\<close>

fun readlog_loop :: "('b, 'd) env \<Rightarrow> (string \<times> 'b) list \<Rightarrow> 'b TransListT \<Rightarrow> 64 word \<Rightarrow> 'b TransListT \<times> 64 word" where
  "readlog_loop E [] tlist counter = (tlist, counter)"
| "readlog_loop E (e # es) tlist counter =
     (case par (c_trans E) (snd e) of (ok, record) \<Rightarrow>
        if \<not> ok then readlog_loop E es tlist counter
        else if tr_id record = tl_lastid tlist then readlog_loop E es tlist counter
        else if tl_lastid tlist + 1 \<noteq> tr_id record then (tlist, counter)
        else (let tlist' = tlist\<lparr>tl_lastid := tr_id record, tl_trans := tl_trans tlist @ [record]\<rparr> in
          if counter + 1 > tl_limit tlist then (tlist', counter + 1)
          else readlog_loop E es tlist' (counter + 1)))"

definition ReadLog :: "('b, 'd) env \<Rightarrow> 'b TransListT \<Rightarrow> (('b, 'd) shared, 'b TransListT) act" where
  "ReadLog E tlist =
     bindA (readA logcounter) (\<lambda>logc.
       if tl_lastid tlist > logc then raise (BadDataException ''Remote Log Counter ahead'' 0)
       else if tl_lastid tlist = logc then
         bindA (CURRTIME_MS E) (\<lambda>t. ret (tlist\<lparr>tl_ts := t, tl_currid := logc, tl_limit := 0\<rparr>))
       else bindA (readA (\<lambda>s. kv_entries E (db s))) (\<lambda>es.
         let keystart = EncodePrimaryKey K_LOGNODE (tl_lastid tlist);
             r = readlog_loop E (seek_match es keystart (take ZPDS_KEYID_LEN keystart)) tlist 0 in
         bindA (readA logcounter) (\<lambda>logc'.
         bindA (CURRTIME_MS E) (\<lambda>t.
           let tlist' = (fst r)\<lparr>tl_currid := logc', tl_ts := t\<rparr> in
           ret (if snd r \<noteq> 0 then tlist'\<lparr>tl_limit := snd r - 1\<rparr> else tlist')))))"

definition ReadOne :: "('b, 'd) env \<Rightarrow> 'b TransactionT \<Rightarrow> (('b, 'd) shared, 'b TransactionT) act" where
  "ReadOne E txn =
     readA (\<lambda>s. case kv_get E (db s) (EncodePrimaryKey K_LOGNODE (tr_id txn)) of
         None \<Rightarrow> txn\<lparr>tr_notfound := True\<rparr>
       | Some v \<Rightarrow> (case par (c_trans E) v of (ok, t) \<Rightarrow> if ok then t else t\<lparr>tr_notfound := True\<rparr>))"

section \<open>What a commit does\<close>

text \<open>The transaction as it is logged, and the lookup after it is committed.\<close>

definition logged :: "64 word \<Rightarrow> bool \<Rightarrow> 64 word \<Rightarrow> 'b TransactionT \<Rightarrow> 'b TransactionT" where
  "logged ct as_master i txn = txn\<lparr>tr_id := i, tr_ts := (if as_master then ct else tr_ts txn)\<rparr>"

definition ts_key :: "'b TransactionT \<Rightarrow> string" where
  "ts_key t = EncodeSecondaryKey I_LOGNODE_TS [AI64 (tr_ts t), AI64 (tr_id t)]"

definition commit_view :: "('b, 'd) env \<Rightarrow> 'b TransactionT \<Rightarrow> 'b lookup \<Rightarrow> 'b lookup" where
  "commit_view E t g = apply_items (tr_item t)
     (g(log_key (tr_id t) \<mapsto> ser (c_trans E) t, ts_key t \<mapsto> of_str E (to_dec (unat (tr_id t)))))"

text \<open>Everything but the caches of records and the search log.\<close>

definition core :: "('b, 'd) shared \<Rightarrow> ('b, 'd) shared" where
  "core s = s\<lparr>dbcache := (\<lambda>_. None), xaplog := [], force_commit := False\<rparr>"

lemma core_update [simp]:
  "core (s\<lparr>dbcache := c\<rparr>) = core s" "core (s\<lparr>xaplog := x\<rparr>) = core s" "core (s\<lparr>force_commit := f\<rparr>) = core s"
  by (simp_all add: core_def)

lemma coreD:
  assumes "core s' = core s"
  shows "db s' = db s" "maincounter s' = maincounter s" "logcounter s' = logcounter s" "tmpcache s' = tmpcache s"
    "is_master s' = is_master s" "is_ready s' = is_ready s" "lastslave s' = lastslave s" "sh_master s' = sh_master s"
    "thisurl s' = thisurl s" "remotes s' = remotes s" "transactions s' = transactions s" "no_xapian s' = no_xapian s"
    "hostname s' = hostname s" "shared_secret s' = shared_secret s" "ticks s' = ticks s" "draws s' = draws s"
    "sends s' = sends s" "outbox s' = outbox s"
  using arg_cong [OF assms, of db] arg_cong [OF assms, of maincounter] arg_cong [OF assms, of logcounter]
    arg_cong [OF assms, of tmpcache] arg_cong [OF assms, of is_master] arg_cong [OF assms, of is_ready]
    arg_cong [OF assms, of lastslave] arg_cong [OF assms, of sh_master] arg_cong [OF assms, of thisurl]
    arg_cong [OF assms, of remotes] arg_cong [OF assms, of transactions] arg_cong [OF assms, of no_xapian]
    arg_cong [OF assms, of hostname] arg_cong [OF assms, of shared_secret] arg_cong [OF assms, of ticks]
    arg_cong [OF assms, of draws] arg_cong [OF assms, of sends] arg_cong [OF assms, of outbox]
  by (simp_all add: core_def)

lemma cache_item_core: "keeps (\<lambda>s. core s = c) (cache_item E it)"
  unfolding cache_item_def DelCache_def
  by (intro keeps_intros keeps_updA) (simp_all add: keeps_def split: prod.split)

lemma AddToCache_core: "core (snd (AddToCache E t s)) = core s"
proof -
  have "keeps (\<lambda>s'. core s' = core s) (AddToCache E t)"
    unfolding AddToCache_def by (intro keeps_intros cache_item_core) (simp add: keeps_def)
  from keepsD [OF this refl] show ?thesis .
qed

lemma CommitLog_run:
  assumes "kv_ok E" and "writes_succeed E" and "tr_item txn \<noteq> []"
  shows "\<exists>d. CommitLog E ct txn m s = (Inr (True, logged ct m (logcounter s + 1) txn),
      s\<lparr>logcounter := logcounter s + 1, db := d\<rparr>) \<and>
    kv_get E d = (let t = logged ct m (logcounter s + 1) txn in (kv_get E (db s))
      (log_key (tr_id t) \<mapsto> ser (c_trans E) t, ts_key t \<mapsto> of_str E (to_dec (unat (tr_id t)))))"
proof -
  define t where "t = logged ct m (logcounter s + 1) txn"
  let ?batch = "[Put (log_key (tr_id t)) (ser (c_trans E) t), Put (ts_key t) (of_str E (to_dec (unat (tr_id t))))]"
  obtain d where d: "kv_write E (db s) ?batch = Some d" using assms(2) by (auto simp: writes_succeed_def)
  have t: "t = (let t1 = txn\<lparr>tr_id := logcounter s + 1\<rparr> in if m then t1\<lparr>tr_ts := ct\<rparr> else t1)"
    by (simp add: t_def logged_def)
  have "CommitLog E ct txn m s = (Inr (True, t), s\<lparr>logcounter := logcounter s + 1, db := d\<rparr>)"
    using assms(3) d by (simp add: CommitLog_def bindA_def GetNext_log_def Let_def log_key_def ts_key_def t)
  then show ?thesis
    using kv_get_write [OF assms(1) d] by (intro exI [of _ d]) (simp add: t_def [symmetric] Let_def)
qed

lemma CommitData_run:
  assumes "kv_ok E" and "writes_succeed E" and "tr_item txn \<noteq> []"
  shows "\<exists>d. CommitData E txn s = (Inr True, s\<lparr>db := d\<rparr>) \<and> kv_get E d = apply_items (tr_item txn) (kv_get E (db s))"
proof -
  obtain d where d: "kv_write E (db s) (map item_bop (tr_item txn)) = Some d"
    using assms(2) by (auto simp: writes_succeed_def)
  then show ?thesis
    using assms(3) kv_get_write [OF assms(1) d] by (auto simp: CommitData_def apply_items_def)
qed

text \<open>The fields no commit changes, and those the push leaves alone.\<close>

definition frame where
  "frame s = (maincounter s, is_master s, is_ready s, sh_master s, thisurl s, remotes s, transactions s,
     no_xapian s, hostname s, shared_secret s, ticks s, draws s)"

definition store_part where
  "store_part s = (db s, logcounter s, tmpcache s, dbcache s, xaplog s, force_commit s)"

lemma frame_update [simp]:
  "frame (s\<lparr>db := a\<rparr>) = frame s" "frame (s\<lparr>logcounter := b\<rparr>) = frame s" "frame (s\<lparr>tmpcache := c\<rparr>) = frame s"
  "frame (s\<lparr>lastslave := l\<rparr>) = frame s" "frame (s\<lparr>dbcache := e\<rparr>) = frame s" "frame (s\<lparr>xaplog := x\<rparr>) = frame s"
  "frame (s\<lparr>force_commit := f\<rparr>) = frame s" "frame (s\<lparr>sends := n\<rparr>) = frame s" "frame (s\<lparr>outbox := ob\<rparr>) = frame s"
  by (simp_all add: frame_def)

lemma store_part_update [simp]:
  "store_part (s\<lparr>lastslave := l\<rparr>) = store_part s" "store_part (s\<lparr>sends := n\<rparr>) = store_part s"
  "store_part (s\<lparr>outbox := ob\<rparr>) = store_part s"
  by (simp_all add: store_part_def)

lemma frame_core: "core s' = core s \<Longrightarrow> frame s' = frame s"
  using coreD [of s' s] by (simp add: frame_def)

lemma push_lastslave_run:
  "\<exists>t u. push_lastslave E txn m s = (Inr t, u) \<and> frame u = frame s \<and> store_part u = store_part s \<and>
    (\<not> (m \<and> is_master s \<and> lastslave s \<noteq> []) \<longrightarrow> t = txn \<and> u = s)"
proof (cases "m \<and> is_master s \<and> lastslave s \<noteq> []")
  case True
  obtain b t where b: "fst (SendToRemote E (c_trans E) (lastslave s) R_BUFFTRANS txn True s) = (Inr b, t)"
    using SendToRemote_nothrow by metis
  obtain u where u: "SendToRemote E (c_trans E) (lastslave s) R_BUFFTRANS txn True s = ((Inr b, t), u)"
    using b by (metis prod.collapse)
  have "same_store s u" using SendToRemote_same_store [of s E "c_trans E" "lastslave s" R_BUFFTRANS txn True] u by simp
  then have "frame u = frame s" "store_part u = store_part s" by (auto simp: same_store_def)
  with True u show ?thesis by (simp add: push_lastslave_def Let_def)
next
  case False
  then have "push_lastslave E txn m s = (Inr txn, s)" by (auto simp: push_lastslave_def Let_def)
  then show ?thesis by simp
qed

text \<open>The lock a slave takes is released again.\<close>

lemma lock_release:
  "\<exists>ok tc ins. slave_lock E (is_master s) (s, []) =
      (Inr ok, (s\<lparr>tmpcache := tc\<rparr>, ins)) \<and> release_names ins tc = tmpcache s"
proof (cases "is_master s")
  case True
  then show ?thesis
    by (intro exI [of _ True] exI [of _ "tmpcache s"] exI [of _ "[]"]) (simp add: release_names_def slave_lock_def)
next
  case False
  let ?k = "EncodePrimaryKey K_NONODE ZPDS_LOCK_SLAVE_UPDATES"
  show ?thesis
  proof (cases "CheckAssoc ?k (tmpcache s)")
    case True
    then show ?thesis using False
      by (intro exI [of _ False] exI [of _ "tmpcache s"] exI [of _ "[]"])
        (simp add: slave_lock_def MultiTypeLock_def reserve_key_def release_names_def)
  next
    case no: False
    then have "release_names [?k] ((tmpcache s)(?k \<mapsto> blank E)) = tmpcache s"
      by (auto simp: release_names_apply CheckAssoc_def fun_eq_iff)
    then show ?thesis using False no
      by (intro exI [of _ True] exI [of _ "(tmpcache s)(?k \<mapsto> blank E)"] exI [of _ "[?k]"])
        (simp add: slave_lock_def MultiTypeLock_def reserve_key_def SetAssoc_def)
  qed
qed

lemma Commit_nil: "tr_item txn = [] \<Longrightarrow> Commit E ct txn m s = (Inr (), s)"
proof -
  assume e: "tr_item txn = []"
  obtain ok tc ins where l: "slave_lock E (is_master s) (s, []) =
      (Inr ok, (s\<lparr>tmpcache := tc\<rparr>, ins))" "release_names ins tc = tmpcache s" using lock_release by metis
  have "Commit E ct txn m s = (Inr (), s\<lparr>tmpcache := tmpcache s\<rparr>)"
    using e l(2) by (simp add: Commit_def with_namecache_def bindA_step [where m = "slave_lock E (is_master s)", OF l(1)])
  then show ?thesis by simp
qed

text \<open>A commit with working writes: the log gets the next number, the lookup is \<open>commit_view\<close>, no reserved
  name is left behind; only the caches, the push and the search log are changed beside.\<close>

lemma Commit_run:
  assumes "kv_ok E" and "writes_succeed E" and "tr_item txn \<noteq> []"
  shows "\<exists>t2 u r w. Commit E ct txn m s = (r, w\<lparr>tmpcache := tmpcache s\<rparr>) \<and> AddToCache E t2 u = (r, w) \<and>
    kv_get E (db u) = commit_view E (logged ct m (logcounter s + 1) txn) (kv_get E (db s)) \<and>
    frame u = frame s \<and> logcounter u = logcounter s + 1 \<and> dbcache u = dbcache s \<and> xaplog u = xaplog s \<and>
    (\<not> (m \<and> is_master s \<and> lastslave s \<noteq> []) \<longrightarrow> t2 = logged ct m (logcounter s + 1) txn \<and>
       lastslave u = lastslave s \<and> sends u = sends s \<and> outbox u = outbox s) \<and>
    (\<exists>s3. push_lastslave E (logged ct m (logcounter s + 1) txn) m s3 = (Inr t2, u))"
proof -
  obtain ok tc ins where l: "slave_lock E (is_master s) (s, []) =
      (Inr ok, (s\<lparr>tmpcache := tc\<rparr>, ins))" "release_names ins tc = tmpcache s" using lock_release by metis
  define s1 where "s1 = s\<lparr>tmpcache := tc\<rparr>"
  define t1 where "t1 = logged ct m (logcounter s + 1) txn"
  have lc: "logcounter s1 = logcounter s" "db s1 = db s" by (simp_all add: s1_def)
  obtain d1 where c1: "CommitLog E ct txn m s1 = (Inr (True, t1), s1\<lparr>logcounter := logcounter s + 1, db := d1\<rparr>)"
    and g1: "kv_get E d1 = (kv_get E (db s))(log_key (tr_id t1) \<mapsto> ser (c_trans E) t1, ts_key t1 \<mapsto> of_str E (to_dec (unat (tr_id t1))))"
    using CommitLog_run [OF assms, of ct m s1] unfolding lc t1_def Let_def by blast
  define s2 where "s2 = s1\<lparr>logcounter := logcounter s + 1, db := d1\<rparr>"
  have ne: "tr_item t1 \<noteq> []" using assms(3) by (simp add: t1_def logged_def)
  obtain d where c2: "CommitData E t1 s2 = (Inr True, s2\<lparr>db := d\<rparr>)" and g2: "kv_get E d = apply_items (tr_item t1) (kv_get E d1)"
    using CommitData_run [OF assms(1,2) ne, of s2] by (auto simp: s2_def)
  define s3 where "s3 = s2\<lparr>db := d\<rparr>"
  obtain t2 u where p: "push_lastslave E t1 m s3 = (Inr t2, u)"
    and u: "frame u = frame s3" "store_part u = store_part s3"
    and np: "\<not> (m \<and> is_master s3 \<and> lastslave s3 \<noteq> []) \<longrightarrow> t2 = t1 \<and> u = s3"
    using push_lastslave_run [of E t1 m s3] by blast
  obtain r w where a: "AddToCache E t2 u = (r, w)" by force
  have "tmpcache u = tc" using u(2) by (simp add: store_part_def s3_def s2_def s1_def)
  then have tw: "tmpcache w = tc" using AddToCache_core [of E t2 u] a by (metis coreD(4) snd_conv)
  have o1: "onS (CommitLog E ct txn m) (s1, ins) = (Inr (True, t1), (s2, ins))"
    and o2: "onS (CommitData E t1) (s2, ins) = (Inr True, (s3, ins))"
    and o3: "onS (push_lastslave E t1 m) (s3, ins) = (Inr t2, (u, ins))"
    by (simp_all only: onS_run c1 c2 p s2_def [symmetric] s3_def [symmetric] prod.case)
  have "Commit E ct txn m s = (r, w\<lparr>tmpcache := tmpcache s\<rparr>)"
    using assms(3) l(2) tw by (simp add: Commit_def with_namecache_def bindA_step [where m = "slave_lock E (is_master s)", OF l(1)] s1_def [symmetric]
        bindA_step [where m = "onS (CommitLog E ct txn m)", OF o1] bindA_step [where m = "onS (CommitData E t1)", OF o2] bindA_step [where m = "onS (push_lastslave E t1 m)", OF o3] onS_run a)
  moreover have "frame u = frame s" "db u = d" "logcounter u = logcounter s + 1" "dbcache u = dbcache s" "xaplog u = xaplog s"
    using u by (simp_all add: store_part_def s3_def s2_def s1_def)
  moreover have "lastslave s3 = lastslave s" "sends s3 = sends s" "outbox s3 = outbox s" "is_master s3 = is_master s"
    by (simp_all add: s3_def s2_def s1_def)
  ultimately show ?thesis using g1 g2 a np p
    unfolding t1_def [symmetric] commit_view_def
    by (intro exI [of _ t2] exI [of _ u] exI [of _ r] exI [of _ w] conjI exI [of _ s3]) simp_all
qed

text \<open>The fields of the state after a commit.\<close>

lemma Commit_state:
  assumes "kv_ok E" and "writes_succeed E" and "tr_item txn \<noteq> []"
    and s': "s' = snd (Commit E ct txn m s)"
  shows "kv_get E (db s') = commit_view E (logged ct m (logcounter s + 1) txn) (kv_get E (db s)) \<and>
    logcounter s' = logcounter s + 1 \<and> tmpcache s' = tmpcache s \<and> frame s' = frame s"
proof -
  obtain t2 u r w where c: "Commit E ct txn m s = (r, w\<lparr>tmpcache := tmpcache s\<rparr>)" and a: "AddToCache E t2 u = (r, w)"
    and g: "kv_get E (db u) = commit_view E (logged ct m (logcounter s + 1) txn) (kv_get E (db s))"
    and u: "frame u = frame s" "logcounter u = logcounter s + 1" using Commit_run [OF assms(1-3)] by metis
  have w: "core w = core u" using AddToCache_core [of E t2 u] a by simp
  from coreD [OF w] frame_core [OF w] u g show ?thesis by (simp add: s' c)
qed

text \<open>When the log cannot be written, or the data cannot, nothing of the data is changed and the call
  throws; the log counter has moved on all the same.\<close>

lemma CommitLog_fail:
  assumes "\<And>ops. kv_write E (db s) ops = None" and "tr_item txn \<noteq> []"
  shows "CommitLog E ct txn m s = (Inr (False, logged ct m (logcounter s + 1) txn), s\<lparr>logcounter := logcounter s + 1\<rparr>)"
  using assms by (simp add: CommitLog_def bindA_def GetNext_log_def Let_def logged_def)

lemma Commit_fail:
  assumes "\<And>ops. kv_write E (db s) ops = None" and "tr_item txn \<noteq> []"
  shows "Commit E ct txn m s = (Inl (BadDataException ''Insert failed for log'' 0), s\<lparr>logcounter := logcounter s + 1\<rparr>)"
proof -
  obtain ok tc ins where l: "slave_lock E (is_master s) (s, []) =
      (Inr ok, (s\<lparr>tmpcache := tc\<rparr>, ins))" "release_names ins tc = tmpcache s" using lock_release by metis
  have c: "CommitLog E ct txn m (s\<lparr>tmpcache := tc\<rparr>) = (Inr (False, logged ct m (logcounter s + 1) txn), s\<lparr>tmpcache := tc, logcounter := logcounter s + 1\<rparr>)"
    using CommitLog_fail [of E "s\<lparr>tmpcache := tc\<rparr>" txn ct m] assms by simp
  have o: "onS (CommitLog E ct txn m) (s\<lparr>tmpcache := tc\<rparr>, ins) = (Inr (False, logged ct m (logcounter s + 1) txn),
      (s\<lparr>tmpcache := tc, logcounter := logcounter s + 1\<rparr>, ins))"
    by (simp add: onS_run c)
  show ?thesis
    using assms(2) l(2) by (simp add: Commit_def with_namecache_def bindA_step [where m = "slave_lock E (is_master s)", OF l(1)] bindA_step [where m = "onS (CommitLog E ct txn m)", OF o])
qed

end
