(* ===== verification/LogLaws.thy ===== *)
theory LogLaws
  imports StoreTrans
begin

text \<open>
  The invariants of the log and of the store, and what \<open>Commit\<close> and \<open>ReadLog\<close> do to them: the log
  holds exactly the entries \<open>1\<close> to \<open>logcounter\<close> (entry \<open>0\<close> is the fence), the data is what replaying
  the log gives, and a reader is handed the run of entries that follows the one it has.
\<close>

section \<open>The invariant of the log\<close>

definition log_entry :: "('b, 'd) env \<Rightarrow> 'b lookup \<Rightarrow> 64 word \<Rightarrow> 'b TransactionT option" where
  "log_entry E g i = (case g (log_key i) of None \<Rightarrow> None
     | Some v \<Rightarrow> if fst (par (c_trans E) v) then Some (snd (par (c_trans E) v)) else None)"

definition log_key_like :: "string \<Rightarrow> bool" where
  "log_key_like k \<longleftrightarrow> starts_with k (ZPDS_FMT_ID_KEY K_LOGNODE)"

definition log_ok :: "('b, 'd) env \<Rightarrow> 'b lookup \<Rightarrow> 64 word \<Rightarrow> bool" where
  "log_ok E g n \<longleftrightarrow> (\<forall>i \<le> n. \<exists>t. log_entry E g i = Some t \<and> tr_id t = i) \<and>
     (\<forall>i > n. g (log_key i) = None) \<and> (\<forall>k. log_key_like k \<longrightarrow> g k \<noteq> None \<longrightarrow> (\<exists>i. k = log_key i))"

text \<open>A transaction of the data services writes data keys only.\<close>

definition data_key :: "string \<Rightarrow> bool" where
  "data_key k \<longleftrightarrow> \<not> log_key_like k \<and> \<not> starts_with k (ZPDS_FMT_ID_KEY I_LOGNODE_TS)"

definition data_items :: "'b TransactionT \<Rightarrow> bool" where
  "data_items t \<longleftrightarrow> (\<forall>it \<in> set (tr_item t). data_key (ti_key it) \<and> store_key (ti_key it))"

lemma log_key_inject [simp]: "log_key i = log_key j \<longleftrightarrow> i = j"
  by (simp add: log_key_def EncodePrimaryKey_def)

lemma log_key_like_log_key [simp]: "log_key_like (log_key i)"
  by (simp add: log_key_like_def log_key_def EncodePrimaryKey_def)

lemma log_key_le: "log_key i \<le> log_key j \<longleftrightarrow> i \<le> j"
  using less_append_iff [of "ZPDS_FMT_ID_KEY K_LOGNODE" "ZPDS_FMT_ID_KEY K_LOGNODE" "ZPDS_FMT_NODE_ONLY j" "ZPDS_FMT_NODE_ONLY i"]
  by (auto simp: log_key_def EncodePrimaryKey_def ZPDS_FMT_NODE_ONLY_less not_less [symmetric])

lemma log_key_less: "log_key i < log_key j \<longleftrightarrow> i < j"
  using log_key_le [of j i] by (auto simp: not_le [symmetric])

lemma starts_with_two:
  "byte_keytype u \<Longrightarrow> byte_keytype w \<Longrightarrow> starts_with k (ZPDS_FMT_ID_KEY u) \<Longrightarrow> starts_with k (ZPDS_FMT_ID_KEY w) \<Longrightarrow> u = w"
  by (auto simp: starts_with_def ZPDS_FMT_ID_KEY_inject)

lemma ts_key_prefix: "starts_with (ts_key t) (ZPDS_FMT_ID_KEY I_LOGNODE_TS)"
  by (simp add: ts_key_def EncodeSecondaryKey_Cons)

lemma ts_key_not_log [simp]: "\<not> log_key_like (ts_key t)"
  using starts_with_two [of K_LOGNODE I_LOGNODE_TS "ts_key t"] ts_key_prefix [of t]
  by (auto simp: log_key_like_def keytype_defs byte_keytype_def)

lemma log_key_not_ts [simp]: "\<not> starts_with (log_key i) (ZPDS_FMT_ID_KEY I_LOGNODE_TS)"
  using starts_with_two [of K_LOGNODE I_LOGNODE_TS "log_key i"] log_key_like_log_key [of i]
  by (auto simp: log_key_like_def keytype_defs byte_keytype_def)

lemma store_key_log: "store_key (log_key i)"
  by (simp add: log_key_def store_key_primary)

lemma store_key_ts: "store_key (ts_key t)"
  unfolding store_key_def using ts_key_prefix [of t]
  by (intro exI [of _ I_LOGNODE_TS]) (simp add: keytype_defs byte_keytype_def)

lemma data_key_not_log:
  assumes "data_key k"
  shows "k \<noteq> log_key i" and "k \<noteq> ts_key t"
proof -
  show "k \<noteq> log_key i" using assms log_key_like_log_key by (auto simp: data_key_def)
  show "k \<noteq> ts_key t" using assms ts_key_prefix by (auto simp: data_key_def)
qed

context table_laws
begin

lemma table_key_data: "table_key T k \<Longrightarrow> data_key k"
proof -
  assume "table_key T k"
  then obtain u where u: "u = PrimaryKey T \<or> u \<in> set (unique_keys T)" "starts_with k (ZPDS_FMT_ID_KEY u)"
    by (auto simp: table_key_def)
  have "byte_keytype u" "u \<noteq> K_LOGNODE" "u \<noteq> I_LOGNODE_TS"
    using u(1) pkey_range unique_range [of u] by (auto simp: keytype_defs byte_keytype_def)
  with u(2) starts_with_two [of u K_LOGNODE k] starts_with_two [of u I_LOGNODE_TS k] show ?thesis
    by (auto simp: data_key_def log_key_like_def)
qed

lemma record_item_keys:
  assumes "it \<in> set (record_items E T r old)"
  shows "table_key T (ti_key it) \<and> store_key (ti_key it)"
proof -
  have u: "table_key T (GetKey T x u False) \<and> store_key (GetKey T x u False)" if "u \<in> set (unique_keys T)" for u x
    using that GetKey_unique [OF that, of x False] unique_range [OF that]
    by (auto simp: table_key_def store_key_def keytype_defs)
  have p: "table_key T (EncodePrimaryKey (PrimaryKey T) i) \<and> store_key (EncodePrimaryKey (PrimaryKey T) i)" for i
    using store_key_primary [of "PrimaryKey T" i] by (auto simp: table_key_def EncodePrimaryKey_def)
  from assms show ?thesis
    using u p [of "rid T r"]
    by (auto simp: record_items_def key_items_def Let_def GetKey_primary split: option.splits if_splits)
qed

lemma adds_data_items:
  assumes "records_ok T g" and "adds E T g rs t t'" and "data_items t"
  shows "data_items t'"
  using assms(2,3)
proof (induction rule: adds.induct)
  case (adds_Nil t)
  then show ?case .
next
  case (adds_Cons r up t t1 rs t2)
  from AddRecord_True [OF assms(1) adds_Cons.hyps(1)]
  have "t1 = t\<lparr>tr_item := tr_item t @ record_items E T r (abs_table T g (rid T r))\<rparr>" by blast
  moreover have "\<forall>it \<in> set (record_items E T r (abs_table T g (rid T r))). data_key (ti_key it) \<and> store_key (ti_key it)"
    using record_item_keys table_key_data by blast
  ultimately have "data_items t1" using adds_Cons.prems by (simp add: data_items_def ball_Un)
  then show ?case by (rule adds_Cons.IH)
qed

end

section \<open>A commit and the lookup\<close>

lemma apply_items_frame: "\<forall>it \<in> set its. ti_key it \<noteq> k \<Longrightarrow> apply_items its g k = g k"
  by (induction its arbitrary: g) (auto simp: item_bop_def)

lemma apply_items_cong:
  assumes "\<And>k. P k \<Longrightarrow> g k = h k" and "P k"
  shows "apply_items its g k = apply_items its h k"
  using assms(1)
proof (induction its arbitrary: g h)
  case Nil
  then show ?case using assms(2) by simp
next
  case (Cons it its)
  have "bop_apply (item_bop it) g l = bop_apply (item_bop it) h l" if "P l" for l
    using Cons.prems [OF that] by (simp add: item_bop_def)
  from Cons.IH [OF this] show ?case by simp
qed

text \<open>The data keys see the items, the log keys see the entry.\<close>

lemma commit_view_data: "data_key k \<Longrightarrow> commit_view E t g k = apply_items (tr_item t) g k"
  unfolding commit_view_def
  by (rule apply_items_cong [where P = data_key]) (auto dest: data_key_not_log)

lemma commit_view_log:
  assumes "data_items t"
  shows "commit_view E t g (log_key i) = (if i = tr_id t then Some (ser (c_trans E) t) else g (log_key i))"
proof -
  have "\<forall>it \<in> set (tr_item t). ti_key it \<noteq> log_key i"
    using assms data_key_not_log by (auto simp: data_items_def)
  moreover have "log_key i \<noteq> ts_key t" using ts_key_not_log [of t] log_key_like_log_key by metis
  ultimately show ?thesis by (simp add: commit_view_def apply_items_frame)
qed

lemma commit_view_log_like:
  assumes "data_items t" and "log_key_like k" and "k \<noteq> log_key (tr_id t)"
  shows "commit_view E t g k = g k"
proof -
  have "\<forall>it \<in> set (tr_item t). ti_key it \<noteq> k" using assms by (auto simp: data_items_def data_key_def)
  moreover have "k \<noteq> ts_key t" using assms(2) ts_key_not_log [of t] by blast
  ultimately show ?thesis using assms(3) by (simp add: commit_view_def apply_items_frame)
qed

lemma log_entry_commit:
  assumes "data_items t" and "pb_ok E"
  shows "log_entry E (commit_view E t g) i = (if i = tr_id t then Some t else log_entry E g i)"
  using assms by (simp add: log_entry_def commit_view_log)

lemma word_le_inc: "n + 1 \<noteq> (0 :: 64 word) \<Longrightarrow> i \<le> n + 1 \<longleftrightarrow> i \<le> n \<or> i = n + 1"
proof -
  assume "n + 1 \<noteq> 0"
  then have u: "unat (n + 1) = unat n + 1" by (simp add: unatSuc add.commute)
  have "i = n + 1 \<longleftrightarrow> unat i = unat (n + 1)" by (simp add: word_unat_eq_iff)
  with u show ?thesis by (auto simp: word_le_nat_alt)
qed

text \<open>The log grows by exactly the committed transaction.\<close>

lemma log_ok_commit:
  assumes "pb_ok E" and "log_ok E g n" and "data_items t" and "tr_id t = n + 1" and "n + 1 \<noteq> 0"
  shows "log_ok E (commit_view E t g) (n + 1)"
proof -
  have n: "i \<le> n + 1 \<longleftrightarrow> i \<le> n \<or> i = n + 1" for i :: "64 word"
    using assms(5) by (rule word_le_inc)
  have m: "n + 1 < i \<Longrightarrow> n < i" for i :: "64 word" using n by (metis not_le)
  show ?thesis unfolding log_ok_def
  proof (intro conjI allI impI)
    fix i assume "i \<le> n + 1"
    with n assms(1-4) show "\<exists>t'. log_entry E (commit_view E t g) i = Some t' \<and> tr_id t' = i"
      by (auto simp: log_entry_commit log_ok_def)
  next
    fix i assume "n + 1 < i"
    with m assms(2,4) show "commit_view E t g (log_key i) = None"
      by (auto simp: commit_view_log [OF assms(3)] log_ok_def)
  next
    fix k assume k: "log_key_like k" "commit_view E t g k \<noteq> None"
    show "\<exists>i. k = log_key i"
    proof (cases "k = log_key (tr_id t)")
      case False
      then have "g k \<noteq> None" using commit_view_log_like [OF assms(3) k(1), of E g] k(2) by simp
      with k(1) assms(2) show ?thesis unfolding log_ok_def by blast
    qed blast
  qed
qed

lemma store_keys_ok_apply:
  "store_keys_ok g \<Longrightarrow> \<forall>it \<in> set its. store_key (ti_key it) \<Longrightarrow> store_keys_ok (apply_items its g)"
proof (induction its arbitrary: g)
  case Nil
  then show ?case by simp
next
  case (Cons it its)
  then have "store_keys_ok (bop_apply (item_bop it) g)" by (auto simp: item_bop_def store_keys_ok_def)
  with Cons show ?case by simp
qed

lemma store_keys_ok_commit: "store_keys_ok g \<Longrightarrow> data_items t \<Longrightarrow> store_keys_ok (commit_view E t g)"
  unfolding commit_view_def
  by (intro store_keys_ok_apply store_keys_ok_put) (auto simp: data_items_def store_key_log store_key_ts)

section \<open>Replaying the log\<close>

text \<open>The data a log stands for: its first \<open>n\<close> transactions applied in order to the data at the start.\<close>

definition entry_items :: "('b, 'd) env \<Rightarrow> 'b lookup \<Rightarrow> nat \<Rightarrow> 'b TransItemT list" where
  "entry_items E g j = (case log_entry E g (of_nat j) of None \<Rightarrow> [] | Some t \<Rightarrow> tr_item t)"

definition replay :: "('b, 'd) env \<Rightarrow> 'b lookup \<Rightarrow> nat \<Rightarrow> 'b lookup \<Rightarrow> 'b lookup" where
  "replay E g n g0 = apply_items (concat (map (entry_items E g) [1..<n + 1])) g0"

definition replays :: "('b, 'd) env \<Rightarrow> 'b lookup \<Rightarrow> 'b lookup \<Rightarrow> 64 word \<Rightarrow> bool" where
  "replays E g0 g n \<longleftrightarrow> (\<forall>k. data_key k \<longrightarrow> g k = replay E g (unat n) g0 k)"

lemma replay_Suc: "replay E g (Suc n) g0 = apply_items (entry_items E g (Suc n)) (replay E g n g0)"
  by (simp add: replay_def)

lemma replays_commit:
  assumes "pb_ok E" and "data_items t" and "tr_id t = n + 1" and "n + 1 \<noteq> 0" and "replays E g0 g n"
  shows "replays E g0 (commit_view E t g) (n + 1)"
  unfolding replays_def
proof (intro allI impI)
  fix k assume k: "data_key k"
  have u: "unat (n + 1) = Suc (unat n)" using assms(4) by (simp add: unatSuc add.commute)
  have b: "Suc (unat n) < 2 ^ 64" using unsigned_less [of "n + 1", where ?'a = nat] u by simp
  have s: "(of_nat (Suc (unat n)) :: 64 word) = n + 1" by simp
  have e: "entry_items E (commit_view E t g) (Suc (unat n)) = tr_item t"
    using assms(1-3) by (simp only: entry_items_def s log_entry_commit) simp
  have es: "entry_items E (commit_view E t g) j = entry_items E g j" if "j \<in> set [1..<unat n + 1]" for j
  proof -
    have "j < Suc (unat n)" using that by auto
    then have "j < 2 ^ 64" using b by linarith
    then have "unat (of_nat j :: 64 word) = j" by (simp add: unat_of_nat)
    then have ne: "(of_nat j :: 64 word) \<noteq> tr_id t" unfolding assms(3)
      using \<open>j < Suc (unat n)\<close> u by (metis less_irrefl)
    show ?thesis unfolding entry_items_def log_entry_commit [OF assms(2,1)] if_not_P [OF ne] ..
  qed
  have "map (entry_items E (commit_view E t g)) [1..<unat n + 1] = map (entry_items E g) [1..<unat n + 1]"
    by (rule map_cong [OF refl es])
  then have r: "replay E (commit_view E t g) (unat n) g0 = replay E g (unat n) g0"
    unfolding replay_def by (simp only:)
  have "commit_view E t g k = apply_items (tr_item t) g k" using k by (rule commit_view_data)
  also have "\<dots> = apply_items (tr_item t) (replay E g (unat n) g0) k"
    by (rule apply_items_cong [where P = data_key]) (use assms(5) k in \<open>auto simp: replays_def\<close>)
  finally show "commit_view E t g k = replay E (commit_view E t g) (unat (n + 1)) g0 k"
    unfolding u replay_Suc e r .
qed

section \<open>Reading the log\<close>

lemma readlog_loop_run:
  assumes "\<forall>j < length es. \<exists>t. par (c_trans E) (snd (es ! j)) = (True, t) \<and> tr_id t = tl_lastid l + 1 + of_nat j"
    and "unat (tl_lastid l) + length es < 2 ^ 64" and "unat counter + length es < 2 ^ 64" and "counter \<le> tl_limit l"
  shows "readlog_loop E es l counter =
    (let m = min (length es) (unat (tl_limit l) - unat counter + 1) in
      (l\<lparr>tl_lastid := tl_lastid l + of_nat m,
         tl_trans := tl_trans l @ map (\<lambda>e. snd (par (c_trans E) (snd e))) (take m es)\<rparr>, counter + of_nat m))"
  using assms
proof (induction es arbitrary: l counter)
  case Nil
  then show ?case by simp
next
  case (Cons e es)
  obtain t where t: "par (c_trans E) (snd e) = (True, t)" "tr_id t = tl_lastid l + 1"
    using Cons.prems(1) [rule_format, of 0] by auto
  define l' where "l' = l\<lparr>tl_lastid := tr_id t, tl_trans := tl_trans l @ [t]\<rparr>"
  have c: "unat (counter + 1) = unat counter + 1" using Cons.prems(3) by (simp add: unat_word_ariths)
  have i: "unat (tl_lastid l + 1) = unat (tl_lastid l) + 1" using Cons.prems(2) by (simp add: unat_word_ariths)
  show ?case
  proof (cases "counter + 1 > tl_limit l")
    case True
    then have "unat (tl_limit l) = unat counter" using Cons.prems(4) c by (simp add: word_less_nat_alt word_le_nat_alt)
    with True t show ?thesis by (simp add: Let_def min_def)
  next
    case False
    then have le: "counter + 1 \<le> tl_limit l'" by (simp add: l'_def)
    have p: "\<forall>j < length es. \<exists>t. par (c_trans E) (snd (es ! j)) = (True, t) \<and> tr_id t = tl_lastid l' + 1 + of_nat j"
    proof (intro allI impI)
      fix j assume "j < length es"
      with Cons.prems(1) [rule_format, of "Suc j"] t(2)
      show "\<exists>t. par (c_trans E) (snd (es ! j)) = (True, t) \<and> tr_id t = tl_lastid l' + 1 + of_nat j"
        by (simp add: l'_def add.assoc)
    qed
    have b: "unat (tl_lastid l') + length es < 2 ^ 64" "unat (counter + 1) + length es < 2 ^ 64"
      using Cons.prems(2,3) t(2) c i by (simp_all add: l'_def)
    define m where "m = min (length es) (unat (tl_limit l') - unat (counter + 1) + 1)"
    have IH: "readlog_loop E es l' (counter + 1) = (l'\<lparr>tl_lastid := tl_lastid l' + of_nat m,
        tl_trans := tl_trans l' @ map (\<lambda>e. snd (par (c_trans E) (snd e))) (take m es)\<rparr>, counter + 1 + of_nat m)"
      using Cons.IH [OF p b le] by (simp add: Let_def m_def)
    have "unat (tl_limit l) - unat counter = Suc (unat (tl_limit l) - unat (counter + 1))"
      using le c by (simp add: l'_def word_le_nat_alt)
    then have m: "min (length (e # es)) (unat (tl_limit l) - unat counter + 1) = Suc m"
      by (simp add: m_def l'_def)
    have "readlog_loop E (e # es) l counter = readlog_loop E es l' (counter + 1)"
      using t False by (simp add: l'_def Let_def)
    then show ?thesis unfolding IH m Let_def using t by (simp add: l'_def algebra_simps)
  qed
qed

text \<open>The entries from \<open>a\<close> on are consecutive.\<close>

definition log_run :: "('b, 'd) env \<Rightarrow> 'b lookup \<Rightarrow> 64 word \<Rightarrow> nat \<Rightarrow> 'b TransactionT list" where
  "log_run E g a m = map (\<lambda>j. the (log_entry E g (a + 1 + of_nat j))) [0..<m]"

lemma word_add_le:
  "(a :: 64 word) \<le> i \<Longrightarrow> i \<le> n \<Longrightarrow> i = a + of_nat (unat i - unat a) \<and> unat i - unat a \<le> unat n - unat a"
proof -
  assume a: "a \<le> i" "i \<le> n"
  then have "unat a \<le> unat i" "unat i \<le> unat n" by (simp_all add: word_le_nat_alt)
  moreover from this(1) have "a + of_nat (unat i - unat a) = i" by (simp add: of_nat_diff)
  ultimately show ?thesis by simp
qed

lemma unat_add_le:
  "(a :: 64 word) \<le> n \<Longrightarrow> j \<le> unat n - unat a \<Longrightarrow> unat (a + of_nat j) = unat a + j"
proof -
  assume a: "a \<le> n" "j \<le> unat n - unat a"
  then have le: "unat a + j \<le> unat n" by (simp add: word_le_nat_alt)
  then have b: "unat a + j < 2 ^ 64" using unsigned_less [of n, where ?'a = nat] by simp
  then have "unat (of_nat j :: 64 word) = j" by (simp add: unat_of_nat)
  with b show ?thesis by (simp add: unat_word_ariths)
qed

lemma log_keys_from:
  assumes "sorted_wrt (<) (map fst es)" and "map_of es = g" and "log_ok E g n" and "a \<le> n"
  shows "map fst (filter (\<lambda>e. log_key a \<le> fst e \<and> log_key_like (fst e)) es) =
    map (\<lambda>j. log_key (a + of_nat j)) [0..<unat n - unat a + 1]" (is "map fst ?F = ?K")
proof (rule sorted_list_unique)
  show "sorted_wrt (<) (map fst ?F)" using assms(1) by (simp add: sorted_wrt_filter sorted_wrt_map)
  have "i < j \<Longrightarrow> j \<le> unat n - unat a \<Longrightarrow> a + of_nat i < a + of_nat j" for i j
    using unat_add_le [OF assms(4), of i] unat_add_le [OF assms(4), of j] by (simp add: word_less_nat_alt)
  then show "sorted_wrt (<) ?K"
    by (simp only: sorted_wrt_map log_key_less) (auto simp: sorted_wrt_iff_nth_less simp del: upt_Suc)
  have d: "k \<in> fst ` set es \<longleftrightarrow> g k \<noteq> None" for k
    using assms(2) by (metis dom_map_of_conv_image_fst domIff)
  have ent: "i \<le> n \<longleftrightarrow> g (log_key i) \<noteq> None" for i
    using assms(3) by (force simp: log_ok_def log_entry_def not_less [symmetric] split: option.splits)
  have "set (map fst ?F) = {k \<in> fst ` set es. log_key a \<le> k \<and> log_key_like k}" by auto
  also have "\<dots> = {k. g k \<noteq> None \<and> log_key a \<le> k \<and> log_key_like k}" using d by blast
  also have "\<dots> = {log_key i | i. a \<le> i \<and> i \<le> n}"
  proof (intro set_eqI iffI)
    fix k assume k: "k \<in> {k. g k \<noteq> None \<and> log_key a \<le> k \<and> log_key_like k}"
    then obtain i where "k = log_key i" using assms(3) unfolding log_ok_def by blast
    with k ent show "k \<in> {log_key i | i. a \<le> i \<and> i \<le> n}" by (auto simp: log_key_le)
  next
    fix k assume "k \<in> {log_key i | i. a \<le> i \<and> i \<le> n}"
    with ent show "k \<in> {k. g k \<noteq> None \<and> log_key a \<le> k \<and> log_key_like k}" by (auto simp: log_key_le)
  qed
  also have "\<dots> = set ?K"
  proof (intro set_eqI iffI)
    fix k assume "k \<in> {log_key i | i. a \<le> i \<and> i \<le> n}"
    then obtain i where i: "k = log_key i" "a \<le> i" "i \<le> n" by blast
    from word_add_le [OF i(2,3)] i(1)
    have "k = log_key (a + of_nat (unat i - unat a))" "unat i - unat a \<in> set [0..<unat n - unat a + 1]" by auto
    then show "k \<in> set ?K" unfolding set_map by blast
  next
    fix k assume "k \<in> set ?K"
    then obtain j where j: "k = log_key (a + of_nat j)" "j \<le> unat n - unat a" by auto
    from unat_add_le [OF assms(4) j(2)] j(2) assms(4)
    have "a \<le> a + of_nat j" "a + of_nat j \<le> n" by (simp_all add: word_le_nat_alt)
    with j(1) show "k \<in> {log_key i | i. a \<le> i \<and> i \<le> n}" by blast
  qed
  finally show "set (map fst ?F) = set ?K" .
qed

lemma log_entries_from:
  assumes "sorted_wrt (<) (map fst es)" and "map_of es = g" and "log_ok E g n" and "a \<le> n"
  defines "F \<equiv> filter (\<lambda>e. log_key a \<le> fst e \<and> log_key_like (fst e)) es"
  shows "length F = unat n - unat a + 1 \<and>
    (\<forall>j \<le> unat n - unat a. \<exists>t. par (c_trans E) (snd (F ! j)) = (True, t) \<and> tr_id t = a + of_nat j \<and>
       log_entry E g (a + of_nat j) = Some t)"
proof -
  have k: "map fst F = map (\<lambda>j. log_key (a + of_nat j)) [0..<unat n - unat a + 1]"
    unfolding F_def using assms(1-4) by (rule log_keys_from)
  from arg_cong [OF this, of length] have l: "length F = unat n - unat a + 1" by (simp del: upt_Suc)
  have "\<exists>t. par (c_trans E) (snd (F ! j)) = (True, t) \<and> tr_id t = a + of_nat j \<and>
      log_entry E g (a + of_nat j) = Some t" if j: "j \<le> unat n - unat a" for j
  proof -
    have "fst (F ! j) = map fst F ! j" using l j by simp
    also have "\<dots> = log_key (a + of_nat j)" unfolding k using j by (simp del: upt_Suc)
    finally have f: "fst (F ! j) = log_key (a + of_nat j)" .
    have "F ! j \<in> set es" using l j nth_mem [of j F] by (auto simp: F_def)
    moreover have "distinct (map fst es)" using assms(1) by (simp add: strict_sorted_iff)
    ultimately have "g (log_key (a + of_nat j)) = Some (snd (F ! j))"
      using assms(2) f by (metis map_of_is_SomeI prod.collapse)
    moreover have "a + of_nat j \<le> n"
      using unat_add_le [OF assms(4) j] j assms(4) by (simp add: word_le_nat_alt)
    then obtain t where "log_entry E g (a + of_nat j) = Some t" "tr_id t = a + of_nat j"
      using assms(3) unfolding log_ok_def by blast
    ultimately show ?thesis by (auto simp: log_entry_def split: if_splits) (metis prod.collapse)
  qed
  with l show ?thesis by blast
qed

lemma ReadLog_run':
  assumes "kv_ok E" and "log_ok E (kv_get E (db s)) (logcounter s)" and "tl_lastid l < logcounter s"
  shows "let m = min (unat (logcounter s) - unat (tl_lastid l)) (unat (tl_limit l) + 1) in
    ReadLog E l s = (Inr (l\<lparr>tl_lastid := tl_lastid l + of_nat m, tl_limit := of_nat m - 1,
        tl_trans := tl_trans l @ log_run E (kv_get E (db s)) (tl_lastid l) m,
        tl_currid := logcounter s, tl_ts := clock E (ticks s)\<rparr>), s\<lparr>ticks := ticks s + 1\<rparr>)"
proof -
  define a where "a = tl_lastid l"
  define n where "n = logcounter s"
  define es where "es = kv_entries E (db s)"
  define g where "g = kv_get E (db s)"
  define F where "F = filter (\<lambda>e. log_key a \<le> fst e \<and> log_key_like (fst e)) es"
  have an: "a < n" "a \<le> n" using assms(3) by (simp_all add: a_def n_def)
  have "length F = unat n - unat a + 1 \<and>
    (\<forall>j \<le> unat n - unat a. \<exists>t. par (c_trans E) (snd (F ! j)) = (True, t) \<and> tr_id t = a + of_nat j \<and>
       log_entry E g (a + of_nat j) = Some t)"
    unfolding F_def by (rule log_entries_from)
      (use assms(1,2) an kv_entries_sorted [OF assms(1)] kv_get_entries [OF assms(1)] in \<open>simp_all add: es_def g_def n_def\<close>)
  then have len: "length F = unat n - unat a + 1"
    and F: "\<And>j. j \<le> unat n - unat a \<Longrightarrow> \<exists>t. par (c_trans E) (snd (F ! j)) = (True, t) \<and> tr_id t = a + of_nat j \<and>
       log_entry E g (a + of_nat j) = Some t" by blast+
  obtain e G where eG: "F = e # G" using len by (cases F) auto
  have lG: "length G = unat n - unat a" using len eG by simp
  have e: "fst (par (c_trans E) (snd e))" "tr_id (snd (par (c_trans E) (snd e))) = a"
    using F [of 0] eG by auto
  have Gj: "\<exists>t. par (c_trans E) (snd (G ! j)) = (True, t) \<and> tr_id t = a + 1 + of_nat j \<and>
       log_entry E g (a + 1 + of_nat j) = Some t" if "j < length G" for j
    using F [of "Suc j"] that lG eG by (simp add: add.assoc)
  have pre: "starts_with (log_key a) (take ZPDS_KEYID_LEN (log_key a))"
    by (metis append_take_drop_id starts_with_append)
  have tk: "take ZPDS_KEYID_LEN (log_key a) = ZPDS_FMT_ID_KEY K_LOGNODE"
    by (simp add: log_key_def EncodePrimaryKey_def ZPDS_KEYID_LEN_def)
  have sm: "seek_match es (log_key a) (take ZPDS_KEYID_LEN (log_key a)) = F"
    unfolding seek_match_filter [OF kv_entries_sorted [OF assms(1)] pre, of "db s", folded es_def] F_def
    by (simp only: tk log_key_like_def)
  have b: "unat (tl_lastid l) + length G < 2 ^ 64" "length G < 2 ^ 64"
    using lG an(2) unsigned_less [of n, where ?'a = nat] by (simp_all add: a_def [symmetric] word_le_nat_alt)
  define m where "m = min (length G) (unat (tl_limit l) + 1)"
  define l' where "l' = l\<lparr>tl_lastid := a + of_nat m,
         tl_trans := tl_trans l @ map (\<lambda>e. snd (par (c_trans E) (snd e))) (take m G)\<rparr>"
  have "readlog_loop E G l 0 = (l', of_nat m)"
    using readlog_loop_run [of G E l 0] Gj b by (auto simp: a_def [symmetric] l'_def m_def Let_def)
  then have loop: "readlog_loop E F l 0 = (l', of_nat m)"
    using e by (simp add: eG a_def [symmetric] case_prod_beta)
  have tr: "map (\<lambda>e. snd (par (c_trans E) (snd e))) (take m G) = log_run E g a m"
  proof (rule nth_equalityI)
    fix j assume "j < length (map (\<lambda>e. snd (par (c_trans E) (snd e))) (take m G))"
    then have j: "j < m" "j < length G" by auto
    with Gj [OF j(2)] show "map (\<lambda>e. snd (par (c_trans E) (snd e))) (take m G) ! j = log_run E g a m ! j"
      by (auto simp: log_run_def)
  qed (simp add: log_run_def m_def)
  have "m > 0" "m < 2 ^ 64" using lG an(1) b(2) by (auto simp: m_def word_less_nat_alt)
  then have nz: "(of_nat m :: 64 word) \<noteq> 0" by (simp add: word_of_nat_eq_0_iff nat_dvd_not_less)
  have k: "EncodePrimaryKey K_LOGNODE a = log_key a" by (simp add: log_key_def)
  have "a \<noteq> logcounter s" using an(1) by (auto simp: n_def)
  with an nz have "ReadLog E l s = (Inr (l'\<lparr>tl_currid := n, tl_ts := clock E (ticks s), tl_limit := of_nat m - 1\<rparr>), s\<lparr>ticks := ticks s + 1\<rparr>)"
    by (simp add: ReadLog_def bindA_def k es_def [symmetric] sm loop Let_def CURRTIME_MS_def n_def a_def [symmetric] not_less)
  also have "\<dots> = (Inr (l\<lparr>tl_lastid := a + of_nat m, tl_limit := of_nat m - 1,
        tl_trans := tl_trans l @ log_run E g a m, tl_currid := n, tl_ts := clock E (ticks s)\<rparr>), s\<lparr>ticks := ticks s + 1\<rparr>)"
    unfolding l'_def tr by simp
  finally show ?thesis
    unfolding Let_def m_def lG a_def [symmetric] n_def [symmetric] g_def [symmetric] .
qed

text \<open>C13: a reader that is behind is handed the entries that follow the one it has, in order and without
  a gap, one more than its limit at most, and is told the last number of the log.\<close>

theorem ReadLog_run:
  assumes "kv_ok E" and "log_ok E (kv_get E (db s)) (logcounter s)" and "tl_lastid l < logcounter s"
  shows "let m = min (unat (logcounter s) - unat (tl_lastid l)) (unat (tl_limit l) + 1) in
    ReadLog E l s = (Inr (l\<lparr>tl_lastid := tl_lastid l + of_nat m, tl_limit := of_nat m - 1,
        tl_trans := tl_trans l @ log_run E (kv_get E (db s)) (tl_lastid l) m,
        tl_currid := logcounter s, tl_ts := clock E (ticks s)\<rparr>), s\<lparr>ticks := ticks s + 1\<rparr>)"
  using assms by (rule ReadLog_run')

text \<open>A reader that has the whole log gets nothing, and one that is ahead is refused.\<close>

theorem ReadLog_end:
  "(tl_lastid l = logcounter s \<longrightarrow> ReadLog E l s =
      (Inr (l\<lparr>tl_ts := clock E (ticks s), tl_currid := logcounter s, tl_limit := 0\<rparr>), s\<lparr>ticks := ticks s + 1\<rparr>)) \<and>
   (tl_lastid l > logcounter s \<longrightarrow> ReadLog E l s = (Inl (BadDataException ''Remote Log Counter ahead'' 0), s))"
  by (simp add: ReadLog_def bindA_def CURRTIME_MS_def)

end
