(* ===== verification/Session.thy ===== *)
theory Session
  imports StoreTrans
begin

text \<open>
  Components \<open>AES128CBC\<close> with \<open>CryptoTraits\<close> (\<open>src/crypto\<close>), \<open>CredServiceBase\<close>, \<open>ExterCredService\<close>,
  \<open>UserCredService\<close> and \<open>HandleSession\<close> (\<open>src/store\<close>): the lookup of a user through the cache, the
  session token handed out for a password and its check. The virtual \<open>Get\<close> of \<open>CredServiceBase\<close> is
  an argument of the functions and the interface of the locale \<open>cred_service\<close>, interpreted for both
  services. Proved: a session that was handed out is accepted for its owner until it expires and
  for nobody else, a wrong password never gets one, and what the cache answers is what the store says.
\<close>

section \<open>Keys and tokens\<close>

definition ENCODEKEY_ALGO_AES128CBC :: string where
  "ENCODEKEY_ALGO_AES128CBC = ''aes-128-cbc''"

definition AES_LEN :: nat where "AES_LEN = 16"

text \<open>\<open>CryptoTraits::Create\<close> with one argument draws a new secret key, with three it decodes the one given;
  the object is its secret key.\<close>

definition Create_new :: "('b, 'd) env \<Rightarrow> string \<Rightarrow> (('b, 'd) shared, string) act" where
  "Create_new E algo =
     (if algo = ENCODEKEY_ALGO_AES128CBC then (\<lambda>s. (Inr (rand_str E (draws s) AES_LEN), s\<lparr>draws := draws s + 1\<rparr>))
      else raise (BadCodeException ''Bogus Algo in Create'' 0))"

definition Create_keys :: "('b, 'd) env \<Rightarrow> string \<Rightarrow> string \<Rightarrow> string res" where
  "Create_keys E algo skey =
     (if algo = ENCODEKEY_ALGO_AES128CBC then B64_Decode (b64 E) skey
      else Inl (BadCodeException ''Bogus Algo in Create 2 keys'' 0))"

text \<open>\<open>Encode\<close>: a random initial vector, followed by the encrypted text. \<open>Decode\<close>: what is left in the
  output, and whether it succeeded (which its caller ignores).\<close>

definition AES_Encode :: "('b, 'd) env \<Rightarrow> string \<Rightarrow> 'b \<Rightarrow> (('b, 'd) shared, bool \<times> string) act" where
  "AES_Encode E seckey input =
     (if length seckey \<noteq> AES_LEN then ret (False, [])
      else (\<lambda>s. let iv = rand_str E (draws s) AES_LEN in
             (Inr (True, iv @ aes_enc E seckey iv input), s\<lparr>draws := draws s + 1\<rparr>)))"

definition AES_Decode :: "('b, 'd) env \<Rightarrow> string \<Rightarrow> string \<Rightarrow> bool \<times> 'b" where
  "AES_Decode E seckey input =
     (if length seckey \<noteq> AES_LEN then (False, blank E)
      else if length input \<le> AES_LEN then (False, blank E)
      else aes_dec E seckey (take AES_LEN input) (drop AES_LEN input))"

lemma bindA_AES_Encode [run_simps]:
  "bindA (AES_Encode E k m) f s = (if length k \<noteq> AES_LEN then f (False, []) s
     else f (True, rand_str E (draws s) AES_LEN @ aes_enc E k (rand_str E (draws s) AES_LEN) m) (s\<lparr>draws := draws s + 1\<rparr>))"
  by (simp add: AES_Encode_def bindA_def Let_def)

section \<open>Looking up a user\<close>

text \<open>\<open>Pack\<close>: the fields of a user that go into the cache.\<close>

definition Exter_Pack :: "UserDataT \<Rightarrow> UserDataT" where
  "Exter_Pack data = UserDataT_new\<lparr>user_id := user_id data, user_signkey := user_signkey data,
     user_passkey := user_passkey data, user_manager := user_manager data, user_name := user_name data,
     user_is_admin := user_is_admin data, user_can_add_users := user_can_add_users data,
     user_can_add_tags := user_can_add_tags data, user_can_add_category := user_can_add_category data,
     user_can_add_items := user_can_add_items data, user_profiles := user_profiles data,
     user_locked := user_locked data, user_expired := user_expired data,
     user_is_deleted := user_is_deleted data\<rparr>"

definition User_Pack :: "UserDataT \<Rightarrow> UserDataT" where
  "User_Pack data = UserDataT_new\<lparr>user_id := user_id data, user_manager := user_manager data,
     user_signkey := user_signkey data, user_passkey := user_passkey data, user_name := user_name data,
     user_lang := user_lang data, user_is_invited := user_is_invited data,
     user_subscription := user_subscription data, user_categories := user_categories data,
     user_updated_at := user_updated_at data, user_locked := user_locked data,
     user_expired := user_expired data, user_is_deleted := user_is_deleted data\<rparr>"

definition exter_key :: "string \<Rightarrow> string" where
  "exter_key n = EncodeSecondaryKey U_EXTERDATA_NAME [AStr n]"

definition user_key :: "string \<Rightarrow> string" where
  "user_key n = EncodeSecondaryKey U_USERDATA_NAME [AStr n]"

definition user_cat_key :: "string \<Rightarrow> string \<Rightarrow> string" where
  "user_cat_key n c = EncodeSecondaryKey F_USERDATA_NAME_CATEGORY [AStr n, AStr c]"

definition Exter_Get :: "('b, 'd) env \<Rightarrow> UserDataT \<Rightarrow> (('b, 'd) shared, UserDataT) act" where
  "Exter_Get E data =
     bindA (bindA (readA (\<lambda>s. GetAssoc (exter_key (user_name data)) (dbcache s))) (\<lambda>c.
       case c of Some temp \<Rightarrow> ret (par (c_user E) temp)
       | None \<Rightarrow> bindA (liftR (\<lambda>s. GetOne E (ExterDataTable E) (kv_get E (db s)) data U_EXTERDATA_NAME)) (\<lambda>(found, d).
           if found then bindA (SetCache (exter_key (user_name d)) (ser (c_user E) (Exter_Pack d))) (\<lambda>_. ret (True, d))
           else ret (False, d))))
     (\<lambda>(found, d). ret (if found then d\<lparr>user_keytype := K_EXTERDATA\<rparr> else d\<lparr>user_notfound := True\<rparr>))"

definition User_Get :: "('b, 'd) env \<Rightarrow> UserDataT \<Rightarrow> (('b, 'd) shared, UserDataT) act" where
  "User_Get E data =
     bindA (bindA (readA (\<lambda>s. GetAssoc (user_key (user_name data)) (dbcache s))) (\<lambda>c.
       case c of Some temp \<Rightarrow> ret (par (c_user E) temp)
       | None \<Rightarrow> bindA (liftR (\<lambda>s. GetOne E (UserDataTable E) (kv_get E (db s)) data U_USERDATA_NAME)) (\<lambda>(found, d).
           if found then
             bindA (SetCache (user_key (user_name d)) (ser (c_user E) (User_Pack d))) (\<lambda>_.
             bindA (foldA (\<lambda>c _. SetCache (user_cat_key (user_name d) c) (of_str E (to_dec (unat (user_updated_at d)))))
                      (user_categories d) ()) (\<lambda>_. ret (True, d)))
           else ret (False, d))))
     (\<lambda>(found, d). ret (if found then d\<lparr>user_keytype := K_USERDATA\<rparr> else d\<lparr>user_notfound := True\<rparr>))"

text \<open>\<open>ValidateUserCategories\<close>: whether the cache has one of the categories for the user as of its last
  update.\<close>

definition ValidateUserCategories :: "('b, 'd) env \<Rightarrow> UserDataT \<Rightarrow> string list \<Rightarrow> (('b, 'd) shared, bool \<times> UserDataT) act" where
  "ValidateUserCategories E data categories =
     bindA (if user_id data = 0 then User_Get E data else ret data) (\<lambda>d.
       if user_notfound d \<or> user_is_deleted d then ret (False, d)
       else readA (\<lambda>s. (\<exists>c \<in> set categories. GetAssoc (user_cat_key (user_name d) c) (dbcache s) =
              Some (of_str E (to_dec (unat (user_updated_at d)))), d)))"

section \<open>Sessions\<close>

definition ZPDS_SESSION_LIFETIME_MS :: "64 word" where
  "ZPDS_SESSION_LIFETIME_MS = 10 * 86400 * 1000"

type_synonym ('b, 'd) user_get = "UserDataT \<Rightarrow> (('b, 'd) shared, UserDataT) act"

definition GetSession :: "('b, 'd) env \<Rightarrow> ('b, 'd) user_get \<Rightarrow> LoginRespT \<Rightarrow> (('b, 'd) shared, LoginRespT) act" where
  "GetSession E get data =
     bindA (throwIf (lr_username data = []) (InitialException ''username variable needed for exter session'' M_INVALID_PARAM)) (\<lambda>_.
     bindA (throwIf (lr_password data = []) (InitialException ''password variable needed for exter session'' M_INVALID_PARAM)) (\<lambda>_.
     bindA (get (UserDataT_new\<lparr>user_name := lr_username data\<rparr>)) (\<lambda>user.
     bindA (throwIf (user_notfound user \<or> user_passkey user \<noteq> lr_password data)
              (BadDataException ''No such user or Invalid passkey'' M_INVALID_PARAM)) (\<lambda>_.
     bindA (CURRTIME_MS E) (\<lambda>now.
     bindA (liftR (\<lambda>_. Create_keys E (sk_algo (user_signkey user)) (sk_seckey (user_signkey user)))) (\<lambda>signer.
     bindA (AES_Encode E signer (ser (c_user E) (session_msg (user_name user) now))) (\<lambda>(_, sessionkey).
     ret (data\<lparr>lr_sessionkey := sessionkey, lr_password := []\<rparr>))))))))"

definition CheckSessionBase :: "('b, 'd) env \<Rightarrow> ('b, 'd) user_get \<Rightarrow> UserDataT \<Rightarrow> (('b, 'd) shared, bool \<times> UserDataT) act" where
  "CheckSessionBase E get data0 =
     bindA (throwIf (user_name data0 = []) (InitialException ''username variable needed for exter check'' M_INVALID_PARAM)) (\<lambda>_.
     bindA (throwIf (user_sessionkey data0 = []) (InitialException ''sessionkey variable needed for exter check'' M_INVALID_PARAM)) (\<lambda>_.
     let sessionkey = user_sessionkey data0 in
     bindA (get data0) (\<lambda>data.
     bindA (throwIf (user_notfound data) (BadDataException ''No such user or Invalid session'' M_INVALID_PARAM)) (\<lambda>_.
     bindA (liftR (\<lambda>_. Create_keys E (sk_algo (user_signkey data)) (sk_seckey (user_signkey data)))) (\<lambda>signer.
     let xuser = snd (par (c_user E) (snd (AES_Decode E signer sessionkey))) in
     bindA (throwIf (user_name xuser \<noteq> user_name data) (BadDataException ''No such user or Invalid session'' M_INVALID_PARAM)) (\<lambda>_.
     bindA (CURRTIME_MS E) (\<lambda>currtime.
     bindA (throwIf (user_updated_at xuser > currtime) (BadDataException ''No such user or Invalid session'' M_INVALID_PARAM)) (\<lambda>_.
     bindA (throwIf (currtime - user_updated_at xuser > ZPDS_SESSION_LIFETIME_MS) (BadDataException ''Session Key has Expired'' M_INVALID_PARAM)) (\<lambda>_.
     ret (True, data))))))))))"

text \<open>\<open>HandleSession::CheckSession\<close>\<close>

definition CheckSession :: "('b, 'd) env \<Rightarrow> UserDataT \<Rightarrow> bool \<Rightarrow> (('b, 'd) shared, bool \<times> UserDataT) act" where
  "CheckSession E data onlyadmin =
     (if user_keytype data = K_EXTERDATA then CheckSessionBase E (Exter_Get E) data
      else if onlyadmin then ret (False, data)
      else if user_keytype data = K_USERDATA then CheckSessionBase E (User_Get E) data
      else ret (False, data))"

text \<open>The check every service begins with.\<close>

definition session_of :: "('b, 'd) env \<Rightarrow> string \<Rightarrow> string \<Rightarrow> keytype \<Rightarrow> bool \<Rightarrow> exn \<Rightarrow> (('b, 'd) shared, UserDataT) act" where
  "session_of E username sessionkey kt onlyadmin bad =
     bindA (CheckSession E (UserDataT_new\<lparr>user_name := username, user_sessionkey := sessionkey, user_keytype := kt\<rparr>) onlyadmin)
       (\<lambda>(ok, u). bindA (throwIf (\<not> ok) bad) (\<lambda>_. ret u))"

section \<open>The interface of a credential service\<close>

text \<open>The rights a lookup may claim for the record it returns: never more than the stored record has. The packed
  copy of the cache leaves some out.\<close>

definition grants :: "keytype \<Rightarrow> UserDataT \<Rightarrow> UserDataT \<Rightarrow> bool" where
  "grants kt u r \<longleftrightarrow> user_keytype r = kt \<and> user_id r = user_id u \<and> (user_is_admin r \<longrightarrow> user_is_admin u) \<and>
     (user_can_add_users r \<longrightarrow> user_can_add_users u) \<and> (user_can_add_tags r \<longrightarrow> user_can_add_tags u) \<and>
     (user_can_add_category r \<longrightarrow> user_can_add_category u) \<and> (user_can_add_items r \<longrightarrow> user_can_add_items u)"

text \<open>\<open>look s n u\<close>: the store of \<open>s\<close> has the record \<open>u\<close> of the name \<open>n\<close>; \<open>inv\<close> is what the service needs of
  the state (a consistent table and a cache that agrees with it). \<open>get\<close> may fill the cache and changes
  nothing else.\<close>

locale cred_service =
  fixes E :: "('b, 'd) env" and get :: "('b, 'd) user_get"
    and look :: "('b, 'd) shared \<Rightarrow> string \<Rightarrow> UserDataT \<Rightarrow> bool"
    and inv :: "('b, 'd) shared \<Rightarrow> bool" and kt :: keytype
  assumes get_found: "inv s \<Longrightarrow> look s (user_name d) u \<Longrightarrow>
      \<exists>r c. get d s = (Inr r, s\<lparr>dbcache := c\<rparr>) \<and> inv (s\<lparr>dbcache := c\<rparr>) \<and> \<not> user_notfound r \<and>
        user_name r = user_name d \<and> user_passkey r = user_passkey u \<and> user_signkey r = user_signkey u \<and> grants kt u r"
    and get_missing: "inv s \<Longrightarrow> (\<forall>u. \<not> look s (user_name d) u) \<Longrightarrow> \<exists>r. get d s = (Inr r, s) \<and> user_notfound r"
    and look_frame: "db s' = db s \<Longrightarrow> look s' = look s"
    and inv_frame: "db s' = db s \<Longrightarrow> dbcache s' = dbcache s \<Longrightarrow> inv s' \<longleftrightarrow> inv s"
begin

text \<open>The right password gets a token that carries the name and the time.\<close>

lemma GetSession_token:
  assumes "inv s" and "look s n u" and "user_passkey u = pw" and "n \<noteq> []" and "pw \<noteq> []"
    and "Create_keys E (sk_algo (user_signkey u)) (sk_seckey (user_signkey u)) = Inr key" and "length key = AES_LEN"
  shows "\<exists>c. GetSession E get \<lparr>lr_username = n, lr_password = pw, lr_sessionkey = old\<rparr> s =
    (Inr \<lparr>lr_username = n, lr_password = [], lr_sessionkey = rand_str E (draws s) AES_LEN @
        aes_enc E key (rand_str E (draws s) AES_LEN) (ser (c_user E) (session_msg n (clock E (ticks s))))\<rparr>,
     s\<lparr>dbcache := c, ticks := ticks s + 1, draws := draws s + 1\<rparr>) \<and> inv (s\<lparr>dbcache := c\<rparr>)"
proof -
  let ?d = "UserDataT_new\<lparr>user_name := n\<rparr>"
  have "look s (user_name ?d) u" using assms(2) by simp
  from get_found [OF assms(1) this] obtain r c where g: "get ?d s = (Inr r, s\<lparr>dbcache := c\<rparr>)" "inv (s\<lparr>dbcache := c\<rparr>)"
    and r: "\<not> user_notfound r" "user_name r = n" "user_passkey r = pw" "user_signkey r = user_signkey u"
    using assms(3) by auto
  show ?thesis
    using assms(4-7) g r by (intro exI [of _ c])
      (simp add: GetSession_def bindA_step [where m = "get ?d", OF g(1)] run_simps)
qed

text \<open>Without the right password there is no token.\<close>

lemma GetSession_refused:
  assumes "inv s" and "\<And>u. look s (lr_username lr) u \<Longrightarrow> user_passkey u \<noteq> lr_password lr"
  shows "\<exists>e s'. GetSession E get lr s = (Inl e, s') \<and> db s' = db s"
proof (cases "lr_username lr = [] \<or> lr_password lr = []")
  case True
  then show ?thesis by (auto simp: GetSession_def run_simps)
next
  case False
  let ?d = "UserDataT_new\<lparr>user_name := lr_username lr\<rparr>"
  show ?thesis
  proof (cases "\<exists>u. look s (lr_username lr) u")
    case True
    then obtain u where u: "look s (user_name ?d) u" by auto
    from get_found [OF assms(1) u] obtain r c where g: "get ?d s = (Inr r, s\<lparr>dbcache := c\<rparr>)" "user_passkey r = user_passkey u"
      by auto
    moreover have "user_passkey u \<noteq> lr_password lr" using assms(2) u by simp
    ultimately show ?thesis using False
      by (simp add: GetSession_def bindA_step [where m = "get ?d", OF g(1)] run_simps)
  next
    case none: False
    then obtain r where g: "get ?d s = (Inr r, s)" "user_notfound r" using get_missing [OF assms(1), of ?d] by auto
    then show ?thesis using False
      by (simp add: GetSession_def bindA_step [where m = "get ?d", OF g(1)] run_simps)
  qed
qed

text \<open>A token is accepted for its owner while it lives, and refused afterwards.\<close>

lemma CheckSession_token:
  assumes "inv s" and "look s (user_name d) u" and "user_name d \<noteq> []" and "pb_ok E" and "aes_ok E"
    and "Create_keys E (sk_algo (user_signkey u)) (sk_seckey (user_signkey u)) = Inr key" and "length key = AES_LEN"
    and "length iv = AES_LEN"
    and "user_sessionkey d = iv @ aes_enc E key iv (ser (c_user E) (session_msg (user_name d) t))"
  shows "\<exists>r c. CheckSessionBase E get d s =
    (if t > clock E (ticks s) then Inl (BadDataException ''No such user or Invalid session'' M_INVALID_PARAM)
     else if clock E (ticks s) - t > ZPDS_SESSION_LIFETIME_MS then Inl (BadDataException ''Session Key has Expired'' M_INVALID_PARAM)
     else Inr (True, r), s\<lparr>dbcache := c, ticks := ticks s + 1\<rparr>) \<and> user_name r = user_name d \<and> inv (s\<lparr>dbcache := c\<rparr>)"
proof -
  from get_found [OF assms(1,2)] obtain r c where g: "get d s = (Inr r, s\<lparr>dbcache := c\<rparr>)" "inv (s\<lparr>dbcache := c\<rparr>)"
    and r: "\<not> user_notfound r" "user_name r = user_name d" "user_signkey r = user_signkey u"
    by auto
  have ne: "user_sessionkey d \<noteq> []" using assms(8,9) by (auto simp: AES_LEN_def)
  have dec: "AES_Decode E key (user_sessionkey d) = (True, ser (c_user E) (session_msg (user_name d) t))"
    using assms(5,7-9) by (simp add: AES_Decode_def aes_ok_def AES_LEN_def)
  show ?thesis
    using assms(3,4,6) ne g r by (intro exI [of _ r] exI [of _ c])
      (simp add: CheckSessionBase_def bindA_step [where m = "get d", OF g(1)] run_simps dec Let_def session_msg_def)
qed

text \<open>Whoever is accepted is in the store, and the token, decoded with the key of that user, has the name.\<close>

lemma CheckSession_accepts:
  assumes "inv s" and "CheckSessionBase E get d s = (Inr (ok, r), s')"
  shows "ok \<and> user_name r = user_name d \<and> db s' = db s \<and> (\<exists>u key. look s (user_name d) u \<and> grants kt u r \<and>
    Create_keys E (sk_algo (user_signkey u)) (sk_seckey (user_signkey u)) = Inr key \<and>
    (let x = snd (par (c_user E) (snd (AES_Decode E key (user_sessionkey d)))) in
       user_name x = user_name d \<and> user_updated_at x \<le> clock E (ticks s) \<and>
       clock E (ticks s) - user_updated_at x \<le> ZPDS_SESSION_LIFETIME_MS))"
proof (cases "\<exists>u. look s (user_name d) u")
  case True
  then obtain u where u: "look s (user_name d) u" by auto
  from get_found [OF assms(1) u] obtain q c where g: "get d s = (Inr q, s\<lparr>dbcache := c\<rparr>)"
    and q: "\<not> user_notfound q" "user_name q = user_name d" "user_signkey q = user_signkey u" "grants kt u q" by auto
  show ?thesis
  proof (cases "Create_keys E (sk_algo (user_signkey u)) (sk_seckey (user_signkey u))")
    case (Inl e)
    then show ?thesis using assms(2) q
      by (auto simp: CheckSessionBase_def bindA_step [where m = "get d", OF g] run_simps Let_def split: if_splits)
  next
    case (Inr key)
    then show ?thesis using assms(2) q u unfolding Let_def
      by (intro conjI exI [of _ u] exI [of _ key])
        (auto simp: CheckSessionBase_def bindA_step [where m = "get d", OF g] run_simps Let_def split: if_splits)
  qed
next
  case False
  then obtain q where g: "get d s = (Inr q, s)" "user_notfound q" using get_missing [OF assms(1), of d] by auto
  then show ?thesis
    using assms(2) by (auto simp: CheckSessionBase_def bindA_step [where m = "get d", OF g(1)] run_simps Let_def split: if_splits)
qed

end

section \<open>The two services provide it\<close>

context table_laws
begin

lemma unique_owner:
  assumes "wf_table E T g" and "u \<in> set (unique_keys T)" and "abs_table T g i = Some x" and "abs_table T g j = Some y"
    and "GetKey T x u False = GetKey T y u False"
  shows "i = j \<and> x = y"
proof -
  have "node_at E T g (GetKey T x u False) i" "node_at E T g (GetKey T y u False) j"
    using assms(1-4) unfolding wf_table_def index_complete_def by blast+
  then have "i = j" using assms(5) by (auto simp: node_at_def)
  with assms(3,4) show ?thesis by simp
qed

end

definition has_user :: "(UserDataT, 'b) table \<Rightarrow> 'b lookup \<Rightarrow> string \<Rightarrow> UserDataT \<Rightarrow> bool" where
  "has_user T g n u \<longleftrightarrow> (\<exists>i. abs_table T g i = Some u \<and> user_name u = n)"

text \<open>The cache agrees with the table: what it has under the key of a name is the packed record of that name.\<close>

definition coherent :: "('b, 'd) env \<Rightarrow> (UserDataT, 'b) table \<Rightarrow> (string \<Rightarrow> string) \<Rightarrow> (UserDataT \<Rightarrow> UserDataT) \<Rightarrow> ('b, 'd) shared \<Rightarrow> bool" where
  "coherent E T key pack s \<longleftrightarrow> (\<forall>n v. dbcache s (key n) = Some v \<longrightarrow>
     (\<exists>u. has_user T (kv_get E (db s)) n u \<and> v = ser (c_user E) (pack u)))"

definition exter_inv :: "('b, 'd) env \<Rightarrow> ('b, 'd) shared \<Rightarrow> bool" where
  "exter_inv E s \<longleftrightarrow> pb_ok E \<and> wf_table E (ExterDataTable E) (kv_get E (db s)) \<and> coherent E (ExterDataTable E) exter_key Exter_Pack s"

definition user_inv :: "('b, 'd) env \<Rightarrow> ('b, 'd) shared \<Rightarrow> bool" where
  "user_inv E s \<longleftrightarrow> pb_ok E \<and> wf_table E (UserDataTable E) (kv_get E (db s)) \<and> coherent E (UserDataTable E) user_key User_Pack s"

lemma exter_key_inject [simp]: "exter_key n = exter_key m \<longleftrightarrow> n = m"
  by (simp add: exter_key_def EncodeSecondaryKey_str_inject)

lemma user_key_inject [simp]: "user_key n = user_key m \<longleftrightarrow> n = m"
  by (simp add: user_key_def EncodeSecondaryKey_str_inject)

lemma user_cat_key_neq [simp]: "user_cat_key n c \<noteq> user_key m"
  by (simp add: user_cat_key_def user_key_def EncodeSecondaryKey_type_inject byte_keytype_def keytype_defs)

lemma Pack_simps [simp]:
  "user_name (Exter_Pack u) = user_name u" "user_passkey (Exter_Pack u) = user_passkey u"
  "user_signkey (Exter_Pack u) = user_signkey u" "user_notfound (Exter_Pack u) = False"
  "user_name (User_Pack u) = user_name u" "user_passkey (User_Pack u) = user_passkey u"
  "user_signkey (User_Pack u) = user_signkey u" "user_notfound (User_Pack u) = False"
  by (simp_all add: Exter_Pack_def User_Pack_def UserDataT_new_def)

lemma exter_lookup:
  assumes "wf_table E (ExterDataTable E) g"
  shows "(\<exists>u. has_user (ExterDataTable E) g (user_name d) u \<and> \<not> user_notfound u \<and> GetOne E (ExterDataTable E) g d U_EXTERDATA_NAME = Inr (True, u)) \<or>
    (GetOne E (ExterDataTable E) g d U_EXTERDATA_NAME = Inr (False, d) \<and> (\<forall>u. \<not> has_user (ExterDataTable E) g (user_name d) u))"
  using exterdata_tbl.GetOne_unique [OF assms, of U_EXTERDATA_NAME d] exterdata_tbl.abs_table_rid [where E = E and g = g] assms
  by (auto simp: has_user_def EncodeSecondaryKey_str_inject wf_table_def)

lemma user_lookup:
  assumes "wf_table E (UserDataTable E) g"
  shows "(\<exists>u. has_user (UserDataTable E) g (user_name d) u \<and> \<not> user_notfound u \<and> GetOne E (UserDataTable E) g d U_USERDATA_NAME = Inr (True, u)) \<or>
    (GetOne E (UserDataTable E) g d U_USERDATA_NAME = Inr (False, d) \<and> (\<forall>u. \<not> has_user (UserDataTable E) g (user_name d) u))"
  using userdata_tbl.GetOne_unique [OF assms, of U_USERDATA_NAME d] userdata_tbl.abs_table_rid [where E = E and g = g] assms
  by (auto simp: has_user_def EncodeSecondaryKey_str_inject wf_table_def)

lemma has_user_unique:
  "wf_table E (ExterDataTable E) g \<Longrightarrow> has_user (ExterDataTable E) g n u \<Longrightarrow> has_user (ExterDataTable E) g n w \<Longrightarrow> u = w"
  "wf_table E (UserDataTable E) g \<Longrightarrow> has_user (UserDataTable E) g n u \<Longrightarrow> has_user (UserDataTable E) g n w \<Longrightarrow> u = w"
  using exterdata_tbl.unique_owner [where E = E and Ea = E and g = g and u = U_EXTERDATA_NAME] userdata_tbl.unique_owner [where E = E and Ea = E and g = g and u = U_USERDATA_NAME]
  by (auto simp: has_user_def)

lemma coherent_put:
  assumes "coherent E T key pack s" and "\<And>n m. key n = key m \<longleftrightarrow> n = m" and "has_user T (kv_get E (db s)) n u"
  shows "coherent E T key pack (s\<lparr>dbcache := (dbcache s)(key n \<mapsto> ser (c_user E) (pack u))\<rparr>)"
  using assms by (auto simp: coherent_def)

lemma Exter_Get_found:
  assumes "exter_inv E s" and "has_user (ExterDataTable E) (kv_get E (db s)) (user_name d) u"
  shows "\<exists>r c. Exter_Get E d s = (Inr r, s\<lparr>dbcache := c\<rparr>) \<and> exter_inv E (s\<lparr>dbcache := c\<rparr>) \<and> \<not> user_notfound r \<and>
    user_name r = user_name d \<and> user_passkey r = user_passkey u \<and> user_signkey r = user_signkey u \<and> grants K_EXTERDATA u r"
proof -
  let ?T = "ExterDataTable E" and ?g = "kv_get E (db s)"
  have pb: "pb_ok E" and wf: "wf_table E ?T ?g" and co: "coherent E ?T exter_key Exter_Pack s"
    using assms(1) by (simp_all add: exter_inv_def)
  have n: "user_name u = user_name d" using assms(2) by (auto simp: has_user_def)
  show ?thesis
  proof (cases "dbcache s (exter_key (user_name d))")
    case None
    from exter_lookup [OF wf, of d] assms(2) obtain w where w: "has_user ?T ?g (user_name d) w" "\<not> user_notfound w"
      "GetOne E ?T ?g d U_EXTERDATA_NAME = Inr (True, w)" by blast
    then have uw: "w = u" using has_user_unique(1) [OF wf] assms(2) by blast
    have "coherent E ?T exter_key Exter_Pack (s\<lparr>dbcache := (dbcache s)(exter_key (user_name u) \<mapsto> ser (c_user E) (Exter_Pack u))\<rparr>)"
      using coherent_put [OF co _ assms(2)] n by simp
    with w pb wf None n show ?thesis unfolding uw
      by (intro exI [of _ "u\<lparr>user_keytype := K_EXTERDATA\<rparr>"] exI [of _ "(dbcache s)(exter_key (user_name u) \<mapsto> ser (c_user E) (Exter_Pack u))"])
        (simp add: Exter_Get_def bindA_assoc GetAssoc_def run_simps grants_def SetCache_def SetAssoc_def exter_inv_def)
  next
    case (Some v)
    with co obtain w where w: "has_user ?T ?g (user_name d) w" "v = ser (c_user E) (Exter_Pack w)"
      by (auto simp: coherent_def)
    then have "w = u" using has_user_unique(1) [OF wf] assms(2) by blast
    with w pb Some n assms(1) show ?thesis
      by (intro exI [of _ "(Exter_Pack u)\<lparr>user_keytype := K_EXTERDATA\<rparr>"] exI [of _ "dbcache s"])
        (simp add: Exter_Get_def bindA_assoc GetAssoc_def, simp add: grants_def Exter_Pack_def UserDataT_new_def)
  qed
qed

lemma Exter_Get_missing:
  assumes "exter_inv E s" and "\<forall>u. \<not> has_user (ExterDataTable E) (kv_get E (db s)) (user_name d) u"
  shows "\<exists>r. Exter_Get E d s = (Inr r, s) \<and> user_notfound r"
proof -
  have wf: "wf_table E (ExterDataTable E) (kv_get E (db s))" and co: "coherent E (ExterDataTable E) exter_key Exter_Pack s"
    using assms(1) by (simp_all add: exter_inv_def)
  from exter_lookup [OF wf, of d] assms(2)
  have "GetOne E (ExterDataTable E) (kv_get E (db s)) d U_EXTERDATA_NAME = Inr (False, d)" by blast
  moreover have "dbcache s (exter_key (user_name d)) = None"
    using co assms(2) unfolding coherent_def by (metis option.exhaust)
  ultimately show ?thesis by (simp add: Exter_Get_def bindA_assoc GetAssoc_def run_simps)
qed

lemma foldA_SetCache:
  "foldA (\<lambda>c _. SetCache (k c) v) cs () s = (Inr (), s\<lparr>dbcache := fold (\<lambda>c m. m(k c \<mapsto> v)) cs (dbcache s)\<rparr>)"
  by (induction cs arbitrary: s) (simp_all add: SetCache_def run_simps SetAssoc_def)

lemma fold_update_other: "\<forall>c \<in> set cs. k c \<noteq> x \<Longrightarrow> fold (\<lambda>c m. m(k c \<mapsto> v)) cs m x = m x"
  by (induction cs arbitrary: m) auto

lemma User_Get_found:
  assumes "user_inv E s" and "has_user (UserDataTable E) (kv_get E (db s)) (user_name d) u"
  shows "\<exists>r c. User_Get E d s = (Inr r, s\<lparr>dbcache := c\<rparr>) \<and> user_inv E (s\<lparr>dbcache := c\<rparr>) \<and> \<not> user_notfound r \<and>
    user_name r = user_name d \<and> user_passkey r = user_passkey u \<and> user_signkey r = user_signkey u \<and> grants K_USERDATA u r"
proof -
  let ?T = "UserDataTable E" and ?g = "kv_get E (db s)"
  have pb: "pb_ok E" and wf: "wf_table E ?T ?g" and co: "coherent E ?T user_key User_Pack s"
    using assms(1) by (simp_all add: user_inv_def)
  have n: "user_name u = user_name d" using assms(2) by (auto simp: has_user_def)
  show ?thesis
  proof (cases "dbcache s (user_key (user_name d))")
    case None
    from user_lookup [OF wf, of d] assms(2) obtain w where w: "has_user ?T ?g (user_name d) w" "\<not> user_notfound w"
      "GetOne E ?T ?g d U_USERDATA_NAME = Inr (True, w)" by blast
    then have uw: "w = u" using has_user_unique(2) [OF wf] assms(2) by blast
    define c1 where "c1 = (dbcache s)(user_key (user_name u) \<mapsto> ser (c_user E) (User_Pack u))"
    define c where "c = fold (\<lambda>c m. m(user_cat_key (user_name u) c \<mapsto> of_str E (to_dec (unat (user_updated_at u))))) (user_categories u) c1"
    have "coherent E ?T user_key User_Pack (s\<lparr>dbcache := c1\<rparr>)"
      using coherent_put [OF co _ assms(2)] n by (simp add: c1_def)
    moreover have "c (user_key m) = c1 (user_key m)" for m
      unfolding c_def by (rule fold_update_other) simp
    ultimately have "coherent E ?T user_key User_Pack (s\<lparr>dbcache := c\<rparr>)" by (simp add: coherent_def)
    with w pb wf None n show ?thesis unfolding uw
      by (intro exI [of _ "u\<lparr>user_keytype := K_USERDATA\<rparr>"] exI [of _ c])
        (simp add: User_Get_def bindA_assoc GetAssoc_def run_simps grants_def SetCache_def [of "user_key (user_name d)"] SetAssoc_def user_inv_def
          bindA_step [OF foldA_SetCache] c_def c1_def)
  next
    case (Some v)
    with co obtain w where w: "has_user ?T ?g (user_name d) w" "v = ser (c_user E) (User_Pack w)"
      by (auto simp: coherent_def)
    then have "w = u" using has_user_unique(2) [OF wf] assms(2) by blast
    with w pb Some n assms(1) show ?thesis
      by (intro exI [of _ "(User_Pack u)\<lparr>user_keytype := K_USERDATA\<rparr>"] exI [of _ "dbcache s"])
        (simp add: User_Get_def bindA_assoc GetAssoc_def, simp add: grants_def User_Pack_def UserDataT_new_def)
  qed
qed

lemma User_Get_missing:
  assumes "user_inv E s" and "\<forall>u. \<not> has_user (UserDataTable E) (kv_get E (db s)) (user_name d) u"
  shows "\<exists>r. User_Get E d s = (Inr r, s) \<and> user_notfound r"
proof -
  have wf: "wf_table E (UserDataTable E) (kv_get E (db s))" and co: "coherent E (UserDataTable E) user_key User_Pack s"
    using assms(1) by (simp_all add: user_inv_def)
  from user_lookup [OF wf, of d] assms(2)
  have "GetOne E (UserDataTable E) (kv_get E (db s)) d U_USERDATA_NAME = Inr (False, d)" by blast
  moreover have "dbcache s (user_key (user_name d)) = None"
    using co assms(2) unfolding coherent_def by (metis option.exhaust)
  ultimately show ?thesis by (simp add: User_Get_def bindA_assoc GetAssoc_def run_simps)
qed

interpretation exter_cred: cred_service E "Exter_Get E" "\<lambda>s. has_user (ExterDataTable E) (kv_get E (db s))" "exter_inv E" K_EXTERDATA for E
proof
  show "\<exists>r c. Exter_Get E d s = (Inr r, s\<lparr>dbcache := c\<rparr>) \<and> exter_inv E (s\<lparr>dbcache := c\<rparr>) \<and> \<not> user_notfound r \<and>
      user_name r = user_name d \<and> user_passkey r = user_passkey u \<and> user_signkey r = user_signkey u \<and> grants K_EXTERDATA u r"
    if "exter_inv E s" "has_user (ExterDataTable E) (kv_get E (db s)) (user_name d) u" for s d u
    using that by (rule Exter_Get_found)
qed (auto intro: Exter_Get_missing simp: exter_inv_def coherent_def)

interpretation user_cred: cred_service E "User_Get E" "\<lambda>s. has_user (UserDataTable E) (kv_get E (db s))" "user_inv E" K_USERDATA for E
proof
  show "\<exists>r c. User_Get E d s = (Inr r, s\<lparr>dbcache := c\<rparr>) \<and> user_inv E (s\<lparr>dbcache := c\<rparr>) \<and> \<not> user_notfound r \<and>
      user_name r = user_name d \<and> user_passkey r = user_passkey u \<and> user_signkey r = user_signkey u \<and> grants K_USERDATA u r"
    if "user_inv E s" "has_user (UserDataTable E) (kv_get E (db s)) (user_name d) u" for s d u
    using that by (rule User_Get_found)
qed (auto intro: User_Get_missing simp: user_inv_def coherent_def)

section \<open>Round trip\<close>

text \<open>C15: a session handed out to an exter (whose key is one the program makes) is accepted by
  \<open>CheckSession\<close> in any later state with the same record, as long as the clock has not run back and the
  lifetime has not passed; afterwards it is refused as expired.\<close>

theorem exter_session_roundtrip:
  assumes "aes_ok E" and "exter_inv E s" and "has_user (ExterDataTable E) (kv_get E (db s)) n u"
    and "n \<noteq> []" and "user_passkey u = pw" and "pw \<noteq> []"
    and "Create_keys E (sk_algo (user_signkey u)) (sk_seckey (user_signkey u)) = Inr key" and "length key = AES_LEN"
    and "exter_inv E s2" and "has_user (ExterDataTable E) (kv_get E (db s2)) n u2" and "user_signkey u2 = user_signkey u"
  shows "\<exists>token s1. GetSession E (Exter_Get E) \<lparr>lr_username = n, lr_password = pw, lr_sessionkey = []\<rparr> s =
      (Inr \<lparr>lr_username = n, lr_password = [], lr_sessionkey = token\<rparr>, s1) \<and>
    (let now = clock E (ticks s2); t = clock E (ticks s);
         r = CheckSession E (UserDataT_new\<lparr>user_name := n, user_sessionkey := token, user_keytype := K_EXTERDATA\<rparr>) True s2 in
     if t > now then fst r = Inl (BadDataException ''No such user or Invalid session'' M_INVALID_PARAM)
     else if now - t > ZPDS_SESSION_LIFETIME_MS then fst r = Inl (BadDataException ''Session Key has Expired'' M_INVALID_PARAM)
     else \<exists>v. fst r = Inr (True, v) \<and> user_name v = n)"
proof -
  from exter_cred.GetSession_token [OF assms(2,3,5,4,6-8), of "[]"] obtain c where
    g: "GetSession E (Exter_Get E) \<lparr>lr_username = n, lr_password = pw, lr_sessionkey = []\<rparr> s =
      (Inr \<lparr>lr_username = n, lr_password = [], lr_sessionkey = rand_str E (draws s) AES_LEN @
          aes_enc E key (rand_str E (draws s) AES_LEN) (ser (c_user E) (session_msg n (clock E (ticks s))))\<rparr>,
       s\<lparr>dbcache := c, ticks := ticks s + 1, draws := draws s + 1\<rparr>)" by blast
  let ?iv = "rand_str E (draws s) AES_LEN"
  let ?tok = "?iv @ aes_enc E key ?iv (ser (c_user E) (session_msg n (clock E (ticks s))))"
  let ?d = "UserDataT_new\<lparr>user_name := n, user_sessionkey := ?tok, user_keytype := K_EXTERDATA\<rparr>"
  have iv: "length ?iv = AES_LEN" using assms(1) by (simp add: aes_ok_def)
  have pb: "pb_ok E" using assms(2) by (simp add: exter_inv_def)
  have k2: "Create_keys E (sk_algo (user_signkey u2)) (sk_seckey (user_signkey u2)) = Inr key" using assms(7,11) by simp
  from exter_cred.CheckSession_token [OF assms(9) _ _ pb assms(1) k2 assms(8) iv, of ?d "clock E (ticks s)"] assms(4,10)
  obtain r c2 where ch: "CheckSessionBase E (Exter_Get E) ?d s2 =
    (if clock E (ticks s) > clock E (ticks s2) then Inl (BadDataException ''No such user or Invalid session'' M_INVALID_PARAM)
     else if clock E (ticks s2) - clock E (ticks s) > ZPDS_SESSION_LIFETIME_MS then Inl (BadDataException ''Session Key has Expired'' M_INVALID_PARAM)
     else Inr (True, r), s2\<lparr>dbcache := c2, ticks := ticks s2 + 1\<rparr>)" "user_name r = n" by auto
  show ?thesis
  proof (intro exI conjI)
    show "GetSession E (Exter_Get E) \<lparr>lr_username = n, lr_password = pw, lr_sessionkey = []\<rparr> s =
      (Inr \<lparr>lr_username = n, lr_password = [], lr_sessionkey = ?tok\<rparr>, s\<lparr>dbcache := c, ticks := ticks s + 1, draws := draws s + 1\<rparr>)"
      by (rule g)
  qed (use ch in \<open>simp add: CheckSession_def Let_def\<close>)
qed

text \<open>C25: whoever passes the check as an exter is an exter of the store, and the token decoded with that
  exter's own key carries the name and a time within the lifetime.\<close>

theorem exter_session_sound:
  assumes "exter_inv E s" and "CheckSession E d True s = (Inr (True, r), s')"
  shows "user_name r = user_name d \<and> db s' = db s \<and> (\<exists>u key. has_user (ExterDataTable E) (kv_get E (db s)) (user_name d) u \<and>
    grants K_EXTERDATA u r \<and> Create_keys E (sk_algo (user_signkey u)) (sk_seckey (user_signkey u)) = Inr key \<and>
    (let x = snd (par (c_user E) (snd (AES_Decode E key (user_sessionkey d)))) in
       user_name x = user_name d \<and> user_updated_at x \<le> clock E (ticks s) \<and>
       clock E (ticks s) - user_updated_at x \<le> ZPDS_SESSION_LIFETIME_MS))"
proof -
  have "CheckSessionBase E (Exter_Get E) d s = (Inr (True, r), s')"
    using assms(2) by (auto simp: CheckSession_def split: if_splits)
  from exter_cred.CheckSession_accepts [OF assms(1) this] show ?thesis by blast
qed

text \<open>\<open>acts_as\<close>: whoever presents name and key is the stored user or exter of the name, with rights the record has;
  the key decodes, with the secret of that record, to the name and a time within the lifetime.\<close>

definition users_of :: "('b, 'd) env \<Rightarrow> keytype \<Rightarrow> (UserDataT, 'b) table" where
  "users_of E kt = (if kt = K_EXTERDATA then ExterDataTable E else UserDataTable E)"

definition acts_as :: "('b, 'd) env \<Rightarrow> ('b, 'd) shared \<Rightarrow> keytype \<Rightarrow> string \<Rightarrow> string \<Rightarrow> UserDataT \<Rightarrow> bool" where
  "acts_as E s kt name sessionkey w \<longleftrightarrow> user_name w = name \<and>
     (\<exists>u key. has_user (users_of E kt) (kv_get E (db s)) name u \<and> grants kt u w \<and>
        Create_keys E (sk_algo (user_signkey u)) (sk_seckey (user_signkey u)) = Inr key \<and>
        (let x = snd (par (c_user E) (snd (AES_Decode E key sessionkey))) in
           user_name x = name \<and> user_updated_at x \<le> clock E (ticks s) \<and>
           clock E (ticks s) - user_updated_at x \<le> ZPDS_SESSION_LIFETIME_MS))"

lemma session_of_sound:
  assumes "exter_inv E s" and "user_inv E s" and "session_of E name key kt onlyadmin bad s = (Inr w, s')"
  shows "acts_as E s kt name key w \<and> (kt = K_EXTERDATA \<or> kt = K_USERDATA \<and> \<not> onlyadmin)"
proof -
  let ?d = "UserDataT_new\<lparr>user_name := name, user_sessionkey := key, user_keytype := kt\<rparr>"
  from assms(3) have c: "CheckSession E ?d onlyadmin s = (Inr (True, w), s')"
    by (auto simp: session_of_def bindA_Inr_iff throwIf_Inr_iff)
  then consider (exter) "kt = K_EXTERDATA" "CheckSessionBase E (Exter_Get E) ?d s = (Inr (True, w), s')"
    | (user) "kt = K_USERDATA" "\<not> onlyadmin" "CheckSessionBase E (User_Get E) ?d s = (Inr (True, w), s')"
    by (auto simp: CheckSession_def ret_def split: if_splits)
  then show ?thesis
  proof cases
    case exter
    from exter_cred.CheckSession_accepts [OF assms(1) exter(2)] exter(1) show ?thesis
      by (auto simp: acts_as_def users_of_def)
  next
    case user
    from user_cred.CheckSession_accepts [OF assms(2) user(3)] user(1,2) show ?thesis
      by (auto simp: acts_as_def users_of_def keytype_defs)
  qed
qed

text \<open>A wrong password, or a name that is not in the store, is refused and writes nothing.\<close>

theorem exter_login_refused:
  assumes "exter_inv E s"
    and "\<And>u. has_user (ExterDataTable E) (kv_get E (db s)) (lr_username lr) u \<Longrightarrow> user_passkey u \<noteq> lr_password lr"
  shows "\<exists>e s'. GetSession E (Exter_Get E) lr s = (Inl e, s') \<and> db s' = db s"
  using assms by (rule exter_cred.GetSession_refused)

text \<open>A key the program makes is one the sessions can use.\<close>

lemma new_key_usable:
  assumes "aes_ok E" and "boost_ok (b64 E)"
  shows "\<exists>key. Create_new E ENCODEKEY_ALGO_AES128CBC s = (Inr key, s\<lparr>draws := draws s + 1\<rparr>) \<and> length key = AES_LEN \<and>
    Create_keys E ENCODEKEY_ALGO_AES128CBC (B64_Encode (b64 E) key) = Inr key"
  using assms by (simp add: Create_new_def Create_keys_def aes_ok_def B64_Decode_Encode)

end
