(* ===== verification/Samples.thy ===== *)
theory Samples
  imports LogLaws Session
begin

text \<open>
  A concrete store for the witnesses, in the environment \<open>toy_env\<close>: a log with its fence only
  (\<open>toy_state0\<close>), and the state after the transaction that adds the exter \<open>admin\<close> is committed
  (\<open>toy_state1\<close>).
\<close>

type_synonym toy_shared = "(toy, (string \<times> toy) list) shared"

definition toy_shared :: "(string \<times> toy) list \<Rightarrow> 64 word \<Rightarrow> toy_shared" where
  "toy_shared d n = \<lparr>db = d, maincounter = 20, logcounter = n, dbcache = (\<lambda>_. None), tmpcache = (\<lambda>_. None),
     is_master = True, is_ready = True, force_commit = False, no_xapian = False, sh_master = ''m:1'',
     hostname = ''h'', thisurl = ''h:1'', lastslave = [], shared_secret = ''s'', remotes = [], transactions = [],
     ticks = 0, draws = 0, sends = 0, outbox = [], xaplog = []\<rparr>"

lemma toy_shared_simps [simp]:
  "db (toy_shared d n) = d" "logcounter (toy_shared d n) = n" "dbcache (toy_shared d n) = (\<lambda>_. None)"
  "is_master (toy_shared d n)" "ticks (toy_shared d n) = 0" "draws (toy_shared d n) = 0" "lastslave (toy_shared d n) = []"
  "tmpcache (toy_shared d n) = (\<lambda>_. None)" "maincounter (toy_shared d n) = 20" "is_ready (toy_shared d n)"
  by (simp_all add: toy_shared_def)

definition toy_state0 :: toy_shared where
  "toy_state0 = toy_shared [(log_key 0, TBlank)] 0"

definition toy_admin :: UserDataT where
  "toy_admin = UserDataT_new\<lparr>user_id := 10, user_name := ''admin'', user_passkey := ''pw'', user_is_admin := True,
     user_signkey := \<lparr>sk_pubkey = [], sk_seckey = B64_Encode toy_b64 (replicate 16 (CHR ''k'')), sk_algo = ENCODEKEY_ALGO_AES128CBC\<rparr>\<rparr>"

definition toy_txn :: "toy TransactionT" where
  "toy_txn = TransactionT_new\<lparr>tr_item := record_items toy_env (ExterDataTable toy_env) toy_admin None\<rparr>"

definition toy_state1 :: toy_shared where
  "toy_state1 = toy_shared (db (snd (Commit toy_env 7 toy_txn True toy_state0))) 1"

lemma toy_writes [simp]: "writes_succeed toy_env"
  by (simp add: writes_succeed_def toy_env_def)

lemma toy_codecs [simp]:
  "par (c_trans toy_env) TBlank = (True, TransactionT_new)" "blank toy_env = TBlank"
  "ser (c_user toy_env) u = TUser u" "ser (c_node toy_env) n = TNode n" "clock toy_env m = of_nat (1000000 + m)"
  by (simp_all add: toy_env_def)

lemma toy_get0: "kv_get toy_env (db toy_state0) = [log_key 0 \<mapsto> TBlank]"
  by (simp add: toy_state0_def toy_env_def toy_entries_id)

lemma toy_log0: "log_ok toy_env (kv_get toy_env (db toy_state0)) 0"
  unfolding toy_get0 by (simp add: log_ok_def log_entry_def TransactionT_new_def split: if_splits)

lemma wf_table_blank: "wf_table E T (\<lambda>_. None)"
  by (simp add: wf_table_def records_ok_def primary_only_def index_complete_def index_sound_def abs_table_def)

lemma not_data_log: "\<not> data_key (log_key i)"
  by (simp add: data_key_def)

context table_laws
begin

lemma log_only_cong: "table_key T k \<Longrightarrow> [log_key i \<mapsto> v] k = None"
  using table_key_data [of k] not_data_log by auto

lemma wf_table_log_only: "wf_table E T [log_key i \<mapsto> v]"
proof -
  have "wf_table E T [log_key i \<mapsto> v] = wf_table E T (\<lambda>_. None)" by (rule wf_table_cong(1)) (rule log_only_cong)
  then show ?thesis using wf_table_blank by simp
qed

lemma abs_table_log_only: "abs_table T [log_key i \<mapsto> v] = (\<lambda>_. None)"
proof -
  have "abs_table T [log_key i \<mapsto> v] = abs_table T (\<lambda>_. None)" by (rule wf_table_cong(2)) (rule log_only_cong)
  also have "\<dots> = (\<lambda>_. None)" by (simp add: abs_table_def fun_eq_iff)
  finally show ?thesis .
qed

end

lemma toy_data_items: "data_items (logged 7 True (logcounter s + 1) toy_txn)"
  using exterdata_tbl.record_item_keys exterdata_tbl.table_key_data
  by (simp add: data_items_def logged_def toy_txn_def) blast

lemma toy_txn_ne: "tr_item toy_txn \<noteq> []"
  by (simp add: toy_txn_def record_items_def)

lemma toy_get1: "kv_get toy_env (db toy_state1) = commit_view toy_env (logged 7 True 1 toy_txn) (kv_get toy_env (db toy_state0))"
  using Commit_state [OF toy_kv_ok toy_writes toy_txn_ne refl, of 7 True toy_state0]
  by (simp add: toy_state1_def) (simp add: toy_state0_def)

lemma toy_log1: "log_ok toy_env (kv_get toy_env (db toy_state1)) 1"
  unfolding toy_get1 using log_ok_commit [OF toy_pb_ok toy_log0, of "logged 7 True 1 toy_txn"] toy_data_items [of toy_state0]
  by (simp add: toy_state0_def) (simp add: logged_def)

lemma toy_exter_view:
  assumes "table_key (ExterDataTable toy_env) k"
  shows "kv_get toy_env (db toy_state1) k = apply_items (tr_item toy_txn) (kv_get toy_env (db toy_state0)) k"
  using commit_view_data [OF exterdata_tbl.table_key_data [OF assms], of toy_env "logged 7 True 1 toy_txn"]
  by (simp add: toy_get1) (simp add: logged_def)

lemma toy_admin_simps [simp]:
  "user_id toy_admin = 10" "user_name toy_admin = ''admin''" "user_passkey toy_admin = ''pw''" "\<not> user_notfound toy_admin"
  "user_signkey toy_admin = \<lparr>sk_pubkey = [], sk_seckey = B64_Encode toy_b64 (replicate 16 (CHR ''k'')), sk_algo = ENCODEKEY_ALGO_AES128CBC\<rparr>"
  by (simp_all add: toy_admin_def UserDataT_new_def)

lemma toy_key: "Create_keys toy_env (sk_algo (user_signkey toy_admin)) (sk_seckey (user_signkey toy_admin)) = Inr (replicate 16 (CHR ''k''))"
  by (simp add: Create_keys_def toy_env_b64 B64_Decode_Encode [OF toy_boost_ok])

lemma toy_table1:
  "wf_table toy_env (ExterDataTable toy_env) (kv_get toy_env (db toy_state1)) \<and>
   abs_table (ExterDataTable toy_env) (kv_get toy_env (db toy_state1)) = [10 \<mapsto> toy_admin]"
proof -
  let ?T = "ExterDataTable toy_env" and ?g = "kv_get toy_env (db toy_state0)"
  have wf: "wf_table toy_env ?T ?g" and ab: "abs_table ?T ?g = (\<lambda>_. None)"
    unfolding toy_get0 by (rule exterdata_tbl.wf_table_log_only exterdata_tbl.abs_table_log_only)+
  have nc: "\<not> unique_clash toy_env ?T ?g toy_admin (unique_keys ?T) NodeT_new"
  proof -
    have "log_key 0 \<noteq> EncodeSecondaryKey U_EXTERDATA_NAME [AStr ''admin'']"
      using exterdata_tbl.table_key_data [of toy_env "EncodeSecondaryKey U_EXTERDATA_NAME [AStr ''admin'']"] not_data_log
      by (metis EncodeSecondaryKey_Cons ExterDataTable_simps(2) insertI2 list.set_intros(1) starts_with_append table_key_def)
    then show ?thesis unfolding toy_get0 unique_clash_iff [OF subset_refl] by simp
  qed
  have "wf_table toy_env ?T (apply_items (tr_item toy_txn) ?g)"
    using exterdata_tbl.wf_table_record [OF ExterDataTable_codecs wf _ _ nc refl] ab by (simp add: toy_txn_def)
  moreover have "abs_table ?T (apply_items (tr_item toy_txn) ?g) = [10 \<mapsto> toy_admin]"
    using exterdata_tbl.abs_table_record [OF ExterDataTable_codecs [OF toy_pb_ok], of toy_admin None ?g] ab
    by (simp add: toy_txn_def upd_abs_def)
  moreover have "wf_table toy_env ?T (kv_get toy_env (db toy_state1)) = wf_table toy_env ?T (apply_items (tr_item toy_txn) ?g)"
    by (rule exterdata_tbl.wf_table_cong(1)) (rule toy_exter_view)
  moreover have "abs_table ?T (kv_get toy_env (db toy_state1)) = abs_table ?T (apply_items (tr_item toy_txn) ?g)"
    by (rule exterdata_tbl.wf_table_cong(2)) (rule toy_exter_view)
  ultimately show ?thesis by simp
qed

lemma toy_has_admin: "has_user (ExterDataTable toy_env) (kv_get toy_env (db toy_state1)) ''admin'' u \<longleftrightarrow> u = toy_admin"
  using toy_table1 by (auto simp: has_user_def split: if_splits)

lemma toy_exter_inv: "exter_inv toy_env toy_state1"
  using toy_table1 by (simp add: exter_inv_def coherent_def) (simp add: toy_state1_def)

lemma toy_state1_simps [simp]:
  "logcounter toy_state1 = 1" "ticks toy_state1 = 0" "draws toy_state1 = 0" "is_master toy_state1" "dbcache toy_state1 = (\<lambda>_. None)"
  by (simp_all add: toy_state1_def)

end
