(* ===== verification/Replication.thy ===== *)
theory Replication
  imports LogLaws
begin

text \<open>
  Components \<open>RemoteKeeper\<close> (\<open>src/hrpc/RemoteKeeper.cc\<close>): the list of hosts and the election of a master,
  and \<open>SyncServer\<close> (\<open>src/hrpc/SyncServer.cc\<close>): how a slave follows the log of its master. The loops of the
  code end when the flag \<open>to_stop_sync\<close> is set, which another thread does by calling \<open>stop\<close>: the flag is
  part of the state of both functions, and the argument \<open>calls\<close> says when \<open>stop\<close> is called. The loops take fuel.
  The sleeps are left out.
\<close>

section \<open>Constants\<close>

definition ELECTION_MAX_RETRIES :: nat where "ELECTION_MAX_RETRIES = 10"
definition SYNCFIRST_CHUNK_SIZE :: "64 word" where "SYNCFIRST_CHUNK_SIZE = 5"
definition SYNCMASTER_CHUNK_SIZE :: "64 word" where "SYNCMASTER_CHUNK_SIZE = 5"
definition SYNCMASTER_FAILCOUNT_ONE :: nat where "SYNCMASTER_FAILCOUNT_ONE = 10"
definition SYNCMASTER_FAILCOUNT_TWO :: nat where "SYNCMASTER_FAILCOUNT_TWO = 20"

text \<open>\<open>SendToRemote\<close> as an action: the status and what the message holds afterwards.\<close>

definition sendA :: "('b, 'd) env \<Rightarrow> ('m, 'b) codec \<Rightarrow> string \<Rightarrow> int \<Rightarrow> 'm \<Rightarrow> bool \<Rightarrow> (('b, 'd) shared, bool \<times> 'm) act" where
  "sendA E c address service_id msg nothrow = (\<lambda>s.
     case SendToRemote E c address service_id msg nothrow s of
       ((Inl e, m), s') \<Rightarrow> (Inl e, s')
     | ((Inr status, m), s') \<Rightarrow> (Inr (status, m), s'))"

section \<open>\<open>RemoteKeeper\<close>\<close>

definition AddHost :: "string \<Rightarrow> 64 word \<Rightarrow> 64 word \<Rightarrow> (('b, 'd) shared, unit) act" where
  "AddHost name lc updated_at = updA (\<lambda>s. s\<lparr>remotes := AddOne name (lc, updated_at) (remotes s)\<rparr>)"

definition SetHosts :: "StateT \<Rightarrow> (('b, 'd) shared, unit) act" where
  "SetHosts state =
     (if sta_is_master state then
        (let rmap = fold (\<lambda>rms. AddOne (rem_address rms) (rem_logcounter rms, rem_updated_at rms)) (sta_remotes state) []
         in updA (\<lambda>s. s\<lparr>remotes := AddMany rmap (remotes s)\<rparr>))
      else updA (\<lambda>s. s\<lparr>remotes := AddOne (sta_thisurl state) (sta_logcounter state, sta_ts state) (remotes s)\<rparr>))"

definition GetHosts :: "('b, 'd) env \<Rightarrow> StateT \<Rightarrow> (('b, 'd) shared, StateT) act" where
  "GetHosts E state =
     bindA (CURRTIME_MS E) (\<lambda>now.
     readA (\<lambda>s.
       let st = state\<lparr>sta_hostname := hostname s, sta_master := sh_master s, sta_logcounter := logcounter s,
             sta_is_master := is_master s, sta_ts := now, sta_thisurl := thisurl s\<rparr>
       in if \<not> sta_is_master st then st
          else st\<lparr>sta_remotes := sta_remotes st @
            map (\<lambda>(a, lc, up). \<lparr>rem_address = a, rem_logcounter = lc, rem_updated_at = up\<rparr>) (remotes s)\<rparr>))"

text \<open>The message is sent to every host in turn; it is overwritten by each answer.\<close>

definition host_send :: "('b, 'd) env \<Rightarrow> string \<times> 64 word \<times> 64 word \<Rightarrow> StateT \<Rightarrow> (('b, 'd) shared, StateT) act" where
  "host_send E p state = bindA (sendA E (c_state E) (fst p) R_SETINFO state True) (\<lambda>(status, state'). ret state')"

definition HostUpdate :: "('b, 'd) env \<Rightarrow> (('b, 'd) shared, unit) act" where
  "HostUpdate E =
     bindA (GetHosts E StateT_new) (\<lambda>state.
     bindA (readA remotes) (\<lambda>hosts.
     bindA (foldA (host_send E) hosts state) (\<lambda>_.
     ret ())))"

text \<open>The election: \<open>elect_step\<close> is the body of the loop over the hosts.\<close>

definition elect_step :: "64 word \<Rightarrow> string \<times> 64 word \<times> 64 word \<Rightarrow> 64 word \<times> string \<Rightarrow> 64 word \<times> string" where
  "elect_step cutoff = (\<lambda>(address, lc, updated_at) (max_logcounter, newmaster).
     if updated_at < cutoff \<or> lc < max_logcounter \<or> address = newmaster then (max_logcounter, newmaster)
     else if lc > max_logcounter \<or> (lc = max_logcounter \<and> address > newmaster) then (lc, address)
     else (max_logcounter, newmaster))"

definition elect :: "64 word \<Rightarrow> (string \<times> 64 word \<times> 64 word) list \<Rightarrow> 64 word \<Rightarrow> string \<Rightarrow> string" where
  "elect cutoff hosts lc url = snd (fold (elect_step cutoff) hosts (lc, url))"

text \<open>Registering with the new master, \<open>n\<close> tries left.\<close>

fun register_loop :: "('b, 'd) env \<Rightarrow> string \<Rightarrow> nat \<Rightarrow> StateT \<Rightarrow> (('b, 'd) shared, unit) act" where
  "register_loop E newmaster 0 state = ret ()"
| "register_loop E newmaster (Suc n) state =
     bindA (sendA E (c_state E) newmaster R_REGISTER state True) (\<lambda>(status, state').
       if status then updA (\<lambda>s. s\<lparr>sh_master := newmaster\<rparr>)
       else register_loop E newmaster n state')"

definition MasterUpdate :: "('b, 'd) env \<Rightarrow> 64 word \<Rightarrow> (('b, 'd) shared, unit) act" where
  "MasterUpdate E cutoff =
     bindA (readA (\<lambda>s. elect cutoff (remotes s) (logcounter s) (thisurl s))) (\<lambda>newmaster.
     bindA (readA thisurl) (\<lambda>url.
     if newmaster = url then updA (\<lambda>s. s\<lparr>lastslave := [], is_master := True\<rparr>)
     else bindA (GetHosts E StateT_new) (register_loop E newmaster ELECTION_MAX_RETRIES)))"

section \<open>\<open>SyncServer\<close>\<close>

definition CompareLog :: "('b, 'd) env \<Rightarrow> string \<Rightarrow> (('b, 'd) shared, bool) act" where
  "CompareLog E address =
     bindA (readA logcounter) (\<lambda>old_logc.
     if old_logc = 0 then ret True
     else
       bindA (sendA E (c_trans E) address R_READONE (TransactionT_new\<lparr>tr_id := old_logc - 1\<rparr>) True) (\<lambda>(status, trans1).
       bindA (throwIf (\<not> status) (InitialException ''Cannot reach master for verification'' 0)) (\<lambda>_.
       bindA (throwIf (tr_notfound trans1) (InitialException ''Master does not have last log, mismatch'' 0)) (\<lambda>_.
       bindA (ReadOne E (TransactionT_new\<lparr>tr_id := old_logc - 1\<rparr>)) (\<lambda>trans2.
       bindA (throwIf (tr_notfound trans2) (InitialException ''This instance does not have last log, mismatch'' 0)) (\<lambda>_.
       ret (tr_ts trans1 = tr_ts trans2)))))))"

text \<open>The transactions of an answer are committed as a slave until one is out of order. The constructor of
  \<open>StoreTrans\<close> without a time leaves it zero; a slave does not use it.\<close>

fun commit_received :: "('b, 'd) env \<Rightarrow> 'b TransactionT list \<Rightarrow> (('b, 'd) shared, unit) act" where
  "commit_received E [] = ret ()"
| "commit_received E (t # ts) =
     bindA (readA logcounter) (\<lambda>logc.
       if tr_id t \<noteq> logc + 1 then ret ()
       else bindA (Commit E 0 t False) (\<lambda>_. commit_received E ts))"

text \<open>The request for the log.\<close>

definition log_request :: "('b, 'd) env \<Rightarrow> 64 word \<Rightarrow> (('b, 'd) shared, 'b TransListT) act" where
  "log_request E limit =
     bindA (readA thisurl) (\<lambda>url.
     bindA (CURRTIME_MS E) (\<lambda>now.
     bindA (readA logcounter) (\<lambda>logc.
     ret (TransListT_new\<lparr>tl_endpoint := url, tl_ts := now, tl_lastid := logc, tl_limit := limit\<rparr>))))"

text \<open>The flag \<open>to_stop_sync\<close>, a \<open>SharedBool\<close>, with the number of times this thread has used it: that is its
  clock. \<open>calls i\<close>: another thread calls \<open>stop\<close>, which is \<open>to_stop_sync.Set(true)\<close>, between the accesses \<open>i - 1\<close>
  and \<open>i\<close> of this thread. A \<open>Get\<close> sees the value this thread left and the calls since; a \<open>Set\<close> overwrites both.\<close>

type_synonym stop_flag = "bool \<times> nat"

definition flag_get :: "(nat \<Rightarrow> bool) \<Rightarrow> stop_flag \<Rightarrow> stop_flag" where
  "flag_get calls = (\<lambda>(f, i). (f \<or> calls i, i + 1))"

definition flag_set :: "bool \<Rightarrow> stop_flag \<Rightarrow> stop_flag" where
  "flag_set b = (\<lambda>(f, i). (b, i + 1))"

text \<open>One round of the first loop of \<open>SyncFirst\<close>: whether it was the last one.\<close>

definition SyncFirst_round :: "('b, 'd) env \<Rightarrow> (('b, 'd) shared, bool) act" where
  "SyncFirst_round E =
     bindA (log_request E SYNCFIRST_CHUNK_SIZE) (\<lambda>req.
     bindA (readA sh_master) (\<lambda>m.
     bindA (sendA E (c_tlist E) m R_TRANSLOG req False) (\<lambda>(status, data).
     bindA (commit_received E (tl_trans data)) (\<lambda>_.
     ret (tl_lastid data = tl_currid data)))))"

fun SyncFirst_loop :: "('b, 'd) env \<Rightarrow> (nat \<Rightarrow> bool) \<Rightarrow> nat \<Rightarrow> stop_flag \<Rightarrow> ('b, 'd) shared \<Rightarrow>
    (unit res \<times> stop_flag \<times> ('b, 'd) shared) option" where
  "SyncFirst_loop E calls 0 fl s = None"
| "SyncFirst_loop E calls (Suc fuel) fl s =
     (let fl' = flag_get calls fl in
      if fst fl' then Some (Inr (), fl', s)
      else case SyncFirst_round E s of
        (Inl e, s') \<Rightarrow> Some (Inl e, fl', s')
      | (Inr fin, s') \<Rightarrow> if fin then Some (Inr (), fl', s') else SyncFirst_loop E calls fuel fl' s')"

text \<open>The second loop looks for the master, \<open>tolcount\<close> hops from the machine pointed to.\<close>

definition register_once :: "('b, 'd) env \<Rightarrow> (('b, 'd) shared, bool) act" where
  "register_once E =
     bindA (CURRTIME_MS E) (\<lambda>now.
     bindA (readA (\<lambda>s. StateT_new\<lparr>sta_hostname := hostname s, sta_master := sh_master s, sta_logcounter := logcounter s,
             sta_is_master := is_master s, sta_ts := now, sta_thisurl := thisurl s\<rparr>)) (\<lambda>sstate.
     bindA (readA sh_master) (\<lambda>m.
     bindA (sendA E (c_state E) m R_REGISTER sstate False) (\<lambda>(status, st).
     bindA (if sta_is_master st then SetHosts st else updA (\<lambda>s. s\<lparr>sh_master := sta_master st\<rparr>)) (\<lambda>_.
     ret (sta_is_master st))))))"

function find_master :: "('b, 'd) env \<Rightarrow> nat \<Rightarrow> (('b, 'd) shared, unit) act" where
  "find_master E tolcount =
     bindA (register_once E) (\<lambda>found.
       if tolcount + 1 > 2 then raise (InitialException ''the pointed machine is not 1 hop away from master'' 0)
       else if \<not> found then find_master E (tolcount + 1) else ret ())"
  by pat_completeness auto

termination
  by (relation "measure (\<lambda>(E, t). 3 - t)") auto

declare find_master.simps [simp del]

definition SyncFirst :: "('b, 'd) env \<Rightarrow> (nat \<Rightarrow> bool) \<Rightarrow> nat \<Rightarrow> stop_flag \<Rightarrow> ('b, 'd) shared \<Rightarrow>
    (unit res \<times> stop_flag \<times> ('b, 'd) shared) option" where
  "SyncFirst E calls fuel fl s =
     (if is_master s then Some (Inr (), fl, s)
      else case CompareLog E (sh_master s) s of
        (Inl e, s1) \<Rightarrow> Some (Inl e, fl, s1)
      | (Inr ok, s1) \<Rightarrow>
          if \<not> ok then Some (Inl (InitialException ''Master Slave log mismatch'' 0), fl, s1)
          else case SyncFirst_loop E calls fuel (flag_set False fl) s1 of
            None \<Rightarrow> None
          | Some (Inl e, fl2, s2) \<Rightarrow> Some (Inl e, fl2, s2)
          | Some (Inr _, fl2, s2) \<Rightarrow> (case find_master E 0 s2 of (r, s3) \<Rightarrow> Some (r, fl2, s3)))"

text \<open>The transactions pushed by the master: \<open>logc\<close> and \<open>localup\<close> count, \<open>n\<close> bounds the rounds by the size of
  the map.\<close>

fun local_updates :: "('b, 'd) env \<Rightarrow> (64 word \<times> 'b) list \<Rightarrow> nat \<Rightarrow> 64 word \<Rightarrow> (('b, 'd) shared, unit) act" where
  "local_updates E tmap 0 logc = ret ()"
| "local_updates E tmap (Suc n) logc =
     (case map_of tmap (logc + 1) of
        None \<Rightarrow> ret ()
      | Some v \<Rightarrow> (case par (c_trans E) v of (ok, t) \<Rightarrow>
          if \<not> ok then ret ()
          else bindA (Commit E 0 t False) (\<lambda>_. local_updates E tmap n (logc + 1))))"

definition take_buffered :: "('b, 'd) env \<Rightarrow> (('b, 'd) shared, unit) act" where
  "take_buffered E =
     bindA (readA (\<lambda>s. Swap [] (transactions s))) (\<lambda>(tmap, rest).
     bindA (updA (\<lambda>s. s\<lparr>transactions := rest\<rparr>)) (\<lambda>_.
     bindA (readA logcounter) (\<lambda>logc.
     local_updates E tmap (length tmap) logc)))"

text \<open>One round of \<open>SyncFromMaster\<close> with the number of failures so far and the time of the first one; the
  result is the state of the next round, or nothing when this host has become the master. (The test
  \<open>data.trans_size() > 0\<close> after the buffered transactions is never true: \<open>data\<close> was just cleared.)\<close>

definition SyncFromMaster_round :: "('b, 'd) env \<Rightarrow> nat \<times> 64 word \<Rightarrow> (('b, 'd) shared, (nat \<times> 64 word) option) act" where
  "SyncFromMaster_round E = (\<lambda>(failcount, faildetected).
     bindA (readA (\<lambda>s. length (transactions s) > 0)) (\<lambda>buffered.
     bindA (if buffered then take_buffered E else ret ()) (\<lambda>_.
     bindA (log_request E SYNCMASTER_CHUNK_SIZE) (\<lambda>req.
     bindA (readA sh_master) (\<lambda>m.
     bindA (sendA E (c_tlist E) m R_TRANSLOG req True) (\<lambda>(status, data).
     if status then bindA (commit_received E (tl_trans data)) (\<lambda>_. ret (Some (0, faildetected)))
     else if failcount + 1 = 1 then bindA (CURRTIME_MS E) (\<lambda>now. ret (Some (failcount + 1, now)))
     else if failcount + 1 = SYNCMASTER_FAILCOUNT_ONE then bindA (HostUpdate E) (\<lambda>_. ret (Some (failcount + 1, faildetected)))
     else if failcount + 1 = SYNCMASTER_FAILCOUNT_TWO then
       bindA (MasterUpdate E faildetected) (\<lambda>_.
       bindA (readA is_master) (\<lambda>im. ret (if im then None else Some (failcount + 1, faildetected))))
     else ret (Some (failcount + 1, faildetected))))))))"

fun SyncFromMaster_loop :: "('b, 'd) env \<Rightarrow> (nat \<Rightarrow> bool) \<Rightarrow> nat \<Rightarrow> stop_flag \<Rightarrow> nat \<times> 64 word \<Rightarrow> ('b, 'd) shared \<Rightarrow>
    (unit res \<times> stop_flag \<times> ('b, 'd) shared) option" where
  "SyncFromMaster_loop E calls 0 fl fc s = None"
| "SyncFromMaster_loop E calls (Suc fuel) fl fc s =
     (let fl' = flag_get calls fl in
      if fst fl' then Some (Inr (), fl', s)
      else case SyncFromMaster_round E fc s of
        (Inl e, s') \<Rightarrow> Some (Inl e, fl', s')
      | (Inr None, s') \<Rightarrow> Some (Inr (), flag_set True fl', s')
      | (Inr (Some fc'), s') \<Rightarrow> SyncFromMaster_loop E calls fuel fl' fc' s')"

text \<open>Here the flag is cleared before the log is compared.\<close>

definition SyncFromMaster :: "('b, 'd) env \<Rightarrow> (nat \<Rightarrow> bool) \<Rightarrow> nat \<Rightarrow> stop_flag \<Rightarrow> ('b, 'd) shared \<Rightarrow>
    (unit res \<times> stop_flag \<times> ('b, 'd) shared) option" where
  "SyncFromMaster E calls fuel fl s =
     (if is_master s then Some (Inr (), fl, s)
      else let fl1 = flag_set False fl in
        case CompareLog E (sh_master s) s of
          (Inl e, s1) \<Rightarrow> Some (Inl e, fl1, s1)
        | (Inr ok, s1) \<Rightarrow>
            if \<not> ok then Some (Inl (InitialException ''Master Slave log mismatch'' 0), fl1, s1)
            else SyncFromMaster_loop E calls fuel fl1 (0, 0) s1)"

text \<open>What \<open>init\<close> starts on a slave: \<open>SyncFirst\<close>, then \<open>SyncFromMaster\<close> in a thread of its own (what an exception of
  the latter does to that thread is left out, and so is \<open>MasterLoop\<close>, which does nothing). On a master nothing is
  synchronised.\<close>

definition init_sync :: "('b, 'd) env \<Rightarrow> (nat \<Rightarrow> bool) \<Rightarrow> nat \<Rightarrow> string \<Rightarrow> stop_flag \<Rightarrow> ('b, 'd) shared \<Rightarrow>
    (unit res \<times> stop_flag \<times> ('b, 'd) shared) option" where
  "init_sync E calls fuel url fl s0 =
     (let s = s0\<lparr>thisurl := url\<rparr> in
      if is_master s then Some (Inr (), fl, s)
      else case SyncFirst E calls fuel fl s of
        None \<Rightarrow> None
      | Some (Inl e, fl1, s1) \<Rightarrow> Some (Inl e, fl1, s1)
      | Some (Inr _, fl1, s1) \<Rightarrow> SyncFromMaster E calls fuel fl1 s1)"

end
