(* ===== verification/ServiceDefine.thy ===== *)
theory ServiceDefine
  imports Session
begin

text \<open>
  The constants of \<open>include/store/ServiceDefine.hh\<close> (actions, permissions of writers and readers, fields
  of the messages and who may write or read them), as the bit sets the code makes of them, and the
  filters of \<open>src/store/HandleGeneric.cc\<close>.
\<close>

unbundle bit_operations_syntax

section \<open>Constants\<close>

definition ZPDS_MAX_PROFILE_RULES :: int where "ZPDS_MAX_PROFILE_RULES = 10"
definition ZPDS_MAX_RULE_WEIGHT :: int where "ZPDS_MAX_RULE_WEIGHT = 1000"
definition ZPDS_FORBIDDEN_USERNAMES :: "string list" where "ZPDS_FORBIDDEN_USERNAMES = [''admin'', ''root'', ''superuser'', ''system'']"
definition ZPDS_UACTION_NONE :: int where "ZPDS_UACTION_NONE = 0"
definition ZPDS_UACTION_CREATE :: int where "ZPDS_UACTION_CREATE = 1"
definition ZPDS_UACTION_UPSERT :: int where "ZPDS_UACTION_UPSERT = 2"
definition ZPDS_UACTION_UPDATE :: int where "ZPDS_UACTION_UPDATE = 4"
definition ZPDS_UACTION_DELETE :: int where "ZPDS_UACTION_DELETE = 8"
definition ZPDS_UACTION_READ :: int where "ZPDS_UACTION_READ = 16"
definition ZPDS_WRITR_IS_SELF :: int where "ZPDS_WRITR_IS_SELF = 1"
definition ZPDS_WRITR_IS_ADMIN :: int where "ZPDS_WRITR_IS_ADMIN = 2"
definition ZPDS_WRITR_CREATING :: int where "ZPDS_WRITR_CREATING = 4"
definition ZPDS_WRITR_UPDATING :: int where "ZPDS_WRITR_UPDATING = 8"
definition ZPDS_WRITR_DELETING :: int where "ZPDS_WRITR_DELETING = 16"
definition ZPDS_READR_IS_SELF :: int where "ZPDS_READR_IS_SELF = 1"
definition ZPDS_READR_IS_ADMIN :: int where "ZPDS_READR_IS_ADMIN = 2"
definition ZPDS_READR_IS_CREATR :: int where "ZPDS_READR_IS_CREATR = 4"
definition ZPDS_READR_IS_EXTER :: int where "ZPDS_READR_IS_EXTER = 8"
definition ZPDS_READR_IS_USER :: int where "ZPDS_READR_IS_USER = 16"
definition ZPDS_READR_IS_PUBLIC :: int where "ZPDS_READR_IS_PUBLIC = 32"
definition ZPDS_UDFLD_NONE :: int where "ZPDS_UDFLD_NONE = 0"
definition ZPDS_UDFLD_SIGNKEY :: int where "ZPDS_UDFLD_SIGNKEY = 1"
definition ZPDS_UDFLD_PASSKEY :: int where "ZPDS_UDFLD_PASSKEY = 2"
definition ZPDS_UDFLD_ROLE :: int where "ZPDS_UDFLD_ROLE = 4"
definition ZPDS_UDFLD_INFO :: int where "ZPDS_UDFLD_INFO = 8"
definition ZPDS_UDFLD_GNAME :: int where "ZPDS_UDFLD_GNAME = 16"
definition ZPDS_UDFLD_MOBILE :: int where "ZPDS_UDFLD_MOBILE = 32"
definition ZPDS_UDFLD_EMAIL :: int where "ZPDS_UDFLD_EMAIL = 64"
definition ZPDS_UDFLD_PROFILES :: int where "ZPDS_UDFLD_PROFILES = 128"
definition ZPDS_UDFLD_INVITED :: int where "ZPDS_UDFLD_INVITED = 256"
definition ZPDS_UDFLD_TAGS :: int where "ZPDS_UDFLD_TAGS = 512"
definition ZPDS_UDFLD_SUBSCR :: int where "ZPDS_UDFLD_SUBSCR = 1024"
definition ZPDS_UDFLD_CATEGORIES :: int where "ZPDS_UDFLD_CATEGORIES = 2048"
definition ZPDS_WRTPUD_SIGNKEY :: int where "ZPDS_WRTPUD_SIGNKEY = ZPDS_WRITR_IS_ADMIN OR ZPDS_WRITR_CREATING"
definition ZPDS_WRTPUD_PASSKEY :: int where "ZPDS_WRTPUD_PASSKEY = ZPDS_WRITR_IS_ADMIN OR ZPDS_WRITR_CREATING"
definition ZPDS_WRTPUD_ROLE :: int where "ZPDS_WRTPUD_ROLE = 0"
definition ZPDS_WRTPUD_INFO :: int where "ZPDS_WRTPUD_INFO = ZPDS_WRITR_IS_ADMIN OR ZPDS_WRITR_IS_SELF OR ZPDS_WRITR_CREATING OR ZPDS_WRITR_UPDATING"
definition ZPDS_WRTPUD_GNAME :: int where "ZPDS_WRTPUD_GNAME = ZPDS_WRITR_IS_ADMIN OR ZPDS_WRITR_IS_SELF OR ZPDS_WRITR_CREATING OR ZPDS_WRITR_UPDATING"
definition ZPDS_WRTPUD_MOBILE :: int where "ZPDS_WRTPUD_MOBILE = ZPDS_WRITR_IS_ADMIN OR ZPDS_WRITR_IS_SELF OR ZPDS_WRITR_CREATING OR ZPDS_WRITR_UPDATING"
definition ZPDS_WRTPUD_EMAIL :: int where "ZPDS_WRTPUD_EMAIL = ZPDS_WRITR_IS_ADMIN OR ZPDS_WRITR_IS_SELF OR ZPDS_WRITR_CREATING OR ZPDS_WRITR_UPDATING"
definition ZPDS_WRTPUD_PROFILES :: int where "ZPDS_WRTPUD_PROFILES = 0"
definition ZPDS_WRTPUD_INVITED :: int where "ZPDS_WRTPUD_INVITED = ZPDS_WRITR_IS_ADMIN OR ZPDS_WRITR_CREATING OR ZPDS_WRITR_UPDATING"
definition ZPDS_WRTPUD_TAGS :: int where "ZPDS_WRTPUD_TAGS = ZPDS_WRITR_IS_ADMIN OR ZPDS_WRITR_CREATING OR ZPDS_WRITR_UPDATING"
definition ZPDS_WRTPUD_SUBSCR :: int where "ZPDS_WRTPUD_SUBSCR = ZPDS_WRITR_IS_ADMIN OR ZPDS_WRITR_CREATING OR ZPDS_WRITR_UPDATING"
definition ZPDS_WRTPUD_CATEGORIES :: int where "ZPDS_WRTPUD_CATEGORIES = ZPDS_WRITR_IS_ADMIN OR ZPDS_WRITR_CREATING OR ZPDS_WRITR_UPDATING"
definition ZPDS_READUD_SIGNKEY :: int where "ZPDS_READUD_SIGNKEY = ZPDS_READR_IS_ADMIN"
definition ZPDS_READUD_PASSKEY :: int where "ZPDS_READUD_PASSKEY = ZPDS_READR_IS_ADMIN"
definition ZPDS_READUD_ROLE :: int where "ZPDS_READUD_ROLE = 0"
definition ZPDS_READUD_INFO :: int where "ZPDS_READUD_INFO = ZPDS_READR_IS_ADMIN OR ZPDS_READR_IS_SELF OR ZPDS_READR_IS_CREATR OR ZPDS_READR_IS_EXTER"
definition ZPDS_READUD_GNAME :: int where "ZPDS_READUD_GNAME = ZPDS_READR_IS_ADMIN OR ZPDS_READR_IS_SELF OR ZPDS_READR_IS_CREATR OR ZPDS_READR_IS_EXTER"
definition ZPDS_READUD_MOBILE :: int where "ZPDS_READUD_MOBILE = ZPDS_READR_IS_ADMIN OR ZPDS_READR_IS_SELF OR ZPDS_READR_IS_CREATR"
definition ZPDS_READUD_EMAIL :: int where "ZPDS_READUD_EMAIL = ZPDS_READR_IS_ADMIN OR ZPDS_READR_IS_SELF OR ZPDS_READR_IS_CREATR"
definition ZPDS_READUD_PROFILES :: int where "ZPDS_READUD_PROFILES = 0"
definition ZPDS_READUD_INVITED :: int where "ZPDS_READUD_INVITED = ZPDS_READR_IS_ADMIN OR ZPDS_READR_IS_SELF OR ZPDS_READR_IS_CREATR OR ZPDS_READR_IS_EXTER"
definition ZPDS_READUD_TAGS :: int where "ZPDS_READUD_TAGS = ZPDS_READR_IS_ADMIN OR ZPDS_READR_IS_SELF OR ZPDS_READR_IS_CREATR OR ZPDS_READR_IS_EXTER"
definition ZPDS_READUD_SUBSCR :: int where "ZPDS_READUD_SUBSCR = ZPDS_READR_IS_ADMIN OR ZPDS_READR_IS_SELF OR ZPDS_READR_IS_CREATR OR ZPDS_READR_IS_EXTER"
definition ZPDS_READUD_CATEGORIES :: int where "ZPDS_READUD_CATEGORIES = ZPDS_READR_IS_ADMIN OR ZPDS_READR_IS_SELF OR ZPDS_READR_IS_CREATR OR ZPDS_READR_IS_EXTER"
definition ZPDS_WRTPED_SIGNKEY :: int where "ZPDS_WRTPED_SIGNKEY = ZPDS_WRITR_IS_ADMIN"
definition ZPDS_WRTPED_PASSKEY :: int where "ZPDS_WRTPED_PASSKEY = ZPDS_WRITR_IS_ADMIN"
definition ZPDS_WRTPED_ROLE :: int where "ZPDS_WRTPED_ROLE = ZPDS_WRITR_IS_ADMIN"
definition ZPDS_WRTPED_INFO :: int where "ZPDS_WRTPED_INFO = ZPDS_WRITR_IS_ADMIN OR ZPDS_WRITR_IS_SELF"
definition ZPDS_WRTPED_GNAME :: int where "ZPDS_WRTPED_GNAME = ZPDS_WRITR_IS_ADMIN OR ZPDS_WRITR_IS_SELF"
definition ZPDS_WRTPED_MOBILE :: int where "ZPDS_WRTPED_MOBILE = ZPDS_WRITR_IS_ADMIN OR ZPDS_WRITR_IS_SELF"
definition ZPDS_WRTPED_EMAIL :: int where "ZPDS_WRTPED_EMAIL = ZPDS_WRITR_IS_ADMIN OR ZPDS_WRITR_IS_SELF"
definition ZPDS_WRTPED_PROFILES :: int where "ZPDS_WRTPED_PROFILES = ZPDS_WRITR_IS_ADMIN OR ZPDS_WRITR_IS_SELF"
definition ZPDS_WRTPED_INVITED :: int where "ZPDS_WRTPED_INVITED = 0"
definition ZPDS_WRTPED_TAGS :: int where "ZPDS_WRTPED_TAGS = ZPDS_WRITR_IS_ADMIN"
definition ZPDS_WRTPED_SUBSCR :: int where "ZPDS_WRTPED_SUBSCR = 0"
definition ZPDS_WRTPED_CATEGORIES :: int where "ZPDS_WRTPED_CATEGORIES = ZPDS_WRITR_IS_ADMIN"
definition ZPDS_READED_SIGNKEY :: int where "ZPDS_READED_SIGNKEY = ZPDS_READR_IS_ADMIN"
definition ZPDS_READED_PASSKEY :: int where "ZPDS_READED_PASSKEY = ZPDS_READR_IS_ADMIN"
definition ZPDS_READED_ROLE :: int where "ZPDS_READED_ROLE = ZPDS_READR_IS_ADMIN OR ZPDS_READR_IS_SELF"
definition ZPDS_READED_INFO :: int where "ZPDS_READED_INFO = ZPDS_READR_IS_ADMIN OR ZPDS_READR_IS_SELF"
definition ZPDS_READED_GNAME :: int where "ZPDS_READED_GNAME = ZPDS_READR_IS_ADMIN OR ZPDS_READR_IS_SELF"
definition ZPDS_READED_MOBILE :: int where "ZPDS_READED_MOBILE = ZPDS_READR_IS_ADMIN OR ZPDS_READR_IS_SELF"
definition ZPDS_READED_EMAIL :: int where "ZPDS_READED_EMAIL = ZPDS_READR_IS_ADMIN OR ZPDS_READR_IS_SELF"
definition ZPDS_READED_PROFILES :: int where "ZPDS_READED_PROFILES = ZPDS_READR_IS_ADMIN OR ZPDS_READR_IS_SELF"
definition ZPDS_READED_INVITED :: int where "ZPDS_READED_INVITED = 0"
definition ZPDS_READED_TAGS :: int where "ZPDS_READED_TAGS = ZPDS_READR_IS_ADMIN OR ZPDS_READR_IS_SELF"
definition ZPDS_READED_SUBSCR :: int where "ZPDS_READED_SUBSCR = 0"
definition ZPDS_READED_CATEGORIES :: int where "ZPDS_READED_CATEGORIES = ZPDS_READR_IS_ADMIN OR ZPDS_READR_IS_SELF"
definition ZPDS_IDFLD_NONE :: int where "ZPDS_IDFLD_NONE = 0"
definition ZPDS_IDFLD_TEXTFIELDS :: int where "ZPDS_IDFLD_TEXTFIELDS = 1"
definition ZPDS_IDFLD_CANSEE :: int where "ZPDS_IDFLD_CANSEE = 2"
definition ZPDS_IDFLD_LANGUAGE :: int where "ZPDS_IDFLD_LANGUAGE = 4"
definition ZPDS_IDFLD_TAGS :: int where "ZPDS_IDFLD_TAGS = 8"
definition ZPDS_IDFLD_CONTACTS :: int where "ZPDS_IDFLD_CONTACTS = 16"
definition ZPDS_IDFLD_IMAGES :: int where "ZPDS_IDFLD_IMAGES = 32"
definition ZPDS_IDFLD_VERSIONS :: int where "ZPDS_IDFLD_VERSIONS = 64"
definition ZPDS_IDFLD_PARENT :: int where "ZPDS_IDFLD_PARENT = 128"
definition ZPDS_IDFLD_ALIAS :: int where "ZPDS_IDFLD_ALIAS = 256"
definition ZPDS_IDFLD_CATEGORY :: int where "ZPDS_IDFLD_CATEGORY = 512"
definition ZPDS_IDFLD_ORIGIN :: int where "ZPDS_IDFLD_ORIGIN = 1024"
definition ZPDS_IDFLD_LOCALFIELDS :: int where "ZPDS_IDFLD_LOCALFIELDS = 2048"
definition ZPDS_IDFLD_OSMFIELDS :: int where "ZPDS_IDFLD_OSMFIELDS = 4096"
definition ZPDS_IDFLD_IMPORTANCE :: int where "ZPDS_IDFLD_IMPORTANCE = 8192"
definition ZPDS_IDFLD_GEOMETRY :: int where "ZPDS_IDFLD_GEOMETRY = 16384"
definition ZPDS_IDFLD_RATING :: int where "ZPDS_IDFLD_RATING = 32768"
definition ZPDS_WRTPID_TEXTFIELDS :: int where "ZPDS_WRTPID_TEXTFIELDS = ZPDS_WRITR_IS_ADMIN OR ZPDS_WRITR_CREATING OR ZPDS_WRITR_UPDATING"
definition ZPDS_WRTPID_CANSEE :: int where "ZPDS_WRTPID_CANSEE = ZPDS_WRITR_IS_ADMIN OR ZPDS_WRITR_CREATING OR ZPDS_WRITR_UPDATING"
definition ZPDS_WRTPID_LANGUAGE :: int where "ZPDS_WRTPID_LANGUAGE = ZPDS_WRITR_IS_ADMIN OR ZPDS_WRITR_CREATING OR ZPDS_WRITR_UPDATING"
definition ZPDS_WRTPID_IMAGES :: int where "ZPDS_WRTPID_IMAGES = ZPDS_WRITR_IS_ADMIN OR ZPDS_WRITR_CREATING OR ZPDS_WRITR_UPDATING"
definition ZPDS_WRTPID_TAGS :: int where "ZPDS_WRTPID_TAGS = ZPDS_WRITR_IS_ADMIN OR ZPDS_WRITR_CREATING OR ZPDS_WRITR_UPDATING"
definition ZPDS_WRTPID_CONTACTS :: int where "ZPDS_WRTPID_CONTACTS = ZPDS_WRITR_IS_ADMIN OR ZPDS_WRITR_CREATING OR ZPDS_WRITR_UPDATING"
definition ZPDS_WRTPID_VERSIONS :: int where "ZPDS_WRTPID_VERSIONS = ZPDS_WRITR_IS_ADMIN OR ZPDS_WRITR_CREATING OR ZPDS_WRITR_UPDATING"
definition ZPDS_WRTPID_PARENT :: int where "ZPDS_WRTPID_PARENT = ZPDS_WRITR_IS_ADMIN OR ZPDS_WRITR_CREATING OR ZPDS_WRITR_UPDATING"
definition ZPDS_WRTPID_ALIAS :: int where "ZPDS_WRTPID_ALIAS = ZPDS_WRITR_IS_ADMIN OR ZPDS_WRITR_CREATING OR ZPDS_WRITR_UPDATING"
definition ZPDS_WRTPID_CATEGORY :: int where "ZPDS_WRTPID_CATEGORY = ZPDS_WRITR_IS_ADMIN OR ZPDS_WRITR_CREATING OR ZPDS_WRITR_UPDATING"
definition ZPDS_WRTPID_ORIGIN :: int where "ZPDS_WRTPID_ORIGIN = ZPDS_WRITR_IS_ADMIN OR ZPDS_WRITR_CREATING OR ZPDS_WRITR_UPDATING"
definition ZPDS_WRTPID_LOCALFIELDS :: int where "ZPDS_WRTPID_LOCALFIELDS = ZPDS_WRITR_IS_ADMIN OR ZPDS_WRITR_CREATING OR ZPDS_WRITR_UPDATING"
definition ZPDS_WRTPID_OSMFIELDS :: int where "ZPDS_WRTPID_OSMFIELDS = ZPDS_WRITR_IS_ADMIN OR ZPDS_WRITR_CREATING OR ZPDS_WRITR_UPDATING"
definition ZPDS_WRTPID_IMPORTANCE :: int where "ZPDS_WRTPID_IMPORTANCE = ZPDS_WRITR_IS_ADMIN OR ZPDS_WRITR_CREATING OR ZPDS_WRITR_UPDATING"
definition ZPDS_WRTPID_GEOMETRY :: int where "ZPDS_WRTPID_GEOMETRY = ZPDS_WRITR_IS_ADMIN OR ZPDS_WRITR_CREATING OR ZPDS_WRITR_UPDATING"
definition ZPDS_WRTPID_RATING :: int where "ZPDS_WRTPID_RATING = ZPDS_WRITR_IS_ADMIN OR ZPDS_WRITR_CREATING OR ZPDS_WRITR_UPDATING"
definition ZPDS_READID_TEXTFIELDS :: int where "ZPDS_READID_TEXTFIELDS = ZPDS_READR_IS_ADMIN OR ZPDS_READR_IS_CREATR OR ZPDS_READR_IS_EXTER OR ZPDS_READR_IS_USER OR ZPDS_READR_IS_PUBLIC"
definition ZPDS_READID_CANSEE :: int where "ZPDS_READID_CANSEE = ZPDS_READR_IS_ADMIN OR ZPDS_READR_IS_CREATR OR ZPDS_READR_IS_EXTER OR ZPDS_READR_IS_USER OR ZPDS_READR_IS_PUBLIC"
definition ZPDS_READID_LANGUAGE :: int where "ZPDS_READID_LANGUAGE = ZPDS_READR_IS_ADMIN OR ZPDS_READR_IS_CREATR OR ZPDS_READR_IS_EXTER OR ZPDS_READR_IS_USER OR ZPDS_READR_IS_PUBLIC"
definition ZPDS_READID_IMAGES :: int where "ZPDS_READID_IMAGES = ZPDS_READR_IS_ADMIN OR ZPDS_READR_IS_CREATR OR ZPDS_READR_IS_EXTER OR ZPDS_READR_IS_USER OR ZPDS_READR_IS_PUBLIC"
definition ZPDS_READID_TAGS :: int where "ZPDS_READID_TAGS = ZPDS_READR_IS_ADMIN OR ZPDS_READR_IS_CREATR OR ZPDS_READR_IS_EXTER OR ZPDS_READR_IS_USER OR ZPDS_READR_IS_PUBLIC"
definition ZPDS_READID_CONTACTS :: int where "ZPDS_READID_CONTACTS = ZPDS_READR_IS_ADMIN OR ZPDS_READR_IS_CREATR OR ZPDS_READR_IS_EXTER OR ZPDS_READR_IS_USER OR ZPDS_READR_IS_PUBLIC"
definition ZPDS_READID_VERSIONS :: int where "ZPDS_READID_VERSIONS = ZPDS_READR_IS_ADMIN OR ZPDS_READR_IS_CREATR OR ZPDS_READR_IS_EXTER OR ZPDS_READR_IS_USER OR ZPDS_READR_IS_PUBLIC"
definition ZPDS_READID_PARENT :: int where "ZPDS_READID_PARENT = ZPDS_READR_IS_ADMIN OR ZPDS_READR_IS_CREATR OR ZPDS_READR_IS_EXTER OR ZPDS_READR_IS_USER OR ZPDS_READR_IS_PUBLIC"
definition ZPDS_READID_ALIAS :: int where "ZPDS_READID_ALIAS = ZPDS_READR_IS_ADMIN OR ZPDS_READR_IS_CREATR OR ZPDS_READR_IS_EXTER OR ZPDS_READR_IS_USER OR ZPDS_READR_IS_PUBLIC"
definition ZPDS_READID_CATEGORY :: int where "ZPDS_READID_CATEGORY = ZPDS_READR_IS_ADMIN OR ZPDS_READR_IS_CREATR OR ZPDS_READR_IS_EXTER OR ZPDS_READR_IS_USER OR ZPDS_READR_IS_PUBLIC"
definition ZPDS_READID_ORIGIN :: int where "ZPDS_READID_ORIGIN = ZPDS_READR_IS_ADMIN OR ZPDS_READR_IS_CREATR OR ZPDS_READR_IS_EXTER OR ZPDS_READR_IS_USER OR ZPDS_READR_IS_PUBLIC"
definition ZPDS_READID_LOCALFIELDS :: int where "ZPDS_READID_LOCALFIELDS = ZPDS_READR_IS_ADMIN OR ZPDS_READR_IS_CREATR OR ZPDS_READR_IS_EXTER OR ZPDS_READR_IS_USER OR ZPDS_READR_IS_PUBLIC"
definition ZPDS_READID_OSMFIELDS :: int where "ZPDS_READID_OSMFIELDS = ZPDS_READR_IS_ADMIN OR ZPDS_READR_IS_CREATR OR ZPDS_READR_IS_EXTER OR ZPDS_READR_IS_USER OR ZPDS_READR_IS_PUBLIC"
definition ZPDS_READID_IMPORTANCE :: int where "ZPDS_READID_IMPORTANCE = ZPDS_READR_IS_ADMIN OR ZPDS_READR_IS_CREATR OR ZPDS_READR_IS_EXTER OR ZPDS_READR_IS_USER OR ZPDS_READR_IS_PUBLIC"
definition ZPDS_READID_GEOMETRY :: int where "ZPDS_READID_GEOMETRY = ZPDS_READR_IS_ADMIN OR ZPDS_READR_IS_CREATR OR ZPDS_READR_IS_EXTER OR ZPDS_READR_IS_USER OR ZPDS_READR_IS_PUBLIC"
definition ZPDS_READID_RATING :: int where "ZPDS_READID_RATING = ZPDS_READR_IS_ADMIN OR ZPDS_READR_IS_CREATR OR ZPDS_READR_IS_EXTER OR ZPDS_READR_IS_USER OR ZPDS_READR_IS_PUBLIC"

lemmas service_defs =
  ZPDS_MAX_PROFILE_RULES_def ZPDS_MAX_RULE_WEIGHT_def ZPDS_UACTION_NONE_def ZPDS_UACTION_CREATE_def
  ZPDS_UACTION_UPSERT_def ZPDS_UACTION_UPDATE_def ZPDS_UACTION_DELETE_def ZPDS_UACTION_READ_def
  ZPDS_WRITR_IS_SELF_def ZPDS_WRITR_IS_ADMIN_def ZPDS_WRITR_CREATING_def ZPDS_WRITR_UPDATING_def
  ZPDS_WRITR_DELETING_def ZPDS_READR_IS_SELF_def ZPDS_READR_IS_ADMIN_def ZPDS_READR_IS_CREATR_def
  ZPDS_READR_IS_EXTER_def ZPDS_READR_IS_USER_def ZPDS_READR_IS_PUBLIC_def ZPDS_UDFLD_NONE_def
  ZPDS_UDFLD_SIGNKEY_def ZPDS_UDFLD_PASSKEY_def ZPDS_UDFLD_ROLE_def ZPDS_UDFLD_INFO_def
  ZPDS_UDFLD_GNAME_def ZPDS_UDFLD_MOBILE_def ZPDS_UDFLD_EMAIL_def ZPDS_UDFLD_PROFILES_def
  ZPDS_UDFLD_INVITED_def ZPDS_UDFLD_TAGS_def ZPDS_UDFLD_SUBSCR_def ZPDS_UDFLD_CATEGORIES_def
  ZPDS_WRTPUD_SIGNKEY_def ZPDS_WRTPUD_PASSKEY_def ZPDS_WRTPUD_ROLE_def ZPDS_WRTPUD_INFO_def
  ZPDS_WRTPUD_GNAME_def ZPDS_WRTPUD_MOBILE_def ZPDS_WRTPUD_EMAIL_def ZPDS_WRTPUD_PROFILES_def
  ZPDS_WRTPUD_INVITED_def ZPDS_WRTPUD_TAGS_def ZPDS_WRTPUD_SUBSCR_def ZPDS_WRTPUD_CATEGORIES_def
  ZPDS_READUD_SIGNKEY_def ZPDS_READUD_PASSKEY_def ZPDS_READUD_ROLE_def ZPDS_READUD_INFO_def
  ZPDS_READUD_GNAME_def ZPDS_READUD_MOBILE_def ZPDS_READUD_EMAIL_def ZPDS_READUD_PROFILES_def
  ZPDS_READUD_INVITED_def ZPDS_READUD_TAGS_def ZPDS_READUD_SUBSCR_def ZPDS_READUD_CATEGORIES_def
  ZPDS_WRTPED_SIGNKEY_def ZPDS_WRTPED_PASSKEY_def ZPDS_WRTPED_ROLE_def ZPDS_WRTPED_INFO_def
  ZPDS_WRTPED_GNAME_def ZPDS_WRTPED_MOBILE_def ZPDS_WRTPED_EMAIL_def ZPDS_WRTPED_PROFILES_def
  ZPDS_WRTPED_INVITED_def ZPDS_WRTPED_TAGS_def ZPDS_WRTPED_SUBSCR_def ZPDS_WRTPED_CATEGORIES_def
  ZPDS_READED_SIGNKEY_def ZPDS_READED_PASSKEY_def ZPDS_READED_ROLE_def ZPDS_READED_INFO_def
  ZPDS_READED_GNAME_def ZPDS_READED_MOBILE_def ZPDS_READED_EMAIL_def ZPDS_READED_PROFILES_def
  ZPDS_READED_INVITED_def ZPDS_READED_TAGS_def ZPDS_READED_SUBSCR_def ZPDS_READED_CATEGORIES_def
  ZPDS_IDFLD_NONE_def ZPDS_IDFLD_TEXTFIELDS_def ZPDS_IDFLD_CANSEE_def ZPDS_IDFLD_LANGUAGE_def
  ZPDS_IDFLD_TAGS_def ZPDS_IDFLD_CONTACTS_def ZPDS_IDFLD_IMAGES_def ZPDS_IDFLD_VERSIONS_def
  ZPDS_IDFLD_PARENT_def ZPDS_IDFLD_ALIAS_def ZPDS_IDFLD_CATEGORY_def ZPDS_IDFLD_ORIGIN_def
  ZPDS_IDFLD_LOCALFIELDS_def ZPDS_IDFLD_OSMFIELDS_def ZPDS_IDFLD_IMPORTANCE_def
  ZPDS_IDFLD_GEOMETRY_def ZPDS_IDFLD_RATING_def ZPDS_WRTPID_TEXTFIELDS_def ZPDS_WRTPID_CANSEE_def
  ZPDS_WRTPID_LANGUAGE_def ZPDS_WRTPID_IMAGES_def ZPDS_WRTPID_TAGS_def ZPDS_WRTPID_CONTACTS_def
  ZPDS_WRTPID_VERSIONS_def ZPDS_WRTPID_PARENT_def ZPDS_WRTPID_ALIAS_def ZPDS_WRTPID_CATEGORY_def
  ZPDS_WRTPID_ORIGIN_def ZPDS_WRTPID_LOCALFIELDS_def ZPDS_WRTPID_OSMFIELDS_def
  ZPDS_WRTPID_IMPORTANCE_def ZPDS_WRTPID_GEOMETRY_def ZPDS_WRTPID_RATING_def
  ZPDS_READID_TEXTFIELDS_def ZPDS_READID_CANSEE_def ZPDS_READID_LANGUAGE_def ZPDS_READID_IMAGES_def
  ZPDS_READID_TAGS_def ZPDS_READID_CONTACTS_def ZPDS_READID_VERSIONS_def ZPDS_READID_PARENT_def
  ZPDS_READID_ALIAS_def ZPDS_READID_CATEGORY_def ZPDS_READID_ORIGIN_def ZPDS_READID_LOCALFIELDS_def
  ZPDS_READID_OSMFIELDS_def ZPDS_READID_IMPORTANCE_def ZPDS_READID_GEOMETRY_def
  ZPDS_READID_RATING_def

text \<open>\<open>if (fields & FLAG)\<close>\<close>

definition has :: "int \<Rightarrow> int \<Rightarrow> bool" where
  "has flds flag \<longleftrightarrow> flds AND flag \<noteq> 0"

section \<open>Filters\<close>

definition WriteActionFilter :: "int \<Rightarrow> (int \<times> bool) res" where
  "WriteActionFilter writetype =
     (let (xaction, xmerge) =
        (if writetype = W_CREATE then (ZPDS_UACTION_CREATE, False)
         else if writetype = W_UPSERT then (ZPDS_UACTION_UPSERT, False)
         else if writetype = W_UPDATE then (ZPDS_UACTION_UPDATE, False)
         else if writetype = W_UMERGE then (ZPDS_UACTION_UPDATE, True)
         else if writetype = W_DELETE then (ZPDS_UACTION_DELETE, False)
         else (ZPDS_UACTION_NONE, False))
      in if xaction = ZPDS_UACTION_NONE then Inl (BadDataException ''invalid action'' M_INVALID_PARAM)
         else Inr (xaction, xmerge))"

definition ReaderTypeFilter :: "int \<Rightarrow> int" where
  "ReaderTypeFilter readtype =
     (if readtype = R_SELF then ZPDS_READR_IS_SELF
      else if readtype = R_ADMIN then ZPDS_READR_IS_ADMIN
      else if readtype = R_CREATR then ZPDS_READR_IS_CREATR
      else if readtype = R_OTHER then ZPDS_READR_IS_EXTER
      else if readtype = R_USER then ZPDS_READR_IS_USER
      else if readtype = R_PUBLIC then ZPDS_READR_IS_PUBLIC
      else 0)"

definition write_action :: "int \<Rightarrow> bool" where
  "write_action a \<longleftrightarrow> a \<in> {ZPDS_UACTION_CREATE, ZPDS_UACTION_UPSERT, ZPDS_UACTION_UPDATE, ZPDS_UACTION_DELETE}"

lemma WriteActionFilter_Inr: "WriteActionFilter w = Inr (a, m) \<Longrightarrow> write_action a \<and> (m \<longrightarrow> a = ZPDS_UACTION_UPDATE)"
  by (auto simp: WriteActionFilter_def write_action_def Let_def split: if_splits)

text \<open>A flag of the result of adding up flags that were asked for.\<close>

definition add_flag :: "int \<Rightarrow> int \<Rightarrow> int \<Rightarrow> int" where
  "add_flag update flag xupdate = (if has update flag then xupdate + flag else xupdate)"

section \<open>Common steps of the services\<close>

text \<open>The single payload is added to the list, and the inputs are counted.\<close>

definition take_payload :: "('m \<Rightarrow> string) \<Rightarrow> 'm \<Rightarrow> 'm DataRespT \<Rightarrow> 'm DataRespT" where
  "take_payload name blank_payload resp =
     (let r = (if name (dr_payload resp) \<noteq> []
          then resp\<lparr>dr_payloads := dr_payloads resp @ [dr_payload resp], dr_payload := blank_payload\<rparr> else resp)
      in r\<lparr>dr_status := (dr_status r)\<lparr>st_inputcount := of_nat (length (dr_payloads r))\<rparr>\<rparr>)"

definition set_success :: "64 word \<Rightarrow> 'm DataRespT \<Rightarrow> 'm DataRespT" where
  "set_success updates resp = resp\<lparr>dr_status := (dr_status resp)\<lparr>st_success := True,
     st_updatecount := st_updatecount (dr_status resp) + updates\<rparr>\<rparr>"

text \<open>The lookup and the insertion of a record while names are reserved.\<close>

definition tableGet :: "('b, 'd) env \<Rightarrow> ('r, 'b) table \<Rightarrow> 'r \<Rightarrow> keytype \<Rightarrow> (('b, 'd) nstate, bool \<times> 'r) act" where
  "tableGet E T r u = onS (liftR (\<lambda>s. GetOne E T (kv_get E (db s)) r u))"

definition tableAdd :: "('b, 'd) env \<Rightarrow> ('r, 'b) table \<Rightarrow> 'r \<Rightarrow> bool \<Rightarrow> 'b TransactionT \<Rightarrow> string \<Rightarrow> (('b, 'd) nstate, 'b TransactionT) act" where
  "tableAdd E T r upsert txn msg =
     bindA (onS (liftR (\<lambda>s. AddRecord E T (kv_get E (db s)) r upsert txn))) (\<lambda>(ok, txn').
     bindA (throwIf (\<not> ok) (BadDataException msg 0)) (\<lambda>_. ret txn'))"

text \<open>A name is checked against those of the request and reserved against other requests.\<close>

definition claim_name :: "('b, 'd) env \<Rightarrow> keytype \<Rightarrow> string \<Rightarrow> string \<Rightarrow> string \<Rightarrow> (('b, 'd) nstate, unit) act" where
  "claim_name E kt name dup busy =
     bindA (CheckLocal kt name) (\<lambda>d.
     bindA (throwIf d (BadDataException (dup @ name) M_INVALID_PARAM)) (\<lambda>_.
     bindA (ReserveName E kt name False) (\<lambda>ok.
     throwIf (\<not> ok) (BadDataException (busy @ name) M_INVALID_PARAM))))"

text \<open>An action on every element of a list.\<close>

definition mapA :: "('x \<Rightarrow> ('s, 'y) act) \<Rightarrow> 'x list \<Rightarrow> ('s, 'y list) act" where
  "mapA f xs = foldA (\<lambda>x ys. bindA (f x) (\<lambda>y. ret (ys @ [y]))) xs []"

text \<open>How a payload is read: \<open>notfound\<close> is set when there is no record; those found are counted.\<close>

definition count_found :: "('m \<Rightarrow> bool) \<Rightarrow> 'm list \<Rightarrow> 64 word" where
  "count_found notfound ms = of_nat (length (filter (\<lambda>m. \<not> notfound m) ms))"

end
