(* ===== verification/TagDataService.thy ===== *)
theory TagDataService
  imports ServiceDefine
begin

text \<open>
  Component \<open>TagDataService\<close> (\<open>src/store/TagDataService.cc\<close>): the tags that records of each type may
  carry. A tag is named by the type it is for and its name.
\<close>

definition tag_key :: "int \<Rightarrow> string \<Rightarrow> string" where
  "tag_key k n = EncodeSecondaryKey U_TAGDATA_KEYTYPE_NAME [AI32 (word_of_int k), AStr n]"

definition TagData_Pack :: "TagDataT \<Rightarrow> TagDataT" where
  "TagData_Pack data = TagDataT_new\<lparr>tag_id := tag_id data, tag_keytype := tag_keytype data, tag_name := tag_name data,
     tag_is_allowed := tag_is_allowed data, tag_is_repeated := tag_is_repeated data,
     tag_is_searchable := tag_is_searchable data, tag_is_deleted := tag_is_deleted data\<rparr>"

definition TagData_Get :: "('b, 'd) env \<Rightarrow> TagDataT \<Rightarrow> (('b, 'd) shared, TagDataT) act" where
  "TagData_Get E data =
     bindA (bindA (readA (\<lambda>s. GetAssoc (tag_key (tag_keytype data) (tag_name data)) (dbcache s))) (\<lambda>c.
       case c of Some temp \<Rightarrow> ret (par (c_tag E) temp)
       | None \<Rightarrow> bindA (liftR (\<lambda>s. GetOne E (TagDataTable E) (kv_get E (db s)) data U_TAGDATA_KEYTYPE_NAME)) (\<lambda>(found, d).
           if found then bindA (SetCache (tag_key (tag_keytype d) (tag_name d)) (ser (c_tag E) (TagData_Pack d))) (\<lambda>_. ret (True, d))
           else ret (False, d))))
     (\<lambda>(found, d). ret (if found then d else d\<lparr>tag_notfound := True\<rparr>))"

section \<open>Changing\<close>

text \<open>\<open>PrintWithPipe::String((int) keytype, name)\<close>; the key types that get here are positive.\<close>

definition taginfo :: "TagDataT \<Rightarrow> string" where
  "taginfo rdata = to_dec (nat (tag_keytype rdata)) @ ''|'' @ tag_name rdata"

definition tag_update :: "int \<Rightarrow> TagDataT \<Rightarrow> TagDataT \<Rightarrow> TagDataT" where
  "tag_update action rdata tdata =
     (if action = ZPDS_UACTION_DELETE then tdata\<lparr>tag_is_deleted := True\<rparr>
      else tdata\<lparr>tag_lang := tag_lang rdata, tag_is_allowed := tag_is_allowed rdata, tag_is_repeated := tag_is_repeated rdata,
        tag_is_searchable := tag_is_searchable rdata, tag_is_deleted := tag_is_deleted rdata\<rparr>)"

definition tag_step :: "('b, 'd) env \<Rightarrow> 64 word \<Rightarrow> UserDataT \<Rightarrow> int \<Rightarrow> TagDataT \<Rightarrow> 'b TransactionT \<times> 64 word \<Rightarrow> (('b, 'd) nstate, 'b TransactionT \<times> 64 word) act" where
  "tag_step E currtime updater action rdata = (\<lambda>(txn, n).
     bindA (throwIf (tag_keytype rdata \<le> K_NONODE \<or> tag_keytype rdata \<ge> K_LOGNODE)
              (BadDataException (''Tag must have valid keytype: '' @ tag_name rdata) M_INVALID_PARAM)) (\<lambda>_.
     bindA (throwIf (tag_name rdata = []) (BadDataException (''Tag must have name: '' @ tag_name rdata) M_INVALID_PARAM)) (\<lambda>_.
     bindA (throwIf (tag_name rdata \<noteq> SanitNSLower (tag_name rdata))
              (BadDataException (''Tag has invalid name: '' @ tag_name rdata) M_INVALID_PARAM)) (\<lambda>_.
     bindA (claim_name E K_TAGDATA (taginfo rdata) ''Duplicate tag found: '' ''This tag is being worked on: '') (\<lambda>_.
     bindA (tableGet E (TagDataTable E) (TagDataT_new\<lparr>tag_name := tag_name rdata, tag_keytype := tag_keytype rdata\<rparr>)
              U_TAGDATA_KEYTYPE_NAME) (\<lambda>(found, tdata).
     bindA (throwIf (found \<and> \<not> user_is_admin updater \<and> tag_manager tdata \<noteq> user_name updater)
              (BadDataException ''This exter cannot update this tag'' M_INVALID_PARAM)) (\<lambda>_.
     bindA (throwIf (found \<and> action = ZPDS_UACTION_CREATE)
              (BadDataException (''Create failed, Tag already exists: '' @ tag_name rdata) M_INVALID_PARAM)) (\<lambda>_.
     bindA (throwIf (\<not> found \<and> (action = ZPDS_UACTION_UPDATE \<or> action = ZPDS_UACTION_DELETE))
              (BadDataException (''Update failed, Tag does not exist: '' @ tag_name rdata) M_INVALID_PARAM)) (\<lambda>_.
     bindA (if \<not> found then bindA (onS GetNext_main) (\<lambda>i. ret (tdata\<lparr>tag_notfound := False, tag_id := i,
               tag_created_at := currtime, tag_manager := user_name updater\<rparr>)) else ret tdata) (\<lambda>t1.
     bindA (tableAdd E (TagDataTable E) ((tag_update action rdata t1)\<lparr>tag_updated_at := currtime\<rparr>) found txn
              ''Cannot Insert tags data'') (\<lambda>txn'.
     ret (txn', n + 1))))))))))))"

definition TagData_ManageDataAction :: "('b, 'd) env \<Rightarrow> TagDataT DataRespT \<Rightarrow> (('b, 'd) shared, TagDataT DataRespT) act" where
  "TagData_ManageDataAction E resp =
     bindA (readA is_master) (\<lambda>m.
     bindA (throwIf (\<not> m) (BadCodeException ''TagData change is master only'' 0)) (\<lambda>_.
     bindA (liftR (\<lambda>_. WriteActionFilter (dr_action resp))) (\<lambda>(action, merge).
     bindA (session_of E (dr_username resp) (dr_sessionkey resp) K_EXTERDATA True
              (BadDataException ''Invalid updater or Invalid session'' M_INVALID_PARAM)) (\<lambda>updater.
     bindA (throwIf (\<not> (user_is_admin updater \<or> user_can_add_tags updater))
              (BadDataException ''This updater cannot update tags'' M_INVALID_PARAM)) (\<lambda>_.
     let resp1 = take_payload tag_name TagDataT_new resp in
     bindA (CURRTIME_MS E) (\<lambda>currtime.
     with_namecache (
       bindA (foldA (tag_step E currtime updater action) (dr_payloads resp1) (TransactionT_new, 0)) (\<lambda>(txn, n).
       bindA (onS (Commit E currtime (txn\<lparr>tr_updater := user_name updater\<rparr>) True)) (\<lambda>_.
       ret (set_success n resp1))))))))))"

section \<open>Reading\<close>

definition tag_read :: "('b, 'd) env \<Rightarrow> TagDataT \<Rightarrow> (('b, 'd) shared, TagDataT) act" where
  "tag_read E rdata =
     bindA (liftR (\<lambda>s. GetOne E (TagDataTable E) (kv_get E (db s)) rdata U_TAGDATA_KEYTYPE_NAME))
       (\<lambda>(found, r). ret (if found then r else r\<lparr>tag_notfound := True\<rparr>))"

definition TagData_ReadDataAction :: "('b, 'd) env \<Rightarrow> TagDataT DataRespT \<Rightarrow> (('b, 'd) shared, TagDataT DataRespT) act" where
  "TagData_ReadDataAction E resp =
     bindA (session_of E (dr_username resp) (dr_sessionkey resp) K_EXTERDATA True
              (BadDataException ''Invalid reader or Invalid session'' M_INVALID_PARAM)) (\<lambda>reader.
     bindA (if tag_name (dr_payload resp) \<noteq> [] then bindA (tag_read E (dr_payload resp)) (\<lambda>r. ret (r, count_found tag_notfound [r]))
            else ret (dr_payload resp, 0)) (\<lambda>(p, n).
     bindA (mapA (\<lambda>rdata. if tag_name rdata = [] then ret (rdata, 0)
              else bindA (tag_read E rdata) (\<lambda>r. ret (r, count_found tag_notfound [r]))) (dr_payloads resp)) (\<lambda>rs.
     ret (resp\<lparr>dr_payload := p, dr_payloads := map fst rs, dr_status := (dr_status resp)\<lparr>st_success := True,
        st_inputcount := st_inputcount (dr_status resp) + n + sum_list (map snd rs)\<rparr>\<rparr>))))"

definition TagData_GetAllNames :: "('b, 'd) env \<Rightarrow> keytype \<Rightarrow> (('b, 'd) shared, string list) act" where
  "TagData_GetAllNames E kt = liftR (\<lambda>s. ScanTable (TagDataTable E) (kv_entries E (db s)) 0 (- 1)
     (\<lambda>record svec. (True, if tag_keytype record = kt then svec @ [tag_name record] else svec)) [])"

end
