(* ===== verification/Profiles.thy ===== *)
theory Profiles
  imports ServiceDefine "HOL-Library.Multiset"
begin

text \<open>
  The query profiles of a user (\<open>UserDataService::HandleQueryProfiles\<close> and
  \<open>UserDataService::SetDefaultProfile\<close> in \<open>src/store/UserDataService.cc\<close>): per query type a list of
  rules by falling weight. Proved: the rules are put in order without losing one, and the default
  profile is one the handler accepts as it is.
\<close>

definition QRY_UNKNOWN :: int where "QRY_UNKNOWN = 0"
definition QRY_COMPLETION_PHOTON :: int where "QRY_COMPLETION_PHOTON = 1"
definition QRY_COMPLETION_NOTOPH :: int where "QRY_COMPLETION_NOTOPH = 2"
definition QRY_COMPLETION_WIKIDATA :: int where "QRY_COMPLETION_WIKIDATA = 3"
definition L_NBRHASH5 :: int where "L_NBRHASH5 = 9"
definition S_BEGINWITH :: int where "S_BEGINWITH = 1"
definition S_NAME :: int where "S_NAME = 5"
definition O_DIST_BAND :: int where "O_DIST_BAND = 1"
definition I_ONEWORD :: int where "I_ONEWORD = 1"

section \<open>Handling profiles\<close>

text \<open>The key of a rule in the ordered map: computed in 64 bits (the weight is an unsigned 64-bit integer)
  and cut down to an \<open>int\<close>.\<close>

definition rule_ikey :: "nat \<Rightarrow> QueryRuleT \<Rightarrow> int" where
  "rule_ikey j r = sint (ucast (word_of_int (ZPDS_MAX_PROFILE_RULES * ZPDS_MAX_RULE_WEIGHT) + of_nat j
     - qr_weight r * word_of_int ZPDS_MAX_PROFILE_RULES :: 64 word) :: 32 word)"

text \<open>\<open>std::map::emplace\<close> on the association list of a map in the order of its keys\<close>

definition emplace :: "int \<Rightarrow> 'v \<Rightarrow> (int \<times> 'v) list \<Rightarrow> (int \<times> 'v) list" where
  "emplace k v m = (if k \<in> fst ` set m then m else insort_key fst (k, v) m)"

definition rule_step :: "nat \<times> QueryRuleT \<Rightarrow> (int \<times> QueryRuleT) list \<Rightarrow> (int \<times> QueryRuleT) list res" where
  "rule_step = (\<lambda>(j, r) lmap.
     if uint (qr_weight r) > ZPDS_MAX_RULE_WEIGHT then Inl (BadDataException ''max rules weight exceeded for ruleset'' 0)
     else Inr (emplace (rule_ikey j r) r lmap))"

definition order_rules :: "QueryRuleT list \<Rightarrow> QueryRuleT list res" where
  "order_rules rules = bindR (foldR rule_step (enumerate 0 rules) []) (\<lambda>lmap. Inr (map snd lmap))"

definition profile_step :: "QueryProfT \<Rightarrow> bool \<times> QueryProfT list \<Rightarrow> (bool \<times> QueryProfT list) res" where
  "profile_step var = (\<lambda>(change, odata).
     if qp_query_type var = QRY_UNKNOWN then Inl (BadDataException ''query_type is needed for each ruleset'' 0)
     else if int (length (qp_rules var)) > ZPDS_MAX_PROFILE_RULES then Inl (BadDataException ''max rules size exceeded for ruleset'' 0)
     else if qp_query_type var \<notin> qp_query_type ` set odata then
       bindR (order_rules (qp_rules var)) (\<lambda>rs. Inr (True, odata @ [\<lparr>qp_query_type = qp_query_type var, qp_rules = rs\<rparr>]))
     else Inr (change, odata))"

definition HandleQueryProfiles :: "QueryProfT list \<Rightarrow> QueryProfT list \<Rightarrow> bool \<Rightarrow> (bool \<times> QueryProfT list) res" where
  "HandleQueryProfiles idata odata merge = foldR profile_step idata (False, if merge then odata else [])"

section \<open>The default profile\<close>

definition SetDefaultProfile :: "QueryProfT list" where
  "SetDefaultProfile =
     [\<lparr>qp_query_type = QRY_COMPLETION_PHOTON, qp_rules =
        [QueryRuleT_new\<lparr>qr_weight := 100, qr_desc := ''one word query for upto 2 chars'', qr_input_type := I_ONEWORD,
           qr_search_type := S_BEGINWITH, qr_max_records := 10, qr_oneword_length := 2\<rparr>,
         QueryRuleT_new\<lparr>qr_distance_band := 1000, qr_max_records := 10, qr_weight := 90,
           qr_desc := ''by distance 1km bands'', qr_order_type := O_DIST_BAND\<rparr>,
         QueryRuleT_new\<lparr>qr_weight := 80, qr_desc := ''if not local'', qr_max_records := 10\<rparr>]\<rparr>,
      \<lparr>qp_query_type = QRY_COMPLETION_NOTOPH, qp_rules =
        [QueryRuleT_new\<lparr>qr_order_type := O_DIST_BAND, qr_desc := ''by distance only so band is small'',
           qr_limit_type := L_NBRHASH5, qr_weight := 100, qr_max_records := 5, qr_distance_band := 10\<rparr>]\<rparr>,
      \<lparr>qp_query_type = QRY_COMPLETION_WIKIDATA, qp_rules =
        [QueryRuleT_new\<lparr>qr_oneword_length := 2, qr_max_records := 10, qr_desc := ''one word query for upto 2 chars'',
           qr_input_type := I_ONEWORD, qr_search_type := S_BEGINWITH, qr_weight := 100\<rparr>,
         QueryRuleT_new\<lparr>qr_max_records := 10, qr_desc := ''find in name'', qr_search_type := S_NAME, qr_weight := 90\<rparr>,
         QueryRuleT_new\<lparr>qr_max_records := 10, qr_desc := ''find in suggest'', qr_weight := 80\<rparr>]\<rparr>]"

section \<open>The rules are put in order\<close>

lemma rule_ikey_nat:
  assumes "uint (qr_weight r) \<le> ZPDS_MAX_RULE_WEIGHT" and "j < 10"
  shows "rule_ikey j r = 10000 + int j - 10 * uint (qr_weight r)"
proof -
  define k where "k = unat (qr_weight r)"
  have u: "uint (qr_weight r) = int k" by (simp add: k_def)
  have k: "k \<le> 1000" using assms(1) unfolding u ZPDS_MAX_RULE_WEIGHT_def by simp
  have w: "qr_weight r = of_nat k" by (simp add: k_def)
  define n where "n = 10000 + j - 10 * k"
  have n: "int n = 10000 + int j - 10 * int k" "n < 2 ^ 31" using k assms(2) by (simp_all add: n_def)
  have "(of_nat (10000 + j) - of_nat (10 * k) :: 64 word) = of_nat n"
    unfolding n_def using k by (intro of_nat_diff [symmetric]) simp
  then have x: "(10000 + of_nat j - of_nat k * 10 :: 64 word) = of_nat n" by (simp add: mult.commute)
  have "ucast (of_nat n :: 64 word) = (of_nat n :: 32 word)"
    using n(2) by (simp add: unsigned_of_nat take_bit_nat_eq_self)
  then have "sint (ucast (of_nat n :: 64 word) :: 32 word) = int n"
    using n(2) by (simp add: signed_of_nat signed_take_bit_int_eq_self)
  then show ?thesis
    unfolding rule_ikey_def ZPDS_MAX_PROFILE_RULES_def ZPDS_MAX_RULE_WEIGHT_def u n(1) [symmetric]
    by (simp add: w x)
qed

definition keyed :: "nat \<times> QueryRuleT \<Rightarrow> int \<times> QueryRuleT" where
  "keyed = (\<lambda>(j, r). (rule_ikey j r, r))"

lemma emplace_new: "k \<notin> fst ` set m \<Longrightarrow> mset (emplace k v m) = add_mset (k, v) (mset m)"
  by (simp add: emplace_def)

lemma emplace_sorted: "sorted (map fst m) \<Longrightarrow> sorted (map fst (emplace k v m))"
  by (simp add: emplace_def sorted_insort_key)

lemma rule_ikey_distinct:
  assumes "uint (qr_weight r) \<le> ZPDS_MAX_RULE_WEIGHT" and "uint (qr_weight q) \<le> ZPDS_MAX_RULE_WEIGHT"
    and "i < j" and "j < 10"
  shows "rule_ikey i r \<noteq> rule_ikey j q"
proof
  assume "rule_ikey i r = rule_ikey j q"
  then have "int i - 10 * uint (qr_weight r) = int j - 10 * uint (qr_weight q)"
    using assms by (simp add: rule_ikey_nat)
  with assms(3,4) show False by presburger
qed

lemma order_loop:
  assumes "\<forall>r \<in> set rules. uint (qr_weight r) \<le> ZPDS_MAX_RULE_WEIGHT" and "n + length rules \<le> 10"
    and "sorted (map fst m)"
    and "\<forall>p \<in> set m. \<exists>i < n. uint (qr_weight (snd p)) \<le> ZPDS_MAX_RULE_WEIGHT \<and> fst p = rule_ikey i (snd p)"
  shows "\<exists>m'. foldR rule_step (enumerate n rules) m = Inr m' \<and> sorted (map fst m') \<and>
    mset m' = mset m + mset (map keyed (enumerate n rules))"
  using assms
proof (induction rules arbitrary: n m)
  case Nil
  then show ?case by simp
next
  case (Cons r rules)
  let ?m = "emplace (rule_ikey n r) r m"
  have w: "uint (qr_weight r) \<le> ZPDS_MAX_RULE_WEIGHT" and n: "n < 10" using Cons.prems by auto
  have new: "rule_ikey n r \<notin> fst ` set m"
  proof
    assume "rule_ikey n r \<in> fst ` set m"
    then obtain p where "p \<in> set m" "fst p = rule_ikey n r" by auto
    with Cons.prems(4) obtain i where "i < n" "uint (qr_weight (snd p)) \<le> ZPDS_MAX_RULE_WEIGHT"
      "rule_ikey n r = rule_ikey i (snd p)" by metis
    with rule_ikey_distinct [of "snd p" r i n] w n show False by simp
  qed
  have e: "mset ?m = add_mset (rule_ikey n r, r) (mset m)" using new by (rule emplace_new)
  have se: "set ?m = insert (rule_ikey n r, r) (set m)" using arg_cong [OF e, of set_mset] by simp
  have "\<forall>p \<in> set ?m. \<exists>i < Suc n. uint (qr_weight (snd p)) \<le> ZPDS_MAX_RULE_WEIGHT \<and> fst p = rule_ikey i (snd p)"
    unfolding se using w Cons.prems(4) by (auto intro: less_SucI)
  from Cons.IH [OF _ _ emplace_sorted [OF Cons.prems(3)] this] Cons.prems(1,2) obtain m' where
    m': "foldR rule_step (enumerate (Suc n) rules) ?m = Inr m'" "sorted (map fst m')"
      "mset m' = mset ?m + mset (map keyed (enumerate (Suc n) rules))" by auto
  with w e show ?case by (auto simp: rule_step_def keyed_def not_less)
qed

text \<open>The rules of a profile (at most ten, none heavier than allowed) are put in the order of falling
  weight and none is lost or made twice.\<close>

theorem order_rules_sorted:
  assumes "length rules \<le> 10" and "\<forall>r \<in> set rules. uint (qr_weight r) \<le> ZPDS_MAX_RULE_WEIGHT"
  shows "\<exists>rs. order_rules rules = Inr rs \<and> mset rs = mset rules \<and>
    sorted_wrt (\<lambda>q r. qr_weight q \<ge> qr_weight r) rs"
proof -
  obtain m where m: "foldR rule_step (enumerate 0 rules) [] = Inr m" "sorted (map fst m)"
    "mset m = mset (map keyed (enumerate 0 rules))"
    using order_loop [of rules 0 "[]"] assms by auto
  have "mset (map snd m) = image_mset snd (mset (map keyed (enumerate 0 rules)))" by (simp only: mset_map [of snd m] m(3))
  also have "\<dots> = mset (map (snd \<circ> keyed) (enumerate 0 rules))" by (simp only: mset_map [symmetric] map_map)
  also have "snd \<circ> keyed = snd" by (simp add: fun_eq_iff keyed_def case_prod_beta)
  also have "mset (map snd (enumerate 0 rules)) = mset rules" by (simp only: map_snd_enumerate)
  finally have ms: "mset (map snd m) = mset rules" .
  have k: "\<exists>i < 10. fst p = 10000 + int i - 10 * uint (qr_weight (snd p))" if "p \<in> set m" for p
  proof -
    have "p \<in> keyed ` set (enumerate 0 rules)" using arg_cong [OF m(3), of set_mset] that by simp
    then obtain i r where "(i, r) \<in> set (enumerate 0 rules)" "p = (rule_ikey i r, r)" by (auto simp: keyed_def)
    then have "i < length rules" "r \<in> set rules" "fst p = rule_ikey i (snd p)" "snd p = r" by (auto simp: in_set_enumerate_eq)
    with assms show ?thesis by (intro exI [of _ i]) (simp add: rule_ikey_nat)
  qed
  have "sorted_wrt (\<lambda>p q. fst p \<le> fst q) m" using m(2) by (simp add: sorted_map)
  then have "sorted_wrt (\<lambda>p q. qr_weight (snd p) \<ge> qr_weight (snd q)) m"
  proof (rule sorted_wrt_mono_rel [rotated])
    fix p q assume "p \<in> set m" "q \<in> set m" "fst p \<le> fst q"
    from k [OF this(1)] k [OF this(2)] this(3) have "uint (qr_weight (snd q)) \<le> uint (qr_weight (snd p))" by auto
    then show "qr_weight (snd p) \<ge> qr_weight (snd q)" by (simp add: word_le_def)
  qed
  then show ?thesis using m(1) ms by (simp add: order_rules_def sorted_wrt_map)
qed

text \<open>The default profile is accepted by the handler and stored as it is.\<close>

theorem SetDefaultProfile_ok:
  "HandleQueryProfiles SetDefaultProfile [] False = Inr (True, SetDefaultProfile)"
  by (simp add: HandleQueryProfiles_def SetDefaultProfile_def profile_step_def order_rules_def rule_step_def
      rule_ikey_def emplace_def ZPDS_MAX_PROFILE_RULES_def ZPDS_MAX_RULE_WEIGHT_def QRY_UNKNOWN_def
      QRY_COMPLETION_PHOTON_def QRY_COMPLETION_NOTOPH_def QRY_COMPLETION_WIKIDATA_def QueryRuleT_new_def)

end
