(* ===== verification/UserDataService.thy ===== *)
theory UserDataService
  imports HandleData Profiles
begin

text \<open>
  Component \<open>UserDataService\<close> (\<open>src/store/UserDataService.cc\<close>): users are created and changed by exters
  (the external clients of the system) or by themselves, read back field by field, and reset their
  passwords. The fields a writer or reader may touch are bit sets.
\<close>

section \<open>Fields and permissions\<close>

definition User_AllowedFieldsFilter :: "int \<Rightarrow> int" where
  "User_AllowedFieldsFilter update =
     fold (add_flag update) [ZPDS_UDFLD_SIGNKEY, ZPDS_UDFLD_PASSKEY, ZPDS_UDFLD_INFO, ZPDS_UDFLD_GNAME,
       ZPDS_UDFLD_MOBILE, ZPDS_UDFLD_EMAIL, ZPDS_UDFLD_INVITED, ZPDS_UDFLD_TAGS, ZPDS_UDFLD_SUBSCR,
       ZPDS_UDFLD_CATEGORIES] 0"

definition user_perms :: "UserDataT \<Rightarrow> UserDataT \<Rightarrow> bool \<Rightarrow> int \<Rightarrow> int" where
  "user_perms updater cdata found action =
     (if user_keytype updater = K_USERDATA \<and> user_name updater = user_name cdata then ZPDS_WRITR_IS_SELF
      else if user_is_admin updater then ZPDS_WRITR_IS_ADMIN
      else if user_can_add_users updater then
        (if \<not> found \<and> (action = ZPDS_UACTION_CREATE \<or> action = ZPDS_UACTION_UPSERT) then ZPDS_WRITR_CREATING
         else if found \<and> (action = ZPDS_UACTION_UPSERT \<or> action = ZPDS_UACTION_UPDATE) \<and> user_name updater = user_manager cdata
           then ZPDS_WRITR_UPDATING
         else if found \<and> action = ZPDS_UACTION_DELETE \<and> user_name updater = user_manager cdata
           then ZPDS_WRITR_DELETING
         else 0)
      else 0)"

text \<open>A field of the message: both the request and the permissions must have its bit.\<close>

definition may :: "int \<Rightarrow> int \<Rightarrow> int \<Rightarrow> int \<Rightarrow> bool" where
  "may flds field perms wrt \<longleftrightarrow> has flds field \<and> has perms wrt"

text \<open>\<open>LOCAL_HANDLE_STRING\<close>, \<open>LOCAL_HANDLE_ENUM\<close>: with \<open>merge\<close>, an empty or zero value keeps the old one.\<close>

definition handle_string :: "bool \<Rightarrow> string \<Rightarrow> (string \<Rightarrow> 'c \<Rightarrow> 'c) \<Rightarrow> 'c \<Rightarrow> 'c" where
  "handle_string merge v upd c = (if merge \<and> v = [] then c else upd v c)"

definition handle_enum :: "bool \<Rightarrow> int \<Rightarrow> (int \<Rightarrow> 'c \<Rightarrow> 'c) \<Rightarrow> 'c \<Rightarrow> 'c" where
  "handle_enum merge v upd c = (if merge \<and> v = 0 then c else upd v c)"

definition new_signkey :: "('b, 'd) env \<Rightarrow> UserDataT \<Rightarrow> (('b, 'd) shared, UserDataT) act" where
  "new_signkey E cdata =
     bindA (Create_new E ENCODEKEY_ALGO_AES128CBC) (\<lambda>key.
       ret (cdata\<lparr>user_signkey := \<lparr>sk_pubkey = B64_Encode (b64 E) [], sk_seckey = B64_Encode (b64 E) key,
          sk_algo = ENCODEKEY_ALGO_AES128CBC\<rparr>\<rparr>))"

definition set_passkey :: "int \<Rightarrow> bool \<Rightarrow> UserDataT \<Rightarrow> UserDataT \<Rightarrow> (('b, 'd) shared, UserDataT) act" where
  "set_passkey ecode merge data cdata =
     bindA (throwIf (user_passkey data = []) (BadDataException ''Passkey is blank'' ecode)) (\<lambda>_.
       ret (handle_string merge (user_passkey data) (\<lambda>v c. c\<lparr>user_passkey := v\<rparr>) cdata))"

definition whenA :: "bool \<Rightarrow> ('c \<Rightarrow> ('s, 'c) act) \<Rightarrow> 'c \<Rightarrow> ('s, 'c) act" where
  "whenA b f c = (if b then f c else ret c)"

section \<open>Preparing a record\<close>

text \<open>The fields that are single values.\<close>

definition user_plain_fields :: "int \<Rightarrow> int \<Rightarrow> bool \<Rightarrow> UserDataT \<Rightarrow> UserDataT \<Rightarrow> UserDataT" where
  "user_plain_fields flds perms merge data c0 =
     (let c1 = (if may flds ZPDS_UDFLD_INFO perms ZPDS_WRTPUD_INFO
                then handle_string merge (user_description data) (\<lambda>v c. c\<lparr>user_description := v\<rparr>) c0 else c0);
          c2 = (if may flds ZPDS_UDFLD_GNAME perms ZPDS_WRTPUD_GNAME
                then handle_string merge (user_given_name data) (\<lambda>v c. c\<lparr>user_given_name := v\<rparr>) c1 else c1);
          c3 = (if may flds ZPDS_UDFLD_SUBSCR perms ZPDS_WRTPUD_SUBSCR
                then handle_enum merge (user_subscription data) (\<lambda>v c. c\<lparr>user_subscription := v\<rparr>) c2 else c2);
          c4 = (if may flds ZPDS_UDFLD_MOBILE perms ZPDS_WRTPUD_MOBILE
                then handle_string merge (user_primary_mobile data) (\<lambda>v c. c\<lparr>user_primary_mobile := v\<rparr>) c3 else c3)
      in if may flds ZPDS_UDFLD_EMAIL perms ZPDS_WRTPUD_EMAIL
         then handle_string merge (user_primary_email data) (\<lambda>v c. c\<lparr>user_primary_email := v\<rparr>) c4 else c4)"

definition user_list_fields :: "('b, 'd) env \<Rightarrow> int \<Rightarrow> int \<Rightarrow> bool \<Rightarrow> UserDataT \<Rightarrow> UserDataT \<Rightarrow> (('b, 'd) shared, UserDataT) act" where
  "user_list_fields E flds perms merge data c0 =
     bindA (whenA (may flds ZPDS_UDFLD_PROFILES perms ZPDS_WRTPUD_PROFILES) (\<lambda>c.
        bindA (liftR (\<lambda>_. HandleQueryProfiles (user_profiles data) (user_profiles c) merge)) (\<lambda>(_, ps). ret (c\<lparr>user_profiles := ps\<rparr>))) c0) (\<lambda>c1.
     bindA (whenA (may flds ZPDS_UDFLD_INVITED perms ZPDS_WRTPUD_INVITED) (\<lambda>c. ret (c\<lparr>user_is_invited := user_is_invited data\<rparr>)) c1) (\<lambda>c2.
     bindA (whenA (may flds ZPDS_UDFLD_TAGS perms ZPDS_WRTPUD_TAGS) (\<lambda>c.
        bindA (HandleUserTags E (user_tags data) (user_tags c) [K_USERDATA] merge) (\<lambda>(_, ts). ret (c\<lparr>user_tags := ts\<rparr>))) c2) (\<lambda>c3.
     whenA (may flds ZPDS_UDFLD_CATEGORIES perms ZPDS_WRTPUD_CATEGORIES) (\<lambda>c.
        bindA (HandleUserCategories E (user_categories data) (user_categories c) merge) (\<lambda>(_, cs). ret (c\<lparr>user_categories := cs\<rparr>))) c3)))"

definition User_PrepareData :: "('b, 'd) env \<Rightarrow> UserDataT \<Rightarrow> UserDataT \<Rightarrow> int \<Rightarrow> int \<Rightarrow> bool \<Rightarrow> (('b, 'd) shared, bool \<times> UserDataT) act" where
  "User_PrepareData E updater data action flds merge =
     bindA (throwIf (user_id updater = 0) (BadDataException ''Updater cannot be found'' M_INVALID_PARAM)) (\<lambda>_.
     bindA (throwIf (user_name data = []) (BadDataException ''Name needed'' M_INVALID_PARAM)) (\<lambda>_.
     bindA (liftR (\<lambda>s. GetOne E (UserDataTable E) (kv_get E (db s)) (UserDataT_new\<lparr>user_name := user_name data\<rparr>) U_USERDATA_NAME)) (\<lambda>(found, cdata).
     bindA (throwIf (found \<and> action = ZPDS_UACTION_CREATE) (BadDataException ''User Data already exists, cannot create'' M_INVALID_PARAM)) (\<lambda>_.
     bindA (throwIf (\<not> found \<and> action = ZPDS_UACTION_UPDATE) (BadDataException ''User Data doesnot exist, cannot update'' M_INVALID_PARAM)) (\<lambda>_.
     bindA (throwIf (\<not> found \<and> action = ZPDS_UACTION_DELETE) (BadDataException ''User Data doesnot exist, cannot delete'' M_INVALID_PARAM)) (\<lambda>_.
     bindA (throwIf (\<not> user_is_admin updater \<and> found \<and> user_locked cdata) (BadDataException ''User Data is locked, cannot edit'' M_INVALID_PARAM)) (\<lambda>_.
     let perms = user_perms updater cdata found action in
     bindA (throwIf (perms = ZPDS_WRITR_IS_SELF \<and> action \<noteq> ZPDS_UACTION_UPDATE) (BadDataException ''Self can only update'' M_INVALID_PARAM)) (\<lambda>_.
     if action = ZPDS_UACTION_DELETE \<and> (ZPDS_WRITR_IS_ADMIN OR ZPDS_WRITR_DELETING) \<noteq> 0 then
       ret (found, cdata\<lparr>user_is_deleted := user_is_deleted data, user_expired := user_expired data, user_locked := user_locked data\<rparr>)
     else
       bindA (whenA (may flds ZPDS_UDFLD_SIGNKEY perms ZPDS_WRTPUD_SIGNKEY) (new_signkey E) cdata) (\<lambda>c1.
       bindA (whenA (may flds ZPDS_UDFLD_PASSKEY perms ZPDS_WRTPUD_PASSKEY) (set_passkey M_INVALID_PARAM merge data) c1) (\<lambda>c2.
       bindA (user_list_fields E flds perms merge data (user_plain_fields flds perms merge data c2)) (\<lambda>c3.
       ret (found, if \<not> found \<and> (action = ZPDS_UACTION_CREATE \<or> action = ZPDS_UACTION_UPSERT)
                   then c3\<lparr>user_notfound := False\<rparr> else c3))))))))))))"

section \<open>Changing\<close>

definition user_step :: "('b, 'd) env \<Rightarrow> 64 word \<Rightarrow> UserDataT \<Rightarrow> int \<Rightarrow> int \<Rightarrow> bool \<Rightarrow> UserDataT \<Rightarrow> 'b TransactionT \<times> 64 word \<Rightarrow> (('b, 'd) nstate, 'b TransactionT \<times> 64 word) act" where
  "user_step E currtime updater action flds merge rdata0 = (\<lambda>(txn, n).
     bindA (throwIf (user_name rdata0 = []) (BadDataException (''Name not found: '' @ user_name rdata0) M_INVALID_PARAM)) (\<lambda>_.
     bindA (throwIf (user_name rdata0 \<noteq> SanitNSLower (user_name rdata0))
              (BadDataException (''Name invalid, lowercase and no spaces: '' @ user_name rdata0) M_INVALID_PARAM)) (\<lambda>_.
     bindA (onS (User_PrepareData E updater rdata0 action flds merge)) (\<lambda>(found, rdata).
     bindA (claim_name E K_USERDATA (user_name rdata) ''Duplicate name found: '' ''This name is being worked on: '') (\<lambda>_.
     bindA (throwIf (\<not> found \<and> user_name rdata \<in> set ZPDS_FORBIDDEN_USERNAMES)
              (BadDataException (''Name not valid: '' @ user_name rdata) M_INVALID_PARAM)) (\<lambda>_.
     bindA (if \<not> found then bindA (onS GetNext_main) (\<lambda>i. ret (rdata\<lparr>user_manager := user_name updater, user_id := i,
               user_created_at := currtime\<rparr>)) else ret rdata) (\<lambda>r1.
     bindA (tableAdd E (UserDataTable E) (r1\<lparr>user_updated_at := currtime\<rparr>) found txn ''Cannot Insert user data'') (\<lambda>txn'.
     ret (txn', n + 1)))))))))"

definition User_ManageDataAction :: "('b, 'd) env \<Rightarrow> UserDataT DataRespT \<Rightarrow> (('b, 'd) shared, UserDataT DataRespT) act" where
  "User_ManageDataAction E resp =
     bindA (readA is_master) (\<lambda>m.
     bindA (throwIf (\<not> m) (BadCodeException ''UserData change is master only'' 0)) (\<lambda>_.
     bindA (liftR (\<lambda>_. WriteActionFilter (dr_action resp))) (\<lambda>(action, merge).
     let flds = User_AllowedFieldsFilter (dr_fields resp) in
     bindA (session_of E (dr_username resp) (dr_sessionkey resp) (dr_keytype resp) False
              (BadDataException ''Invalid user login or Invalid session'' M_INVALID_PARAM)) (\<lambda>updater.
     let resp1 = take_payload user_name UserDataT_new resp in
     bindA (CURRTIME_MS E) (\<lambda>currtime.
     with_namecache (
       bindA (foldA (user_step E currtime updater action flds merge) (dr_payloads resp1) (TransactionT_new, 0)) (\<lambda>(txn, n).
       bindA (onS (Commit E currtime (txn\<lparr>tr_updater := user_name updater\<rparr>) True)) (\<lambda>_.
       ret (set_success n resp1)))))))))"

section \<open>Reading\<close>

definition user_reader :: "UserDataT \<Rightarrow> UserDataT \<Rightarrow> int" where
  "user_reader reader cdata =
     (if user_is_admin reader then R_ADMIN
      else if user_keytype reader = K_EXTERDATA \<and> user_name reader = user_manager cdata then R_CREATR
      else if user_keytype reader = K_USERDATA \<and> user_name reader = user_name cdata then R_SELF
      else if user_keytype reader = K_EXTERDATA then R_OTHER
      else if user_keytype reader = K_USERDATA then R_USER
      else R_PUBLIC)"

text \<open>Only name and value of a tag are handed out.\<close>

definition read_tags :: "TagDataT list \<Rightarrow> TagDataT list" where
  "read_tags ts = map (\<lambda>t. TagDataT_new\<lparr>tag_name := tag_name t, tag_value := tag_value t\<rparr>) ts"

definition user_copy :: "int \<Rightarrow> int \<Rightarrow> UserDataT \<Rightarrow> UserDataT \<Rightarrow> UserDataT" where
  "user_copy flds perms cdata d0 =
     (let d1 = (if may flds ZPDS_UDFLD_INFO perms ZPDS_READUD_INFO then d0\<lparr>user_description := user_description cdata\<rparr> else d0);
          d2 = (if may flds ZPDS_UDFLD_GNAME perms ZPDS_READUD_GNAME then d1\<lparr>user_given_name := user_given_name cdata\<rparr> else d1);
          d3 = (if may flds ZPDS_UDFLD_SUBSCR perms ZPDS_READUD_SUBSCR then d2\<lparr>user_subscription := user_subscription cdata\<rparr> else d2);
          d4 = (if may flds ZPDS_UDFLD_MOBILE perms ZPDS_READUD_MOBILE then d3\<lparr>user_primary_mobile := user_primary_mobile cdata\<rparr> else d3);
          d5 = (if may flds ZPDS_UDFLD_EMAIL perms ZPDS_READUD_EMAIL then d4\<lparr>user_primary_email := user_primary_email cdata\<rparr> else d4);
          d6 = (if may flds ZPDS_UDFLD_PROFILES perms ZPDS_READUD_PROFILES then d5\<lparr>user_profiles := user_profiles cdata\<rparr> else d5);
          d7 = (if may flds ZPDS_UDFLD_INVITED perms ZPDS_READUD_INVITED then d6\<lparr>user_is_invited := user_is_invited cdata\<rparr> else d6);
          d8 = (if may flds ZPDS_UDFLD_TAGS perms ZPDS_READUD_TAGS then d7\<lparr>user_tags := user_tags d7 @ read_tags (user_tags cdata)\<rparr> else d7)
      in if may flds ZPDS_UDFLD_CATEGORIES perms ZPDS_READUD_CATEGORIES
         then d8\<lparr>user_categories := user_categories d8 @ user_categories cdata\<rparr> else d8)"

definition User_ReadData :: "('b, 'd) env \<Rightarrow> 'b lookup \<Rightarrow> UserDataT \<Rightarrow> int \<Rightarrow> UserDataT \<Rightarrow> UserDataT res" where
  "User_ReadData E g reader flds data =
     (if user_name data = [] then Inl (BadDataException ''Name is needed'' M_INVALID_PARAM)
      else bindR (GetOne E (UserDataTable E) g (UserDataT_new\<lparr>user_name := user_name data\<rparr>) U_USERDATA_NAME) (\<lambda>(found, cdata).
        if \<not> found then Inr (data\<lparr>user_notfound := True\<rparr>)
        else Inr (user_copy flds (ReaderTypeFilter (user_reader reader cdata)) cdata data)))"

definition User_ReadDataAction :: "('b, 'd) env \<Rightarrow> UserDataT DataRespT \<Rightarrow> (('b, 'd) shared, UserDataT DataRespT) act" where
  "User_ReadDataAction E resp =
     (let flds = User_AllowedFieldsFilter (dr_fields resp) in
     bindA (session_of E (dr_username resp) (dr_sessionkey resp) (dr_keytype resp) False
              (BadDataException ''Invalid reader or Invalid session'' M_INVALID_PARAM)) (\<lambda>reader.
     let readOne = (\<lambda>rdata. if user_name rdata = [] then ret (rdata, 0)
           else bindA (liftR (\<lambda>s. User_ReadData E (kv_get E (db s)) reader flds rdata)) (\<lambda>r. ret (r, count_found user_notfound [r]))) in
     bindA (readOne (dr_payload resp)) (\<lambda>(p, n).
     bindA (mapA readOne (dr_payloads resp)) (\<lambda>rs.
     ret (resp\<lparr>dr_payload := p, dr_payloads := map fst rs, dr_status := (dr_status resp)\<lparr>st_success := True,
        st_inputcount := st_inputcount (dr_status resp) + n + sum_list (map snd rs)\<rparr>\<rparr>)))))"

section \<open>Resetting a password\<close>

definition ZPDS_DEFAULT_ADMIN :: string where "ZPDS_DEFAULT_ADMIN = ''admin''"

definition User_ResetPassAction :: "('b, 'd) env \<Rightarrow> ResetRespT \<Rightarrow> (('b, 'd) shared, ResetRespT) act" where
  "User_ResetPassAction E resp =
     bindA (readA is_master) (\<lambda>m.
     bindA (throwIf (\<not> m) (BadCodeException ''Reset pass is master only'' 0)) (\<lambda>_.
     bindA (throwIf (rr_username resp = []) (BadDataException ''Name cannot be empty'' M_INVALID_PARAM)) (\<lambda>_.
     bindA (throwIf (rr_newpass resp = []) (BadDataException ''Newpass cannot be empty'' M_INVALID_PARAM)) (\<lambda>_.
     bindA (throwIf (rr_oldpass resp = [] \<and> rr_otp resp = []) (BadDataException ''Need oldpass or OTP'' M_INVALID_PARAM)) (\<lambda>_.
     bindA (liftR (\<lambda>s. GetOne E (UserDataTable E) (kv_get E (db s)) (UserDataT_new\<lparr>user_name := rr_username resp\<rparr>) U_USERDATA_NAME)) (\<lambda>(found, data).
     bindA (throwIf (\<not> found) (BadDataException ''This user does not exist'' M_INVALID_PARAM)) (\<lambda>_.
     bindA (throwIf (rr_otp resp = [] \<and> user_passkey data \<noteq> rr_oldpass resp) (BadDataException ''Old password is bad'' M_INVALID_PARAM)) (\<lambda>_.
     bindA (throwIf (rr_oldpass resp = [] \<and> user_last_otp data \<noteq> rr_otp resp) (BadDataException ''OTP mismatch'' M_INVALID_PARAM)) (\<lambda>_.
     bindA (CURRTIME_MS E) (\<lambda>currtime.
     bindA (liftR (\<lambda>s. AddRecord E (UserDataTable E) (kv_get E (db s))
              (data\<lparr>user_passkey := rr_newpass resp, user_updated_at := currtime\<rparr>) found TransactionT_new)) (\<lambda>(ok, txn).
     bindA (throwIf (\<not> ok) (BadDataException ''Cannot Insert passkey data'' 0)) (\<lambda>_.
     bindA (Commit E currtime (txn\<lparr>tr_updater := ZPDS_DEFAULT_ADMIN\<rparr>) True) (\<lambda>_.
     ret (resp\<lparr>rr_status := (rr_status resp)\<lparr>st_success := True\<rparr>\<rparr>))))))))))))))"

end
