(* ===== verification/ExterDataService.thy ===== *)
theory ExterDataService
  imports UserDataService
begin

text \<open>
  Component \<open>ExterDataService\<close> (\<open>src/store/ExterDataService.cc\<close>): the exters, who are created by an
  administrator (\<open>AdminCreateAction\<close> is the command of the local control socket), change themselves and
  others as far as their permissions go, and are read back. An exter is a \<open>UserDataT\<close> in another table.
\<close>

section \<open>The administrator\<close>

definition admin_write :: "('b, 'd) env \<Rightarrow> UserDataT \<Rightarrow> bool \<Rightarrow> bool \<Rightarrow> 64 word \<Rightarrow> bool \<Rightarrow> UserDataT \<Rightarrow> (('b, 'd) shared, unit) act" where
  "admin_write E user admin_flag has_profile currtime found d =
     (let d2 = d\<lparr>user_updated_at := currtime, user_is_admin := admin_flag\<rparr>;
          d3 = (if has_profile then d2\<lparr>user_profiles := SetDefaultProfile\<rparr> else d2) in
      bindA (throwIf (user_passkey user = []) (BadDataException ''Passkey cannot be empty'' M_INVALID_PARAM)) (\<lambda>_.
      bindA (liftR (\<lambda>s. AddRecord E (ExterDataTable E) (kv_get E (db s)) (d3\<lparr>user_passkey := user_passkey user\<rparr>) found
               TransactionT_new)) (\<lambda>(ok, txn).
      bindA (throwIf (\<not> ok) (BadDataException ''Cannot Insert admin data'' 0)) (\<lambda>_.
      Commit E currtime (txn\<lparr>tr_updater := ZPDS_DEFAULT_ADMIN\<rparr>) True))))"

definition AdminCreateAction :: "('b, 'd) env \<Rightarrow> UserDataT \<Rightarrow> bool \<Rightarrow> bool \<Rightarrow> bool \<Rightarrow> (('b, 'd) shared, unit) act" where
  "AdminCreateAction E user update admin_flag has_profile =
     bindA (readA is_master) (\<lambda>m.
     bindA (throwIf (\<not> m) (BadCodeException ''Create exter is master only'' 0)) (\<lambda>_.
     bindA (throwIf (user_name user = []) (BadDataException ''Name cannot be empty'' M_INVALID_PARAM)) (\<lambda>_.
     bindA (liftR (\<lambda>s. GetOne E (ExterDataTable E) (kv_get E (db s))
              (UserDataT_new\<lparr>user_name := SanitNSLower (user_name user)\<rparr>) U_EXTERDATA_NAME)) (\<lambda>(found, data).
     if found \<and> \<not> update then ret ()
     else
       bindA (CURRTIME_MS E) (\<lambda>currtime.
       bindA (if \<not> found then
           bindA (throwIf (user_passkey user = []) (BadDataException ''Passkey cannot be empty'' M_INVALID_PARAM)) (\<lambda>_.
           bindA (new_signkey E (data\<lparr>user_name := user_name user, user_created_at := currtime, user_notfound := False\<rparr>)) (\<lambda>d.
           bindA GetNext_main (\<lambda>i. ret (d\<lparr>user_id := i, user_manager := ZPDS_DEFAULT_ADMIN\<rparr>))))
         else ret data) (\<lambda>d1.
       admin_write E user admin_flag has_profile currtime found d1))))))"

section \<open>Preparing a record\<close>

definition Exter_AllowedFieldsFilter :: "int \<Rightarrow> int" where
  "Exter_AllowedFieldsFilter update =
     fold (add_flag update) [ZPDS_UDFLD_SIGNKEY, ZPDS_UDFLD_PASSKEY, ZPDS_UDFLD_ROLE, ZPDS_UDFLD_INFO,
       ZPDS_UDFLD_GNAME, ZPDS_UDFLD_MOBILE, ZPDS_UDFLD_EMAIL, ZPDS_UDFLD_PROFILES, ZPDS_UDFLD_TAGS] 0"

definition exter_perms :: "UserDataT \<Rightarrow> UserDataT \<Rightarrow> int" where
  "exter_perms updater data =
     (if user_name updater = user_name data then ZPDS_WRITR_IS_SELF
      else if user_is_admin updater then ZPDS_WRITR_IS_ADMIN else 0)"

definition exter_plain_fields :: "int \<Rightarrow> int \<Rightarrow> bool \<Rightarrow> UserDataT \<Rightarrow> UserDataT \<Rightarrow> UserDataT" where
  "exter_plain_fields flds perms merge data c0 =
     (let c1 = (if may flds ZPDS_UDFLD_ROLE perms ZPDS_WRTPED_ROLE
                then c0\<lparr>user_can_add_tags := user_can_add_tags data, user_can_add_category := user_can_add_category data,
                  user_can_add_users := user_can_add_users data, user_can_add_items := user_can_add_items data\<rparr> else c0);
          c2 = (if may flds ZPDS_UDFLD_INFO perms ZPDS_WRTPED_INFO
                then handle_string merge (user_description data) (\<lambda>v c. c\<lparr>user_description := v\<rparr>) c1 else c1);
          c3 = (if may flds ZPDS_UDFLD_GNAME perms ZPDS_WRTPED_GNAME
                then handle_string merge (user_given_name data) (\<lambda>v c. c\<lparr>user_given_name := v\<rparr>) c2 else c2);
          c4 = (if may flds ZPDS_UDFLD_MOBILE perms ZPDS_WRTPED_MOBILE
                then handle_string merge (user_primary_mobile data) (\<lambda>v c. c\<lparr>user_primary_mobile := v\<rparr>) c3 else c3)
      in if may flds ZPDS_UDFLD_EMAIL perms ZPDS_WRTPED_EMAIL
         then handle_string merge (user_primary_email data) (\<lambda>v c. c\<lparr>user_primary_email := v\<rparr>) c4 else c4)"

definition exter_list_fields :: "('b, 'd) env \<Rightarrow> int \<Rightarrow> int \<Rightarrow> bool \<Rightarrow> UserDataT \<Rightarrow> UserDataT \<Rightarrow> (('b, 'd) shared, UserDataT) act" where
  "exter_list_fields E flds perms merge data c0 =
     bindA (whenA (may flds ZPDS_UDFLD_PROFILES perms ZPDS_WRTPED_PROFILES) (\<lambda>c.
        bindA (liftR (\<lambda>_. HandleQueryProfiles (user_profiles data) (user_profiles c) merge)) (\<lambda>(_, ps). ret (c\<lparr>user_profiles := ps\<rparr>))) c0) (\<lambda>c1.
     whenA (may flds ZPDS_UDFLD_TAGS perms ZPDS_WRTPED_TAGS) (\<lambda>c.
        bindA (HandleUserTags E (user_tags data) (user_tags c) [K_EXTERDATA] merge) (\<lambda>(_, ts). ret (c\<lparr>user_tags := ts\<rparr>))) c1)"

definition Exter_PrepareData :: "('b, 'd) env \<Rightarrow> UserDataT \<Rightarrow> UserDataT \<Rightarrow> int \<Rightarrow> int \<Rightarrow> bool \<Rightarrow> (('b, 'd) shared, bool \<times> UserDataT) act" where
  "Exter_PrepareData E updater data action flds merge =
     bindA (throwIf (user_id updater = 0) (BadDataException ''Updater cannot be found'' M_INVALID_PARAM)) (\<lambda>_.
     bindA (throwIf (user_name data = []) (BadDataException ''Name needed'' M_INVALID_PARAM)) (\<lambda>_.
     bindA (liftR (\<lambda>s. GetOne E (ExterDataTable E) (kv_get E (db s)) (UserDataT_new\<lparr>user_name := user_name data\<rparr>) U_EXTERDATA_NAME)) (\<lambda>(found, cdata).
     bindA (throwIf (found \<and> action = ZPDS_UACTION_CREATE) (BadDataException ''Name already exists, cannot create'' M_INVALID_PARAM)) (\<lambda>_.
     bindA (throwIf (\<not> found \<and> action = ZPDS_UACTION_UPDATE) (BadDataException ''Name doesnot exist, cannot update'' M_INVALID_PARAM)) (\<lambda>_.
     bindA (throwIf (\<not> found \<and> action = ZPDS_UACTION_DELETE) (BadDataException ''Name doesnot exist, cannot delete'' M_INVALID_PARAM)) (\<lambda>_.
     bindA (throwIf (\<not> user_is_admin updater \<and> found \<and> user_locked cdata) (BadDataException ''Exter Data is locked, cannot edit'' M_INVALID_PARAM)) (\<lambda>_.
     let perms = exter_perms updater data in
     if action = ZPDS_UACTION_DELETE \<and> ZPDS_WRITR_IS_ADMIN \<noteq> 0 then
       ret (found, cdata\<lparr>user_is_deleted := user_is_deleted data, user_expired := user_expired data, user_locked := user_locked data\<rparr>)
     else
       bindA (whenA (may flds ZPDS_UDFLD_SIGNKEY perms ZPDS_WRTPED_SIGNKEY) (new_signkey E) cdata) (\<lambda>c1.
       bindA (whenA (may flds ZPDS_UDFLD_PASSKEY perms ZPDS_WRTPED_PASSKEY) (set_passkey 0 merge data) c1) (\<lambda>c2.
       bindA (exter_list_fields E flds perms merge data (exter_plain_fields flds perms merge data c2)) (\<lambda>c3.
       ret (found, if \<not> found \<and> (action = ZPDS_UACTION_CREATE \<or> action = ZPDS_UACTION_UPSERT)
                   then c3\<lparr>user_notfound := False\<rparr> else c3)))))))))))"

section \<open>Changing\<close>

definition exter_step :: "('b, 'd) env \<Rightarrow> 64 word \<Rightarrow> UserDataT \<Rightarrow> int \<Rightarrow> int \<Rightarrow> bool \<Rightarrow> UserDataT \<Rightarrow> 'b TransactionT \<times> 64 word \<Rightarrow> (('b, 'd) nstate, 'b TransactionT \<times> 64 word) act" where
  "exter_step E currtime updater action flds merge rdata0 = (\<lambda>(txn, n).
     bindA (throwIf (user_name rdata0 = []) (BadDataException (''Name not found: '' @ user_name rdata0) M_INVALID_PARAM)) (\<lambda>_.
     bindA (throwIf (user_name rdata0 \<noteq> SanitNSLower (user_name rdata0))
              (BadDataException (''Name invalid, lowercase and no spaces: '' @ user_name rdata0) M_INVALID_PARAM)) (\<lambda>_.
     bindA (onS (Exter_PrepareData E updater rdata0 action flds merge)) (\<lambda>(found, rdata).
     bindA (claim_name E K_EXTERDATA (user_name rdata) ''Duplicate name found: '' ''This name is being worked on: '') (\<lambda>_.
     bindA (throwIf (\<not> found \<and> user_name rdata \<in> set ZPDS_FORBIDDEN_USERNAMES)
              (BadDataException (''Name not valid: '' @ user_name rdata) M_INVALID_PARAM)) (\<lambda>_.
     bindA (if \<not> found then bindA (onS GetNext_main) (\<lambda>i. ret (rdata\<lparr>user_manager := user_name updater, user_id := i,
               user_created_at := currtime\<rparr>)) else ret rdata) (\<lambda>r1.
     bindA (tableAdd E (ExterDataTable E) (r1\<lparr>user_updated_at := currtime\<rparr>) found txn ''Cannot Insert exter data'') (\<lambda>txn'.
     ret (txn', n + 1)))))))))"

definition Exter_ManageDataAction :: "('b, 'd) env \<Rightarrow> UserDataT DataRespT \<Rightarrow> (('b, 'd) shared, UserDataT DataRespT) act" where
  "Exter_ManageDataAction E resp =
     bindA (readA is_master) (\<lambda>m.
     bindA (throwIf (\<not> m) (BadCodeException ''ExterData change is master only'' 0)) (\<lambda>_.
     bindA (liftR (\<lambda>_. WriteActionFilter (dr_action resp))) (\<lambda>(action, merge).
     let flds = Exter_AllowedFieldsFilter (dr_fields resp) in
     bindA (session_of E (dr_username resp) (dr_sessionkey resp) K_EXTERDATA True
              (BadDataException ''Invalid updater or Invalid session'' M_INVALID_PARAM)) (\<lambda>updater.
     let resp1 = take_payload user_name UserDataT_new resp in
     bindA (CURRTIME_MS E) (\<lambda>currtime.
     with_namecache (
       bindA (foldA (exter_step E currtime updater action flds merge) (dr_payloads resp1) (TransactionT_new, 0)) (\<lambda>(txn, n).
       bindA (onS (Commit E currtime (txn\<lparr>tr_updater := user_name updater\<rparr>) True)) (\<lambda>_.
       ret (set_success n resp1)))))))))"

section \<open>Reading\<close>

definition exter_reader :: "UserDataT \<Rightarrow> UserDataT \<Rightarrow> int" where
  "exter_reader reader cdata =
     (if user_is_admin reader then R_ADMIN
      else if user_name reader = user_manager cdata then R_CREATR
      else if user_name reader = user_name cdata then R_SELF
      else R_OTHER)"

definition exter_copy :: "int \<Rightarrow> int \<Rightarrow> UserDataT \<Rightarrow> UserDataT \<Rightarrow> UserDataT" where
  "exter_copy flds perms cdata d0 =
     (let d1 = (if may flds ZPDS_UDFLD_ROLE perms ZPDS_READED_ROLE
                then d0\<lparr>user_can_add_tags := user_can_add_tags cdata, user_can_add_category := user_can_add_category cdata,
                  user_can_add_users := user_can_add_users cdata, user_can_add_items := user_can_add_items cdata\<rparr> else d0);
          d2 = (if may flds ZPDS_UDFLD_INFO perms ZPDS_READED_INFO then d1\<lparr>user_description := user_description cdata\<rparr> else d1);
          d3 = (if may flds ZPDS_UDFLD_GNAME perms ZPDS_READED_GNAME then d2\<lparr>user_given_name := user_given_name cdata\<rparr> else d2);
          d4 = (if may flds ZPDS_UDFLD_MOBILE perms ZPDS_READED_MOBILE then d3\<lparr>user_primary_mobile := user_primary_mobile cdata\<rparr> else d3);
          d5 = (if may flds ZPDS_UDFLD_EMAIL perms ZPDS_READED_EMAIL then d4\<lparr>user_primary_email := user_primary_email cdata\<rparr> else d4);
          d6 = (if may flds ZPDS_UDFLD_PROFILES perms ZPDS_READED_PROFILES then d5\<lparr>user_profiles := user_profiles cdata\<rparr> else d5)
      in if may flds ZPDS_UDFLD_TAGS perms ZPDS_READED_TAGS
         then d6\<lparr>user_tags := user_tags d6 @ read_tags (user_tags cdata)\<rparr> else d6)"

definition Exter_ReadData :: "('b, 'd) env \<Rightarrow> 'b lookup \<Rightarrow> UserDataT \<Rightarrow> int \<Rightarrow> UserDataT \<Rightarrow> UserDataT res" where
  "Exter_ReadData E g reader flds data =
     (if user_name data = [] then Inl (BadDataException ''Name needed'' M_INVALID_PARAM)
      else bindR (GetOne E (ExterDataTable E) g (UserDataT_new\<lparr>user_name := user_name data\<rparr>) U_EXTERDATA_NAME) (\<lambda>(found, cdata).
        if \<not> found then Inr (data\<lparr>user_notfound := True\<rparr>)
        else Inr (exter_copy flds (ReaderTypeFilter (exter_reader reader cdata)) cdata data)))"

definition Exter_ReadDataAction :: "('b, 'd) env \<Rightarrow> UserDataT DataRespT \<Rightarrow> (('b, 'd) shared, UserDataT DataRespT) act" where
  "Exter_ReadDataAction E resp =
     (let flds = Exter_AllowedFieldsFilter (dr_fields resp) in
     bindA (session_of E (dr_username resp) (dr_sessionkey resp) K_EXTERDATA True
              (BadDataException ''Invalid reader or Invalid session'' M_INVALID_PARAM)) (\<lambda>reader.
     let readOne = (\<lambda>rdata. if user_name rdata = [] then ret (rdata, 0)
           else bindA (liftR (\<lambda>s. Exter_ReadData E (kv_get E (db s)) reader flds rdata)) (\<lambda>r. ret (r, count_found user_notfound [r]))) in
     bindA (readOne (dr_payload resp)) (\<lambda>(p, n).
     bindA (mapA readOne (dr_payloads resp)) (\<lambda>rs.
     ret (resp\<lparr>dr_payload := p, dr_payloads := map fst rs, dr_status := (dr_status resp)\<lparr>st_success := True,
        st_inputcount := st_inputcount (dr_status resp) + n + sum_list (map snd rs)\<rparr>\<rparr>)))))"

section \<open>Resetting a password\<close>

definition Exter_ResetPassAction :: "('b, 'd) env \<Rightarrow> ResetRespT \<Rightarrow> (('b, 'd) shared, ResetRespT) act" where
  "Exter_ResetPassAction E resp =
     bindA (readA is_master) (\<lambda>m.
     bindA (throwIf (\<not> m) (BadCodeException ''Reset pass is master only'' 0)) (\<lambda>_.
     bindA (throwIf (rr_username resp = []) (BadDataException ''Name cannot be empty'' M_INVALID_PARAM)) (\<lambda>_.
     bindA (throwIf (rr_newpass resp = []) (BadDataException ''Newpass cannot be empty'' M_INVALID_PARAM)) (\<lambda>_.
     bindA (throwIf (rr_oldpass resp = [] \<and> rr_otp resp = []) (BadDataException ''Need oldpass or OTP'' M_INVALID_PARAM)) (\<lambda>_.
     bindA (liftR (\<lambda>s. GetOne E (ExterDataTable E) (kv_get E (db s)) (UserDataT_new\<lparr>user_name := rr_username resp\<rparr>) U_EXTERDATA_NAME)) (\<lambda>(found, data).
     bindA (throwIf (\<not> found) (BadDataException ''This user does not exist'' M_INVALID_PARAM)) (\<lambda>_.
     bindA (throwIf (rr_otp resp = [] \<and> user_passkey data \<noteq> rr_oldpass resp) (BadDataException ''Old password is bad'' M_INVALID_PARAM)) (\<lambda>_.
     bindA (throwIf (rr_oldpass resp = [] \<and> user_last_otp data \<noteq> rr_otp resp) (BadDataException ''OTP mismatch'' M_INVALID_PARAM)) (\<lambda>_.
     bindA (CURRTIME_MS E) (\<lambda>currtime.
     bindA (liftR (\<lambda>s. AddRecord E (ExterDataTable E) (kv_get E (db s))
              (data\<lparr>user_passkey := rr_newpass resp, user_updated_at := currtime\<rparr>) found TransactionT_new)) (\<lambda>(ok, txn).
     bindA (throwIf (\<not> ok) (BadDataException ''Cannot Insert passkey data'' 0)) (\<lambda>_.
     bindA (Commit E currtime (txn\<lparr>tr_updater := ZPDS_DEFAULT_ADMIN\<rparr>) True) (\<lambda>_.
     ret (resp\<lparr>rr_status := (rr_status resp)\<lparr>st_success := True\<rparr>\<rparr>))))))))))))))"

end
