(* ===== verification/ItemDataService.thy ===== *)
theory ItemDataService
  imports ExterDataService
begin

text \<open>
  Component \<open>ItemDataService\<close> with its children \<open>LocalDataService\<close> and \<open>WikiDataService\<close>
  (\<open>src/store\<close>): the items that are searched for. The virtual functions of the children are the fields of
  the record \<open>item_service\<close>.
\<close>

record 'b item_service =
  isv_GetOneRecord :: "'b lookup \<Rightarrow> ItemDataT \<Rightarrow> (bool \<times> ItemDataT) res"
  isv_AddOneRecord :: "'b lookup \<Rightarrow> ItemDataT \<Rightarrow> bool \<Rightarrow> 'b TransactionT \<Rightarrow> (bool \<times> 'b TransactionT) res"
  isv_GetKeyType :: keytype
  isv_AllowedFieldsFilter :: "int \<Rightarrow> int"

section \<open>The two kinds of items\<close>

definition Local_GetOneRecord :: "('b, 'd) env \<Rightarrow> 'b lookup \<Rightarrow> ItemDataT \<Rightarrow> (bool \<times> ItemDataT) res" where
  "Local_GetOneRecord E g data =
     (if item_unique_id data \<noteq> [] then GetOne E (LocalDataTable E) g data U_LOCALDATA_UNIQUEID
      else if item_id data > 0 then GetOne E (LocalDataTable E) g data K_LOCALDATA
      else Inr (False, data))"

definition Local_GetManyRecords :: "('b, 'd) env \<Rightarrow> 'b lookup \<Rightarrow> ItemDataT list \<Rightarrow> ItemDataT list res" where
  "Local_GetManyRecords E g ms = foldR (\<lambda>m out. bindR (Local_GetOneRecord E g m) (\<lambda>(ok, r).
     Inr (out @ [if ok then r else r\<lparr>item_notfound := True\<rparr>]))) ms []"

definition Local_AllowedFieldsFilter :: "int \<Rightarrow> int" where
  "Local_AllowedFieldsFilter update =
     fold (add_flag update) [ZPDS_IDFLD_CANSEE, ZPDS_IDFLD_TAGS, ZPDS_IDFLD_CONTACTS, ZPDS_IDFLD_IMAGES,
       ZPDS_IDFLD_VERSIONS, ZPDS_IDFLD_PARENT, ZPDS_IDFLD_CATEGORY, ZPDS_IDFLD_ORIGIN, ZPDS_IDFLD_LOCALFIELDS,
       ZPDS_IDFLD_OSMFIELDS, ZPDS_IDFLD_IMPORTANCE, ZPDS_IDFLD_GEOMETRY, ZPDS_IDFLD_RATING] 0"

definition LocalDataService :: "('b, 'd) env \<Rightarrow> 'b item_service" where
  "LocalDataService E = \<lparr>isv_GetOneRecord = Local_GetOneRecord E, isv_AddOneRecord = AddRecord E (LocalDataTable E),
     isv_GetKeyType = K_LOCALDATA, isv_AllowedFieldsFilter = Local_AllowedFieldsFilter\<rparr>"

definition Wiki_GetOneRecord :: "('b, 'd) env \<Rightarrow> 'b lookup \<Rightarrow> ItemDataT \<Rightarrow> (bool \<times> ItemDataT) res" where
  "Wiki_GetOneRecord E g data =
     (if item_unique_id data \<noteq> [] then GetOne E (WikiDataTable E) g data U_WIKIDATA_UNIQUEID
      else if item_id data > 0 then GetOne E (WikiDataTable E) g data K_WIKIDATA
      else Inr (False, data))"

definition Wiki_GetManyRecords :: "('b, 'd) env \<Rightarrow> 'b lookup \<Rightarrow> ItemDataT list \<Rightarrow> ItemDataT list res" where
  "Wiki_GetManyRecords E g ms = foldR (\<lambda>m out. bindR (Wiki_GetOneRecord E g m) (\<lambda>(ok, r).
     Inr (out @ [if ok then r else r\<lparr>item_notfound := True\<rparr>]))) ms []"

definition Wiki_AllowedFieldsFilter :: "int \<Rightarrow> int" where
  "Wiki_AllowedFieldsFilter update =
     fold (add_flag update) [ZPDS_IDFLD_TEXTFIELDS, ZPDS_IDFLD_CANSEE, ZPDS_IDFLD_TAGS, ZPDS_IDFLD_CONTACTS,
       ZPDS_IDFLD_IMAGES, ZPDS_IDFLD_VERSIONS, ZPDS_IDFLD_PARENT, ZPDS_IDFLD_CATEGORY, ZPDS_IDFLD_ORIGIN,
       ZPDS_IDFLD_LOCALFIELDS, ZPDS_IDFLD_IMPORTANCE, ZPDS_IDFLD_GEOMETRY, ZPDS_IDFLD_RATING] 0"

definition WikiDataService :: "('b, 'd) env \<Rightarrow> 'b item_service" where
  "WikiDataService E = \<lparr>isv_GetOneRecord = Wiki_GetOneRecord E, isv_AddOneRecord = AddRecord E (WikiDataTable E),
     isv_GetKeyType = K_WIKIDATA, isv_AllowedFieldsFilter = Wiki_AllowedFieldsFilter\<rparr>"

section \<open>Looking up other items\<close>

definition GetUniqueByPrimary :: "keytype \<Rightarrow> keytype" where
  "GetUniqueByPrimary kt =
     (if kt = K_LOCALDATA then U_LOCALDATA_UNIQUEID else if kt = K_WIKIDATA then U_WIKIDATA_UNIQUEID else NOKEY)"

definition GetBlindByPrimaryKey :: "('b, 'd) env \<Rightarrow> 'b lookup \<Rightarrow> ItemDataT \<Rightarrow> keytype \<Rightarrow> (bool \<times> ItemDataT) res" where
  "GetBlindByPrimaryKey E g record kt =
     (case g (EncodePrimaryKey kt (item_id record)) of
        None \<Rightarrow> Inr (False, record\<lparr>item_notfound := True\<rparr>)
      | Some value \<Rightarrow> (case par (c_item E) value of
          (ok, r) \<Rightarrow> if ok then Inr (True, r) else Inl (BadDataException ''Record cannot be parsed'' 0)))"

text \<open>\<open>GetBlindBySecondaryKey\<close> as far as it is used, with \<open>idonly\<close>: the id the unique key leads to. The node
  is refused when its key type IS the one asked for.\<close>

definition GetBlindBySecondaryKey :: "('b, 'd) env \<Rightarrow> 'b lookup \<Rightarrow> string \<Rightarrow> keytype \<Rightarrow> 64 word option" where
  "GetBlindBySecondaryKey E g unique_id kt =
     (if unique_id = [] then None
      else case g (EncodeSecondaryKey (GetUniqueByPrimary kt) [AStr unique_id]) of
        None \<Rightarrow> None
      | Some value \<Rightarrow> (case par (c_node E) value of (ok, node) \<Rightarrow>
          if \<not> ok then None
          else if node_id node = 0 then None
          else if node_keytype node = kt then None
          else Some (node_id node)))"

definition HandleAnother :: "('b, 'd) env \<Rightarrow> 'b lookup \<Rightarrow> ItemRefT \<Rightarrow> ItemRefT \<Rightarrow> bool \<Rightarrow> (bool \<times> ItemRefT) res" where
  "HandleAnother E g idata odata merge =
     (if ref_unique_id idata = [] then
        (if \<not> (ref_id odata = 0 \<or> merge) then Inr (True, odata\<lparr>ref_id := 0\<rparr>) else Inr (False, odata))
      else case GetBlindBySecondaryKey E g (ref_unique_id idata) (ref_keytype idata) of
        None \<Rightarrow> Inl (BadDataException ''Parent Relation does not exist'' 0)
      | Some i \<Rightarrow> if i = ref_id odata then Inr (False, odata) else Inr (True, odata\<lparr>ref_id := i\<rparr>))"

definition relation_step :: "('b, 'd) env \<Rightarrow> 'b lookup \<Rightarrow> keytype \<Rightarrow> ItemDataT \<Rightarrow> bool \<times> ItemDataT list \<Rightarrow> (bool \<times> ItemDataT list) res" where
  "relation_step E g kt var = (\<lambda>(change, odata).
     case GetBlindBySecondaryKey E g (item_unique_id var) kt of
       None \<Rightarrow> Inl (BadDataException ''Child Relation does not exist'' 0)
     | Some i \<Rightarrow> if i \<in> item_id ` set odata then Inr (change, odata)
         else Inr (True, odata @ [ItemDataT_new\<lparr>item_id := i\<rparr>]))"

definition HandleRelation :: "('b, 'd) env \<Rightarrow> 'b lookup \<Rightarrow> keytype \<Rightarrow> ItemDataT list \<Rightarrow> ItemDataT list \<Rightarrow> bool \<Rightarrow> (bool \<times> ItemDataT list) res" where
  "HandleRelation E g kt idata odata merge = foldR (relation_step E g kt) idata (False, if merge then odata else [])"

definition contact_key :: "VerifiedT \<Rightarrow> string" where
  "contact_key var = EncodeSecondaryKey K_NONODE [AI32 (word_of_int (ver_vtype var)), AStr (ver_data var)]"

definition contact_step :: "VerifiedT \<Rightarrow> bool \<times> VerifiedT list \<Rightarrow> (bool \<times> VerifiedT list) res" where
  "contact_step var = (\<lambda>(change, odata).
     if ver_data var = [] then Inl (BadDataException ''Data for contact does not exist'' 0)
     else if contact_key var \<in> contact_key ` set odata then Inr (change, odata)
     else Inr (True, odata @ [var]))"

definition HandleContacts :: "VerifiedT list \<Rightarrow> VerifiedT list \<Rightarrow> bool \<Rightarrow> (bool \<times> VerifiedT list) res" where
  "HandleContacts idata odata merge = foldR contact_step idata (False, if merge then odata else [])"

section \<open>Preparing a record\<close>

definition item_perms :: "UserDataT \<Rightarrow> ItemDataT \<Rightarrow> bool \<Rightarrow> int \<Rightarrow> int" where
  "item_perms updater cdata found action =
     (if user_is_admin updater then ZPDS_WRITR_IS_ADMIN
      else if user_can_add_items updater then
        (if \<not> found \<and> (action = ZPDS_UACTION_CREATE \<or> action = ZPDS_UACTION_UPSERT) then ZPDS_WRITR_CREATING
         else if found \<and> (action = ZPDS_UACTION_UPSERT \<or> action = ZPDS_UACTION_UPDATE) \<and> user_name updater = item_manager cdata
           then ZPDS_WRITR_UPDATING
         else if found \<and> action = ZPDS_UACTION_DELETE \<and> user_name updater = item_manager cdata
           then ZPDS_WRITR_DELETING
         else 0)
      else 0)"

text \<open>\<open>LOCAL_HANDLE_NUMBER\<close>, and a block of such lines.\<close>

definition handle_number :: "bool \<Rightarrow> 'n::zero \<Rightarrow> ('n \<Rightarrow> 'c \<Rightarrow> 'c) \<Rightarrow> 'c \<Rightarrow> 'c" where
  "handle_number merge v upd c = (if merge \<and> v = 0 then c else upd v c)"

definition apply_all :: "('c \<Rightarrow> 'c) list \<Rightarrow> 'c \<Rightarrow> 'c" where
  "apply_all fs c = fold (\<lambda>f. f) fs c"

definition text_fields :: "bool \<Rightarrow> ItemDataT \<Rightarrow> ItemDataT \<Rightarrow> ItemDataT" where
  "text_fields merge data = apply_all
    [handle_string merge (item_title data) (\<lambda>v c. c\<lparr>item_title := v\<rparr>),
     handle_string merge (item_summary data) (\<lambda>v c. c\<lparr>item_summary := v\<rparr>),
     handle_string merge (item_details data) (\<lambda>v c. c\<lparr>item_details := v\<rparr>)]"

definition image_fields :: "bool \<Rightarrow> ItemDataT \<Rightarrow> ItemDataT \<Rightarrow> ItemDataT" where
  "image_fields merge data c = (let c' = apply_all
    [handle_string merge (item_thumbnail data) (\<lambda>v c. c\<lparr>item_thumbnail := v\<rparr>),
     handle_string merge (item_poster data) (\<lambda>v c. c\<lparr>item_poster := v\<rparr>),
     handle_string merge (item_landscape data) (\<lambda>v c. c\<lparr>item_landscape := v\<rparr>)] c
   in c'\<lparr>item_posters := snd (HandleStrings (item_posters data) (item_posters c') merge)\<rparr>)"

definition local_fields :: "bool \<Rightarrow> ItemDataT \<Rightarrow> ItemDataT \<Rightarrow> ItemDataT" where
  "local_fields merge data = apply_all
    [handle_string merge (item_ccode data) (\<lambda>v c. c\<lparr>item_ccode := v\<rparr>),
     handle_string merge (item_scode data) (\<lambda>v c. c\<lparr>item_scode := v\<rparr>),
     handle_string merge (item_city data) (\<lambda>v c. c\<lparr>item_city := v\<rparr>),
     handle_string merge (item_country data) (\<lambda>v c. c\<lparr>item_country := v\<rparr>),
     handle_string merge (item_state data) (\<lambda>v c. c\<lparr>item_state := v\<rparr>),
     handle_string merge (item_fld_name data) (\<lambda>v c. c\<lparr>item_fld_name := v\<rparr>),
     handle_string merge (item_fld_area data) (\<lambda>v c. c\<lparr>item_fld_area := v\<rparr>),
     handle_string merge (item_address data) (\<lambda>v c. c\<lparr>item_address := v\<rparr>),
     handle_string merge (item_pincode data) (\<lambda>v c. c\<lparr>item_pincode := v\<rparr>),
     handle_string merge (item_region data) (\<lambda>v c. c\<lparr>item_region := v\<rparr>),
     handle_number merge (item_accuracy data) (\<lambda>v c. c\<lparr>item_accuracy := v\<rparr>),
     handle_number merge (item_lat data) (\<lambda>v c. c\<lparr>item_lat := v\<rparr>),
     handle_number merge (item_lon data) (\<lambda>v c. c\<lparr>item_lon := v\<rparr>),
     handle_string merge (item_location data) (\<lambda>v c. c\<lparr>item_location := v\<rparr>),
     handle_string merge (item_landmark data) (\<lambda>v c. c\<lparr>item_landmark := v\<rparr>),
     handle_string merge (item_local_name data) (\<lambda>v c. c\<lparr>item_local_name := v\<rparr>)]"

definition osm_fields :: "bool \<Rightarrow> ItemDataT \<Rightarrow> ItemDataT \<Rightarrow> ItemDataT" where
  "osm_fields merge data c = (let c' = apply_all
    [handle_number merge (item_osm_id data) (\<lambda>v c. c\<lparr>item_osm_id := v\<rparr>),
     handle_string merge (item_osm_key data) (\<lambda>v c. c\<lparr>item_osm_key := v\<rparr>),
     handle_string merge (item_osm_value data) (\<lambda>v c. c\<lparr>item_osm_value := v\<rparr>),
     handle_string merge (item_osm_type data) (\<lambda>v c. c\<lparr>item_osm_type := v\<rparr>)] c
   in c'\<lparr>item_attr := snd (HandleUserAttr (item_attr data) (item_attr c') merge)\<rparr>)"

definition doWhen :: "bool \<Rightarrow> ('c \<Rightarrow> 'c) \<Rightarrow> 'c \<Rightarrow> 'c" where
  "doWhen b f c = (if b then f c else c)"

text \<open>The fields in the order of the code: categories, origin and tags; texts, language, who may see it and
  images; contacts, parent and alias; numbers, geometry, place and OSM fields.\<close>

definition item_fields1 :: "('b, 'd) env \<Rightarrow> keytype \<Rightarrow> int \<Rightarrow> int \<Rightarrow> bool \<Rightarrow> ItemDataT \<Rightarrow> ItemDataT \<Rightarrow> (('b, 'd) shared, ItemDataT) act" where
  "item_fields1 E kt flds perms merge data c0 =
     bindA (whenA (may flds ZPDS_IDFLD_CATEGORY perms ZPDS_WRTPID_CATEGORY) (\<lambda>c.
        bindA (HandleUserCategories E (item_categories data) (item_categories c) merge) (\<lambda>(_, cs). ret (c\<lparr>item_categories := cs\<rparr>))) c0) (\<lambda>c1.
     let c2 = doWhen (may flds ZPDS_IDFLD_ORIGIN perms ZPDS_WRTPID_ORIGIN)
          (handle_string merge (item_origin data) (\<lambda>v c. c\<lparr>item_origin := v\<rparr>)) c1 in
     whenA (may flds ZPDS_IDFLD_TAGS perms ZPDS_WRTPID_TAGS) (\<lambda>c.
        bindA (HandleUserTags E (item_tags data) (item_tags c) [kt] merge) (\<lambda>(_, ts). ret (c\<lparr>item_tags := ts\<rparr>))) c2)"

definition item_fields2 :: "int \<Rightarrow> int \<Rightarrow> bool \<Rightarrow> ItemDataT \<Rightarrow> ItemDataT \<Rightarrow> ItemDataT" where
  "item_fields2 flds perms merge data = apply_all
    [doWhen (may flds ZPDS_IDFLD_TEXTFIELDS perms ZPDS_WRTPID_TEXTFIELDS) (text_fields merge data),
     doWhen (may flds ZPDS_IDFLD_LANGUAGE perms ZPDS_WRTPID_LANGUAGE)
       (handle_enum merge (item_lang data) (\<lambda>v c. c\<lparr>item_lang := v\<rparr>)),
     doWhen (may flds ZPDS_IDFLD_CANSEE perms ZPDS_WRTPID_CANSEE)
       (handle_enum merge (item_cansee_type data) (\<lambda>v c. c\<lparr>item_cansee_type := v\<rparr>)),
     doWhen (may flds ZPDS_IDFLD_IMAGES perms ZPDS_WRTPID_IMAGES) (image_fields merge data)]"

definition item_fields3 :: "('b, 'd) env \<Rightarrow> 'b lookup \<Rightarrow> int \<Rightarrow> int \<Rightarrow> bool \<Rightarrow> ItemDataT \<Rightarrow> ItemDataT \<Rightarrow> ItemDataT res" where
  "item_fields3 E g flds perms merge data c0 =
     bindR (if may flds ZPDS_IDFLD_CONTACTS perms ZPDS_WRTPID_CONTACTS
            then bindR (HandleContacts (item_contacts data) (item_contacts c0) merge) (\<lambda>(_, vs). Inr (c0\<lparr>item_contacts := vs\<rparr>))
            else Inr c0) (\<lambda>c1.
     bindR (if may flds ZPDS_IDFLD_PARENT perms ZPDS_WRTPID_PARENT
            then bindR (HandleAnother E g (item_parent data) (item_parent c1) merge) (\<lambda>(_, p). Inr (c1\<lparr>item_parent := p\<rparr>))
            else Inr c1) (\<lambda>c2.
     if may flds ZPDS_IDFLD_ALIAS perms ZPDS_WRTPID_ALIAS
     then bindR (HandleAnother E g (item_alias data) (item_alias c2) merge) (\<lambda>(_, a). Inr (c2\<lparr>item_alias := a\<rparr>))
     else Inr c2))"

definition item_fields4 :: "int \<Rightarrow> int \<Rightarrow> bool \<Rightarrow> ItemDataT \<Rightarrow> ItemDataT \<Rightarrow> ItemDataT" where
  "item_fields4 flds perms merge data = apply_all
    [doWhen (may flds ZPDS_IDFLD_IMPORTANCE perms ZPDS_WRTPID_IMPORTANCE)
       (handle_number merge (item_importance data) (\<lambda>v c. c\<lparr>item_importance := v\<rparr>)),
     doWhen (may flds ZPDS_IDFLD_RATING perms ZPDS_WRTPID_RATING)
       (handle_number merge (item_rating data) (\<lambda>v c. c\<lparr>item_rating := v\<rparr>)),
     doWhen (may flds ZPDS_IDFLD_GEOMETRY perms ZPDS_WRTPID_GEOMETRY)
       (handle_string merge (item_geometry data) (\<lambda>v c. c\<lparr>item_geometry := v\<rparr>)),
     doWhen (may flds ZPDS_IDFLD_LOCALFIELDS perms ZPDS_WRTPID_LOCALFIELDS) (local_fields merge data),
     doWhen (may flds ZPDS_IDFLD_OSMFIELDS perms ZPDS_WRTPID_OSMFIELDS) (osm_fields merge data)]"

definition Item_PrepareData :: "('b, 'd) env \<Rightarrow> 'b item_service \<Rightarrow> UserDataT \<Rightarrow> ItemDataT \<Rightarrow> int \<Rightarrow> int \<Rightarrow> bool \<Rightarrow> (('b, 'd) shared, bool \<times> ItemDataT) act" where
  "Item_PrepareData E S updater data action flds merge =
     bindA (throwIf (user_id updater = 0) (BadDataException ''Updater cannot be found'' M_INVALID_PARAM)) (\<lambda>_.
     bindA (throwIf (item_unique_id data = []) (BadDataException ''Unique ID needed'' M_INVALID_PARAM)) (\<lambda>_.
     bindA (liftR (\<lambda>s. isv_GetOneRecord S (kv_get E (db s)) (ItemDataT_new\<lparr>item_unique_id := item_unique_id data\<rparr>))) (\<lambda>(found, cdata).
     bindA (throwIf (found \<and> action = ZPDS_UACTION_CREATE) (BadDataException ''Item Data already exists, cannot create'' M_INVALID_PARAM)) (\<lambda>_.
     bindA (throwIf (\<not> found \<and> action = ZPDS_UACTION_UPDATE) (BadDataException ''Item Data doesnot exist, cannot update'' M_INVALID_PARAM)) (\<lambda>_.
     bindA (throwIf (\<not> found \<and> action = ZPDS_UACTION_DELETE) (BadDataException ''Item Data doesnot exist, cannot delete'' M_INVALID_PARAM)) (\<lambda>_.
     bindA (throwIf (\<not> user_is_admin updater \<and> found \<and> item_locked cdata) (BadDataException ''Item Data is locked, cannot edit'' M_INVALID_PARAM)) (\<lambda>_.
     let perms = item_perms updater cdata found action in
     if action = ZPDS_UACTION_DELETE \<and> (ZPDS_WRITR_IS_ADMIN OR ZPDS_WRITR_DELETING) \<noteq> 0 then
       ret (found, cdata\<lparr>item_is_deleted := item_is_deleted data, item_expired := item_expired data, item_locked := item_locked data\<rparr>)
     else
       let c0 = (if found then cdata\<lparr>item_olddata := \<lparr>ch_origin = item_origin cdata, ch_categories = item_categories cdata\<rparr>\<rparr> else cdata) in
       bindA (item_fields1 E (isv_GetKeyType S) flds perms merge data c0) (\<lambda>c1.
       bindA (liftR (\<lambda>s. item_fields3 E (kv_get E (db s)) flds perms merge data (item_fields2 flds perms merge data c1))) (\<lambda>c3.
       let c4 = item_fields4 flds perms merge data c3 in
       ret (found, if \<not> found \<and> (action = ZPDS_UACTION_CREATE \<or> action = ZPDS_UACTION_UPSERT)
                   then c4\<lparr>item_notfound := False\<rparr> else c4))))))))))"

section \<open>Changing\<close>

definition item_step :: "('b, 'd) env \<Rightarrow> 'b item_service \<Rightarrow> 64 word \<Rightarrow> UserDataT \<Rightarrow> int \<Rightarrow> int \<Rightarrow> bool \<Rightarrow> ItemDataT \<Rightarrow> 'b TransactionT \<times> 64 word \<Rightarrow> (('b, 'd) nstate, 'b TransactionT \<times> 64 word) act" where
  "item_step E S currtime updater action flds merge rdata0 = (\<lambda>(txn, n).
     bindA (throwIf (item_unique_id rdata0 = []) (BadDataException ''unique_id cannot be empty'' M_INVALID_PARAM)) (\<lambda>_.
     bindA (onS (Item_PrepareData E S updater rdata0 action flds merge)) (\<lambda>(found, rdata).
     bindA (claim_name E (isv_GetKeyType S) (item_unique_id rdata) ''Duplicate unique_id found: '' ''This unique_id is being worked on: '') (\<lambda>_.
     bindA (if \<not> found then bindA (onS GetNext_main) (\<lambda>i. ret (rdata\<lparr>item_manager := user_name updater, item_id := i,
               item_created_at := currtime\<rparr>)) else ret rdata) (\<lambda>r1.
     bindA (onS (liftR (\<lambda>s. isv_AddOneRecord S (kv_get E (db s)) (r1\<lparr>item_updated_at := currtime\<rparr>) found txn))) (\<lambda>(ok, txn').
     bindA (throwIf (\<not> ok) (BadDataException ''Cannot Insert item data'' 0)) (\<lambda>_.
     ret (txn', n + 1))))))))"

definition Item_ManageDataAction :: "('b, 'd) env \<Rightarrow> 'b item_service \<Rightarrow> ItemDataT DataRespT \<Rightarrow> (('b, 'd) shared, ItemDataT DataRespT) act" where
  "Item_ManageDataAction E S resp =
     bindA (readA is_master) (\<lambda>m.
     bindA (throwIf (\<not> m) (BadCodeException ''ItemData change is master only'' 0)) (\<lambda>_.
     bindA (liftR (\<lambda>_. WriteActionFilter (dr_action resp))) (\<lambda>(action, merge).
     let flds = isv_AllowedFieldsFilter S (dr_fields resp) in
     bindA (session_of E (dr_username resp) (dr_sessionkey resp) K_EXTERDATA True
              (BadDataException ''Invalid user login or Invalid session'' M_INVALID_PARAM)) (\<lambda>updater.
     let resp1 = take_payload item_unique_id ItemDataT_new resp in
     bindA (CURRTIME_MS E) (\<lambda>currtime.
     with_namecache (
       bindA (foldA (item_step E S currtime updater action flds merge) (dr_payloads resp1) (TransactionT_new, 0)) (\<lambda>(txn, n).
       bindA (onS (Commit E currtime (txn\<lparr>tr_updater := user_name updater\<rparr>) True)) (\<lambda>_.
       ret (set_success n resp1)))))))))"

section \<open>Reading\<close>

definition item_copy :: "int \<Rightarrow> int \<Rightarrow> ItemDataT \<Rightarrow> ItemDataT \<Rightarrow> ItemDataT" where
  "item_copy flds perms cdata = apply_all
    [doWhen (may flds ZPDS_IDFLD_CATEGORY perms ZPDS_READID_CATEGORY) (\<lambda>d. d\<lparr>item_categories := item_categories cdata\<rparr>),
     doWhen (may flds ZPDS_IDFLD_ORIGIN perms ZPDS_READID_ORIGIN) (\<lambda>d. d\<lparr>item_origin := item_origin cdata\<rparr>),
     doWhen (may flds ZPDS_IDFLD_TAGS perms ZPDS_READID_TAGS) (\<lambda>d. d\<lparr>item_tags := item_tags d @ read_tags (item_tags cdata)\<rparr>),
     doWhen (may flds ZPDS_IDFLD_TEXTFIELDS perms ZPDS_READID_TEXTFIELDS)
       (\<lambda>d. d\<lparr>item_title := item_title cdata, item_summary := item_summary cdata, item_details := item_details cdata\<rparr>),
     doWhen (may flds ZPDS_IDFLD_LANGUAGE perms ZPDS_READID_LANGUAGE) (\<lambda>d. d\<lparr>item_lang := item_lang cdata\<rparr>),
     doWhen (may flds ZPDS_IDFLD_CANSEE perms ZPDS_READID_CANSEE) (\<lambda>d. d\<lparr>item_cansee_type := item_cansee_type cdata\<rparr>),
     doWhen (may flds ZPDS_IDFLD_IMAGES perms ZPDS_READID_IMAGES)
       (\<lambda>d. d\<lparr>item_thumbnail := item_thumbnail cdata, item_poster := item_poster cdata, item_posters := item_posters cdata,
          item_landscape := item_landscape cdata\<rparr>),
     doWhen (may flds ZPDS_IDFLD_CONTACTS perms ZPDS_READID_CONTACTS) (\<lambda>d. d\<lparr>item_contacts := item_contacts cdata\<rparr>),
     doWhen (may flds ZPDS_IDFLD_PARENT perms ZPDS_READID_PARENT) (\<lambda>d. d\<lparr>item_parent := item_parent cdata\<rparr>),
     doWhen (may flds ZPDS_IDFLD_ALIAS perms ZPDS_READID_ALIAS) (\<lambda>d. d\<lparr>item_alias := item_alias cdata\<rparr>),
     doWhen (may flds ZPDS_IDFLD_IMPORTANCE perms ZPDS_READID_IMPORTANCE) (\<lambda>d. d\<lparr>item_importance := item_importance cdata\<rparr>),
     doWhen (may flds ZPDS_IDFLD_RATING perms ZPDS_READID_RATING) (\<lambda>d. d\<lparr>item_rating := item_rating cdata\<rparr>),
     doWhen (may flds ZPDS_IDFLD_GEOMETRY perms ZPDS_READID_GEOMETRY) (\<lambda>d. d\<lparr>item_geometry := item_geometry cdata\<rparr>),
     doWhen (may flds ZPDS_IDFLD_LOCALFIELDS perms ZPDS_READID_LOCALFIELDS)
       (\<lambda>d. d\<lparr>item_ccode := item_ccode cdata,
        item_scode := item_scode cdata,
        item_city := item_city cdata,
        item_country := item_country cdata,
        item_state := item_state cdata,
        item_fld_name := item_fld_name cdata,
        item_fld_area := item_fld_area cdata,
        item_address := item_address cdata,
        item_pincode := item_pincode cdata,
        item_region := item_region cdata,
        item_accuracy := item_accuracy cdata,
        item_lat := item_lat cdata,
        item_lon := item_lon cdata,
        item_location := item_location cdata,
        item_landmark := item_landmark cdata,
        item_local_name := item_local_name cdata\<rparr>),
     doWhen (may flds ZPDS_IDFLD_OSMFIELDS perms ZPDS_READID_OSMFIELDS)
       (\<lambda>d. d\<lparr>item_osm_id := item_osm_id cdata, item_osm_key := item_osm_key cdata, item_osm_value := item_osm_value cdata, item_osm_type := item_osm_type cdata\<rparr>)]"

text \<open>\<open>ValidateUserCategories\<close> may look the reader up again, but only one without an id, and the check of the
  session has just loaded the reader.\<close>

definition item_reader :: "('b, 'd) env \<Rightarrow> UserDataT \<Rightarrow> ItemDataT \<Rightarrow> ItemDataT \<Rightarrow> (('b, 'd) shared, int) act" where
  "item_reader E reader cdata data =
     (if user_is_admin reader then ret R_ADMIN
      else if user_keytype reader = K_EXTERDATA \<and> user_name reader = item_manager cdata then ret R_CREATR
      else if user_keytype reader = K_EXTERDATA then ret R_OTHER
      else if user_keytype reader = K_USERDATA then
        bindA (ValidateUserCategories E reader (item_categories data)) (\<lambda>(ok, _). ret (if ok then R_USER else R_PUBLIC))
      else ret R_PUBLIC)"

definition Item_ReadData :: "('b, 'd) env \<Rightarrow> 'b item_service \<Rightarrow> UserDataT \<Rightarrow> int \<Rightarrow> ItemDataT \<Rightarrow> (('b, 'd) shared, ItemDataT) act" where
  "Item_ReadData E S reader flds data =
     bindA (throwIf (item_unique_id data = []) (BadDataException ''unique_id is needed'' M_INVALID_PARAM)) (\<lambda>_.
     bindA (liftR (\<lambda>s. isv_GetOneRecord S (kv_get E (db s)) (ItemDataT_new\<lparr>item_unique_id := item_unique_id data\<rparr>))) (\<lambda>(found, cdata).
     if \<not> found then ret (data\<lparr>item_notfound := True\<rparr>)
     else bindA (item_reader E reader cdata data) (\<lambda>rtype. ret (item_copy flds (ReaderTypeFilter rtype) cdata data))))"

text \<open>The key type of the reader is the field \<open>usertype\<close> of the request.\<close>

definition Item_ReadDataAction :: "('b, 'd) env \<Rightarrow> 'b item_service \<Rightarrow> ItemDataT DataRespT \<Rightarrow> (('b, 'd) shared, ItemDataT DataRespT) act" where
  "Item_ReadDataAction E S resp =
     (let flds = isv_AllowedFieldsFilter S (dr_fields resp) in
     bindA (session_of E (dr_username resp) (dr_sessionkey resp) (dr_keytype resp) False
              (BadDataException ''Invalid reader or Invalid session'' M_INVALID_PARAM)) (\<lambda>reader.
     let readOne = (\<lambda>rdata. if item_unique_id rdata = [] then ret (rdata, 0)
           else bindA (Item_ReadData E S reader flds rdata) (\<lambda>r. ret (r, count_found item_notfound [r]))) in
     bindA (readOne (dr_payload resp)) (\<lambda>(p, n).
     bindA (mapA readOne (dr_payloads resp)) (\<lambda>rs.
     ret (resp\<lparr>dr_payload := p, dr_payloads := map fst rs, dr_status := (dr_status resp)\<lparr>st_success := True,
        st_inputcount := st_inputcount (dr_status resp) + n + sum_list (map snd rs)\<rparr>\<rparr>)))))"

section \<open>The cache of items\<close>

definition Item_Pack :: "ItemDataT \<Rightarrow> ItemDataT" where
  "Item_Pack data = ItemDataT_new\<lparr>item_id := item_id data, item_unique_id := item_unique_id data,
     item_is_deleted := item_is_deleted data\<rparr>"

definition Item_Get :: "('b, 'd) env \<Rightarrow> 'b item_service \<Rightarrow> ItemDataT \<Rightarrow> (('b, 'd) shared, ItemDataT) act" where
  "Item_Get E S data =
     (let skey = EncodeSecondaryKey (GetUniqueByPrimary (isv_GetKeyType S)) [AStr (item_unique_id data)] in
     bindA (bindA (readA (\<lambda>s. GetAssoc skey (dbcache s))) (\<lambda>c.
       case c of Some temp \<Rightarrow> ret (par (c_item E) temp)
       | None \<Rightarrow> bindA (liftR (\<lambda>s. isv_GetOneRecord S (kv_get E (db s)) data)) (\<lambda>(found, d).
           if found then bindA (SetCache skey (ser (c_item E) (Item_Pack d))) (\<lambda>_. ret (True, d)) else ret (False, d))))
     (\<lambda>(found, d). ret (if found then d else d\<lparr>item_notfound := True\<rparr>)))"

end
