(* ===== verification/Endpoints.thy ===== *)
theory Endpoints
  imports Replication ItemDataService
begin

text \<open>
  The two endpoints a host offers to the others: \<open>RemoteEndpointService\<close> and \<open>MasterEndpointService\<close>
  (\<open>include/hrpc\<close>) with the checks of \<open>ProtoServiceBase\<close>. A request is given by the headers the code looks
  at and its body after the transfer encoding is undone (\<open>None\<close> when that fails). Every exception is
  caught and becomes an error answer; what was done before it stays done.
\<close>

record 'b hrpc_request =
  rq_content_type :: "string option"
  rq_accept :: "string option"
  rq_encoding :: "string option"
  rq_secret :: "string option"
  rq_service :: "string option"
  rq_body :: "'b option"

datatype 'b reply = ServiceOK 'b | ServiceErr int string

section \<open>\<open>ProtoServiceBase\<close>\<close>

text \<open>Without the last header the code dereferences the end of the map; such a request is refused here.\<close>

definition ProtoRequest :: "'b hrpc_request \<Rightarrow> bool" where
  "ProtoRequest rq =
     (case (case rq_content_type rq of None \<Rightarrow> rq_accept rq | Some c \<Rightarrow> Some c) of
        None \<Rightarrow> False
      | Some c \<Rightarrow> if \<not> starts_with c ''application/proto'' then False
          else (case rq_encoding rq of None \<Rightarrow> False | Some t \<Rightarrow> starts_with t ''base64''))"

definition SharedSecretOK :: "'b hrpc_request \<Rightarrow> string \<Rightarrow> bool" where
  "SharedSecretOK rq sharedkey = (case rq_secret rq of None \<Rightarrow> False | Some x \<Rightarrow> x = sharedkey)"

definition ServiceName :: "'b hrpc_request \<Rightarrow> int res" where
  "ServiceName rq = (case rq_service rq of None \<Rightarrow> Inr 0 | Some x \<Rightarrow> stoi10 x)"

definition parse_body :: "('m, 'b) codec \<Rightarrow> 'b hrpc_request \<Rightarrow> 'm res" where
  "parse_body c rq = (case rq_body rq of None \<Rightarrow> Inl (StdException ''S64String'')
     | Some b \<Rightarrow> (case par c b of (ok, m) \<Rightarrow> if ok then Inr m else Inl (BadDataException ''Bad Protobuf Format'' 0)))"

section \<open>\<open>RemoteEndpointService\<close>\<close>

definition RemoteT_new :: RemoteT where
  "RemoteT_new = \<lparr>rem_address = [], rem_logcounter = 0, rem_updated_at = 0\<rparr>"

definition remote_register :: "('b, 'd) env \<Rightarrow> 'b hrpc_request \<Rightarrow> (('b, 'd) shared, 'b) act" where
  "remote_register E rq =
     bindA (liftR (\<lambda>_. parse_body (c_state E) rq)) (\<lambda>data.
     bindA (readA is_master) (\<lambda>m.
     bindA (if m then bindA (AddHost (sta_thisurl data) (sta_logcounter data) (sta_ts data)) (\<lambda>_. HostUpdate E) else ret ()) (\<lambda>_.
     bindA (GetHosts E StateT_new) (\<lambda>st. ret (ser (c_state E) st)))))"

definition remote_readone :: "('b, 'd) env \<Rightarrow> 'b hrpc_request \<Rightarrow> (('b, 'd) shared, 'b) act" where
  "remote_readone E rq =
     bindA (liftR (\<lambda>_. parse_body (c_trans E) rq)) (\<lambda>data.
     bindA (ReadOne E data) (\<lambda>t. ret (ser (c_trans E) t)))"

definition remote_translog :: "('b, 'd) env \<Rightarrow> 'b hrpc_request \<Rightarrow> (('b, 'd) shared, 'b) act" where
  "remote_translog E rq =
     bindA (liftR (\<lambda>_. parse_body (c_tlist E) rq)) (\<lambda>data.
     bindA (readA logcounter) (\<lambda>logc.
     bindA (throwIf (tl_lastid data > logc) (BadDataException ''Remote Log Counter ahead'' 0)) (\<lambda>_.
     bindA (if tl_lastid data = logc then
              bindA (CURRTIME_MS E) (\<lambda>now.
              bindA (updA (\<lambda>s. if lastslave s = [] then s\<lparr>lastslave := tl_endpoint data\<rparr> else s)) (\<lambda>_.
              ret (data\<lparr>tl_ts := now, tl_currid := logc, tl_limit := 0\<rparr>)))
            else ReadLog E data) (\<lambda>data'.
     ret (ser (c_tlist E) data')))))"

definition remote_setinfo :: "('b, 'd) env \<Rightarrow> 'b hrpc_request \<Rightarrow> (('b, 'd) shared, 'b) act" where
  "remote_setinfo E rq =
     bindA (liftR (\<lambda>_. parse_body (c_state E) rq)) (\<lambda>data.
     bindA (SetHosts data) (\<lambda>_.
     bindA (GetHosts E StateT_new) (\<lambda>st. ret (ser (c_state E) st))))"

definition remote_addhost :: "('b, 'd) env \<Rightarrow> (RemoteT, 'b) codec \<Rightarrow> 'b hrpc_request \<Rightarrow> (('b, 'd) shared, 'b) act" where
  "remote_addhost E c_remote rq =
     bindA (liftR (\<lambda>_. parse_body c_remote rq)) (\<lambda>data.
     bindA (readA is_master) (\<lambda>m.
     bindA (throwIf m (BadDataException ''Host addition is slave only'' 0)) (\<lambda>_.
     bindA (AddHost (rem_address data) (rem_logcounter data) (rem_updated_at data)) (\<lambda>_.
     ret (ser c_remote RemoteT_new)))))"

definition remote_bufftrans :: "('b, 'd) env \<Rightarrow> 'b hrpc_request \<Rightarrow> (('b, 'd) shared, 'b) act" where
  "remote_bufftrans E rq =
     bindA (liftR (\<lambda>_. parse_body (c_trans E) rq)) (\<lambda>data.
     bindA (readA is_master) (\<lambda>m.
     bindA (throwIf m (BadDataException ''Data addition is slave only'' 0)) (\<lambda>_.
     bindA (updA (\<lambda>s. s\<lparr>transactions := AddOne (tr_id data) (ser (c_trans E) data) (transactions s)\<rparr>)) (\<lambda>_.
     ret (ser (c_trans E) data)))))"

definition remote_action :: "('b, 'd) env \<Rightarrow> (RemoteT, 'b) codec \<Rightarrow> 'b hrpc_request \<Rightarrow> (('b, 'd) shared, 'b) act" where
  "remote_action E c_remote rq =
     bindA (throwIf (\<not> ProtoRequest rq) (BadDataException ''Only Protobuf Supported'' 0)) (\<lambda>_.
     bindA (readA shared_secret) (\<lambda>secret.
     bindA (throwIf (\<not> SharedSecretOK rq secret) (BadDataException ''Bad Shared Secret'' 0)) (\<lambda>_.
     bindA (liftR (\<lambda>_. ServiceName rq)) (\<lambda>sname.
     bindA (readA is_ready) (\<lambda>ready.
     bindA (throwIf (\<not> ready) (BadDataException ''System Not Ready'' 0)) (\<lambda>_.
     if sname = R_REGISTER then remote_register E rq
     else if sname = R_READONE then remote_readone E rq
     else if sname = R_TRANSLOG then remote_translog E rq
     else if sname = R_SETINFO then remote_setinfo E rq
     else if sname = R_ADDHOST then remote_addhost E c_remote rq
     else if sname = R_BUFFTRANS then remote_bufftrans E rq
     else raise (BadDataException ''Service Name unknown or unimplemented'' 0)))))))"

definition RemoteEndpoint :: "('b, 'd) env \<Rightarrow> (RemoteT, 'b) codec \<Rightarrow> 'b hrpc_request \<Rightarrow> ('b, 'd) shared \<Rightarrow> 'b reply \<times> ('b, 'd) shared" where
  "RemoteEndpoint E c_remote rq s =
     (case remote_action E c_remote rq s of
        (Inr output, s') \<Rightarrow> (ServiceOK output, s')
      | (Inl e, s') \<Rightarrow> (ServiceErr M_UNKNOWN ''Unknown Error'', s'))"

section \<open>\<open>MasterEndpointService\<close>\<close>

text \<open>The codecs of the responses the master handles for a slave.\<close>

record 'b master_codecs =
  c_tagresp :: "(TagDataT DataRespT, 'b) codec"
  c_catresp :: "(CategoryT DataRespT, 'b) codec"
  c_userresp :: "(UserDataT DataRespT, 'b) codec"
  c_resetresp :: "(ResetRespT, 'b) codec"
  c_itemresp :: "(ItemDataT DataRespT, 'b) codec"

definition M_MANAGE_TAGS :: int where "M_MANAGE_TAGS = 1"
definition M_MANAGE_CATEGORY :: int where "M_MANAGE_CATEGORY = 3"
definition M_MANAGE_EXTER :: int where "M_MANAGE_EXTER = 4"
definition M_MANAGE_USER :: int where "M_MANAGE_USER = 5"
definition M_RESETPASS_EXTER :: int where "M_RESETPASS_EXTER = 6"
definition M_RESETPASS_USER :: int where "M_RESETPASS_USER = 7"
definition M_MANAGE_LOCALDATA :: int where "M_MANAGE_LOCALDATA = 8"
definition M_MANAGE_WIKIDATA :: int where "M_MANAGE_WIKIDATA = 9"

lemmas master_cmd_defs = M_MANAGE_TAGS_def M_MANAGE_CATEGORY_def M_MANAGE_EXTER_def M_MANAGE_USER_def
  M_RESETPASS_EXTER_def M_RESETPASS_USER_def M_MANAGE_LOCALDATA_def M_MANAGE_WIKIDATA_def

text \<open>The macro \<open>HANDLE_HRPC_SERVICE\<close>\<close>

definition handle_hrpc :: "('m, 'b) codec \<Rightarrow> ('m \<Rightarrow> (('b, 'd) shared, 'm) act) \<Rightarrow> 'b hrpc_request \<Rightarrow> (('b, 'd) shared, 'b) act" where
  "handle_hrpc c serv rq =
     bindA (liftR (\<lambda>_. parse_body c rq)) (\<lambda>data. bindA (serv data) (\<lambda>data'. ret (ser c data')))"

definition master_action :: "('b, 'd) env \<Rightarrow> 'b master_codecs \<Rightarrow> 'b hrpc_request \<Rightarrow> (('b, 'd) shared, 'b) act" where
  "master_action E C rq =
     bindA (throwIf (\<not> ProtoRequest rq) (BadDataException ''Only Protobuf Supported'' 0)) (\<lambda>_.
     bindA (readA shared_secret) (\<lambda>secret.
     bindA (throwIf (\<not> SharedSecretOK rq secret) (BadDataException ''Bad Shared Secret'' 0)) (\<lambda>_.
     bindA (liftR (\<lambda>_. ServiceName rq)) (\<lambda>sname.
     bindA (readA is_ready) (\<lambda>ready.
     bindA (throwIf (\<not> ready) (BadDataException ''System Not Ready'' 0)) (\<lambda>_.
     bindA (readA is_master) (\<lambda>m.
     bindA (throwIf (\<not> m) (BadDataException ''System Not Master'' 0)) (\<lambda>_.
     bindA (CURRTIME_MS E) (\<lambda>currtime.
     bindA (if sname = M_MANAGE_TAGS then handle_hrpc (c_tagresp C) (TagData_ManageDataAction E) rq
     else if sname = M_MANAGE_CATEGORY then handle_hrpc (c_catresp C) (Category_ManageDataAction E) rq
     else if sname = M_MANAGE_EXTER then handle_hrpc (c_userresp C) (Exter_ManageDataAction E) rq
     else if sname = M_MANAGE_USER then handle_hrpc (c_userresp C) (User_ManageDataAction E) rq
     else if sname = M_RESETPASS_EXTER then handle_hrpc (c_resetresp C) (Exter_ResetPassAction E) rq
     else if sname = M_RESETPASS_USER then handle_hrpc (c_resetresp C) (User_ResetPassAction E) rq
     else if sname = M_MANAGE_LOCALDATA then handle_hrpc (c_itemresp C) (Item_ManageDataAction E (LocalDataService E)) rq
     else if sname = M_MANAGE_WIKIDATA then handle_hrpc (c_itemresp C) (Item_ManageDataAction E (WikiDataService E)) rq
     else bindA (CURRTIME_MS E) (\<lambda>_. raise (BadDataException ''Service Name unknown or unimplemented'' 0))) (\<lambda>output.
     bindA (CURRTIME_MS E) (\<lambda>_. ret output)))))))))))"

text \<open>The handler of \<open>LocalException\<close> declares an \<open>ecode\<close> of its own: the answer has the code the outer one was
  initialised with.\<close>

definition MasterEndpoint :: "('b, 'd) env \<Rightarrow> 'b master_codecs \<Rightarrow> 'b hrpc_request \<Rightarrow> ('b, 'd) shared \<Rightarrow> 'b reply \<times> ('b, 'd) shared" where
  "MasterEndpoint E C rq s =
     (case master_action E C rq s of
        (Inr output, s') \<Rightarrow> (ServiceOK output, s')
      | (Inl (LocalException msg _), s') \<Rightarrow> (ServiceErr M_UNKNOWN msg, s')
      | (Inl e, s') \<Rightarrow> (ServiceErr M_UNKNOWN ''Unknown Error'', s'))"

section \<open>What the client sees\<close>

text \<open>An answer as the client of the other host reads it, and a request as its header is written.\<close>

definition http_of :: "'b \<Rightarrow> 'b reply \<Rightarrow> 'b http_resp" where
  "http_of e r = (case r of
      ServiceOK b \<Rightarrow> \<lparr>hr_status = 200, hr_service_error = None, hr_encoded = True, hr_text = [], hr_body = b\<rparr>
    | ServiceErr c msg \<Rightarrow> \<lparr>hr_status = 200, hr_service_error = Some c, hr_encoded = False, hr_text = msg, hr_body = e\<rparr>)"

definition request_of :: "'b http_req \<Rightarrow> 'b hrpc_request" where
  "request_of q = \<lparr>rq_content_type = Some ''application/proto'', rq_accept = None, rq_encoding = Some ''base64'',
     rq_secret = Some (hq_secret q), rq_service = Some (to_dec (nat (hq_service q))), rq_body = Some (hq_body q)\<rparr>"

end
