(* ===== verification/ReplicationLaws.thy ===== *)
theory ReplicationLaws
  imports Endpoints "HOL-Library.Product_Lexorder"
begin

text \<open>
  What the replication is for: a slave that follows a master ends up with the same log and the same data,
  and the hosts that see each other's counters elect the same master.
\<close>

section \<open>Committing the entries of another log\<close>

lemma CheckPrimaryKey_store:
  assumes "store_key k"
  shows "\<exists>ok. CheckPrimaryKey k = Inr ok \<and> (ok \<longrightarrow> (\<exists>p. DecodePrimaryKey k = Inr p))"
proof -
  from assms obtain u where u: "byte_keytype u" "starts_with k (ZPDS_FMT_ID_KEY u)"
    "K_NONODE \<le> u \<and> u \<le> K_MAXNODE \<longrightarrow> (\<exists>i. k = EncodePrimaryKey u i)" by (auto simp: store_key_def)
  show ?thesis
  proof (cases "K_NONODE \<le> u \<and> u \<le> K_MAXNODE")
    case True
    with u obtain i where "k = EncodePrimaryKey u i" by auto
    with True u(1) show ?thesis by (auto simp: CheckPrimaryKey_Encode DecodePrimaryKey_Encode)
  next
    case False
    obtain r where "k = ZPDS_FMT_ID_KEY u @ r" using u(2) by (auto simp: starts_with_iff)
    with CheckPrimaryKey_other [OF u(1)] False show ?thesis by auto
  qed
qed

text \<open>On keys of the store the step into the caches does not throw.\<close>

lemma cache_item_ok:
  assumes "store_key (ti_key it)"
  shows "fst (cache_item E it s) = Inr ()"
proof -
  from CheckPrimaryKey_store [OF assms] obtain ok where c: "CheckPrimaryKey (ti_key it) = Inr ok"
    "ok \<longrightarrow> (\<exists>p. DecodePrimaryKey (ti_key it) = Inr p)" by blast
  show ?thesis
    using c by (cases ok) (auto simp: cache_item_def bindA_liftR DelCache_def split: prod.split)
qed

lemma cache_items_ok:
  "\<forall>it \<in> set its. store_key (ti_key it) \<Longrightarrow> fst (foldA (\<lambda>it _. cache_item E it) its () s) = Inr ()"
proof (induction its arbitrary: s)
  case (Cons it its)
  then have "cache_item E it s = (Inr (), snd (cache_item E it s))" using cache_item_ok by (metis list.set_intros(1) prod.collapse)
  with Cons show ?case by (simp add: bindA_step)
qed simp

lemma AddToCache_ok:
  assumes "\<forall>it \<in> set (tr_item t). store_key (ti_key it)"
  shows "fst (AddToCache E t s) = Inr ()"
proof (cases "tr_item t = []")
  case False
  let ?m = "foldA (\<lambda>it _. cache_item E it) (tr_item t) ()"
  obtain w where "?m s = (Inr (), w)" using cache_items_ok [OF assms, of E s] by (metis prod.collapse)
  with False show ?thesis by (simp add: AddToCache_def bindA_step [where m = ?m])
qed (simp add: AddToCache_def)

text \<open>What holds of the store of every host: its log is complete up to its counter, every entry carries data,
  and the data is the replay of the log. \<open>log_prefix\<close>: two logs agree up to an entry.\<close>

definition log_data :: "('b, 'd) env \<Rightarrow> 'b lookup \<Rightarrow> 64 word \<Rightarrow> bool" where
  "log_data E g n \<longleftrightarrow> (\<forall>i t. 0 < i \<longrightarrow> i \<le> n \<longrightarrow> log_entry E g i = Some t \<longrightarrow> tr_item t \<noteq> [] \<and> data_items t)"

definition replica :: "('b, 'd) env \<Rightarrow> 'b lookup \<Rightarrow> 'b lookup \<Rightarrow> 64 word \<Rightarrow> bool" where
  "replica E g0 g n \<longleftrightarrow> log_ok E g n \<and> log_data E g n \<and> store_keys_ok g \<and> replays E g0 g n"

definition log_prefix :: "('b, 'd) env \<Rightarrow> 'b lookup \<Rightarrow> 'b lookup \<Rightarrow> 64 word \<Rightarrow> bool" where
  "log_prefix E g h n \<longleftrightarrow> (\<forall>i \<le> n. log_entry E g i = log_entry E h i)"

lemma Commit_replica:
  assumes "kv_ok E" and "pb_ok E" and "writes_succeed E" and "tr_item t \<noteq> []" and "data_items t"
    and "replica E g0 (kv_get E (db s)) (logcounter s)" and "logcounter s + 1 \<noteq> 0"
  shows "let s' = snd (Commit E ct t m s); n = logcounter s + 1 in
    replica E g0 (kv_get E (db s')) n \<and> logcounter s' = n \<and> frame s' = frame s \<and>
    (\<forall>i. log_entry E (kv_get E (db s')) i = (if i = n then Some (logged ct m n t) else log_entry E (kv_get E (db s)) i))"
proof -
  let ?n = "logcounter s + 1" and ?g = "kv_get E (db s)"
  let ?t = "logged ct m ?n t"
  have t: "data_items ?t" "tr_id ?t = ?n" "tr_item ?t \<noteq> []" using assms(4,5) by (simp_all add: data_items_def logged_def)
  have r: "log_ok E ?g (logcounter s)" "log_data E ?g (logcounter s)" "store_keys_ok ?g" "replays E g0 ?g (logcounter s)"
    using assms(6) by (simp_all add: replica_def)
  have "log_data E (commit_view E ?t ?g) ?n"
    unfolding log_data_def log_entry_commit [OF t(1) assms(2)] t(2)
    using t r(2) word_le_inc [OF assms(7)] by (auto simp: log_data_def split: if_splits)
  with log_ok_commit [OF assms(2) r(1) t(1,2) assms(7)] store_keys_ok_commit [OF r(3) t(1), of E]
    replays_commit [OF assms(2) t(1,2) assms(7) r(4)]
  have "replica E g0 (commit_view E ?t ?g) ?n" by (simp add: replica_def)
  with Commit_state [OF assms(1,3,4) refl, of ct m s] log_entry_commit [OF t(1) assms(2), of ?g] t(2)
  show ?thesis by (simp add: Let_def)
qed

text \<open>As a slave nothing is pushed, and the call does not throw.\<close>

lemma Commit_slave_ok:
  assumes "kv_ok E" and "writes_succeed E" and "tr_item t \<noteq> []" and "data_items t"
  shows "fst (Commit E ct t False s) = Inr ()"
proof -
  obtain t2 u r w where c: "Commit E ct t False s = (r, w\<lparr>tmpcache := tmpcache s\<rparr>)" "AddToCache E t2 u = (r, w)"
    and t2: "t2 = logged ct False (logcounter s + 1) t"
    using Commit_run [OF assms(1-3), of ct False s] by blast
  have "fst (AddToCache E t2 u) = Inr ()"
    using assms(4) by (intro AddToCache_ok) (simp add: t2 data_items_def logged_def)
  with c show ?thesis by simp
qed

lemma logged_same: "tr_id t = n \<Longrightarrow> logged ct False n t = t"
  by (simp add: logged_def)

text \<open>Committing a run of the master's entries: the slave gets exactly those.\<close>

lemma log_run_Suc:
  "log_run E g a (Suc m) = the (log_entry E g (a + 1)) # log_run E g (a + 1) m"
  by (simp add: log_run_def upt_conv_Cons map_Suc_upt [symmetric] add.assoc del: upt_Suc)

lemma commit_received_run:
  assumes "kv_ok E" and "pb_ok E" and "writes_succeed E"
    and "replica E g0 (kv_get E (db s)) (logcounter s)" and "log_prefix E (kv_get E (db s)) h (logcounter s)"
    and "log_ok E h n" and "log_data E h n" and "unat (logcounter s) + m \<le> unat n"
  shows "\<exists>s'. commit_received E (log_run E h (logcounter s) m) s = (Inr (), s') \<and> logcounter s' = logcounter s + of_nat m \<and>
    replica E g0 (kv_get E (db s')) (logcounter s') \<and> log_prefix E (kv_get E (db s')) h (logcounter s') \<and> frame s' = frame s"
  using assms(4,5,8)
proof (induction m arbitrary: s)
  case 0
  then show ?case by (simp add: log_run_def)
next
  case (Suc m)
  let ?a = "logcounter s"
  have lt: "unat ?a + 1 < 2 ^ 64" using Suc.prems(3) unsigned_less [of n, where ?'a = nat] by simp
  then have u: "unat (?a + 1) = unat ?a + 1" by (simp add: unat_word_ariths)
  then have nz: "?a + 1 \<noteq> 0" and le: "?a + 1 \<le> n" and pos: "0 < ?a + 1"
    using Suc.prems(3) by (auto simp: word_le_nat_alt word_less_nat_alt)
  obtain t where t: "log_entry E h (?a + 1) = Some t" "tr_id t = ?a + 1" using assms(6) le by (auto simp: log_ok_def)
  have d: "tr_item t \<noteq> []" "data_items t" using assms(7) t(1) le pos by (auto simp: log_data_def)
  let ?s1 = "snd (Commit E 0 t False s)"
  have c: "Commit E 0 t False s = (Inr (), ?s1)" using Commit_slave_ok [OF assms(1,3) d] by (metis prod.collapse)
  have s1: "replica E g0 (kv_get E (db ?s1)) (?a + 1)" "logcounter ?s1 = ?a + 1" "frame ?s1 = frame s"
    "\<And>i. log_entry E (kv_get E (db ?s1)) i = (if i = ?a + 1 then Some t else log_entry E (kv_get E (db s)) i)"
    using Commit_replica [OF assms(1-3) d Suc.prems(1) nz, of 0 False] logged_same [OF t(2)] by (simp_all add: Let_def)
  have "log_prefix E (kv_get E (db ?s1)) h (logcounter ?s1)"
    using Suc.prems(2) t(1) s1(2,4) word_le_inc [OF nz] by (auto simp: log_prefix_def)
  then obtain s' where "commit_received E (log_run E h (?a + 1) m) ?s1 = (Inr (), s')"
    "logcounter s' = ?a + 1 + of_nat m" "replica E g0 (kv_get E (db s')) (logcounter s')"
    "log_prefix E (kv_get E (db s')) h (logcounter s')" "frame s' = frame s"
    using Suc.IH [of ?s1] s1 Suc.prems(3) u by auto
  then show ?case using t c by (simp add: log_run_Suc bindA_step add.assoc)
qed

section \<open>Asking for the log\<close>

text \<open>The host asked answers requests for its log as \<open>RemoteEndpoint\<close> does, in a state whose log is \<open>h\<close> up to
  \<open>n\<close> (the rest of that state may change between requests).\<close>

definition serves_log :: "('b, 'd) env \<Rightarrow> (RemoteT, 'b) codec \<Rightarrow> 'b lookup \<Rightarrow> 64 word \<Rightarrow> string \<Rightarrow> bool" where
  "serves_log E rc h n secret \<longleftrightarrow> (\<forall>k q. hq_service q = R_TRANSLOG \<longrightarrow>
     (\<exists>M. kv_get E (db M) = h \<and> logcounter M = n \<and> is_ready M \<and> shared_secret M = secret \<and>
        http_post E k q = Some (http_of (blank E) (fst (RemoteEndpoint E rc (request_of q) M)))))"

definition good_address :: "string \<Rightarrow> bool" where
  "good_address a \<longleftrightarrow> (\<exists>h p port. host_port a = Inr (h, p) \<and> stoi10 p = Inr port)"

lemma to_dec_3: "to_dec 3 = ''3''"
proof -
  have "(char_of (51 :: nat) :: char) = CHR ''3''" by code_simp
  then show ?thesis by (simp add: to_dec.simps [of 3] to_dec_digit_def)
qed

lemma stoi10_translog: "stoi10 (to_dec (nat R_TRANSLOG)) = Inr R_TRANSLOG"
  by (simp add: R_TRANSLOG_def to_dec_3 stoi10_def dval_def isdigit_def isspace_def)

lemma request_checks:
  assumes "is_ready M" and "shared_secret M = hq_secret q" and "hq_service q = R_TRANSLOG"
  shows "remote_action E rc (request_of q) M = remote_translog E (request_of q) M"
  using assms stoi10_translog
  by (simp add: remote_action_def bindA_throwIf bindA_liftR ProtoRequest_def request_of_def SharedSecretOK_def
      ServiceName_def starts_with_def) (simp add: remote_cmd_defs)

lemma translog_reply:
  assumes "kv_ok E" and "pb_ok E" and "log_ok E (kv_get E (db M)) (logcounter M)" and "tl_lastid l \<le> logcounter M"
    and "is_ready M" and "shared_secret M = hq_secret q" and "hq_service q = R_TRANSLOG" and "hq_body q = ser (c_tlist E) l"
    and "tl_trans l = []"
  shows "\<exists>l'. fst (RemoteEndpoint E rc (request_of q) M) = ServiceOK (ser (c_tlist E) l') \<and>
    (let m = min (unat (logcounter M) - unat (tl_lastid l)) (unat (tl_limit l) + 1) in
      tl_lastid l' = tl_lastid l + of_nat m \<and> tl_currid l' = logcounter M \<and>
      tl_trans l' = log_run E (kv_get E (db M)) (tl_lastid l) m)"
proof -
  have b: "parse_body (c_tlist E) (request_of q) = Inr l" using assms(2,8) by (simp add: parse_body_def request_of_def)
  note ra = request_checks [OF assms(5-7), of E rc]
  show ?thesis
  proof (cases "tl_lastid l = logcounter M")
    case True
    then have "\<exists>s'. remote_translog E (request_of q) M =
        (Inr (ser (c_tlist E) (l\<lparr>tl_ts := clock E (ticks M), tl_currid := logcounter M, tl_limit := 0\<rparr>)), s')"
      by (simp add: remote_translog_def bindA_liftR b bindA_throwIf) (simp add: bindA_def CURRTIME_MS_def)
    then show ?thesis using True assms(9)
      by (intro exI [of _ "l\<lparr>tl_ts := clock E (ticks M), tl_currid := logcounter M, tl_limit := 0\<rparr>"])
        (auto simp: RemoteEndpoint_def ra log_run_def)
  next
    case False
    with assms(4) have lt: "tl_lastid l < logcounter M" by simp
    let ?m = "min (unat (logcounter M) - unat (tl_lastid l)) (unat (tl_limit l) + 1)"
    obtain l' s' where r: "ReadLog E l M = (Inr l', s')" "tl_lastid l' = tl_lastid l + of_nat ?m"
      "tl_currid l' = logcounter M" "tl_trans l' = log_run E (kv_get E (db M)) (tl_lastid l) ?m"
      using ReadLog_run' [OF assms(1,3) lt] assms(9) by (auto simp: Let_def)
    have "remote_translog E (request_of q) M = (Inr (ser (c_tlist E) l'), s')"
      using False lt by (simp add: remote_translog_def bindA_liftR b bindA_throwIf bindA_step [where m = "ReadLog E l", OF r(1)])
    with r show ?thesis by (intro exI [of _ l']) (simp add: RemoteEndpoint_def ra Let_def)
  qed
qed

section \<open>Rounds\<close>

lemma log_request_run:
  "log_request E limit s = (Inr (TransListT_new\<lparr>tl_endpoint := thisurl s, tl_ts := clock E (ticks s),
     tl_lastid := logcounter s, tl_limit := limit\<rparr>), s\<lparr>ticks := ticks s + 1\<rparr>)"
  by (simp add: log_request_def run_simps)

text \<open>Asking a host that serves the log: the entries that follow come back.\<close>

lemma ask_log:
  assumes "kv_ok E" and "pb_ok E" and "log_ok E h n" and "logcounter s \<le> n" and "serves_log E rc h n (shared_secret s)"
    and "good_address a" and "tl_lastid l = logcounter s" and "tl_trans l = []"
  shows "\<exists>l' s1. sendA E (c_tlist E) a R_TRANSLOG l nothrow s = (Inr (True, l'), s1) \<and> same_store s s1 \<and>
    (let m = min (unat n - unat (logcounter s)) (unat (tl_limit l) + 1) in
      tl_lastid l' = logcounter s + of_nat m \<and> tl_currid l' = n \<and> tl_trans l' = log_run E h (logcounter s) m)"
proof -
  obtain hst p port where hp: "host_port a = Inr (hst, p)" "stoi10 p = Inr port" using assms(6) by (auto simp: good_address_def)
  define q where "q = \<lparr>hq_host = hst, hq_port = port, hq_endpoint = ''/_zpds/remote/v1/endpoint'', hq_service = R_TRANSLOG,
                hq_secret = shared_secret s, hq_body = ser (c_tlist E) l\<rparr>"
  define s1 where "s1 = s\<lparr>sends := sends s + 1, outbox := outbox s @ [q]\<rparr>"
  have sv: "hq_service q = R_TRANSLOG" "hq_secret q = shared_secret s" "hq_body q = ser (c_tlist E) l" by (simp_all add: q_def)
  obtain M where M: "kv_get E (db M) = h" "logcounter M = n" "is_ready M" "shared_secret M = shared_secret s"
    "http_post E (sends s) q = Some (http_of (blank E) (fst (RemoteEndpoint E rc (request_of q) M)))"
    using assms(5) sv(1) unfolding serves_log_def by blast
  obtain l' where l': "fst (RemoteEndpoint E rc (request_of q) M) = ServiceOK (ser (c_tlist E) l')"
    "let m = min (unat n - unat (logcounter s)) (unat (tl_limit l) + 1) in
      tl_lastid l' = logcounter s + of_nat m \<and> tl_currid l' = n \<and> tl_trans l' = log_run E h (logcounter s) m"
    using translog_reply [OF assms(1,2), of M l q rc] assms(3,4,7,8) M(1-4) sv by auto
  have "handle_response (c_tlist E) ''/_zpds/remote/v1/endpoint'' False (http_of (blank E) (ServiceOK (ser (c_tlist E) l'))) l = (Inr (), l')"
    using assms(2) by (simp add: handle_response_def http_of_def)
  then have "SendFunction E (c_tlist E) a ''/_zpds/remote/v1/endpoint'' R_TRANSLOG l False s = ((Inr (), l'), s1)"
    using hp M(5) l'(1) by (simp add: SendFunction_def q_def [symmetric] s1_def Let_def)
  then have "sendA E (c_tlist E) a R_TRANSLOG l nothrow s = (Inr (True, l'), s1)"
    by (simp add: sendA_def SendToRemote_def) (simp add: remote_cmd_defs)
  moreover have "same_store s s1" unfolding same_store_def s1_def by blast
  ultimately show ?thesis using l'(2) by blast
qed

text \<open>What a round of the slave keeps and does. The fields that lead it to the master stay.\<close>

definition follows :: "('b, 'd) env \<Rightarrow> 'b lookup \<Rightarrow> 'b lookup \<Rightarrow> 64 word \<Rightarrow> ('b, 'd) shared \<Rightarrow> bool" where
  "follows E g0 h n s \<longleftrightarrow> replica E g0 (kv_get E (db s)) (logcounter s) \<and>
     log_prefix E (kv_get E (db s)) h (logcounter s) \<and> logcounter s \<le> n"

lemma follows_same: "same_store s s1 \<Longrightarrow> follows E g0 h n (s1\<lparr>ticks := k\<rparr>) = follows E g0 h n s"
  using same_storeD [of s s1] by (simp add: follows_def)

lemma unat_add_of_nat: "unat (a :: 64 word) + m \<le> unat (n :: 64 word) \<Longrightarrow> unat (a + of_nat m) = unat a + m"
proof -
  assume "unat a + m \<le> unat n"
  then have "unat a + m < 2 ^ 64" using unsigned_less [of n, where ?'a = nat] by simp
  then show ?thesis by (simp add: unat_word_ariths unat_of_nat)
qed

lemma SyncFirst_round_run:
  fixes E :: "('b, 'd) env"
  assumes "kv_ok E" and "pb_ok E" and "writes_succeed E" and "log_ok E h n" and "log_data E h n"
    and "follows E g0 h n s" and "serves_log E rc h n (shared_secret s)" and "good_address (sh_master s)"
  shows "\<exists>s'. SyncFirst_round E s = (Inr (unat n - unat (logcounter s) \<le> 6), s') \<and> follows E g0 h n s' \<and>
    shared_secret s' = shared_secret s \<and> sh_master s' = sh_master s \<and> is_master s' = is_master s \<and>
    unat (logcounter s') = unat (logcounter s) + min (unat n - unat (logcounter s)) 6"
proof -
  let ?a = "logcounter s"
  define s0 where "s0 = s\<lparr>ticks := ticks s + 1\<rparr>"
  define l :: "'b TransListT" where "l = TransListT_new\<lparr>tl_endpoint := thisurl s, tl_ts := clock E (ticks s), tl_lastid := ?a, tl_limit := SYNCFIRST_CHUNK_SIZE\<rparr>"
  define m where "m = min (unat n - unat ?a) 6"
  have s0: "logcounter s0 = ?a" "db s0 = db s" "shared_secret s0 = shared_secret s" "sh_master s0 = sh_master s" "is_master s0 = is_master s"
    by (simp_all add: s0_def)
  have lr: "log_request E SYNCFIRST_CHUNK_SIZE s = (Inr l, s0)" by (simp only: log_request_run l_def s0_def)
  have le: "?a \<le> n" and bound: "unat ?a + m \<le> unat n" using assms(6) by (auto simp: follows_def m_def word_le_nat_alt)
  have um: "unat (?a + of_nat m) = unat ?a + m" using unat_add_of_nat [OF bound] .
  have ll: "tl_lastid l = logcounter s0" "tl_trans l = []" "unat (tl_limit l) + 1 = 6"
    by (simp_all add: s0 l_def TransListT_new_def SYNCFIRST_CHUNK_SIZE_def)
  obtain l' s1 where a: "sendA E (c_tlist E) (sh_master s) R_TRANSLOG l False s0 = (Inr (True, l'), s1)" "same_store s0 s1"
    "tl_lastid l' = ?a + of_nat m" "tl_currid l' = n" "tl_trans l' = log_run E h ?a m"
    using ask_log [OF assms(1,2,4) _ _ assms(8) ll(1,2), of rc False] le assms(7) unfolding ll(3) by (auto simp: s0 m_def Let_def)
  have s1: "logcounter s1 = ?a" "replica E g0 (kv_get E (db s1)) (logcounter s1)" "log_prefix E (kv_get E (db s1)) h (logcounter s1)"
    "shared_secret s1 = shared_secret s" "sh_master s1 = sh_master s" "is_master s1 = is_master s"
    using same_storeD [OF a(2)] assms(6) by (simp_all add: s0 follows_def)
  obtain s' where c: "commit_received E (log_run E h ?a m) s1 = (Inr (), s')" "logcounter s' = ?a + of_nat m"
    "replica E g0 (kv_get E (db s')) (logcounter s')" "log_prefix E (kv_get E (db s')) h (logcounter s')" "frame s' = frame s1"
    using commit_received_run [OF assms(1-3) s1(2,3) assms(4,5), of m] bound s1(1) by auto
  have fin: "?a + of_nat m = n \<longleftrightarrow> unat n - unat ?a \<le> 6"
    using um le by (auto simp: word_unat_eq_iff m_def word_le_nat_alt)
  have "SyncFirst_round E s = (Inr (unat n - unat ?a \<le> 6), s')"
    unfolding SyncFirst_round_def
    by (simp add: bindA_step [where m = "log_request E SYNCFIRST_CHUNK_SIZE", OF lr] s0(4)
        bindA_step [where m = "sendA E (c_tlist E) (sh_master s) R_TRANSLOG l False", OF a(1)] a(3-5)
        bindA_step [where m = "commit_received E (log_run E h ?a m)", OF c(1)] fin)
  moreover have "follows E g0 h n s'" using c um bound by (simp add: follows_def word_le_nat_alt)
  ultimately show ?thesis using c(2,5) um s1 by (simp add: frame_def m_def)
qed

lemma SyncFirst_loop_run:
  assumes "kv_ok E" and "pb_ok E" and "writes_succeed E" and "log_ok E h n" and "log_data E h n"
    and "follows E g0 h n s" and "serves_log E rc h n (shared_secret s)" and "good_address (sh_master s)"
    and "0 < fuel" and "unat n - unat (logcounter s) \<le> 6 * fuel"
  shows "\<exists>s' k'. SyncFirst_loop E (\<lambda>_. False) fuel (False, k) s = Some (Inr (), (False, k'), s') \<and> follows E g0 h n s' \<and> logcounter s' = n"
  using assms(6-10)
proof (induction fuel arbitrary: k s)
  case (Suc fuel)
  obtain s' where r: "SyncFirst_round E s = (Inr (unat n - unat (logcounter s) \<le> 6), s')" "follows E g0 h n s'"
    "shared_secret s' = shared_secret s" "sh_master s' = sh_master s"
    "unat (logcounter s') = unat (logcounter s) + min (unat n - unat (logcounter s)) 6"
    using SyncFirst_round_run [OF assms(1-5) Suc.prems(1-3)] by blast
  have le: "unat (logcounter s) \<le> unat n" using Suc.prems(1) by (simp add: follows_def word_le_nat_alt)
  show ?case
  proof (cases "unat n - unat (logcounter s) \<le> 6")
    case True
    with r(5) le have "logcounter s' = n" by (simp add: word_unat_eq_iff)
    with r True show ?thesis by (simp add: flag_get_def)
  next
    case False
    then have "0 < fuel" "unat n - unat (logcounter s') \<le> 6 * fuel" using Suc.prems(5) r(5) by auto
    with Suc.IH [OF r(2), of "k + 1"] Suc.prems r False show ?thesis by (simp add: flag_get_def)
  qed
qed simp

text \<open>Two replicas from the same start whose logs agree have the same data.\<close>

lemma replicas_agree:
  assumes "replica E g0 g n" and "replica E g0 h n" and "log_prefix E g h n" and "data_key k"
  shows "g k = h k"
proof -
  have "entry_items E g j = entry_items E h j" if "j \<in> set [1..<unat n + 1]" for j
  proof -
    from that have "j \<le> unat n" by auto
    then have "(of_nat j :: 64 word) \<le> n" using unsigned_less [of n, where ?'a = nat]
      by (simp add: word_le_nat_alt unat_of_nat)
    then show ?thesis using assms(3) by (simp add: entry_items_def log_prefix_def)
  qed
  then have "map (entry_items E g) [1..<unat n + 1] = map (entry_items E h) [1..<unat n + 1]" by (rule map_cong [OF refl])
  then have "replay E g (unat n) g0 = replay E h (unat n) g0" unfolding replay_def by (simp only:)
  then show ?thesis using assms(1,2,4) by (simp add: replica_def replays_def)
qed

text \<open>C11: a slave whose log is a beginning of the master's, and whose data is the replay of its log, ends its
  first synchronisation after as many rounds as six entries a round need, with the log and the data of the
  master. The hypotheses: the writes succeed, the master answers and does not commit meanwhile.\<close>

theorem SyncFirst_converges:
  assumes "kv_ok E" and "pb_ok E" and "writes_succeed E" and "replica E g0 h n"
    and "follows E g0 h n s" and "serves_log E rc h n (shared_secret s)" and "good_address (sh_master s)"
    and "0 < fuel" and "unat n - unat (logcounter s) \<le> 6 * fuel"
  shows "\<exists>s' i'. SyncFirst_loop E (\<lambda>_. False) fuel (False, i) s = Some (Inr (), (False, i'), s') \<and> logcounter s' = n \<and>
    (\<forall>i. log_entry E (kv_get E (db s')) i = log_entry E h i) \<and> (\<forall>k. data_key k \<longrightarrow> kv_get E (db s') k = h k)"
proof -
  have h: "log_ok E h n" "log_data E h n" using assms(4) by (simp_all add: replica_def)
  obtain s' i' where s': "SyncFirst_loop E (\<lambda>_. False) fuel (False, i) s = Some (Inr (), (False, i'), s')" "follows E g0 h n s'" "logcounter s' = n"
    using SyncFirst_loop_run [OF assms(1-3) h assms(5-9), of i] by blast
  then have r: "replica E g0 (kv_get E (db s')) n" "log_prefix E (kv_get E (db s')) h n" by (simp_all add: follows_def)
  have "log_entry E (kv_get E (db s')) i = log_entry E h i" for i
  proof (cases "i \<le> n")
    case True
    with r(2) show ?thesis by (simp add: log_prefix_def)
  next
    case False
    with r(1) h(1) show ?thesis by (simp add: replica_def log_ok_def log_entry_def not_le)
  qed
  with s' replicas_agree [OF r(1) assms(4) r(2)] show ?thesis by blast
qed

section \<open>The pushed transactions\<close>

lemma buffered_discarded':
  "SyncFromMaster_round E fc s = SyncFromMaster_round E fc (s\<lparr>transactions := []\<rparr>)"
proof -
  have t: "take_buffered E s = (Inr (), s\<lparr>transactions := []\<rparr>)" by (simp add: take_buffered_def Swap_def run_simps)
  show ?thesis
  proof (cases "transactions s")
    case Nil
    then have "s\<lparr>transactions := []\<rparr> = s" by simp
    then show ?thesis by simp
  next
    case (Cons p ps)
    then show ?thesis
      by (cases fc) (simp add: SyncFromMaster_round_def bindA_step [where m = "take_buffered E", OF t])
  qed
qed

text \<open>C40: the transactions a master pushes have no effect on the slave: a round that finds some in its buffer
  empties the buffer and goes on as if there had been none.\<close>

theorem buffered_discarded:
  "SyncFromMaster_round E fc s = SyncFromMaster_round E fc (s\<lparr>transactions := []\<rparr>)"
  by (rule buffered_discarded')

section \<open>The election\<close>

definition eligible :: "64 word \<Rightarrow> (string \<times> 64 word \<times> 64 word) list \<Rightarrow> (64 word \<times> string) set" where
  "eligible cutoff hosts = {(lc, a) |a lc up. (a, lc, up) \<in> set hosts \<and> cutoff \<le> up}"

text \<open>A host hears of itself no greater counter than its own.\<close>

definition own_entry_ok :: "64 word \<Rightarrow> (string \<times> 64 word \<times> 64 word) list \<Rightarrow> 64 word \<Rightarrow> string \<Rightarrow> bool" where
  "own_entry_ok cutoff hosts lc url \<longleftrightarrow> (\<forall>l up. (url, l, up) \<in> set hosts \<longrightarrow> cutoff \<le> up \<longrightarrow> l \<le> lc)"

lemma elect_step_max:
  assumes "cutoff \<le> up \<Longrightarrow> a = nm \<Longrightarrow> lc \<le> m"
  shows "elect_step cutoff (a, lc, up) (m, nm) = (if cutoff \<le> up then max (m, nm) (lc, a) else (m, nm))"
  using assms by (auto simp: elect_step_def max_def less_eq_prod_def not_less not_le)

lemma elect_fold:
  assumes "distinct (map fst hosts)" and "own_entry_ok cutoff hosts m nm"
  shows "fold (elect_step cutoff) hosts (m, nm) = Max (insert (m, nm) (eligible cutoff hosts))"
  using assms
proof (induction hosts arbitrary: m nm)
  case Nil
  then show ?case by (simp add: eligible_def)
next
  case (Cons p hosts)
  obtain a lc up where p: "p = (a, lc, up)" by (cases p) auto
  have st: "elect_step cutoff p (m, nm) = (if cutoff \<le> up then max (m, nm) (lc, a) else (m, nm))"
    unfolding p using Cons.prems(2) by (intro elect_step_max) (auto simp: own_entry_ok_def p)
  obtain m' nm' where mn: "elect_step cutoff p (m, nm) = (m', nm')" by force
  have own: "own_entry_ok cutoff hosts m' nm'"
    using Cons.prems st mn by (force simp: own_entry_ok_def p max_def split: if_splits)
  have fin: "finite (eligible cutoff hosts)"
    by (rule finite_subset [of _ "(\<lambda>(a, lc, up). (lc, a)) ` set hosts"]) (force simp: eligible_def)+
  have el: "eligible cutoff (p # hosts) = (if cutoff \<le> up then insert (lc, a) (eligible cutoff hosts) else eligible cutoff hosts)"
    by (auto simp: eligible_def p)
  have "fold (elect_step cutoff) (p # hosts) (m, nm) = Max (insert (m', nm') (eligible cutoff hosts))"
    using Cons.IH [OF _ own] Cons.prems(1) mn by simp
  also have "\<dots> = Max (insert (m, nm) (eligible cutoff (p # hosts)))"
  proof (cases "cutoff \<le> up")
    case True
    then have "(m', nm') = max (m, nm) (lc, a)" using st mn by simp
    then show ?thesis using True fin unfolding el
      by (cases "eligible cutoff hosts = {}") (simp_all add: Max_insert max.assoc)
  next
    case False
    then show ?thesis using st mn el by simp
  qed
  finally show ?case .
qed

text \<open>The election chooses, among this host and the hosts heard of since the cutoff, the one with the
  greatest log counter, and among those the one with the greatest address; the order in which the hosts
  come out of the unordered map does not matter.\<close>

theorem elect_greatest:
  assumes "distinct (map fst hosts)" and "own_entry_ok cutoff hosts lc url"
  shows "elect cutoff hosts lc url = snd (Max (insert (lc, url) (eligible cutoff hosts)))"
  using elect_fold [OF assms] by (simp add: elect_def)

text \<open>What \<open>MasterUpdate\<close> does apart from sending.\<close>

lemma sendA_run: "\<exists>b m u. sendA E c a n msg True s = (Inr (b, m), u) \<and> same_store s u"
  using SendToRemote_nothrow [of E c a n msg s] SendToRemote_same_store [of s E c a n msg True]
  by (auto simp: sendA_def split: prod.splits)

lemma same_store_trans: "same_store s t \<Longrightarrow> same_store t u \<Longrightarrow> same_store s u"
  unfolding same_store_def by (elim exE) (rule exI, rule exI, simp)

lemma register_loop_run:
  "\<exists>u m. register_loop E nm n st s = (Inr (), u\<lparr>sh_master := m\<rparr>) \<and> same_store s u \<and> (m = sh_master s \<or> m = nm)"
proof (induction n arbitrary: st s)
  case 0
  show ?case by (intro exI [of _ s] exI [of _ "sh_master s"]) simp
next
  case (Suc n)
  obtain b st' u where r: "sendA E (c_state E) nm R_REGISTER st True s = (Inr (b, st'), u)" "same_store s u"
    using sendA_run [of E "c_state E" nm R_REGISTER st s] by blast
  show ?case
  proof (cases b)
    case True
    with r show ?thesis
      by (intro exI [of _ u] exI [of _ nm]) (simp add: bindA_step [where m = "sendA E (c_state E) nm R_REGISTER st True", OF r(1)])
  next
    case False
    obtain v m where v: "register_loop E nm n st' u = (Inr (), v\<lparr>sh_master := m\<rparr>)" "same_store u v" "m = sh_master u \<or> m = nm"
      using Suc.IH by blast
    with r False same_store_trans [OF r(2) v(2)] same_storeD(9) [OF r(2)] show ?thesis
      by (intro exI [of _ v] exI [of _ m]) (simp add: bindA_step [where m = "sendA E (c_state E) nm R_REGISTER st True", OF r(1)])
  qed
qed

lemma GetHosts_run: "\<exists>st. GetHosts E st0 s = (Inr st, s\<lparr>ticks := ticks s + 1\<rparr>)"
  by (simp add: GetHosts_def run_simps)

lemma MasterUpdate_run:
  "if elect cutoff (remotes s) (logcounter s) (thisurl s) = thisurl s
   then MasterUpdate E cutoff s = (Inr (), s\<lparr>lastslave := [], is_master := True\<rparr>)
   else \<exists>u m. MasterUpdate E cutoff s = (Inr (), u\<lparr>sh_master := m\<rparr>) \<and> same_store (s\<lparr>ticks := ticks s + 1\<rparr>) u \<and>
     (m = sh_master s \<or> m = elect cutoff (remotes s) (logcounter s) (thisurl s))"
proof -
  let ?w = "elect cutoff (remotes s) (logcounter s) (thisurl s)"
  obtain st where g: "GetHosts E StateT_new s = (Inr st, s\<lparr>ticks := ticks s + 1\<rparr>)" using GetHosts_run by blast
  obtain u m where r: "register_loop E ?w ELECTION_MAX_RETRIES st (s\<lparr>ticks := ticks s + 1\<rparr>) = (Inr (), u\<lparr>sh_master := m\<rparr>)"
    "same_store (s\<lparr>ticks := ticks s + 1\<rparr>) u" "m = sh_master s \<or> m = ?w"
    using register_loop_run [of E ?w ELECTION_MAX_RETRIES st "s\<lparr>ticks := ticks s + 1\<rparr>"] by auto
  show ?thesis
    using r by (auto simp: MasterUpdate_def bindA_step [where m = "GetHosts E StateT_new", OF g])
qed

text \<open>C26: two hosts that hold the same candidates, themselves included, elect the same master; so two slaves
  never both become master.\<close>

theorem election_agrees:
  assumes "distinct (map fst (remotes s))" and "own_entry_ok c (remotes s) (logcounter s) (thisurl s)"
    and "distinct (map fst (remotes t))" and "own_entry_ok d (remotes t) (logcounter t) (thisurl t)"
    and "insert (logcounter s, thisurl s) (eligible c (remotes s)) = insert (logcounter t, thisurl t) (eligible d (remotes t))"
    and "thisurl s \<noteq> thisurl t" and "\<not> is_master s" and "\<not> is_master t"
  shows "elect c (remotes s) (logcounter s) (thisurl s) = elect d (remotes t) (logcounter t) (thisurl t) \<and>
    \<not> (is_master (snd (MasterUpdate E c s)) \<and> is_master (snd (MasterUpdate E d t)))"
proof -
  have e: "elect c (remotes s) (logcounter s) (thisurl s) = elect d (remotes t) (logcounter t) (thisurl t)"
    using elect_fold [OF assms(1,2)] elect_fold [OF assms(3,4)] assms(5) by (simp add: elect_def)
  have "is_master (snd (MasterUpdate E k x)) \<longleftrightarrow> elect k (remotes x) (logcounter x) (thisurl x) = thisurl x"
    if "\<not> is_master x" for k and x :: "('a, 'b) shared"
    using MasterUpdate_run [of k x E] that by (auto split: if_splits dest: same_storeD(6))
  with e assms(6-8) show ?thesis by auto
qed

section \<open>When the master is gone\<close>

definition silent :: "('b, 'd) env \<Rightarrow> bool" where
  "silent E \<longleftrightarrow> (\<forall>k q. http_post E k q = None)"

text \<open>What a round without an answer may change.\<close>

definition strip :: "('b, 'd) shared \<Rightarrow> ('b, 'd) shared" where
  "strip s = s\<lparr>ticks := 0, sends := 0, outbox := [], transactions := []\<rparr>"

definition quiet :: "('b, 'd) shared \<Rightarrow> ('b, 'd) shared \<Rightarrow> bool" where
  "quiet s u \<longleftrightarrow> transactions u = [] \<and> strip u = strip s"

lemma strip_update [simp]:
  "strip (s\<lparr>ticks := k\<rparr>) = strip s" "strip (s\<lparr>sends := n\<rparr>) = strip s" "strip (s\<lparr>outbox := ob\<rparr>) = strip s"
  "strip (s\<lparr>transactions := t\<rparr>) = strip s"
  by (simp_all add: strip_def)

lemma quietD:
  assumes "quiet s u"
  shows "db u = db s" "logcounter u = logcounter s" "remotes u = remotes s" "thisurl u = thisurl s" "transactions u = []"
proof -
  have e: "strip u = strip s" and t: "transactions u = []" using assms by (simp_all add: quiet_def)
  show "db u = db s" "logcounter u = logcounter s" "remotes u = remotes s" "thisurl u = thisurl s"
    using arg_cong [OF e, of db] arg_cong [OF e, of logcounter] arg_cong [OF e, of remotes] arg_cong [OF e, of thisurl]
    by (simp_all add: strip_def)
  show "transactions u = []" by (rule t)
qed

lemma quiet_trans: "quiet s t \<Longrightarrow> quiet t u \<Longrightarrow> quiet s u"
  by (simp add: quiet_def)

lemma quiet_same: "quiet s t \<Longrightarrow> same_store t u \<Longrightarrow> quiet s u"
  by (auto simp: quiet_def same_store_def)

lemma quiet_tick: "quiet s t \<Longrightarrow> quiet s (t\<lparr>ticks := k\<rparr>)"
  by (simp add: quiet_def)

lemma quiet_start: "quiet s (s\<lparr>transactions := []\<rparr>)"
  by (simp add: quiet_def)

lemma sendA_silent:
  assumes "silent E"
  shows "\<exists>u. sendA E c a n msg True s = (Inr (False, msg), u) \<and> same_store s u"
proof -
  have f: "fst (SendToRemote E c a n msg True s) = (Inr False, msg)"
    using assms by (auto simp: SendToRemote_def SendFunction_def silent_def Let_def split: sum.splits prod.splits if_splits)
  obtain r u where ru: "SendToRemote E c a n msg True s = (r, u)" by (metis prod.exhaust)
  have "same_store s u" using SendToRemote_same_store [of s E c a n msg True] ru by simp
  with f ru show ?thesis by (simp add: sendA_def)
qed

lemma host_send_run: "\<exists>st' u. host_send E p st s = (Inr st', u) \<and> same_store s u"
proof -
  let ?m = "sendA E (c_state E) (fst p) R_SETINFO st True"
  obtain b st' u where r: "?m s = (Inr (b, st'), u)" "same_store s u"
    using sendA_run [of E "c_state E" "fst p" R_SETINFO st s] by blast
  then show ?thesis by (simp add: host_send_def bindA_step [where m = ?m, OF r(1)])
qed

lemma send_all_run: "\<exists>st' u. foldA (host_send E) hosts st s = (Inr st', u) \<and> same_store s u"
proof (induction hosts arbitrary: st s)
  case (Cons p hosts)
  obtain st1 u1 where f: "host_send E p st s = (Inr st1, u1)" "same_store s u1" using host_send_run by blast
  obtain st2 u2 where "foldA (host_send E) hosts st1 u1 = (Inr st2, u2)" "same_store u1 u2" using Cons.IH by blast
  with same_store_trans [OF f(2)] show ?case by (simp add: bindA_step [where m = "host_send E p st", OF f(1)])
qed simp

lemma HostUpdate_run: "\<exists>u. HostUpdate E s = (Inr (), u) \<and> same_store (s\<lparr>ticks := ticks s + 1\<rparr>) u"
proof -
  define s1 where "s1 = s\<lparr>ticks := ticks s + 1\<rparr>"
  obtain st where g: "GetHosts E StateT_new s = (Inr st, s1)" using GetHosts_run unfolding s1_def by blast
  obtain st' u where f: "foldA (host_send E) (remotes s1) st s1 = (Inr st', u)" "same_store s1 u" using send_all_run by blast
  have "HostUpdate E s = (Inr (), u)"
    by (simp add: HostUpdate_def bindA_step [where m = "GetHosts E StateT_new", OF g]
        bindA_step [where m = "foldA (host_send E) (remotes s1) st", OF f(1)])
  with f(2) show ?thesis unfolding s1_def by blast
qed

text \<open>One failing round: the request is sent in vain, and then what the number of failures asks for is done.\<close>

lemma failing_round:
  assumes "silent E" and "transactions s = []"
  shows "\<exists>u. quiet s u \<and> ticks u = ticks s + 1 \<and> SyncFromMaster_round E (fc, fd) s =
    (if fc = 0 then bindA (CURRTIME_MS E) (\<lambda>now. ret (Some (1, now)))
     else if fc + 1 = SYNCMASTER_FAILCOUNT_ONE then bindA (HostUpdate E) (\<lambda>_. ret (Some (fc + 1, fd)))
     else if fc + 1 = SYNCMASTER_FAILCOUNT_TWO then
       bindA (MasterUpdate E fd) (\<lambda>_. bindA (readA is_master) (\<lambda>im. ret (if im then None else Some (fc + 1, fd))))
     else ret (Some (fc + 1, fd))) u"
proof -
  define l :: "'a TransListT" where "l = TransListT_new\<lparr>tl_endpoint := thisurl s, tl_ts := clock E (ticks s),
     tl_lastid := logcounter s, tl_limit := SYNCMASTER_CHUNK_SIZE\<rparr>"
  define s0 where "s0 = s\<lparr>ticks := ticks s + 1\<rparr>"
  have lr: "log_request E SYNCMASTER_CHUNK_SIZE s = (Inr l, s0)" by (simp only: log_request_run l_def s0_def)
  obtain u where a: "sendA E (c_tlist E) (sh_master s0) R_TRANSLOG l True s0 = (Inr (False, l), u)" "same_store s0 u"
    using sendA_silent [OF assms(1), of "c_tlist E" "sh_master s0" R_TRANSLOG l s0] by blast
  have s0: "sh_master s0 = sh_master s" by (simp add: s0_def)
  have "s\<lparr>transactions := []\<rparr> = s" using assms(2) by simp
  then have "quiet s u" using quiet_same [OF quiet_tick [OF quiet_start]] a(2) unfolding s0_def by metis
  moreover have "ticks u = ticks s + 1" using same_storeD(15) [OF a(2)] by (simp add: s0_def)
  ultimately show ?thesis
    using assms(2) by (intro exI [of _ u]) (simp add: SyncFromMaster_round_def s0
        bindA_step [where m = "log_request E SYNCMASTER_CHUNK_SIZE", OF lr] bindA_step [where m = "sendA E (c_tlist E) (sh_master s) R_TRANSLOG l True", OF a(1) [unfolded s0]])
qed

lemma failing_loop:
  assumes "silent E" and "0 < fc" and "fc < 20" and "20 \<le> fc + fuel" and "transactions s = []"
    and "elect fd (remotes s) (logcounter s) (thisurl s) = thisurl s"
  shows "\<exists>u k'. SyncFromMaster_loop E (\<lambda>_. False) fuel (False, k) (fc, fd) s = Some (Inr (), (True, k'), u\<lparr>lastslave := [], is_master := True\<rparr>) \<and> quiet s u"
  using assms(2-)
proof (induction fuel arbitrary: fc k s)
  case (Suc fuel)
  obtain u where u: "quiet s u" and r: "SyncFromMaster_round E (fc, fd) s =
    (if fc + 1 = SYNCMASTER_FAILCOUNT_ONE then bindA (HostUpdate E) (\<lambda>_. ret (Some (fc + 1, fd)))
     else if fc + 1 = SYNCMASTER_FAILCOUNT_TWO then
       bindA (MasterUpdate E fd) (\<lambda>_. bindA (readA is_master) (\<lambda>im. ret (if im then None else Some (fc + 1, fd))))
     else ret (Some (fc + 1, fd))) u"
    using failing_round [OF assms(1) Suc.prems(4), of fc fd] Suc.prems(1) by auto
  have el: "elect fd (remotes u) (logcounter u) (thisurl u) = thisurl u" using Suc.prems(5) quietD [OF u] by simp
  show ?case
  proof (cases "fc + 1 = 20")
    case True
    have "MasterUpdate E fd u = (Inr (), u\<lparr>lastslave := [], is_master := True\<rparr>)" using MasterUpdate_run [of fd u E] el by simp
    note mu = bindA_step [where m = "MasterUpdate E fd", OF this]
    have "SyncFromMaster_round E (fc, fd) s =
        bindA (MasterUpdate E fd) (\<lambda>_. bindA (readA is_master) (\<lambda>im. ret (if im then None else Some (fc + 1, fd)))) u"
      unfolding r True by (simp add: SYNCMASTER_FAILCOUNT_ONE_def SYNCMASTER_FAILCOUNT_TWO_def)
    then have "SyncFromMaster_round E (fc, fd) s = (Inr None, u\<lparr>lastslave := [], is_master := True\<rparr>)"
      unfolding mu by simp
    with u show ?thesis by (intro exI [of _ u]) (simp add: flag_get_def flag_set_def)
  next
    case False
    have "\<exists>v. SyncFromMaster_round E (fc, fd) s = (Inr (Some (fc + 1, fd)), v) \<and> quiet s v"
    proof (cases "fc + 1 = SYNCMASTER_FAILCOUNT_ONE")
      case True
      obtain v where v: "HostUpdate E u = (Inr (), v)" "same_store (u\<lparr>ticks := ticks u + 1\<rparr>) v" using HostUpdate_run by blast
      have "SyncFromMaster_round E (fc, fd) s = (Inr (Some (fc + 1, fd)), v)"
        unfolding r if_P [OF True] bindA_step [where m = "HostUpdate E", OF v(1)] by simp
      with quiet_same [OF quiet_tick [OF u] v(2)] show ?thesis by blast
    next
      case no: False
      with False r u show ?thesis by (intro exI [of _ u]) (simp add: SYNCMASTER_FAILCOUNT_TWO_def)
    qed
    then obtain v where v: "SyncFromMaster_round E (fc, fd) s = (Inr (Some (fc + 1, fd)), v)" "quiet s v" by blast
    obtain w k' where "SyncFromMaster_loop E (\<lambda>_. False) fuel (False, k + 1) (fc + 1, fd) v = Some (Inr (), (True, k'), w\<lparr>lastslave := [], is_master := True\<rparr>)" "quiet v w"
      using Suc.IH [of "fc + 1" v "k + 1"] Suc.prems False quietD [OF v(2)] by auto
    with v quiet_trans [OF v(2)] show ?thesis by (auto simp: flag_get_def)
  qed
qed simp

text \<open>C27: when no host answers any more, a slave that wins the election becomes the master after twenty rounds,
  with its data and its log as they were; the hosts heard of since the first failure count.\<close>

theorem failover:
  assumes "silent E" and "20 \<le> fuel"
    and "elect (clock E (ticks s + 1)) (remotes s) (logcounter s) (thisurl s) = thisurl s"
  shows "\<exists>s' i'. SyncFromMaster_loop E (\<lambda>_. False) fuel (False, i) (0, 0) s = Some (Inr (), (True, i'), s') \<and> is_master s' \<and> lastslave s' = [] \<and>
    db s' = db s \<and> logcounter s' = logcounter s"
proof -
  define t where "t = s\<lparr>transactions := []\<rparr>"
  obtain f where f: "fuel = Suc f" "19 \<le> f" using assms(2) by (cases fuel) auto
  have sel: "remotes t = remotes s" "logcounter t = logcounter s" "thisurl t = thisurl s" "ticks t = ticks s" "db t = db s" "transactions t = []"
    by (simp_all add: t_def)
  obtain u where u: "quiet t u" "ticks u = ticks s + 1" and r: "SyncFromMaster_round E (0, 0) t = bindA (CURRTIME_MS E) (\<lambda>now. ret (Some (1, now))) u"
    using failing_round [OF assms(1) sel(6), of 0 0] sel(4) by auto
  define v where "v = u\<lparr>ticks := ticks u + 1\<rparr>"
  have r': "SyncFromMaster_round E (0, 0) s = (Inr (Some (1, clock E (ticks s + 1))), v)"
    unfolding buffered_discarded' [of E _ s] t_def [symmetric] r using u(2) by (simp add: bindA_CURRTIME v_def)
  have qv: "quiet t v" using quiet_tick [OF u(1)] by (simp add: v_def)
  note qd = quietD [OF qv]
  obtain w i' where w: "SyncFromMaster_loop E (\<lambda>_. False) f (False, i + 1) (1, clock E (ticks s + 1)) v = Some (Inr (), (True, i'), w\<lparr>lastslave := [], is_master := True\<rparr>)" "quiet v w"
    using failing_loop [OF assms(1), of 1 f v "clock E (ticks s + 1)" "i + 1"] f(2) assms(3) qd sel by auto
  show ?thesis
    using f(1) r' w(1) quietD [OF w(2)] qd sel by (auto simp: flag_get_def)
qed

end
