(* ===== verification/NetSamples.thy ===== *)
theory NetSamples
  imports Samples ReplicationLaws
begin

text \<open>
  Two hosts for the witnesses of the replication: a master with the log of \<open>toy_state1\<close> and a slave with
  the empty log of \<open>toy_state0\<close>, in the environment \<open>toy_net\<close>, where every request is answered by the
  remote endpoint of the master.
\<close>

definition toy_remote :: "(RemoteT, toy) codec" where
  "toy_remote = \<lparr>ser = (\<lambda>_. TBlank), par = (\<lambda>_. (True, RemoteT_new))\<rparr>"

definition toy_net :: "(toy, (string \<times> toy) list) env" where
  "toy_net = toy_env\<lparr>http_post := (\<lambda>k q. Some (http_of TBlank (fst (RemoteEndpoint toy_env toy_remote (request_of q) toy_state1))))\<rparr>"

text \<open>Only the client looks at the network.\<close>

lemma readlog_loop_net: "readlog_loop (E\<lparr>http_post := p\<rparr>) es l c = readlog_loop E es l c"
  by (induction es arbitrary: l c) (simp_all add: Let_def split: prod.split cong: if_cong)

lemma CURRTIME_MS_net: "CURRTIME_MS (E\<lparr>http_post := p\<rparr>) = CURRTIME_MS E"
  by (simp add: CURRTIME_MS_def fun_eq_iff)

lemma remote_translog_net: "remote_translog (E\<lparr>http_post := p\<rparr>) q = remote_translog E q"
  by (simp add: remote_translog_def ReadLog_def readlog_loop_net CURRTIME_MS_net cong: if_cong)

lemma remote_action_net:
  assumes "hq_service q = R_TRANSLOG"
  shows "remote_action (E\<lparr>http_post := p\<rparr>) rc (request_of q) s = remote_action E rc (request_of q) s"
  using assms stoi10_translog
  by (simp add: remote_action_def bindA_throwIf bindA_liftR ProtoRequest_def request_of_def
      ServiceName_def starts_with_def remote_translog_net) (simp add: remote_cmd_defs bindA_def)

lemma env_ok_net:
  "kv_ok (E\<lparr>http_post := p\<rparr>) = kv_ok E" "pb_ok (E\<lparr>http_post := p\<rparr>) = pb_ok E"
  "writes_succeed (E\<lparr>http_post := p\<rparr>) = writes_succeed E"
  by (simp_all add: kv_ok_def pb_ok_def writes_succeed_def)

lemma toy_net_ok [simp]: "kv_ok toy_net" "pb_ok toy_net" "writes_succeed toy_net"
  by (simp_all add: toy_net_def env_ok_net)

lemma toy_net_fields [simp]:
  "kv_get toy_net = kv_get toy_env" "c_trans toy_net = c_trans toy_env" "of_str toy_net = of_str toy_env"
  by (simp_all add: toy_net_def)

lemma toy_net_log [simp]:
  "log_entry toy_net g i = log_entry toy_env g i" "log_ok toy_net g n = log_ok toy_env g n"
  "commit_view toy_net t g = commit_view toy_env t g"
  unfolding log_entry_def log_ok_def commit_view_def toy_net_fields by (rule refl)+

lemma toy_serves: "serves_log toy_net toy_remote (kv_get toy_env (db toy_state1)) 1 ''s''"
  unfolding serves_log_def
proof (intro allI impI exI [of _ toy_state1] conjI)
  fix k and q :: "toy http_req" assume q: "hq_service q = R_TRANSLOG"
  show "http_post toy_net k q = Some (http_of (blank toy_net) (fst (RemoteEndpoint toy_net toy_remote (request_of q)
    toy_state1)))"
    using remote_action_net [OF q, where E = toy_env] by (simp add: RemoteEndpoint_def toy_net_def)
qed (simp_all add: toy_state1_def toy_shared_def)

lemma toy_replica0: "replica toy_net (kv_get toy_env (db toy_state0)) (kv_get toy_env (db toy_state0)) 0"
  using toy_log0 store_key_log
  by (simp add: replica_def log_data_def replays_def replay_def toy_get0 store_keys_ok_def)

lemma toy_replica1: "replica toy_net (kv_get toy_env (db toy_state0)) (kv_get toy_env (db toy_state1)) 1"
proof -
  have d: "data_items toy_txn" using toy_data_items [of toy_state0] by (simp add: data_items_def logged_def)
  from Commit_replica [of toy_net toy_txn "kv_get toy_env (db toy_state0)" toy_state0 7 True, OF _ _ _ toy_txn_ne d]
    Commit_state [of toy_net, OF _ _ toy_txn_ne refl, of 7 True toy_state0] toy_replica0
  show ?thesis by (simp add: Let_def toy_get1) (simp add: toy_state0_def)
qed

end
