(* ===== verification/CacheLaws.thy ===== *)
theory CacheLaws
  imports ItemDataService
begin

text \<open>
  What is derived from the tables agrees with them. The cache of records holds under the name of a record the
  packed record of that name; the calls made to the search index leave there the records of the tables of
  items. Proved for the four tables that are cached and the two that are indexed: the lookups keep this, whatever they
  answer, and so does every action built from them that does not write (\<open>steady\<close>).
\<close>

section \<open>Agreement\<close>

definition cache_agrees :: "('b, 'd) env \<Rightarrow> ('r, 'b) table \<Rightarrow> ('r \<Rightarrow> 'r) \<Rightarrow> ('b, 'd) shared \<Rightarrow> bool" where
  "cache_agrees E T pack s \<longleftrightarrow> (\<forall>u \<in> set (unique_keys T). \<forall>x v. dbcache s (GetKey T x u False) = Some v \<longrightarrow>
     (\<exists>i r. abs_table T (kv_get E (db s)) i = Some r \<and> GetKey T r u False = GetKey T x u False \<and> v = ser (rcodec T) (pack r)))"

text \<open>The records a list of calls leaves in the index, by kind and id\<close>

fun index_add :: "keytype \<Rightarrow> xap_event \<Rightarrow> (64 word \<Rightarrow> ItemDataT option) \<Rightarrow> (64 word \<Rightarrow> ItemDataT option)" where
  "index_add kt (XapAdd k r) m = (if k = kt then m(item_id r \<mapsto> r) else m)"
| "index_add kt (XapDel k r) m = (if k = kt then m(item_id r := None) else m)"
| "index_add kt XapCommit m = m"

definition indexed :: "keytype \<Rightarrow> xap_event list \<Rightarrow> 64 word \<Rightarrow> ItemDataT option" where
  "indexed kt evs = fold (index_add kt) evs (\<lambda>_. None)"

fun adds_item :: "xap_event \<Rightarrow> bool" where
  "adds_item (XapAdd kt r) \<longleftrightarrow> kt = K_LOCALDATA \<or> kt = K_WIKIDATA"
| "adds_item (XapDel kt r) \<longleftrightarrow> False"
| "adds_item XapCommit \<longleftrightarrow> True"

text \<open>Nothing is indexed any more once that is switched off.\<close>

definition index_ok :: "('b, 'd) env \<Rightarrow> ('b, 'd) shared \<Rightarrow> bool" where
  "index_ok E s \<longleftrightarrow> no_xapian s \<or>
     (indexed K_LOCALDATA (xaplog s) = abs_table (LocalDataTable E) (kv_get E (db s)) \<and>
      indexed K_WIKIDATA (xaplog s) = abs_table (WikiDataTable E) (kv_get E (db s)) \<and>
      (\<forall>e \<in> set (xaplog s). adds_item e))"

definition caches_ok :: "('b, 'd) env \<Rightarrow> ('b, 'd) shared \<Rightarrow> bool" where
  "caches_ok E s \<longleftrightarrow> cache_agrees E (TagDataTable E) TagData_Pack s \<and> cache_agrees E (CategoryTable E) Category_Pack s \<and>
     cache_agrees E (ExterDataTable E) Exter_Pack s \<and> cache_agrees E (UserDataTable E) User_Pack s \<and> index_ok E s"

definition tables_wf :: "('b, 'd) env \<Rightarrow> 'b lookup \<Rightarrow> bool" where
  "tables_wf E g \<longleftrightarrow> wf_table E (TagDataTable E) g \<and> wf_table E (CategoryTable E) g \<and> wf_table E (ExterDataTable E) g \<and>
     wf_table E (UserDataTable E) g \<and> wf_table E (LocalDataTable E) g \<and> wf_table E (WikiDataTable E) g"

lemma tables_wfD:
  assumes "tables_wf E g"
  shows "wf_table E (TagDataTable E) g" "wf_table E (CategoryTable E) g" "wf_table E (ExterDataTable E) g"
    "wf_table E (UserDataTable E) g" "wf_table E (LocalDataTable E) g" "wf_table E (WikiDataTable E) g"
  using assms by (simp_all add: tables_wf_def)

context table_laws
begin

lemma unique_table_key: "u \<in> set (unique_keys T) \<Longrightarrow> table_key T (GetKey T x u False)"
  using GetKey_unique [of u x False] by (auto simp: table_key_def)

lemma cache_agrees_put:
  assumes "cache_agrees E T pack s" and "u \<in> set (unique_keys T)" and "abs_table T (kv_get E (db s)) i = Some r"
  shows "cache_agrees E T pack (s\<lparr>dbcache := (dbcache s)(GetKey T r u False \<mapsto> ser (rcodec T) (pack r))\<rparr>)"
  unfolding cache_agrees_def
proof (intro ballI allI impI)
  fix w x v
  assume w: "w \<in> set (unique_keys T)"
    and v: "dbcache (s\<lparr>dbcache := (dbcache s)(GetKey T r u False \<mapsto> ser (rcodec T) (pack r))\<rparr>) (GetKey T x w False) = Some v"
  show "\<exists>i ra. abs_table T (kv_get E (db (s\<lparr>dbcache := (dbcache s)(GetKey T r u False \<mapsto> ser (rcodec T) (pack r))\<rparr>))) i = Some ra \<and>
      GetKey T ra w False = GetKey T x w False \<and> v = ser (rcodec T) (pack ra)"
  proof (cases "GetKey T x w False = GetKey T r u False")
    case True
    with unique_prefix_inj [OF w assms(2), of x r] v assms(3) show ?thesis by auto
  next
    case False
    with v w assms(1) show ?thesis unfolding cache_agrees_def by simp
  qed
qed

lemma cache_agrees_cong:
  assumes "\<And>k. table_key T k \<Longrightarrow> kv_get E (db s') k = kv_get E (db s) k"
    and "\<And>k v. table_key T k \<Longrightarrow> dbcache s' k = Some v \<Longrightarrow> dbcache s k = Some v"
    and "cache_agrees E T pack s"
  shows "cache_agrees E T pack s'"
proof -
  have "abs_table T (kv_get E (db s')) = abs_table T (kv_get E (db s))" using wf_table_cong(2) assms(1) by blast
  then show ?thesis
    using assms(2,3) unique_table_key unfolding cache_agrees_def by metis
qed

end

section \<open>Actions that do not write\<close>

text \<open>What stays while a request is checked and prepared; the clock and the random generator go on.\<close>

definition steady :: "('b, 'd) env \<Rightarrow> ('b, 'd) shared \<Rightarrow> ('b, 'd) shared \<Rightarrow> bool" where
  "steady E s0 s \<longleftrightarrow> pb_ok E \<and> tables_wf E (kv_get E (db s)) \<and> caches_ok E s \<and> db s = db s0 \<and> logcounter s = logcounter s0 \<and>
     maincounter s = maincounter s0 \<and> is_master s = is_master s0"

named_theorems steady_intros \<open>actions that keep \<open>steady\<close>\<close>

lemma index_ok_cache [simp]: "index_ok E (s\<lparr>dbcache := c\<rparr>) = index_ok E s"
  by (simp add: index_ok_def)

lemma caches_ok_frame: "db s' = db s \<Longrightarrow> dbcache s' = dbcache s \<Longrightarrow> xaplog s' = xaplog s \<Longrightarrow> no_xapian s' = no_xapian s \<Longrightarrow>
    caches_ok E s' = caches_ok E s"
  by (simp add: caches_ok_def cache_agrees_def index_ok_def)

lemma steady_frame:
  assumes "steady E s0 s" and "db s' = db s" and "dbcache s' = dbcache s" and "logcounter s' = logcounter s"
    and "maincounter s' = maincounter s" and "is_master s' = is_master s" and "xaplog s' = xaplog s" and "no_xapian s' = no_xapian s"
  shows "steady E s0 s'"
  using assms caches_ok_frame [OF assms(2,3,7,8), of E] unfolding steady_def by metis

text \<open>The commands of the search\<close>

lemma steady_xapian:
  assumes "steady E s0 s"
  shows "steady E s0 (s\<lparr>no_xapian := True\<rparr>)" "steady E s0 (s\<lparr>xaplog := xaplog s @ [XapCommit]\<rparr>)"
  using assms by (auto simp: steady_def caches_ok_def cache_agrees_def index_ok_def indexed_def)

lemma steady_CURRTIME [steady_intros]: "keeps (steady E s0) (CURRTIME_MS E)"
  by (auto intro!: keepsI elim!: steady_frame simp: CURRTIME_MS_def)

lemma steady_Create_new [steady_intros]: "keeps (steady E s0) (Create_new E a)"
  unfolding Create_new_def
  by (intro keeps_intros keepsI) (auto elim!: steady_frame split: if_splits)

context table_laws
begin

lemma cache_agrees_other:
  assumes "cache_agrees E T pack s" and "\<not> table_key T k"
  shows "cache_agrees E T pack (s\<lparr>dbcache := (dbcache s)(k \<mapsto> v)\<rparr>)"
  using assms(2) by (intro cache_agrees_cong [OF _ _ assms(1)]) (auto split: if_splits)

text \<open>The lookup in the table that fills the cache.\<close>

lemma keeps_fill:
  assumes "u \<in> set (unique_keys T)" and "\<And>s. P s \<Longrightarrow> wf_table E T (kv_get E (db s))"
    and "\<And>s i r. P s \<Longrightarrow> abs_table T (kv_get E (db s)) i = Some r \<Longrightarrow>
      P (s\<lparr>dbcache := (dbcache s)(GetKey T r u False \<mapsto> ser (rcodec T) (pack r))\<rparr>)"
    and "\<And>r. keeps P (f r)" and "\<And>r. keeps P (h r)"
  shows "keeps P (bindA (liftR (\<lambda>s. GetOne E T (kv_get E (db s)) d u)) (\<lambda>(found, r).
    if found then bindA (SetCache (GetKey T r u False) (ser (rcodec T) (pack r))) (\<lambda>_. f r) else h r))"
proof (rule keepsI)
  fix s assume s: "P s"
  let ?m = "bindA (liftR (\<lambda>s. GetOne E T (kv_get E (db s)) d u)) (\<lambda>(found, r).
    if found then bindA (SetCache (GetKey T r u False) (ser (rcodec T) (pack r))) (\<lambda>_. f r) else h r)"
  from GetOne_unique [OF assms(2) [OF s] assms(1), of d] show "P (snd (?m s))"
  proof (elim disjE exE conjE)
    fix i x assume x: "abs_table T (kv_get E (db s)) i = Some x" "GetOne E T (kv_get E (db s)) d u = Inr (True, x)"
    with keepsD [OF assms(4) assms(3) [OF s x(1)], of x] show ?thesis
      by (simp add: run_simps SetCache_def SetAssoc_def)
  next
    assume "GetOne E T (kv_get E (db s)) d u = Inr (False, d)"
    with keepsD [OF assms(5) s, of d] show ?thesis by (simp add: run_simps)
  qed
qed

end

text \<open>A key of one table is none of another.\<close>

lemma disjointD: "table_key T k \<Longrightarrow> disjoint_tables T U \<Longrightarrow> \<not> table_key U k"
  by (auto simp: disjoint_tables_def)

lemma apart:
  "table_key (TagDataTable E) k \<Longrightarrow> \<not> table_key (CategoryTable E) k \<and> \<not> table_key (ExterDataTable E) k \<and> \<not> table_key (UserDataTable E) k \<and> \<not> table_key (LocalDataTable E) k \<and> \<not> table_key (WikiDataTable E) k"
  "table_key (CategoryTable E) k \<Longrightarrow> \<not> table_key (TagDataTable E) k \<and> \<not> table_key (ExterDataTable E) k \<and> \<not> table_key (UserDataTable E) k \<and> \<not> table_key (LocalDataTable E) k \<and> \<not> table_key (WikiDataTable E) k"
  "table_key (ExterDataTable E) k \<Longrightarrow> \<not> table_key (TagDataTable E) k \<and> \<not> table_key (CategoryTable E) k \<and> \<not> table_key (UserDataTable E) k \<and> \<not> table_key (LocalDataTable E) k \<and> \<not> table_key (WikiDataTable E) k"
  "table_key (UserDataTable E) k \<Longrightarrow> \<not> table_key (TagDataTable E) k \<and> \<not> table_key (CategoryTable E) k \<and> \<not> table_key (ExterDataTable E) k \<and> \<not> table_key (LocalDataTable E) k \<and> \<not> table_key (WikiDataTable E) k"
  "table_key (LocalDataTable E) k \<Longrightarrow> \<not> table_key (TagDataTable E) k \<and> \<not> table_key (CategoryTable E) k \<and> \<not> table_key (ExterDataTable E) k \<and> \<not> table_key (UserDataTable E) k \<and> \<not> table_key (WikiDataTable E) k"
  "table_key (WikiDataTable E) k \<Longrightarrow> \<not> table_key (TagDataTable E) k \<and> \<not> table_key (CategoryTable E) k \<and> \<not> table_key (ExterDataTable E) k \<and> \<not> table_key (UserDataTable E) k \<and> \<not> table_key (LocalDataTable E) k"
  by (intro conjI; erule disjointD; rule tables_disjoint)+

text \<open>A record put into the cache under its own name.\<close>

lemmas agrees_other = tagdata_tbl.cache_agrees_other category_tbl.cache_agrees_other exterdata_tbl.cache_agrees_other
  userdata_tbl.cache_agrees_other

lemma caches_ok_tag:
  assumes "caches_ok E s" and "abs_table (TagDataTable E) (kv_get E (db s)) i = Some r"
  shows "caches_ok E (s\<lparr>dbcache := (dbcache s)(tag_key (tag_keytype r) (tag_name r) \<mapsto> ser (c_tag E) (TagData_Pack r))\<rparr>)"
proof -
  have "table_key (TagDataTable E) (tag_key (tag_keytype r) (tag_name r))"
    using tagdata_tbl.unique_table_key [of U_TAGDATA_KEYTYPE_NAME E r] by (simp add: tag_key_def)
  from apart(1) [OF this] show ?thesis
    using assms tagdata_tbl.cache_agrees_put [of E E TagData_Pack s U_TAGDATA_KEYTYPE_NAME i r]
    by (simp add: caches_ok_def tag_key_def agrees_other)
qed

lemma caches_ok_category:
  assumes "caches_ok E s" and "abs_table (CategoryTable E) (kv_get E (db s)) i = Some r"
  shows "caches_ok E (s\<lparr>dbcache := (dbcache s)(category_key (cat_name r) \<mapsto> ser (c_cat E) (Category_Pack r))\<rparr>)"
proof -
  have "table_key (CategoryTable E) (category_key (cat_name r))"
    using category_tbl.unique_table_key [of U_CATEGORY_NAME E r] by (simp add: category_key_def)
  from apart(2) [OF this] show ?thesis
    using assms category_tbl.cache_agrees_put [of E E Category_Pack s U_CATEGORY_NAME i r]
    by (simp add: caches_ok_def category_key_def agrees_other)
qed

lemma caches_ok_exter:
  assumes "caches_ok E s" and "abs_table (ExterDataTable E) (kv_get E (db s)) i = Some r"
  shows "caches_ok E (s\<lparr>dbcache := (dbcache s)(exter_key (user_name r) \<mapsto> ser (c_user E) (Exter_Pack r))\<rparr>)"
proof -
  have "table_key (ExterDataTable E) (exter_key (user_name r))"
    using exterdata_tbl.unique_table_key [of U_EXTERDATA_NAME E r] by (simp add: exter_key_def)
  from apart(3) [OF this] show ?thesis
    using assms exterdata_tbl.cache_agrees_put [of E E Exter_Pack s U_EXTERDATA_NAME i r]
    by (simp add: caches_ok_def exter_key_def agrees_other)
qed

lemma caches_ok_user:
  assumes "caches_ok E s" and "abs_table (UserDataTable E) (kv_get E (db s)) i = Some r"
  shows "caches_ok E (s\<lparr>dbcache := (dbcache s)(user_key (user_name r) \<mapsto> ser (c_user E) (User_Pack r))\<rparr>)"
proof -
  have "table_key (UserDataTable E) (user_key (user_name r))"
    using userdata_tbl.unique_table_key [of U_USERDATA_NAME E r] by (simp add: user_key_def)
  from apart(4) [OF this] show ?thesis
    using assms userdata_tbl.cache_agrees_put [of E E User_Pack s U_USERDATA_NAME i r]
    by (simp add: caches_ok_def user_key_def agrees_other)
qed

section \<open>The lookups keep it\<close>

lemma steady_put:
  assumes "steady E s0 s" and "caches_ok E (s\<lparr>dbcache := c\<rparr>)"
  shows "steady E s0 (s\<lparr>dbcache := c\<rparr>)"
  using assms unfolding steady_def by auto

lemma steadyD:
  assumes "steady E s0 s"
  shows "pb_ok E" "tables_wf E (kv_get E (db s))" "caches_ok E s" "db s = db s0" "logcounter s = logcounter s0"
    "maincounter s = maincounter s0" "is_master s = is_master s0"
  using assms unfolding steady_def by blast+

text \<open>The shape of a lookup through the cache.\<close>

lemma keeps_cached:
  assumes "keeps P n" and "\<And>x. keeps P (f x)" and "\<And>y. keeps P (g y)"
  shows "keeps P (bindA (bindA (readA c) (\<lambda>v. case v of None \<Rightarrow> n | Some x \<Rightarrow> f x)) g)"
  using assms by (intro keeps_bindA keeps_readA keeps_option)

lemma steady_TagData_Get [steady_intros]: "keeps (steady E s0) (TagData_Get E d)"
proof -
  have key: "GetKey (TagDataTable E) d U_TAGDATA_KEYTYPE_NAME False = tag_key (tag_keytype d) (tag_name d)" for d by (simp add: tag_key_def)
  have "keeps (steady E s0) (bindA (liftR (\<lambda>s. GetOne E (TagDataTable E) (kv_get E (db s)) d U_TAGDATA_KEYTYPE_NAME)) (\<lambda>(found, d).
           if found then bindA (SetCache (tag_key (tag_keytype d) (tag_name d)) (ser (c_tag E) (TagData_Pack d))) (\<lambda>_. ret (True, d))
           else ret (False, d)))"
    by (rule tagdata_tbl.keeps_fill [where u = U_TAGDATA_KEYTYPE_NAME and pack = TagData_Pack and E = E and Ea = E, unfolded key TagDataTable_simps(10)])
      (auto intro: keeps_ret tables_wfD(1) [OF steadyD(2)] steady_put caches_ok_tag steadyD(3))
  then show ?thesis unfolding TagData_Get_def by (rule keeps_cached) (auto intro: keeps_intros)
qed

lemma steady_Category_Get [steady_intros]: "keeps (steady E s0) (Category_Get E d)"
proof -
  have key: "GetKey (CategoryTable E) d U_CATEGORY_NAME False = category_key (cat_name d)" for d by (simp add: category_key_def)
  have "keeps (steady E s0) (bindA (liftR (\<lambda>s. GetOne E (CategoryTable E) (kv_get E (db s)) d U_CATEGORY_NAME)) (\<lambda>(found, d).
           if found then bindA (SetCache (category_key (cat_name d)) (ser (c_cat E) (Category_Pack d))) (\<lambda>_. ret (True, d))
           else ret (False, d)))"
    by (rule category_tbl.keeps_fill [where u = U_CATEGORY_NAME and pack = Category_Pack and E = E and Ea = E, unfolded key CategoryTable_simps(10)])
      (auto intro: keeps_ret tables_wfD(2) [OF steadyD(2)] steady_put caches_ok_category steadyD(3))
  then show ?thesis unfolding Category_Get_def by (rule keeps_cached) (auto intro: keeps_intros)
qed

lemma steady_Exter_Get [steady_intros]: "keeps (steady E s0) (Exter_Get E d)"
proof -
  have key: "GetKey (ExterDataTable E) d U_EXTERDATA_NAME False = exter_key (user_name d)" for d by (simp add: exter_key_def)
  have "keeps (steady E s0) (bindA (liftR (\<lambda>s. GetOne E (ExterDataTable E) (kv_get E (db s)) d U_EXTERDATA_NAME)) (\<lambda>(found, d).
           if found then bindA (SetCache (exter_key (user_name d)) (ser (c_user E) (Exter_Pack d))) (\<lambda>_. ret (True, d))
           else ret (False, d)))"
    by (rule exterdata_tbl.keeps_fill [where u = U_EXTERDATA_NAME and pack = Exter_Pack and E = E and Ea = E, unfolded key ExterDataTable_simps(10)])
      (auto intro: keeps_ret tables_wfD(3) [OF steadyD(2)] steady_put caches_ok_exter steadyD(3))
  then show ?thesis unfolding Exter_Get_def by (rule keeps_cached) (auto intro: keeps_intros)
qed

text \<open>The entries for the categories of a user are keys of no table.\<close>

lemma user_cat_key_apart:
  "\<not> table_key (TagDataTable E) (user_cat_key n c)" "\<not> table_key (CategoryTable E) (user_cat_key n c)"
  "\<not> table_key (ExterDataTable E) (user_cat_key n c)" "\<not> table_key (UserDataTable E) (user_cat_key n c)"
  by (simp_all add: table_key_iff user_cat_key_def EncodeSecondaryKey_Cons starts_with_def ZPDS_FMT_ID_KEY_inject
      byte_keytype_def keytype_defs)

lemma steady_cat_cache: "keeps (steady E s0) (SetCache (user_cat_key n c) v)"
proof (rule keepsI)
  fix s assume "steady E s0 s"
  then show "steady E s0 (snd (SetCache (user_cat_key n c) v s))"
    using steadyD(3) [of E s0 s]
    by (simp add: SetCache_def SetAssoc_def) (rule steady_put; simp add: caches_ok_def agrees_other user_cat_key_apart)
qed

lemma steady_User_Get [steady_intros]: "keeps (steady E s0) (User_Get E d)"
proof -
  have key: "GetKey (UserDataTable E) d U_USERDATA_NAME False = user_key (user_name d)" for d by (simp add: user_key_def)
  have "keeps (steady E s0) (bindA (liftR (\<lambda>s. GetOne E (UserDataTable E) (kv_get E (db s)) d U_USERDATA_NAME)) (\<lambda>(found, d).
           if found then bindA (SetCache (user_key (user_name d)) (ser (c_user E) (User_Pack d))) (\<lambda>_.
             bindA (foldA (\<lambda>c _. SetCache (user_cat_key (user_name d) c) (of_str E (to_dec (unat (user_updated_at d)))))
                      (user_categories d) ()) (\<lambda>_. ret (True, d)))
           else ret (False, d)))"
    by (rule userdata_tbl.keeps_fill [where u = U_USERDATA_NAME and pack = User_Pack and E = E and Ea = E, unfolded key UserDataTable_simps(10)])
      (auto intro: keeps_ret keeps_bindA keeps_foldA steady_cat_cache tables_wfD(4) [OF steadyD(2)] steady_put caches_ok_user steadyD(3))
  then show ?thesis unfolding User_Get_def by (rule keeps_cached) (auto intro: keeps_intros)
qed

section \<open>Sessions and the handlers of fields\<close>

lemma steady_session_of [steady_intros]: "keeps (steady E s0) (session_of E n k kt onlyadmin e)"
  unfolding session_of_def CheckSession_def CheckSessionBase_def
  by (intro keeps_intros steady_intros)

lemma steady_categories [steady_intros]: "keeps (steady E s0) (HandleUserCategories E i out m)"
  unfolding HandleUserCategories_def category_item_def by (intro keeps_intros steady_intros)

lemma steady_tag_lookup [steady_intros]: "keeps (steady E s0) (tag_lookup E ks n r)"
  by (induction ks arbitrary: r) (auto intro!: keeps_intros steady_intros)

lemma steady_tags [steady_intros]: "keeps (steady E s0) (HandleUserTags E i out ks m)"
  unfolding HandleUserTags_def tag_old_def tag_new_def by (intro keeps_intros steady_intros)

lemma steady_whenA [steady_intros]: "(\<And>c. keeps (steady E s0) (f c)) \<Longrightarrow> keeps (steady E s0) (whenA b f c)"
  by (simp add: whenA_def keeps_ret)

lemma steady_User_PrepareData [steady_intros]: "keeps (steady E s0) (User_PrepareData E u d a f m)"
  unfolding User_PrepareData_def user_list_fields_def set_passkey_def new_signkey_def
  by (intro keeps_intros steady_intros)

lemma steady_Exter_PrepareData [steady_intros]: "keeps (steady E s0) (Exter_PrepareData E u d a f m)"
  unfolding Exter_PrepareData_def exter_list_fields_def set_passkey_def new_signkey_def
  by (intro keeps_intros steady_intros)

lemma steady_Item_PrepareData [steady_intros]: "keeps (steady E s0) (Item_PrepareData E S u d a f m)"
  unfolding Item_PrepareData_def item_fields1_def by (intro keeps_intros steady_intros)

end
