(* ===== verification/GeoHash.thy ===== *)
theory GeoHash
  imports Prelude
begin

text \<open>
  Component \<open>GeoHashHelper\<close> (\<open>include/search/GeoHashHelper.hpp\<close>, \<open>src/search/GeoHashHelper.cc\<close>): names
  for the cells of a grid over the earth, by which items are indexed and searched for. A \<open>double\<close> is
  a \<open>real\<close>: every bound of an interval is a multiple of 45/2^28 for names of at most twelve
  characters, which a double holds exactly, so the bisections round nothing; not a number and the
  infinities are left out. \<open>DistanceKm\<close>, \<open>Deg2Rad\<close> and \<open>GetBbox\<close>, which no code calls, would round
  and are not modelled. The laws are in \<open>GeoHashLaws\<close>.
\<close>

section \<open>The code\<close>

definition ZPDS_NORTH :: nat where "ZPDS_NORTH = 0"
definition ZPDS_EAST :: nat where "ZPDS_EAST = 1"
definition ZPDS_SOUTH :: nat where "ZPDS_SOUTH = 2"
definition ZPDS_WEST :: nat where "ZPDS_WEST = 3"

definition ZPDS_DEFAULT_MIN_LAT :: real where "ZPDS_DEFAULT_MIN_LAT = - 90"
definition ZPDS_DEFAULT_MAX_LAT :: real where "ZPDS_DEFAULT_MAX_LAT = 90"
definition ZPDS_DEFAULT_MIN_LON :: real where "ZPDS_DEFAULT_MIN_LON = - 180"
definition ZPDS_DEFAULT_MAX_LON :: real where "ZPDS_DEFAULT_MAX_LON = 180"
definition ZPDS_ALLOWED_MIN_LAT :: real where "ZPDS_ALLOWED_MIN_LAT = - 85.05113"
definition ZPDS_ALLOWED_MAX_LAT :: real where "ZPDS_ALLOWED_MAX_LAT = 85.05113"
definition ZPDS_ALLOWED_MIN_LON :: real where "ZPDS_ALLOWED_MIN_LON = - 180"
definition ZPDS_ALLOWED_MAX_LON :: real where "ZPDS_ALLOWED_MAX_LON = 180"

definition char_map :: string where
  "char_map = ''0123456789bcdefghjkmnpqrstuvwxyz''"

definition even_neighbours :: "string list" where
  "even_neighbours =
     [''p0r21436x8zb9dcf5h7kjnmqesgutwvy'', ''bc01fg45238967deuvhjyznpkmstqrwx'',
      ''14365h7k9dcfesgujnmqp0r2twvyx8zb'', ''238967debc01fg45kmstqrwxuvhjyznp'']"

definition odd_neighbours :: "string list" where
  "odd_neighbours =
     [''bc01fg45238967deuvhjyznpkmstqrwx'', ''p0r21436x8zb9dcf5h7kjnmqesgutwvy'',
      ''238967debc01fg45kmstqrwxuvhjyznp'', ''14365h7k9dcfesgujnmqp0r2twvyx8zb'']"

definition even_borders :: "string list" where
  "even_borders = [''prxz'', ''bcfguvyz'', ''028b'', ''0145hjnp'']"

definition odd_borders :: "string list" where
  "odd_borders = [''bcfguvyz'', ''prxz'', ''0145hjnp'', ''028b'']"

record IntervalT =
  iv_high :: real
  iv_low :: real

record NewsT =
  north :: real
  east :: real
  south :: real
  west :: real

record GeoCoordT =
  gc_lat :: real
  gc_lon :: real
  gc_news :: NewsT

definition GeoCoordT_new :: GeoCoordT where
  "GeoCoordT_new = \<lparr>gc_lat = 0, gc_lon = 0, gc_news = \<lparr>north = 0, east = 0, south = 0, west = 0\<rparr>\<rparr>"

text \<open>\<open>std::string::find\<close> of a character, \<open>None\<close> for \<open>npos\<close>\<close>

definition find_char :: "string \<Rightarrow> char \<Rightarrow> nat option" where
  "find_char s c = (if c \<in> set s then Some (length (takeWhile (\<lambda>x. x \<noteq> c) s)) else None)"

text \<open>One round of the loop of \<open>Encode\<close>: the intervals of latitude and longitude, the bits collected
  since the last character (\<open>hashChar\<close>, at most five) and the stream.\<close>

record encoding =
  en_lat :: IntervalT
  en_lon :: IntervalT
  en_bits :: nat
  en_out :: string

definition halve :: "real \<Rightarrow> IntervalT \<Rightarrow> bool \<times> IntervalT" where
  "halve coord iv =
     (let mid = (iv_low iv + iv_high iv) / 2 in
      if coord > mid then (True, iv\<lparr>iv_low := mid\<rparr>) else (False, iv\<lparr>iv_high := mid\<rparr>))"

definition Encode_bit :: "real \<Rightarrow> real \<Rightarrow> nat \<Rightarrow> encoding \<Rightarrow> encoding" where
  "Encode_bit lat lon i st =
     (let (b, st1) =
        (if i mod 2 = 1 then (case halve lon (en_lon st) of (b, iv) \<Rightarrow> (b, st\<lparr>en_lon := iv\<rparr>))
         else (case halve lat (en_lat st) of (b, iv) \<Rightarrow> (b, st\<lparr>en_lat := iv\<rparr>)));
        hashChar = 2 * en_bits st + of_bool b
      in if i mod 5 = 0 then st1\<lparr>en_bits := 0, en_out := en_out st @ [char_map ! hashChar]\<rparr>
         else st1\<lparr>en_bits := hashChar\<rparr>)"

definition world_lat :: IntervalT where
  "world_lat = \<lparr>iv_high = ZPDS_DEFAULT_MAX_LAT, iv_low = ZPDS_DEFAULT_MIN_LAT\<rparr>"

definition world_lon :: IntervalT where
  "world_lon = \<lparr>iv_high = ZPDS_DEFAULT_MAX_LON, iv_low = ZPDS_DEFAULT_MIN_LON\<rparr>"

definition Encode_start :: encoding where
  "Encode_start = \<lparr>en_lat = world_lat, en_lon = world_lon, en_bits = 0, en_out = []\<rparr>"

definition Encode :: "real \<Rightarrow> real \<Rightarrow> nat \<Rightarrow> string res" where
  "Encode lat lon prec =
     (if lon > ZPDS_ALLOWED_MAX_LON \<or> lon < ZPDS_ALLOWED_MIN_LON \<or>
         lat > ZPDS_ALLOWED_MAX_LAT \<or> lat < ZPDS_ALLOWED_MIN_LAT
      then Inl (BadDataException ''Invalid LonLat'' 0)
      else (let p = (if prec < 1 \<or> prec > 12 then 12 else prec) * 5
        in Inr (en_out (fold (Encode_bit lat lon) [1..<p + 1] Encode_start))))"

text \<open>\<open>Decode\<close>: five bits of a character, the count \<open>is_even\<close> tells whose turn it is; the loop ends at
  the first character that is none of the alphabet.\<close>

definition Decode_bit :: "nat \<Rightarrow> nat \<Rightarrow> IntervalT \<times> IntervalT \<times> nat \<Rightarrow> IntervalT \<times> IntervalT \<times> nat" where
  "Decode_bit idx j = (\<lambda>(la, lo, is_even).
     let n = is_even + 1;
         iv = (if n mod 2 \<noteq> 0 then lo else la);
         delta = (iv_high iv - iv_low iv) / 2;
         iv' = (if odd (idx div 2 ^ (4 - j)) then iv\<lparr>iv_low := iv_low iv + delta\<rparr>
                else iv\<lparr>iv_high := iv_high iv - delta\<rparr>)
     in if n mod 2 \<noteq> 0 then (la, iv', n) else (iv', lo, n))"

fun Decode_loop :: "string \<Rightarrow> IntervalT \<times> IntervalT \<times> nat \<Rightarrow> IntervalT \<times> IntervalT \<times> nat" where
  "Decode_loop [] st = st"
| "Decode_loop (h # hs) st =
     (case find_char char_map h of None \<Rightarrow> st
      | Some idx \<Rightarrow> Decode_loop hs (fold (Decode_bit idx) [0..<5] st))"

definition Decode :: "string \<Rightarrow> GeoCoordT" where
  "Decode hash =
     (if length hash = 0 then GeoCoordT_new
      else (case Decode_loop hash (world_lat, world_lon, 0) of (la, lo, _) \<Rightarrow>
        \<lparr>gc_lat = iv_high la - (iv_high la - iv_low la) / 2,
         gc_lon = iv_high lo - (iv_high lo - iv_low lo) / 2,
         gc_news = \<lparr>north = iv_high la, east = iv_high lo, south = iv_low la, west = iv_low lo\<rparr>\<rparr>))"

function GetOneNeighbour :: "string \<Rightarrow> nat \<Rightarrow> string res" where
  "GetOneNeighbour hash direction =
     (if direction > ZPDS_WEST \<or> length hash < 2 then Inl BadGeoHashException
      else (let border = (if length hash mod 2 = 1 then odd_borders else even_borders) ! direction;
                neighbour = (if length hash mod 2 = 1 then odd_neighbours else even_neighbours) ! direction
        in case find_char neighbour (List.last hash) of
             None \<Rightarrow> Inl BadGeoHashException
           | Some neighbour_index \<Rightarrow>
               (if neighbour_index \<ge> length char_map then Inl BadGeoHashException
                else bindR (if find_char border (List.last hash) \<noteq> None
                            then GetOneNeighbour (butlast hash) direction else Inr (butlast hash))
                  (\<lambda>base. Inr (base @ [char_map ! neighbour_index])))))"
  by pat_completeness auto
termination
  by (relation "measure (\<lambda>(hash, _). length hash)") auto

declare GetOneNeighbour.simps [simp del]

text \<open>\<open>for (...) hash = GetOneNeighbour(hash,dir)\<close>, which adds every cell it comes to\<close>

fun neighbour_walk :: "nat \<Rightarrow> nat \<Rightarrow> string \<Rightarrow> (string \<times> string list) res" where
  "neighbour_walk 0 dir hash = Inr (hash, [])"
| "neighbour_walk (Suc i) dir hash =
     bindR (GetOneNeighbour hash dir) (\<lambda>h.
     bindR (neighbour_walk i dir h) (\<lambda>(h', n). Inr (h', h # n)))"

definition neighbour_ring :: "string \<Rightarrow> nat \<Rightarrow> string list res" where
  "neighbour_ring hash level =
     bindR (neighbour_walk level ZPDS_NORTH hash) (\<lambda>(h0, _).
     bindR (neighbour_walk level ZPDS_EAST h0) (\<lambda>(h1, n1).
     bindR (neighbour_walk (level * 2) ZPDS_SOUTH h1) (\<lambda>(h2, n2).
     bindR (neighbour_walk (level * 2) ZPDS_WEST h2) (\<lambda>(h3, n3).
     bindR (neighbour_walk (level * 2) ZPDS_NORTH h3) (\<lambda>(h4, n4).
     bindR (neighbour_walk (level - 1) ZPDS_EAST h4) (\<lambda>(_, n5).
       Inr ([h0] @ n1 @ n2 @ n3 @ n4 @ n5)))))))"

text \<open>A \<open>BadGeoHashException\<close>, the only exception there is, is answered with the empty list.\<close>

definition GetNeighbours :: "string \<Rightarrow> nat \<Rightarrow> string list" where
  "GetNeighbours hash level =
     (if level \<le> 0 then []
      else (case neighbour_ring hash level of Inl _ \<Rightarrow> [] | Inr n \<Rightarrow> n))"

end
