(* ===== verification/SearchIndex.thy ===== *)
theory SearchIndex
  imports SearchText GeoHash StoreTrans
begin

text \<open>
  The search index: the documents that \<open>src/search/IndexBase.cc\<close>, \<open>IndexLocal.cc\<close> and \<open>IndexWiki.cc\<close> make of
  items, and the writable databases of \<open>src/search/WriteIndex.cc\<close>. A document of Xapian is what was put
  into it: the postings with their positions, the terms and the values by slot. A database maps id terms
  to documents (\<open>replace_document\<close> leaves one document per id term); what is written is seen by readers
  after the next commit, or earlier when Xapian flushes of itself. The calls of Xapian are taken not to throw.
\<close>

section \<open>Documents\<close>

definition XAP_IMPORTANCE_POS :: nat where "XAP_IMPORTANCE_POS = 0"
definition XAP_ROCKSID_POS :: nat where "XAP_ROCKSID_POS = 1"
definition XAP_UNIQUEID_POS :: nat where "XAP_UNIQUEID_POS = 2"
definition XAP_LATLON_POS :: nat where "XAP_LATLON_POS = 3"

definition XAP_BEGINFULL_PREFIX :: string where "XAP_BEGINFULL_PREFIX = ''a_''"
definition XAP_BEGINPART_PREFIX :: string where "XAP_BEGINPART_PREFIX = ''b_''"
definition XAP_PARTWORD_PREFIX :: string where "XAP_PARTWORD_PREFIX = ''c_''"
definition XAP_NAMEFULL_PREFIX :: string where "XAP_NAMEFULL_PREFIX = ''d_''"
definition XAP_NAMEPART_PREFIX :: string where "XAP_NAMEPART_PREFIX = ''e_''"
definition XAP_CCODE_PREFIX :: string where "XAP_CCODE_PREFIX = ''f_''"
definition XAP_CITY_PREFIX :: string where "XAP_CITY_PREFIX = ''g_''"
definition XAP_PINCODE_PREFIX :: string where "XAP_PINCODE_PREFIX = ''h_''"
definition XAP_GEOHASH3_PREFIX :: string where "XAP_GEOHASH3_PREFIX = ''j_''"
definition XAP_GEOHASH5_PREFIX :: string where "XAP_GEOHASH5_PREFIX = ''k_''"
definition XAP_GEOHASH7_PREFIX :: string where "XAP_GEOHASH7_PREFIX = ''l_''"
definition XAP_GEOHASH9_PREFIX :: string where "XAP_GEOHASH9_PREFIX = ''m_''"
definition XAP_NBRHASH3_PREFIX :: string where "XAP_NBRHASH3_PREFIX = ''n_''"
definition XAP_NBRHASH5_PREFIX :: string where "XAP_NBRHASH5_PREFIX = ''o_''"
definition XAP_CATEGORY_PREFIX :: string where "XAP_CATEGORY_PREFIX = ''p_''"
definition XAP_TAG_PREFIX :: string where "XAP_TAG_PREFIX = ''q_''"

definition I_LOCALDATA :: int where "I_LOCALDATA = 0"
definition I_WIKIDATA :: int where "I_WIKIDATA = 1"
definition LANG_EN :: int where "LANG_EN = 0"

lemmas prefixes = XAP_BEGINFULL_PREFIX_def XAP_BEGINPART_PREFIX_def XAP_PARTWORD_PREFIX_def XAP_NAMEFULL_PREFIX_def
  XAP_NAMEPART_PREFIX_def XAP_CCODE_PREFIX_def XAP_CITY_PREFIX_def XAP_PINCODE_PREFIX_def XAP_GEOHASH3_PREFIX_def
  XAP_GEOHASH5_PREFIX_def XAP_GEOHASH7_PREFIX_def XAP_GEOHASH9_PREFIX_def XAP_NBRHASH3_PREFIX_def XAP_NBRHASH5_PREFIX_def
  XAP_CATEGORY_PREFIX_def XAP_TAG_PREFIX_def

record xdoc =
  xd_postings :: "(string \<times> nat) list"
  xd_terms :: "string list"
  xd_values :: "nat \<Rightarrow> string"

definition xdoc_new :: xdoc where
  "xdoc_new = \<lparr>xd_postings = [], xd_terms = [], xd_values = \<lambda>_. []\<rparr>"

definition add_posting :: "string \<times> nat \<Rightarrow> xdoc \<Rightarrow> xdoc" where
  "add_posting p d = d\<lparr>xd_postings := xd_postings d @ [p]\<rparr>"

definition add_term :: "string \<Rightarrow> xdoc \<Rightarrow> xdoc" where
  "add_term t d = d\<lparr>xd_terms := xd_terms d @ [t]\<rparr>"

definition add_value :: "nat \<Rightarrow> string \<Rightarrow> xdoc \<Rightarrow> xdoc" where
  "add_value slot v d = d\<lparr>xd_values := (xd_values d)(slot := v)\<rparr>"

text \<open>By which terms a document is found\<close>

definition doc_terms :: "xdoc \<Rightarrow> string set" where
  "doc_terms d = fst ` set (xd_postings d) \<union> set (xd_terms d)"

text \<open>What is used of Xapian for documents, and the stemmer: \<open>sortable_serialise\<close>, the serialised coordinates\<close>

record indexer =
  ix_serialise :: "real \<Rightarrow> string"
  ix_coords :: "real \<Rightarrow> real \<Rightarrow> string"
  ix_stem :: "string \<Rightarrow> string"

section \<open>Indexing words\<close>

text \<open>The postings of the word at place \<open>i\<close>: the word, its stem, the word joined to the one before it\<close>

definition full_postings :: "(string \<Rightarrow> string) \<Rightarrow> string list \<Rightarrow> string \<Rightarrow> bool \<Rightarrow> bool \<Rightarrow> nat \<Rightarrow> (string \<times> nat) list" where
  "full_postings kstem wvec full_prefix with_stem zero_pos i =
     (let w = wvec ! i; pos = (if zero_pos then 0 else i + 1) in
      [(full_prefix @ w, pos)] @
      (if with_stem \<and> length w \<ge> XAP_MIN_STEM_LEN \<and> w \<noteq> StemWord kstem w then [(full_prefix @ StemWord kstem w, pos)] else []) @
      (if i > 0 \<and> (w = wvec ! (i - 1) \<or> length (wvec ! (i - 1)) \<le> XAP_MAX_SHIN_LEN)
       then [(full_prefix @ wvec ! (i - 1) @ w, pos)] else []))"

definition part_postings :: "string list \<Rightarrow> string \<Rightarrow> bool \<Rightarrow> nat \<Rightarrow> (string \<times> nat) list" where
  "part_postings wvec part_prefix zero_pos i =
     map (\<lambda>j. (part_prefix @ take (j + 1) (wvec ! i), if zero_pos then 0 else i + 1)) [0..<length (wvec ! i)]"

definition IndexFullWords :: "(string \<Rightarrow> string) \<Rightarrow> string \<Rightarrow> string \<Rightarrow> bool \<Rightarrow> bool \<Rightarrow> xdoc \<Rightarrow> xdoc" where
  "IndexFullWords kstem item full_prefix with_stem zero_pos doc =
     (let wvec = LowerNoQuote item in
      fold (\<lambda>i. fold add_posting (full_postings kstem wvec full_prefix with_stem zero_pos i)) [0..<length wvec] doc)"

definition IndexOneWord :: "string \<Rightarrow> string \<Rightarrow> xdoc \<Rightarrow> xdoc" where
  "IndexOneWord item full_prefix doc = add_posting (full_prefix @ item, 0) doc"

definition IndexWithPart :: "(string \<Rightarrow> string) \<Rightarrow> string \<Rightarrow> string \<Rightarrow> string \<Rightarrow> bool \<Rightarrow> bool \<Rightarrow> xdoc \<Rightarrow> xdoc" where
  "IndexWithPart kstem item full_prefix part_prefix with_stem zero_pos doc =
     (let wvec = LowerNoQuote item in
      fold (\<lambda>i. fold add_posting (full_postings kstem wvec full_prefix with_stem zero_pos i @
                 part_postings wvec part_prefix zero_pos i)) [0..<length wvec] doc)"

section \<open>Indexing places\<close>

text \<open>An exception of \<open>Encode\<close> is caught and ignored.\<close>

definition IndexGeo :: "indexer \<Rightarrow> real \<Rightarrow> real \<Rightarrow> xdoc \<Rightarrow> xdoc" where
  "IndexGeo X lat lon doc =
     (let doc' = (if lat \<noteq> 0 \<or> lon \<noteq> 0 then
        (case Encode lat lon 9 of Inl _ \<Rightarrow> doc
         | Inr hash \<Rightarrow> fold add_term
            ([FormatPrefix (take 3 hash) XAP_GEOHASH3_PREFIX, FormatPrefix (take 5 hash) XAP_GEOHASH5_PREFIX,
              FormatPrefix (take 7 hash) XAP_GEOHASH7_PREFIX, FormatPrefix (take 9 hash) XAP_GEOHASH9_PREFIX,
              FormatPrefix (take 3 hash) XAP_NBRHASH3_PREFIX] @
             map (\<lambda>it. FormatPrefix it XAP_NBRHASH3_PREFIX) (GetNeighbours (take 3 hash) 1) @
             [FormatPrefix (take 5 hash) XAP_NBRHASH5_PREFIX] @
             map (\<lambda>it. FormatPrefix it XAP_NBRHASH5_PREFIX) (GetNeighbours (take 5 hash) 1) @
             map (\<lambda>it. FormatPrefix it XAP_NBRHASH5_PREFIX) (GetNeighbours (take 5 hash) 2)) doc) else doc)
      in add_value XAP_LATLON_POS (ix_coords X lat lon) doc')"

section \<open>Documents of items\<close>

definition index_categories :: "ItemDataT \<Rightarrow> xdoc \<Rightarrow> xdoc" where
  "index_categories r = fold (\<lambda>c. IndexOneWord c XAP_CATEGORY_PREFIX) (item_categories r)"

definition index_tags :: "ItemDataT \<Rightarrow> xdoc \<Rightarrow> xdoc" where
  "index_tags r = fold (\<lambda>t. if \<not> tag_is_searchable t then id
      else IndexOneWord (FormatTag (tag_name t) (tag_value t)) XAP_TAG_PREFIX) (item_tags r)"

definition term_if :: "bool \<Rightarrow> string \<Rightarrow> xdoc \<Rightarrow> xdoc" where
  "term_if b t = (if b then add_term t else id)"

definition idterm :: "ItemDataT \<Rightarrow> string" where
  "idterm r = ''Q'' @ to_dec (unat (item_id r))"

definition index_values :: "indexer \<Rightarrow> ItemDataT \<Rightarrow> xdoc \<Rightarrow> xdoc" where
  "index_values X r doc =
     add_value XAP_UNIQUEID_POS (item_unique_id r)
      (add_value XAP_ROCKSID_POS (to_dec (unat (item_id r)))
       (add_value XAP_IMPORTANCE_POS (ix_serialise X (item_importance r))
        (add_term (idterm r) doc)))"

definition suggest_local :: "ItemDataT \<Rightarrow> string" where
  "suggest_local r = PrintWith_String CHR '',''
     [item_fld_name r, item_fld_area r, item_pincode r, item_city r, item_country r]"

definition suggest_wiki :: "ItemDataT \<Rightarrow> string" where
  "suggest_wiki r = PrintWith_String CHR '' '' [item_title r, item_summary r, item_city r, item_country r]"

text \<open>The steps the two kinds of documents share: the text that is suggested, the name, its first word\<close>

definition index_texts :: "indexer \<Rightarrow> bool \<Rightarrow> string \<Rightarrow> string \<Rightarrow> xdoc \<Rightarrow> xdoc" where
  "index_texts X with_stem suggest name doc =
     (let doc1 = IndexWithPart (ix_stem X) suggest [] XAP_PARTWORD_PREFIX with_stem False doc;
          doc2 = (if name \<noteq> [] then IndexWithPart (ix_stem X) name XAP_NAMEFULL_PREFIX XAP_NAMEPART_PREFIX with_stem False doc1
                  else doc1);
          wvec = Split_Space name
      in if length wvec > 0
         then IndexWithPart (ix_stem X) (wvec ! 0) XAP_BEGINFULL_PREFIX XAP_BEGINPART_PREFIX with_stem False doc2
         else doc2)"

definition CreateDoc_local :: "indexer \<Rightarrow> ItemDataT \<Rightarrow> xdoc" where
  "CreateDoc_local X r =
     (let with_stem = (item_lang r = LANG_EN);
          doc1 = index_texts X with_stem (suggest_local r) (item_fld_name r) xdoc_new;
          doc2 = index_tags r (index_categories r doc1);
          doc3 = term_if (item_pincode r \<noteq> [] \<and> item_ccode r \<noteq> [])
                   (FormatPrefix (item_pincode r @ item_ccode r) XAP_PINCODE_PREFIX) doc2;
          doc4 = term_if (item_city r \<noteq> [] \<and> item_ccode r \<noteq> [])
                   (FormatPrefix (item_city r @ item_ccode r) XAP_CITY_PREFIX) doc3;
          doc5 = term_if (item_ccode r \<noteq> []) (FormatPrefix (item_ccode r) XAP_CCODE_PREFIX) doc4
      in index_values X r (IndexGeo X (item_lat r) (item_lon r) doc5))"

definition CreateDoc_wiki :: "indexer \<Rightarrow> ItemDataT \<Rightarrow> xdoc" where
  "CreateDoc_wiki X r =
     (let with_stem = (item_lang r = LANG_EN);
          doc1 = index_texts X with_stem (suggest_wiki r) (item_title r) xdoc_new;
          doc2 = index_tags r (index_categories r doc1);
          doc4 = term_if (item_city r \<noteq> [] \<and> item_ccode r \<noteq> [])
                   (FormatPrefix (item_city r @ item_ccode r) XAP_CITY_PREFIX) doc2;
          doc5 = term_if (item_ccode r \<noteq> []) (FormatPrefix (item_ccode r) XAP_CCODE_PREFIX) doc4
      in index_values X r (IndexGeo X (item_lat r) (item_lon r) doc5))"

definition CreateDoc :: "indexer \<Rightarrow> keytype \<Rightarrow> ItemDataT \<Rightarrow> xdoc" where
  "CreateDoc X kt r = (if kt = K_LOCALDATA then CreateDoc_local X r else CreateDoc_wiki X r)"

definition GetIndexType :: "keytype \<Rightarrow> int" where
  "GetIndexType kt = (if kt = K_LOCALDATA then I_LOCALDATA else I_WIKIDATA)"

section \<open>The writable databases\<close>

text \<open>The documents with their id terms, in the order in which Xapian numbers them\<close>

type_synonym xdb = "(string \<times> xdoc) list"

text \<open>One database per language and type of index, written to and committed\<close>

record write_index =
  wi_written :: "int \<Rightarrow> xdb"
  wi_committed :: "int \<Rightarrow> xdb"

definition db_number :: "int \<Rightarrow> int \<Rightarrow> int" where
  "db_number ltyp dtyp = ltyp * 1000 + dtyp"

definition WriteIndex_Update :: "int \<Rightarrow> int \<Rightarrow> string \<Rightarrow> xdoc \<Rightarrow> write_index \<Rightarrow> write_index" where
  "WriteIndex_Update ltyp dtyp idt doc w =
     w\<lparr>wi_written := (wi_written w)(db_number ltyp dtyp := AddOne idt doc (wi_written w (db_number ltyp dtyp)))\<rparr>"

definition WriteIndex_Delete :: "int \<Rightarrow> int \<Rightarrow> string \<Rightarrow> write_index \<Rightarrow> write_index" where
  "WriteIndex_Delete ltyp dtyp idt w =
     w\<lparr>wi_written := (wi_written w)(db_number ltyp dtyp := filter (\<lambda>p. fst p \<noteq> idt) (wi_written w (db_number ltyp dtyp)))\<rparr>"

definition WriteIndex_CommitData :: "write_index \<Rightarrow> write_index" where
  "WriteIndex_CommitData w = w\<lparr>wi_committed := wi_written w\<rparr>"

definition Index_AddRecord :: "indexer \<Rightarrow> keytype \<Rightarrow> ItemDataT \<Rightarrow> write_index \<Rightarrow> write_index" where
  "Index_AddRecord X kt r = WriteIndex_Update (item_lang r) (GetIndexType kt) (idterm r) (CreateDoc X kt r)"

definition Index_DelRecord :: "keytype \<Rightarrow> ItemDataT \<Rightarrow> write_index \<Rightarrow> write_index" where
  "Index_DelRecord kt r = WriteIndex_Delete (item_lang r) (GetIndexType kt) (idterm r)"

text \<open>The calls of a commit, as they are recorded in \<open>xaplog\<close>, carried out\<close>

fun index_call :: "indexer \<Rightarrow> xap_event \<Rightarrow> write_index \<Rightarrow> write_index" where
  "index_call X (XapAdd kt r) w = Index_AddRecord X kt r w"
| "index_call X (XapDel kt r) w = Index_DelRecord kt r w"
| "index_call X XapCommit w = WriteIndex_CommitData w"

definition write_index_new :: write_index where
  "write_index_new = \<lparr>wi_written = \<lambda>_. [], wi_committed = \<lambda>_. []\<rparr>"

definition index_of :: "indexer \<Rightarrow> xap_event list \<Rightarrow> write_index" where
  "index_of X evs = fold (index_call X) evs write_index_new"

end
