(* ===== verification/IndexLaws.thy ===== *)
theory IndexLaws
  imports CacheLaws ReplicationLaws SearchIndex
begin

text \<open>
  What a commit passes to the search index: one call for every item it writes, in the order of the batch, and
  none for records of the other tables.
\<close>

section \<open>The call for one item of a transaction\<close>

definition item_event :: "('b, 'd) env \<Rightarrow> 'b TransItemT \<Rightarrow> xap_event list" where
  "item_event E it =
     (case CheckPrimaryKey (ti_key it) of Inl _ \<Rightarrow> [] | Inr ok \<Rightarrow> if \<not> ok then [] else
       (case DecodePrimaryKey (ti_key it) of Inl _ \<Rightarrow> [] | Inr kp \<Rightarrow>
          if fst kp = K_LOCALDATA \<or> fst kp = K_WIKIDATA then
            (case par (c_item E) (ti_value it) of (ok, r) \<Rightarrow> if \<not> ok then []
              else [if ti_to_del it then XapDel (fst kp) r else XapAdd (fst kp) r])
          else []))"

lemma item_types:
  "K_LOCALDATA \<notin> {K_TAGDATA, K_CATEGORY, K_EXTERDATA, K_USERDATA}" "K_WIKIDATA \<notin> {K_TAGDATA, K_CATEGORY, K_EXTERDATA, K_USERDATA}"
  by (simp_all add: keytype_defs)

lemma cache_item_event:
  assumes "store_key (ti_key it)"
  shows "xaplog (snd (cache_item E it s)) = xaplog s @ (if no_xapian s then [] else item_event E it)"
proof -
  from CheckPrimaryKey_store [OF assms] obtain ok where c: "CheckPrimaryKey (ti_key it) = Inr ok"
    "ok \<longrightarrow> (\<exists>p. DecodePrimaryKey (ti_key it) = Inr p)" by blast
  show ?thesis
  proof (cases ok)
    case False
    then show ?thesis by (simp add: cache_item_def item_event_def c(1) bindA_liftR)
  next
    case True
    with c obtain kt i where d: "DecodePrimaryKey (ti_key it) = Inr (kt, i)" by auto
    show ?thesis
      using True item_types by (auto simp: cache_item_def item_event_def c(1) d bindA_liftR DelCache_def split: prod.split)
  qed
qed

lemma cache_item_no_xapian: "no_xapian (snd (cache_item E it s)) = no_xapian s"
  using keepsD [OF cache_item_core [of "core s" E it] refl] by (rule coreD(12))

definition item_events :: "('b, 'd) env \<Rightarrow> 'b TransItemT list \<Rightarrow> xap_event list" where
  "item_events E its = concat (map (item_event E) its)"

lemma item_events_simps [simp]:
  "item_events E [] = []" "item_events E (it # its) = item_event E it @ item_events E its"
  "item_events E (its @ its') = item_events E its @ item_events E its'"
  by (simp_all add: item_events_def)

lemma cache_items_events:
  assumes "\<forall>it \<in> set its. store_key (ti_key it)"
  shows "xaplog (snd (foldA (\<lambda>it _. cache_item E it) its () s)) = xaplog s @ (if no_xapian s then [] else item_events E its) \<and>
    no_xapian (snd (foldA (\<lambda>it _. cache_item E it) its () s)) = no_xapian s"
  using assms
proof (induction its arbitrary: s)
  case (Cons it its)
  then have "cache_item E it s = (Inr (), snd (cache_item E it s))" using cache_item_ok by (metis list.set_intros(1) prod.collapse)
  with Cons show ?case by (simp add: bindA_step cache_item_event cache_item_no_xapian)
qed simp

text \<open>The calls without the commits, which change no record of the index\<close>

abbreviation calls :: "xap_event list \<Rightarrow> xap_event list" where
  "calls \<equiv> filter (\<lambda>e. e \<noteq> XapCommit)"

lemma indexed_calls: "indexed kt (calls evs) = indexed kt evs"
proof -
  have "fold (index_add kt) (calls evs) m = fold (index_add kt) evs m" for m
    by (induction evs arbitrary: m) auto
  then show ?thesis by (simp add: indexed_def)
qed

lemma item_event_cases: "item_event E it = [] \<or> (\<exists>kt r. item_event E it \<in> {[XapDel kt r], [XapAdd kt r]})"
proof (cases "CheckPrimaryKey (ti_key it)")
  case (Inr ok)
  show ?thesis
  proof (cases "DecodePrimaryKey (ti_key it)")
    case (Inr kp)
    obtain ok' r where "par (c_item E) (ti_value it) = (ok', r)" by fastforce
    with Inr \<open>CheckPrimaryKey (ti_key it) = Inr ok\<close> show ?thesis by (simp add: item_event_def)
  qed (use Inr in \<open>simp add: item_event_def\<close>)
qed (simp add: item_event_def)

lemma item_event_call: "calls (item_event E it) = item_event E it"
  using item_event_cases [of E it] by auto

lemma item_events_call: "calls (item_events E its) = item_events E its"
  by (induction its) (simp_all add: item_event_call)

lemma AddToCache_events:
  assumes "\<forall>it \<in> set (tr_item t). store_key (ti_key it)"
  shows "calls (xaplog (snd (AddToCache E t s))) = calls (xaplog s) @ (if no_xapian s then [] else item_events E (tr_item t))"
proof (cases "tr_item t = []")
  case False
  let ?m = "foldA (\<lambda>it _. cache_item E it) (tr_item t) ()"
  obtain w where w: "?m s = (Inr (), w)" using cache_items_ok [OF assms, of E s] by (metis prod.collapse)
  with cache_items_events [OF assms, of E s]
  have "xaplog w = xaplog s @ (if no_xapian s then [] else item_events E (tr_item t))" by simp
  with False show ?thesis by (simp add: AddToCache_def bindA_step [where m = ?m, OF w] item_events_call)
qed (simp add: AddToCache_def)

section \<open>The calls for a batch of records\<close>

text \<open>Only the item under the primary key of a record makes a call.\<close>

definition record_event :: "('b, 'd) env \<Rightarrow> ('r, 'b) table \<Rightarrow> 'r \<Rightarrow> xap_event list" where
  "record_event E T r = item_event E \<lparr>ti_key = EncodePrimaryKey (PrimaryKey T) (rid T r), ti_value = ser (rcodec T) r, ti_to_del = False\<rparr>"

context table_laws
begin

lemma unique_item_event:
  assumes "u \<in> set (unique_keys T)" and "ti_key it = GetKey T x u False"
  shows "item_event E it = []"
proof -
  from GetKey_unique [OF assms(1), of x False] obtain s where k: "GetKey T x u False = ZPDS_FMT_ID_KEY u @ s"
    by (auto simp: starts_with_def) (metis append_take_drop_id)
  have "CheckPrimaryKey (GetKey T x u False) = Inr False"
    unfolding k using unique_range [OF assms(1)] by (intro CheckPrimaryKey_other) (auto simp: keytype_defs byte_keytype_def)
  then show ?thesis by (simp add: item_event_def assms(2))
qed

lemma record_items_events: "item_events E (record_items E T r old) = record_event E T r"
proof -
  have "item_events E (key_items E T r old v u) = []" if "u \<in> set (unique_keys T)" for u v
    using that by (cases old) (auto simp: key_items_def Let_def unique_item_event)
  then have "item_events E (concat (map (key_items E T r old v) us)) = []" if "set us \<subseteq> set (unique_keys T)" for us v
    using that by (induction us) auto
  then show ?thesis by (simp add: record_items_def record_event_def GetKey_primary)
qed

lemma adds_events:
  assumes "records_ok T g" and "adds E T g rs t t'"
  shows "item_events E (tr_item t') = item_events E (tr_item t) @ concat (map (record_event E T) rs)"
  using assms(2)
proof (induction rule: adds.induct)
  case (adds_Cons r up t t1 rs t2)
  with AddRecord_True [OF assms(1) adds_Cons.hyps(1)] show ?case by (simp add: record_items_events)
qed simp

end

lemma record_event_none:
  assumes "PrimaryKey T \<in> {K_TAGDATA, K_CATEGORY, K_EXTERDATA, K_USERDATA}"
  shows "record_event E T r = []"
  using assms item_types
  by (auto simp: record_event_def item_event_def CheckPrimaryKey_Encode DecodePrimaryKey_Encode byte_keytype_def keytype_defs)

lemma record_event_item:
  assumes "pb_ok E"
  shows "record_event E (LocalDataTable E) r = [XapAdd K_LOCALDATA r]" "record_event E (WikiDataTable E) r = [XapAdd K_WIKIDATA r]"
  using assms
  by (auto simp: record_event_def item_event_def CheckPrimaryKey_Encode DecodePrimaryKey_Encode byte_keytype_def keytype_defs pb_ok_def)

text \<open>What the calls for the records of a table of items leave\<close>

lemma indexed_append: "indexed kt (evs @ evs') = fold (index_add kt) evs' (indexed kt evs)"
  by (simp add: indexed_def)

lemma fold_index_adds:
  "fold (index_add kt) (map (XapAdd k) rs) m = (if k = kt then fold (\<lambda>r m. m(item_id r \<mapsto> r)) rs m else m)"
  by (induction rs arbitrary: m) simp_all

section \<open>What is in the databases\<close>

definition index_kinds :: "keytype set" where
  "index_kinds = {K_LOCALDATA, K_WIKIDATA}"

text \<open>The document under an id term in the database of a language and a kind of items\<close>

definition in_index :: "indexer \<Rightarrow> xap_event list \<Rightarrow> keytype \<Rightarrow> int \<Rightarrow> string \<Rightarrow> xdoc option" where
  "in_index X evs kt l = map_of (wi_written (index_of X evs) (db_number l (GetIndexType kt)))"

lemma db_number_kinds:
  "kt \<in> index_kinds \<Longrightarrow> kt' \<in> index_kinds \<Longrightarrow> db_number l (GetIndexType kt) = db_number l' (GetIndexType kt') \<longleftrightarrow> l = l' \<and> kt = kt'"
proof -
  assume k: "kt \<in> index_kinds" "kt' \<in> index_kinds"
  have "K_LOCALDATA \<noteq> K_WIKIDATA" by (simp add: keytype_defs)
  with k have t: "GetIndexType kt = GetIndexType kt' \<longleftrightarrow> kt = kt'" "0 \<le> GetIndexType kt" "GetIndexType kt \<le> 1" "0 \<le> GetIndexType kt'" "GetIndexType kt' \<le> 1"
    by (auto simp: index_kinds_def GetIndexType_def I_LOCALDATA_def I_WIKIDATA_def)
  have m: "(l * 1000 + a) mod 1000 = a" "(l * 1000 + a) div 1000 = l" if "0 \<le> a" "a \<le> 1" for l a :: int
    using that by (simp_all add: mod_pos_pos_trivial div_pos_pos_trivial)
  have "l * 1000 + a = l' * 1000 + b \<longleftrightarrow> l = l' \<and> a = b" if "0 \<le> a" "a \<le> 1" "0 \<le> b" "b \<le> 1" for a b :: int
    using m [OF that(1,2), of l] m [OF that(3,4), of l'] by metis
  from this [OF t(2-5)] t(1) show ?thesis by (simp add: db_number_def)
qed

lemma index_of_snoc: "index_of X (evs @ [e]) = index_call X e (index_of X evs)"
  by (simp add: index_of_def)

lemma in_index_snoc:
  assumes "kt \<in> index_kinds"
  shows "in_index X (evs @ [XapCommit]) kt l = in_index X evs kt l"
    and "k \<in> index_kinds \<Longrightarrow> in_index X (evs @ [XapAdd k r]) kt l =
      (if k = kt \<and> l = item_lang r then (in_index X evs kt l)(idterm r \<mapsto> CreateDoc X kt r) else in_index X evs kt l)"
  using assms
  by (auto simp: in_index_def index_of_snoc WriteIndex_CommitData_def Index_AddRecord_def WriteIndex_Update_def db_number_kinds map_of_AddOne)

lemma indexed_snoc: "indexed kt (evs @ [e]) = index_add kt e (indexed kt evs)"
  by (simp add: indexed_def)

definition dec_value :: "string \<Rightarrow> nat" where
  "dec_value s = foldl (\<lambda>a c. 10 * a + (of_char c - 48)) 0 s"

lemma to_dec_value: "dec_value (to_dec n) = n \<and> list_all isdigit (to_dec n) \<and> to_dec n \<noteq> []"
proof (induction n rule: to_dec.induct)
  case (1 n)
  have d: "isdigit (to_dec_digit d) \<and> of_char (to_dec_digit d) = 48 + d" if "d < 10" for d :: nat
    using that by (simp add: to_dec_digit_def isdigit_def less_eq_char_def)
  show ?case
  proof (cases "n < 10")
    case True
    with d [of n] show ?thesis by (subst (1 2 3) to_dec.simps) (simp add: dec_value_def)
  next
    case False
    with 1 have "dec_value (to_dec (n div 10)) = n div 10 \<and> list_all isdigit (to_dec (n div 10)) \<and> to_dec (n div 10) \<noteq> []" by simp
    with False d [of "n mod 10"] show ?thesis by (subst (1 2 3) to_dec.simps) (simp add: dec_value_def)
  qed
qed

lemma to_dec_inject: "to_dec n = to_dec m \<longleftrightarrow> n = m"
  by (metis to_dec_value)

lemma idterm_eq: "idterm r = idterm r' \<longleftrightarrow> item_id r = item_id r'"
  by (simp add: idterm_def to_dec_inject word_unat_eq_iff)

lemma indexed_id:
  assumes "\<forall>e \<in> set evs. adds_item e" and "indexed kt evs i = Some r"
  shows "item_id r = i"
  using assms
proof (induction evs arbitrary: i r rule: rev_induct)
  case (snoc e evs)
  then show ?case by (cases e) (auto simp: indexed_snoc split: if_splits)
qed (simp add: indexed_def)

text \<open>After any calls that only add items, the last record of an item is in the index, and what is in the index is
  the last record of an item, or one of it in another language.\<close>

lemma in_index_indexed:
  assumes "\<forall>e \<in> set evs. adds_item e" and "kt \<in> index_kinds"
  shows "indexed kt evs i = Some r \<Longrightarrow> in_index X evs kt (item_lang r) (idterm r) = Some (CreateDoc X kt r)"
    and "in_index X evs kt l t = Some d \<Longrightarrow>
      \<exists>i r. indexed kt evs i = Some r \<and> t = idterm r \<and> (item_lang r = l \<longrightarrow> d = CreateDoc X kt r)"
  using assms(1)
proof (induction evs arbitrary: i r l t d rule: rev_induct)
  case Nil
  {
    case 1
    then show ?case by (simp add: indexed_def)
  next
    case 2
    then show ?case by (simp add: in_index_def index_of_def write_index_new_def)
  }
next
  case (snoc e evs)
  have ad: "\<forall>e \<in> set evs. adds_item e" if "\<forall>e \<in> set (evs @ [e]). adds_item e" using that by simp
  {
    case 1
    show ?case
    proof (cases e)
      case (XapAdd k q)
      with 1(2) have k: "k \<in> index_kinds" by (simp add: index_kinds_def)
      show ?thesis
      proof (cases "k = kt \<and> i = item_id q")
        case True
        with 1(1) XapAdd have "r = q" by (simp add: indexed_snoc)
        with True in_index_snoc(2) [OF assms(2) k, where l = "item_lang q"] show ?thesis by (simp add: XapAdd)
      next
        case False
        with 1(1) XapAdd have i: "indexed kt evs i = Some r" by (auto simp: indexed_snoc split: if_splits)
        with False indexed_id [OF ad [OF 1(2)] i] have "k = kt \<longrightarrow> idterm r \<noteq> idterm q" by (auto simp: idterm_eq)
        with snoc.IH(1) [OF i ad [OF 1(2)]] show ?thesis by (auto simp: XapAdd in_index_snoc(2) [OF assms(2) k])
      qed
    next
      case XapCommit
      with snoc.IH(1) [OF _ ad [OF 1(2)]] 1(1) show ?thesis by (simp add: indexed_snoc in_index_snoc(1) [OF assms(2)])
    qed (use 1(2) in simp)
  next
    case 2
    show ?case
    proof (cases e)
      case (XapAdd k q)
      with 2(2) have k: "k \<in> index_kinds" by (simp add: index_kinds_def)
      show ?thesis
      proof (cases "k = kt \<and> t = idterm q")
        case True
        with 2(1) have "indexed kt (evs @ [e]) (item_id q) = Some q" by (simp add: XapAdd indexed_snoc)
        moreover have "item_lang q = l \<longrightarrow> d = CreateDoc X kt q"
          using True 2(1) in_index_snoc(2) [OF assms(2) k, of X evs q l] by (auto simp: XapAdd)
        ultimately show ?thesis using True by blast
      next
        case False
        with 2(1) XapAdd have "in_index X evs kt l t = Some d" by (auto simp: in_index_snoc(2) [OF assms(2) k] split: if_splits)
        from snoc.IH(2) [OF this ad [OF 2(2)]] obtain i r where
          ir: "indexed kt evs i = Some r" "t = idterm r" "item_lang r = l \<longrightarrow> d = CreateDoc X kt r" by blast
        from False ir indexed_id [OF ad [OF 2(2)] ir(1)] have "indexed kt (evs @ [e]) i = Some r"
          by (auto simp: XapAdd indexed_snoc idterm_eq)
        with ir show ?thesis by blast
      qed
    next
      case XapCommit
      with snoc.IH(2) [OF _ ad [OF 2(2)]] 2(1) show ?thesis by (simp add: indexed_snoc in_index_snoc(1) [OF assms(2)])
    qed (use 2(2) in simp)
  }
qed

end
