(* ===== verification/CommitLaws.thy ===== *)
theory CommitLaws
  imports IndexLaws
begin

text \<open>
  What holds of a master between requests (\<open>sys_inv\<close>): the log is complete and the data is its replay, the six
  tables are consistent, no id is above the counter, and the caches and the search index agree with the tables.
  Proved: the commit of a batch of records keeps it.
\<close>

section \<open>The invariant\<close>

definition ids_below :: "('r, 'b) table \<Rightarrow> 'b lookup \<Rightarrow> 64 word \<Rightarrow> bool" where
  "ids_below T g m \<longleftrightarrow> (\<forall>i r. abs_table T g i = Some r \<longrightarrow> i \<le> m)"

definition tables_below :: "('b, 'd) env \<Rightarrow> 'b lookup \<Rightarrow> 64 word \<Rightarrow> bool" where
  "tables_below E g m \<longleftrightarrow> ids_below (TagDataTable E) g m \<and> ids_below (CategoryTable E) g m \<and> ids_below (ExterDataTable E) g m \<and>
     ids_below (UserDataTable E) g m \<and> ids_below (LocalDataTable E) g m \<and> ids_below (WikiDataTable E) g m"

text \<open>The zero record of every type, which \<open>Initialize\<close> writes and looks for.\<close>

definition fenced :: "'b lookup \<Rightarrow> bool" where
  "fenced g \<longleftrightarrow> (\<forall>kt. K_NONODE \<le> kt \<and> kt \<le> K_MAXNODE \<longrightarrow> g (EncodePrimaryKey kt 0) \<noteq> None)"

definition sys_inv :: "('b, 'd) env \<Rightarrow> 'b lookup \<Rightarrow> ('b, 'd) shared \<Rightarrow> bool" where
  "sys_inv E g0 s \<longleftrightarrow> replica E g0 (kv_get E (db s)) (logcounter s) \<and> tables_wf E (kv_get E (db s)) \<and>
     tables_below E (kv_get E (db s)) (maincounter s) \<and> caches_ok E s \<and> fenced (kv_get E (db s))"

text \<open>What is assumed of the libraries, and of the host transactions are pushed to: it answers with the
  transaction it was sent.\<close>

definition echoes :: "('b, 'd) env \<Rightarrow> bool" where
  "echoes E \<longleftrightarrow> (\<forall>k q r t ep. http_post E k q = Some r \<longrightarrow> hq_service q = R_BUFFTRANS \<longrightarrow> hq_body q = ser (c_trans E) t \<longrightarrow>
     snd (handle_response (c_trans E) ep False r t) = t)"

definition env_ok :: "('b, 'd) env \<Rightarrow> bool" where
  "env_ok E \<longleftrightarrow> kv_ok E \<and> pb_ok E \<and> writes_succeed E \<and> echoes E"

lemma ids_below_mono: "ids_below T g m \<Longrightarrow> m \<le> n \<Longrightarrow> ids_below T g n"
  by (auto simp: ids_below_def)

lemma tables_below_mono: "tables_below E g m \<Longrightarrow> m \<le> n \<Longrightarrow> tables_below E g n"
  by (auto simp: tables_below_def intro: ids_below_mono)

section \<open>The other host\<close>

text \<open>A host that runs this program answers so: either it refuses, or it sends the transaction back.\<close>

lemma to_dec_6: "to_dec 6 = ''6''"
proof -
  have "(char_of (54 :: nat) :: char) = CHR ''6''" by code_simp
  then show ?thesis by (simp add: to_dec.simps [of 6] to_dec_digit_def)
qed

lemma stoi10_bufftrans: "stoi10 (to_dec (nat R_BUFFTRANS)) = Inr R_BUFFTRANS"
  by (simp add: R_BUFFTRANS_def to_dec_6 stoi10_def dval_def isdigit_def isspace_def)

lemma bufftrans_reply:
  assumes "pb_ok E" and "hq_service q = R_BUFFTRANS" and "hq_body q = ser (c_trans E) t"
  shows "fst (RemoteEndpoint E rc (request_of q) M) \<in> {ServiceOK (ser (c_trans E) t), ServiceErr M_UNKNOWN ''Unknown Error''}"
  using assms stoi10_bufftrans
  by (auto simp: RemoteEndpoint_def remote_action_def bindA_throwIf bindA_liftR ProtoRequest_def request_of_def
      ServiceName_def starts_with_def remote_cmd_defs remote_bufftrans_def parse_body_def bindA_updA)

lemma peers_echo:
  assumes "pb_ok E" and "\<And>k q. hq_service q = R_BUFFTRANS \<Longrightarrow> http_post E k q = None \<or>
    (\<exists>M. http_post E k q = Some (http_of (blank E) (fst (RemoteEndpoint E rc (request_of q) M))))"
  shows "echoes E"
  unfolding echoes_def
proof (intro allI impI)
  fix k q r t ep
  assume r: "http_post E k q = Some r" and q: "hq_service q = R_BUFFTRANS" "hq_body q = ser (c_trans E) t"
  with assms(2) [of q k] obtain M where "r = http_of (blank E) (fst (RemoteEndpoint E rc (request_of q) M))" by auto
  with bufftrans_reply [OF assms(1) q, of rc M] assms(1) show "snd (handle_response (c_trans E) ep False r t) = t"
    by (auto simp: http_of_def handle_response_def)
qed

lemma push_lastslave_echo:
  assumes "echoes E"
  shows "\<exists>u. push_lastslave E txn m s = (Inr txn, u)"
proof (cases "m \<and> is_master s \<and> lastslave s \<noteq> []")
  case True
  have "snd (fst (SendFunction E (c_trans E) (lastslave s) ep R_BUFFTRANS txn False s)) = txn" for ep
    using assms by (auto simp: SendFunction_def echoes_def Let_def split: sum.split option.split)
  then have "snd (fst (SendToRemote E (c_trans E) (lastslave s) R_BUFFTRANS txn True s)) = txn"
    by (simp add: SendToRemote_def split: prod.split sum.split) (metis fst_conv snd_conv)
  moreover obtain b t where "fst (SendToRemote E (c_trans E) (lastslave s) R_BUFFTRANS txn True s) = (Inr b, t)"
    using SendToRemote_nothrow by metis
  ultimately show ?thesis using True by (auto simp: push_lastslave_def Let_def split: prod.split)
next
  case False
  then show ?thesis by (auto simp: push_lastslave_def Let_def)
qed

section \<open>What a commit drops from the cache\<close>

text \<open>The contract of a table whose records are cached: the item written for a record drops its name.\<close>

locale cached_table = table_laws T for T :: "('r, 'b) table" +
  fixes E :: "('b, 'd) env" and pack :: "'r \<Rightarrow> 'r"
  assumes drops: "pb_ok E \<Longrightarrow> ti_key it = EncodePrimaryKey (PrimaryKey T) i \<Longrightarrow> ti_value it = ser (rcodec T) r \<Longrightarrow>
    u \<in> set (unique_keys T) \<Longrightarrow> dbcache (snd (cache_item E it s)) (GetKey T r u False) = None"

lemma primary_item:
  assumes "kt \<in> {K_TAGDATA, K_CATEGORY, K_EXTERDATA, K_USERDATA}"
  shows "CheckPrimaryKey (EncodePrimaryKey kt i) = Inr True" "DecodePrimaryKey (EncodePrimaryKey kt i) = Inr (kt, i)"
  using assms by (auto simp: CheckPrimaryKey_Encode DecodePrimaryKey_Encode keytype_defs byte_keytype_def)

lemma cached_types:
  "K_CATEGORY \<noteq> K_TAGDATA" "K_EXTERDATA \<noteq> K_TAGDATA" "K_EXTERDATA \<noteq> K_CATEGORY" "K_USERDATA \<noteq> K_TAGDATA"
  "K_USERDATA \<noteq> K_CATEGORY" "K_USERDATA \<noteq> K_EXTERDATA"
  by (simp_all add: keytype_defs)

interpretation tag_cached: cached_table "TagDataTable E" E TagData_Pack for E
  by unfold_locales (auto simp: cache_item_def primary_item cached_types bindA_liftR DelCache_def DelAssoc_def)

interpretation category_cached: cached_table "CategoryTable E" E Category_Pack for E
  by unfold_locales (auto simp: cache_item_def primary_item cached_types bindA_liftR DelCache_def DelAssoc_def)

interpretation exter_cached: cached_table "ExterDataTable E" E Exter_Pack for E
  by unfold_locales (auto simp: cache_item_def primary_item cached_types bindA_liftR DelCache_def DelAssoc_def)

interpretation user_cached: cached_table "UserDataTable E" E User_Pack for E
  by unfold_locales (auto simp: cache_item_def primary_item cached_types bindA_liftR DelCache_def DelAssoc_def)

text \<open>Entries only go.\<close>

definition shrunk :: "(string \<Rightarrow> 'b option) \<Rightarrow> ('b, 'd) shared \<Rightarrow> bool" where
  "shrunk c s \<longleftrightarrow> (\<forall>k v. dbcache s k = Some v \<longrightarrow> c k = Some v)"

lemma cache_item_shrinks: "keeps (shrunk c) (cache_item E it)"
proof -
  have d: "keeps (shrunk c) (DelCache k)" for k
    by (auto simp: keeps_def DelCache_def DelAssoc_def shrunk_def)
  show ?thesis
    unfolding cache_item_def
    by (intro keeps_intros d) (auto simp: keeps_def shrunk_def split: prod.split)
qed

lemma AddToCache_shrinks: "shrunk (dbcache s) (snd (AddToCache E t s))"
proof -
  have "keeps (shrunk (dbcache s)) (AddToCache E t)"
    unfolding AddToCache_def by (intro keeps_intros cache_item_shrinks) (simp add: keeps_def shrunk_def)
  from keepsD [OF this, of s] show ?thesis by (simp add: shrunk_def)
qed

lemma foldA_shrinks: "shrunk (dbcache s) (snd (foldA (\<lambda>it _. cache_item E it) its a s))"
proof -
  have "keeps (shrunk (dbcache s)) (foldA (\<lambda>it _. cache_item E it) its a)" by (intro keeps_intros cache_item_shrinks)
  from keepsD [OF this, of s] show ?thesis by (simp add: shrunk_def)
qed

context cached_table
begin

lemma foldA_drops:
  assumes "pb_ok E" and "\<forall>it \<in> set its. store_key (ti_key it)" and "it \<in> set its" and "u \<in> set (unique_keys T)"
    and "ti_key it = EncodePrimaryKey (PrimaryKey T) i" and "ti_value it = ser (rcodec T) r"
  shows "dbcache (snd (foldA (\<lambda>it _. cache_item E it) its () s)) (GetKey T r u False) = None"
  using assms(2,3)
proof (induction its arbitrary: s)
  case (Cons x its)
  define s1 where "s1 = snd (cache_item E x s)"
  have x: "cache_item E x s = (Inr (), s1)" using cache_item_ok Cons.prems(1) by (metis list.set_intros(1) prod.collapse s1_def)
  show ?case
  proof (cases "it \<in> set its")
    case True
    with Cons x show ?thesis by (simp add: bindA_step)
  next
    case False
    with Cons.prems have "x = it" by simp
    then have "dbcache s1 (GetKey T r u False) = None" using drops [OF assms(1,5,6,4)] by (simp add: s1_def)
    then have "dbcache (snd (foldA (\<lambda>it _. cache_item E it) its () s1)) (GetKey T r u False) = None"
      using foldA_shrinks [of s1 E its "()"] unfolding shrunk_def by (metis option.exhaust)
    then show ?thesis using x by (simp add: bindA_step)
  qed
qed simp

lemma AddToCache_drops:
  assumes "pb_ok E" and "\<forall>it \<in> set (tr_item t). store_key (ti_key it)" and "it \<in> set (tr_item t)" and "u \<in> set (unique_keys T)"
    and "ti_key it = EncodePrimaryKey (PrimaryKey T) i" and "ti_value it = ser (rcodec T) r"
  shows "dbcache (snd (AddToCache E t s)) (GetKey T r u False) = None"
proof -
  let ?m = "foldA (\<lambda>it _. cache_item E it) (tr_item t) ()"
  obtain w where w: "?m s = (Inr (), w)" using cache_items_ok [OF assms(2), of E s] by (metis prod.collapse)
  then have "dbcache w (GetKey T r u False) = None" using foldA_drops [OF assms, of s] by simp
  with w assms(3) show ?thesis by (auto simp: AddToCache_def bindA_step [where m = ?m, OF w])
qed

end

section \<open>A batch of records\<close>

text \<open>The records one request adds to a table with the counter at \<open>m\<close>: different ids, none above the counter,
  different names, and a record that is replaced keeps its name.\<close>

definition batch :: "('b, 'd) env \<Rightarrow> ('r, 'b) table \<Rightarrow> 'b lookup \<Rightarrow> 64 word \<Rightarrow> 'r list \<Rightarrow> 'b TransactionT \<Rightarrow> bool" where
  "batch E T g m rs t \<longleftrightarrow> adds E T g rs TransactionT_new t \<and> distinct (map (rid T) rs) \<and>
     (\<forall>u \<in> set (unique_keys T). distinct (map (\<lambda>r. GetKey T r u False) rs)) \<and> (\<forall>r \<in> set rs. rid T r \<le> m) \<and>
     (\<forall>r \<in> set rs. \<forall>x. abs_table T g (rid T r) = Some x \<longrightarrow> (\<forall>u \<in> set (unique_keys T). GetKey T x u False = GetKey T r u False))"

lemma fold_upd_other: "i \<notin> rid T ` set rs \<Longrightarrow> fold (upd_abs T) rs a i = a i"
  by (induction rs arbitrary: a) (auto simp: upd_abs_def)

lemma fold_upd_dom: "fold (upd_abs T) rs a i = Some x \<Longrightarrow> a i = Some x \<or> i \<in> rid T ` set rs"
  using fold_upd_other by metis

definition table_frame :: "('r, 'b) table \<Rightarrow> 'b lookup \<Rightarrow> 'b lookup \<Rightarrow> bool" where
  "table_frame T g g' \<longleftrightarrow> (\<forall>k. data_key k \<longrightarrow> \<not> table_key T k \<longrightarrow> g' k = g k)"

context table_laws
begin

lemma adds_primary:
  assumes "records_ok T g" and "adds E T g rs t t'"
  shows "(\<forall>it \<in> set (tr_item t). it \<in> set (tr_item t')) \<and> (\<forall>r \<in> set rs. rid T r \<noteq> 0 \<and>
    \<lparr>ti_key = EncodePrimaryKey (PrimaryKey T) (rid T r), ti_value = ser (rcodec T) r, ti_to_del = False\<rparr> \<in> set (tr_item t'))"
  using assms(2)
proof (induction rule: adds.induct)
  case (adds_Cons r up t t1 rs t2)
  with AddRecord_True [OF assms(1) adds_Cons.hyps(1)] show ?case by (auto simp: record_items_def GetKey_primary)
qed simp

text \<open>The table after the batch is committed.\<close>

lemma batch_view:
  assumes "codecs_ok E T" and "wf_table E T g" and "ids_below T g m" and "batch E T g m rs t" and "tr_item t' = tr_item t"
  shows "wf_table E T (commit_view E t' g) \<and> ids_below T (commit_view E t' g) m \<and>
    abs_table T (commit_view E t' g) = fold (upd_abs T) rs (abs_table T g) \<and> table_frame T g (commit_view E t' g)"
proof -
  have ad: "adds E T g rs TransactionT_new t" "distinct (map (rid T) rs)"
    "\<And>u. u \<in> set (unique_keys T) \<Longrightarrow> distinct (map (\<lambda>r. GetKey T r u False) rs)"
    using assms(4) unfolding batch_def by blast+
  from adds_refines [OF assms(1,2) ad] obtain its where
    it: "t = TransactionT_new\<lparr>tr_item := tr_item TransactionT_new @ its\<rparr>" and its: "wf_table E T (apply_items its g)"
      "abs_table T (apply_items its g) = fold (upd_abs T) rs (abs_table T g)" "\<And>k. \<not> table_key T k \<Longrightarrow> apply_items its g k = g k"
    by blast
  have it: "tr_item t = its" by (simp add: it TransactionT_new_def)
  have v: "commit_view E t' g k = apply_items its g k" if "data_key k" for k
    using commit_view_data [OF that, of E t' g] assms(5) it by simp
  have k: "commit_view E t' g k = apply_items its g k" if "table_key T k" for k using v [OF table_key_data [OF that]] .
  have w: "wf_table E T (commit_view E t' g)" "abs_table T (commit_view E t' g) = fold (upd_abs T) rs (abs_table T g)"
    using wf_table_cong(1) [where g = "commit_view E t' g" and h = "apply_items its g" and E = E, OF k]
      wf_table_cong(2) [where g = "commit_view E t' g" and h = "apply_items its g", OF k] its(1,2) by simp_all
  have "ids_below T (commit_view E t' g) m"
    using assms(3,4) unfolding ids_below_def w(2) batch_def by (auto dest!: fold_upd_dom)
  with w its(3) v show ?thesis by (simp add: table_frame_def)
qed

text \<open>A change of another table.\<close>

lemma table_untouched:
  assumes "table_frame U g g'" and "disjoint_tables T U"
  shows "wf_table E T g' = wf_table E T g" "ids_below T g' m = ids_below T g m"
    "table_key T k \<Longrightarrow> g' k = g k"
proof -
  have k: "g' k = g k" if "table_key T k" for k
    using assms table_key_data [OF that] that by (auto simp: table_frame_def disjoint_tables_def)
  from wf_table_cong [of g' g, OF k] show "wf_table E T g' = wf_table E T g" "ids_below T g' m = ids_below T g m"
    by (simp_all add: ids_below_def)
  show "table_key T k \<Longrightarrow> g' k = g k" by (rule k)
qed

end

context cached_table
begin

lemma batch_cache:
  assumes "cache_agrees E T pack s" and "abs_table T (kv_get E (db s')) = fold (upd_abs T) rs (abs_table T (kv_get E (db s)))"
    and "batch E T (kv_get E (db s)) m rs t" and "shrunk (dbcache s) s'"
    and "\<And>r u. r \<in> set rs \<Longrightarrow> u \<in> set (unique_keys T) \<Longrightarrow> dbcache s' (GetKey T r u False) = None"
  shows "cache_agrees E T pack s'"
  unfolding cache_agrees_def
proof (intro ballI allI impI)
  fix u x v assume u: "u \<in> set (unique_keys T)" and v: "dbcache s' (GetKey T x u False) = Some v"
  with assms(1,4) obtain i r where r: "abs_table T (kv_get E (db s)) i = Some r" "GetKey T r u False = GetKey T x u False"
    "v = ser (rcodec T) (pack r)" unfolding cache_agrees_def shrunk_def by blast
  have "i \<notin> rid T ` set rs"
  proof
    assume "i \<in> rid T ` set rs"
    then obtain q where q: "q \<in> set rs" "rid T q = i" by auto
    with assms(3) r(1) u have "GetKey T r u False = GetKey T q u False" unfolding batch_def by blast
    with assms(5) [OF q(1) u] r(2) v show False by simp
  qed
  then have "abs_table T (kv_get E (db s')) i = Some r" using r(1) assms(2) by (simp add: fold_upd_other)
  with r show "\<exists>i r. abs_table T (kv_get E (db s')) i = Some r \<and> GetKey T r u False = GetKey T x u False \<and> v = ser (rcodec T) (pack r)"
    by blast
qed

end

section \<open>The other tables\<close>

lemma tag_update:
  assumes "table_frame (TagDataTable E) g g'" and "wf_table E (TagDataTable E) g'" and "ids_below (TagDataTable E) g' m"
    and "tables_wf E g" and "tables_below E g m"
  shows "tables_wf E g' \<and> tables_below E g' m"
  using assms(2-5) by (simp add: tables_wf_def tables_below_def
    category_tbl.table_untouched(1,2) [OF assms(1) tables_disjoint(6) [of E]]
    exterdata_tbl.table_untouched(1,2) [OF assms(1) tables_disjoint(11) [of E]]
    userdata_tbl.table_untouched(1,2) [OF assms(1) tables_disjoint(16) [of E]]
    localdata_tbl.table_untouched(1,2) [OF assms(1) tables_disjoint(21) [of E]]
    wikidata_tbl.table_untouched(1,2) [OF assms(1) tables_disjoint(26) [of E]])

lemma category_update:
  assumes "table_frame (CategoryTable E) g g'" and "wf_table E (CategoryTable E) g'" and "ids_below (CategoryTable E) g' m"
    and "tables_wf E g" and "tables_below E g m"
  shows "tables_wf E g' \<and> tables_below E g' m"
  using assms(2-5) by (simp add: tables_wf_def tables_below_def
    tagdata_tbl.table_untouched(1,2) [OF assms(1) tables_disjoint(1) [of E]]
    exterdata_tbl.table_untouched(1,2) [OF assms(1) tables_disjoint(12) [of E]]
    userdata_tbl.table_untouched(1,2) [OF assms(1) tables_disjoint(17) [of E]]
    localdata_tbl.table_untouched(1,2) [OF assms(1) tables_disjoint(22) [of E]]
    wikidata_tbl.table_untouched(1,2) [OF assms(1) tables_disjoint(27) [of E]])

lemma exter_update:
  assumes "table_frame (ExterDataTable E) g g'" and "wf_table E (ExterDataTable E) g'" and "ids_below (ExterDataTable E) g' m"
    and "tables_wf E g" and "tables_below E g m"
  shows "tables_wf E g' \<and> tables_below E g' m"
  using assms(2-5) by (simp add: tables_wf_def tables_below_def
    tagdata_tbl.table_untouched(1,2) [OF assms(1) tables_disjoint(2) [of E]]
    category_tbl.table_untouched(1,2) [OF assms(1) tables_disjoint(7) [of E]]
    userdata_tbl.table_untouched(1,2) [OF assms(1) tables_disjoint(18) [of E]]
    localdata_tbl.table_untouched(1,2) [OF assms(1) tables_disjoint(23) [of E]]
    wikidata_tbl.table_untouched(1,2) [OF assms(1) tables_disjoint(28) [of E]])

lemma user_update:
  assumes "table_frame (UserDataTable E) g g'" and "wf_table E (UserDataTable E) g'" and "ids_below (UserDataTable E) g' m"
    and "tables_wf E g" and "tables_below E g m"
  shows "tables_wf E g' \<and> tables_below E g' m"
  using assms(2-5) by (simp add: tables_wf_def tables_below_def
    tagdata_tbl.table_untouched(1,2) [OF assms(1) tables_disjoint(3) [of E]]
    category_tbl.table_untouched(1,2) [OF assms(1) tables_disjoint(8) [of E]]
    exterdata_tbl.table_untouched(1,2) [OF assms(1) tables_disjoint(13) [of E]]
    localdata_tbl.table_untouched(1,2) [OF assms(1) tables_disjoint(24) [of E]]
    wikidata_tbl.table_untouched(1,2) [OF assms(1) tables_disjoint(29) [of E]])

lemma local_update:
  assumes "table_frame (LocalDataTable E) g g'" and "wf_table E (LocalDataTable E) g'" and "ids_below (LocalDataTable E) g' m"
    and "tables_wf E g" and "tables_below E g m"
  shows "tables_wf E g' \<and> tables_below E g' m"
  using assms(2-5) by (simp add: tables_wf_def tables_below_def
    tagdata_tbl.table_untouched(1,2) [OF assms(1) tables_disjoint(4) [of E]]
    category_tbl.table_untouched(1,2) [OF assms(1) tables_disjoint(9) [of E]]
    exterdata_tbl.table_untouched(1,2) [OF assms(1) tables_disjoint(14) [of E]]
    userdata_tbl.table_untouched(1,2) [OF assms(1) tables_disjoint(19) [of E]]
    wikidata_tbl.table_untouched(1,2) [OF assms(1) tables_disjoint(30) [of E]])

lemma wiki_update:
  assumes "table_frame (WikiDataTable E) g g'" and "wf_table E (WikiDataTable E) g'" and "ids_below (WikiDataTable E) g' m"
    and "tables_wf E g" and "tables_below E g m"
  shows "tables_wf E g' \<and> tables_below E g' m"
  using assms(2-5) by (simp add: tables_wf_def tables_below_def
    tagdata_tbl.table_untouched(1,2) [OF assms(1) tables_disjoint(5) [of E]]
    category_tbl.table_untouched(1,2) [OF assms(1) tables_disjoint(10) [of E]]
    exterdata_tbl.table_untouched(1,2) [OF assms(1) tables_disjoint(15) [of E]]
    userdata_tbl.table_untouched(1,2) [OF assms(1) tables_disjoint(20) [of E]]
    localdata_tbl.table_untouched(1,2) [OF assms(1) tables_disjoint(25) [of E]])

section \<open>Committing a batch\<close>

lemma commit_effects:
  assumes "env_ok E" and "replica E g0 (kv_get E (db s)) (logcounter s)" and "logcounter s + 1 \<noteq> 0"
    and "tr_item t \<noteq> []" and "data_items t"
  shows "\<exists>s'. Commit E ct t True s = (Inr (), s') \<and> replica E g0 (kv_get E (db s')) (logcounter s') \<and> frame s' = frame s \<and> logcounter s' = logcounter s + 1 \<and>
    kv_get E (db s') = commit_view E (logged ct True (logcounter s + 1) t) (kv_get E (db s)) \<and> shrunk (dbcache s) s' \<and>
    (\<exists>u. dbcache s' = dbcache (snd (AddToCache E (logged ct True (logcounter s + 1) t) u))) \<and>
    calls (xaplog s') = calls (xaplog s) @ (if no_xapian s then [] else item_events E (tr_item t))"
proof -
  have e: "kv_ok E" "pb_ok E" "writes_succeed E" "echoes E" using assms(1) by (simp_all add: env_ok_def)
  let ?l = "logged ct True (logcounter s + 1) t"
  obtain t2 u r w s3 where c: "Commit E ct t True s = (r, w\<lparr>tmpcache := tmpcache s\<rparr>)" and a: "AddToCache E t2 u = (r, w)"
    and d: "dbcache u = dbcache s" "xaplog u = xaplog s" "frame u = frame s" and p: "push_lastslave E ?l True s3 = (Inr t2, u)"
    using Commit_run [OF e(1,3) assms(4), of ct True s] by blast
  have t2: "t2 = ?l" using push_lastslave_echo [OF e(4), of ?l True s3] p by auto
  have "fst (AddToCache E ?l u) = Inr ()"
    using assms(5) by (intro AddToCache_ok) (simp add: data_items_def logged_def)
  then have r: "r = Inr ()" using a t2 by simp
  have w: "dbcache w = dbcache (snd (AddToCache E ?l u))" using a t2 by simp
  have "shrunk (dbcache s) w" using AddToCache_shrinks [of u E ?l] a t2 d by simp
  moreover have "calls (xaplog w) = calls (xaplog s) @ (if no_xapian s then [] else item_events E (tr_item t))"
    using AddToCache_events [of ?l E u] assms(5) a t2 d by (simp add: data_items_def logged_def frame_def)
  ultimately show ?thesis
    using c r w Commit_replica [OF e(1-3) assms(4,5,2,3), of ct True] Commit_state [OF e(1,3) assms(4) refl, of ct True s]
    by (intro exI [of _ "w\<lparr>tmpcache := tmpcache s\<rparr>"]) (auto simp: Let_def shrunk_def)
qed

lemma apply_items_present:
  "\<forall>it \<in> set its. ti_to_del it \<longrightarrow> ti_key it \<noteq> k \<Longrightarrow> g k \<noteq> None \<Longrightarrow> apply_items its g k \<noteq> None"
proof (induction its arbitrary: g)
  case (Cons it its)
  then have "bop_apply (item_bop it) g k \<noteq> None" by (cases "ti_to_del it") (auto simp: item_bop_def)
  with Cons show ?case by simp
qed simp

context table_laws
begin

lemma batch_items:
  assumes "records_ok T g" and "batch E T g m rs t"
  shows "data_items t" and "tr_item t = [] \<longleftrightarrow> rs = []"
proof -
  have ad: "adds E T g rs TransactionT_new t" using assms(2) by (simp add: batch_def)
  show "data_items t" by (rule adds_data_items [OF assms(1) ad]) (simp add: data_items_def TransactionT_new_def)
  show "tr_item t = [] \<longleftrightarrow> rs = []"
    using adds_primary [OF assms(1) ad] ad by (cases rs) (auto elim: adds_NilE simp: TransactionT_new_def)
qed

text \<open>A batch deletes no primary key.\<close>

lemma adds_deletes:
  assumes "records_ok T g" and "adds E T g rs t t'" and "\<forall>it \<in> set (tr_item t). ti_to_del it \<longrightarrow> unique_item it"
    and "\<And>it u. u \<in> set (unique_keys T) \<Longrightarrow> starts_with (ti_key it) (ZPDS_FMT_ID_KEY u) \<Longrightarrow> unique_item it"
  shows "\<forall>it \<in> set (tr_item t'). ti_to_del it \<longrightarrow> unique_item it"
  using assms(2,3)
proof (induction rule: adds.induct)
  case (adds_Cons r up t t1 rs t2)
  have t1: "t1 = t\<lparr>tr_item := tr_item t @ record_items E T r (abs_table T g (rid T r))\<rparr>"
    using AddRecord_True [OF assms(1) adds_Cons.hyps(1)] by blast
  have "unique_item it" if it: "it \<in> set (record_items E T r (abs_table T g (rid T r)))" "ti_to_del it" for it
  proof -
    from it obtain u old where "u \<in> set (unique_keys T)" "ti_key it = GetKey T old u False"
      by (auto simp: record_items_def key_items_def Let_def split: option.splits if_splits)
    then show ?thesis by (intro assms(4)) (auto simp: GetKey_unique)
  qed
  with adds_Cons.prems t1 have "\<forall>it \<in> set (tr_item t1). ti_to_del it \<longrightarrow> unique_item it" by auto
  with adds_Cons.IH show ?case by blast
qed simp

lemma batch_fenced:
  assumes "records_ok T g" and "batch E T g m rs t" and "tr_item t' = tr_item t" and "fenced g"
  shows "fenced (commit_view E t' g)"
  unfolding fenced_def
proof (intro allI impI)
  fix kt assume kt: "K_NONODE \<le> kt \<and> kt \<le> K_MAXNODE"
  let ?k = "EncodePrimaryKey kt 0" and ?h = "g(log_key (tr_id t') \<mapsto> ser (c_trans E) t', ts_key t' \<mapsto> of_str E (to_dec (unat (tr_id t'))))"
  have ad: "adds E T g rs TransactionT_new t" using assms(2) by (simp add: batch_def)
  have "\<forall>it \<in> set (tr_item t). ti_to_del it \<longrightarrow> ti_key it \<noteq> ?k"
  proof (rule adds_deletes [OF assms(1) ad])
    fix it u assume u: "u \<in> set (unique_keys T)" "starts_with (ti_key it) (ZPDS_FMT_ID_KEY u)"
    have "\<not> starts_with ?k (ZPDS_FMT_ID_KEY u)"
      using unique_range [OF u(1)] kt by (auto simp: EncodePrimaryKey_def id_key.starts_with_enc byte_keytype_def keytype_defs)
    with u show "ti_key it \<noteq> ?k" by auto
  qed (simp add: TransactionT_new_def)
  moreover have "?h ?k \<noteq> None" using assms(4) kt by (simp add: fenced_def)
  ultimately show "commit_view E t' g ?k \<noteq> None" unfolding commit_view_def assms(3) by (rule apply_items_present)
qed

end

text \<open>The outcome of a commit as far as it concerns one table.\<close>

definition committed :: "('b, 'd) env \<Rightarrow> 'b lookup \<Rightarrow> ('r, 'b) table \<Rightarrow> 'r list \<Rightarrow> ('b, 'd) shared \<Rightarrow> ('b, 'd) shared \<Rightarrow> bool" where
  "committed E g0 T rs s s' \<longleftrightarrow> replica E g0 (kv_get E (db s')) (logcounter s') \<and> frame s' = frame s \<and>
     logcounter s' = (if rs = [] then logcounter s else logcounter s + 1) \<and>
     wf_table E T (kv_get E (db s')) \<and> ids_below T (kv_get E (db s')) (maincounter s') \<and>
     abs_table T (kv_get E (db s')) = fold (upd_abs T) rs (abs_table T (kv_get E (db s))) \<and>
     table_frame T (kv_get E (db s)) (kv_get E (db s')) \<and> shrunk (dbcache s) s' \<and>
     (fenced (kv_get E (db s)) \<longrightarrow> fenced (kv_get E (db s'))) \<and>
     calls (xaplog s') = calls (xaplog s) @ (if no_xapian s then [] else concat (map (record_event E T) rs))"

context table_laws
begin

lemma batch_commit:
  assumes "env_ok E" and "codecs_ok E T" and "replica E g0 (kv_get E (db s)) (logcounter s)" and "logcounter s + 1 \<noteq> 0"
    and "wf_table E T (kv_get E (db s))" and "ids_below T (kv_get E (db s)) (maincounter s)"
    and "tr_item t' = tr_item t" and "batch E T (kv_get E (db s)) (maincounter s) rs t"
  shows "\<exists>s'. Commit E ct t' True s = (Inr (), s') \<and> committed E g0 T rs s s' \<and> (rs = [] \<and> s' = s \<or>
    (\<exists>n u. dbcache s' = dbcache (snd (AddToCache E (logged ct True n t') u))))"
proof -
  let ?g = "kv_get E (db s)"
  have ro: "records_ok T ?g" using assms(5) by (simp add: wf_table_def)
  note items = batch_items [OF ro assms(8)]
  show ?thesis
  proof (cases "rs = []")
    case True
    with items(2) assms(3,5-7) show ?thesis
      by (intro exI [of _ s]) (simp add: committed_def Commit_nil table_frame_def shrunk_def)
  next
    case False
    with items assms(7) have t: "tr_item t' \<noteq> []" "data_items t'" by (simp_all add: data_items_def)
    obtain s' u where c: "Commit E ct t' True s = (Inr (), s')" and r: "replica E g0 (kv_get E (db s')) (logcounter s')"
      and f: "frame s' = frame s" "logcounter s' = logcounter s + 1" and g: "kv_get E (db s') = commit_view E (logged ct True (logcounter s + 1) t') ?g"
      and k: "shrunk (dbcache s) s'" and d: "dbcache s' = dbcache (snd (AddToCache E (logged ct True (logcounter s + 1) t') u))"
      and x: "calls (xaplog s') = calls (xaplog s) @ (if no_xapian s then [] else item_events E (tr_item t'))"
      using commit_effects [OF assms(1,3,4) t, of ct] by blast
    have l: "tr_item (logged ct True (logcounter s + 1) t') = tr_item t" using assms(7) by (simp add: logged_def)
    have m: "maincounter s' = maincounter s" using f(1) by (simp add: frame_def)
    have "item_events E (tr_item t') = concat (map (record_event E T) rs)"
      using adds_events [OF ro, of E rs TransactionT_new t] assms(7,8) by (simp add: batch_def TransactionT_new_def)
    with x have "calls (xaplog s') = calls (xaplog s) @ (if no_xapian s then [] else concat (map (record_event E T) rs))" by simp
    then show ?thesis
      using batch_view [OF assms(2,5,6,8) l, folded g] batch_fenced [OF ro assms(8) l, folded g] c r f k d m False by (intro exI [of _ s']) (auto simp: committed_def)
  qed
qed

end

context cached_table
begin

lemma commit_cache:
  assumes "pb_ok E" and "cache_agrees E T pack s" and "batch E T (kv_get E (db s)) m rs t" and "tr_item t' = tr_item t"
    and "wf_table E T (kv_get E (db s))" and "committed E g0 T rs s s'"
    and "dbcache s' = dbcache (snd (AddToCache E (logged ct True n t') u))"
  shows "cache_agrees E T pack s'"
proof -
  have ro: "records_ok T (kv_get E (db s))" using assms(5) by (simp add: wf_table_def)
  have ad: "adds E T (kv_get E (db s)) rs TransactionT_new t" using assms(3) by (simp add: batch_def)
  have st: "\<forall>it \<in> set (tr_item (logged ct True n t')). store_key (ti_key it)"
    using batch_items(1) [OF ro assms(3)] assms(4) by (simp add: data_items_def logged_def)
  have "dbcache s' (GetKey T r w False) = None" if r: "r \<in> set rs" and w: "w \<in> set (unique_keys T)" for r w
  proof -
    let ?it = "\<lparr>ti_key = EncodePrimaryKey (PrimaryKey T) (rid T r), ti_value = ser (rcodec T) r, ti_to_del = False\<rparr>"
    have "?it \<in> set (tr_item (logged ct True n t'))" using adds_primary [OF ro ad] r assms(4) by (simp add: logged_def)
    from AddToCache_drops [OF assms(1) st this w, of "rid T r" r u] show ?thesis by (simp add: assms(7))
  qed
  with batch_cache [OF assms(2) _ assms(3)] assms(6) show ?thesis unfolding committed_def by blast
qed

text \<open>The commit of a batch for a table that is cached.\<close>

lemma batch_commit_cached:
  assumes "env_ok E" and "codecs_ok E T" and "replica E g0 (kv_get E (db s)) (logcounter s)" and "logcounter s + 1 \<noteq> 0"
    and "wf_table E T (kv_get E (db s))" and "ids_below T (kv_get E (db s)) (maincounter s)"
    and "tr_item t' = tr_item t" and "batch E T (kv_get E (db s)) (maincounter s) rs t" and "cache_agrees E T pack s"
  shows "\<exists>s'. Commit E ct t' True s = (Inr (), s') \<and> committed E g0 T rs s s' \<and> cache_agrees E T pack s'"
proof -
  have pb: "pb_ok E" using assms(1) by (simp add: env_ok_def)
  from batch_commit [OF assms(1-8), of ct] obtain s' where s': "Commit E ct t' True s = (Inr (), s')" "committed E g0 T rs s s'"
    and c: "rs = [] \<and> s' = s \<or> (\<exists>n u. dbcache s' = dbcache (snd (AddToCache E (logged ct True n t') u)))" by blast
  from c commit_cache [OF pb assms(9,8,7,5) s'(2)] assms(9) have "cache_agrees E T pack s'" by blast
  with s' show ?thesis by blast
qed

end

text \<open>The four caches after a change of one table: the table itself by \<open>commit_cache\<close>, the others because
  neither their keys nor their cached records are touched.\<close>

lemma agrees_kept:
  assumes "table_frame U (kv_get E (db s)) (kv_get E (db s'))" and "shrunk (dbcache s) s'"
  shows "disjoint_tables (TagDataTable E) U \<Longrightarrow> cache_agrees E (TagDataTable E) p s \<Longrightarrow> cache_agrees E (TagDataTable E) p s'"
    "disjoint_tables (CategoryTable E) U \<Longrightarrow> cache_agrees E (CategoryTable E) q s \<Longrightarrow> cache_agrees E (CategoryTable E) q s'"
    "disjoint_tables (ExterDataTable E) U \<Longrightarrow> cache_agrees E (ExterDataTable E) r s \<Longrightarrow> cache_agrees E (ExterDataTable E) r s'"
    "disjoint_tables (UserDataTable E) U \<Longrightarrow> cache_agrees E (UserDataTable E) r s \<Longrightarrow> cache_agrees E (UserDataTable E) r s'"
  using assms(2) tagdata_tbl.table_untouched(3) [OF assms(1)] category_tbl.table_untouched(3) [OF assms(1)]
    exterdata_tbl.table_untouched(3) [OF assms(1)] userdata_tbl.table_untouched(3) [OF assms(1)] unfolding shrunk_def
  by (blast intro: tagdata_tbl.cache_agrees_cong category_tbl.cache_agrees_cong exterdata_tbl.cache_agrees_cong userdata_tbl.cache_agrees_cong)+

text \<open>The index after a change of one table\<close>

lemma item_tables_kept:
  assumes "table_frame U g g'"
  shows "disjoint_tables (LocalDataTable E) U \<Longrightarrow> abs_table (LocalDataTable E) g' = abs_table (LocalDataTable E) g"
    "disjoint_tables (WikiDataTable E) U \<Longrightarrow> abs_table (WikiDataTable E) g' = abs_table (WikiDataTable E) g"
  using localdata_tbl.table_untouched(3) [OF assms] wikidata_tbl.table_untouched(3) [OF assms]
    localdata_tbl.wf_table_cong(2) wikidata_tbl.wf_table_cong(2) by blast+

lemma committed_index:
  assumes "committed E g0 T rs s s'"
  shows "no_xapian s' = no_xapian s"
    "\<not> no_xapian s \<Longrightarrow> indexed kt (xaplog s') = fold (index_add kt) (concat (map (record_event E T) rs)) (indexed kt (xaplog s))"
    "\<not> no_xapian s \<Longrightarrow> (\<forall>e \<in> set (xaplog s'). adds_item e) \<longleftrightarrow>
       (\<forall>e \<in> set (xaplog s). adds_item e) \<and> (\<forall>x \<in> set rs. \<forall>e \<in> set (record_event E T x). adds_item e)"
proof -
  from assms show "no_xapian s' = no_xapian s" by (simp add: committed_def frame_def)
  assume "\<not> no_xapian s"
  with assms have x: "calls (xaplog s') = calls (xaplog s) @ concat (map (record_event E T) rs)" by (simp add: committed_def)
  show "indexed kt (xaplog s') = fold (index_add kt) (concat (map (record_event E T) rs)) (indexed kt (xaplog s))"
    using arg_cong [OF x, of "indexed kt"] by (simp add: indexed_append indexed_calls)
  have c: "(\<forall>e \<in> set (calls evs). adds_item e) \<longleftrightarrow> (\<forall>e \<in> set evs. adds_item e)" for evs by auto
  show "(\<forall>e \<in> set (xaplog s'). adds_item e) \<longleftrightarrow>
       (\<forall>e \<in> set (xaplog s). adds_item e) \<and> (\<forall>x \<in> set rs. \<forall>e \<in> set (record_event E T x). adds_item e)"
    using c [of "xaplog s'"] c [of "xaplog s"] unfolding x by auto
qed

lemma index_kept:
  assumes "committed E g0 T rs s s'" and "index_ok E s" and "PrimaryKey T \<in> {K_TAGDATA, K_CATEGORY, K_EXTERDATA, K_USERDATA}"
    and "disjoint_tables (LocalDataTable E) T" and "disjoint_tables (WikiDataTable E) T"
  shows "index_ok E s'"
proof (cases "no_xapian s")
  case True
  with committed_index(1) [OF assms(1)] show ?thesis by (simp add: index_ok_def)
next
  case False
  have n: "record_event E T r = []" for r by (rule record_event_none [OF assms(3)])
  then have "concat (map (record_event E T) rs) = []" by simp
  then have "indexed kt (xaplog s') = indexed kt (xaplog s)" for kt
    using committed_index(2) [OF assms(1) False, of kt] by (simp only: fold.simps id_apply)
  moreover have "table_frame T (kv_get E (db s)) (kv_get E (db s'))" using assms(1) by (simp add: committed_def)
  ultimately show ?thesis
    using False n committed_index(3) [OF assms(1) False] assms(2) item_tables_kept(1) [OF _ assms(4)] item_tables_kept(2) [OF _ assms(5)]
    by (simp add: index_ok_def)
qed

lemma upd_abs_items: "upd_abs (LocalDataTable E) = (\<lambda>r m. m(item_id r \<mapsto> r))" "upd_abs (WikiDataTable E) = (\<lambda>r m. m(item_id r \<mapsto> r))"
  by (simp_all add: upd_abs_def fun_eq_iff)

lemma index_updated:
  assumes "pb_ok E" and "index_ok E s"
  shows "committed E g0 (LocalDataTable E) rs s s' \<Longrightarrow> index_ok E s'" "committed E g0 (WikiDataTable E) rs s s' \<Longrightarrow> index_ok E s'"
proof -
  have e: "record_event E (LocalDataTable E) = (\<lambda>r. [XapAdd K_LOCALDATA r])" "record_event E (WikiDataTable E) = (\<lambda>r. [XapAdd K_WIKIDATA r])"
    using record_event_item [OF assms(1)] by blast+
  have kt: "K_LOCALDATA \<noteq> K_WIKIDATA" by (simp add: keytype_defs)
  assume c: "committed E g0 (LocalDataTable E) rs s s'"
  then have "table_frame (LocalDataTable E) (kv_get E (db s)) (kv_get E (db s'))"
    "abs_table (LocalDataTable E) (kv_get E (db s')) = fold (upd_abs (LocalDataTable E)) rs (abs_table (LocalDataTable E) (kv_get E (db s)))"
    by (simp_all add: committed_def)
  with item_tables_kept(2) [OF this(1) tables_disjoint(30) [of E]] committed_index [OF c] assms(2) kt show "index_ok E s'"
    by (auto simp: index_ok_def e fold_index_adds upd_abs_items)
next
  have e: "record_event E (LocalDataTable E) = (\<lambda>r. [XapAdd K_LOCALDATA r])" "record_event E (WikiDataTable E) = (\<lambda>r. [XapAdd K_WIKIDATA r])"
    using record_event_item [OF assms(1)] by blast+
  have kt: "K_LOCALDATA \<noteq> K_WIKIDATA" by (simp add: keytype_defs)
  assume c: "committed E g0 (WikiDataTable E) rs s s'"
  then have "table_frame (WikiDataTable E) (kv_get E (db s)) (kv_get E (db s'))"
    "abs_table (WikiDataTable E) (kv_get E (db s')) = fold (upd_abs (WikiDataTable E)) rs (abs_table (WikiDataTable E) (kv_get E (db s)))"
    by (simp_all add: committed_def)
  with item_tables_kept(1) [OF this(1) tables_disjoint(25) [of E]] committed_index [OF c] assms(2) kt show "index_ok E s'"
    by (auto simp: index_ok_def e fold_index_adds upd_abs_items)
qed

text \<open>A batch for each of the tables.\<close>

definition commits :: "('b, 'd) env \<Rightarrow> 'b lookup \<Rightarrow> ('r, 'b) table \<Rightarrow> 'r list \<Rightarrow> ('b, 'd) shared \<Rightarrow> unit res \<times> ('b, 'd) shared \<Rightarrow> bool" where
  "commits E g0 T rs s c \<longleftrightarrow> fst c = Inr () \<and> sys_inv E g0 (snd c) \<and>
     abs_table T (kv_get E (db (snd c))) = fold (upd_abs T) rs (abs_table T (kv_get E (db s))) \<and> frame (snd c) = frame s \<and>
     logcounter (snd c) = (if rs = [] then logcounter s else logcounter s + 1) \<and>
     table_frame T (kv_get E (db s)) (kv_get E (db (snd c)))"

lemma sys_invD:
  assumes "sys_inv E g0 s"
  shows "replica E g0 (kv_get E (db s)) (logcounter s)" "tables_wf E (kv_get E (db s))"
    "tables_below E (kv_get E (db s)) (maincounter s)" "caches_ok E s" "fenced (kv_get E (db s))"
  using assms by (simp_all add: sys_inv_def)

lemma committedD:
  assumes "committed E g0 T rs s s'"
  shows "replica E g0 (kv_get E (db s')) (logcounter s')" "frame s' = frame s" "wf_table E T (kv_get E (db s'))"
    "ids_below T (kv_get E (db s')) (maincounter s)"
    "abs_table T (kv_get E (db s')) = fold (upd_abs T) rs (abs_table T (kv_get E (db s)))"
    "table_frame T (kv_get E (db s)) (kv_get E (db s'))" "shrunk (dbcache s) s'" "maincounter s' = maincounter s"
    "fenced (kv_get E (db s)) \<Longrightarrow> fenced (kv_get E (db s'))"
    "logcounter s' = (if rs = [] then logcounter s else logcounter s + 1)"
  using assms by (auto simp: committed_def frame_def)

lemma tag_commit:
  assumes "env_ok E" and "sys_inv E g0 s" and "logcounter s + 1 \<noteq> 0" and "tr_item t' = tr_item t"
    and "batch E (TagDataTable E) (kv_get E (db s)) (maincounter s) rs t"
  shows "commits E g0 (TagDataTable E) rs s (Commit E ct t' True s)"
proof -
  have pb: "pb_ok E" using assms(1) by (simp add: env_ok_def)
  have T: "wf_table E (TagDataTable E) (kv_get E (db s))" "ids_below (TagDataTable E) (kv_get E (db s)) (maincounter s)"
    using sys_invD [OF assms(2)] by (simp_all add: tables_wf_def tables_below_def)
  have k: "cache_agrees E (TagDataTable E) TagData_Pack s" using sys_invD(4) [OF assms(2)] by (simp add: caches_ok_def)
  obtain s' where c: "Commit E ct t' True s = (Inr (), s')" "committed E g0 (TagDataTable E) rs s s'" "cache_agrees E (TagDataTable E) TagData_Pack s'"
    using tag_cached.batch_commit_cached [OF assms(1) TagDataTable_codecs [OF pb] sys_invD(1) [OF assms(2)] assms(3) T assms(4,5) k] by blast
  note d = committedD [OF c(2)]
  have "index_ok E s'"
    using sys_invD(4) [OF assms(2)] index_kept [OF c(2) _ _ tables_disjoint(21) [of E] tables_disjoint(26) [of E]]
    by (simp add: caches_ok_def)
  then have "caches_ok E s'"
    using sys_invD(4) [OF assms(2)] c(3) agrees_kept(2) [OF d(6,7) tables_disjoint(6) [of E]]
      agrees_kept(3) [OF d(6,7) tables_disjoint(11) [of E]]
      agrees_kept(4) [OF d(6,7) tables_disjoint(16) [of E]]
    by (simp add: caches_ok_def)
  with d tag_update [OF d(6,3,4) sys_invD(2,3) [OF assms(2)]] sys_invD(5) [OF assms(2)] c(1) show ?thesis by (simp add: commits_def sys_inv_def)
qed

lemma category_commit:
  assumes "env_ok E" and "sys_inv E g0 s" and "logcounter s + 1 \<noteq> 0" and "tr_item t' = tr_item t"
    and "batch E (CategoryTable E) (kv_get E (db s)) (maincounter s) rs t"
  shows "commits E g0 (CategoryTable E) rs s (Commit E ct t' True s)"
proof -
  have pb: "pb_ok E" using assms(1) by (simp add: env_ok_def)
  have T: "wf_table E (CategoryTable E) (kv_get E (db s))" "ids_below (CategoryTable E) (kv_get E (db s)) (maincounter s)"
    using sys_invD [OF assms(2)] by (simp_all add: tables_wf_def tables_below_def)
  have k: "cache_agrees E (CategoryTable E) Category_Pack s" using sys_invD(4) [OF assms(2)] by (simp add: caches_ok_def)
  obtain s' where c: "Commit E ct t' True s = (Inr (), s')" "committed E g0 (CategoryTable E) rs s s'" "cache_agrees E (CategoryTable E) Category_Pack s'"
    using category_cached.batch_commit_cached [OF assms(1) CategoryTable_codecs [OF pb] sys_invD(1) [OF assms(2)] assms(3) T assms(4,5) k] by blast
  note d = committedD [OF c(2)]
  have "index_ok E s'"
    using sys_invD(4) [OF assms(2)] index_kept [OF c(2) _ _ tables_disjoint(22) [of E] tables_disjoint(27) [of E]]
    by (simp add: caches_ok_def)
  then have "caches_ok E s'"
    using sys_invD(4) [OF assms(2)] c(3) agrees_kept(1) [OF d(6,7) tables_disjoint(1) [of E]]
      agrees_kept(3) [OF d(6,7) tables_disjoint(12) [of E]]
      agrees_kept(4) [OF d(6,7) tables_disjoint(17) [of E]]
    by (simp add: caches_ok_def)
  with d category_update [OF d(6,3,4) sys_invD(2,3) [OF assms(2)]] sys_invD(5) [OF assms(2)] c(1) show ?thesis by (simp add: commits_def sys_inv_def)
qed

lemma exter_commit:
  assumes "env_ok E" and "sys_inv E g0 s" and "logcounter s + 1 \<noteq> 0" and "tr_item t' = tr_item t"
    and "batch E (ExterDataTable E) (kv_get E (db s)) (maincounter s) rs t"
  shows "commits E g0 (ExterDataTable E) rs s (Commit E ct t' True s)"
proof -
  have pb: "pb_ok E" using assms(1) by (simp add: env_ok_def)
  have T: "wf_table E (ExterDataTable E) (kv_get E (db s))" "ids_below (ExterDataTable E) (kv_get E (db s)) (maincounter s)"
    using sys_invD [OF assms(2)] by (simp_all add: tables_wf_def tables_below_def)
  have k: "cache_agrees E (ExterDataTable E) Exter_Pack s" using sys_invD(4) [OF assms(2)] by (simp add: caches_ok_def)
  obtain s' where c: "Commit E ct t' True s = (Inr (), s')" "committed E g0 (ExterDataTable E) rs s s'" "cache_agrees E (ExterDataTable E) Exter_Pack s'"
    using exter_cached.batch_commit_cached [OF assms(1) ExterDataTable_codecs [OF pb] sys_invD(1) [OF assms(2)] assms(3) T assms(4,5) k] by blast
  note d = committedD [OF c(2)]
  have "index_ok E s'"
    using sys_invD(4) [OF assms(2)] index_kept [OF c(2) _ _ tables_disjoint(23) [of E] tables_disjoint(28) [of E]]
    by (simp add: caches_ok_def)
  then have "caches_ok E s'"
    using sys_invD(4) [OF assms(2)] c(3) agrees_kept(1) [OF d(6,7) tables_disjoint(2) [of E]]
      agrees_kept(2) [OF d(6,7) tables_disjoint(7) [of E]]
      agrees_kept(4) [OF d(6,7) tables_disjoint(18) [of E]]
    by (simp add: caches_ok_def)
  with d exter_update [OF d(6,3,4) sys_invD(2,3) [OF assms(2)]] sys_invD(5) [OF assms(2)] c(1) show ?thesis by (simp add: commits_def sys_inv_def)
qed

lemma user_commit:
  assumes "env_ok E" and "sys_inv E g0 s" and "logcounter s + 1 \<noteq> 0" and "tr_item t' = tr_item t"
    and "batch E (UserDataTable E) (kv_get E (db s)) (maincounter s) rs t"
  shows "commits E g0 (UserDataTable E) rs s (Commit E ct t' True s)"
proof -
  have pb: "pb_ok E" using assms(1) by (simp add: env_ok_def)
  have T: "wf_table E (UserDataTable E) (kv_get E (db s))" "ids_below (UserDataTable E) (kv_get E (db s)) (maincounter s)"
    using sys_invD [OF assms(2)] by (simp_all add: tables_wf_def tables_below_def)
  have k: "cache_agrees E (UserDataTable E) User_Pack s" using sys_invD(4) [OF assms(2)] by (simp add: caches_ok_def)
  obtain s' where c: "Commit E ct t' True s = (Inr (), s')" "committed E g0 (UserDataTable E) rs s s'" "cache_agrees E (UserDataTable E) User_Pack s'"
    using user_cached.batch_commit_cached [OF assms(1) UserDataTable_codecs [OF pb] sys_invD(1) [OF assms(2)] assms(3) T assms(4,5) k] by blast
  note d = committedD [OF c(2)]
  have "index_ok E s'"
    using sys_invD(4) [OF assms(2)] index_kept [OF c(2) _ _ tables_disjoint(24) [of E] tables_disjoint(29) [of E]]
    by (simp add: caches_ok_def)
  then have "caches_ok E s'"
    using sys_invD(4) [OF assms(2)] c(3) agrees_kept(1) [OF d(6,7) tables_disjoint(3) [of E]]
      agrees_kept(2) [OF d(6,7) tables_disjoint(8) [of E]]
      agrees_kept(3) [OF d(6,7) tables_disjoint(13) [of E]]
    by (simp add: caches_ok_def)
  with d user_update [OF d(6,3,4) sys_invD(2,3) [OF assms(2)]] sys_invD(5) [OF assms(2)] c(1) show ?thesis by (simp add: commits_def sys_inv_def)
qed

lemma local_commit:
  assumes "env_ok E" and "sys_inv E g0 s" and "logcounter s + 1 \<noteq> 0" and "tr_item t' = tr_item t"
    and "batch E (LocalDataTable E) (kv_get E (db s)) (maincounter s) rs t"
  shows "commits E g0 (LocalDataTable E) rs s (Commit E ct t' True s)"
proof -
  have pb: "pb_ok E" using assms(1) by (simp add: env_ok_def)
  have T: "wf_table E (LocalDataTable E) (kv_get E (db s))" "ids_below (LocalDataTable E) (kv_get E (db s)) (maincounter s)"
    using sys_invD [OF assms(2)] by (simp_all add: tables_wf_def tables_below_def)
  obtain s' where c: "Commit E ct t' True s = (Inr (), s')" "committed E g0 (LocalDataTable E) rs s s'"
    using localdata_tbl.batch_commit [OF assms(1) LocalDataTable_codecs [OF pb] sys_invD(1) [OF assms(2)] assms(3) T assms(4,5)] by blast
  note d = committedD [OF c(2)]
  have "index_ok E s'"
    using sys_invD(4) [OF assms(2)] index_updated(1) [OF pb _ c(2)] by (simp add: caches_ok_def)
  then have "caches_ok E s'"
    using sys_invD(4) [OF assms(2)] agrees_kept(1) [OF d(6,7) tables_disjoint(4) [of E]]
      agrees_kept(2) [OF d(6,7) tables_disjoint(9) [of E]]
      agrees_kept(3) [OF d(6,7) tables_disjoint(14) [of E]]
      agrees_kept(4) [OF d(6,7) tables_disjoint(19) [of E]]
    by (simp add: caches_ok_def)
  with d local_update [OF d(6,3,4) sys_invD(2,3) [OF assms(2)]] sys_invD(5) [OF assms(2)] c(1) show ?thesis by (simp add: commits_def sys_inv_def)
qed

lemma wiki_commit:
  assumes "env_ok E" and "sys_inv E g0 s" and "logcounter s + 1 \<noteq> 0" and "tr_item t' = tr_item t"
    and "batch E (WikiDataTable E) (kv_get E (db s)) (maincounter s) rs t"
  shows "commits E g0 (WikiDataTable E) rs s (Commit E ct t' True s)"
proof -
  have pb: "pb_ok E" using assms(1) by (simp add: env_ok_def)
  have T: "wf_table E (WikiDataTable E) (kv_get E (db s))" "ids_below (WikiDataTable E) (kv_get E (db s)) (maincounter s)"
    using sys_invD [OF assms(2)] by (simp_all add: tables_wf_def tables_below_def)
  obtain s' where c: "Commit E ct t' True s = (Inr (), s')" "committed E g0 (WikiDataTable E) rs s s'"
    using wikidata_tbl.batch_commit [OF assms(1) WikiDataTable_codecs [OF pb] sys_invD(1) [OF assms(2)] assms(3) T assms(4,5)] by blast
  note d = committedD [OF c(2)]
  have "index_ok E s'"
    using sys_invD(4) [OF assms(2)] index_updated(2) [OF pb _ c(2)] by (simp add: caches_ok_def)
  then have "caches_ok E s'"
    using sys_invD(4) [OF assms(2)] agrees_kept(1) [OF d(6,7) tables_disjoint(5) [of E]]
      agrees_kept(2) [OF d(6,7) tables_disjoint(10) [of E]]
      agrees_kept(3) [OF d(6,7) tables_disjoint(15) [of E]]
      agrees_kept(4) [OF d(6,7) tables_disjoint(20) [of E]]
    by (simp add: caches_ok_def)
  with d wiki_update [OF d(6,3,4) sys_invD(2,3) [OF assms(2)]] sys_invD(5) [OF assms(2)] c(1) show ?thesis by (simp add: commits_def sys_inv_def)
qed

end
