(* ===== verification/ServiceLaws.thy ===== *)
theory ServiceLaws
  imports CommitLaws
begin

text \<open>
  The data services as clients of one contract. Every \<open>ManageDataAction\<close> loops over its payloads with a step
  that either throws or adds one record to the transaction, and commits at the end. The locale
  \<open>record_step\<close> states what the step promises; in it the whole request is proved to keep the invariant,
  whatever its outcome, and to put the records of a successful request into the table. The five
  services provide it.
\<close>

section \<open>Steps of a request\<close>

named_theorems leads_intros \<open>steps from one predicate to another\<close>

definition leads :: "('s \<Rightarrow> bool) \<Rightarrow> ('s \<Rightarrow> bool) \<Rightarrow> ('s, 'a) act \<Rightarrow> bool" where
  "leads P Q m \<longleftrightarrow> (\<forall>s. P s \<longrightarrow> Q (snd (m s)))"

lemma leadsD: "leads P Q m \<Longrightarrow> P s \<Longrightarrow> m s = (r, s') \<Longrightarrow> Q s'"
  unfolding leads_def by (metis snd_conv)

lemma leads_pre:
  assumes "keeps P m" and "\<And>s. P s \<Longrightarrow> Q s" and "\<And>x. leads P Q (f x)"
  shows "leads P Q (bindA m f)"
  unfolding leads_def
proof (intro allI impI)
  fix s assume s: "P s"
  obtain r u where m: "m s = (r, u)" by force
  with keepsD [OF assms(1) s] have "P u" by simp
  with assms(2,3) m show "Q (snd (bindA m f s))" by (cases r) (auto simp: bindA_def leads_def)
qed

lemma leads_post:
  assumes "leads P Q m" and "\<And>x. keeps Q (f x)"
  shows "leads P Q (bindA m f)"
  unfolding leads_def
proof (intro allI impI)
  fix s assume s: "P s"
  obtain r u where m: "m s = (r, u)" by force
  with leadsD [OF assms(1) s] have "Q u" by simp
  with assms(2) m show "Q (snd (bindA m f s))" by (cases r) (auto simp: bindA_def keeps_def)
qed

lemma leads_prod [leads_intros]: "(\<And>a b. leads P Q (f a b)) \<Longrightarrow> leads P Q (case y of (a, b) \<Rightarrow> f a b)"
  by (cases y) simp

text \<open>The state during a loop: nothing is written, at most one id is drawn by a step.\<close>

definition calm :: "('b, 'd) env \<Rightarrow> ('b, 'd) shared \<Rightarrow> ('b, 'd) nstate \<Rightarrow> bool" where
  "calm E s0 = (\<lambda>(s, _). steady E s0 s)"

definition drawn :: "('b, 'd) env \<Rightarrow> ('b, 'd) shared \<Rightarrow> ('b, 'd) nstate \<Rightarrow> bool" where
  "drawn E s0 = (\<lambda>(s, _). steady E s0 s \<or> steady E (s0\<lparr>maincounter := maincounter s0 + 1\<rparr>) s)"

lemma calm_drawn: "calm E s0 x \<Longrightarrow> drawn E s0 x"
  by (auto simp: calm_def drawn_def)

lemma calm_onS [steady_intros]: "keeps (steady E s0) m \<Longrightarrow> keeps (calm E s0) (onS m)"
  by (auto simp: keeps_def calm_def onS_def split: prod.split)

lemma steady_tmpcache: "steady E s0 s \<Longrightarrow> steady E s0 (s\<lparr>tmpcache := c\<rparr>)"
  by (erule steady_frame) simp_all

text \<open>Claiming a name.\<close>

lemma claim_name_eq:
  "claim_name E kt n d b (s, ins) = (case MakeKey kt n of Inl e \<Rightarrow> (Inl e, (s, ins))
     | Inr k \<Rightarrow> if k \<in> set ins then (Inl (BadDataException (d @ n) M_INVALID_PARAM), (s, ins))
         else if CheckAssoc k (tmpcache s) then (Inl (BadDataException (b @ n) M_INVALID_PARAM), (s, ins))
         else (Inr (), (s\<lparr>tmpcache := SetAssoc k (blank E) False (tmpcache s)\<rparr>, List.insert k ins)))"
  by (simp add: claim_name_def CheckLocal_def ReserveName_def reserve_key_def bindA_def throwIf_def split: sum.split)

lemma claim_name_Inr:
  assumes "claim_name E kt n d b (s, ins) = (Inr x, (s', ins'))"
  shows "\<exists>k tc. MakeKey kt n = Inr k \<and> k \<notin> set ins \<and> set ins' = insert k (set ins) \<and> s' = s\<lparr>tmpcache := tc\<rparr>"
  using assms by (auto simp: claim_name_eq split: sum.splits if_splits)

lemma calm_claim_name [steady_intros]: "keeps (calm E s0) (claim_name E kt n d b)"
  by (auto simp: keeps_def calm_def claim_name_eq steady_tmpcache split: sum.split)

text \<open>A record a request wrote is one the table had under the same unique key, or a new one whose id was drawn
  meanwhile; \<open>fit\<close> says what it may be, given the one the table had. \<open>updates\<close>: the request wrote one record per
  payload, in order, under the payload's key, into this table and nothing else, and no two under one id.
  \<open>atomic_request\<close>: it did that, for somebody it was let in as, with one entry of the log, or it changed neither data nor log; it drew at most one id per payload.\<close>

definition origin :: "('r, 'b) table \<Rightarrow> keytype \<Rightarrow> ('r option \<Rightarrow> 'r \<Rightarrow> bool) \<Rightarrow> 'b lookup \<Rightarrow> 64 word \<Rightarrow> 64 word \<Rightarrow> 'r \<Rightarrow> bool" where
  "origin T u fit g m m' r \<longleftrightarrow>
     (\<exists>old. abs_table T g (rid T r) = Some old \<and> GetKey T old u False = GetKey T r u False \<and> fit (Some old) r) \<or>
     (m < rid T r \<and> rid T r \<le> m' \<and> fit None r)"

definition updates :: "('b, 'd) env \<Rightarrow> ('r, 'b) table \<Rightarrow> keytype \<Rightarrow> ('x \<Rightarrow> string) \<Rightarrow> ('x \<Rightarrow> 'r option \<Rightarrow> 'r \<Rightarrow> bool) \<Rightarrow> 'x list \<Rightarrow>
    ('b, 'd) shared \<Rightarrow> ('b, 'd) shared \<Rightarrow> bool" where
  "updates E T u uk fits xs s s' \<longleftrightarrow> (\<exists>rs.
     list_all2 (\<lambda>x r. GetKey T r u False = uk x \<and> origin T u (fits x) (kv_get E (db s)) (maincounter s) (maincounter s') r) xs rs \<and>
     distinct (map (rid T) rs) \<and> distinct (map uk xs) \<and>
     abs_table T (kv_get E (db s')) = fold (upd_abs T) rs (abs_table T (kv_get E (db s))) \<and>
     table_frame T (kv_get E (db s)) (kv_get E (db s')))"

definition atomic_request :: "('b, 'd) env \<Rightarrow> 'b lookup \<Rightarrow> ('r, 'b) table \<Rightarrow> keytype \<Rightarrow> ('x \<Rightarrow> string) \<Rightarrow>
    (UserDataT \<Rightarrow> bool) \<Rightarrow> (UserDataT \<Rightarrow> 'x \<Rightarrow> 'r option \<Rightarrow> 'r \<Rightarrow> bool) \<Rightarrow> 'x list \<Rightarrow>
    ('b, 'd) shared \<Rightarrow> 'y res \<times> ('b, 'd) shared \<Rightarrow> bool" where
  "atomic_request E g0 T u uk who fits xs s p \<longleftrightarrow> sys_inv E g0 (snd p) \<and> maincounter s \<le> maincounter (snd p) \<and>
     unat (maincounter (snd p)) \<le> unat (maincounter s) + length xs \<and> (case fst p of
     Inl e \<Rightarrow> db (snd p) = db s \<and> logcounter (snd p) = logcounter s
   | Inr y \<Rightarrow> is_master s \<and> logcounter (snd p) = (if xs = [] then logcounter s else logcounter s + 1) \<and> (\<exists>w. who w \<and> updates E T u uk (fits w) xs s (snd p)))"

text \<open>What a request may do first: it fills caches and checks sessions, and may end with an exception.\<close>

definition handles :: "('b, 'd) env \<Rightarrow> ('b, 'd) shared \<Rightarrow> ('y res \<times> ('b, 'd) shared \<Rightarrow> bool) \<Rightarrow> (('b, 'd) shared, 'y) act \<Rightarrow> bool" where
  "handles E s0 Q m \<longleftrightarrow> (\<forall>s. steady E s0 s \<longrightarrow> Q (m s))"

lemma steady_inv: "steady E s0 s \<Longrightarrow> sys_inv E g0 s0 \<Longrightarrow> sys_inv E g0 s"
  by (auto simp: steady_def sys_inv_def)

text \<open>\<open>aborts\<close>: the property allows the request to end with an exception while nothing is written.\<close>

definition aborts :: "('b, 'd) env \<Rightarrow> ('b, 'd) shared \<Rightarrow> ('y res \<times> ('b, 'd) shared \<Rightarrow> bool) \<Rightarrow> bool" where
  "aborts E s0 Q \<longleftrightarrow> (\<forall>e s. steady E s0 s \<longrightarrow> Q (Inl e, s))"

lemma aborts_atomic: "sys_inv E g0 s0 \<Longrightarrow> aborts E s0 (atomic_request E g0 T u uk who fits xs s0)"
  by (auto simp: aborts_def atomic_request_def steady_inv steadyD)

lemma handles_bind:
  assumes "aborts E s0 Q" and "keeps (steady E s0) m" and "\<And>x. handles E s0 Q (f x)"
  shows "handles E s0 Q (bindA m f)"
  unfolding handles_def
proof (intro allI impI)
  fix s assume s: "steady E s0 s"
  obtain r v where m: "m s = (r, v)" by force
  with keepsD [OF assms(2) s] have v: "steady E s0 v" by simp
  show "Q (bindA m f s)"
    using m v assms(1,3) by (cases r) (auto simp: bindA_throws bindA_step handles_def aborts_def)
qed

lemma handles_throwIf: "aborts E s0 Q \<Longrightarrow> (\<not> b \<Longrightarrow> handles E s0 Q (f ())) \<Longrightarrow> handles E s0 Q (bindA (throwIf b e) f)"
  by (cases b) (auto simp: handles_def aborts_def bindA_def throwIf_def raise_def ret_def)

lemma handles_liftR:
  "aborts E s0 Q \<Longrightarrow> (\<And>x s. steady E s0 s \<Longrightarrow> h s = Inr x \<Longrightarrow> handles E s0 Q (f x)) \<Longrightarrow> handles E s0 Q (bindA (liftR h) f)"
  unfolding handles_def aborts_def by (auto simp: bindA_def liftR_def split: sum.split)

lemma handles_prod: "(\<And>a b. y = (a, b) \<Longrightarrow> handles E s Q (f a b)) \<Longrightarrow> handles E s Q (case y of (a, b) \<Rightarrow> f a b)"
  by (cases y) simp

lemma handlesD: "handles E s Q m \<Longrightarrow> steady E s s \<Longrightarrow> Q (m s)"
  by (simp add: handles_def)

lemma list_all2_member: "list_all2 P xs ys \<Longrightarrow> y \<in> set ys \<Longrightarrow> \<exists>x \<in> set xs. P x y"
  by (induction rule: list_all2_induct) auto

section \<open>The contract of a step\<close>

text \<open>\<open>uk x\<close> is the unique key of the record the payload \<open>x\<close> is about, \<open>token x\<close> the name it claims. A step that
  succeeds adds one record: that of the name, or a new one with the next id.\<close>

locale record_step = table_laws T for T :: "('r, 'b) table" +
  fixes E :: "('b, 'd) env" and step :: "'x \<Rightarrow> 'b TransactionT \<times> 64 word \<Rightarrow> (('b, 'd) nstate, 'b TransactionT \<times> 64 word) act"
    and u :: keytype and uk :: "'x \<Rightarrow> string" and fits :: "'x \<Rightarrow> 'r option \<Rightarrow> 'r \<Rightarrow> bool" and token :: "'x \<Rightarrow> string" and valid :: "'x \<Rightarrow> bool"
  assumes u_key: "unique_keys T = [u]"
    and step_any: "leads (calm E s) (drawn E s) (step x a)"
    and step_ok: "steady E s s \<Longrightarrow> step x (txn, n) (s, ins) = (Inr (txn', n'), (s', ins')) \<Longrightarrow>
      n' = n + 1 \<and> valid x \<and> token x \<notin> set ins \<and> set ins' = insert (token x) (set ins) \<and>
      (\<exists>r up. AddRecord E T (kv_get E (db s)) r up txn = Inr (True, txn') \<and> GetKey T r u False = uk x \<and>
        ((maincounter s' = maincounter s \<and> (\<exists>old. abs_table T (kv_get E (db s)) (rid T r) = Some old \<and> GetKey T old u False = uk x \<and> fits x (Some old) r)) \<or>
         (maincounter s' = maincounter s + 1 \<and> rid T r = maincounter s + 1 \<and> fits x None r)))"
    and token_key: "valid x \<Longrightarrow> valid y \<Longrightarrow> uk x = uk y \<Longrightarrow> token x = token y"
    and commit_law: "env_ok E \<Longrightarrow> sys_inv E g0 s \<Longrightarrow> logcounter s + 1 \<noteq> 0 \<Longrightarrow> tr_item t' = tr_item t \<Longrightarrow>
      batch E T (kv_get E (db s)) (maincounter s) rs t \<Longrightarrow> commits E g0 T rs s (Commit E ct t' True s)"
begin

text \<open>Where a loop that began in \<open>s\<close> can be after at most \<open>n\<close> steps.\<close>

definition reached :: "nat \<Rightarrow> ('b, 'd) shared \<Rightarrow> ('b, 'd) shared \<Rightarrow> bool" where
  "reached n s s' \<longleftrightarrow> steady E (s\<lparr>maincounter := maincounter s'\<rparr>) s' \<and> maincounter s \<le> maincounter s' \<and>
     unat (maincounter s') \<le> unat (maincounter s) + n"

lemma unat_next: "unat (m :: 64 word) + n < 2 ^ 64 \<Longrightarrow> 0 < n \<Longrightarrow> unat (m + 1) = unat m + 1"
  by (simp add: unat_word_ariths)

lemma reached_refl: "steady E s s \<Longrightarrow> reached n s s"
  by (simp add: reached_def)

lemma steady_same: "steady E s0 s \<Longrightarrow> steady E s s"
  unfolding steady_def by blast

lemma reached_step:
  assumes "drawn E s (s1, ins)" and "unat (maincounter s) + Suc n < 2 ^ 64"
  shows "steady E s1 s1" and "unat (maincounter s1) + n < 2 ^ 64" and "maincounter s \<le> maincounter s1"
    and "maincounter s1 = maincounter s \<or> maincounter s1 = maincounter s + 1" and "db s1 = db s"
    and "reached n s1 s' \<Longrightarrow> reached (Suc n) s s'"
proof -
  have nx: "unat (maincounter s + 1) = unat (maincounter s) + 1" using unat_next [OF assms(2)] by simp
  show a: "steady E s1 s1" "maincounter s1 = maincounter s \<or> maincounter s1 = maincounter s + 1" "db s1 = db s"
    using assms(1) by (auto simp: drawn_def steady_def)
  show b: "unat (maincounter s1) + n < 2 ^ 64" "maincounter s \<le> maincounter s1"
    using a(2) nx assms(2) by (auto simp: word_le_nat_alt)
  assume r: "reached n s1 s'"
  have "steady E (s\<lparr>maincounter := maincounter s'\<rparr>) s'"
    using r assms(1) by (auto simp: reached_def drawn_def steady_def)
  with r a(2) b(2) nx show "reached (Suc n) s s'" by (auto simp: reached_def)
qed

lemma loop_any:
  assumes "steady E s s" and "unat (maincounter s) + length xs < 2 ^ 64" and "foldA step xs a (s, ins) = (r, (s', ins'))"
  shows "reached (length xs) s s'"
  using assms
proof (induction xs arbitrary: a s ins)
  case Nil
  then show ?case by (simp add: reached_refl)
next
  case (Cons x xs)
  obtain q s1 ins1 where q: "step x a (s, ins) = (q, (s1, ins1))" by (metis prod.exhaust)
  have "calm E s (s, ins)" using Cons.prems(1) by (simp add: calm_def)
  from leadsD [OF step_any this q] have d: "drawn E s (s1, ins1)" .
  have u: "unat (maincounter s) + Suc (length xs) < 2 ^ 64" using Cons.prems(2) by simp
  note d1 = reached_step [OF d u]
  show ?case
  proof (cases q)
    case (Inl e)
    with Cons.prems(3) q d1(6) [OF reached_refl [OF d1(1)]] show ?thesis by (simp add: bindA_throws)
  next
    case (Inr b)
    with Cons.prems(3) q have "foldA step xs b (s1, ins1) = (r, (s', ins'))" by (simp add: bindA_step)
    from d1(6) [OF Cons.IH [OF d1(1,2) this]] show ?thesis by simp
  qed
qed

text \<open>A loop that succeeds has added a batch.\<close>

lemma loop_ok:
  assumes "steady E s s" and "unat (maincounter s) + length xs < 2 ^ 64" and "ids_below T (kv_get E (db s)) (maincounter s)"
    and "foldA step xs (txn, n) (s, ins) = (Inr (txn', n'), (s', ins'))"
  shows "n' = n + of_nat (length xs) \<and> (\<forall>x \<in> set xs. valid x \<and> token x \<notin> set ins) \<and> distinct (map token xs) \<and>
    (\<exists>rs. adds E T (kv_get E (db s)) rs txn txn' \<and> distinct (map (rid T) rs) \<and>
      list_all2 (\<lambda>x r. GetKey T r u False = uk x \<and> origin T u (fits x) (kv_get E (db s)) (maincounter s) (maincounter s') r) xs rs)"
  using assms
proof (induction xs arbitrary: txn n s ins)
  case Nil
  then show ?case by (auto intro: adds_Nil)
next
  case (Cons x xs)
  let ?g = "kv_get E (db s)"
  obtain q s1 ins1 where q: "step x (txn, n) (s, ins) = (q, (s1, ins1))" by (metis prod.exhaust)
  obtain t1 n1 where q1: "q = Inr (t1, n1)" using Cons.prems(4) q by (cases q) (auto simp: bindA_throws)
  have rest: "foldA step xs (t1, n1) (s1, ins1) = (Inr (txn', n'), (s', ins'))"
    using Cons.prems(4) q q1 by (simp add: bindA_step)
  have "calm E s (s, ins)" using Cons.prems(1) by (simp add: calm_def)
  from leadsD [OF step_any this q] have d: "drawn E s (s1, ins1)" .
  have u: "unat (maincounter s) + Suc (length xs) < 2 ^ 64" using Cons.prems(2) by simp
  note d1 = reached_step [OF d u]
  have nx: "maincounter s < maincounter s + 1" using unat_next [OF u] by (simp add: word_less_nat_alt)
  have be: "ids_below T (kv_get E (db s1)) (maincounter s1)" using ids_below_mono [OF Cons.prems(3) d1(3)] d1(5) by simp
  have le: "maincounter s1 \<le> maincounter s'" using loop_any [OF d1(1,2) rest] by (simp add: reached_def)
  from step_ok [OF Cons.prems(1) q [unfolded q1]] obtain r up where
    x: "n1 = n + 1" "valid x" "token x \<notin> set ins" "set ins1 = insert (token x) (set ins)" and
    r: "AddRecord E T ?g r up txn = Inr (True, t1)" "GetKey T r u False = uk x" and
    o: "(maincounter s1 = maincounter s \<and> (\<exists>old. abs_table T ?g (rid T r) = Some old \<and> GetKey T old u False = uk x \<and> fits x (Some old) r)) \<or>
         (maincounter s1 = maincounter s + 1 \<and> rid T r = maincounter s + 1 \<and> fits x None r)" by blast
  from Cons.IH [OF d1(1,2) be rest] obtain rs where
    I: "n' = n1 + of_nat (length xs)" "\<forall>y \<in> set xs. valid y \<and> token y \<notin> set ins1" "distinct (map token xs)" and
    rs: "adds E T ?g rs t1 txn'" "distinct (map (rid T) rs)"
      "list_all2 (\<lambda>x r. GetKey T r u False = uk x \<and> origin T u (fits x) ?g (maincounter s1) (maincounter s') r) xs rs" unfolding d1(5) by blast
  have fresh: "rid T p \<noteq> rid T r" if p: "p \<in> set rs" for p
  proof
    assume e: "rid T p = rid T r"
    from list_all2_member [OF rs(3) p] obtain y where y: "y \<in> set xs" "GetKey T p u False = uk y"
      and oy: "origin T u (fits y) ?g (maincounter s1) (maincounter s') p" by blast
    from oy consider (old) old where "abs_table T ?g (rid T p) = Some old" "GetKey T old u False = uk y"
      | (new) "maincounter s1 < rid T p" using y(2) by (auto simp: origin_def)
    then show False
    proof cases
      case old
      with o e Cons.prems(3) nx have "GetKey T old u False = uk x" by (auto simp: ids_below_def)
      with old(2) token_key [of x y] x(2) I(2) y(1) have "token x = token y" by simp
      with I(2) y(1) x(4) show False by auto
    next
      case new
      with o e Cons.prems(3) nx show False by (auto simp: ids_below_def)
    qed
  qed
  have "origin T u (fits x) ?g (maincounter s) (maincounter s') r" using o r(2) le nx by (auto simp: origin_def)
  moreover have "list_all2 (\<lambda>x r. GetKey T r u False = uk x \<and> origin T u (fits x) ?g (maincounter s) (maincounter s') r) xs rs"
    using rs(3) by (rule list_all2_mono) (use d1(3) in \<open>auto simp: origin_def\<close>)
  ultimately have "list_all2 (\<lambda>x r. GetKey T r u False = uk x \<and> origin T u (fits x) ?g (maincounter s) (maincounter s') r) (x # xs) (r # rs)"
    using r(2) by simp
  moreover have "distinct (map (rid T) (r # rs))" using rs(2) fresh by force
  moreover have "adds E T ?g (r # rs) txn txn'" using r(1) rs(1) by (rule adds_Cons)
  moreover have "n' = n + of_nat (length (x # xs))" using I(1) x(1) by simp
  moreover have "\<forall>y \<in> set (x # xs). valid y \<and> token y \<notin> set ins" using I(2) x by auto
  moreover have "distinct (map token (x # xs))" using I(2,3) x(4) by force
  ultimately show ?case by blast
qed

lemma loop_batch:
  assumes "steady E s s" and "unat (maincounter s) + length xs < 2 ^ 64" and "ids_below T (kv_get E (db s)) (maincounter s)"
    and "foldA step xs (TransactionT_new, 0) (s, []) = (Inr (txn, n), (s', ins'))"
  shows "n = of_nat (length xs) \<and> distinct (map uk xs) \<and> (\<exists>rs. batch E T (kv_get E (db s)) (maincounter s') rs txn \<and> distinct (map (rid T) rs) \<and>
    list_all2 (\<lambda>x r. GetKey T r u False = uk x \<and> origin T u (fits x) (kv_get E (db s)) (maincounter s) (maincounter s') r) xs rs)"
proof -
  let ?g = "kv_get E (db s)"
  from loop_ok [OF assms] obtain rs where n: "n = of_nat (length xs)" and xs: "\<forall>x \<in> set xs. valid x" "distinct (map token xs)"
    and rs: "adds E T ?g rs TransactionT_new txn" "distinct (map (rid T) rs)"
      "list_all2 (\<lambda>x r. GetKey T r u False = uk x \<and> origin T u (fits x) ?g (maincounter s) (maincounter s') r) xs rs" by auto
  have o: "(\<exists>old. abs_table T ?g (rid T r) = Some old \<and> GetKey T old u False = GetKey T r u False) \<or>
      maincounter s < rid T r \<and> rid T r \<le> maincounter s'" if "r \<in> set rs" for r
    using list_all2_member [OF rs(3) that] by (auto simp: origin_def)
  have "maincounter s \<le> maincounter s'" using loop_any [OF assms(1,2,4)] by (simp add: reached_def)
  then have "\<forall>r \<in> set rs. rid T r \<le> maincounter s'"
    using o assms(3) unfolding ids_below_def by (meson order_trans)
  moreover have "GetKey T x u False = GetKey T r u False" if "r \<in> set rs" "abs_table T ?g (rid T r) = Some x" for r x
    using o [OF that(1)] assms(3) that(2) unfolding ids_below_def by (metis not_less option.inject)
  moreover have d: "distinct (map uk xs)"
    using xs token_key unfolding distinct_map inj_on_def by metis
  moreover have "map (\<lambda>r. GetKey T r u False) rs = map uk xs"
    using rs(3) by (induction rule: list_all2_induct) auto
  ultimately have "batch E T ?g (maincounter s') rs txn"
    using rs(1,2) u_key by (simp add: batch_def)
  with n d rs show ?thesis by blast
qed

text \<open>The loop with the commit, as the services end: it succeeds as a whole or leaves the data as it was.\<close>

lemma manage_run:
  assumes "env_ok E" and "sys_inv E g0 s" and "unat (maincounter s) + length xs < 2 ^ 64" and "logcounter s + 1 \<noteq> 0"
    and "ids_below T (kv_get E (db s)) (maincounter s)"
  shows "\<exists>res s'. with_namecache (bindA (foldA step xs (TransactionT_new, 0)) (\<lambda>(txn, n).
      bindA (onS (Commit E ct (txn\<lparr>tr_updater := nm\<rparr>) True)) (\<lambda>_. ret (f n)))) s = (res, s') \<and> sys_inv E g0 s' \<and>
    maincounter s \<le> maincounter s' \<and> unat (maincounter s') \<le> unat (maincounter s) + length xs \<and>
    (case res of Inl e \<Rightarrow> db s' = db s \<and> logcounter s' = logcounter s
     | Inr y \<Rightarrow> y = f (of_nat (length xs)) \<and> logcounter s' = (if xs = [] then logcounter s else logcounter s + 1) \<and> updates E T u uk fits xs s s')"
proof -
  have pb: "pb_ok E" using assms(1) by (simp add: env_ok_def)
  have st: "steady E s s" using pb sys_invD [OF assms(2)] by (simp add: steady_def)
  obtain r s1 ins1 where lp: "foldA step xs (TransactionT_new, 0) (s, []) = (r, (s1, ins1))" by (metis prod.exhaust)
  from loop_any [OF st assms(3) lp] have re: "steady E (s\<lparr>maincounter := maincounter s1\<rparr>) s1" "maincounter s \<le> maincounter s1"
    "unat (maincounter s1) \<le> unat (maincounter s) + length xs"
    by (simp_all add: reached_def)
  have db1: "db s1 = db s" "logcounter s1 = logcounter s" and ca: "caches_ok E s1" using steadyD [OF re(1)] by simp_all
  have inv1: "sys_inv E g0 s1"
    using sys_invD [OF assms(2)] ca tables_below_mono [OF _ re(2)] by (simp add: sys_inv_def db1)
  have tmp: "sys_inv E g0 (x\<lparr>tmpcache := c\<rparr>) = sys_inv E g0 x" for x c
    using caches_ok_frame [of "x\<lparr>tmpcache := c\<rparr>" x E] by (simp add: sys_inv_def)
  show ?thesis
  proof (cases r)
    case (Inl e)
    with lp inv1 db1 re(2,3) show ?thesis by (simp add: with_namecache_def bindA_throws tmp)
  next
    case (Inr p)
    obtain txn n where p: "p = (txn, n)" by force
    from loop_batch [OF st assms(3,5) lp [unfolded Inr p]] obtain rs where n: "n = of_nat (length xs)"
      and rs: "batch E T (kv_get E (db s1)) (maincounter s1) rs txn" "distinct (map (rid T) rs)" "distinct (map uk xs)"
        "list_all2 (\<lambda>x r. GetKey T r u False = uk x \<and> origin T u (fits x) (kv_get E (db s)) (maincounter s) (maincounter s1) r) xs rs"
      by (auto simp: db1)
    have "commits E g0 T rs s1 (Commit E ct (txn\<lparr>tr_updater := nm\<rparr>) True s1)"
      using assms(4) db1 rs(1) by (intro commit_law [OF assms(1) inv1, where t = txn]) simp_all
    then obtain s2 where c: "Commit E ct (txn\<lparr>tr_updater := nm\<rparr>) True s1 = (Inr (), s2)" "sys_inv E g0 s2"
        "abs_table T (kv_get E (db s2)) = fold (upd_abs T) rs (abs_table T (kv_get E (db s)))" "frame s2 = frame s1"
        "table_frame T (kv_get E (db s)) (kv_get E (db s2))"
        "logcounter s2 = (if rs = [] then logcounter s else logcounter s + 1)"
      unfolding commits_def by (metis db1 prod.collapse)
    have o: "onS (Commit E ct (txn\<lparr>tr_updater := nm\<rparr>) True) (s1, ins1) = (Inr (), (s2, ins1))" by (simp add: onS_run c(1))
    have m: "maincounter s2 = maincounter s1" using c(4) by (simp add: frame_def)
    have "rs = [] \<longleftrightarrow> xs = []" using list_all2_lengthD [OF rs(4)] by auto
    with rs(2-4) c(2,3,5,6) m re(2,3) lp show ?thesis unfolding n [symmetric] updates_def
      by (intro exI [of _ "Inr (f n)"] exI [of _ "s2\<lparr>tmpcache := release_names ins1 (tmpcache s2)\<rparr>"])
        (auto simp: with_namecache_def Inr p bindA_step [where m = "foldA step xs (TransactionT_new, 0)", OF lp [unfolded Inr p]]
          bindA_step [where m = "onS (Commit E ct (txn\<lparr>tr_updater := nm\<rparr>) True)", OF o] tmp)
  qed
qed

lemma manage_handles:
  assumes "env_ok E" and "sys_inv E g0 s0" and "unat (maincounter s0) + length xs < 2 ^ 64" and "logcounter s0 + 1 \<noteq> 0"
    and "ids_below T (kv_get E (db s0)) (maincounter s0)" and "is_master s0" and "who w" and "F w = fits"
  shows "handles E s0 (atomic_request E g0 T u uk who F xs s0) (with_namecache (bindA (foldA step xs (TransactionT_new, 0)) (\<lambda>(txn, n).
      bindA (onS (Commit E ct (txn\<lparr>tr_updater := nm\<rparr>) True)) (\<lambda>_. ret (f n)))))"
  unfolding handles_def
proof (intro allI impI)
  fix s assume s: "steady E s0 s"
  note d = steadyD [OF s]
  from manage_run [where xs = xs and f = f and ct = ct and nm = nm, OF assms(1) steady_inv [OF s assms(2)]] assms(3-8)
  show "atomic_request E g0 T u uk who F xs s0 (with_namecache (bindA (foldA step xs (TransactionT_new, 0)) (\<lambda>(txn, n).
      bindA (onS (Commit E ct (txn\<lparr>tr_updater := nm\<rparr>) True)) (\<lambda>_. ret (f n)))) s)"
    unfolding atomic_request_def updates_def d(4-6) by (auto split: sum.split)
qed

end

section \<open>The services provide it\<close>

lemma onS_liftR: "onS (liftR m) (s, i) = (m s, (s, i))"
  by (simp add: onS_run)

lemma keeps_onS_liftR [keeps_intros]: "keeps P (onS (liftR m))"
  by (simp add: keeps_def onS_liftR split_paired_all)

lemma keeps_tableGet [keeps_intros]: "keeps P (tableGet E T r k)"
  by (simp add: tableGet_def keeps_onS_liftR)

lemma keeps_tableAdd [keeps_intros]: "keeps P (tableAdd E T r up t msg)"
  unfolding tableAdd_def by (intro keeps_intros)

lemma tableGet_Inr: "tableGet E T r k (s, i) = (Inr p, q) \<longleftrightarrow> GetOne E T (kv_get E (db s)) r k = Inr p \<and> q = (s, i)"
  by (auto simp: tableGet_def onS_liftR)

lemma tableAdd_Inr:
  "tableAdd E T r up t msg (s, i) = (Inr t', q) \<longleftrightarrow> AddRecord E T (kv_get E (db s)) r up t = Inr (True, t') \<and> q = (s, i)"
  by (auto simp: tableAdd_def bindA_Inr_iff onS_liftR throwIf_Inr_iff)

text \<open>The id of a new record.\<close>

definition number_record :: "bool \<Rightarrow> (64 word \<Rightarrow> 'r) \<Rightarrow> 'r \<Rightarrow> (('b, 'd) nstate, 'r) act" where
  "number_record found f r = (if \<not> found then bindA (onS GetNext_main) (\<lambda>i. ret (f i)) else ret r)"

lemma number_record_leads: "leads (calm E s0) (drawn E s0) (number_record found f r)"
proof -
  have "drawn E s0 (s\<lparr>maincounter := maincounter s + 1\<rparr>, i)" if "calm E s0 (s, i)" for s i
    using that caches_ok_frame [of "s\<lparr>maincounter := maincounter s + 1\<rparr>" s E] unfolding calm_def drawn_def steady_def by auto
  then show ?thesis
    by (auto simp: leads_def number_record_def calm_drawn bindA_def onS_run GetNext_main_def)
qed

text \<open>The rules for the steps, by the action in front.\<close>

lemma leads_throwIf [leads_intros]:
  "(\<And>x. leads (calm E s) (drawn E s) (f x)) \<Longrightarrow> leads (calm E s) (drawn E s) (bindA (throwIf b e) f)"
  by (rule leads_pre [OF keeps_throwIf calm_drawn])

lemma leads_claim_name [leads_intros]:
  "(\<And>x. leads (calm E s) (drawn E s) (f x)) \<Longrightarrow> leads (calm E s) (drawn E s) (bindA (claim_name E kt n d b) f)"
  by (rule leads_pre [OF calm_claim_name calm_drawn])

lemma leads_tableGet [leads_intros]:
  "(\<And>x. leads (calm E s) (drawn E s) (f x)) \<Longrightarrow> leads (calm E s) (drawn E s) (bindA (tableGet E T r k) f)"
  by (rule leads_pre [OF keeps_tableGet calm_drawn])

lemma leads_onS [leads_intros]:
  "keeps (steady E s) m \<Longrightarrow> (\<And>x. leads (calm E s) (drawn E s) (f x)) \<Longrightarrow> leads (calm E s) (drawn E s) (bindA (onS m) f)"
  by (rule leads_pre [OF calm_onS calm_drawn])

lemma leads_number_record [leads_intros]:
  "(\<And>x. keeps (drawn E s) (f x)) \<Longrightarrow> leads (calm E s) (drawn E s) (bindA (number_record found g r) f)"
  by (rule leads_post [OF number_record_leads])

lemma number_record_Inr:
  "number_record found f r (s, i) = (Inr q, (s', i')) \<longleftrightarrow> i' = i \<and>
    (if found then q = r \<and> s' = s else q = f (maincounter s + 1) \<and> s' = s\<lparr>maincounter := maincounter s + 1\<rparr>)"
  by (auto simp: number_record_def bindA_def onS_run GetNext_main_def)

lemma category_update_simps [simp]:
  "cat_id (category_update a m r t) = cat_id t" "cat_name (category_update a m r t) = cat_name t"
  by (simp_all add: category_update_def Let_def)

text \<open>What a writer \<open>w\<close> may make of the category the table has, if any, with the payload \<open>x\<close>: only an administrator or
  its manager changes a category; the manager and the time of its creation stay; a deletion marks it and
  leaves its contents; without \<open>merge\<close> its contents are those of the payload.\<close>

definition category_fits :: "int \<Rightarrow> bool \<Rightarrow> UserDataT \<Rightarrow> CategoryT \<Rightarrow> CategoryT option \<Rightarrow> CategoryT \<Rightarrow> bool" where
  "category_fits action merge w x old r \<longleftrightarrow> cat_name r = cat_name x \<and>
     (case old of
        None \<Rightarrow> action \<notin> {ZPDS_UACTION_UPDATE, ZPDS_UACTION_DELETE} \<and> cat_manager r = user_name w
      | Some c \<Rightarrow> action \<noteq> ZPDS_UACTION_CREATE \<and> (user_is_admin w \<or> cat_manager c = user_name w) \<and>
          cat_manager r = cat_manager c \<and> cat_created_at r = cat_created_at c \<and>
          (action = ZPDS_UACTION_DELETE \<longrightarrow> r = c\<lparr>cat_is_deleted := True, cat_updated_at := cat_updated_at r\<rparr>)) \<and>
     (action \<noteq> ZPDS_UACTION_DELETE \<and> \<not> merge \<longrightarrow> cat_lang r = cat_lang x \<and> cat_description r = cat_description x \<and>
        cat_cansee_type r = cat_cansee_type x \<and> cat_cansee_price r = cat_cansee_price x \<and> cat_is_deleted r = cat_is_deleted x)"

lemma category_step_leads: "leads (calm E s) (drawn E s) (category_step E ct updater action merge x a)"
proof -
  obtain txn n where a: "a = (txn, n)" by force
  show ?thesis
    unfolding a category_step_def prod.case number_record_def [symmetric]
    by (intro leads_intros keeps_intros)
qed

lemma category_step_ok:
  assumes "steady E s s" and "category_step E ct updater action merge x (txn, n) (s, ins) = (Inr (txn', n'), (s', ins'))"
  shows "n' = n + 1 \<and> category_key (cat_name x) \<notin> set ins \<and> set ins' = insert (category_key (cat_name x)) (set ins) \<and>
      (\<exists>r up. AddRecord E (CategoryTable E) (kv_get E (db s)) r up txn = Inr (True, txn') \<and>
        GetKey (CategoryTable E) r U_CATEGORY_NAME False = category_key (cat_name x) \<and>
        ((maincounter s' = maincounter s \<and> (\<exists>old. abs_table (CategoryTable E) (kv_get E (db s)) (cat_id r) = Some old \<and>
            GetKey (CategoryTable E) old U_CATEGORY_NAME False = category_key (cat_name x) \<and> category_fits action merge updater x (Some old) r)) \<or>
         (maincounter s' = maincounter s + 1 \<and> cat_id r = maincounter s + 1 \<and> category_fits action merge updater x None r)))"
proof -
  let ?T = "CategoryTable E" and ?d = "CategoryT_new\<lparr>cat_name := cat_name x\<rparr>"
  from assms(2) obtain s1 ins1 found tdata t1 where
    cl: "claim_name E K_CATEGORY (cat_name x) ''Duplicate category found: '' ''This category is being worked on: '' (s, ins) = (Inr (), (s1, ins1))"
    and ge: "GetOne E ?T (kv_get E (db s1)) ?d U_CATEGORY_NAME = Inr (found, tdata)"
    and nr: "number_record found (\<lambda>i. tdata\<lparr>cat_notfound := False, cat_id := i, cat_created_at := ct,
         cat_manager := user_name updater\<rparr>) tdata (s1, ins1) = (Inr t1, (s', ins'))"
    and ad: "AddRecord E ?T (kv_get E (db s')) ((category_update action merge x t1)\<lparr>cat_updated_at := ct\<rparr>) found txn = Inr (True, txn')"
    and n: "n' = n + 1"
    and g: "found \<Longrightarrow> user_is_admin updater \<or> cat_manager tdata = user_name updater" "found \<Longrightarrow> action \<noteq> ZPDS_UACTION_CREATE"
      "\<not> found \<Longrightarrow> action \<noteq> ZPDS_UACTION_UPDATE" "\<not> found \<Longrightarrow> action \<noteq> ZPDS_UACTION_DELETE"
    by (auto simp: category_step_def number_record_def [symmetric] bindA_Inr_iff throwIf_Inr_iff tableGet_Inr tableAdd_Inr)
  from claim_name_Inr [OF cl] obtain tc where c: "category_key (cat_name x) \<notin> set ins" "s1 = s\<lparr>tmpcache := tc\<rparr>"
    "set ins1 = insert (category_key (cat_name x)) (set ins)"
    by (auto simp: MakeKey_def category_key_def keytype_defs)
  have wf: "wf_table E ?T (kv_get E (db s))" using assms(1) by (simp add: steady_def tables_wf_def)
  have r: "records_ok ?T (kv_get E (db s))" using wf by (simp add: wf_table_def)
  have fd: "if found then abs_table ?T (kv_get E (db s)) (cat_id tdata) = Some tdata \<and> cat_name tdata = cat_name x else tdata = ?d"
    using category_tbl.GetOne_unique [OF wf, of U_CATEGORY_NAME ?d] ge c(2) category_tbl.abs_table_rid [OF r]
    by (auto simp: EncodeSecondaryKey_str_inject)
  let ?r = "(category_update action merge x t1)\<lparr>cat_updated_at := ct\<rparr>"
  have fit: "category_fits action merge updater x (if found then Some tdata else None) ?r"
    using nr fd g unfolding number_record_Inr category_fits_def
    by (auto simp: category_update_def Let_def CategoryT_new_def split: if_splits)
  show ?thesis
    using c n ad nr fd fit unfolding number_record_Inr
    by (intro conjI exI [of _ ?r] exI [of _ found]) (auto simp: category_key_def CategoryT_new_def split: if_splits)
qed

interpretation category_step: record_step "CategoryTable E" E "category_step E ct updater action merge" U_CATEGORY_NAME
  "\<lambda>x. category_key (cat_name x)" "category_fits action merge updater" "\<lambda>x. category_key (cat_name x)" "\<lambda>_. True"
  for E ct updater action merge
  using category_step_leads category_step_ok category_commit by unfold_locales simp_all

lemma sint_keytype:
  assumes "K_NONODE < k" and "k < K_LOGNODE"
  shows "sint (word_of_int k :: 32 word) = k"
  using assms by (simp add: keytype_defs sint_sbintrunc' signed_take_bit_int_eq_self)

lemma tag_key_inject:
  assumes "K_NONODE < k" and "k < K_LOGNODE" and "K_NONODE < l" and "l < K_LOGNODE"
  shows "tag_key k n = tag_key l m \<longleftrightarrow> k = l \<and> n = m"
proof -
  let ?w = "\<lambda>k. word_of_int k :: 32 word"
  have s: "sint (?w k) = k" "sint (?w l) = l" using sint_keytype assms by blast+
  then have r: "- (2 ^ 31) < sint (?w k)" "- (2 ^ 31) < sint (?w l)" using assms by (simp_all add: keytype_defs)
  have w: "?w k = ?w l \<longleftrightarrow> k = l" using s by metis
  show ?thesis
    using i32_key.enc_append_inject [OF r, of "MakeSuffix [AStr n]" "MakeSuffix [AStr m]"] w
    by (simp add: tag_key_def EncodeSecondaryKey_Cons)
qed

lemma tag_update_simps [simp]:
  "tag_id (tag_update a r t) = tag_id t" "tag_name (tag_update a r t) = tag_name t" "tag_keytype (tag_update a r t) = tag_keytype t"
  by (simp_all add: tag_update_def)

lemma tag_step_leads: "leads (calm E s) (drawn E s) (tag_step E ct updater action x a)"
proof -
  obtain txn n where a: "a = (txn, n)" by force
  show ?thesis
    unfolding a tag_step_def prod.case number_record_def [symmetric] by (intro leads_intros keeps_intros)
qed

definition tag_valid :: "TagDataT \<Rightarrow> bool" where
  "tag_valid x \<longleftrightarrow> K_NONODE < tag_keytype x \<and> tag_keytype x < K_LOGNODE"

definition tag_token :: "TagDataT \<Rightarrow> string" where
  "tag_token x = EncodeSecondaryKey U_TAGDATA_KEYTYPE_NAME [AStr (taginfo x)]"

lemma tag_token_key:
  "tag_valid x \<Longrightarrow> tag_valid y \<Longrightarrow> tag_key (tag_keytype x) (tag_name x) = tag_key (tag_keytype y) (tag_name y) \<Longrightarrow> tag_token x = tag_token y"
  by (simp add: tag_valid_def tag_key_inject tag_token_def taginfo_def)

definition tag_fits :: "int \<Rightarrow> UserDataT \<Rightarrow> TagDataT \<Rightarrow> TagDataT option \<Rightarrow> TagDataT \<Rightarrow> bool" where
  "tag_fits action w x old r \<longleftrightarrow>
     (case old of
        None \<Rightarrow> action \<notin> {ZPDS_UACTION_UPDATE, ZPDS_UACTION_DELETE} \<and> tag_manager r = user_name w \<and> tag_keytype r = tag_keytype x
      | Some t \<Rightarrow> action \<noteq> ZPDS_UACTION_CREATE \<and> (user_is_admin w \<or> tag_manager t = user_name w) \<and>
          tag_manager r = tag_manager t \<and> tag_created_at r = tag_created_at t \<and> tag_keytype r = tag_keytype t \<and>
          (action = ZPDS_UACTION_DELETE \<longrightarrow> r = t\<lparr>tag_is_deleted := True, tag_updated_at := tag_updated_at r\<rparr>)) \<and>
     (action \<noteq> ZPDS_UACTION_DELETE \<longrightarrow> tag_lang r = tag_lang x \<and> tag_is_allowed r = tag_is_allowed x \<and>
        tag_is_repeated r = tag_is_repeated x \<and> tag_is_searchable r = tag_is_searchable x \<and> tag_is_deleted r = tag_is_deleted x)"

lemma tag_step_ok:
  assumes "steady E s s" and "tag_step E ct updater action x (txn, n) (s, ins) = (Inr (txn', n'), (s', ins'))"
  shows "n' = n + 1 \<and> tag_valid x \<and> tag_token x \<notin> set ins \<and> set ins' = insert (tag_token x) (set ins) \<and>
      (\<exists>r up. AddRecord E (TagDataTable E) (kv_get E (db s)) r up txn = Inr (True, txn') \<and>
        GetKey (TagDataTable E) r U_TAGDATA_KEYTYPE_NAME False = tag_key (tag_keytype x) (tag_name x) \<and>
        ((maincounter s' = maincounter s \<and> (\<exists>old. abs_table (TagDataTable E) (kv_get E (db s)) (rid (TagDataTable E) r) = Some old \<and>
            GetKey (TagDataTable E) old U_TAGDATA_KEYTYPE_NAME False = tag_key (tag_keytype x) (tag_name x) \<and> tag_fits action updater x (Some old) r)) \<or>
         (maincounter s' = maincounter s + 1 \<and> rid (TagDataTable E) r = maincounter s + 1 \<and> tag_fits action updater x None r)))"
proof -
  let ?T = "TagDataTable E" and ?d = "TagDataT_new\<lparr>tag_name := tag_name x, tag_keytype := tag_keytype x\<rparr>"
  from assms(2) obtain s1 ins1 found tdata t1 where v: "tag_valid x" and
    cl: "claim_name E K_TAGDATA (taginfo x) ''Duplicate tag found: '' ''This tag is being worked on: '' (s, ins) = (Inr (), (s1, ins1))"
    and ge: "GetOne E ?T (kv_get E (db s1)) ?d U_TAGDATA_KEYTYPE_NAME = Inr (found, tdata)"
    and nr: "number_record found (\<lambda>i. tdata\<lparr>tag_notfound := False, tag_id := i, tag_created_at := ct,
         tag_manager := user_name updater\<rparr>) tdata (s1, ins1) = (Inr t1, (s', ins'))"
    and ad: "AddRecord E ?T (kv_get E (db s')) ((tag_update action x t1)\<lparr>tag_updated_at := ct\<rparr>) found txn = Inr (True, txn')"
    and n: "n' = n + 1"
    and g: "found \<Longrightarrow> user_is_admin updater \<or> tag_manager tdata = user_name updater" "found \<Longrightarrow> action \<noteq> ZPDS_UACTION_CREATE"
      "\<not> found \<Longrightarrow> action \<noteq> ZPDS_UACTION_UPDATE" "\<not> found \<Longrightarrow> action \<noteq> ZPDS_UACTION_DELETE"
    by (auto simp: tag_step_def number_record_def [symmetric] bindA_Inr_iff throwIf_Inr_iff tableGet_Inr tableAdd_Inr tag_valid_def)
  from claim_name_Inr [OF cl] obtain tc where c: "tag_token x \<notin> set ins" "s1 = s\<lparr>tmpcache := tc\<rparr>"
    "set ins1 = insert (tag_token x) (set ins)"
    by (auto simp: MakeKey_def tag_token_def keytype_defs)
  have wf: "wf_table E ?T (kv_get E (db s))" using assms(1) by (simp add: steady_def tables_wf_def)
  have r: "records_ok ?T (kv_get E (db s))" using wf by (simp add: wf_table_def)
  have fd: "if found then abs_table ?T (kv_get E (db s)) (tag_id tdata) = Some tdata \<and>
      GetKey ?T tdata U_TAGDATA_KEYTYPE_NAME False = tag_key (tag_keytype x) (tag_name x) else tdata = ?d"
    using tagdata_tbl.GetOne_unique [OF wf, of U_TAGDATA_KEYTYPE_NAME ?d] ge c(2) tagdata_tbl.abs_table_rid [OF r]
    by (auto simp: tag_key_def)
  let ?r = "(tag_update action x t1)\<lparr>tag_updated_at := ct\<rparr>"
  have fit: "tag_fits action updater x (if found then Some tdata else None) ?r"
    using nr fd g unfolding number_record_Inr tag_fits_def
    by (auto simp: tag_update_def TagDataT_new_def split: if_splits)
  show ?thesis
    using c n ad nr fd v fit unfolding number_record_Inr
    by (intro conjI exI [of _ ?r] exI [of _ found]) (auto simp: tag_key_def TagDataT_new_def split: if_splits)
qed

interpretation tag_step: record_step "TagDataTable E" E "tag_step E ct updater action" U_TAGDATA_KEYTYPE_NAME
  "\<lambda>x. tag_key (tag_keytype x) (tag_name x)" "tag_fits action updater" tag_token tag_valid
  for E ct updater action
proof (unfold_locales, goal_cases)
  case 1
  show ?case by simp
next
  case 2
  show ?case by (rule tag_step_leads)
next
  case 3
  then show ?case by (rule tag_step_ok)
next
  case 4
  then show ?case by (rule tag_token_key)
next
  case 5
  then show ?case by (rule tag_commit)
qed

end
