(* ===== verification/PrepareLaws.thy ===== *)
theory PrepareLaws
  imports ServiceLaws
begin

text \<open>
  Users, exters and items go through \<open>PrepareData\<close>: it finds the stored record by its name, or starts a new
  one, and writes the fields the request and the permissions allow. What it may make of the record is stated
  for each service by a predicate (\<open>user_prepared\<close>, \<open>exter_prepared\<close>, \<open>item_prepared\<close>): which fields stay
  whoever asks, which change for an administrator only, and that nothing changes for those without a right.
\<close>

section \<open>What an action can return\<close>

named_theorems yields_intros \<open>results of actions\<close>

definition yields :: "('a \<Rightarrow> bool) \<Rightarrow> ('s, 'a) act \<Rightarrow> bool" where
  "yields R m \<longleftrightarrow> (\<forall>s r s'. m s = (Inr r, s') \<longrightarrow> R r)"

lemma yieldsD: "yields R m \<Longrightarrow> m s = (Inr r, s') \<Longrightarrow> R r"
  unfolding yields_def by blast

lemma yields_ret [yields_intros]: "R x \<Longrightarrow> yields R (ret x)"
  by (simp add: yields_def ret_def)

lemma yields_bind:
  assumes "yields Q m" and "\<And>x. Q x \<Longrightarrow> yields R (f x)"
  shows "yields R (bindA m f)"
  using assms unfolding yields_def bindA_Inr_iff by blast

lemma yields_any [yields_intros]:
  assumes "\<And>x. yields R (f x)"
  shows "yields R (bindA m f)"
  by (rule yields_bind [where Q = "\<lambda>_. True", OF _ assms]) (simp add: yields_def)

lemma yields_whenA [yields_intros]: "R c \<Longrightarrow> (b \<Longrightarrow> R c \<Longrightarrow> yields R (f c)) \<Longrightarrow> yields R (whenA b f c)"
  by (simp add: whenA_def yields_ret)

lemma yields_prod [yields_intros]: "(\<And>a b. yields R (f a b)) \<Longrightarrow> yields R (case y of (a, b) \<Rightarrow> f a b)"
  by (cases y) simp

text \<open>The same of the actions that start in a known state: the checks in front leave it as it is.\<close>

definition yields_at :: "'s \<Rightarrow> ('a \<Rightarrow> bool) \<Rightarrow> ('s, 'a) act \<Rightarrow> bool" where
  "yields_at s R m \<longleftrightarrow> (\<forall>r s'. m s = (Inr r, s') \<longrightarrow> R r)"

lemma yields_atD: "yields_at s R m \<Longrightarrow> m s = (Inr r, s') \<Longrightarrow> R r"
  unfolding yields_at_def by blast

lemma yields_at_any: "yields R m \<Longrightarrow> yields_at s R m"
  by (simp add: yields_def yields_at_def)

lemma yields_at_throwIf: "(\<not> b \<Longrightarrow> yields_at s R (f ())) \<Longrightarrow> yields_at s R (bindA (throwIf b e) f)"
  by (auto simp: yields_at_def bindA_Inr_iff throwIf_Inr_iff)

lemma yields_at_liftR: "(\<And>x. h s = Inr x \<Longrightarrow> yields_at s R (f x)) \<Longrightarrow> yields_at s R (bindA (liftR h) f)"
  unfolding yields_at_def by (auto simp: bindA_Inr_iff liftR_def)

lemma yields_at_ret: "R x \<Longrightarrow> yields_at s R (ret x)"
  by (rule yields_at_any [OF yields_ret])

lemma yields_at_prod: "(\<And>a b. y = (a, b) \<Longrightarrow> yields_at s R (f a b)) \<Longrightarrow> yields_at s R (case y of (a, b) \<Rightarrow> f a b)"
  by (cases y) simp

lemma yields_at_if: "(b \<Longrightarrow> yields_at s R m) \<Longrightarrow> (\<not> b \<Longrightarrow> yields_at s R k) \<Longrightarrow> yields_at s R (if b then m else k)"
  by simp

lemmas yields_at_intros = yields_at_throwIf yields_at_liftR yields_at_prod yields_at_if yields_at_ret

lemma yields_mono: "yields Q m \<Longrightarrow> (\<And>x. Q x \<Longrightarrow> R x) \<Longrightarrow> yields R m"
  unfolding yields_def by blast

section \<open>Users and exters\<close>

text \<open>\<open>standing\<close>: the fields no edit changes. \<open>edit sec role any c r\<close>: \<open>r\<close> is \<open>c\<close> after an edit that may change the
  secrets if \<open>sec\<close>, the roles if \<open>role\<close>, and anything else if \<open>any\<close>.\<close>

definition standing :: "UserDataT \<Rightarrow> _" where
  "standing r = (user_id r, user_name r, user_is_admin r, user_locked r, user_expired r, user_is_deleted r, user_manager r,
     user_created_at r, user_last_otp r)"

definition secrets :: "UserDataT \<Rightarrow> string \<times> SignKeyT" where
  "secrets r = (user_passkey r, user_signkey r)"

definition roles :: "UserDataT \<Rightarrow> bool \<times> bool \<times> bool \<times> bool \<times> bool" where
  "roles r = (user_can_add_users r, user_can_add_tags r, user_can_add_category r, user_can_add_items r, user_can_add_profiles r)"

definition edit :: "bool \<Rightarrow> bool \<Rightarrow> bool \<Rightarrow> UserDataT \<Rightarrow> UserDataT \<Rightarrow> bool" where
  "edit sec role any c r \<longleftrightarrow> standing r = standing c \<and> (sec \<or> secrets r = secrets c) \<and> (role \<or> roles r = roles c) \<and> (any \<or> r = c)"

lemma edit_refl: "edit sec role any c c"
  by (simp add: edit_def)

lemma edit_mono: "edit sec role any c r \<Longrightarrow> (sec \<Longrightarrow> sec') \<Longrightarrow> (role \<Longrightarrow> role') \<Longrightarrow> (any \<Longrightarrow> any') \<Longrightarrow> edit sec' role' any' c r"
  by (auto simp: edit_def)

lemmas edit_defs = edit_def standing_def secrets_def roles_def

lemma has_zero [simp]: "\<not> has 0 x"
  by (simp add: has_def)

lemma may_zero [simp]: "\<not> may flds f 0 w"
  by (simp add: may_def)

lemma mayD: "may flds f perms w \<Longrightarrow> has perms w \<and> perms \<noteq> 0"
  by (auto simp: may_def)

definition unrelated :: "(UserDataT \<Rightarrow> UserDataT) \<Rightarrow> bool" where
  "unrelated f \<longleftrightarrow> (\<forall>c. standing (f c) = standing c \<and> secrets (f c) = secrets c \<and> roles (f c) = roles c)"

lemma unrelated_updates [simp]:
  "unrelated (\<lambda>c. c\<lparr>user_description := v\<rparr>)" "unrelated (\<lambda>c. c\<lparr>user_given_name := v\<rparr>)" "unrelated (\<lambda>c. c\<lparr>user_subscription := k\<rparr>)"
  "unrelated (\<lambda>c. c\<lparr>user_primary_mobile := v\<rparr>)" "unrelated (\<lambda>c. c\<lparr>user_primary_email := v\<rparr>)" "unrelated (\<lambda>c. c\<lparr>user_profiles := ps\<rparr>)"
  "unrelated (\<lambda>c. c\<lparr>user_is_invited := b\<rparr>)" "unrelated (\<lambda>c. c\<lparr>user_tags := ts\<rparr>)" "unrelated (\<lambda>c. c\<lparr>user_categories := cs\<rparr>)"
  by (simp_all add: unrelated_def standing_def secrets_def roles_def)

lemma edit_field: "edit sec role (perms \<noteq> 0) c0 c \<Longrightarrow> may flds f perms w \<Longrightarrow> unrelated upd \<Longrightarrow> edit sec role (perms \<noteq> 0) c0 (upd c)"
  using mayD [of flds f perms w] by (simp add: edit_def unrelated_def)

lemma edit_string:
  "edit sec role (perms \<noteq> 0) c0 c \<Longrightarrow> unrelated (upd v) \<Longrightarrow>
   edit sec role (perms \<noteq> 0) c0 (if may flds f perms w then handle_string merge v upd c else c)"
  by (auto simp: handle_string_def intro: edit_field)

lemma edit_enum:
  "edit sec role (perms \<noteq> 0) c0 c \<Longrightarrow> unrelated (upd v) \<Longrightarrow>
   edit sec role (perms \<noteq> 0) c0 (if may flds f perms w then handle_enum merge v upd c else c)"
  by (auto simp: handle_enum_def intro: edit_field)

lemma edit_user_plain:
  "edit sec role (perms \<noteq> 0) c0 c \<Longrightarrow> edit sec role (perms \<noteq> 0) c0 (user_plain_fields flds perms merge data c)"
  unfolding user_plain_fields_def Let_def by (intro edit_string edit_enum unrelated_updates)

lemma edit_exter_plain:
  assumes "edit sec (has perms ZPDS_WRTPED_ROLE) (perms \<noteq> 0) c0 c"
  shows "edit sec (has perms ZPDS_WRTPED_ROLE) (perms \<noteq> 0) c0 (exter_plain_fields flds perms merge data c)"
proof -
  have "edit sec (has perms ZPDS_WRTPED_ROLE) (perms \<noteq> 0) c0 (if may flds ZPDS_UDFLD_ROLE perms ZPDS_WRTPED_ROLE
      then c\<lparr>user_can_add_tags := user_can_add_tags data, user_can_add_category := user_can_add_category data,
        user_can_add_users := user_can_add_users data, user_can_add_items := user_can_add_items data\<rparr> else c)"
    using assms mayD [of flds ZPDS_UDFLD_ROLE perms ZPDS_WRTPED_ROLE] by (simp add: edit_def standing_def secrets_def)
  then show ?thesis unfolding exter_plain_fields_def Let_def by (intro edit_string unrelated_updates)
qed

lemma edit_signkey: "edit True role True c0 c \<Longrightarrow> yields (edit True role True c0) (new_signkey E c)"
  unfolding new_signkey_def by (intro yields_intros) (simp add: edit_defs)

lemma edit_passkey: "edit True role True c0 c \<Longrightarrow> yields (edit True role True c0) (set_passkey e merge data c)"
  unfolding set_passkey_def by (intro yields_intros) (simp add: edit_defs handle_string_def)

lemma edit_whenA:
  assumes "edit sec role (perms \<noteq> 0) c0 c" and "has perms w \<Longrightarrow> sec"
    and "\<And>c. edit True role True c0 c \<Longrightarrow> yields (edit True role True c0) (f c)"
  shows "yields (edit sec role (perms \<noteq> 0) c0) (whenA (may flds fld perms w) f c)"
proof (rule yields_whenA)
  show "edit sec role (perms \<noteq> 0) c0 c" by (rule assms(1))
  assume "may flds fld perms w" and e: "edit sec role (perms \<noteq> 0) c0 c"
  from mayD [OF this(1)] assms(2) have "sec" "perms \<noteq> 0" by simp_all
  with assms(3) [of c] e show "yields (edit sec role (perms \<noteq> 0) c0) (f c)" by simp
qed

lemma edit_user_lists:
  assumes "edit sec role (perms \<noteq> 0) c0 c"
  shows "yields (edit sec role (perms \<noteq> 0) c0) (user_list_fields E flds perms merge data c)"
  unfolding user_list_fields_def
  by (rule yields_bind [of "edit sec role (perms \<noteq> 0) c0"], rule yields_whenA, (assumption | rule assms), intro yields_intros,
      erule (1) edit_field, simp)+
    (rule yields_whenA, assumption, intro yields_intros, erule (1) edit_field, simp)

lemma edit_exter_lists:
  assumes "edit sec role (perms \<noteq> 0) c0 c"
  shows "yields (edit sec role (perms \<noteq> 0) c0) (exter_list_fields E flds perms merge data c)"
  unfolding exter_list_fields_def
  by (rule yields_bind [of "edit sec role (perms \<noteq> 0) c0"], rule yields_whenA, (assumption | rule assms), intro yields_intros,
      erule (1) edit_field, simp)+
    (rule yields_whenA, assumption, intro yields_intros, erule (1) edit_field, simp)


text \<open>Who may edit a record at all, by the permissions of the services; and what they make of the record \<open>c\<close> that was
  found, or of the blank one that carries the name. A deletion sets its marks whoever
  asks for it: the guard of that branch (\<open>UserDataService.cc\<close> line 247, \<open>ExterDataService.cc\<close> line 175) is a constant, see
  \<open>delete_guard\<close>. Without rights the record is not changed otherwise, but it is not refused either.\<close>

definition user_may_edit :: "UserDataT \<Rightarrow> bool \<Rightarrow> UserDataT \<Rightarrow> bool" where
  "user_may_edit w found c \<longleftrightarrow> user_is_admin w \<or> (user_keytype w = K_USERDATA \<and> user_name w = user_name c) \<or>
     (user_can_add_users w \<and> (found \<longrightarrow> user_name w = user_manager c))"

definition prepared :: "bool \<Rightarrow> bool \<Rightarrow> bool \<Rightarrow> UserDataT \<Rightarrow> int \<Rightarrow> UserDataT \<Rightarrow> bool \<Rightarrow> UserDataT \<Rightarrow> UserDataT \<Rightarrow> bool" where
  "prepared sec role any w action data found c r \<longleftrightarrow>
     (if found then action \<noteq> ZPDS_UACTION_CREATE \<and> (user_locked c \<longrightarrow> user_is_admin w)
      else action \<notin> {ZPDS_UACTION_UPDATE, ZPDS_UACTION_DELETE}) \<and>
     (if action = ZPDS_UACTION_DELETE
      then r = c\<lparr>user_is_deleted := user_is_deleted data, user_expired := user_expired data, user_locked := user_locked data\<rparr>
      else \<exists>c'. edit sec role any c c' \<and> (r = c' \<or> \<not> found \<and> r = c'\<lparr>user_notfound := False\<rparr>))"

definition user_prepared :: "UserDataT \<Rightarrow> int \<Rightarrow> UserDataT \<Rightarrow> bool \<Rightarrow> UserDataT \<Rightarrow> UserDataT \<Rightarrow> bool" where
  "user_prepared w action data found c = prepared (user_is_admin w \<or> \<not> found \<and> user_can_add_users w) False (user_may_edit w found c)
     w action data found c"

definition exter_prepared :: "UserDataT \<Rightarrow> int \<Rightarrow> UserDataT \<Rightarrow> bool \<Rightarrow> UserDataT \<Rightarrow> UserDataT \<Rightarrow> bool" where
  "exter_prepared w action data found c = prepared (user_is_admin w \<and> user_name w \<noteq> user_name data)
     (user_is_admin w \<and> user_name w \<noteq> user_name data) (user_is_admin w \<or> user_name w = user_name data) w action data found c"

lemma delete_guard: "(ZPDS_WRITR_IS_ADMIN OR ZPDS_WRITR_DELETING) \<noteq> 0" "ZPDS_WRITR_IS_ADMIN \<noteq> 0"
  by (simp_all add: service_defs)

lemma user_perms_flags:
  "has (user_perms w c found action) ZPDS_WRTPUD_SIGNKEY \<Longrightarrow> user_is_admin w \<or> \<not> found \<and> user_can_add_users w"
  "has (user_perms w c found action) ZPDS_WRTPUD_PASSKEY \<Longrightarrow> user_is_admin w \<or> \<not> found \<and> user_can_add_users w"
  "user_perms w c found action \<noteq> 0 \<Longrightarrow> user_may_edit w found c"
  by (auto simp: user_perms_def user_may_edit_def has_def service_defs split: if_splits)

lemma exter_perms_flags:
  "has (exter_perms w d) ZPDS_WRTPED_SIGNKEY \<Longrightarrow> user_is_admin w \<and> user_name w \<noteq> user_name d"
  "has (exter_perms w d) ZPDS_WRTPED_PASSKEY \<Longrightarrow> user_is_admin w \<and> user_name w \<noteq> user_name d"
  "has (exter_perms w d) ZPDS_WRTPED_ROLE \<Longrightarrow> user_is_admin w \<and> user_name w \<noteq> user_name d"
  "exter_perms w d \<noteq> 0 \<Longrightarrow> user_is_admin w \<or> user_name w = user_name d"
  by (auto simp: exter_perms_def has_def service_defs split: if_splits)

lemma edit_user_perms: "edit sec False (user_perms w c found action \<noteq> 0) c r \<Longrightarrow> edit sec False (user_may_edit w found c) c r"
  by (erule edit_mono) (auto dest: user_perms_flags)

lemma edit_exter_perms:
  "edit sec (has (exter_perms w d) ZPDS_WRTPED_ROLE) (exter_perms w d \<noteq> 0) c r \<Longrightarrow>
   edit sec (user_is_admin w \<and> user_name w \<noteq> user_name d) (user_is_admin w \<or> user_name w = user_name d) c r"
  by (erule edit_mono) (auto dest: exter_perms_flags)

lemma User_PrepareData_yields:
  "yields_at s (\<lambda>(found, r). \<exists>c. GetOne E (UserDataTable E) (kv_get E (db s)) (UserDataT_new\<lparr>user_name := user_name data\<rparr>) U_USERDATA_NAME = Inr (found, c) \<and>
      user_prepared updater action data found c r) (User_PrepareData E updater data action flds merge)"
proof -
  have tail: "yields (\<lambda>(found', r). found' = found \<and> (\<exists>c'. edit (user_is_admin w \<or> \<not> found \<and> user_can_add_users w) False (user_may_edit w found c) c c' \<and>
       (r = c' \<or> \<not> found \<and> r = c'\<lparr>user_notfound := False\<rparr>)))
     (bindA (whenA (may flds ZPDS_UDFLD_SIGNKEY (user_perms w c found action) ZPDS_WRTPUD_SIGNKEY) (new_signkey E) c) (\<lambda>c1.
       bindA (whenA (may flds ZPDS_UDFLD_PASSKEY (user_perms w c found action) ZPDS_WRTPUD_PASSKEY) (set_passkey M_INVALID_PARAM merge data) c1) (\<lambda>c2.
       bindA (user_list_fields E flds (user_perms w c found action) merge data (user_plain_fields flds (user_perms w c found action) merge data c2)) (\<lambda>c3.
       ret (found, if \<not> found \<and> new then c3\<lparr>user_notfound := False\<rparr> else c3)))))" for found c new w
    by (intro yields_bind [where Q = "edit (user_is_admin w \<or> \<not> found \<and> user_can_add_users w) False (user_perms w c found action \<noteq> 0) c"]
        edit_whenA edit_signkey edit_passkey edit_user_lists edit_user_plain edit_refl yields_ret)
      (simp_all add: user_perms_flags, auto dest!: edit_user_perms)
  show ?thesis
    unfolding User_PrepareData_def Let_def
    by (intro yields_at_intros; (rule yields_at_any [OF yields_mono [OF tail]])?) (auto simp: user_prepared_def prepared_def delete_guard)
qed

lemma Exter_PrepareData_yields:
  "yields_at s (\<lambda>(found, r). \<exists>c. GetOne E (ExterDataTable E) (kv_get E (db s)) (UserDataT_new\<lparr>user_name := user_name data\<rparr>) U_EXTERDATA_NAME = Inr (found, c) \<and>
      exter_prepared updater action data found c r) (Exter_PrepareData E updater data action flds merge)"
proof -
  have tail: "yields (\<lambda>(found', r). found' = found \<and> (\<exists>c'. edit (user_is_admin w \<and> user_name w \<noteq> user_name data)
       (user_is_admin w \<and> user_name w \<noteq> user_name data) (user_is_admin w \<or> user_name w = user_name data) c c' \<and>
       (r = c' \<or> \<not> found \<and> r = c'\<lparr>user_notfound := False\<rparr>)))
     (bindA (whenA (may flds ZPDS_UDFLD_SIGNKEY (exter_perms w data) ZPDS_WRTPED_SIGNKEY) (new_signkey E) c) (\<lambda>c1.
       bindA (whenA (may flds ZPDS_UDFLD_PASSKEY (exter_perms w data) ZPDS_WRTPED_PASSKEY) (set_passkey 0 merge data) c1) (\<lambda>c2.
       bindA (exter_list_fields E flds (exter_perms w data) merge data (exter_plain_fields flds (exter_perms w data) merge data c2)) (\<lambda>c3.
       ret (found, if \<not> found \<and> new then c3\<lparr>user_notfound := False\<rparr> else c3)))))" for found c new w
    by (intro yields_bind [where Q = "edit (user_is_admin w \<and> user_name w \<noteq> user_name data) (has (exter_perms w data) ZPDS_WRTPED_ROLE) (exter_perms w data \<noteq> 0) c"]
        edit_whenA edit_signkey edit_passkey edit_exter_lists edit_exter_plain edit_refl yields_ret)
      (simp_all add: exter_perms_flags, auto dest!: edit_exter_perms)
  show ?thesis
    unfolding Exter_PrepareData_def Let_def
    by (intro yields_at_intros; (rule yields_at_any [OF yields_mono [OF tail]])?) (auto simp: exter_prepared_def prepared_def delete_guard)
qed

section \<open>Items\<close>

text \<open>The fields of an item no edit changes.\<close>

definition item_standing :: "ItemDataT \<Rightarrow> _" where
  "item_standing r = (item_id r, item_unique_id r, item_manager r, item_created_at r, item_locked r, item_expired r, item_is_deleted r)"

definition item_edit :: "bool \<Rightarrow> ItemDataT \<Rightarrow> ItemDataT \<Rightarrow> bool" where
  "item_edit any c r \<longleftrightarrow> item_standing r = item_standing c \<and> (any \<or> r = c)"

lemma item_edit_refl: "item_edit any c c"
  by (simp add: item_edit_def)

lemma item_edit_trans: "item_edit any a b \<Longrightarrow> item_edit any b c \<Longrightarrow> item_edit any a c"
  by (auto simp: item_edit_def)

lemma fold_keeps: "(\<And>f c. f \<in> set fs \<Longrightarrow> P (f c) = P c) \<Longrightarrow> P (apply_all fs c) = P c"
  unfolding apply_all_def by (induction fs arbitrary: c) auto

lemma apply_all_edit: "(\<And>f c. f \<in> set fs \<Longrightarrow> item_edit any c (f c)) \<Longrightarrow> item_edit any c (apply_all fs c)"
  unfolding apply_all_def by (induction fs arbitrary: c) (auto intro: item_edit_refl item_edit_trans)

lemma doWhen_edit:
  assumes "\<And>c. item_standing (f c) = item_standing c"
  shows "item_edit (perms \<noteq> 0) c (doWhen (may flds fld perms w) f c)"
  using assms mayD [of flds fld perms w] by (auto simp: doWhen_def item_edit_def)

lemma handle_string_frame: "(\<And>v c. P (upd v c) = P c) \<Longrightarrow> P (handle_string merge x upd c) = P c"
  by (simp add: handle_string_def)

lemma handle_enum_frame: "(\<And>v c. P (upd v c) = P c) \<Longrightarrow> P (handle_enum merge x upd c) = P c"
  by (simp add: handle_enum_def)

lemma handle_number_frame: "(\<And>v c. P (upd v c) = P c) \<Longrightarrow> P (handle_number merge x upd c) = P c"
  by (simp add: handle_number_def)

lemmas handle_frames = handle_string_frame handle_enum_frame handle_number_frame

lemma text_fields_frame: "item_standing (text_fields merge data c) = item_standing c"
  unfolding text_fields_def by (rule fold_keeps) (auto simp: handle_string_def item_standing_def split: if_splits)

lemma local_fields_frame: "item_standing (local_fields merge data c) = item_standing c"
  unfolding local_fields_def by (rule fold_keeps) (auto simp: handle_string_def handle_number_def item_standing_def split: if_splits)

lemma image_fields_frame: "item_standing (image_fields merge data c) = item_standing c"
  unfolding image_fields_def apply_all_def item_standing_def
  by (simp add: Let_def handle_frames [where P = item_id] handle_frames [where P = item_unique_id] handle_frames [where P = item_manager]
    handle_frames [where P = item_created_at] handle_frames [where P = item_locked] handle_frames [where P = item_expired] handle_frames [where P = item_is_deleted])

lemma osm_fields_frame: "item_standing (osm_fields merge data c) = item_standing c"
  unfolding osm_fields_def apply_all_def item_standing_def
  by (simp add: Let_def handle_frames [where P = item_id] handle_frames [where P = item_unique_id] handle_frames [where P = item_manager]
    handle_frames [where P = item_created_at] handle_frames [where P = item_locked] handle_frames [where P = item_expired] handle_frames [where P = item_is_deleted])

lemmas block_frames = text_fields_frame local_fields_frame image_fields_frame osm_fields_frame

lemma item_fields2_edit: "item_edit (perms \<noteq> 0) c (item_fields2 flds perms merge data c)"
  unfolding item_fields2_def
  by (rule apply_all_edit) (auto intro!: doWhen_edit block_frames simp: handle_enum_def, auto simp: item_standing_def)

lemma item_fields4_edit: "item_edit (perms \<noteq> 0) c (item_fields4 flds perms merge data c)"
  unfolding item_fields4_def
  by (rule apply_all_edit) (auto intro!: doWhen_edit block_frames simp: handle_string_def handle_number_def, auto simp: item_standing_def)

lemma item_field:
  "item_edit (perms \<noteq> 0) c0 c \<Longrightarrow> may flds f perms w \<Longrightarrow> item_standing c' = item_standing c \<Longrightarrow> item_edit (perms \<noteq> 0) c0 c'"
  using mayD [of flds f perms w] by (simp add: item_edit_def)

lemma item_fields1_edit: "yields (item_edit (perms \<noteq> 0) c) (item_fields1 E kt flds perms merge data c)"
  unfolding item_fields1_def Let_def
proof (rule yields_bind [of "item_edit (perms \<noteq> 0) c"])
  fix c1 assume c1: "item_edit (perms \<noteq> 0) c c1"
  have "item_edit (perms \<noteq> 0) c1 (doWhen (may flds ZPDS_IDFLD_ORIGIN perms ZPDS_WRTPID_ORIGIN)
      (handle_string merge (item_origin data) (\<lambda>v c. c\<lparr>item_origin := v\<rparr>)) c1)"
    by (rule doWhen_edit) (simp add: handle_string_def item_standing_def)
  with c1 have "item_edit (perms \<noteq> 0) c (doWhen (may flds ZPDS_IDFLD_ORIGIN perms ZPDS_WRTPID_ORIGIN)
      (handle_string merge (item_origin data) (\<lambda>v c. c\<lparr>item_origin := v\<rparr>)) c1)" by (rule item_edit_trans)
  then show "yields (item_edit (perms \<noteq> 0) c) (whenA (may flds ZPDS_IDFLD_TAGS perms ZPDS_WRTPID_TAGS)
      (\<lambda>c. bindA (HandleUserTags E (item_tags data) (item_tags c) [kt] merge) (\<lambda>(_, ts). ret (c\<lparr>item_tags := ts\<rparr>)))
      (doWhen (may flds ZPDS_IDFLD_ORIGIN perms ZPDS_WRTPID_ORIGIN)
      (handle_string merge (item_origin data) (\<lambda>v c. c\<lparr>item_origin := v\<rparr>)) c1))"
    by (rule yields_whenA) (intro yields_intros, erule (1) item_field, simp add: item_standing_def)
qed (rule yields_whenA, rule item_edit_refl, intro yields_intros, erule (1) item_field, simp add: item_standing_def)

lemma optional_field:
  assumes "(if may flds f perms w then bindR h (\<lambda>(_, v). Inr (upd v c)) else Inr c) = Inr r" and "\<And>v. item_standing (upd v c) = item_standing c"
  shows "item_edit (perms \<noteq> 0) c r"
  using assms mayD [of flds f perms w] by (auto simp: bindR_Inr_iff item_edit_def split: if_splits)

lemma item_fields3_edit:
  assumes "item_fields3 E g flds perms merge data c = Inr r"
  shows "item_edit (perms \<noteq> 0) c r"
proof -
  from assms obtain c1 c2 where
    r: "(if may flds ZPDS_IDFLD_CONTACTS perms ZPDS_WRTPID_CONTACTS
      then bindR (HandleContacts (item_contacts data) (item_contacts c) merge) (\<lambda>(_, vs). Inr (c\<lparr>item_contacts := vs\<rparr>)) else Inr c) = Inr c1"
    "(if may flds ZPDS_IDFLD_PARENT perms ZPDS_WRTPID_PARENT
      then bindR (HandleAnother E g (item_parent data) (item_parent c1) merge) (\<lambda>(_, p). Inr (c1\<lparr>item_parent := p\<rparr>)) else Inr c1) = Inr c2"
    "(if may flds ZPDS_IDFLD_ALIAS perms ZPDS_WRTPID_ALIAS
     then bindR (HandleAnother E g (item_alias data) (item_alias c2) merge) (\<lambda>(_, a). Inr (c2\<lparr>item_alias := a\<rparr>)) else Inr c2) = Inr r"
    unfolding item_fields3_def bindR_Inr_iff by blast
  have "item_edit (perms \<noteq> 0) c c1"
    by (rule optional_field [where upd = "\<lambda>v x. x\<lparr>item_contacts := v\<rparr>", OF r(1)]) (simp add: item_standing_def)
  moreover have "item_edit (perms \<noteq> 0) c1 c2"
    by (rule optional_field [where upd = "\<lambda>v x. x\<lparr>item_parent := v\<rparr>", OF r(2)]) (simp add: item_standing_def)
  moreover have "item_edit (perms \<noteq> 0) c2 r"
    by (rule optional_field [where upd = "\<lambda>v x. x\<lparr>item_alias := v\<rparr>", OF r(3)]) (simp add: item_standing_def)
  ultimately show ?thesis by (blast intro: item_edit_trans)
qed

definition item_may_edit :: "UserDataT \<Rightarrow> bool \<Rightarrow> ItemDataT \<Rightarrow> bool" where
  "item_may_edit w found c \<longleftrightarrow> user_is_admin w \<or> (user_can_add_items w \<and> (found \<longrightarrow> user_name w = item_manager c))"

text \<open>An item that is found remembers its origin and its categories of before, and a deletion sets its marks, whoever asks: the
  former comes before the rights are looked at (\<open>ItemDataService.cc\<close> line 355), the guard of the latter is a constant (line 342).\<close>

definition item_prepared :: "UserDataT \<Rightarrow> int \<Rightarrow> ItemDataT \<Rightarrow> bool \<Rightarrow> ItemDataT \<Rightarrow> ItemDataT \<Rightarrow> bool" where
  "item_prepared w action data found c r \<longleftrightarrow>
     (if found then action \<noteq> ZPDS_UACTION_CREATE \<and> (item_locked c \<longrightarrow> user_is_admin w)
      else action \<notin> {ZPDS_UACTION_UPDATE, ZPDS_UACTION_DELETE}) \<and>
     (if action = ZPDS_UACTION_DELETE
      then r = c\<lparr>item_is_deleted := item_is_deleted data, item_expired := item_expired data, item_locked := item_locked data\<rparr>
      else \<exists>c'. item_edit (item_may_edit w found c)
          (if found then c\<lparr>item_olddata := \<lparr>ch_origin = item_origin c, ch_categories = item_categories c\<rparr>\<rparr> else c) c' \<and>
        (r = c' \<or> \<not> found \<and> r = c'\<lparr>item_notfound := False\<rparr>))"

lemma item_perms_flags: "item_perms w c found action \<noteq> 0 \<Longrightarrow> item_may_edit w found c"
  by (auto simp: item_perms_def item_may_edit_def split: if_splits)

lemma item_edit_perms: "item_edit (item_perms w c found action \<noteq> 0) c0 r \<Longrightarrow> item_edit (item_may_edit w found c) c0 r"
  using item_perms_flags by (auto simp: item_edit_def)

lemma Item_PrepareData_yields:
  "yields_at s (\<lambda>(found, r). item_unique_id data \<noteq> [] \<and> (\<exists>c. isv_GetOneRecord S (kv_get E (db s)) (ItemDataT_new\<lparr>item_unique_id := item_unique_id data\<rparr>) = Inr (found, c) \<and>
      item_prepared updater action data found c r)) (Item_PrepareData E S updater data action flds merge)"
proof -
  have tail: "yields (\<lambda>(found', r). found' = found \<and> (\<exists>c'. item_edit (item_may_edit w found c) c0 c' \<and>
        (r = c' \<or> \<not> found \<and> r = c'\<lparr>item_notfound := False\<rparr>)))
     (bindA (item_fields1 E kt flds (item_perms w c found action) merge data c0) (\<lambda>c1.
       bindA (liftR (\<lambda>s. item_fields3 E (kv_get E (db s)) flds (item_perms w c found action) merge data (item_fields2 flds (item_perms w c found action) merge data c1))) (\<lambda>c3.
       ret (found, if \<not> found \<and> new then (item_fields4 flds (item_perms w c found action) merge data c3)\<lparr>item_notfound := False\<rparr>
         else item_fields4 flds (item_perms w c found action) merge data c3))))"
    for found c c0 kt new w
  proof (intro yields_bind [where Q = "item_edit (item_perms w c found action \<noteq> 0) c0"] item_fields1_edit yields_ret)
    fix c1 assume c1: "item_edit (item_perms w c found action \<noteq> 0) c0 c1"
    show "yields (item_edit (item_perms w c found action \<noteq> 0) c0) (liftR (\<lambda>s. item_fields3 E (kv_get E (db s)) flds (item_perms w c found action) merge data
        (item_fields2 flds (item_perms w c found action) merge data c1)))"
      using item_edit_trans [OF c1 item_edit_trans [OF item_fields2_edit item_fields3_edit]] by (auto simp: yields_def liftR_def)
  next
    fix c3 assume c3: "item_edit (item_perms w c found action \<noteq> 0) c0 c3"
    from item_edit_perms [OF item_edit_trans [OF c3 item_fields4_edit [of _ c3 flds merge data]]]
    show "case (found, if \<not> found \<and> new then (item_fields4 flds (item_perms w c found action) merge data c3)\<lparr>item_notfound := False\<rparr>
         else item_fields4 flds (item_perms w c found action) merge data c3) of (found', r) \<Rightarrow> found' = found \<and>
         (\<exists>c'. item_edit (item_may_edit w found c) c0 c' \<and> (r = c' \<or> \<not> found \<and> r = c'\<lparr>item_notfound := False\<rparr>))" by auto
  qed
  show ?thesis
    unfolding Item_PrepareData_def Let_def
    by (intro yields_at_intros; (rule yields_at_any [OF yields_mono [OF tail]])?) (auto simp: item_prepared_def delete_guard)
qed

end
