(* ===== verification/RequestLaws.thy ===== *)
theory RequestLaws
  imports PrepareLaws
begin

text \<open>
  The steps of users, exters and items are providers of \<open>record_step\<close> as well, by one lemma on a step that
  prepares a record, claims its name, numbers it when it is new and adds it to the transaction.
\<close>

section \<open>A prepared record is claimed, numbered and added\<close>

context table_laws
begin

lemma claimed_record:
  assumes "steady E s s" and wf: "wf_table E T (kv_get E (db s))"
    and u: "unique_keys T = [u]" "\<And>x. GetKey T x u False = EncodeSecondaryKey u [AStr (nm x)]"
    and prep: "keeps (steady E s) prep" "prep s = (Inr (found, r), s1)"
    and get: "GetOne E T (kv_get E (db s)) d u = Inr (found, c)" "rid T r = rid T c" "nm r = nm c"
    and claim: "claim_name E kt (nm r) a b (s1, ins) = (Inr (), (s2, ins2))" "\<And>n. MakeKey kt n = Inr (EncodeSecondaryKey u [AStr n])"
    and num: "number_record found f r (s2, ins2) = (Inr r1, (s', ins'))" "\<And>i. rid T (f i) = i" "\<And>i. nm (f i) = nm r"
    and add: "AddRecord E T (kv_get E (db s')) (upd r1) found txn = Inr (True, txn')" "rid T (upd r1) = rid T r1" "nm (upd r1) = nm r1"
    and k: "k = EncodeSecondaryKey u [AStr (nm d)]"
    and fit: "found \<Longrightarrow> fit (Some c) (upd r)" "\<And>i. \<not> found \<Longrightarrow> c = d \<Longrightarrow> fit None (upd (f i))"
  shows "k \<notin> set ins \<and> set ins' = insert k (set ins) \<and>
    (\<exists>r up. AddRecord E T (kv_get E (db s)) r up txn = Inr (True, txn') \<and> GetKey T r u False = k \<and>
        ((maincounter s' = maincounter s \<and> (\<exists>old. abs_table T (kv_get E (db s)) (rid T r) = Some old \<and> GetKey T old u False = k \<and> fit (Some old) r)) \<or>
         (maincounter s' = maincounter s + 1 \<and> rid T r = maincounter s + 1 \<and> fit None r)))"
proof -
  from keepsD [OF prep(1) assms(1)] prep(2) have s1: "db s1 = db s" "maincounter s1 = maincounter s" by (simp_all add: steady_def)
  from claim_name_Inr [OF claim(1)] obtain tc where c: "EncodeSecondaryKey u [AStr (nm r)] \<notin> set ins" "s2 = s1\<lparr>tmpcache := tc\<rparr>"
    "set ins2 = insert (EncodeSecondaryKey u [AStr (nm r)]) (set ins)" by (auto simp: claim(2))
  have ro: "records_ok T (kv_get E (db s))" using wf by (simp add: wf_table_def)
  have fd: "if found then abs_table T (kv_get E (db s)) (rid T c) = Some c \<and> nm c = nm d else c = d"
    using GetOne_unique [OF wf, of u d] get(1) abs_table_rid [OF ro] by (auto simp: u EncodeSecondaryKey_str_inject)
  then have nm: "nm r = nm d" using get(3) by (auto split: if_splits)
  show ?thesis
    using c num add fd get(2) s1 fit unfolding number_record_Inr
    by (intro conjI exI [of _ "upd r1"] exI [of _ found]) (auto simp: k nm u(2) get(3) split: if_splits)
qed

end

section \<open>Users\<close>

text \<open>The record a request writes: the prepared one, with the manager, the number and the time for a new one.\<close>

definition user_fits :: "int \<Rightarrow> UserDataT \<Rightarrow> UserDataT \<Rightarrow> UserDataT option \<Rightarrow> UserDataT \<Rightarrow> bool" where
  "user_fits action w x old r \<longleftrightarrow> user_name x = SanitNSLower (user_name x) \<and> (\<exists>p ct. (case old of
     Some c \<Rightarrow> user_prepared w action x True c p \<and> r = p\<lparr>user_updated_at := ct\<rparr>
   | None \<Rightarrow> user_prepared w action x False (UserDataT_new\<lparr>user_name := user_name x\<rparr>) p \<and> user_name x \<notin> set ZPDS_FORBIDDEN_USERNAMES \<and>
       r = p\<lparr>user_manager := user_name w, user_id := user_id r, user_created_at := ct, user_updated_at := ct\<rparr>))"

lemma user_step_leads: "leads (calm E s) (drawn E s) (user_step E ct updater action flds merge x a)"
proof -
  obtain txn n where a: "a = (txn, n)" by force
  show ?thesis
    unfolding a user_step_def prod.case number_record_def [symmetric]
    by (intro leads_intros keeps_intros steady_intros)
qed

lemma user_step_ok:
  assumes "steady E s s" and "user_step E ct updater action flds merge x (txn, n) (s, ins) = (Inr (txn', n'), (s', ins'))"
  shows "n' = n + 1 \<and> True \<and> user_key (user_name x) \<notin> set ins \<and> set ins' = insert (user_key (user_name x)) (set ins) \<and>
      (\<exists>r up. AddRecord E (UserDataTable E) (kv_get E (db s)) r up txn = Inr (True, txn') \<and>
        GetKey (UserDataTable E) r U_USERDATA_NAME False = user_key (user_name x) \<and>
        ((maincounter s' = maincounter s \<and> (\<exists>old. abs_table (UserDataTable E) (kv_get E (db s)) (rid (UserDataTable E) r) = Some old \<and>
            GetKey (UserDataTable E) old U_USERDATA_NAME False = user_key (user_name x) \<and> user_fits action updater x (Some old) r)) \<or>
         (maincounter s' = maincounter s + 1 \<and> rid (UserDataTable E) r = maincounter s + 1 \<and> user_fits action updater x None r)))"
proof -
  let ?d = "UserDataT_new\<lparr>user_name := user_name x\<rparr>"
  from assms(2) obtain found r s1 ins2 s2 r1 where
    pr: "User_PrepareData E updater x action flds merge s = (Inr (found, r), s1)"
    and cl: "claim_name E K_USERDATA (user_name r) ''Duplicate name found: '' ''This name is being worked on: '' (s1, ins) = (Inr (), (s2, ins2))"
    and nr: "number_record found (\<lambda>i. r\<lparr>user_manager := user_name updater, user_id := i, user_created_at := ct\<rparr>) r (s2, ins2) = (Inr r1, (s', ins'))"
    and ad: "AddRecord E (UserDataTable E) (kv_get E (db s')) (r1\<lparr>user_updated_at := ct\<rparr>) found txn = Inr (True, txn')" and n: "n' = n + 1"
    and x: "user_name x = SanitNSLower (user_name x)" "\<not> found \<Longrightarrow> user_name r \<notin> set ZPDS_FORBIDDEN_USERNAMES"
    by (auto simp: user_step_def number_record_def [symmetric] bindA_Inr_iff throwIf_Inr_iff tableAdd_Inr onS_Inr_iff)
  from yields_atD [OF User_PrepareData_yields pr] obtain c where
    c: "GetOne E (UserDataTable E) (kv_get E (db s)) ?d U_USERDATA_NAME = Inr (found, c)" "user_prepared updater action x found c r"
    by auto
  have id: "user_id r = user_id c" "user_name r = user_name c"
    using c(2) by (auto simp: user_prepared_def prepared_def edit_def standing_def split: if_splits)
  have f1: "user_fits action updater x (Some c) (r\<lparr>user_updated_at := ct\<rparr>)" if found
    using c(2) that x(1) unfolding user_fits_def by (intro conjI exI [of _ r] exI [of _ ct]) auto
  have f2: "user_fits action updater x None (r\<lparr>user_manager := user_name updater, user_id := i, user_created_at := ct, user_updated_at := ct\<rparr>)"
    if "\<not> found" "c = ?d" for i
    using c(2) that x id(2) unfolding user_fits_def by (intro conjI exI [of _ r] exI [of _ ct]) auto
  have wf: "wf_table E (UserDataTable E) (kv_get E (db s))" using assms(1) by (simp add: steady_def tables_wf_def)
  have "user_key (user_name x) = EncodeSecondaryKey U_USERDATA_NAME [AStr (user_name ?d)]" by (simp add: user_key_def)
  from userdata_tbl.claimed_record [where nm = user_name and upd = "\<lambda>r. r\<lparr>user_updated_at := ct\<rparr>" and fit = "user_fits action updater x", OF assms(1) wf _ _ steady_User_PrepareData pr c(1) _ id(2) cl _ nr _ _ ad _ _ this] n id(1) f1 f2
  show ?thesis by (simp add: MakeKey_def keytype_defs UserDataTable_def UserDataTable_GetKey_def)
qed

interpretation user_step: record_step "UserDataTable E" E "user_step E ct updater action flds merge" U_USERDATA_NAME
  "\<lambda>x. user_key (user_name x)" "user_fits action updater" "\<lambda>x. user_key (user_name x)" "\<lambda>_. True"
  for E ct updater action flds merge
proof (unfold_locales, goal_cases)
  case 1
  show ?case by simp
next
  case 2
  show ?case by (rule user_step_leads)
next
  case 3
  then show ?case by (rule user_step_ok)
next
  case 4
  then show ?case by simp
next
  case 5
  then show ?case by (rule user_commit)
qed

section \<open>Exters\<close>

definition exter_fits :: "int \<Rightarrow> UserDataT \<Rightarrow> UserDataT \<Rightarrow> UserDataT option \<Rightarrow> UserDataT \<Rightarrow> bool" where
  "exter_fits action w x old r \<longleftrightarrow> user_name x = SanitNSLower (user_name x) \<and> (\<exists>p ct. (case old of
     Some c \<Rightarrow> exter_prepared w action x True c p \<and> r = p\<lparr>user_updated_at := ct\<rparr>
   | None \<Rightarrow> exter_prepared w action x False (UserDataT_new\<lparr>user_name := user_name x\<rparr>) p \<and> user_name x \<notin> set ZPDS_FORBIDDEN_USERNAMES \<and>
       r = p\<lparr>user_manager := user_name w, user_id := user_id r, user_created_at := ct, user_updated_at := ct\<rparr>))"

lemma exter_step_leads: "leads (calm E s) (drawn E s) (exter_step E ct updater action flds merge x a)"
proof -
  obtain txn n where a: "a = (txn, n)" by force
  show ?thesis
    unfolding a exter_step_def prod.case number_record_def [symmetric]
    by (intro leads_intros keeps_intros steady_intros)
qed

lemma exter_step_ok:
  assumes "steady E s s" and "exter_step E ct updater action flds merge x (txn, n) (s, ins) = (Inr (txn', n'), (s', ins'))"
  shows "n' = n + 1 \<and> True \<and> exter_key (user_name x) \<notin> set ins \<and> set ins' = insert (exter_key (user_name x)) (set ins) \<and>
      (\<exists>r up. AddRecord E (ExterDataTable E) (kv_get E (db s)) r up txn = Inr (True, txn') \<and>
        GetKey (ExterDataTable E) r U_EXTERDATA_NAME False = exter_key (user_name x) \<and>
        ((maincounter s' = maincounter s \<and> (\<exists>old. abs_table (ExterDataTable E) (kv_get E (db s)) (rid (ExterDataTable E) r) = Some old \<and>
            GetKey (ExterDataTable E) old U_EXTERDATA_NAME False = exter_key (user_name x) \<and> exter_fits action updater x (Some old) r)) \<or>
         (maincounter s' = maincounter s + 1 \<and> rid (ExterDataTable E) r = maincounter s + 1 \<and> exter_fits action updater x None r)))"
proof -
  let ?d = "UserDataT_new\<lparr>user_name := user_name x\<rparr>"
  from assms(2) obtain found r s1 ins2 s2 r1 where
    pr: "Exter_PrepareData E updater x action flds merge s = (Inr (found, r), s1)"
    and cl: "claim_name E K_EXTERDATA (user_name r) ''Duplicate name found: '' ''This name is being worked on: '' (s1, ins) = (Inr (), (s2, ins2))"
    and nr: "number_record found (\<lambda>i. r\<lparr>user_manager := user_name updater, user_id := i, user_created_at := ct\<rparr>) r (s2, ins2) = (Inr r1, (s', ins'))"
    and ad: "AddRecord E (ExterDataTable E) (kv_get E (db s')) (r1\<lparr>user_updated_at := ct\<rparr>) found txn = Inr (True, txn')" and n: "n' = n + 1"
    and x: "user_name x = SanitNSLower (user_name x)" "\<not> found \<Longrightarrow> user_name r \<notin> set ZPDS_FORBIDDEN_USERNAMES"
    by (auto simp: exter_step_def number_record_def [symmetric] bindA_Inr_iff throwIf_Inr_iff tableAdd_Inr onS_Inr_iff)
  from yields_atD [OF Exter_PrepareData_yields pr] obtain c where
    c: "GetOne E (ExterDataTable E) (kv_get E (db s)) ?d U_EXTERDATA_NAME = Inr (found, c)" "exter_prepared updater action x found c r"
    by auto
  have id: "user_id r = user_id c" "user_name r = user_name c"
    using c(2) by (auto simp: exter_prepared_def prepared_def edit_def standing_def split: if_splits)
  have f1: "exter_fits action updater x (Some c) (r\<lparr>user_updated_at := ct\<rparr>)" if found
    using c(2) that x(1) unfolding exter_fits_def by (intro conjI exI [of _ r] exI [of _ ct]) auto
  have f2: "exter_fits action updater x None (r\<lparr>user_manager := user_name updater, user_id := i, user_created_at := ct, user_updated_at := ct\<rparr>)"
    if "\<not> found" "c = ?d" for i
    using c(2) that x id(2) unfolding exter_fits_def by (intro conjI exI [of _ r] exI [of _ ct]) auto
  have wf: "wf_table E (ExterDataTable E) (kv_get E (db s))" using assms(1) by (simp add: steady_def tables_wf_def)
  have "exter_key (user_name x) = EncodeSecondaryKey U_EXTERDATA_NAME [AStr (user_name ?d)]" by (simp add: exter_key_def)
  from exterdata_tbl.claimed_record [where nm = user_name and upd = "\<lambda>r. r\<lparr>user_updated_at := ct\<rparr>" and fit = "exter_fits action updater x", OF assms(1) wf _ _ steady_Exter_PrepareData pr c(1) _ id(2) cl _ nr _ _ ad _ _ this] n id(1) f1 f2
  show ?thesis by (simp add: MakeKey_def keytype_defs ExterDataTable_def ExterDataTable_GetKey_def)
qed

interpretation exter_step: record_step "ExterDataTable E" E "exter_step E ct updater action flds merge" U_EXTERDATA_NAME
  "\<lambda>x. exter_key (user_name x)" "exter_fits action updater" "\<lambda>x. exter_key (user_name x)" "\<lambda>_. True"
  for E ct updater action flds merge
proof (unfold_locales, goal_cases)
  case 1
  show ?case by simp
next
  case 2
  show ?case by (rule exter_step_leads)
next
  case 3
  then show ?case by (rule exter_step_ok)
next
  case 4
  then show ?case by simp
next
  case 5
  then show ?case by (rule exter_commit)
qed

section \<open>Items\<close>

text \<open>A service on items is backed by a table when it finds by the unique id and adds records there.\<close>

definition backed :: "('b, 'd) env \<Rightarrow> 'b item_service \<Rightarrow> (ItemDataT, 'b) table \<Rightarrow> keytype \<Rightarrow> bool" where
  "backed E S T u \<longleftrightarrow> table_laws T \<and> unique_keys T = [u] \<and> rid T = item_id \<and>
     (\<forall>x. GetKey T x u False = EncodeSecondaryKey u [AStr (item_unique_id x)]) \<and>
     (\<forall>n. MakeKey (isv_GetKeyType S) n = Inr (EncodeSecondaryKey u [AStr n])) \<and>
     (\<forall>g d. item_unique_id d \<noteq> [] \<longrightarrow> isv_GetOneRecord S g d = GetOne E T g d u) \<and> isv_AddOneRecord S = AddRecord E T"

lemma backed_Local: "backed E (LocalDataService E) (LocalDataTable E) U_LOCALDATA_UNIQUEID"
  unfolding backed_def LocalDataService_def
  by (intro conjI localdata_tbl.table_laws_axioms)
    (auto simp: MakeKey_def keytype_defs Local_GetOneRecord_def LocalDataTable_def LocalDataTable_GetKey_def)

lemma backed_Wiki: "backed E (WikiDataService E) (WikiDataTable E) U_WIKIDATA_UNIQUEID"
  unfolding backed_def WikiDataService_def
  by (intro conjI wikidata_tbl.table_laws_axioms)
    (auto simp: MakeKey_def keytype_defs Wiki_GetOneRecord_def WikiDataTable_def WikiDataTable_GetKey_def)

definition item_fits :: "int \<Rightarrow> UserDataT \<Rightarrow> ItemDataT \<Rightarrow> ItemDataT option \<Rightarrow> ItemDataT \<Rightarrow> bool" where
  "item_fits action w x old r \<longleftrightarrow> (\<exists>p ct. (case old of
     Some c \<Rightarrow> item_prepared w action x True c p \<and> r = p\<lparr>item_updated_at := ct\<rparr>
   | None \<Rightarrow> item_prepared w action x False (ItemDataT_new\<lparr>item_unique_id := item_unique_id x\<rparr>) p \<and>
       r = p\<lparr>item_manager := user_name w, item_id := item_id r, item_created_at := ct, item_updated_at := ct\<rparr>))"

lemma item_step_leads: "leads (calm E s) (drawn E s) (item_step E S ct updater action flds merge x a)"
proof -
  obtain txn n where a: "a = (txn, n)" by force
  show ?thesis
    unfolding a item_step_def prod.case number_record_def [symmetric]
    by (intro leads_intros keeps_intros steady_intros)
qed

lemma item_step_ok:
  assumes "steady E s s" and bk: "backed E S T u" and wf: "wf_table E T (kv_get E (db s))"
    and "item_step E S ct updater action flds merge x (txn, n) (s, ins) = (Inr (txn', n'), (s', ins'))"
  shows "n' = n + 1 \<and> True \<and> EncodeSecondaryKey u [AStr (item_unique_id x)] \<notin> set ins \<and>
      set ins' = insert (EncodeSecondaryKey u [AStr (item_unique_id x)]) (set ins) \<and>
      (\<exists>r up. AddRecord E T (kv_get E (db s)) r up txn = Inr (True, txn') \<and>
        GetKey T r u False = EncodeSecondaryKey u [AStr (item_unique_id x)] \<and>
        ((maincounter s' = maincounter s \<and> (\<exists>old. abs_table T (kv_get E (db s)) (rid T r) = Some old \<and>
            GetKey T old u False = EncodeSecondaryKey u [AStr (item_unique_id x)] \<and> item_fits action updater x (Some old) r)) \<or>
         (maincounter s' = maincounter s + 1 \<and> rid T r = maincounter s + 1 \<and> item_fits action updater x None r)))"
proof -
  let ?d = "ItemDataT_new\<lparr>item_unique_id := item_unique_id x\<rparr>"
  have T: "table_laws T" "unique_keys T = [u]" "rid T = item_id" "\<And>x. GetKey T x u False = EncodeSecondaryKey u [AStr (item_unique_id x)]"
    "\<And>n. MakeKey (isv_GetKeyType S) n = Inr (EncodeSecondaryKey u [AStr n])" "isv_AddOneRecord S = AddRecord E T"
    "\<And>g d. item_unique_id d \<noteq> [] \<Longrightarrow> isv_GetOneRecord S g d = GetOne E T g d u" using bk by (auto simp: backed_def)
  from assms(4) obtain found r s1 ins2 s2 r1 where
    pr: "Item_PrepareData E S updater x action flds merge s = (Inr (found, r), s1)"
    and cl: "claim_name E (isv_GetKeyType S) (item_unique_id r) ''Duplicate unique_id found: '' ''This unique_id is being worked on: '' (s1, ins) = (Inr (), (s2, ins2))"
    and nr: "number_record found (\<lambda>i. r\<lparr>item_manager := user_name updater, item_id := i, item_created_at := ct\<rparr>) r (s2, ins2) = (Inr r1, (s', ins'))"
    and ad: "AddRecord E T (kv_get E (db s')) (r1\<lparr>item_updated_at := ct\<rparr>) found txn = Inr (True, txn')" and n: "n' = n + 1"
    by (auto simp: item_step_def number_record_def [symmetric] bindA_Inr_iff throwIf_Inr_iff onS_Inr_iff T(6) onS_liftR)
  from yields_atD [OF Item_PrepareData_yields pr] obtain c where
    c: "GetOne E T (kv_get E (db s)) ?d u = Inr (found, c)" "item_prepared updater action x found c r"
    by (auto simp: T(7))
  have id: "item_id r = item_id c" "item_unique_id r = item_unique_id c"
    using c(2) by (auto simp: item_prepared_def item_edit_def item_standing_def split: if_splits)
  have f1: "item_fits action updater x (Some c) (r\<lparr>item_updated_at := ct\<rparr>)" if found
    using c(2) that unfolding item_fits_def by (intro exI [of _ r] exI [of _ ct]) auto
  have f2: "item_fits action updater x None (r\<lparr>item_manager := user_name updater, item_id := i, item_created_at := ct, item_updated_at := ct\<rparr>)"
    if "\<not> found" "c = ?d" for i
    using c(2) that unfolding item_fits_def by (intro exI [of _ r] exI [of _ ct]) auto
  have k: "EncodeSecondaryKey u [AStr (item_unique_id x)] = EncodeSecondaryKey u [AStr (item_unique_id ?d)]" by simp
  from table_laws.claimed_record [where nm = item_unique_id and upd = "\<lambda>r. r\<lparr>item_updated_at := ct\<rparr>" and fit = "item_fits action updater x",
      OF T(1) assms(1) wf T(2,4) steady_Item_PrepareData pr c(1) _ id(2) cl T(5) nr _ _ ad _ _ k] n id(1) f1 f2
  show ?thesis by (simp add: T(3))
qed

interpretation local_step: record_step "LocalDataTable E" E "item_step E (LocalDataService E) ct updater action flds merge" U_LOCALDATA_UNIQUEID
  "\<lambda>x. EncodeSecondaryKey U_LOCALDATA_UNIQUEID [AStr (item_unique_id x)]" "item_fits action updater" "\<lambda>x. EncodeSecondaryKey U_LOCALDATA_UNIQUEID [AStr (item_unique_id x)]" "\<lambda>_. True"
  for E ct updater action flds merge
proof (unfold_locales, goal_cases)
  case 1
  show ?case by simp
next
  case 2
  show ?case by (rule item_step_leads)
next
  case (3 s)
  then show ?case by (intro item_step_ok [OF _ backed_Local]) (simp_all add: steady_def tables_wf_def)
next
  case 4
  then show ?case by simp
next
  case 5
  then show ?case by (rule local_commit)
qed

interpretation wiki_step: record_step "WikiDataTable E" E "item_step E (WikiDataService E) ct updater action flds merge" U_WIKIDATA_UNIQUEID
  "\<lambda>x. EncodeSecondaryKey U_WIKIDATA_UNIQUEID [AStr (item_unique_id x)]" "item_fits action updater" "\<lambda>x. EncodeSecondaryKey U_WIKIDATA_UNIQUEID [AStr (item_unique_id x)]" "\<lambda>_. True"
  for E ct updater action flds merge
proof (unfold_locales, goal_cases)
  case 1
  show ?case by simp
next
  case 2
  show ?case by (rule item_step_leads)
next
  case (3 s)
  then show ?case by (intro item_step_ok [OF _ backed_Wiki]) (simp_all add: steady_def tables_wf_def)
next
  case 4
  then show ?case by simp
next
  case 5
  then show ?case by (rule wiki_commit)
qed

end
