(* ===== verification/SystemLaws.thy ===== *)
theory SystemLaws
  imports RequestLaws
begin

text \<open>
  The node as a whole. Every request that changes data either does what it was asked, in its table alone, or
  changes neither data nor log; whatever its outcome the invariant of the node holds after it: the log
  reproduces the data, the tables are consistent, their ids are below the counter and the caches agree with
  the tables.
\<close>

section \<open>The state a request starts in\<close>

lemma take_payload_length: "length (dr_payloads (take_payload name new resp)) \<le> length (dr_payloads resp) + 1"
  by (simp add: take_payload_def Let_def)

definition room :: "('b, 'd) shared \<Rightarrow> 'm list \<Rightarrow> bool" where
  "room s ms \<longleftrightarrow> unat (maincounter s) + length ms + 1 < 2 ^ 64 \<and> logcounter s + 1 \<noteq> 0"

lemma room_take: "room s (dr_payloads resp) \<Longrightarrow> unat (maincounter s) + length (dr_payloads (take_payload name new resp)) < 2 ^ 64"
  using take_payload_length [of name new resp] by (simp add: room_def)

lemma inv_steady: "env_ok E \<Longrightarrow> sys_inv E g0 s \<Longrightarrow> steady E s s"
  by (simp add: steady_def env_ok_def sys_inv_def)

lemma inv_below:
  assumes "sys_inv E g0 s"
  shows "ids_below (TagDataTable E) (kv_get E (db s)) (maincounter s)" "ids_below (CategoryTable E) (kv_get E (db s)) (maincounter s)"
    "ids_below (ExterDataTable E) (kv_get E (db s)) (maincounter s)" "ids_below (UserDataTable E) (kv_get E (db s)) (maincounter s)"
    "ids_below (LocalDataTable E) (kv_get E (db s)) (maincounter s)" "ids_below (WikiDataTable E) (kv_get E (db s)) (maincounter s)"
  using sys_invD(3) [OF assms] by (simp_all add: tables_below_def)

lemma inv_wf:
  assumes "sys_inv E g0 s"
  shows "wf_table E (ExterDataTable E) (kv_get E (db s))" "wf_table E (UserDataTable E) (kv_get E (db s))"
  using sys_invD(2) [OF assms] by (simp_all add: tables_wf_def)

section \<open>Who a request acts for\<close>

lemma agrees_coherent:
  assumes "cache_agrees E T pack s" and "u \<in> set (unique_keys T)" and "rcodec T = c_user E"
    and "\<And>x. GetKey T x u False = key (user_name x)" and "\<And>n m. key n = key m \<longleftrightarrow> n = m"
  shows "coherent E T key pack s"
  unfolding coherent_def
proof (intro allI impI)
  fix n v assume "dbcache s (key n) = Some v"
  then have "dbcache s (GetKey T (UserDataT_new\<lparr>user_name := n\<rparr>) u False) = Some v" by (simp add: assms(4))
  with assms(1,2) obtain i r where "abs_table T (kv_get E (db s)) i = Some r"
    "GetKey T r u False = GetKey T (UserDataT_new\<lparr>user_name := n\<rparr>) u False" "v = ser (rcodec T) (pack r)"
    unfolding cache_agrees_def by blast
  then show "\<exists>r. has_user T (kv_get E (db s)) n r \<and> v = ser (c_user E) (pack r)"
    by (auto simp: has_user_def assms(3-5))
qed

lemma inv_sessions:
  assumes "env_ok E" and "sys_inv E g0 s"
  shows "exter_inv E s" and "user_inv E s"
proof -
  have ca: "cache_agrees E (ExterDataTable E) Exter_Pack s" "cache_agrees E (UserDataTable E) User_Pack s"
    using sys_invD(4) [OF assms(2)] by (simp_all add: caches_ok_def)
  have "coherent E (ExterDataTable E) exter_key Exter_Pack s"
    by (rule agrees_coherent [OF ca(1), of U_EXTERDATA_NAME]) (simp_all, simp add: exter_key_def)
  moreover have "coherent E (UserDataTable E) user_key User_Pack s"
    by (rule agrees_coherent [OF ca(2), of U_USERDATA_NAME]) (simp_all, simp add: user_key_def)
  ultimately show "exter_inv E s" "user_inv E s"
    using assms(1) inv_wf [OF assms(2)] by (simp_all add: exter_inv_def user_inv_def env_ok_def)
qed

text \<open>How every \<open>ManageDataAction\<close> begins: on a master, with a known action, for a session that holds.\<close>

lemma request_begin:
  assumes "env_ok E" and "sys_inv E g0 s" and "aborts E s Q"
    and "\<And>a mg w. is_master s \<Longrightarrow> WriteActionFilter act = Inr (a, mg) \<Longrightarrow> acts_as E s kt n key w \<Longrightarrow>
      kt = K_EXTERDATA \<or> kt = K_USERDATA \<and> \<not> oa \<Longrightarrow> handles E s Q (k a mg w)"
  shows "Q (bindA (readA is_master) (\<lambda>m. bindA (throwIf (\<not> m) e) (\<lambda>_. bindA (liftR (\<lambda>_. WriteActionFilter act)) (\<lambda>(a, mg).
      bindA (session_of E n key kt oa bad) (\<lambda>w. k a mg w)))) s)"
proof -
  have st: "steady E s s" by (rule inv_steady [OF assms(1,2)])
  have ab: "Q (Inl x, t)" if "steady E s t" for x t using assms(3) that by (simp add: aborts_def)
  obtain r t where r: "session_of E n key kt oa bad s = (r, t)" by force
  from keepsD [OF steady_session_of st, of n key kt oa bad] r have t: "steady E s t" by simp
  show ?thesis
  proof (cases "is_master s \<and> (\<exists>a mg w. WriteActionFilter act = Inr (a, mg) \<and> r = Inr w)")
    case True
    then obtain a mg w where w: "is_master s" "WriteActionFilter act = Inr (a, mg)" "r = Inr w" by blast
    from session_of_sound [OF inv_sessions [OF assms(1,2)] r [unfolded w(3)]] assms(4) [OF w(1,2)]
    have "handles E s Q (k a mg w)" by blast
    with t have "Q (k a mg w t)" by (simp add: handles_def)
    with w r show ?thesis by (simp add: run_simps bindA_step [where m = "session_of E n key kt oa bad", OF r [unfolded w(3)]])
  next
    case False
    then show ?thesis
      using r ab st t by (cases r; cases "WriteActionFilter act") (auto simp: run_simps bindA_throws [where m = "session_of E n key kt oa bad"])
  qed
qed

text \<open>What a request asked for: its action, with a service's account of what the action may make of a record.\<close>

definition asked :: "'m DataRespT \<Rightarrow> (int \<Rightarrow> bool \<Rightarrow> UserDataT \<Rightarrow> 'x \<Rightarrow> 'r option \<Rightarrow> 'r \<Rightarrow> bool) \<Rightarrow> UserDataT \<Rightarrow> 'x \<Rightarrow> 'r option \<Rightarrow> 'r \<Rightarrow> bool" where
  "asked resp F w x old r \<longleftrightarrow> (\<exists>a mg. WriteActionFilter (dr_action resp) = Inr (a, mg) \<and> F a mg w x old r)"

lemma asked_eq: "WriteActionFilter (dr_action resp) = Inr (a, mg) \<Longrightarrow> asked resp F w = F a mg w"
  by (simp add: asked_def fun_eq_iff)

definition session_by :: "('b, 'd) env \<Rightarrow> ('b, 'd) shared \<Rightarrow> keytype \<Rightarrow> 'm DataRespT \<Rightarrow> UserDataT \<Rightarrow> bool" where
  "session_by E s kt resp w \<longleftrightarrow> acts_as E s kt (dr_username resp) (dr_sessionkey resp) w"

section \<open>Requests that change data\<close>

lemma Category_ManageDataAction_run:
  assumes "env_ok E" and "sys_inv E g0 s" and "room s (dr_payloads resp)"
  shows "atomic_request E g0 (CategoryTable E) U_CATEGORY_NAME (\<lambda>x. category_key (cat_name x))
    (\<lambda>w. session_by E s K_EXTERDATA resp w \<and> (user_is_admin w \<or> user_can_add_category w)) (asked resp category_fits)
    (dr_payloads (take_payload cat_name CategoryT_new resp)) s (Category_ManageDataAction E resp s)"
proof -
  have l: "logcounter s + 1 \<noteq> 0" using assms(3) by (simp add: room_def)
  note ab = aborts_atomic [OF assms(2)]
  note mh = category_step.manage_handles [OF assms(1,2) room_take [OF assms(3)] l inv_below(2) [OF assms(2)] _ _ asked_eq]
  show ?thesis
    unfolding Category_ManageDataAction_def Let_def
    by (rule request_begin [OF assms(1,2) ab], intro handles_throwIf [OF ab] handles_bind [OF ab steady_CURRTIME] mh) (auto simp: session_by_def)
qed

text \<open>C8: A request to change categories is atomic. When it throws, data and log are untouched. When it succeeds, the requester held
  a session of an administrator or of an exter who may add categories, one record per payload was put in, under the payload's name
  and such as \<open>category_fits\<close> allows the requester, and no other table was touched. The invariant of the node holds in both cases.\<close>

theorem Category_ManageDataAction_atomic:
  assumes "env_ok E" and "sys_inv E g0 s" and "room s (dr_payloads resp)"
  shows "atomic_request E g0 (CategoryTable E) U_CATEGORY_NAME (\<lambda>x. category_key (cat_name x))
    (\<lambda>w. session_by E s K_EXTERDATA resp w \<and> (user_is_admin w \<or> user_can_add_category w)) (asked resp category_fits)
    (dr_payloads (take_payload cat_name CategoryT_new resp)) s (Category_ManageDataAction E resp s)"
  by (rule Category_ManageDataAction_run [OF assms])

lemma TagData_ManageDataAction_run:
  assumes "env_ok E" and "sys_inv E g0 s" and "room s (dr_payloads resp)"
  shows "atomic_request E g0 (TagDataTable E) U_TAGDATA_KEYTYPE_NAME (\<lambda>x. tag_key (tag_keytype x) (tag_name x))
    (\<lambda>w. session_by E s K_EXTERDATA resp w \<and> (user_is_admin w \<or> user_can_add_tags w)) (asked resp (\<lambda>a _. tag_fits a))
    (dr_payloads (take_payload tag_name TagDataT_new resp)) s (TagData_ManageDataAction E resp s)"
proof -
  have l: "logcounter s + 1 \<noteq> 0" using assms(3) by (simp add: room_def)
  note ab = aborts_atomic [OF assms(2)]
  note mh = tag_step.manage_handles [OF assms(1,2) room_take [OF assms(3)] l inv_below(1) [OF assms(2)] _ _ asked_eq]
  show ?thesis
    unfolding TagData_ManageDataAction_def Let_def
    by (rule request_begin [OF assms(1,2) ab], intro handles_throwIf [OF ab] handles_bind [OF ab steady_CURRTIME] mh) (auto simp: session_by_def)
qed

text \<open>C22: The same for requests to change tags: the requester is an administrator or may add tags, and the unique key of a tag is its type and its name.\<close>

theorem TagData_ManageDataAction_atomic:
  assumes "env_ok E" and "sys_inv E g0 s" and "room s (dr_payloads resp)"
  shows "atomic_request E g0 (TagDataTable E) U_TAGDATA_KEYTYPE_NAME (\<lambda>x. tag_key (tag_keytype x) (tag_name x))
    (\<lambda>w. session_by E s K_EXTERDATA resp w \<and> (user_is_admin w \<or> user_can_add_tags w)) (asked resp (\<lambda>a _. tag_fits a))
    (dr_payloads (take_payload tag_name TagDataT_new resp)) s (TagData_ManageDataAction E resp s)"
  by (rule TagData_ManageDataAction_run [OF assms])

lemma Exter_ManageDataAction_run:
  assumes "env_ok E" and "sys_inv E g0 s" and "room s (dr_payloads resp)"
  shows "atomic_request E g0 (ExterDataTable E) U_EXTERDATA_NAME (\<lambda>x. exter_key (user_name x))
    (\<lambda>w. session_by E s K_EXTERDATA resp w) (asked resp (\<lambda>a _. exter_fits a))
    (dr_payloads (take_payload user_name UserDataT_new resp)) s (Exter_ManageDataAction E resp s)"
proof -
  have l: "logcounter s + 1 \<noteq> 0" using assms(3) by (simp add: room_def)
  note ab = aborts_atomic [OF assms(2)]
  note mh = exter_step.manage_handles [OF assms(1,2) room_take [OF assms(3)] l inv_below(3) [OF assms(2)] _ _ asked_eq]
  show ?thesis
    unfolding Exter_ManageDataAction_def Let_def
    by (rule request_begin [OF assms(1,2) ab], intro handles_bind [OF ab steady_CURRTIME] mh) (auto simp: session_by_def)
qed

text \<open>C21: The same for requests to change exters; what becomes of a record is \<open>exter_fits\<close>. Except for \<open>DELETE\<close>, standing fields
  stay, passkey, key and roles change for an administrator other than the exter himself only (nobody changes his own, against
  the documents), and other fields for administrators and the exter himself only; a record that nothing may change is written
  all the same. With \<open>DELETE\<close> nothing but the marks
  deleted, expired and locked changes, and those whoever asks, unless the record is locked and he is no administrator: the code
  tests a constant there instead of the rights.\<close>

theorem Exter_ManageDataAction_atomic:
  assumes "env_ok E" and "sys_inv E g0 s" and "room s (dr_payloads resp)"
  shows "atomic_request E g0 (ExterDataTable E) U_EXTERDATA_NAME (\<lambda>x. exter_key (user_name x))
    (\<lambda>w. session_by E s K_EXTERDATA resp w) (asked resp (\<lambda>a _. exter_fits a))
    (dr_payloads (take_payload user_name UserDataT_new resp)) s (Exter_ManageDataAction E resp s)"
  by (rule Exter_ManageDataAction_run [OF assms])

lemma User_ManageDataAction_run:
  assumes "env_ok E" and "sys_inv E g0 s" and "room s (dr_payloads resp)"
  shows "atomic_request E g0 (UserDataTable E) U_USERDATA_NAME (\<lambda>x. user_key (user_name x))
    (\<lambda>w. session_by E s (dr_keytype resp) resp w) (asked resp (\<lambda>a _. user_fits a))
    (dr_payloads (take_payload user_name UserDataT_new resp)) s (User_ManageDataAction E resp s)"
proof -
  have l: "logcounter s + 1 \<noteq> 0" using assms(3) by (simp add: room_def)
  note ab = aborts_atomic [OF assms(2)]
  note mh = user_step.manage_handles [OF assms(1,2) room_take [OF assms(3)] l inv_below(4) [OF assms(2)] _ _ asked_eq]
  show ?thesis
    unfolding User_ManageDataAction_def Let_def
    by (rule request_begin [OF assms(1,2) ab], intro handles_bind [OF ab steady_CURRTIME] mh) (auto simp: session_by_def)
qed


lemma Local_ManageDataAction_atomic:
  assumes "env_ok E" and "sys_inv E g0 s" and "room s (dr_payloads resp)"
  shows "atomic_request E g0 (LocalDataTable E) U_LOCALDATA_UNIQUEID (\<lambda>x. EncodeSecondaryKey U_LOCALDATA_UNIQUEID [AStr (item_unique_id x)])
    (\<lambda>w. session_by E s K_EXTERDATA resp w) (asked resp (\<lambda>a _. item_fits a))
    (dr_payloads (take_payload item_unique_id ItemDataT_new resp)) s (Item_ManageDataAction E (LocalDataService E) resp s)"
proof -
  have l: "logcounter s + 1 \<noteq> 0" using assms(3) by (simp add: room_def)
  note ab = aborts_atomic [OF assms(2)]
  note mh = local_step.manage_handles [OF assms(1,2) room_take [OF assms(3)] l inv_below(5) [OF assms(2)] _ _ asked_eq]
  show ?thesis
    unfolding Item_ManageDataAction_def Let_def
    by (rule request_begin [OF assms(1,2) ab], intro handles_bind [OF ab steady_CURRTIME] mh) (auto simp: session_by_def)
qed

lemma Wiki_ManageDataAction_atomic:
  assumes "env_ok E" and "sys_inv E g0 s" and "room s (dr_payloads resp)"
  shows "atomic_request E g0 (WikiDataTable E) U_WIKIDATA_UNIQUEID (\<lambda>x. EncodeSecondaryKey U_WIKIDATA_UNIQUEID [AStr (item_unique_id x)])
    (\<lambda>w. session_by E s K_EXTERDATA resp w) (asked resp (\<lambda>a _. item_fits a))
    (dr_payloads (take_payload item_unique_id ItemDataT_new resp)) s (Item_ManageDataAction E (WikiDataService E) resp s)"
proof -
  have l: "logcounter s + 1 \<noteq> 0" using assms(3) by (simp add: room_def)
  note ab = aborts_atomic [OF assms(2)]
  note mh = wiki_step.manage_handles [OF assms(1,2) room_take [OF assms(3)] l inv_below(6) [OF assms(2)] _ _ asked_eq]
  show ?thesis
    unfolding Item_ManageDataAction_def Let_def
    by (rule request_begin [OF assms(1,2) ab], intro handles_bind [OF ab steady_CURRTIME] mh) (auto simp: session_by_def)
qed

text \<open>C12: The same for requests to change local items and wiki items, whose unique key is the unique id. Except for
  \<open>DELETE\<close>, an item is edited for an administrator, or for its manager if he may add items; but \<open>olddata\<close>, its origin and
  categories of before, is rewritten for whoever asks, and so is the time of the change. With \<open>DELETE\<close> nothing but the marks
  deleted, expired and locked changes, and those whoever asks, unless the record is locked and he is no administrator: the code
  tests a constant there instead of the rights.\<close>

theorem Item_ManageDataAction_atomic:
  assumes "env_ok E" and "sys_inv E g0 s" and "room s (dr_payloads resp)"
  shows "atomic_request E g0 (LocalDataTable E) U_LOCALDATA_UNIQUEID (\<lambda>x. EncodeSecondaryKey U_LOCALDATA_UNIQUEID [AStr (item_unique_id x)])
    (\<lambda>w. session_by E s K_EXTERDATA resp w) (asked resp (\<lambda>a _. item_fits a))
    (dr_payloads (take_payload item_unique_id ItemDataT_new resp)) s (Item_ManageDataAction E (LocalDataService E) resp s) \<and>
    atomic_request E g0 (WikiDataTable E) U_WIKIDATA_UNIQUEID (\<lambda>x. EncodeSecondaryKey U_WIKIDATA_UNIQUEID [AStr (item_unique_id x)])
    (\<lambda>w. session_by E s K_EXTERDATA resp w) (asked resp (\<lambda>a _. item_fits a))
    (dr_payloads (take_payload item_unique_id ItemDataT_new resp)) s (Item_ManageDataAction E (WikiDataService E) resp s)"
  by (intro conjI Local_ManageDataAction_atomic [OF assms] Wiki_ManageDataAction_atomic [OF assms])

section \<open>Requests on one record\<close>

context table_laws
begin

lemma batch_one:
  assumes "AddRecord E T g r up TransactionT_new = Inr (True, t)" and "rid T r \<le> m"
    and "\<And>x u. abs_table T g (rid T r) = Some x \<Longrightarrow> u \<in> set (unique_keys T) \<Longrightarrow> GetKey T x u False = GetKey T r u False"
  shows "batch E T g m [r] t"
  using assms adds_Cons [OF assms(1) adds_Nil] by (simp add: batch_def)

end

text \<open>What resetting a password promises: a failure changes nothing, a success replaces the passkey of the one
  record of that name. The last alternative is what the code does, not what it should do.\<close>

definition reset_effect :: "('b, 'd) env \<Rightarrow> 'b lookup \<Rightarrow> (UserDataT, 'b) table \<Rightarrow> ResetRespT \<Rightarrow> ('b, 'd) shared \<Rightarrow>
    ResetRespT res \<times> ('b, 'd) shared \<Rightarrow> bool" where
  "reset_effect E g0 T resp s p \<longleftrightarrow> sys_inv E g0 (snd p) \<and> maincounter (snd p) = maincounter s \<and> (case fst p of
     Inl e \<Rightarrow> db (snd p) = db s \<and> logcounter (snd p) = logcounter s
   | Inr y \<Rightarrow> (\<exists>i old t. abs_table T (kv_get E (db s)) i = Some old \<and> user_name old = rr_username resp \<and> rr_newpass resp \<noteq> [] \<and>
       (rr_oldpass resp \<noteq> [] \<and> rr_otp resp = [] \<and> user_passkey old = rr_oldpass resp \<or>
        rr_otp resp \<noteq> [] \<and> rr_oldpass resp = [] \<and> user_last_otp old = rr_otp resp \<or>
        rr_oldpass resp \<noteq> [] \<and> rr_otp resp \<noteq> []) \<and>
       abs_table T (kv_get E (db (snd p))) = (abs_table T (kv_get E (db s)))(i \<mapsto> old\<lparr>user_passkey := rr_newpass resp, user_updated_at := t\<rparr>) \<and>
       table_frame T (kv_get E (db s)) (kv_get E (db (snd p))) \<and> logcounter (snd p) = logcounter s + 1))"

lemma aborts_reset: "sys_inv E g0 s0 \<Longrightarrow> aborts E s0 (reset_effect E g0 T resp s0)"
  by (auto simp: aborts_def reset_effect_def steady_inv steadyD)

text \<open>The last steps are the same for users and exters: \<open>holds_users\<close> says what they need of the table.\<close>

definition holds_users :: "('b, 'd) env \<Rightarrow> 'b lookup \<Rightarrow> (UserDataT, 'b) table \<Rightarrow> keytype \<Rightarrow> bool" where
  "holds_users E g0 T u \<longleftrightarrow> table_laws T \<and> unique_keys T = [u] \<and> rid T = user_id \<and>
     (\<forall>x. GetKey T x u False = EncodeSecondaryKey u [AStr (user_name x)]) \<and>
     (\<forall>s. sys_inv E g0 s \<longrightarrow> wf_table E T (kv_get E (db s)) \<and> ids_below T (kv_get E (db s)) (maincounter s)) \<and>
     (\<forall>s t t' rs ct. env_ok E \<longrightarrow> sys_inv E g0 s \<longrightarrow> logcounter s + 1 \<noteq> 0 \<longrightarrow> tr_item t' = tr_item t \<longrightarrow>
        batch E T (kv_get E (db s)) (maincounter s) rs t \<longrightarrow> commits E g0 T rs s (Commit E ct t' True s))"

lemma holds_users:
  "holds_users E g0 (UserDataTable E) U_USERDATA_NAME" "holds_users E g0 (ExterDataTable E) U_EXTERDATA_NAME"
  by (simp_all add: holds_users_def userdata_tbl.table_laws_axioms exterdata_tbl.table_laws_axioms user_commit exter_commit inv_below inv_wf)
    (simp_all add: fun_eq_iff)

lemma commit_one:
  assumes "env_ok E" and "sys_inv E g0 s0" and "logcounter s0 + 1 \<noteq> 0" and T: "holds_users E g0 T u" and s: "steady E s0 s"
    and ad: "AddRecord E T (kv_get E (db s0)) r up TransactionT_new = Inr (True, txn)" and le: "user_id r \<le> maincounter s0"
    and un: "\<And>x. abs_table T (kv_get E (db s0)) (user_id r) = Some x \<Longrightarrow> user_name x = user_name r"
  shows "\<exists>s'. Commit E t (txn\<lparr>tr_updater := nm\<rparr>) True s = (Inr (), s') \<and> sys_inv E g0 s' \<and>
    abs_table T (kv_get E (db s')) = (abs_table T (kv_get E (db s0)))(user_id r \<mapsto> r) \<and>
    table_frame T (kv_get E (db s0)) (kv_get E (db s')) \<and> maincounter s' = maincounter s0 \<and> logcounter s' = logcounter s0 + 1"
proof -
  note d = steadyD(4-6) [OF s]
  have "batch E T (kv_get E (db s)) (maincounter s) [r] txn"
    using T ad le un unfolding d holds_users_def by (intro table_laws.batch_one [where up = up]) auto
  then have "commits E g0 T [r] s (Commit E t (txn\<lparr>tr_updater := nm\<rparr>) True s)"
    using T assms(1,3) steady_inv [OF s assms(2)] d(2) unfolding holds_users_def by simp
  with T d show ?thesis
    by (cases "Commit E t (txn\<lparr>tr_updater := nm\<rparr>) True s") (auto simp: commits_def holds_users_def upd_abs_def frame_def)
qed

lemma reset_commit:
  assumes "env_ok E" and "sys_inv E g0 s0" and "logcounter s0 + 1 \<noteq> 0" and T: "holds_users E g0 T u"
    and s: "steady E s0 s1" "steady E s0 s2"
    and ge: "GetOne E T (kv_get E (db s1)) (UserDataT_new\<lparr>user_name := rr_username resp\<rparr>) u = Inr (True, d)"
    and ad: "AddRecord E T (kv_get E (db s2)) (d\<lparr>user_passkey := rr_newpass resp, user_updated_at := t\<rparr>) True TransactionT_new = Inr (True, txn)"
    and c: "rr_newpass resp \<noteq> []" "\<not> (rr_oldpass resp = [] \<and> rr_otp resp = [])"
      "\<not> (rr_otp resp = [] \<and> user_passkey d \<noteq> rr_oldpass resp)" "\<not> (rr_oldpass resp = [] \<and> user_last_otp d \<noteq> rr_otp resp)"
  shows "handles E s0 (reset_effect E g0 T resp s0) (bindA (Commit E t (txn\<lparr>tr_updater := ZPDS_DEFAULT_ADMIN\<rparr>) True) (\<lambda>_. ret y))"
  unfolding handles_def
proof (intro allI impI)
  fix s3 assume s3: "steady E s0 s3"
  let ?r = "d\<lparr>user_passkey := rr_newpass resp, user_updated_at := t\<rparr>" and ?c = "Commit E t (txn\<lparr>tr_updater := ZPDS_DEFAULT_ADMIN\<rparr>) True"
  have db: "db s1 = db s0" "db s2 = db s0" using steadyD(4) [OF s(1)] steadyD(4) [OF s(2)] by simp_all
  have L: "table_laws T" "unique_keys T = [u]" "rid T = user_id" "\<And>x. GetKey T x u False = EncodeSecondaryKey u [AStr (user_name x)]"
    and wf: "wf_table E T (kv_get E (db s0))" "ids_below T (kv_get E (db s0)) (maincounter s0)"
    using T assms(2) by (simp_all add: holds_users_def)
  have ro: "records_ok T (kv_get E (db s0))" using wf(1) by (simp add: wf_table_def)
  have d: "abs_table T (kv_get E (db s0)) (user_id d) = Some d" "user_name d = rr_username resp"
    using table_laws.GetOne_unique [OF L(1) wf(1), of u "UserDataT_new\<lparr>user_name := rr_username resp\<rparr>"] ge
      table_laws.abs_table_rid [OF L(1) ro] by (auto simp: db L EncodeSecondaryKey_str_inject)
  have le: "user_id d \<le> maincounter s0" using wf(2) d(1) unfolding ids_below_def by blast
  obtain s' where k: "?c s3 = (Inr (), s')" "sys_inv E g0 s'" "abs_table T (kv_get E (db s')) = (abs_table T (kv_get E (db s0)))(user_id d \<mapsto> ?r)"
      "table_frame T (kv_get E (db s0)) (kv_get E (db s'))" "maincounter s' = maincounter s0" "logcounter s' = logcounter s0 + 1"
    using commit_one [OF assms(1-4) s3 ad [unfolded db], of t ZPDS_DEFAULT_ADMIN] d le by auto
  show "reset_effect E g0 T resp s0 (bindA ?c (\<lambda>_. ret y) s3)"
    unfolding reset_effect_def bindA_step [where m = ?c, OF k(1)]
    using c d k(2-6) by (simp add: ret_def) blast
qed

lemma User_reset_handles:
  assumes "env_ok E" and "sys_inv E g0 s0" and "logcounter s0 + 1 \<noteq> 0"
  shows "handles E s0 (reset_effect E g0 (UserDataTable E) resp s0) (User_ResetPassAction E resp)"
  unfolding User_ResetPassAction_def
  by (rule handles_bind [OF aborts_reset [OF assms(2)]], intro keeps_intros steady_intros)
    (intro handles_throwIf handles_liftR aborts_reset [OF assms(2)] handles_prod,
      rule handles_bind [OF aborts_reset [OF assms(2)] steady_CURRTIME],
      intro handles_throwIf handles_liftR aborts_reset [OF assms(2)] handles_prod; simp add: reset_commit [OF assms holds_users(1)])

lemma Exter_reset_handles:
  assumes "env_ok E" and "sys_inv E g0 s0" and "logcounter s0 + 1 \<noteq> 0"
  shows "handles E s0 (reset_effect E g0 (ExterDataTable E) resp s0) (Exter_ResetPassAction E resp)"
  unfolding Exter_ResetPassAction_def
  by (rule handles_bind [OF aborts_reset [OF assms(2)]], intro keeps_intros steady_intros)
    (intro handles_throwIf handles_liftR aborts_reset [OF assms(2)] handles_prod,
      rule handles_bind [OF aborts_reset [OF assms(2)] steady_CURRTIME],
      intro handles_throwIf handles_liftR aborts_reset [OF assms(2)] handles_prod; simp add: reset_commit [OF assms holds_users(2)])

text \<open>C33: Resetting the password of a user, or of an exter, either fails and changes nothing, or replaces the passkey
  (and the time of the update) of exactly the record of that name, in its table alone. The old password has
  been checked when it is the only credential, the OTP when it is the only one; with both given neither is.\<close>

theorem ResetPassAction_effect:
  assumes "env_ok E" and "sys_inv E g0 s" and "logcounter s + 1 \<noteq> 0"
  shows "reset_effect E g0 (UserDataTable E) resp s (User_ResetPassAction E resp s) \<and>
    reset_effect E g0 (ExterDataTable E) resp s (Exter_ResetPassAction E resp s)"
  by (intro conjI handlesD [OF User_reset_handles [OF assms] inv_steady [OF assms(1,2)]]
      handlesD [OF Exter_reset_handles [OF assms] inv_steady [OF assms(1,2)]])

text \<open>The administrator: a record that exists is found under the sanitised name, a new one is stored under the
  name as it was given.\<close>

definition admin_effect :: "('b, 'd) env \<Rightarrow> 'b lookup \<Rightarrow> UserDataT \<Rightarrow> bool \<Rightarrow> bool \<Rightarrow> ('b, 'd) shared \<Rightarrow>
    unit res \<times> ('b, 'd) shared \<Rightarrow> bool" where
  "admin_effect E g0 user update admin_flag s p \<longleftrightarrow> sys_inv E g0 (snd p) \<and>
     (let T = ExterDataTable E; a = abs_table T (kv_get E (db s)); n = SanitNSLower (user_name user) in
     case fst p of
       Inl e \<Rightarrow> db (snd p) = db s \<and> logcounter (snd p) = logcounter s
     | Inr y \<Rightarrow> (\<exists>i old. a i = Some old \<and> user_name old = n) \<and> \<not> update \<and> db (snd p) = db s \<or>
        (\<exists>r. user_passkey r = user_passkey user \<and> user_is_admin r = admin_flag \<and>
          (if \<exists>i old. a i = Some old \<and> user_name old = n then user_name r = n \<and> update \<and> (\<exists>old. a (user_id r) = Some old \<and> user_name old = n)
           else user_name r = user_name user \<and> user_id r = maincounter s + 1) \<and>
          abs_table T (kv_get E (db (snd p))) = a(user_id r \<mapsto> r) \<and> table_frame T (kv_get E (db s)) (kv_get E (db (snd p)))))"

lemma aborts_admin:
  assumes "sys_inv E g0 b" and "db b = db s0" and "logcounter b = logcounter s0"
  shows "aborts E b (admin_effect E g0 user update admin_flag s0)"
  using assms by (auto simp: aborts_def admin_effect_def steady_inv steadyD)

lemma inv_draw:
  assumes "sys_inv E g0 s" and "maincounter s < maincounter s + 1"
  shows "sys_inv E g0 (s\<lparr>maincounter := maincounter s + 1\<rparr>)"
  using sys_invD [OF assms(1)] tables_below_mono [of E _ "maincounter s" "maincounter s + 1"] assms(2)
    caches_ok_frame [of "s\<lparr>maincounter := maincounter s + 1\<rparr>" s E]
  by (auto simp: sys_inv_def)

lemma admin_store:
  assumes "env_ok E" and "sys_inv E g0 b" and "logcounter b + 1 \<noteq> 0" and b: "db b = db s0" "logcounter b = logcounter s0"
    and d: "user_id d \<le> maincounter b" "\<And>x. abs_table (ExterDataTable E) (kv_get E (db s0)) (user_id d) = Some x \<Longrightarrow> user_name x = user_name d"
    and q: "if \<exists>i old. abs_table (ExterDataTable E) (kv_get E (db s0)) i = Some old \<and> user_name old = SanitNSLower (user_name user)
      then user_name d = SanitNSLower (user_name user) \<and> update \<and>
        (\<exists>old. abs_table (ExterDataTable E) (kv_get E (db s0)) (user_id d) = Some old \<and> user_name old = SanitNSLower (user_name user))
      else user_name d = user_name user \<and> user_id d = maincounter s0 + 1"
  shows "handles E b (admin_effect E g0 user update admin_flag s0)
    (admin_write E user admin_flag has_profile ct found d)"
proof -
  let ?T = "ExterDataTable E" and ?Q = "admin_effect E g0 user update admin_flag s0"
  have "?Q (Commit E ct (txn\<lparr>tr_updater := ZPDS_DEFAULT_ADMIN\<rparr>) True s)"
    if s: "steady E b s" and ad: "AddRecord E ?T (kv_get E (db b)) r found TransactionT_new = Inr (True, txn)"
      and r: "user_id r = user_id d" "user_name r = user_name d" "user_passkey r = user_passkey user" "user_is_admin r = admin_flag" for r txn s
  proof -
    obtain s' where k: "Commit E ct (txn\<lparr>tr_updater := ZPDS_DEFAULT_ADMIN\<rparr>) True s = (Inr (), s')" "sys_inv E g0 s'"
        "abs_table ?T (kv_get E (db s')) = (abs_table ?T (kv_get E (db s0)))(user_id r \<mapsto> r)" "table_frame ?T (kv_get E (db s0)) (kv_get E (db s'))"
      using commit_one [where t = ct and nm = ZPDS_DEFAULT_ADMIN, OF assms(1-3) holds_users(2) s ad] d r by (auto simp: b)
    show ?thesis
      unfolding k(1) admin_effect_def Let_def fst_conv snd_conv sum.case
      using k(2-4) q r by (intro conjI disjI2 exI [of _ r]) (simp_all cong: if_cong)
  qed
  note stored = this [unfolded b]
  note ab = aborts_admin [OF assms(2) b]
  show ?thesis
    unfolding admin_write_def Let_def
    by (intro handles_throwIf ab handles_liftR handles_prod) (auto simp: handles_def steadyD(4) b intro!: stored split: if_splits)
qed

lemma handles_yields:
  assumes "aborts E s0 Q" and "keeps (steady E s0) m" and "yields P m" and "\<And>x. P x \<Longrightarrow> handles E s0 Q (f x)"
  shows "handles E s0 Q (bindA m f)"
  unfolding handles_def
proof (intro allI impI)
  fix s assume s: "steady E s0 s"
  obtain r v where m: "m s = (r, v)" by force
  with keepsD [OF assms(2) s] have v: "steady E s0 v" by simp
  show "Q (bindA m f s)"
  proof (cases r)
    case (Inl e)
    with m v assms(1) show ?thesis by (simp add: bindA_throws aborts_def)
  next
    case (Inr x)
    with m v assms(4) [OF yieldsD [OF assms(3)]] show ?thesis by (simp add: bindA_step handles_def)
  qed
qed

lemma handles_draw:
  assumes "handles E (s0\<lparr>maincounter := maincounter s0 + 1\<rparr>) Q (f (maincounter s0 + 1))"
  shows "handles E s0 Q (bindA GetNext_main f)"
  unfolding handles_def
proof (intro allI impI)
  fix s assume s: "steady E s0 s"
  have "steady E (s0\<lparr>maincounter := maincounter s0 + 1\<rparr>) (s\<lparr>maincounter := maincounter s + 1\<rparr>)"
    using s caches_ok_frame [of "s\<lparr>maincounter := maincounter s + 1\<rparr>" s E] by (auto simp: steady_def)
  with assms steadyD(6) [OF s] show "Q (bindA GetNext_main f s)"
    by (auto simp: handles_def bindA_def GetNext_main_def)
qed

lemma AdminCreate_handles:
  assumes "env_ok E" and "sys_inv E g0 s0" and "room s0 [user]"
  shows "handles E s0 (admin_effect E g0 user update admin_flag s0) (AdminCreateAction E user update admin_flag has_profile)"
proof -
  let ?T = "ExterDataTable E" and ?Q = "admin_effect E g0 user update admin_flag s0" and ?g = "kv_get E (db s0)"
  let ?q = "UserDataT_new\<lparr>user_name := SanitNSLower (user_name user)\<rparr>" and ?b = "s0\<lparr>maincounter := maincounter s0 + 1\<rparr>"
  note ab = aborts_admin [OF assms(2) refl refl, of user update admin_flag]
  have wf: "wf_table E ?T ?g" using inv_wf(1) [OF assms(2)] .
  have ro: "records_ok ?T ?g" using wf by (simp add: wf_table_def)
  have below: "i \<le> maincounter s0" if "abs_table ?T ?g i = Some x" for i x
    using inv_below(3) [OF assms(2)] that unfolding ids_below_def by blast
  have nx: "maincounter s0 < maincounter s0 + 1" and lc: "logcounter s0 + 1 \<noteq> 0"
    using assms(3) by (simp_all add: room_def word_less_nat_alt unat_word_ariths)
  have known: "if found then abs_table ?T ?g (user_id d) = Some d \<and> user_name d = SanitNSLower (user_name user)
      else d = ?q \<and> \<not> (\<exists>i old. abs_table ?T ?g i = Some old \<and> user_name old = SanitNSLower (user_name user))"
    if "GetOne E ?T ?g ?q U_EXTERDATA_NAME = Inr (found, d)" for found d
    using exterdata_tbl.GetOne_unique [OF wf, of U_EXTERDATA_NAME ?q] exterdata_tbl.abs_table_rid [OF ro] that
    by (auto simp: EncodeSecondaryKey_str_inject)
  have none: "handles E s0 ?Q (ret ())"
    if "\<not> update" "abs_table ?T ?g i = Some d" "user_name d = SanitNSLower (user_name user)" for i d
    using that by (auto simp: handles_def ret_def admin_effect_def steady_inv [OF _ assms(2)] steadyD Let_def)
  have new: "handles E s0 ?Q (bindA (throwIf (user_passkey user = []) ex) (\<lambda>_.
      bindA (new_signkey E (?q\<lparr>user_name := user_name user, user_created_at := ct, user_notfound := False\<rparr>)) (\<lambda>d.
      bindA GetNext_main (\<lambda>i. k (d\<lparr>user_id := i, user_manager := ZPDS_DEFAULT_ADMIN\<rparr>)))))"
    if k: "\<And>d. user_name d = user_name user \<Longrightarrow> user_id d = maincounter s0 + 1 \<Longrightarrow> handles E ?b ?Q (k d)" for ex ct k
    by (intro handles_throwIf ab, rule handles_yields [OF ab _ edit_signkey [OF edit_refl [of True False]]],
        unfold new_signkey_def, intro keeps_intros steady_intros)
      (auto simp: edit_def standing_def intro!: handles_draw k)
  have cont: "handles E s0 ?Q (if found \<and> \<not> update then ret ()
     else
       bindA (CURRTIME_MS E) (\<lambda>currtime.
       bindA (if \<not> found then
           bindA (throwIf (user_passkey user = []) (BadDataException ''Passkey cannot be empty'' M_INVALID_PARAM)) (\<lambda>_.
           bindA (new_signkey E (data\<lparr>user_name := user_name user, user_created_at := currtime, user_notfound := False\<rparr>)) (\<lambda>d.
           bindA GetNext_main (\<lambda>i. ret (d\<lparr>user_id := i, user_manager := ZPDS_DEFAULT_ADMIN\<rparr>))))
         else ret data) (f currtime)))"
    if g: "GetOne E ?T ?g ?q U_EXTERDATA_NAME = Inr (found, data)"
    and f: "\<And>ct d. user_name d = user_name user \<Longrightarrow> user_id d = maincounter s0 + 1 \<Longrightarrow> \<not> found \<Longrightarrow> handles E ?b ?Q (f ct d)"
      "\<And>ct. found \<Longrightarrow> update \<Longrightarrow> handles E s0 ?Q (f ct data)" for found data f
  proof (cases found)
    case True
    have "handles E s0 ?Q (bindA (CURRTIME_MS E) (\<lambda>ct. f ct data))" if update
      by (intro handles_bind [OF ab steady_CURRTIME] f(2) True that)
    with True known [OF g] none show ?thesis by (cases update) auto
  next
    case False
    with known [OF g] have "data = ?q" by simp
    with False show ?thesis
      by (simp add: bindA_assoc) (intro handles_bind [OF ab steady_CURRTIME] new [simplified] f(1); simp)
  qed
  have free: "abs_table ?T ?g (maincounter s0 + 1) = None"
    using below [of "maincounter s0 + 1"] nx by (cases "abs_table ?T ?g (maincounter s0 + 1)") auto
  have new_stored: "handles E ?b ?Q (admin_write E user admin_flag has_profile ct found d)"
    if "GetOne E ?T ?g ?q U_EXTERDATA_NAME = Inr (found, c)" "user_name d = user_name user" "user_id d = maincounter s0 + 1" "\<not> found" for ct d found c
    using that known [OF that(1)] free lc by (intro admin_store [OF assms(1) inv_draw [OF assms(2) nx]]) auto
  have old_stored: "handles E s0 ?Q (admin_write E user admin_flag has_profile ct found d)"
    if "GetOne E ?T ?g ?q U_EXTERDATA_NAME = Inr (found, d)" "found" "update" for ct d found
    using that known [OF that(1)] below by (intro admin_store [OF assms(1,2) lc]) auto
  show ?thesis
    unfolding AdminCreateAction_def
    by (rule handles_bind [OF ab], intro keeps_intros, intro handles_throwIf ab handles_liftR handles_prod, rule cont)
      (simp add: steadyD, rule new_stored, simp add: steadyD, assumption+, rule old_stored, simp add: steadyD)
qed

text \<open>C34: Creating or updating an administrator keeps the invariant of the node and is atomic: it fails and changes
  nothing, it finds a record it is not to update, or it writes one record of exters with the passkey and the
  flag of the request. A new record bears the name as it was given, though it was looked up sanitised.\<close>

theorem AdminCreateAction_effect:
  assumes "env_ok E" and "sys_inv E g0 s" and "room s [user]"
  shows "admin_effect E g0 user update admin_flag s (AdminCreateAction E user update admin_flag has_profile s)"
  by (rule handlesD [OF AdminCreate_handles [OF assms] inv_steady [OF assms(1,2)]])

section \<open>An administrator can be made, and can log in\<close>

context table_laws
begin

lemma fresh_AddRecord:
  assumes "wf_table E T g" and "rid T r \<noteq> 0" and "\<not> rnotfound T r" and "abs_table T g (rid T r) = None"
    and "\<And>u i x. u \<in> set (unique_keys T) \<Longrightarrow> abs_table T g i = Some x \<Longrightarrow> GetKey T x u False \<noteq> GetKey T r u False"
  shows "\<exists>t'. AddRecord E T g r up t = Inr (True, t')"
proof -
  have ro: "records_ok T g" and so: "index_sound E T g" using assms(1) by (simp_all add: wf_table_def)
  have "g (GetKey T r u False) = None" if u: "u \<in> set (unique_keys T)" for u
  proof (rule ccontr)
    assume "g (GetKey T r u False) \<noteq> None"
    with so u GetKey_unique [OF u] obtain i x where "abs_table T g i = Some x" "GetKey T x u False = GetKey T r u False"
      unfolding index_sound_def by blast
    with assms(5) [OF u] show False by blast
  qed
  then have "\<not> unique_clash E T g r (unique_keys T) NodeT_new" by (simp add: unique_clash_iff [OF order_refl])
  with assms(2-4) show ?thesis by (simp add: AddRecord_iff [OF ro])
qed

end

lemma AdminCreate_run:
  assumes "env_ok E" and "sys_inv E g0 s" and "room s [user]" and "is_master s" and ne: "user_name user \<noteq> []" "user_passkey user \<noteq> []"
    and fr: "\<And>i x. abs_table (ExterDataTable E) (kv_get E (db s)) i = Some x \<Longrightarrow> user_name x \<notin> {user_name user, SanitNSLower (user_name user)}"
  shows "\<exists>s' r. AdminCreateAction E user up adm prof s = (Inr (), s') \<and> sys_inv E g0 s' \<and>
    abs_table (ExterDataTable E) (kv_get E (db s')) = (abs_table (ExterDataTable E) (kv_get E (db s)))(maincounter s + 1 \<mapsto> r) \<and>
    user_name r = user_name user \<and> user_passkey r = user_passkey user \<and> user_is_admin r = adm \<and>
    user_signkey r = \<lparr>sk_pubkey = B64_Encode (b64 E) [], sk_seckey = B64_Encode (b64 E) (rand_str E (draws s) AES_LEN), sk_algo = ENCODEKEY_ALGO_AES128CBC\<rparr> \<and>
    logcounter s' = logcounter s + 1"
proof -
  let ?T = "ExterDataTable E" and ?g = "kv_get E (db s)" and ?q = "UserDataT_new\<lparr>user_name := SanitNSLower (user_name user)\<rparr>"
  let ?k = "\<lparr>sk_pubkey = B64_Encode (b64 E) [], sk_seckey = B64_Encode (b64 E) (rand_str E (draws s) AES_LEN), sk_algo = ENCODEKEY_ALGO_AES128CBC\<rparr>"
  have wf: "wf_table E ?T ?g" using inv_wf(1) [OF assms(2)] .
  have nx: "maincounter s < maincounter s + 1" and lc: "logcounter s + 1 \<noteq> 0"
    using assms(3) by (simp_all add: room_def word_less_nat_alt unat_word_ariths)
  have free: "abs_table ?T ?g (maincounter s + 1) = None"
    using inv_below(3) [OF assms(2)] nx unfolding ids_below_def by (metis not_le option.exhaust)
  have g: "GetOne E ?T ?g ?q U_EXTERDATA_NAME = Inr (False, ?q)"
    using exterdata_tbl.GetOne_unique [OF wf, of U_EXTERDATA_NAME ?q] fr by (auto simp: EncodeSecondaryKey_str_inject)
  define ct where "ct = clock E (ticks s)"
  define d where "d = ?q\<lparr>user_name := user_name user, user_created_at := ct, user_notfound := False, user_signkey := ?k,
     user_id := maincounter s + 1, user_manager := ZPDS_DEFAULT_ADMIN\<rparr>"
  define d3 where "d3 = (if prof then d\<lparr>user_updated_at := ct, user_is_admin := adm, user_profiles := SetDefaultProfile\<rparr>
     else d\<lparr>user_updated_at := ct, user_is_admin := adm\<rparr>)"
  define r where "r = d3\<lparr>user_passkey := user_passkey user\<rparr>"
  define s3 where "s3 = s\<lparr>ticks := ticks s + 1, draws := draws s + 1, maincounter := maincounter s + 1\<rparr>"
  have r: "user_id r = maincounter s + 1" "user_name r = user_name user" "user_passkey r = user_passkey user" "user_is_admin r = adm"
    "user_signkey r = ?k" "\<not> user_notfound r"
    by (simp_all add: r_def d3_def d_def)
  have "maincounter s + 1 \<noteq> 0" using nx by auto
  then obtain txn where ad: "AddRecord E ?T ?g r False TransactionT_new = Inr (True, txn)"
    using exterdata_tbl.fresh_AddRecord [OF wf, of r False TransactionT_new] r free fr by (auto simp: EncodeSecondaryKey_str_inject)
  let ?b = "s\<lparr>maincounter := maincounter s + 1\<rparr>"
  have "steady E ?b s3"
    using inv_steady [OF assms(1) inv_draw [OF assms(2) nx]] by (rule steady_frame) (simp_all add: s3_def)
  from commit_one [where t = ct and nm = ZPDS_DEFAULT_ADMIN, OF assms(1) inv_draw [OF assms(2) nx] _ holds_users(2) this, of r False txn] lc ad r free
  obtain s' where c: "Commit E ct (txn\<lparr>tr_updater := ZPDS_DEFAULT_ADMIN\<rparr>) True s3 = (Inr (), s')" "sys_inv E g0 s'"
      "abs_table ?T (kv_get E (db s')) = (abs_table ?T ?g)(maincounter s + 1 \<mapsto> r)" "logcounter s' = logcounter s + 1" by auto
  have w: "admin_write E user adm prof ct False d s3 = (Inr (), s')"
    using ne(2) ad c(1) by (simp add: admin_write_def Let_def run_simps s3_def r_def [symmetric] d3_def [symmetric])
  have "AdminCreateAction E user up adm prof s = (Inr (), s')"
    using assms(4) ne g w [unfolded d_def s3_def ct_def]
    by (simp add: AdminCreateAction_def run_simps new_signkey_def Create_new_def bindA_def CURRTIME_MS_def GetNext_main_def ret_def)
  with c r show ?thesis by blast
qed

text \<open>C23: On a master an administrator whose name is not taken can be made, and with the passkey he was given he gets a
  session that is accepted as long as it lives.\<close>

theorem admin_can_login:
  assumes "env_ok E" and "aes_ok E" and "boost_ok (b64 E)" and "sys_inv E g0 s" and "room s [user]" and "is_master s"
    and "user_name user \<noteq> []" and "user_passkey user \<noteq> []"
    and "\<And>i x. abs_table (ExterDataTable E) (kv_get E (db s)) i = Some x \<Longrightarrow> user_name x \<notin> {user_name user, SanitNSLower (user_name user)}"
  shows "\<exists>s1 token s2. AdminCreateAction E user up adm prof s = (Inr (), s1) \<and>
    GetSession E (Exter_Get E) \<lparr>lr_username = user_name user, lr_password = user_passkey user, lr_sessionkey = []\<rparr> s1 =
      (Inr \<lparr>lr_username = user_name user, lr_password = [], lr_sessionkey = token\<rparr>, s2) \<and>
    (clock E (ticks s1) \<le> clock E (ticks s2) \<longrightarrow> clock E (ticks s2) - clock E (ticks s1) \<le> ZPDS_SESSION_LIFETIME_MS \<longrightarrow>
      (\<exists>v. fst (CheckSession E (UserDataT_new\<lparr>user_name := user_name user, user_sessionkey := token, user_keytype := K_EXTERDATA\<rparr>) True s2) =
         Inr (True, v) \<and> user_name v = user_name user))"
proof -
  obtain s1 r where c: "AdminCreateAction E user up adm prof s = (Inr (), s1)" "sys_inv E g0 s1"
    and t: "abs_table (ExterDataTable E) (kv_get E (db s1)) = (abs_table (ExterDataTable E) (kv_get E (db s)))(maincounter s + 1 \<mapsto> r)"
    and r: "user_name r = user_name user" "user_passkey r = user_passkey user"
      "user_signkey r = \<lparr>sk_pubkey = B64_Encode (b64 E) [], sk_seckey = B64_Encode (b64 E) (rand_str E (draws s) AES_LEN), sk_algo = ENCODEKEY_ALGO_AES128CBC\<rparr>"
    by (rule AdminCreate_run [OF assms(1,4-8), of up adm prof, THEN exE]) (use assms(9) in \<open>auto elim!: exE conjE\<close>)
  let ?key = "rand_str E (draws s) AES_LEN" and ?iv = "rand_str E (draws s1) AES_LEN"
  have h: "has_user (ExterDataTable E) (kv_get E (db s1)) (user_name user) r" using t r(1) unfolding has_user_def by (metis fun_upd_same)
  have l: "length ?key = AES_LEN" "length ?iv = AES_LEN" using assms(2) by (simp_all add: aes_ok_def)
  have k: "Create_keys E (sk_algo (user_signkey r)) (sk_seckey (user_signkey r)) = Inr ?key" by (simp add: r(3) Create_keys_def B64_Decode_Encode [OF assms(3)])
  from exter_cred.GetSession_token [OF inv_sessions(1) [OF assms(1) c(2)] h r(2) assms(7,8) k l(1), of "[]"] obtain ca where
    g: "GetSession E (Exter_Get E) \<lparr>lr_username = user_name user, lr_password = user_passkey user, lr_sessionkey = []\<rparr> s1 =
      (Inr \<lparr>lr_username = user_name user, lr_password = [], lr_sessionkey = ?iv @ aes_enc E ?key ?iv (ser (c_user E) (session_msg (user_name user) (clock E (ticks s1))))\<rparr>,
       s1\<lparr>dbcache := ca, ticks := ticks s1 + 1, draws := draws s1 + 1\<rparr>)" and i: "exter_inv E (s1\<lparr>dbcache := ca\<rparr>)" by blast
  let ?s2 = "s1\<lparr>dbcache := ca, ticks := ticks s1 + 1, draws := draws s1 + 1\<rparr>"
  let ?d = "UserDataT_new\<lparr>user_name := user_name user, user_sessionkey := ?iv @ aes_enc E ?key ?iv
      (ser (c_user E) (session_msg (user_name user) (clock E (ticks s1)))), user_keytype := K_EXTERDATA\<rparr>"
  have i2: "exter_inv E ?s2" using i by (simp add: exter_inv_def coherent_def)
  have pb: "pb_ok E" using assms(1) by (simp add: env_ok_def)
  from exter_cred.CheckSession_token [OF i2 _ _ pb assms(2) k l, of ?d "clock E (ticks s1)"] h assms(7)
  obtain v ca' where ch: "CheckSessionBase E (Exter_Get E) ?d ?s2 =
    (if clock E (ticks s1) > clock E (ticks ?s2) then Inl (BadDataException ''No such user or Invalid session'' M_INVALID_PARAM)
     else if clock E (ticks ?s2) - clock E (ticks s1) > ZPDS_SESSION_LIFETIME_MS then Inl (BadDataException ''Session Key has Expired'' M_INVALID_PARAM)
     else Inr (True, v), ?s2\<lparr>dbcache := ca', ticks := ticks ?s2 + 1\<rparr>)" "user_name v = user_name user" by auto
  show ?thesis
    using c(1) g ch by (intro exI [of _ s1] exI conjI) (assumption+, auto simp: CheckSession_def not_less)
qed

end
