(* ===== verification/ReadLaws.thy ===== *)
theory ReadLaws
  imports SystemLaws Endpoints
begin

text \<open>
  What a node does without changing data: it answers reads and logins, talks to other hosts and keeps the list
  of them. All of it leaves data, log and counters as they are (\<open>steady\<close>).
\<close>

section \<open>Requests that change nothing\<close>

lemma steady_switches [steady_intros]:
  "keeps (steady E s0) (updA (\<lambda>s. s\<lparr>no_xapian := True\<rparr>))" "keeps (steady E s0) (updA (\<lambda>s. s\<lparr>xaplog := xaplog s @ [XapCommit]\<rparr>))"
  by (auto simp: keeps_def updA_def steady_xapian)

lemma steady_same_store: "same_store s s' \<Longrightarrow> steady E s0 s \<Longrightarrow> steady E s0 s'"
  by (erule steady_frame) (auto simp: same_store_def)

lemma steady_sendA [steady_intros]: "keeps (steady E s0) (sendA E c a n msg nt)"
proof (rule keepsI)
  fix s assume s: "steady E s0 s"
  have "same_store s (snd (SendToRemote E c a n msg nt s))" by (rule SendToRemote_same_store)
  with s show "steady E s0 (snd (sendA E c a n msg nt s))"
    by (auto simp: sendA_def steady_same_store split: prod.splits sum.splits)
qed

lemma steady_updA [steady_intros]:
  assumes "\<And>s. db (f s) = db s \<and> dbcache (f s) = dbcache s \<and> logcounter (f s) = logcounter s \<and> maincounter (f s) = maincounter s \<and>
      is_master (f s) = is_master s \<and> xaplog (f s) = xaplog s \<and> no_xapian (f s) = no_xapian s"
  shows "keeps (steady E s0) (updA f)"
proof (rule keepsI)
  fix s assume "steady E s0 s"
  from steady_frame [OF this, of "f s"] assms [of s] show "steady E s0 (snd (updA f s))" by (simp add: updA_def)
qed

lemma steady_hosts [steady_intros]:
  "keeps (steady E s0) (AddHost n lc up)" "keeps (steady E s0) (SetHosts st)" "keeps (steady E s0) (GetHosts E st)"
  unfolding AddHost_def SetHosts_def GetHosts_def Let_def
  by (intro keeps_intros steady_intros; simp)+

lemma steady_HostUpdate [steady_intros]: "keeps (steady E s0) (HostUpdate E)"
  unfolding HostUpdate_def host_send_def by (intro keeps_intros steady_intros)

lemma steady_ReadOne [steady_intros]: "keeps (steady E s0) (ReadOne E t)"
  unfolding ReadOne_def by (rule keeps_readA)

lemma steady_ReadLog [steady_intros]: "keeps (steady E s0) (ReadLog E t)"
  unfolding ReadLog_def by (intro keeps_intros steady_intros)

lemma steady_remote_action: "keeps (steady E s0) (remote_action E cr rq)"
  unfolding remote_action_def remote_register_def remote_readone_def remote_translog_def remote_setinfo_def
    remote_addhost_def remote_bufftrans_def
  by (intro keeps_intros steady_intros; simp)

lemma steady_mapA [steady_intros]: "(\<And>x. keeps (steady E s0) (f x)) \<Longrightarrow> keeps (steady E s0) (mapA f xs)"
  unfolding mapA_def by (intro keeps_intros)

lemma steady_AES_Encode [steady_intros]: "keeps (steady E s0) (AES_Encode E k m)"
  unfolding AES_Encode_def by (intro keeps_intros keepsI) (auto simp: Let_def elim!: steady_frame)

lemma steady_GetSession [steady_intros]:
  "(\<And>u. keeps (steady E s0) (get u)) \<Longrightarrow> keeps (steady E s0) (GetSession E get data)"
  unfolding GetSession_def by (intro keeps_intros steady_intros)

lemma steady_reads [steady_intros]:
  "keeps (steady E s0) (TagData_ReadDataAction E tr)" "keeps (steady E s0) (Category_ReadDataAction E cr)"
  "keeps (steady E s0) (Exter_ReadDataAction E ur)" "keeps (steady E s0) (User_ReadDataAction E ur)"
  "keeps (steady E s0) (Item_ReadDataAction E S ir)"
  unfolding TagData_ReadDataAction_def Category_ReadDataAction_def Exter_ReadDataAction_def User_ReadDataAction_def
    Item_ReadDataAction_def tag_read_def category_read_def Item_ReadData_def item_reader_def ValidateUserCategories_def Let_def
  by (intro keeps_intros steady_intros)+

end
