(* ===== verification/AdminLaws.thy ===== *)
theory AdminLaws
  imports SystemLaws
begin

text \<open>
  Who is an administrator. Apart from \<open>AdminCreateAction\<close>, which only the program itself calls when it is
  started for this purpose, nothing makes an exter an administrator or takes it from one. (\<open>docs/USERDATA.md\<close> says that
  an administrator can add others, and \<open>API_ADMIN_EXTERDATA_DELETE.md\<close> that he can delete them: the code does not do so.)
\<close>

text \<open>An administrator is a record with the flag \<open>is_admin\<close>, whether it is marked deleted or not: the code that grants rights,
  \<open>CheckSession\<close> and the services, looks at the flag only.\<close>

definition admins_of :: "(64 word \<Rightarrow> UserDataT option) \<Rightarrow> (64 word \<times> string) set" where
  "admins_of a = {(i, n). \<exists>r. a i = Some r \<and> user_is_admin r \<and> user_name r = n}"

definition administrators :: "('b, 'd) env \<Rightarrow> 'b lookup \<Rightarrow> (64 word \<times> string) set" where
  "administrators E g = admins_of (abs_table (ExterDataTable E) g)"

lemma admins_upd:
  assumes "case a i of Some c \<Rightarrow> user_is_admin r = user_is_admin c \<and> user_name r = user_name c | None \<Rightarrow> \<not> user_is_admin r"
  shows "admins_of (a(i \<mapsto> r)) = admins_of a"
  using assms by (auto simp: admins_of_def split: option.splits if_splits)

lemma admins_fold:
  assumes "distinct (map user_id rs)"
    and "\<And>r. r \<in> set rs \<Longrightarrow> case a (user_id r) of Some c \<Rightarrow> user_is_admin r = user_is_admin c \<and> user_name r = user_name c | None \<Rightarrow> \<not> user_is_admin r"
  shows "admins_of (fold (upd_abs (ExterDataTable E)) rs a) = admins_of a"
  using assms
proof (induction rs arbitrary: a)
  case (Cons r rs)
  let ?a = "a(user_id r \<mapsto> r)"
  have "case ?a (user_id q) of Some c \<Rightarrow> user_is_admin q = user_is_admin c \<and> user_name q = user_name c | None \<Rightarrow> \<not> user_is_admin q"
    if "q \<in> set rs" for q
    using Cons.prems that by (auto simp: rev_image_eqI)
  then have "admins_of (fold (upd_abs (ExterDataTable E)) rs ?a) = admins_of ?a" using Cons.IH Cons.prems(1) by simp
  moreover have "admins_of ?a = admins_of a" by (rule admins_upd) (use Cons.prems(2) [of r] in simp)
  moreover have "upd_abs (ExterDataTable E) r a = ?a" by (simp add: upd_abs_def)
  ultimately show ?case by simp
qed simp

text \<open>Changes of the other tables.\<close>

lemma admins_frame:
  assumes "table_frame U g g'" and "disjoint_tables (ExterDataTable E) U"
  shows "administrators E g' = administrators E g"
proof -
  have "abs_table (ExterDataTable E) g' = abs_table (ExterDataTable E) g"
    by (rule exterdata_tbl.wf_table_cong(2)) (rule exterdata_tbl.table_untouched(3) [OF assms])
  then show ?thesis by (simp add: administrators_def)
qed

lemma admins_frames:
  "table_frame (TagDataTable E) g g' \<Longrightarrow> administrators E g' = administrators E g"
  "table_frame (CategoryTable E) g g' \<Longrightarrow> administrators E g' = administrators E g"
  "table_frame (UserDataTable E) g g' \<Longrightarrow> administrators E g' = administrators E g"
  "table_frame (LocalDataTable E) g g' \<Longrightarrow> administrators E g' = administrators E g"
  "table_frame (WikiDataTable E) g g' \<Longrightarrow> administrators E g' = administrators E g"
  by (rule admins_frame, assumption, rule tables_disjoint)+

text \<open>A change of the exters: the flag and the name are standing fields of a record, and a new one does not have the flag.\<close>

lemma prepared_admin: "prepared sec role any w a d found c r \<Longrightarrow> user_is_admin r = user_is_admin c \<and> user_name r = user_name c"
  unfolding prepared_def by (elim conjE) (auto simp: edit_def standing_def split: if_split_asm)

lemma exter_fits_admin:
  "exter_fits action w x (Some c) r \<Longrightarrow> user_is_admin r = user_is_admin c \<and> user_name r = user_name c"
  "exter_fits action w x None r \<Longrightarrow> \<not> user_is_admin r"
proof -
  show "user_is_admin r = user_is_admin c \<and> user_name r = user_name c" if fit: "exter_fits action w x (Some c) r"
  proof -
    from fit obtain p ct where "exter_prepared w action x True c p" "r = p\<lparr>user_updated_at := ct\<rparr>" by (auto simp: exter_fits_def)
    with prepared_admin show ?thesis unfolding exter_prepared_def by fastforce
  qed
  show "\<not> user_is_admin r" if fit: "exter_fits action w x None r"
  proof -
    from fit obtain p ct where p: "exter_prepared w action x False (UserDataT_new\<lparr>user_name := user_name x\<rparr>) p"
      and r: "r = p\<lparr>user_manager := user_name w, user_id := user_id r, user_created_at := ct, user_updated_at := ct\<rparr>" by (auto simp: exter_fits_def)
    have "\<not> user_is_admin p" using prepared_admin [OF p [unfolded exter_prepared_def]] by (simp add: UserDataT_new_def)
    then show ?thesis by (subst r) simp
  qed
qed

lemma admins_updates:
  assumes "updates E (ExterDataTable E) U_EXTERDATA_NAME uk (asked resp (\<lambda>a _. exter_fits a) w) xs s s'"
    and "ids_below (ExterDataTable E) (kv_get E (db s)) (maincounter s)"
  shows "administrators E (kv_get E (db s')) = administrators E (kv_get E (db s))"
proof -
  let ?T = "ExterDataTable E" and ?g = "kv_get E (db s)"
  from assms(1) obtain rs where rs: "list_all2 (\<lambda>x r. GetKey ?T r U_EXTERDATA_NAME False = uk x \<and>
      origin ?T U_EXTERDATA_NAME (asked resp (\<lambda>a _. exter_fits a) w x) ?g (maincounter s) (maincounter s') r) xs rs"
    "distinct (map (rid ?T) rs)" "abs_table ?T (kv_get E (db s')) = fold (upd_abs ?T) rs (abs_table ?T ?g)"
    unfolding updates_def by blast
  have "case abs_table ?T ?g (user_id r) of Some c \<Rightarrow> user_is_admin r = user_is_admin c \<and> user_name r = user_name c | None \<Rightarrow> \<not> user_is_admin r"
    if r: "r \<in> set rs" for r
  proof -
    from list_all2_member [OF rs(1) r] obtain x where
      "origin ?T U_EXTERDATA_NAME (asked resp (\<lambda>a _. exter_fits a) w x) ?g (maincounter s) (maincounter s') r" by blast
    then consider (old) c where "abs_table ?T ?g (user_id r) = Some c" "asked resp (\<lambda>a _. exter_fits a) w x (Some c) r"
      | (new) "maincounter s < user_id r" "asked resp (\<lambda>a _. exter_fits a) w x None r"
      by (auto simp: origin_def)
    then show ?thesis
    proof cases
      case old
      with exter_fits_admin(1) show ?thesis by (fastforce simp: asked_def)
    next
      case new
      with assms(2) have "abs_table ?T ?g (user_id r) = None" by (cases "abs_table ?T ?g (user_id r)") (auto simp: ids_below_def not_less [symmetric])
      with new(2) exter_fits_admin(2) show ?thesis by (fastforce simp: asked_def)
    qed
  qed
  moreover have "rid ?T = user_id" by (simp add: fun_eq_iff)
  ultimately show ?thesis using rs(2,3) by (simp add: administrators_def admins_fold)
qed

text \<open>A password reset leaves the flag as well.\<close>

lemma admins_reset:
  assumes "reset_effect E g0 (ExterDataTable E) resp s p"
  shows "administrators E (kv_get E (db (snd p))) = administrators E (kv_get E (db s))"
proof (cases "fst p")
  case (Inr y)
  with assms obtain i old t where "abs_table (ExterDataTable E) (kv_get E (db s)) i = Some old"
    "abs_table (ExterDataTable E) (kv_get E (db (snd p))) = (abs_table (ExterDataTable E) (kv_get E (db s)))(i \<mapsto>
       old\<lparr>user_passkey := rr_newpass resp, user_updated_at := t\<rparr>)"
    by (auto simp: reset_effect_def)
  then show ?thesis by (simp add: administrators_def admins_upd)
qed (use assms in \<open>simp add: reset_effect_def\<close>)

lemma admins_reset_user:
  assumes "reset_effect E g0 (UserDataTable E) resp s p"
  shows "administrators E (kv_get E (db (snd p))) = administrators E (kv_get E (db s))"
proof (cases "fst p")
  case (Inr y)
  with assms have "table_frame (UserDataTable E) (kv_get E (db s)) (kv_get E (db (snd p)))" by (auto simp: reset_effect_def)
  then show ?thesis by (rule admins_frames(3))
qed (use assms in \<open>simp add: reset_effect_def\<close>)

text \<open>What an atomic request does to them, given what its update does.\<close>

lemma admins_atomic:
  assumes "atomic_request E g0 T u uk who fits xs s p"
    and "\<And>w. updates E T u uk (fits w) xs s (snd p) \<Longrightarrow> administrators E (kv_get E (db (snd p))) = administrators E (kv_get E (db s))"
  shows "administrators E (kv_get E (db (snd p))) = administrators E (kv_get E (db s))"
  using assms by (cases "fst p") (auto simp: atomic_request_def)

lemma updates_frame: "updates E T u uk fits xs s s' \<Longrightarrow> table_frame T (kv_get E (db s)) (kv_get E (db s'))"
  unfolding updates_def by blast

text \<open>All requests that change data, once: their administrators are those before.\<close>

lemma admins_changes:
  assumes "env_ok E" and "sys_inv E g0 s"
  shows "room s (dr_payloads mt) \<Longrightarrow> administrators E (kv_get E (db (snd (TagData_ManageDataAction E mt s)))) = administrators E (kv_get E (db s))"
    "room s (dr_payloads mc) \<Longrightarrow> administrators E (kv_get E (db (snd (Category_ManageDataAction E mc s)))) = administrators E (kv_get E (db s))"
    "room s (dr_payloads mu) \<Longrightarrow> administrators E (kv_get E (db (snd (Exter_ManageDataAction E mu s)))) = administrators E (kv_get E (db s))"
    "room s (dr_payloads mu) \<Longrightarrow> administrators E (kv_get E (db (snd (User_ManageDataAction E mu s)))) = administrators E (kv_get E (db s))"
    "room s (dr_payloads mi) \<Longrightarrow> administrators E (kv_get E (db (snd (Item_ManageDataAction E (LocalDataService E) mi s)))) = administrators E (kv_get E (db s))"
    "room s (dr_payloads mi) \<Longrightarrow> administrators E (kv_get E (db (snd (Item_ManageDataAction E (WikiDataService E) mi s)))) = administrators E (kv_get E (db s))"
  by (rule admins_atomic [OF TagData_ManageDataAction_run [OF assms]], assumption, erule admins_frames(1) [OF updates_frame],
      rule admins_atomic [OF Category_ManageDataAction_run [OF assms]], assumption, erule admins_frames(2) [OF updates_frame],
      rule admins_atomic [OF Exter_ManageDataAction_run [OF assms]], assumption, erule admins_updates [OF _ inv_below(3) [OF assms(2)]],
      rule admins_atomic [OF User_ManageDataAction_run [OF assms]], assumption, erule admins_frames(3) [OF updates_frame],
      rule admins_atomic [OF Local_ManageDataAction_atomic [OF assms]], assumption, erule admins_frames(4) [OF updates_frame],
      rule admins_atomic [OF Wiki_ManageDataAction_atomic [OF assms]], assumption, erule admins_frames(5) [OF updates_frame])

lemma admins_resets:
  assumes "env_ok E" and "sys_inv E g0 s" and "logcounter s + 1 \<noteq> 0"
  shows "administrators E (kv_get E (db (snd (User_ResetPassAction E m s)))) = administrators E (kv_get E (db s))"
    "administrators E (kv_get E (db (snd (Exter_ResetPassAction E m s)))) = administrators E (kv_get E (db s))"
  by (rule admins_reset_user [OF handlesD [OF User_reset_handles [OF assms] inv_steady [OF assms(1,2)]]],
      rule admins_reset [OF handlesD [OF Exter_reset_handles [OF assms] inv_steady [OF assms(1,2)]]])

end
