(* ===== verification/ProtoForm.thy ===== *)
theory ProtoForm
  imports Messages
begin

text \<open>
  Component \<open>ProtoForm\<close> (\<open>src/query/ProtoForm.cc\<close>): the url-encoded forms that logins may be posted as.
  \<open>urldecode\<close> is one loop over the text with what is collected so far; \<open>form2pb\<close> sets the string fields
  of a message that the form names. Proved: decoding inverts encoding, for single texts and for forms.
\<close>

section \<open>Decoding\<close>

text \<open>What a C function reads of a string: up to the first NUL.\<close>

definition c_str :: "string \<Rightarrow> string" where
  "c_str s = takeWhile (\<lambda>c. (of_char c :: nat) \<noteq> 0) s"

definition from_hex :: "char \<Rightarrow> 8 word" where
  "from_hex ch = (if isdigit ch then word_of_nat (of_char ch) - 48 else word_of_nat (of_char (tolower ch)) - 97 + 10)"

unbundle bit_operations_syntax

definition hex_char :: "char \<Rightarrow> char \<Rightarrow> char" where
  "hex_char a b = char_of (unat (push_bit 4 (from_hex a) OR from_hex b))"

text \<open>\<open>m[name] = value\<close>: the map is kept as the list of its entries, in the order they came in.\<close>

fun put_field :: "string \<Rightarrow> string \<Rightarrow> (string \<times> string) list \<Rightarrow> (string \<times> string) list" where
  "put_field k v [] = [(k, v)]"
| "put_field k v ((l, w) # m) = (if k = l then (l, v) # m else (l, w) # put_field k v m)"

text \<open>A percent sign that two more characters do not follow is dropped.\<close>

fun urldecode_loop :: "string \<Rightarrow> string \<Rightarrow> string \<Rightarrow> bool \<Rightarrow> (string \<times> string) list \<Rightarrow> (string \<times> string) list" where
  "urldecode_loop [] name escaped name_set m =
     (if name_set then put_field name escaped m else put_field escaped [] m)"
| "urldecode_loop (c # cs) name escaped name_set m =
     (if c = CHR ''%'' then
        (case cs of
           a # b # cs' \<Rightarrow> (if (of_char a :: nat) \<noteq> 0 \<and> (of_char b :: nat) \<noteq> 0
             then urldecode_loop cs' name (escaped @ [hex_char a b]) name_set m
             else urldecode_loop cs name escaped name_set m)
         | _ \<Rightarrow> urldecode_loop cs name escaped name_set m)
      else if c = CHR ''+'' then urldecode_loop cs name (escaped @ '' '') name_set m
      else if c = CHR ''='' then urldecode_loop cs escaped [] True m
      else if c = CHR ''&'' then urldecode_loop cs name [] False (if name_set then put_field name escaped m else m)
      else urldecode_loop cs name (escaped @ [c]) name_set m)"

declare urldecode_loop.simps(2) [simp del]

definition urldecode :: "string \<Rightarrow> (string \<times> string) list" where
  "urldecode txt = urldecode_loop txt [] [] False []"

section \<open>Encoding\<close>

definition hexD :: "nat \<Rightarrow> char" where
  "hexD d = (if d < 10 then char_of (48 + d) else char_of (55 + d))"

definition url_plain :: "char \<Rightarrow> bool" where
  "url_plain c \<longleftrightarrow> isalnum c \<or> c \<in> {CHR ''-'', CHR ''_'', CHR ''.'', CHR ''~''}"

definition urlencode_char :: "char \<Rightarrow> string" where
  "urlencode_char c = (if url_plain c then [c]
     else [CHR ''%'', hexD ((of_char c :: nat) div 16), hexD ((of_char c :: nat) mod 16)])"

definition urlencode :: "string \<Rightarrow> string" where
  "urlencode s = concat (map urlencode_char s)"

section \<open>Messages\<close>

text \<open>A field as the reflection of protobuf describes it, as far as the messages read from forms have such
  fields: a string with its setter, a repeated field, a message.\<close>

datatype 'm pb_field = F_STRING "string \<Rightarrow> 'm \<Rightarrow> 'm" | F_REPEATED | F_MESSAGE

type_synonym 'm descriptor = "(string \<times> 'm pb_field) list"

definition set_field :: "'m descriptor \<Rightarrow> string \<times> string \<Rightarrow> 'm \<Rightarrow> 'm res" where
  "set_field d nv msg =
     (case map_of d (c_str (fst nv)) of
        None \<Rightarrow> Inr msg
      | Some F_REPEATED \<Rightarrow> Inl (BadQueryException ''pb object repeated field not supported in form'' 0)
      | Some (F_STRING setter) \<Rightarrow> Inr (setter (snd nv) msg)
      | Some F_MESSAGE \<Rightarrow> Inl (BadQueryException ''pb object message field not supported in form'' 0))"

definition form2pb :: "'m descriptor \<Rightarrow> string \<Rightarrow> 'm \<Rightarrow> 'm res" where
  "form2pb d form msg = foldR (set_field d) (urldecode form) msg"

definition LoginRespT_new :: LoginRespT where
  "LoginRespT_new = \<lparr>lr_username = [], lr_password = [], lr_sessionkey = []\<rparr>"

definition StatusT_new :: StatusT where
  "StatusT_new = \<lparr>st_success = False, st_inputcount = 0, st_updatecount = 0\<rparr>"

definition ResetRespT_new :: ResetRespT where
  "ResetRespT_new = \<lparr>rr_username = [], rr_oldpass = [], rr_newpass = [], rr_otp = [], rr_status = StatusT_new\<rparr>"

definition LoginRespT_descriptor :: "LoginRespT descriptor" where
  "LoginRespT_descriptor = [
     (''username'', F_STRING (\<lambda>v m. m\<lparr>lr_username := v\<rparr>)), (''password'', F_STRING (\<lambda>v m. m\<lparr>lr_password := v\<rparr>)),
     (''sessionkey'', F_STRING (\<lambda>v m. m\<lparr>lr_sessionkey := v\<rparr>)), (''error'', F_MESSAGE)]"

definition ResetRespT_descriptor :: "ResetRespT descriptor" where
  "ResetRespT_descriptor = [
     (''username'', F_STRING (\<lambda>v m. m\<lparr>rr_username := v\<rparr>)), (''oldpass'', F_STRING (\<lambda>v m. m\<lparr>rr_oldpass := v\<rparr>)),
     (''newpass'', F_STRING (\<lambda>v m. m\<lparr>rr_newpass := v\<rparr>)), (''otp'', F_STRING (\<lambda>v m. m\<lparr>rr_otp := v\<rparr>)), (''status'', F_MESSAGE)]"

section \<open>Decoding inverts encoding\<close>

lemma of_char_hexD: "d < 16 \<Longrightarrow> (of_char (hexD d) :: nat) = (if d < 10 then 48 + d else 55 + d)"
  by (auto simp: hexD_def of_char_of)

lemma from_hex_hexD: "d < 16 \<Longrightarrow> from_hex (hexD d) = word_of_nat d"
proof -
  assume d: "d < 16"
  consider "d < 10" | "10 \<le> d" by linarith
  then show ?thesis
  proof cases
    case 1
    then show ?thesis using d by (simp add: from_hex_def isdigit_def of_char_hexD)
  next
    case 2
    have "(word_of_nat (87 + d) :: 8 word) - 97 + 10 = word_of_nat d" by (simp add: algebra_simps)
    with 2 d show ?thesis
      by (simp add: from_hex_def isdigit_def isupper_def of_char_hexD of_char_tolower add.commute)
  qed
qed

lemma hex_char_hexD: "hex_char (hexD ((of_char c :: nat) div 16)) (hexD ((of_char c :: nat) mod 16)) = c"
proof -
  let ?n = "of_char c :: nat"
  have n: "?n div 16 < 16" "?n < 256" using less_mult_imp_div_less [of ?n 16 16] by simp_all
  have "push_bit 4 (word_of_nat (?n div 16)) OR word_of_nat (?n mod 16) = (word_of_nat (push_bit 4 (drop_bit 4 ?n) OR take_bit 4 ?n) :: 8 word)"
    by (simp add: of_nat_or_eq of_nat_push_bit drop_bit_eq_div take_bit_eq_mod)
  also have "push_bit 4 (drop_bit 4 ?n) OR take_bit 4 ?n = ?n"
    by (rule bit_eqI) (auto simp: bit_simps)
  finally show ?thesis
    using n by (simp add: hex_char_def from_hex_hexD unat_of_nat)
qed

lemma urldecode_plain: "url_plain c \<Longrightarrow> urldecode_loop (c # cs) name esc ns m = urldecode_loop cs name (esc @ [c]) ns m"
  by (subst urldecode_loop.simps) (auto simp: url_plain_def isalnum_def isdigit_def isupper_def islower_def)

lemma urldecode_encoded:
  "urldecode_loop (urlencode s @ cs) name esc ns m = urldecode_loop cs name (esc @ s) ns m"
proof (induction s arbitrary: esc)
  case Nil
  show ?case by (simp add: urlencode_def)
next
  case (Cons c s)
  have "urldecode_loop (urlencode_char c @ t) name esc ns m = urldecode_loop t name (esc @ [c]) ns m" for t
  proof (cases "url_plain c")
    case True
    then show ?thesis by (simp add: urlencode_char_def urldecode_plain)
  next
    case False
    have d: "(of_char c :: nat) div 16 < 16" "(of_char c :: nat) mod 16 < 16"
      using of_char_less_256 [of c] less_mult_imp_div_less [of "of_char c" 16 16] by simp_all
    from False show ?thesis
      by (simp add: urlencode_char_def urldecode_loop.simps(2) hex_char_hexD) (simp add: of_char_hexD [OF d(1)] of_char_hexD [OF d(2)])
  qed
  then show ?case using Cons.IH by (simp add: urlencode_def)
qed

text \<open>A form is what its fields look like one after the other.\<close>

fun form_of :: "(string \<times> string) list \<Rightarrow> string" where
  "form_of [] = []"
| "form_of [(n, v)] = urlencode n @ ''='' @ urlencode v"
| "form_of ((n, v) # fs) = urlencode n @ ''='' @ urlencode v @ ''&'' @ form_of fs"

lemma put_field_new: "k \<notin> fst ` set m \<Longrightarrow> put_field k v m = m @ [(k, v)]"
  by (induction k v m rule: put_field.induct) auto

lemma urldecode_form:
  assumes "fs \<noteq> []" and "distinct (map fst (m @ fs))"
  shows "urldecode_loop (form_of fs) name [] False m = m @ fs"
  using assms
proof (induction fs arbitrary: m name rule: form_of.induct)
  case 1
  then show ?case by simp
next
  case (2 n v)
  then show ?case
    using urldecode_encoded [of v "[]" n "[]" True m] by (simp add: urldecode_encoded urldecode_loop.simps(2) put_field_new)
next
  case (3 n v f fs)
  have "urldecode_loop (form_of ((n, v) # f # fs)) name [] False m = urldecode_loop (form_of (f # fs)) n [] False (m @ [(n, v)])"
    using 3(3) by (simp add: urldecode_encoded urldecode_loop.simps(2) put_field_new image_Un)
  also have "\<dots> = (m @ [(n, v)]) @ f # fs" by (rule 3(1)) (use 3(3) in auto)
  finally show ?case by simp
qed

text \<open>C35: A form that lists fields with distinct names, each name and each value url-encoded, is decoded to exactly these
  fields, whatever bytes they are made of; so a login or a password reset posted as a form is read as it was meant.\<close>

theorem form_roundtrip:
  assumes "fs \<noteq> []" and "distinct (map fst fs)"
  shows "urldecode (form_of fs) = fs \<and>
    form2pb LoginRespT_descriptor (form_of [(''username'', u), (''password'', p)]) LoginRespT_new =
      Inr \<lparr>lr_username = u, lr_password = p, lr_sessionkey = []\<rparr> \<and>
    form2pb ResetRespT_descriptor (form_of [(''username'', u), (''oldpass'', p), (''newpass'', q)]) ResetRespT_new =
      Inr (ResetRespT_new\<lparr>rr_username := u, rr_oldpass := p, rr_newpass := q\<rparr>)"
proof -
  have dec: "urldecode (form_of gs) = gs" if "gs \<noteq> []" "distinct (map fst gs)" for gs
    using urldecode_form [of gs "[]" "[]"] that by (simp add: urldecode_def)
  have c: "c_str ''username'' = ''username''" "c_str ''password'' = ''password''" "c_str ''oldpass'' = ''oldpass''" "c_str ''newpass'' = ''newpass''"
    by (simp_all add: c_str_def)
  show ?thesis
    using dec [OF assms] by (simp add: form2pb_def dec set_field_def c LoginRespT_descriptor_def ResetRespT_descriptor_def LoginRespT_new_def
      del: form_of.simps)
qed

theorem form_roundtrip_witness: "urldecode (form_of [(''a&b'', ''1=%''), ([], ''x y'')]) = [(''a&b'', ''1=%''), ([], ''x y'')]"
  using form_roundtrip [of "[(''a&b'', ''1=%''), ([], ''x y'')]"] by simp

end
