(* ===== verification/HttpServer.thy ===== *)
theory HttpServer
  imports HrpcClient ProtoForm
begin

text \<open>
  From the bytes of a request to the handler that answers it: the request line and the header fields
  (\<open>RequestMessage::parse\<close>, \<open>HttpHeader::parse\<close> of \<open>include/http/Utility.hpp\<close>), the choice of the resource
  (\<open>find_resource\<close> of \<open>HttpServerBase.hpp\<close>) and the bytes of an answer (\<open>include/query/ServiceBase.hpp\<close>). Sockets,
  time-outs and the chunked encoding are left out: the content is what follows the header.
\<close>

section \<open>Header fields\<close>

definition case_insensitive_equal :: "string \<Rightarrow> string \<Rightarrow> bool" where
  "case_insensitive_equal s t \<longleftrightarrow> length s = length t \<and> list_all2 (\<lambda>a b. tolower a = tolower b) s t"

text \<open>The fields in the order they were read. Of several with one name the first is found; the standard library
  is free to choose.\<close>

type_synonym header_fields = "(string \<times> string) list"

fun find_field :: "string \<Rightarrow> header_fields \<Rightarrow> string option" where
  "find_field n [] = None"
| "find_field n ((m, v) # hs) = (if case_insensitive_equal m n then Some v else find_field n hs)"

definition LF :: char where "LF = CHR 0x0A"
definition CR :: char where "CR = CHR 0x0D"

text \<open>\<open>std::getline\<close>: the line without its end, and what follows.\<close>

definition getline :: "string \<Rightarrow> (string \<times> string) option" where
  "getline s = (if s = [] then None else Some (takeWhile (\<lambda>c. c \<noteq> LF) s, drop 1 (dropWhile (\<lambda>c. c \<noteq> LF) s)))"

fun skip_spaces :: "string \<Rightarrow> string" where
  "skip_spaces (c # d # cs) = (if c = CHR '' '' then skip_spaces (d # cs) else c # d # cs)"
| "skip_spaces cs = cs"

definition drop_cr :: "string \<Rightarrow> string" where
  "drop_cr s = (if s \<noteq> [] \<and> List.last s = CR then butlast s else s)"

definition header_line :: "string \<Rightarrow> (string \<times> string) option" where
  "header_line line =
     (let v = skip_spaces (drop 1 (dropWhile (\<lambda>c. c \<noteq> CHR '':'') line))
      in if v = [] then None else Some (takeWhile (\<lambda>c. c \<noteq> CHR '':'') line, drop_cr v))"

lemma getline_shorter: "getline s = Some (line, rest) \<Longrightarrow> length rest < length s"
  using length_dropWhile_le [of "\<lambda>c. c \<noteq> LF" s] by (cases s) (auto simp: getline_def split: if_splits)

function HttpHeader_parse :: "string \<Rightarrow> header_fields \<times> string" where
  "HttpHeader_parse s =
     (case getline s of
        None \<Rightarrow> ([], s)
      | Some (line, rest) \<Rightarrow>
          if CHR '':'' \<notin> set line then ([], rest)
          else (case HttpHeader_parse rest of (hs, body) \<Rightarrow>
            (case header_line line of None \<Rightarrow> (hs, body) | Some h \<Rightarrow> (h # hs, body))))"
  by pat_completeness auto
termination
  by (relation "measure length") (auto dest: getline_shorter)

declare HttpHeader_parse.simps [simp del]

section \<open>Requests\<close>

record http_request =
  hr_method :: string
  hr_path :: string
  hr_query :: string
  hr_version :: string
  hr_header :: header_fields
  hr_content :: string

definition RequestMessage_parse :: "string \<Rightarrow> http_request option" where
  "RequestMessage_parse s =
     (case getline s of
        None \<Rightarrow> None
      | Some (line, rest) \<Rightarrow>
         if CHR '' '' \<notin> set line then None
         else (let after_method = drop 1 (dropWhile (\<lambda>c. c \<noteq> CHR '' '') line);
             target = takeWhile (\<lambda>c. c \<noteq> CHR '' '') after_method;
             proto = drop 1 (dropWhile (\<lambda>c. c \<noteq> CHR '' '') after_method) in
           if CHR '' '' \<notin> set after_method then None
           else if CHR ''/'' \<notin> set proto then None
           else if takeWhile (\<lambda>c. c \<noteq> CHR ''/'') proto \<noteq> ''HTTP'' then None
           else (case HttpHeader_parse rest of (hs, body) \<Rightarrow> Some \<lparr>
             hr_method = takeWhile (\<lambda>c. c \<noteq> CHR '' '') line,
             hr_path = takeWhile (\<lambda>c. c \<noteq> CHR ''?'') target,
             hr_query = drop 1 (dropWhile (\<lambda>c. c \<noteq> CHR ''?'') target),
             hr_version = butlast (drop 1 (dropWhile (\<lambda>c. c \<noteq> CHR ''/'') proto)),
             hr_header = hs, hr_content = body\<rparr>)))"

section \<open>Resources\<close>

text \<open>The regular expressions the services register are made of fixed texts, groups of alternatives and a last
  group \<open>(.*)\<close>; matching the whole path yields what the groups matched.\<close>

datatype piece = Lit string | Alt "string list" | Any

fun first_some :: "('a \<Rightarrow> 'b option) \<Rightarrow> 'a list \<Rightarrow> 'b option" where
  "first_some f [] = None"
| "first_some f (x # xs) = (case f x of None \<Rightarrow> first_some f xs | Some y \<Rightarrow> Some y)"

fun regex_match :: "piece list \<Rightarrow> string \<Rightarrow> string list option" where
  "regex_match [] s = (if s = [] then Some [] else None)"
| "regex_match (Lit l # ps) s = (if starts_with s l then regex_match ps (drop (length l) s) else None)"
| "regex_match (Alt as # ps) s = first_some (\<lambda>a. if starts_with s a then map_option ((#) a) (regex_match ps (drop (length a) s)) else None) as"
| "regex_match (Any # ps) s = (if ps = [] \<and> LF \<notin> set s \<and> CR \<notin> set s then Some [s] else None)"

text \<open>The resources in the order of their expressions, each with its method and its handler; a default for every
  method.\<close>

type_synonym 'h resources = "(piece list \<times> string \<times> 'h) list"

fun find_resource :: "(string list \<Rightarrow> 'h \<Rightarrow> 'a) \<Rightarrow> 'h resources \<Rightarrow> http_request \<Rightarrow> 'a option" where
  "find_resource serve [] rq = None"
| "find_resource serve ((re, method, h) # rs) rq =
     (if method = hr_method rq then
        (case regex_match re (hr_path rq) of Some groups \<Rightarrow> Some (serve groups h) | None \<Rightarrow> find_resource serve rs rq)
      else find_resource serve rs rq)"

section \<open>Answers\<close>

definition CRLF :: string where "CRLF = [CR, LF]"

definition HttpOKAction :: "http_request \<Rightarrow> int \<Rightarrow> string \<Rightarrow> string \<Rightarrow> string \<Rightarrow> string" where
  "HttpOKAction rq ec em content_type payload =
     ''HTTP/'' @ hr_version rq @ '' '' @ to_dec (nat ec) @ '' '' @ em @ CRLF @
     ''Content-Type: '' @ content_type @ CRLF @
     ''Content-Length: '' @ to_dec (length payload) @ CRLF @
     CRLF @ c_str payload"

definition HttpErrorAction :: "http_request \<Rightarrow> int \<Rightarrow> string \<Rightarrow> string" where
  "HttpErrorAction rq ec em =
     (let output = to_dec (nat ec) @ '' '' @ em @ hr_method rq @ '' '' @ hr_path rq @ '' HTTP/'' @ hr_version rq
      in ''HTTP/'' @ hr_version rq @ '' '' @ to_dec (nat ec) @ '' '' @ em @ CRLF @
         ''Content-Length: '' @ to_dec (length output) @ CRLF @ CRLF @ c_str output)"

text \<open>\<open>JsonRequest\<close>: the first sixteen characters of the content type, or else of what is accepted.\<close>

definition JsonRequest :: "http_request \<Rightarrow> bool" where
  "JsonRequest rq =
     (case (case find_field ''Content-Type'' (hr_header rq) of None \<Rightarrow> find_field ''Accept'' (hr_header rq) | Some c \<Rightarrow> Some c) of
        None \<Rightarrow> False
      | Some c \<Rightarrow> take 16 c = ''application/json'')"

section \<open>Facts\<close>

lemma regex_match_Any: "regex_match [Any] s = Some g \<Longrightarrow> g = [s]"
  by (auto split: if_splits)

lemma first_some_Some: "first_some f xs = Some y \<Longrightarrow> \<exists>x \<in> set xs. f x = Some y"
  by (induction xs) (auto split: option.splits)

text \<open>What the groups match are alternatives of the expression, and pieced together again they are the path.\<close>

fun path_of :: "piece list \<Rightarrow> string list \<Rightarrow> string" where
  "path_of (Lit l # ps) gs = l @ path_of ps gs"
| "path_of (Alt as # ps) (g # gs) = g @ path_of ps gs"
| "path_of (Any # ps) (g # gs) = g"
| "path_of _ _ = []"

fun fits_groups :: "piece list \<Rightarrow> string list \<Rightarrow> bool" where
  "fits_groups [] gs \<longleftrightarrow> gs = []"
| "fits_groups (Lit l # ps) gs \<longleftrightarrow> fits_groups ps gs"
| "fits_groups (Alt as # ps) gs \<longleftrightarrow> gs \<noteq> [] \<and> hd gs \<in> set as \<and> fits_groups ps (tl gs)"
| "fits_groups (Any # ps) gs \<longleftrightarrow> length gs = 1"

lemma regex_match_sound: "regex_match re s = Some gs \<Longrightarrow> fits_groups re gs \<and> path_of re gs = s"
proof (induction re arbitrary: s gs)
  case Nil
  then show ?case by (simp split: if_splits)
next
  case (Cons p ps)
  show ?case
  proof (cases p)
    case (Lit l)
    with Cons.prems obtain r where "s = l @ r" "regex_match ps r = Some gs"
      by (auto simp: starts_with_iff split: if_splits)
    with Cons.IH Lit show ?thesis by simp
  next
    case (Alt as)
    with Cons.prems obtain a r gs' where "a \<in> set as" "s = a @ r" "regex_match ps r = Some gs'" "gs = a # gs'"
      by (auto dest!: first_some_Some simp: starts_with_iff split: if_splits)
    with Cons.IH Alt show ?thesis by simp
  next
    case Any
    with Cons.prems show ?thesis by (auto split: if_splits)
  qed
qed

end
