(* ===== verification/SearchQuery.thy ===== *)
theory SearchQuery
  imports SearchIndex Profiles ItemDataService
begin

text \<open>
  The search itself: \<open>src/search/SearchBase.cc\<close> with \<open>ReadIndex.cc\<close> and \<open>DistanceSlabKeyMaker.cc\<close>, and what
  \<open>SearchLocal.cc\<close> and \<open>SearchWiki.cc\<close> make of the results. A request runs the rules of a query profile in turn,
  each a query to Xapian; the ids found are put in the order of rule weight and score. Xapian is a
  parameter: \<open>sx_mset\<close> gives the documents of a database that match a query string, at most so many, in the
  order of a key, ascending or descending; so are the spell checker and the conversion of text to floating point numbers.
\<close>

section \<open>Messages\<close>

record PointLocT =
  pl_ccode :: string
  pl_scode :: string
  pl_city :: string
  pl_lat :: real
  pl_lon :: real
  pl_geohash :: string
  pl_pincode :: string
  pl_region :: string
  pl_dont_use :: bool
  pl_preferred :: bool

record UsedTagT =
  ut_name :: string
  ut_value :: string

record UsedParamsT =
  up_location :: PointLocT
  up_items :: "64 word"
  up_lang :: int
  up_profile :: string
  up_dtyp :: int
  up_no_of_words :: "64 word"
  up_query :: string
  up_raw_query :: string
  up_extra :: string
  up_distance_band :: int
  up_distance_def :: real
  up_noname :: bool
  up_use_name :: bool
  up_full_words :: bool
  up_sort_by_dist :: bool
  up_all_partial :: bool
  up_begin_with :: bool
  up_last_partial :: bool
  up_extra_is_full :: bool
  up_filter_categories :: "string list"
  up_filter_tags :: "UsedTagT list"
  up_ids :: "64 word list"
  up_sortkeys :: "string list"
  up_scores :: "real list"

definition PointLocT_new :: PointLocT where
  "PointLocT_new = \<lparr>pl_ccode = [], pl_scode = [], pl_city = [], pl_lat = 0, pl_lon = 0, pl_geohash = [], pl_pincode = [],
     pl_region = [], pl_dont_use = False, pl_preferred = False\<rparr>"

definition UsedParamsT_new :: UsedParamsT where
  "UsedParamsT_new = \<lparr>up_location = PointLocT_new, up_items = 0, up_lang = 0, up_profile = [], up_dtyp = 0,
     up_no_of_words = 0, up_query = [], up_raw_query = [], up_extra = [], up_distance_band = 0, up_distance_def = 0,
     up_noname = False, up_use_name = False, up_full_words = False, up_sort_by_dist = False, up_all_partial = False,
     up_begin_with = False, up_last_partial = False, up_extra_is_full = False,
     up_filter_categories = [], up_filter_tags = [], up_ids = [], up_sortkeys = [], up_scores = []\<rparr>"

definition L_CCODE :: int where "L_CCODE = 1"
definition L_CITY :: int where "L_CITY = 2"
definition L_PINCODE :: int where "L_PINCODE = 3"
definition L_GEOHASH3 :: int where "L_GEOHASH3 = 4"
definition L_GEOHASH5 :: int where "L_GEOHASH5 = 5"
definition L_GEOHASH7 :: int where "L_GEOHASH7 = 6"
definition L_GEOHASH9 :: int where "L_GEOHASH9 = 7"
definition L_NBRHASH3 :: int where "L_NBRHASH3 = 8"
definition S_PARTIAL :: int where "S_PARTIAL = 2"
definition S_FULLWORD :: int where "S_FULLWORD = 3"
definition O_DIST_ONLY :: int where "O_DIST_ONLY = 2"
definition I_DEFAULT :: int where "I_DEFAULT = 0"

definition XAP_DSLAB_MAX_IMPORTANCE :: int where "XAP_DSLAB_MAX_IMPORTANCE = 100"
definition XAP_DSLAB_MAX_DISTANCE :: int where "XAP_DSLAB_MAX_DISTANCE = 400000"

text \<open>\<open>sx_before\<close> is the byte in front of an empty string, which \<open>back()\<close> reads.\<close>

record searcher = indexer +
  sx_unserialise :: "string \<Rightarrow> real"
  sx_metric :: "real \<Rightarrow> real \<Rightarrow> string \<Rightarrow> real"
  sx_mset :: "xdb \<Rightarrow> string \<Rightarrow> (xdoc \<Rightarrow> string) \<Rightarrow> bool \<Rightarrow> nat \<Rightarrow> xdoc list"
  sx_correct :: "int \<Rightarrow> string \<Rightarrow> string"
  sx_double :: "string \<Rightarrow> real option"
  sx_strtod :: "string \<Rightarrow> real"
  sx_before :: char

section \<open>Queries\<close>

text \<open>\<open>SanitParams\<close>\<close>

definition SanitParams :: "UsedParamsT \<Rightarrow> UsedParamsT" where
  "SanitParams params = params\<lparr>up_filter_categories := map SanitNSLower (up_filter_categories params),
     up_filter_tags := map (\<lambda>t. t\<lparr>ut_name := SanitNSLower (ut_name t)\<rparr>) (up_filter_tags params)\<rparr>"

datatype QueryWordsE = FULL_WORDS | LAST_PARTIAL | ALL_PARTIAL

definition GetQueryString :: "string list \<Rightarrow> QueryWordsE \<Rightarrow> string \<Rightarrow> string \<Rightarrow> string \<Rightarrow> string" where
  "GetQueryString wordstr qtype extra full_prefix part_prefix =
     concat (map (\<lambda>i. '' '' @ (if qtype = ALL_PARTIAL \<or> (qtype = LAST_PARTIAL \<and> i = length wordstr - 1)
                               then part_prefix else full_prefix) @ wordstr ! i) [0..<length wordstr]) @
     (if extra \<noteq> [] then '' '' @ extra else [])"

text \<open>The query string that \<open>FindNear\<close> and \<open>FindFull\<close> build in the same way\<close>

definition find_query :: "UsedParamsT \<Rightarrow> string list \<Rightarrow> string" where
  "find_query qr wordstr =
     (let qtype = (if up_all_partial qr then ALL_PARTIAL else if up_last_partial qr then LAST_PARTIAL else FULL_WORDS);
          full_prefix = (if up_use_name qr then ''+'' @ XAP_NAMEFULL_PREFIX else ''+'');
          part_prefix = (if up_use_name qr then ''+'' @ XAP_NAMEPART_PREFIX else ''+'' @ XAP_PARTWORD_PREFIX)
      in GetQueryString wordstr qtype (up_extra qr) full_prefix part_prefix @
         concat (map (\<lambda>c. '' +'' @ XAP_CATEGORY_PREFIX @ c) (up_filter_categories qr)) @
         concat (map (\<lambda>t. '' +'' @ XAP_TAG_PREFIX @ FormatTag (ut_name t) (ut_value t)) (up_filter_tags qr)))"

text \<open>\<open>boost::lexical_cast<uint64_t>\<close> of a value that \<open>std::to_string\<close> made; anything else is refused.\<close>

definition lexical_uint64 :: "string \<Rightarrow> 64 word res" where
  "lexical_uint64 s =
     (let n = foldl (\<lambda>a c. 10 * a + (of_char c - 48)) 0 s in
      if s \<noteq> [] \<and> list_all isdigit s \<and> n < 2 ^ 64 then Inr (of_nat n)
      else Inl (StdException ''bad lexical cast''))"

definition add_found :: "(xdoc \<Rightarrow> string) \<Rightarrow> xdoc \<Rightarrow> UsedParamsT \<Rightarrow> UsedParamsT res" where
  "add_found key d qr = bindR (lexical_uint64 (xd_values d XAP_ROCKSID_POS)) (\<lambda>i.
     Inr (qr\<lparr>up_ids := up_ids qr @ [i], up_sortkeys := up_sortkeys qr @ [key d]\<rparr>))"

text \<open>The databases there are: a directory for each language and type of index\<close>

type_synonym xdirs = "int \<Rightarrow> xdb option"

definition ReadIndex_Get :: "xdirs \<Rightarrow> int \<Rightarrow> int \<Rightarrow> xdb res" where
  "ReadIndex_Get dirs ltyp dtyp =
     (case dirs (db_number ltyp dtyp) of
        None \<Rightarrow> Inl (BadCodeException ''search dir does no exist for this language'' 0)
      | Some d \<Rightarrow> Inr d)"

definition importance_key :: "xdoc \<Rightarrow> string" where
  "importance_key d = xd_values d XAP_IMPORTANCE_POS"

definition FindFull :: "searcher \<Rightarrow> xdirs \<Rightarrow> UsedParamsT \<Rightarrow> (bool \<times> UsedParamsT) res" where
  "FindFull X dirs qr =
     bindR (ReadIndex_Get dirs (up_lang qr) (up_dtyp qr)) (\<lambda>d.
     let wordstr = SplitMerge (up_query qr) in
     if length wordstr = 0 then Inr (False, qr)
     else (let mset = sx_mset X d (find_query qr wordstr) importance_key True (unat (up_items qr)) in
       bindR (foldR (add_found importance_key) mset qr) (\<lambda>qr'. Inr (length mset > 0, qr'))))"

text \<open>The sort key of a document by its distance in slabs and, within a slab, its importance\<close>

definition to_int32 :: "int \<Rightarrow> int" where
  "to_int32 n = sint (word_of_int n :: 32 word)"

definition trunc :: "real \<Rightarrow> int" where
  "trunc x = (if x \<ge> 0 then \<lfloor>x\<rfloor> else \<lceil>x\<rceil>)"

definition DistanceSlab :: "searcher \<Rightarrow> real \<Rightarrow> real \<Rightarrow> int \<Rightarrow> int \<Rightarrow> xdoc \<Rightarrow> real" where
  "DistanceSlab X lat lon slab0 dd doc =
     (let slab = KeepInBound slab0 1 XAP_DSLAB_MAX_DISTANCE;
          defdist = KeepInBound dd 0 XAP_DSLAB_MAX_DISTANCE;
          val_l = xd_values doc XAP_LATLON_POS;
          dist = (if val_l \<noteq> [] then KeepInBound (llround (sx_metric X lat lon val_l)) 0 XAP_DSLAB_MAX_DISTANCE else defdist);
          dslab = 1 + dist div slab;
          val_o = KeepInBound (sx_unserialise X (xd_values doc XAP_IMPORTANCE_POS)) 0 (of_int XAP_DSLAB_MAX_IMPORTANCE)
      in of_int (dslab * XAP_DSLAB_MAX_IMPORTANCE) + (of_int XAP_DSLAB_MAX_IMPORTANCE - val_o))"

definition DistanceSlabKeyMaker :: "searcher \<Rightarrow> real \<Rightarrow> real \<Rightarrow> int \<Rightarrow> int \<Rightarrow> xdoc \<Rightarrow> string" where
  "DistanceSlabKeyMaker X lat lon slab0 dd doc = ix_serialise X (DistanceSlab X lat lon slab0 dd doc)"

definition near_key :: "searcher \<Rightarrow> UsedParamsT \<Rightarrow> xdoc \<Rightarrow> string" where
  "near_key X qr = DistanceSlabKeyMaker X (pl_lat (up_location qr)) (pl_lon (up_location qr))
     (to_int32 (up_distance_band qr)) (trunc (up_distance_def qr))"

definition FindNear :: "searcher \<Rightarrow> xdirs \<Rightarrow> UsedParamsT \<Rightarrow> (bool \<times> UsedParamsT) res" where
  "FindNear X dirs qr =
     bindR (ReadIndex_Get dirs (up_lang qr) (up_dtyp qr)) (\<lambda>d.
     if pl_dont_use (up_location qr) then Inr (False, qr)
     else (let wordstr = SplitMerge (up_query qr) in
       if \<not> up_noname qr \<and> length wordstr = 0 then Inr (False, qr)
       else (let mset = sx_mset X d (find_query qr wordstr) (near_key X qr) False (unat (up_items qr)) in
         bindR (foldR (add_found (near_key X qr)) mset qr) (\<lambda>qr'. Inr (length mset > 0, qr')))))"

section \<open>One rule\<close>

text \<open>The limit of a rule: the terms to add, or \<open>None\<close> when what it needs is missing\<close>

definition limit_extra :: "UsedParamsT \<Rightarrow> int \<Rightarrow> string option" where
  "limit_extra params lt =
     (let loc = up_location params; hash = pl_geohash loc;
          geo = (\<lambda>n pre. if pl_dont_use loc then None else Some ('' +'' @ FormatPrefix (take n hash) pre)) in
      if lt = L_CCODE then (if pl_ccode loc = [] then None else Some ('' +'' @ FormatPrefix (pl_ccode loc) XAP_CCODE_PREFIX))
      else if lt = L_CITY then
        (if pl_city loc = [] \<or> pl_ccode loc = [] then None else Some ('' +'' @ FormatPrefix (pl_city loc @ pl_ccode loc) XAP_CITY_PREFIX))
      else if lt = L_PINCODE then
        (if pl_pincode loc = [] \<or> pl_ccode loc = [] then None else Some ('' +'' @ FormatPrefix (pl_pincode loc @ pl_ccode loc) XAP_PINCODE_PREFIX))
      else if lt = L_GEOHASH3 then geo 3 XAP_GEOHASH3_PREFIX
      else if lt = L_GEOHASH5 then geo 5 XAP_GEOHASH5_PREFIX
      else if lt = L_GEOHASH7 then geo 7 XAP_GEOHASH7_PREFIX
      else if lt = L_GEOHASH9 then geo 9 XAP_GEOHASH9_PREFIX
      else if lt = L_NBRHASH3 then geo 3 XAP_NBRHASH3_PREFIX
      else if lt = L_NBRHASH5 then geo 5 XAP_NBRHASH5_PREFIX
      else Some [])"

definition begin_extra :: "UsedParamsT \<Rightarrow> string" where
  "begin_extra params =
     (let ss = Split_Space (up_query params) in
      if length ss > 0 then
        '' +'' @ (if up_all_partial params \<or> (up_last_partial params \<and> length ss = 1)
                  then XAP_BEGINPART_PREFIX else XAP_BEGINFULL_PREFIX) @ hd ss
      else [])"

definition search_type :: "int \<Rightarrow> UsedParamsT \<Rightarrow> UsedParamsT" where
  "search_type st p =
     (if st = S_PARTIAL then p\<lparr>up_all_partial := True\<rparr>
      else if st = S_FULLWORD then p\<lparr>up_last_partial := False\<rparr>
      else if st = S_NAME then p\<lparr>up_use_name := True\<rparr> else p)"

definition dsmax :: real where
  "dsmax = of_int (XAP_DSLAB_MAX_IMPORTANCE * XAP_DSLAB_MAX_DISTANCE)"

definition add_score :: "searcher \<Rightarrow> int \<Rightarrow> string \<Rightarrow> UsedParamsT \<Rightarrow> UsedParamsT" where
  "add_score X ot key p =
     (let sortkey = sx_unserialise X key in
      p\<lparr>up_scores := up_scores p @ [if ot = O_DIST_BAND \<or> ot = O_DIST_ONLY then dsmax - sortkey else sortkey]\<rparr>)"

definition rule_scores :: "searcher \<Rightarrow> int \<Rightarrow> UsedParamsT \<Rightarrow> (bool \<times> UsedParamsT) res" where
  "rule_scores X ot p =
     (if length (up_ids p) \<noteq> length (up_sortkeys p) then Inl (BadCodeException ''ids dont match sortkeys'' 0)
      else (let p' = fold (\<lambda>i q. add_score X ot (up_sortkeys q ! i) q) [0..<length (up_ids p)] p in
        if length (up_ids p') \<noteq> length (up_scores p') then Inl (BadCodeException ''ids dont match scores'' 0)
        else Inr (True, p')))"

definition RuleSearch :: "searcher \<Rightarrow> xdirs \<Rightarrow> UsedParamsT \<Rightarrow> QueryRuleT \<Rightarrow> (bool \<times> UsedParamsT) res" where
  "RuleSearch X dirs params rule =
     (let p1 = params\<lparr>up_items := KeepInBound (qr_max_records rule) 1 (up_items params)\<rparr>;
          p2 = (if qr_distance_def rule > 0 then p1\<lparr>up_distance_def := qr_distance_def rule\<rparr> else p1);
          p3 = (if qr_distance_band rule > 0 then p2\<lparr>up_distance_band := qr_distance_band rule\<rparr> else p2)
      in
      if qr_input_type rule \<noteq> I_DEFAULT \<and> qr_input_type rule \<noteq> I_ONEWORD then Inr (False, p3)
      else if qr_input_type rule = I_ONEWORD \<and>
         (up_no_of_words p3 > 1 \<or> (qr_oneword_length rule > 0 \<and> of_nat (length (up_query p3)) > qr_oneword_length rule))
      then Inr (False, p3)
      else (case limit_extra p3 (qr_limit_type rule) of None \<Rightarrow> Inr (False, p3)
        | Some limit \<Rightarrow>
          (let extra = limit @ (if qr_search_type rule = S_BEGINWITH then begin_extra p3 else []);
               p4 = (search_type (qr_search_type rule) p3)\<lparr>up_extra := extra\<rparr>;
               ot = qr_order_type rule
           in
           if ot = O_DIST_BAND then
             (if pl_dont_use (up_location p4) then Inr (False, p4)
              else bindR (FindNear X dirs p4) (\<lambda>(_, p5). rule_scores X ot p5))
           else if ot = O_DIST_ONLY then
             (if pl_dont_use (up_location p4) then Inr (False, p4)
              else bindR (FindNear X dirs (p4\<lparr>up_distance_band := 10\<rparr>)) (\<lambda>(_, p5). rule_scores X ot p5))
           else bindR (FindFull X dirs p4) (\<lambda>(_, p5). rule_scores X ot p5))))"

section \<open>The rules of a profile\<close>

text \<open>The ordered map of the results: \<open>emplace\<close> leaves a key that is there as it is.\<close>

definition emplace_key :: "string \<Rightarrow> 'v \<Rightarrow> (string \<times> 'v) list \<Rightarrow> (string \<times> 'v) list" where
  "emplace_key k v m = (if k \<in> fst ` set m then m else insort_key fst (k, v) m)"

record found =
  fd_weight :: "64 word"
  fd_ids :: "64 word list"
  fd_map :: "(string \<times> 64 word) list"

definition found_new :: found where
  "found_new = \<lparr>fd_weight = 0, fd_ids = [], fd_map = []\<rparr>"

definition add_result :: "64 word \<Rightarrow> 64 word \<times> real \<Rightarrow> found \<Rightarrow> found" where
  "add_result weight = (\<lambda>(i, score) f.
     if i \<in> set (fd_ids f) then f
     else f\<lparr>fd_ids := fd_ids f @ [i], fd_map := emplace_key (EncodeSortKey weight score i) i (fd_map f)\<rparr>)"

fun rules_loop :: "searcher \<Rightarrow> xdirs \<Rightarrow> 64 word \<Rightarrow> UsedParamsT \<Rightarrow> QueryRuleT list \<Rightarrow> found \<Rightarrow> found res" where
  "rules_loop X dirs counter qr [] f = Inr f"
| "rules_loop X dirs counter qr (rule # rules) f =
     (if fd_weight f > qr_weight rule \<and> of_nat (length (fd_ids f)) \<ge> counter then Inr f
      else bindR (RuleSearch X dirs qr rule) (\<lambda>(_, nqr).
        rules_loop X dirs counter qr rules
          ((fold (add_result (qr_weight rule)) (zip (up_ids nqr) (up_scores nqr)) f)\<lparr>fd_weight := qr_weight rule\<rparr>)))"

text \<open>The second round with the corrected query, when the first one found nothing\<close>

definition two_rounds :: "searcher \<Rightarrow> xdirs \<Rightarrow> 64 word \<Rightarrow> UsedParamsT \<Rightarrow> string \<Rightarrow> QueryRuleT list \<Rightarrow> (found \<times> UsedParamsT) res" where
  "two_rounds X dirs counter qr corrected rules =
     bindR (rules_loop X dirs counter qr rules found_new) (\<lambda>f.
     if corrected = [] \<or> length (fd_ids f) > 0 then Inr (f, qr)
     else (let qr' = qr\<lparr>up_query := StemQuery (ix_stem X) corrected (\<not> up_full_words qr)\<rparr> in
       bindR (rules_loop X dirs counter qr' rules f) (\<lambda>f'. Inr (f', qr'))))"

definition GetExterProfile :: "('b, 'd) env \<Rightarrow> string \<Rightarrow> int \<Rightarrow> (('b, 'd) shared, QueryProfT option) act" where
  "GetExterProfile E exter query_type =
     bindA (Exter_Get E (UserDataT_new\<lparr>user_name := exter\<rparr>)) (\<lambda>user.
     ret (if user_notfound user then None else find (\<lambda>p. qp_query_type p = query_type) (user_profiles user)))"

definition back_char :: "searcher \<Rightarrow> string \<Rightarrow> char" where
  "back_char X s = (if s = [] then sx_before X else List.last s)"

text \<open>Where the last word of a flattened query begins: \<open>substr(0,pos)\<close> and \<open>substr(pos)\<close> for the last space\<close>

definition split_last_space :: "string \<Rightarrow> (string \<times> string) option" where
  "split_last_space q =
     (if CHR '' '' \<in> set q then
        (let tail = rev (takeWhile (\<lambda>c. c \<noteq> CHR '' '') (rev q)) in
         Some (take (length q - length tail - 1) q, CHR '' '' # tail))
      else None)"

text \<open>The parameters made from the text typed, and the corrected query (empty if there is none)\<close>

definition prepare_query :: "searcher \<Rightarrow> UsedParamsT \<Rightarrow> UsedParamsT \<times> string" where
  "prepare_query X qr =
     (let last = (back_char X (up_raw_query qr) \<noteq> CHR '' '');
          full = (if \<not> up_full_words qr then \<not> last else True);
          (q, wc) = FlattenCount (up_raw_query qr);
          corrected = (if full then sx_correct X (up_lang qr) q
            else (case split_last_space q of Some (a, b) \<Rightarrow> sx_correct X (up_lang qr) a @ b | None \<Rightarrow> []))
      in (qr\<lparr>up_last_partial := last, up_full_words := full, up_no_of_words := of_nat wc,
             up_query := StemQuery (ix_stem X) q (\<not> full)\<rparr>,
          if q = corrected then [] else corrected))"

definition SearchByProfile :: "('b, 'd) env \<Rightarrow> searcher \<Rightarrow> xdirs \<Rightarrow> int \<Rightarrow> UsedParamsT \<Rightarrow> (('b, 'd) shared, ItemDataT list \<times> UsedParamsT) act" where
  "SearchByProfile E X dirs query_type qr =
     bindA (GetExterProfile E (up_profile qr) query_type) (\<lambda>prof.
     case prof of None \<Rightarrow> raise (BadDataException ''This search profile does not exist'' 0)
     | Some qprof \<Rightarrow>
       bindA (liftR (\<lambda>_. if pl_dont_use (up_location qr) then Inr (up_location qr)
         else bindR (Encode (pl_lat (up_location qr)) (pl_lon (up_location qr)) 9)
           (\<lambda>h. Inr ((up_location qr)\<lparr>pl_geohash := h\<rparr>)))) (\<lambda>loc.
       let counter = KeepInBound (up_items qr) 1 100;
           qr1 = qr\<lparr>up_location := loc, up_items := counter\<rparr>;
           (qr2, corrected) = (if \<not> up_noname qr1 then prepare_query X qr1 else (qr1, []))
       in if \<not> up_noname qr1 \<and> up_no_of_words qr2 = 0 then ret ([], qr2)
       else bindA (liftR (\<lambda>_. two_rounds X dirs counter qr2 corrected (qp_rules qprof))) (\<lambda>(f, qr3).
         ret (map (\<lambda>(_, i). ItemDataT_new\<lparr>item_id := i\<rparr>) (rev (fd_map f)), qr3))))"

end
