(* ===== verification/SearchService.thy ===== *)
theory SearchService
  imports SearchQuery ProtoForm
begin

text \<open>
  The services of the search: \<open>src/search/SearchLocal.cc\<close> and \<open>SearchWiki.cc\<close>, which make an answer of the items
  found, and the parameters of a request in \<open>include/query/SearchCompletionService.hpp\<close>. A request opens
  the index anew and sees at least what was committed last.
\<close>

section \<open>Messages\<close>

record PhotonPropT =
  pp_osm_id :: int
  pp_osm_key :: string
  pp_osm_value :: string
  pp_osm_type :: string
  pp_city :: string
  pp_country :: string
  pp_state :: string
  pp_name :: string
  pp_address :: string
  pp_postcode :: string
  pp_area :: string
  pp_extent :: "real list"

record PhotonGeomT =
  pg_type :: string
  pg_coordinates :: "real list"

record PhotonDataT =
  pd_type :: string
  pd_properties :: PhotonPropT
  pd_geometry :: PhotonGeomT

record PhotonResultT =
  ph_type :: string
  ph_features :: "PhotonDataT list"

record ItemResultT =
  ir_records :: "ItemDataT list"

record SearchCompletionRespT =
  sc_username :: string
  sc_sessionkey :: string
  sc_status :: StatusT
  sc_cdata :: UsedParamsT
  sc_cresp :: ItemResultT
  sc_photondata :: PhotonResultT
  sc_wikidata :: ItemResultT

definition SearchCompletionRespT_new :: SearchCompletionRespT where
  "SearchCompletionRespT_new = \<lparr>sc_username = [], sc_sessionkey = [], sc_status = StatusT_new,
     sc_cdata = UsedParamsT_new, sc_cresp = \<lparr>ir_records = []\<rparr>,
     sc_photondata = \<lparr>ph_type = [], ph_features = []\<rparr>, sc_wikidata = \<lparr>ir_records = []\<rparr>\<rparr>"

section \<open>Items found, as places\<close>

text \<open>The expression \<open>BOX\((n) (n),(n) (n)\)\<close> for numbers of digits, signs and points, and where it matches first\<close>

definition numeric :: "char \<Rightarrow> bool" where
  "numeric c \<longleftrightarrow> isdigit c \<or> c = CHR ''-'' \<or> c = CHR ''.''"

fun numbers :: "string \<Rightarrow> string \<Rightarrow> string list option" where
  "numbers [] s = Some []"
| "numbers (c # cs) s =
     (let n = takeWhile numeric s; t = dropWhile numeric s in
      if t \<noteq> [] \<and> hd t = c then map_option (\<lambda>ns. n # ns) (numbers cs (tl t)) else None)"

fun bbox_search :: "string \<Rightarrow> string list option" where
  "bbox_search [] = None"
| "bbox_search (c # cs) =
     (case (if starts_with (c # cs) ''BOX('' then numbers '' , )'' (drop 4 (c # cs)) else None) of
        Some ns \<Rightarrow> Some ns | None \<Rightarrow> bbox_search cs)"

text \<open>A number that cannot be read ends the list.\<close>

fun extents :: "searcher \<Rightarrow> string list \<Rightarrow> real list" where
  "extents X [] = []"
| "extents X (n # ns) = (case sx_double X n of None \<Rightarrow> [] | Some d \<Rightarrow> d # extents X ns)"

definition extent :: "searcher \<Rightarrow> string \<Rightarrow> real list" where
  "extent X geometry = (case bbox_search geometry of None \<Rightarrow> [] | Some ns \<Rightarrow> extents X ns)"

definition photon_feature :: "searcher \<Rightarrow> ItemDataT \<Rightarrow> PhotonDataT" where
  "photon_feature X r = \<lparr>pd_type = ''Feature'',
     pd_properties = \<lparr>pp_osm_id = item_osm_id r, pp_osm_key = item_osm_key r, pp_osm_value = item_osm_value r,
       pp_osm_type = item_osm_type r, pp_city = item_city r, pp_country = item_country r, pp_state = item_state r,
       pp_name = PrintWith_String CHR '','' [item_fld_name r, item_fld_area r], pp_address = item_address r,
       pp_postcode = item_pincode r, pp_area = item_fld_area r, pp_extent = extent X (item_geometry r)\<rparr>,
     pd_geometry = \<lparr>pg_type = ''Point'', pg_coordinates = [item_lon r, item_lat r]\<rparr>\<rparr>"

definition wiki_result :: "ItemDataT \<Rightarrow> ItemDataT" where
  "wiki_result r = ItemDataT_new\<lparr>item_title := item_title r, item_summary := item_summary r, item_unique_id := item_unique_id r\<rparr>"

text \<open>The records found in the table, as many as were asked for\<close>

definition some_found :: "64 word \<Rightarrow> ItemDataT list \<Rightarrow> ItemDataT list" where
  "some_found counter rs = take (unat counter) (filter (\<lambda>r. \<not> item_notfound r) rs)"

definition Local_CompletionQueryAction :: "('b, 'd) env \<Rightarrow> searcher \<Rightarrow> xdirs \<Rightarrow> SearchCompletionRespT \<Rightarrow> (('b, 'd) shared, SearchCompletionRespT) act" where
  "Local_CompletionQueryAction E X dirs resp =
     (let counter = KeepInBound (up_items (sc_cdata resp)) 1 100;
          query_type = (if up_noname (sc_cdata resp) then QRY_COMPLETION_NOTOPH else QRY_COMPLETION_PHOTON)
      in bindA (SearchByProfile E X dirs query_type (SanitParams (sc_cdata resp))) (\<lambda>(recs, qr).
         bindA (liftR (\<lambda>s. Local_GetManyRecords E (kv_get E (db s)) recs)) (\<lambda>recs'.
         ret (resp\<lparr>sc_cdata := qr, sc_cresp := \<lparr>ir_records = recs'\<rparr>,
           sc_photondata := \<lparr>ph_type = ''FeatureCollection'', ph_features = map (photon_feature X) (some_found counter recs')\<rparr>\<rparr>))))"

definition Wiki_CompletionQueryAction :: "('b, 'd) env \<Rightarrow> searcher \<Rightarrow> xdirs \<Rightarrow> SearchCompletionRespT \<Rightarrow> (('b, 'd) shared, SearchCompletionRespT) act" where
  "Wiki_CompletionQueryAction E X dirs resp =
     (let counter = KeepInBound (up_items (sc_cdata resp)) 1 100
      in bindA (SearchByProfile E X dirs QRY_COMPLETION_WIKIDATA (SanitParams (sc_cdata resp))) (\<lambda>(recs, qr).
         bindA (liftR (\<lambda>s. Wiki_GetManyRecords E (kv_get E (db s)) recs)) (\<lambda>recs'.
         ret (resp\<lparr>sc_cdata := qr, sc_cresp := \<lparr>ir_records = recs'\<rparr>,
           sc_wikidata := \<lparr>ir_records = map wiki_result (some_found counter recs')\<rparr>\<rparr>))))"

section \<open>The databases a request sees\<close>

text \<open>Of the calls made to the index those up to the last commit are seen, or more when Xapian flushed of itself.\<close>

definition last_commit :: "xap_event list \<Rightarrow> nat" where
  "last_commit evs = length (dropWhile (\<lambda>e. e \<noteq> XapCommit) (rev evs))"

definition read_dirs :: "searcher \<Rightarrow> (xap_event list \<Rightarrow> nat) \<Rightarrow> xap_event list \<Rightarrow> xdirs" where
  "read_dirs X flushed evs = (\<lambda>n.
     if n = db_number LANG_EN I_LOCALDATA \<or> n = db_number LANG_EN I_WIKIDATA
     then Some (wi_written (index_of (indexer.truncate X) (take (max (last_commit evs) (flushed evs)) evs)) n) else None)"

section \<open>The parameters of a request\<close>

text \<open>\<open>strtoul\<close> to the base 10: no digits give 0, too many the greatest number.\<close>

definition strtoul10 :: "string \<Rightarrow> 64 word" where
  "strtoul10 s = (case strip_sign (dropWhile isspace s) of (neg, ds) \<Rightarrow>
     let n = read_dec ds 0 in if n \<ge> 2 ^ 64 then - 1 else if neg then - of_nat n else of_nat n)"

definition toupper :: "char \<Rightarrow> char" where
  "toupper c = (if islower c then char_of (of_char c - 32 :: nat) else c)"

definition search_kind :: "string \<Rightarrow> UsedParamsT" where
  "search_kind kind =
     (if kind = ''photon'' then UsedParamsT_new\<lparr>up_dtyp := I_LOCALDATA\<rparr>
      else if kind = ''notoph'' then UsedParamsT_new\<lparr>up_dtyp := I_LOCALDATA, up_noname := True\<rparr>
      else if kind = ''textdata'' then UsedParamsT_new\<lparr>up_dtyp := I_WIKIDATA, up_location := PointLocT_new\<lparr>pl_dont_use := True\<rparr>\<rparr>
      else UsedParamsT_new)"

definition search_lang :: "string option \<Rightarrow> int res" where
  "search_lang l = (case l of None \<Rightarrow> Inr LANG_EN
     | Some t \<Rightarrow> if map toupper t = ''EN'' then Inr LANG_EN
         else Inl (InitialException ''This language is not supported'' 0))"

text \<open>Without a longitude the place is not used; whether there is a latitude is not looked at.\<close>

definition search_location :: "searcher \<Rightarrow> (string \<Rightarrow> string option) \<Rightarrow> PointLocT \<Rightarrow> PointLocT" where
  "search_location X p loc =
     (let loc1 = (case p ''lon'' of None \<Rightarrow> loc | Some t \<Rightarrow> loc\<lparr>pl_lon := sx_strtod X t\<rparr>);
          loc2 = (case p ''lat'' of None \<Rightarrow> loc1 | Some t \<Rightarrow> loc1\<lparr>pl_lat := sx_strtod X t\<rparr>)
      in if p ''lon'' = None then loc2\<lparr>pl_dont_use := True\<rparr> else loc2)"

definition search_params :: "searcher \<Rightarrow> string \<Rightarrow> string \<Rightarrow> (string \<times> string) list \<Rightarrow> UsedParamsT res" where
  "search_params X kind profile params =
     (let p = map_of params; c = search_kind kind in
      if profile = [] then Inl (InitialException ''Invalid Profile Name'' 0)
      else bindR (search_lang (p ''lang'')) (\<lambda>lang.
        let loc = search_location X p (up_location c) in
        if up_noname c \<and> pl_dont_use loc then Inl (InitialException ''notoph needs lat lon'' 0)
        else Inr (c\<lparr>up_profile := profile, up_lang := lang,
          up_raw_query := (case p ''q'' of None \<Rightarrow> [] | Some t \<Rightarrow> t),
          up_full_words := (case p ''f'' of None \<Rightarrow> False | Some t \<Rightarrow> strtoul10 t > 0),
          up_items := (case p ''limit'' of None \<Rightarrow> 10 | Some t \<Rightarrow> strtoul10 t),
          up_location := loc\<lparr>pl_ccode := (case p ''ccode'' of None \<Rightarrow> [] | Some t \<Rightarrow> t),
            pl_city := (case p ''city'' of None \<Rightarrow> [] | Some t \<Rightarrow> t)\<rparr>\<rparr>)))"

end
