(* ===== verification/QueryServices.thy ===== *)
theory QueryServices
  imports Endpoints HttpServer SearchService
begin

text \<open>
  The HTTP services for clients (\<open>include/query\<close>): a request is read from JSON, checked, given its action by
  the path, done here or sent to the master, and answered in JSON; every exception becomes an error answer.
  The conversion between messages and JSON is that of the protobuf library, a parameter here. Every handler
  runs as one step; the fields \<open>getall\<close> of categories and \<open>datatype\<close> of items, which no code reads, are left out.
\<close>

section \<open>JSON\<close>

text \<open>\<open>JsonStringToMessage\<close>: whether it succeeded and what the message holds afterwards. \<open>MessageToJsonString\<close> may fail.\<close>

record 'm json =
  js_parse :: "string \<Rightarrow> bool \<times> 'm"
  js_print :: "'m \<Rightarrow> string option"

record ErrorT =
  err_status :: string
  err_msg :: string

record InfoStateT =
  inf_hostname :: string
  inf_master :: string
  inf_is_master :: bool
  inf_is_ready :: bool
  inf_ts :: "64 word"

record web =
  j_tag :: "TagDataT DataRespT json"
  j_cat :: "CategoryT DataRespT json"
  j_user :: "UserDataT DataRespT json"
  j_item :: "ItemDataT DataRespT json"
  j_login :: "LoginRespT json"
  j_reset :: "ResetRespT json"
  j_status :: "StatusT json"
  j_err :: "ErrorT json"
  j_info :: "InfoStateT json"
  j_photon :: "PhotonResultT json"
  j_wiki :: "ItemResultT json"
  w_searcher :: searcher
  w_flushed :: "xap_event list \<Rightarrow> nat"

definition M_BAD_JSON :: int where "M_BAD_JSON = 102"
definition ZPDS_UPLOAD_MAX_RECORDS :: nat where "ZPDS_UPLOAD_MAX_RECORDS = 10000"
definition ZPDS_NUPLOAD_MAX_RECORDS :: nat where "ZPDS_NUPLOAD_MAX_RECORDS = 100"
definition ZPDS_MAX_HEX_VALUE_FIFTEEN :: int where "ZPDS_MAX_HEX_VALUE_FIFTEEN = 0x0FFFF"

text \<open>\<open>json2pb\<close> returns a \<open>bool\<close>, \<open>pb2json\<close> throws.\<close>

definition json2pb :: "'m json \<Rightarrow> string \<Rightarrow> bool \<times> 'm" where
  "json2pb J txt = js_parse J txt"

definition pb2json :: "'m json \<Rightarrow> 'm \<Rightarrow> string res" where
  "pb2json J msg = (case js_print J msg of None \<Rightarrow> Inl (BadDataException ''Broken Pb2Json'' 0) | Some s \<Rightarrow> Inr s)"

definition show_int :: "int \<Rightarrow> string" where
  "show_int i = (if i < 0 then ''-'' @ to_dec (nat (- i)) else to_dec (nat i))"

definition err2json :: "int \<Rightarrow> string \<Rightarrow> string" where
  "err2json errorcode error = ''{'' @ [CHR 0x22] @ ''errorcode'' @ [CHR 0x22] @ '':'' @ show_int errorcode @
     '','' @ [CHR 0x22] @ ''error'' @ [CHR 0x22] @ '':'' @ [CHR 0x22] @ error @ [CHR 0x22] @ ''}''"

text \<open>The code and the text of an exception, as the two handlers of a service take them; \<open>what()\<close> ends at a NUL.\<close>

fun ecode :: "exn \<Rightarrow> int" where
  "ecode (InitialException m c) = c"
| "ecode (ConfigException m c) = c"
| "ecode (BadDataException m c) = c"
| "ecode (BadCodeException m c) = c"
| "ecode (LocalException m c) = c"
| "ecode BadGeoHashException = 0"
| "ecode (BadQueryException m c) = c"
| "ecode (StdException m) = M_UNKNOWN"

fun what :: "exn \<Rightarrow> string" where
  "what (InitialException m c) = c_str m"
| "what (ConfigException m c) = c_str m"
| "what (BadDataException m c) = c_str m"
| "what (BadCodeException m c) = c_str m"
| "what (LocalException m c) = c_str m"
| "what BadGeoHashException = []"
| "what (BadQueryException m c) = c_str m"
| "what (StdException m) = c_str m"

section \<open>What the handlers have in common\<close>

definition json_answer :: "http_request \<Rightarrow> string \<Rightarrow> string" where
  "json_answer rq output = HttpOKAction rq 200 ''OK'' ''application/json'' output"

text \<open>The time is taken before and after, for the log.\<close>

definition answer :: "('b, 'd) env \<Rightarrow> http_request \<Rightarrow> (('b, 'd) shared, string) act \<Rightarrow> ('b, 'd) shared \<Rightarrow> string \<times> ('b, 'd) shared" where
  "answer E rq body s =
     (case body (snd (CURRTIME_MS E s)) of
        (Inr output, s') \<Rightarrow> (json_answer rq output, snd (CURRTIME_MS E s'))
      | (Inl e, s') \<Rightarrow> (json_answer rq (err2json (ecode e) (what e)), snd (CURRTIME_MS E s')))"

definition read_json :: "'m json \<Rightarrow> http_request \<Rightarrow> 'm res" where
  "read_json J rq =
     (if JsonRequest rq then
        (case json2pb J (hr_content rq) of (ok, getp) \<Rightarrow>
          (let stat = (if ok then 1 else 0 :: int) in
           if stat < 0 then Inl (InitialException ''Bad Json Format'' M_BAD_JSON) else Inr getp))
      else Inl (InitialException ''Only Json Format'' M_BAD_JSON))"

definition read_data :: "'m DataRespT json \<Rightarrow> nat \<Rightarrow> http_request \<Rightarrow> 'm DataRespT res" where
  "read_data J max_records rq =
     bindR (read_json J rq) (\<lambda>getp.
     if dr_username getp = [] then Inl (InitialException ''Bad Json Data'' M_BAD_JSON)
     else if length (dr_payloads getp) > max_records
     then Inl (BadDataException ''Cannot handle that many records, max exceeded'' M_INVALID_PARAM)
     else Inr getp)"

definition web_ready :: "(('b, 'd) shared, unit) act" where
  "web_ready = bindA (readA is_ready) (\<lambda>ready. throwIf (\<not> ready) (BadDataException ''System Not Ready'' 0))"

text \<open>A change is made by the master: here, or there by the same command.\<close>

definition to_master :: "('b, 'd) env \<Rightarrow> ('m, 'b) codec \<Rightarrow> int \<Rightarrow> 'm \<Rightarrow> (('b, 'd) shared, 'm) act" where
  "to_master E c service_id msg = (\<lambda>s.
     (case SendToMaster E c service_id msg False s of
        ((Inl e, m), s') \<Rightarrow> (Inl e, s')
      | ((Inr _, m), s') \<Rightarrow> (Inr m, s')))"

definition at_master :: "('b, 'd) env \<Rightarrow> ('m, 'b) codec \<Rightarrow> int \<Rightarrow> ('m \<Rightarrow> (('b, 'd) shared, 'm) act) \<Rightarrow> 'm \<Rightarrow> (('b, 'd) shared, 'm) act" where
  "at_master E c service_id serv getp =
     bindA (readA is_master) (\<lambda>m. if m then serv getp else to_master E c service_id getp)"

definition unknown_api :: exn where
  "unknown_api = BadCodeException ''Unknown API used'' 0"

text \<open>With \<open>hide_counters\<close> the client does not learn how many records there were.\<close>

definition status_out :: "web \<Rightarrow> bool \<Rightarrow> StatusT \<Rightarrow> string res" where
  "status_out W hide st = pb2json (j_status W) (if hide then st\<lparr>st_inputcount := 0, st_updatecount := 0\<rparr> else st)"

text \<open>A handler that changes data: \<open>path\<close> is what the path makes of the message.\<close>

definition web_write :: "('b, 'd) env \<Rightarrow> web \<Rightarrow> 'm DataRespT json \<Rightarrow> nat \<Rightarrow> ('m DataRespT \<Rightarrow> ('m DataRespT \<times> bool) res) \<Rightarrow>
    ('m DataRespT \<Rightarrow> (('b, 'd) shared, 'm DataRespT) act) \<Rightarrow> http_request \<Rightarrow> ('b, 'd) shared \<Rightarrow> string \<times> ('b, 'd) shared" where
  "web_write E W J max_records path serv rq = answer E rq (
     bindA (liftR (\<lambda>_. bindR (read_data J max_records rq) path)) (\<lambda>(getp, hide).
     bindA web_ready (\<lambda>_.
     bindA (serv getp) (\<lambda>resp.
     liftR (\<lambda>_. status_out W hide (dr_status resp))))))"

text \<open>A handler that reads: \<open>tidy\<close> clears the fields that are not sent back.\<close>

definition web_read :: "('b, 'd) env \<Rightarrow> 'm DataRespT json \<Rightarrow> ('m DataRespT \<Rightarrow> 'm DataRespT res) \<Rightarrow> ('m DataRespT \<Rightarrow> 'm DataRespT) \<Rightarrow>
    ('m DataRespT \<Rightarrow> (('b, 'd) shared, 'm DataRespT) act) \<Rightarrow> http_request \<Rightarrow> ('b, 'd) shared \<Rightarrow> string \<times> ('b, 'd) shared" where
  "web_read E J path tidy serv rq = answer E rq (
     bindA (liftR (\<lambda>_. bindR (read_data J ZPDS_NUPLOAD_MAX_RECORDS rq) path)) (\<lambda>getp.
     bindA web_ready (\<lambda>_.
     bindA (serv getp) (\<lambda>resp. liftR (\<lambda>_. pb2json J (tidy resp))))))"

definition clear_request :: "'m DataRespT \<Rightarrow> 'm DataRespT" where
  "clear_request getp = getp\<lparr>dr_username := [], dr_sessionkey := [], dr_status := StatusT_new, dr_action := 0\<rparr>"

text \<open>The path of the services for categories and tags.\<close>

definition simple_write_path :: "string \<Rightarrow> 'm DataRespT \<Rightarrow> ('m DataRespT \<times> bool) res" where
  "simple_write_path act getp =
     (if act = ''create'' then Inr (getp\<lparr>dr_action := W_CREATE\<rparr>, False)
      else if act = ''upsert'' then Inr (getp\<lparr>dr_action := W_UPSERT\<rparr>, False)
      else if act = ''update'' then Inr (getp\<lparr>dr_action := W_UPDATE\<rparr>, False)
      else if act = ''delete'' then Inr (getp\<lparr>dr_action := W_DELETE\<rparr>, False)
      else Inl unknown_api)"

definition simple_read_path :: "'m \<Rightarrow> string \<Rightarrow> 'm DataRespT \<Rightarrow> 'm DataRespT res" where
  "simple_read_path blank_payload act getp =
     (if act = ''getone'' then Inr (getp\<lparr>dr_payloads := []\<rparr>)
      else if act = ''getmany'' then Inr (getp\<lparr>dr_payload := blank_payload\<rparr>)
      else Inl unknown_api)"

section \<open>\<open>CategoryService\<close> and \<open>TagDataService\<close>\<close>

definition Category_web_write :: "('b, 'd) env \<Rightarrow> web \<Rightarrow> 'b master_codecs \<Rightarrow> string \<Rightarrow> http_request \<Rightarrow> ('b, 'd) shared \<Rightarrow> string \<times> ('b, 'd) shared" where
  "Category_web_write E W C act =
     web_write E W (j_cat W) ZPDS_NUPLOAD_MAX_RECORDS (simple_write_path act)
       (at_master E (c_catresp C) M_MANAGE_CATEGORY (Category_ManageDataAction E))"

definition Category_web_read :: "('b, 'd) env \<Rightarrow> web \<Rightarrow> string \<Rightarrow> http_request \<Rightarrow> ('b, 'd) shared \<Rightarrow> string \<times> ('b, 'd) shared" where
  "Category_web_read E W act =
     web_read E (j_cat W) (simple_read_path CategoryT_new act) clear_request (Category_ReadDataAction E)"

definition TagData_web_write :: "('b, 'd) env \<Rightarrow> web \<Rightarrow> 'b master_codecs \<Rightarrow> string \<Rightarrow> http_request \<Rightarrow> ('b, 'd) shared \<Rightarrow> string \<times> ('b, 'd) shared" where
  "TagData_web_write E W C act =
     web_write E W (j_tag W) ZPDS_NUPLOAD_MAX_RECORDS (simple_write_path act)
       (at_master E (c_tagresp C) M_MANAGE_TAGS (TagData_ManageDataAction E))"

definition TagData_web_read :: "('b, 'd) env \<Rightarrow> web \<Rightarrow> string \<Rightarrow> http_request \<Rightarrow> ('b, 'd) shared \<Rightarrow> string \<times> ('b, 'd) shared" where
  "TagData_web_read E W act =
     web_read E (j_tag W) (simple_read_path TagDataT_new act) (\<lambda>r. (clear_request r)\<lparr>dr_keytype := 0\<rparr>) (TagData_ReadDataAction E)"

section \<open>\<open>UserDataService\<close>\<close>

definition user_keytype_of :: "string \<Rightarrow> UserDataT DataRespT \<Rightarrow> UserDataT DataRespT" where
  "user_keytype_of who getp =
     (if who = ''_admin'' then getp\<lparr>dr_keytype := K_EXTERDATA\<rparr>
      else if who = ''_user'' then getp\<lparr>dr_keytype := K_USERDATA\<rparr>
      else getp)"

text \<open>A change of some fields of one record; for a user who writes himself the name is his own.\<close>

definition single_write :: "int \<Rightarrow> int \<Rightarrow> UserDataT DataRespT \<Rightarrow> (UserDataT DataRespT \<times> bool) res" where
  "single_write action flds getp = Inr (getp\<lparr>dr_action := action, dr_fields := flds, dr_payloads := []\<rparr>, True)"

definition name_own :: "string \<Rightarrow> UserDataT DataRespT \<Rightarrow> UserDataT DataRespT" where
  "name_own who getp = (if who = ''_user'' then getp\<lparr>dr_payload := (dr_payload getp)\<lparr>user_name := dr_username getp\<rparr>\<rparr> else getp)"

definition user_write_path :: "string \<Rightarrow> string \<Rightarrow> UserDataT DataRespT \<Rightarrow> (UserDataT DataRespT \<times> bool) res" where
  "user_write_path who act getp0 =
     (let getp = (user_keytype_of who getp0)\<lparr>dr_fields := ZPDS_MAX_HEX_VALUE_FIFTEEN\<rparr> in
      if who = ''_admin'' \<and> act = ''create'' then Inr (getp\<lparr>dr_action := W_CREATE\<rparr>, False)
      else if who = ''_admin'' \<and> act = ''upsert'' then Inr (getp\<lparr>dr_action := W_UPSERT\<rparr>, False)
      else if who = ''_admin'' \<and> act = ''update'' then Inr (getp\<lparr>dr_action := W_UPDATE\<rparr>, False)
      else if who = ''_admin'' \<and> act = ''delete'' then Inr (getp\<lparr>dr_action := W_DELETE\<rparr>, False)
      else if act = ''update_passkey'' then single_write W_UPDATE ZPDS_UDFLD_PASSKEY (name_own who getp)
      else if act = ''update_description'' then single_write W_UPDATE ZPDS_UDFLD_INFO (name_own who getp)
      else if who = ''_admin'' \<and> act = ''update_mobile'' then single_write W_UPDATE ZPDS_UDFLD_MOBILE getp
      else if who = ''_admin'' \<and> act = ''update_email'' then single_write W_UPDATE ZPDS_UDFLD_EMAIL getp
      else if act = ''update_given_name'' then single_write W_UPDATE ZPDS_UDFLD_GNAME (name_own who getp)
      else if who = ''_admin'' \<and> act = ''add_tags'' then single_write W_UMERGE ZPDS_UDFLD_TAGS getp
      else if who = ''_admin'' \<and> act = ''add_categories'' then single_write W_UMERGE ZPDS_UDFLD_CATEGORIES getp
      else Inl unknown_api)"

definition User_web_write :: "('b, 'd) env \<Rightarrow> web \<Rightarrow> 'b master_codecs \<Rightarrow> string \<Rightarrow> string \<Rightarrow> http_request \<Rightarrow> ('b, 'd) shared \<Rightarrow> string \<times> ('b, 'd) shared" where
  "User_web_write E W C who act =
     web_write E W (j_user W) ZPDS_NUPLOAD_MAX_RECORDS (user_write_path who act)
       (at_master E (c_userresp C) M_MANAGE_USER (User_ManageDataAction E))"

definition user_read_path :: "string \<Rightarrow> string \<Rightarrow> UserDataT DataRespT \<Rightarrow> UserDataT DataRespT res" where
  "user_read_path who act getp0 =
     (let getp = user_keytype_of who getp0 in
      if act = ''getone'' then Inr (getp\<lparr>dr_fields := ZPDS_MAX_HEX_VALUE_FIFTEEN, dr_payloads := []\<rparr>)
      else if who = ''_admin'' \<and> act = ''getmany''
      then Inr (getp\<lparr>dr_fields := ZPDS_MAX_HEX_VALUE_FIFTEEN, dr_payload := UserDataT_new\<rparr>)
      else Inl unknown_api)"

definition clear_read :: "'m DataRespT \<Rightarrow> 'm DataRespT" where
  "clear_read getp = (clear_request getp)\<lparr>dr_fields := 0, dr_keytype := 0\<rparr>"

definition User_web_read :: "('b, 'd) env \<Rightarrow> web \<Rightarrow> string \<Rightarrow> string \<Rightarrow> http_request \<Rightarrow> ('b, 'd) shared \<Rightarrow> string \<times> ('b, 'd) shared" where
  "User_web_read E W who act = web_read E (j_user W) (user_read_path who act) clear_read (User_ReadDataAction E)"

text \<open>Exters; the alternative \<open>add_categories\<close> is missing in the expression of the resource, so its branch is never taken.\<close>

definition name_if_not_set :: "UserDataT DataRespT \<Rightarrow> UserDataT DataRespT" where
  "name_if_not_set getp =
     (if user_name (dr_payload getp) = [] then getp\<lparr>dr_payload := (dr_payload getp)\<lparr>user_name := dr_username getp\<rparr>\<rparr> else getp)"

definition exter_write_path :: "string \<Rightarrow> UserDataT DataRespT \<Rightarrow> (UserDataT DataRespT \<times> bool) res" where
  "exter_write_path act getp =
     (if act = ''create'' then Inr (getp\<lparr>dr_action := W_CREATE, dr_fields := ZPDS_MAX_HEX_VALUE_FIFTEEN\<rparr>, False)
      else if act = ''upsert'' then Inr (getp\<lparr>dr_action := W_UPSERT, dr_fields := ZPDS_MAX_HEX_VALUE_FIFTEEN\<rparr>, False)
      else if act = ''update'' then Inr (getp\<lparr>dr_action := W_UPDATE, dr_fields := ZPDS_MAX_HEX_VALUE_FIFTEEN\<rparr>, False)
      else if act = ''delete'' then Inr (getp\<lparr>dr_action := W_DELETE\<rparr>, False)
      else if act = ''update_passkey'' then single_write W_UPDATE ZPDS_UDFLD_PASSKEY (name_if_not_set getp)
      else if act = ''update_description'' then single_write W_UPDATE ZPDS_UDFLD_INFO (name_if_not_set getp)
      else if act = ''update_mobile'' then single_write W_UPDATE ZPDS_UDFLD_MOBILE (name_if_not_set getp)
      else if act = ''update_email'' then single_write W_UPDATE ZPDS_UDFLD_EMAIL (name_if_not_set getp)
      else if act = ''update_given_name'' then single_write W_UPDATE ZPDS_UDFLD_GNAME (name_if_not_set getp)
      else if act = ''add_tags'' then single_write W_UMERGE ZPDS_UDFLD_TAGS (name_if_not_set getp)
      else if act = ''add_categories'' then single_write W_UMERGE ZPDS_UDFLD_CATEGORIES (name_if_not_set getp)
      else if act = ''add_profiles'' then single_write W_UMERGE ZPDS_UDFLD_PROFILES (name_if_not_set getp)
      else Inl unknown_api)"

definition Exter_web_write :: "('b, 'd) env \<Rightarrow> web \<Rightarrow> 'b master_codecs \<Rightarrow> string \<Rightarrow> http_request \<Rightarrow> ('b, 'd) shared \<Rightarrow> string \<times> ('b, 'd) shared" where
  "Exter_web_write E W C act =
     web_write E W (j_user W) ZPDS_NUPLOAD_MAX_RECORDS (exter_write_path act)
       (at_master E (c_userresp C) M_MANAGE_EXTER (Exter_ManageDataAction E))"

definition exter_read_path :: "string \<Rightarrow> UserDataT DataRespT \<Rightarrow> UserDataT DataRespT res" where
  "exter_read_path act getp =
     (if act = ''getone'' then Inr (getp\<lparr>dr_fields := ZPDS_MAX_HEX_VALUE_FIFTEEN, dr_payloads := []\<rparr>)
      else if act = ''getmany'' then Inr (getp\<lparr>dr_fields := ZPDS_MAX_HEX_VALUE_FIFTEEN, dr_payload := UserDataT_new\<rparr>)
      else Inl unknown_api)"

definition Exter_web_read :: "('b, 'd) env \<Rightarrow> web \<Rightarrow> string \<Rightarrow> http_request \<Rightarrow> ('b, 'd) shared \<Rightarrow> string \<times> ('b, 'd) shared" where
  "Exter_web_read E W act = web_read E (j_user W) (exter_read_path act) clear_read (Exter_ReadDataAction E)"

section \<open>\<open>ItemDataService\<close>\<close>

definition item_write_path :: "string \<Rightarrow> ItemDataT DataRespT \<Rightarrow> (ItemDataT DataRespT \<times> bool) res" where
  "item_write_path act getp0 =
     (let getp = getp0\<lparr>dr_keytype := K_EXTERDATA, dr_fields := ZPDS_MAX_HEX_VALUE_FIFTEEN\<rparr> in
      if act = ''create'' then Inr (getp\<lparr>dr_action := W_CREATE\<rparr>, False)
      else if act = ''upsert'' then Inr (getp\<lparr>dr_action := W_UPSERT\<rparr>, False)
      else if act = ''update'' then Inr (getp\<lparr>dr_action := W_UPDATE\<rparr>, False)
      else if act = ''merge'' then Inr (getp\<lparr>dr_action := W_UMERGE\<rparr>, False)
      else if act = ''delete'' then Inr (getp\<lparr>dr_action := W_DELETE\<rparr>, False)
      else Inl unknown_api)"

definition item_at_master :: "('b, 'd) env \<Rightarrow> 'b master_codecs \<Rightarrow> string \<Rightarrow> ItemDataT DataRespT \<Rightarrow> (('b, 'd) shared, ItemDataT DataRespT) act" where
  "item_at_master E C kind getp =
     bindA (readA is_master) (\<lambda>m.
     if kind = ''localdata'' then (if m then Item_ManageDataAction E (LocalDataService E) getp
       else to_master E (c_itemresp C) M_MANAGE_LOCALDATA getp)
     else if kind = ''wikidata'' then (if m then Item_ManageDataAction E (WikiDataService E) getp
       else to_master E (c_itemresp C) M_MANAGE_WIKIDATA getp)
     else raise unknown_api)"

definition Item_web_write :: "('b, 'd) env \<Rightarrow> web \<Rightarrow> 'b master_codecs \<Rightarrow> string \<Rightarrow> string \<Rightarrow> http_request \<Rightarrow> ('b, 'd) shared \<Rightarrow> string \<times> ('b, 'd) shared" where
  "Item_web_write E W C kind act =
     web_write E W (j_item W) ZPDS_UPLOAD_MAX_RECORDS (item_write_path act) (item_at_master E C kind)"

definition item_read_path :: "string \<Rightarrow> string \<Rightarrow> ItemDataT DataRespT \<Rightarrow> ItemDataT DataRespT res" where
  "item_read_path who act getp0 =
     (let getp = (if who = ''_admin'' then getp0\<lparr>dr_keytype := K_EXTERDATA\<rparr>
        else if who = ''_user'' then getp0\<lparr>dr_keytype := K_USERDATA\<rparr> else getp0) in
      if act = ''getone'' then Inr (getp\<lparr>dr_fields := ZPDS_MAX_HEX_VALUE_FIFTEEN, dr_payloads := []\<rparr>)
      else if act = ''getmany'' then Inr (getp\<lparr>dr_fields := ZPDS_MAX_HEX_VALUE_FIFTEEN, dr_payload := ItemDataT_new\<rparr>)
      else Inl unknown_api)"

definition item_read_action :: "('b, 'd) env \<Rightarrow> string \<Rightarrow> ItemDataT DataRespT \<Rightarrow> (('b, 'd) shared, ItemDataT DataRespT) act" where
  "item_read_action E kind getp =
     (if kind = ''localdata'' then Item_ReadDataAction E (LocalDataService E) getp
      else if kind = ''wikidata'' then Item_ReadDataAction E (WikiDataService E) getp
      else raise unknown_api)"

definition Item_web_read :: "('b, 'd) env \<Rightarrow> web \<Rightarrow> string \<Rightarrow> string \<Rightarrow> string \<Rightarrow> http_request \<Rightarrow> ('b, 'd) shared \<Rightarrow> string \<times> ('b, 'd) shared" where
  "Item_web_read E W who kind act = web_read E (j_item W) (item_read_path who act) clear_read (item_read_action E kind)"

section \<open>\<open>LoginService\<close>\<close>

text \<open>A login may be posted as JSON or as a form.\<close>

definition read_form :: "'m json \<Rightarrow> 'm descriptor \<Rightarrow> 'm \<Rightarrow> http_request \<Rightarrow> 'm res" where
  "read_form J d msg rq = (if JsonRequest rq then read_json J rq else form2pb d (hr_content rq) msg)"

definition Login_web :: "('b, 'd) env \<Rightarrow> web \<Rightarrow> string \<Rightarrow> http_request \<Rightarrow> ('b, 'd) shared \<Rightarrow> string \<times> ('b, 'd) shared" where
  "Login_web E W who rq = answer E rq (
     bindA (liftR (\<lambda>_. read_form (j_login W) LoginRespT_descriptor LoginRespT_new rq)) (\<lambda>getp.
     bindA web_ready (\<lambda>_.
     bindA (if who = ''_admin'' then GetSession E (Exter_Get E) getp
            else if who = ''_user'' then GetSession E (User_Get E) getp
            else raise (InitialException ''Unknown API used'' M_INVALID_PARAM)) (\<lambda>resp.
     liftR (\<lambda>_. pb2json (j_login W) resp)))))"

definition ResetPass_web :: "('b, 'd) env \<Rightarrow> web \<Rightarrow> 'b master_codecs \<Rightarrow> string \<Rightarrow> http_request \<Rightarrow> ('b, 'd) shared \<Rightarrow> string \<times> ('b, 'd) shared" where
  "ResetPass_web E W C who rq = answer E rq (
     bindA (liftR (\<lambda>_. read_form (j_reset W) ResetRespT_descriptor ResetRespT_new rq)) (\<lambda>getp.
     bindA web_ready (\<lambda>_.
     bindA (if who = ''_admin'' then at_master E (c_resetresp C) M_RESETPASS_EXTER (Exter_ResetPassAction E) getp
            else if who = ''_user'' then at_master E (c_resetresp C) M_RESETPASS_USER (User_ResetPassAction E) getp
            else raise (InitialException ''Unknown API used'' M_INVALID_PARAM)) (\<lambda>resp.
     liftR (\<lambda>_. status_out W False (rr_status resp))))))"

section \<open>\<open>SearchCompletionService\<close>\<close>

text \<open>The parameters are read before the check that the system is ready. The user name and the session key are not used.\<close>

definition Search_web :: "('b, 'd) env \<Rightarrow> web \<Rightarrow> string \<Rightarrow> string \<Rightarrow> http_request \<Rightarrow> ('b, 'd) shared \<Rightarrow> string \<times> ('b, 'd) shared" where
  "Search_web E W kind profile rq = answer E rq (
     bindA (liftR (\<lambda>_. search_params (w_searcher W) kind profile (urldecode (hr_query rq)))) (\<lambda>cdata.
     bindA web_ready (\<lambda>_.
     bindA (readA xaplog) (\<lambda>evs.
     let dirs = read_dirs (w_searcher W) (w_flushed W) evs;
         param = (\<lambda>k. case map_of (urldecode (hr_query rq)) k of None \<Rightarrow> [] | Some t \<Rightarrow> t);
         data = SearchCompletionRespT_new\<lparr>sc_username := param ''username'', sc_sessionkey := param ''sessionkey'', sc_cdata := cdata\<rparr> in
     if kind = ''textdata'' then
       bindA (Wiki_CompletionQueryAction E (w_searcher W) dirs data) (\<lambda>data.
       liftR (\<lambda>_. pb2json (j_wiki W) (sc_wikidata data)))
     else
       bindA (Local_CompletionQueryAction E (w_searcher W) dirs data) (\<lambda>data.
       liftR (\<lambda>_. pb2json (j_photon W) (sc_photondata data)))))))"

section \<open>\<open>CommandService\<close>, \<open>InfoService\<close>, \<open>NotFoundService\<close>\<close>

text \<open>With the search compiled in. An unknown command is answered with an empty status.\<close>

definition Command_web :: "('b, 'd) env \<Rightarrow> web \<Rightarrow> string \<Rightarrow> http_request \<Rightarrow> ('b, 'd) shared \<Rightarrow> string \<times> ('b, 'd) shared" where
  "Command_web E W command rq = answer E rq (
     bindA (liftR (\<lambda>s. case find_field ''Shared-Secret'' (hr_header rq) of
         None \<Rightarrow> Inl (BadDataException ''No Header Shared Secret'' 0)
       | Some v \<Rightarrow> if v \<noteq> shared_secret s then Inl (BadDataException ''Bad Shared Secret'' 0) else Inr ())) (\<lambda>_.
     bindA web_ready (\<lambda>_.
     bindA (if command = ''commit'' then bindA (updA (\<lambda>s. s\<lparr>force_commit := True\<rparr>)) (\<lambda>_. ret ''OK'')
            else if command = ''commitnow'' then bindA (updA (\<lambda>s. s\<lparr>xaplog := xaplog s @ [XapCommit]\<rparr>)) (\<lambda>_. ret ''OK'')
            else if command = ''noxapian'' then bindA (updA (\<lambda>s. s\<lparr>no_xapian := True\<rparr>)) (\<lambda>_. ret ''OK'')
            else ret []) (\<lambda>status.
     liftR (\<lambda>_. pb2json (j_err W) \<lparr>err_status = status, err_msg = []\<rparr>)))))"

text \<open>These two catch everything; when the JSON cannot be made, the answer is the status 500.\<close>

definition info_state :: "64 word \<Rightarrow> ('b, 'd) shared \<Rightarrow> InfoStateT" where
  "info_state now s =
     (let st = \<lparr>inf_hostname = [], inf_master = [], inf_is_master = False, inf_is_ready = is_ready s, inf_ts = now\<rparr> in
      if \<not> is_ready s then st
      else if is_master s then st\<lparr>inf_hostname := hostname s, inf_is_master := True\<rparr>
      else st\<lparr>inf_hostname := hostname s, inf_master := sh_master s\<rparr>)"

definition Info_web :: "('b, 'd) env \<Rightarrow> web \<Rightarrow> http_request \<Rightarrow> ('b, 'd) shared \<Rightarrow> string \<times> ('b, 'd) shared" where
  "Info_web E W rq s =
     (let s' = snd (CURRTIME_MS E s) in
      (case pb2json (j_info W) (info_state (clock E (ticks s)) s') of
         Inr output \<Rightarrow> json_answer rq output
       | Inl _ \<Rightarrow> HttpErrorAction rq 500 ''INTERNAL SERVER ERROR'', s'))"

text \<open>The help texts the services register, those of the scope of the server, and the page made of them: the code writes
  the header and the text by itself and then once more by \<open>HttpOKAction\<close>.\<close>

record HelpT =
  help_scope :: nat
  help_route :: string
  help_desc :: "string list"

definition HelpQuery_add :: "HelpT \<Rightarrow> HelpT list \<Rightarrow> HelpT list" where
  "HelpQuery_add h helplist = helplist @ [h]"

definition HelpQuery_get :: "nat \<Rightarrow> HelpT list \<Rightarrow> HelpT list" where
  "HelpQuery_get scope helplist = filter (\<lambda>h. help_scope h AND scope \<noteq> 0) helplist"

definition help_text :: "HelpT list \<Rightarrow> string" where
  "help_text hs = concat (map (\<lambda>h. CRLF @ CRLF @ help_route h @ concat (map (\<lambda>d. CRLF @ '' -- '' @ d) (help_desc h))) hs)"

definition Help_web :: "HelpT list \<Rightarrow> nat \<Rightarrow> http_request \<Rightarrow> string" where
  "Help_web helplist scope rq =
     (let output = help_text (HelpQuery_get scope helplist) in
      ''HTTP/1.1 200 OK'' @ CRLF @ ''Content-type: text/plain'' @ CRLF @
      ''Content-Length: '' @ to_dec (length output) @ CRLF @ CRLF @ c_str output @
      HttpOKAction rq 200 ''OK'' ''text/plain'' output)"

definition NotFound_web :: "http_request \<Rightarrow> string" where
  "NotFound_web rq = HttpErrorAction rq 404 ''NOT FOUND''"

end
