(* ===== verification/WebServer.thy ===== *)
theory WebServer
  imports QueryServices
begin

text \<open>
  The web server of a node: the resources of \<open>include/query/WebServiceList.hpp\<close> in the order of their expressions,
  and the way from the bytes of a request to those of the answer.
\<close>

type_synonym ('b, 'd) handler = "string list \<Rightarrow> http_request \<Rightarrow> ('b, 'd) shared \<Rightarrow> string \<times> ('b, 'd) shared"

definition user_kinds :: piece where "user_kinds = Alt [''_admin'', ''_user'']"
definition item_kinds :: piece where "item_kinds = Alt [''localdata'', ''wikidata'']"
definition write_kinds :: piece where "write_kinds = Alt [''create'', ''upsert'', ''update'', ''delete'']"
definition search_kinds :: piece where "search_kinds = Alt [''photon'', ''notoph'', ''textdata'']"
definition read_kinds :: piece where "read_kinds = Alt [''getone'', ''getmany'']"

definition web_resources :: "('b, 'd) env \<Rightarrow> web \<Rightarrow> 'b master_codecs \<Rightarrow> HelpT list \<Rightarrow> ('b, 'd) handler resources" where
  "web_resources E W C helplist = [
     ([Lit ''/'', user_kinds, Lit ''/api/v1/'', item_kinds, Lit ''/'', read_kinds], ''POST'',
        \<lambda>g. Item_web_read E W (g ! 0) (g ! 1) (g ! 2)),
     ([Lit ''/'', user_kinds, Lit ''/api/v1/login''], ''POST'', \<lambda>g. Login_web E W (g ! 0)),
     ([Lit ''/'', user_kinds, Lit ''/api/v1/resetpass''], ''POST'', \<lambda>g. ResetPass_web E W C (g ! 0)),
     ([Lit ''/'', user_kinds, Lit ''/api/v1/userdata/'', Alt [''create'', ''upsert'', ''update'', ''delete'',
          ''update_passkey'', ''update_description'', ''update_mobile'', ''update_email'', ''update_given_name'',
          ''add_tags'', ''add_categories'']], ''POST'',
        \<lambda>g. User_web_write E W C (g ! 0) (g ! 1)),
     ([Lit ''/'', user_kinds, Lit ''/api/v1/userdata/'', read_kinds], ''POST'', \<lambda>g. User_web_read E W (g ! 0) (g ! 1)),
     ([Lit ''/_admin/api/v1/'', item_kinds, Lit ''/'', Alt [''create'', ''upsert'', ''update'', ''merge'', ''delete'']], ''POST'',
        \<lambda>g. Item_web_write E W C (g ! 0) (g ! 1)),
     ([Lit ''/_admin/api/v1/category/'', write_kinds], ''POST'', \<lambda>g. Category_web_write E W C (g ! 0)),
     ([Lit ''/_admin/api/v1/category/'', read_kinds], ''POST'', \<lambda>g. Category_web_read E W (g ! 0)),
     ([Lit ''/_admin/api/v1/exterdata/'', Alt [''create'', ''upsert'', ''update'', ''delete'',
          ''update_passkey'', ''update_description'', ''update_mobile'', ''update_email'', ''update_given_name'', ''add_tags'',
          ''add_profiles'']], ''POST'',
        \<lambda>g. Exter_web_write E W C (g ! 0)),
     ([Lit ''/_admin/api/v1/exterdata/'', read_kinds], ''POST'', \<lambda>g. Exter_web_read E W (g ! 0)),
     ([Lit ''/_admin/api/v1/local_command/'', Any], ''GET'', \<lambda>g. Command_web E W (g ! 0)),
     ([Lit ''/_admin/api/v1/tagdata/'', write_kinds], ''POST'', \<lambda>g. TagData_web_write E W C (g ! 0)),
     ([Lit ''/_admin/api/v1/tagdata/'', read_kinds], ''POST'', \<lambda>g. TagData_web_read E W (g ! 0)),
     ([Lit ''/_query/api/v1/'', search_kinds, Lit ''/'', Any], ''GET'', \<lambda>g. Search_web E W (g ! 0) (g ! 1)),
     ([Lit ''/help''], ''GET'', \<lambda>g rq s. (Help_web helplist 1 rq, s)),
     ([Lit ''/info''], ''GET'', \<lambda>g. Info_web E W)]"

definition default_methods :: "string list" where
  "default_methods = [''GET'', ''HEAD'', ''POST'', ''PUT'', ''DELETE'', ''CONNECT'', ''OPTIONS'', ''TRACE'']"

text \<open>A request of another method is not answered at all, nor is one that is no HTTP request.\<close>

definition WebServer :: "('b, 'd) env \<Rightarrow> web \<Rightarrow> 'b master_codecs \<Rightarrow> HelpT list \<Rightarrow> http_request \<Rightarrow> ('b, 'd) shared \<Rightarrow> string option \<times> ('b, 'd) shared" where
  "WebServer E W C helplist rq s =
     (case find_resource (\<lambda>g h. h g rq s) (web_resources E W C helplist) rq of
        Some (a, s') \<Rightarrow> (Some a, s')
      | None \<Rightarrow> if hr_method rq \<in> set default_methods then (Some (NotFound_web rq), s) else (None, s))"

definition serve_bytes :: "('b, 'd) env \<Rightarrow> web \<Rightarrow> 'b master_codecs \<Rightarrow> HelpT list \<Rightarrow> string \<Rightarrow> ('b, 'd) shared \<Rightarrow> string option \<times> ('b, 'd) shared" where
  "serve_bytes E W C helplist bytes s =
     (case RequestMessage_parse bytes of None \<Rightarrow> (None, s) | Some rq \<Rightarrow> WebServer E W C helplist rq s)"

text \<open>Whatever resource answers, it is one of the list.\<close>

lemma find_resource_cases:
  assumes "find_resource serve rs rq = Some y"
  obtains re h gs where "(re, hr_method rq, h) \<in> set rs" and "regex_match re (hr_path rq) = Some gs" and "y = serve gs h"
proof -
  have "\<exists>re h gs. (re, hr_method rq, h) \<in> set rs \<and> regex_match re (hr_path rq) = Some gs \<and> y = serve gs h"
    using assms
  proof (induction rs)
    case (Cons r rs)
    obtain re m h where r: "r = (re, m, h)" by (metis prod.exhaust)
    show ?case
    proof (cases "m = hr_method rq \<and> regex_match re (hr_path rq) \<noteq> None")
      case True
      then obtain gs where "regex_match re (hr_path rq) = Some gs" by blast
      with True Cons.prems r show ?thesis by auto
    next
      case False
      with Cons.prems r have "find_resource serve rs rq = Some y" by (auto split: if_splits)
      from Cons.IH [OF this] show ?thesis by auto
    qed
  qed simp
  with that show thesis by blast
qed

end
