(* ===== verification/WebLaws.thy ===== *)
theory WebLaws
  imports ReadLaws AdminLaws WebServer
begin

text \<open>
  What the web server promises whatever it is sent: data changes only by a request that is answered with
  success, on a master, with at most one entry of the log and a bounded number of ids; every other request
  leaves data and log as they are. The invariant of the node holds after every request.
\<close>

section \<open>Modest requests\<close>

text \<open>A request reads at most so many records, and one more from the single payload.\<close>

definition web_ids :: nat where "web_ids = ZPDS_UPLOAD_MAX_RECORDS + 1"

definition wide :: "('b, 'd) shared \<Rightarrow> bool" where
  "wide s \<longleftrightarrow> unat (maincounter s) + web_ids < 2 ^ 64 \<and> logcounter s + 1 \<noteq> 0"

text \<open>\<open>modest\<close>: a request either leaves data and log alone, or it succeeded with a result of which \<open>ok\<close> holds.\<close>

definition modest :: "('b, 'd) env \<Rightarrow> 'b lookup \<Rightarrow> ('b, 'd) shared \<Rightarrow> ('y \<Rightarrow> bool) \<Rightarrow> 'y res \<times> ('b, 'd) shared \<Rightarrow> bool" where
  "modest E g0 s ok p \<longleftrightarrow> sys_inv E g0 (snd p) \<and> administrators E (kv_get E (db (snd p))) = administrators E (kv_get E (db s)) \<and> maincounter s \<le> maincounter (snd p) \<and>
     unat (maincounter (snd p)) \<le> unat (maincounter s) + web_ids \<and>
     (db (snd p) = db s \<and> logcounter (snd p) = logcounter s \<or>
      is_master s \<and> (\<exists>y. fst p = Inr y \<and> ok y) \<and> logcounter (snd p) \<in> {logcounter s, logcounter s + 1})"

lemma modest_steady: "sys_inv E g0 s0 \<Longrightarrow> steady E s0 s \<Longrightarrow> modest E g0 s0 ok (r, s)"
  by (simp add: modest_def steady_inv steadyD)

lemma aborts_modest: "sys_inv E g0 s0 \<Longrightarrow> aborts E s0 (modest E g0 s0 ok)"
  by (simp add: aborts_def modest_steady)

lemma handles_quiet: "sys_inv E g0 s0 \<Longrightarrow> keeps (steady E s0) m \<Longrightarrow> handles E s0 (modest E g0 s0 ok) m"
  unfolding handles_def by (metis keepsD modest_steady prod.collapse)

text \<open>What follows a service only makes the answer of its result.\<close>

lemma handles_result:
  assumes "handles E s0 (modest E g0 s0 ok) m" and "\<And>y. ok y \<Longrightarrow> \<exists>z. f y = Inr z \<and> ok' z"
  shows "handles E s0 (modest E g0 s0 ok') (bindA m (\<lambda>y. liftR (\<lambda>_. f y)))"
  using assms by (fastforce simp: handles_def modest_def bindA_def split: prod.splits sum.splits)

section \<open>Success\<close>

text \<open>\<open>ends P m\<close>: whatever \<open>m\<close> returns satisfies \<open>P\<close>.\<close>

definition ends :: "('y \<Rightarrow> bool) \<Rightarrow> ('s, 'y) act \<Rightarrow> bool" where
  "ends P m \<longleftrightarrow> (\<forall>s y s'. m s = (Inr y, s') \<longrightarrow> P y)"

named_theorems ends_intros \<open>rules for \<open>ends\<close>\<close>

lemma ends_bindA [ends_intros]: "(\<And>x. ends P (f x)) \<Longrightarrow> ends P (bindA m f)"
  unfolding ends_def by (auto simp: bindA_Inr_iff)

lemma ends_ret [ends_intros]: "P y \<Longrightarrow> ends P (ret y)"
  by (simp add: ends_def)

lemma ends_prod [ends_intros]: "(\<And>a b. ends P (f a b)) \<Longrightarrow> ends P (case y of (a, b) \<Rightarrow> f a b)"
  by (cases y) simp

lemma ends_Let [ends_intros]: "(\<And>x. ends P (f x)) \<Longrightarrow> ends P (Let y f)"
  by simp

lemma ends_with_namecache [ends_intros]: "ends P m \<Longrightarrow> ends P (with_namecache m)"
  unfolding ends_def with_namecache_def by (auto split: prod.splits) blast

lemma success_set [simp]: "st_success (dr_status (set_success n r))"
  by (simp add: set_success_def)

lemma changes_succeed:
  "ends (\<lambda>y. st_success (dr_status y)) (TagData_ManageDataAction E tr)"
  "ends (\<lambda>y. st_success (dr_status y)) (Category_ManageDataAction E cr)"
  "ends (\<lambda>y. st_success (dr_status y)) (Exter_ManageDataAction E ur)"
  "ends (\<lambda>y. st_success (dr_status y)) (User_ManageDataAction E ur)"
  "ends (\<lambda>y. st_success (dr_status y)) (Item_ManageDataAction E S ir)"
  "ends (\<lambda>y. st_success (rr_status y)) (User_ResetPassAction E rr)"
  "ends (\<lambda>y. st_success (rr_status y)) (Exter_ResetPassAction E rr)"
  unfolding TagData_ManageDataAction_def Category_ManageDataAction_def Exter_ManageDataAction_def User_ManageDataAction_def
    Item_ManageDataAction_def User_ResetPassAction_def Exter_ResetPassAction_def
  by (intro ends_intros; simp)+

lemma atomic_modest:
  assumes "atomic_request E g0 T u uk who fits xs s (m s)" and "length xs \<le> web_ids" and "ends ok m"
    and "administrators E (kv_get E (db (snd (m s)))) = administrators E (kv_get E (db s))"
  shows "modest E g0 s ok (m s)"
  using assms unfolding ends_def by (cases "m s") (auto simp: atomic_request_def modest_def split: sum.splits)

lemma reset_modest:
  assumes "reset_effect E g0 T resp s (m s)" and "is_master s" and "ends ok m"
    and "administrators E (kv_get E (db (snd (m s)))) = administrators E (kv_get E (db s))"
  shows "modest E g0 s ok (m s)"
  using assms unfolding ends_def by (cases "m s") (auto simp: reset_effect_def modest_def split: sum.splits)

section \<open>The services behind the handlers\<close>

lemma modest_from:
  assumes "steady E s0 s" and "modest E g0 s ok p"
  shows "modest E g0 s0 ok p"
  using assms(2) steadyD [OF assms(1)] by (simp add: modest_def)

lemma handles_modest: "(\<And>s. steady E s0 s \<Longrightarrow> modest E g0 s ok (m s)) \<Longrightarrow> handles E s0 (modest E g0 s0 ok) m"
  unfolding handles_def by (blast intro: modest_from)

lemma wide_room: "wide s \<Longrightarrow> length ms \<le> 10000 \<Longrightarrow> room s ms"
  by (simp add: wide_def room_def web_ids_def ZPDS_UPLOAD_MAX_RECORDS_def)

lemma wide_steady: "steady E s0 s \<Longrightarrow> wide s0 \<Longrightarrow> wide s"
  by (simp add: wide_def steadyD)

lemma take_payload_ids: "length (dr_payloads m) \<le> 10000 \<Longrightarrow> length (dr_payloads (take_payload nm new m)) \<le> web_ids"
  using take_payload_length [of nm new m] by (simp add: web_ids_def ZPDS_UPLOAD_MAX_RECORDS_def)

definition few :: "'m DataRespT \<Rightarrow> bool" where
  "few m \<longleftrightarrow> length (dr_payloads m) \<le> 10000"

abbreviation succeeds :: "'m DataRespT \<Rightarrow> bool" where
  "succeeds y \<equiv> st_success (dr_status y)"

lemma changes_handle:
  assumes "env_ok E" and "sys_inv E g0 s0" and "wide s0"
  shows "few mt \<Longrightarrow> handles E s0 (modest E g0 s0 succeeds) (TagData_ManageDataAction E mt)"
    "few mc \<Longrightarrow> handles E s0 (modest E g0 s0 succeeds) (Category_ManageDataAction E mc)"
    "few mu \<Longrightarrow> handles E s0 (modest E g0 s0 succeeds) (Exter_ManageDataAction E mu)"
    "few mu \<Longrightarrow> handles E s0 (modest E g0 s0 succeeds) (User_ManageDataAction E mu)"
    "few mi \<Longrightarrow> handles E s0 (modest E g0 s0 succeeds) (Item_ManageDataAction E (LocalDataService E) mi)"
    "few mi \<Longrightarrow> handles E s0 (modest E g0 s0 succeeds) (Item_ManageDataAction E (WikiDataService E) mi)"
proof -
  have r: "sys_inv E g0 s \<and> room s ms" if "steady E s0 s" "length ms \<le> 10000" for s and ms :: "'z list"
    using that assms(2,3) by (auto intro: steady_inv wide_room wide_steady)
  show "few mt \<Longrightarrow> handles E s0 (modest E g0 s0 succeeds) (TagData_ManageDataAction E mt)"
    by (rule handles_modest, rule atomic_modest [OF TagData_ManageDataAction_run [OF assms(1)] take_payload_ids changes_succeed(1) admins_changes(1) [where ?g0.0 = g0, OF assms(1)]])
      (auto simp: few_def r)
  show "few mc \<Longrightarrow> handles E s0 (modest E g0 s0 succeeds) (Category_ManageDataAction E mc)"
    by (rule handles_modest, rule atomic_modest [OF Category_ManageDataAction_run [OF assms(1)] take_payload_ids changes_succeed(2) admins_changes(2) [where ?g0.0 = g0, OF assms(1)]])
      (auto simp: few_def r)
  show "few mu \<Longrightarrow> handles E s0 (modest E g0 s0 succeeds) (Exter_ManageDataAction E mu)"
    by (rule handles_modest, rule atomic_modest [OF Exter_ManageDataAction_run [OF assms(1)] take_payload_ids changes_succeed(3) admins_changes(3) [where ?g0.0 = g0, OF assms(1)]])
      (auto simp: few_def r)
  show "few mu \<Longrightarrow> handles E s0 (modest E g0 s0 succeeds) (User_ManageDataAction E mu)"
    by (rule handles_modest, rule atomic_modest [OF User_ManageDataAction_run [OF assms(1)] take_payload_ids changes_succeed(4) admins_changes(4) [where ?g0.0 = g0, OF assms(1)]])
      (auto simp: few_def r)
  show "few mi \<Longrightarrow> handles E s0 (modest E g0 s0 succeeds) (Item_ManageDataAction E (LocalDataService E) mi)"
    by (rule handles_modest, rule atomic_modest [OF Local_ManageDataAction_atomic [OF assms(1)] take_payload_ids changes_succeed(5) admins_changes(5) [where ?g0.0 = g0, OF assms(1)]])
      (auto simp: few_def r)
  show "few mi \<Longrightarrow> handles E s0 (modest E g0 s0 succeeds) (Item_ManageDataAction E (WikiDataService E) mi)"
    by (rule handles_modest, rule atomic_modest [OF Wiki_ManageDataAction_atomic [OF assms(1)] take_payload_ids changes_succeed(5) admins_changes(6) [where ?g0.0 = g0, OF assms(1)]])
      (auto simp: few_def r)
qed

lemma resets_handle:
  assumes "env_ok E" and "sys_inv E g0 s0" and "wide s0" and "is_master s0"
  shows "handles E s0 (modest E g0 s0 (\<lambda>y. st_success (rr_status y))) (User_ResetPassAction E m)"
    "handles E s0 (modest E g0 s0 (\<lambda>y. st_success (rr_status y))) (Exter_ResetPassAction E m)"
proof -
  have r: "sys_inv E g0 s \<and> logcounter s + 1 \<noteq> 0 \<and> is_master s \<and> steady E s s" if "steady E s0 s" for s
    using that assms(2-4) steadyD [OF that] inv_steady [OF assms(1) steady_inv [OF that assms(2)]] by (auto intro: steady_inv simp: wide_def)
  show "handles E s0 (modest E g0 s0 (\<lambda>y. st_success (rr_status y))) (User_ResetPassAction E m)"
    by (rule handles_modest, rule reset_modest [OF handlesD [OF User_reset_handles [OF assms(1)]] _ changes_succeed(6) admins_resets(1) [where ?g0.0 = g0, OF assms(1)]]) (auto simp: r)
  show "handles E s0 (modest E g0 s0 (\<lambda>y. st_success (rr_status y))) (Exter_ResetPassAction E m)"
    by (rule handles_modest, rule reset_modest [OF handlesD [OF Exter_reset_handles [OF assms(1)]] _ changes_succeed(7) admins_resets(2) [where ?g0.0 = g0, OF assms(1)]]) (auto simp: r)
qed

lemma steady_to_master [steady_intros]: "keeps (steady E s0) (to_master E c sid m)"
proof (rule keepsI)
  fix s assume s: "steady E s0 s"
  have "\<exists>n. same_store s (snd (SendToMaster E c sid m n s)) \<and> to_master E c sid m s = (fst (to_master E c sid m s), snd (SendToMaster E c sid m n s))"
    using SendFunction_same_store [of s E c "sh_master s" "''/_zpds/master/v1/endpoint''" sid m True]
    by (intro exI [of _ False]) (auto simp: to_master_def SendToMaster_def split: prod.splits sum.splits)
  with s show "steady E s0 (snd (to_master E c sid m s))" by (metis snd_conv steady_same_store)
qed

lemma steady_search [steady_intros]:
  "keeps (steady E s0) (Local_CompletionQueryAction E X dirs data)" "keeps (steady E s0) (Wiki_CompletionQueryAction E X dirs data)"
  unfolding Local_CompletionQueryAction_def Wiki_CompletionQueryAction_def SearchByProfile_def GetExterProfile_def Let_def
  by (intro keeps_intros steady_intros)+

lemma handles_at_master:
  assumes "sys_inv E g0 s0" and "is_master s0 \<Longrightarrow> handles E s0 (modest E g0 s0 ok) (serv m)"
  shows "handles E s0 (modest E g0 s0 ok) (at_master E c sid serv m)"
proof (cases "is_master s0")
  case True
  with assms(2) show ?thesis by (auto simp: handles_def at_master_def steadyD)
next
  case False
  have "handles E s0 (modest E g0 s0 ok) (to_master E c sid m)" by (rule handles_quiet [OF assms(1) steady_to_master])
  with False show ?thesis by (auto simp: handles_def at_master_def steadyD)
qed

section \<open>The handlers\<close>

text \<open>What the web server promises of a request: data changes only with an answer of success by a master.\<close>

definition harmless :: "('b, 'd) env \<Rightarrow> web \<Rightarrow> 'b lookup \<Rightarrow> http_request \<Rightarrow> ('b, 'd) shared \<Rightarrow> string \<times> ('b, 'd) shared \<Rightarrow> bool" where
  "harmless E W g0 rq s p \<longleftrightarrow> sys_inv E g0 (snd p) \<and> administrators E (kv_get E (db (snd p))) = administrators E (kv_get E (db s)) \<and> maincounter s \<le> maincounter (snd p) \<and>
     unat (maincounter (snd p)) \<le> unat (maincounter s) + web_ids \<and>
     (db (snd p) = db s \<and> logcounter (snd p) = logcounter s \<or>
      is_master s \<and> (\<exists>st out. st_success st \<and> js_print (j_status W) st = Some out \<and> fst p = json_answer rq out) \<and>
      logcounter (snd p) \<in> {logcounter s, logcounter s + 1})"

definition prints :: "web \<Rightarrow> bool" where
  "prints W \<longleftrightarrow> (\<forall>st. js_print (j_status W) st \<noteq> None)"

definition success_text :: "web \<Rightarrow> string \<Rightarrow> bool" where
  "success_text W out \<longleftrightarrow> (\<exists>st. st_success st \<and> js_print (j_status W) st = Some out)"

lemma status_success: "prints W \<Longrightarrow> st_success st \<Longrightarrow> \<exists>out. status_out W hide st = Inr out \<and> success_text W out"
proof -
  assume p: "prints W" and st: "st_success st"
  define st' where "st' = (if hide then st\<lparr>st_inputcount := 0, st_updatecount := 0\<rparr> else st)"
  from p obtain out where o: "js_print (j_status W) st' = Some out" unfolding prints_def by blast
  have "st_success st'" using st by (simp add: st'_def)
  with o show ?thesis by (auto simp: status_out_def pb2json_def success_text_def st'_def [symmetric])
qed

lemma steady_tick: "steady E s0 s \<Longrightarrow> steady E s0 (snd (CURRTIME_MS E s))"
  by (rule keepsD [OF steady_CURRTIME])

lemma answer_harmless:
  assumes "env_ok E" and "sys_inv E g0 s" and "handles E s (modest E g0 s (success_text W)) body"
  shows "harmless E W g0 rq s (answer E rq body s)"
proof -
  have "steady E s (snd (CURRTIME_MS E s))" by (rule steady_tick [OF inv_steady [OF assms(1,2)]])
  with assms(3) have m: "modest E g0 s (success_text W) (body (snd (CURRTIME_MS E s)))" by (simp add: handles_def)
  obtain r t where b: "body (snd (CURRTIME_MS E s)) = (r, t)" by force
  have t: "sys_inv E g0 (t\<lparr>ticks := n\<rparr>) = sys_inv E g0 t" for n
    using caches_ok_frame [of "t\<lparr>ticks := n\<rparr>" t E] by (simp add: sys_inv_def)
  from m b t show ?thesis
    by (cases r) (auto simp: answer_def modest_def harmless_def success_text_def CURRTIME_MS_def)
qed

lemma handles_ready: "sys_inv E g0 s \<Longrightarrow> handles E s (modest E g0 s ok) (f ()) \<Longrightarrow> handles E s (modest E g0 s ok) (bindA web_ready f)"
  unfolding web_ready_def bindA_assoc
  by (rule handles_bind [OF aborts_modest keeps_readA], assumption) (auto intro!: handles_throwIf aborts_modest simp: bindA_assoc)

text \<open>A path does not add payloads.\<close>

definition keeps_few :: "('m DataRespT \<Rightarrow> ('m DataRespT \<times> bool) res) \<Rightarrow> bool" where
  "keeps_few path \<longleftrightarrow> (\<forall>g g' h. path g = Inr (g', h) \<longrightarrow> few g \<longrightarrow> few g')"

lemma web_write_harmless:
  assumes "env_ok E" and "sys_inv E g0 s" and "prints W" and "keeps_few path" and "n \<le> 10000"
    and serv: "\<And>m. few m \<Longrightarrow> handles E s (modest E g0 s succeeds) (serv m)"
  shows "harmless E W g0 rq s (web_write E W J n path serv rq s)"
  unfolding web_write_def
proof (intro answer_harmless [OF assms(1,2)] handles_liftR aborts_modest [OF assms(2)] handles_prod handles_ready [OF assms(2)])
  fix x t getp hide
  assume "bindR (read_data J n rq) path = Inr x" and "x = (getp, hide)"
  then obtain g where "read_data J n rq = Inr g" and p: "path g = Inr (getp, hide)" by (auto simp: bindR_Inr_iff)
  then have "length (dr_payloads g) \<le> n" by (auto simp: read_data_def bindR_Inr_iff split: if_splits)
  with assms(5) have "few g" by (simp add: few_def)
  with assms(4) p have "few getp" unfolding keeps_few_def by blast
  from serv [OF this] show "handles E s (modest E g0 s (success_text W)) (bindA (serv getp) (\<lambda>resp. liftR (\<lambda>_. status_out W hide (dr_status resp))))"
    by (rule handles_result) (rule status_success [OF assms(3)])
qed

lemma web_read_harmless:
  assumes "env_ok E" and "sys_inv E g0 s" and "\<And>m. keeps (steady E s) (serv m)"
  shows "harmless E W g0 rq s (web_read E J path tidy serv rq s)"
  unfolding web_read_def web_ready_def
  by (intro answer_harmless [OF assms(1,2)] handles_quiet [OF assms(2)] keeps_intros assms(3))

lemma paths_keep_few:
  "keeps_few (simple_write_path act)" "keeps_few (user_write_path who act)" "keeps_few (exter_write_path act)" "keeps_few (item_write_path act)"
  unfolding keeps_few_def
  by (auto simp: simple_write_path_def user_write_path_def exter_write_path_def item_write_path_def single_write_def few_def Let_def
      user_keytype_of_def name_own_def name_if_not_set_def split: if_splits)

lemma write_handlers_harmless:
  assumes "env_ok E" and "sys_inv E g0 s" and "prints W" and "wide s"
  shows "harmless E W g0 rq s (Category_web_write E W C act rq s)" "harmless E W g0 rq s (TagData_web_write E W C act rq s)"
    "harmless E W g0 rq s (User_web_write E W C who act rq s)" "harmless E W g0 rq s (Exter_web_write E W C act rq s)"
    "harmless E W g0 rq s (Item_web_write E W C kind act rq s)"
proof -
  note w = web_write_harmless [OF assms(1-3)] and a = handles_at_master [OF assms(2)] and c = changes_handle [OF assms(1,2,4)]
  have n: "ZPDS_NUPLOAD_MAX_RECORDS \<le> 10000" "ZPDS_UPLOAD_MAX_RECORDS \<le> 10000"
    by (simp_all add: ZPDS_NUPLOAD_MAX_RECORDS_def ZPDS_UPLOAD_MAX_RECORDS_def)
  show "harmless E W g0 rq s (Category_web_write E W C act rq s)" "harmless E W g0 rq s (TagData_web_write E W C act rq s)"
    "harmless E W g0 rq s (User_web_write E W C who act rq s)" "harmless E W g0 rq s (Exter_web_write E W C act rq s)"
    unfolding Category_web_write_def TagData_web_write_def User_web_write_def Exter_web_write_def
    by (intro w [OF paths_keep_few(1) n(1)] w [OF paths_keep_few(2) n(1)] w [OF paths_keep_few(3) n(1)] a c; assumption)+
  have "handles E s (modest E g0 s succeeds) (item_at_master E C kind m)" if "few m" for m
  proof (cases "is_master s")
    case True
    with c(5,6) [OF that] show ?thesis
      by (auto simp: handles_def item_at_master_def steadyD intro: modest_steady assms(2))
  next
    case False
    have "handles E s (modest E g0 s succeeds) (to_master E (c_itemresp C) sid m)" for sid
      by (rule handles_quiet [OF assms(2) steady_to_master])
    with False show ?thesis
      by (auto simp: handles_def item_at_master_def steadyD intro: modest_steady assms(2))
  qed
  then show "harmless E W g0 rq s (Item_web_write E W C kind act rq s)"
    unfolding Item_web_write_def by (rule w [OF paths_keep_few(4) n(2)])
qed

lemma read_handlers_harmless:
  assumes "env_ok E" and "sys_inv E g0 s"
  shows "harmless E W g0 rq s (Category_web_read E W act rq s)" "harmless E W g0 rq s (TagData_web_read E W act rq s)"
    "harmless E W g0 rq s (User_web_read E W who act rq s)" "harmless E W g0 rq s (Exter_web_read E W act rq s)"
    "harmless E W g0 rq s (Item_web_read E W who kind act rq s)" "harmless E W g0 rq s (Login_web E W who rq s)"
    "harmless E W g0 rq s (Command_web E W command rq s)" "harmless E W g0 rq s (Search_web E W kind profile rq s)"
proof -
  note r = web_read_harmless [OF assms]
  show "harmless E W g0 rq s (Category_web_read E W act rq s)" "harmless E W g0 rq s (TagData_web_read E W act rq s)"
    "harmless E W g0 rq s (User_web_read E W who act rq s)" "harmless E W g0 rq s (Exter_web_read E W act rq s)"
    "harmless E W g0 rq s (Item_web_read E W who kind act rq s)"
    unfolding Category_web_read_def TagData_web_read_def User_web_read_def Exter_web_read_def Item_web_read_def item_read_action_def
    by (intro r steady_reads keeps_intros)+
  show "harmless E W g0 rq s (Login_web E W who rq s)"
    unfolding Login_web_def web_ready_def
    by (intro answer_harmless [OF assms] handles_quiet [OF assms(2)] keeps_intros steady_intros)
  show "harmless E W g0 rq s (Command_web E W command rq s)"
    unfolding Command_web_def web_ready_def
    by (intro answer_harmless [OF assms] handles_quiet [OF assms(2)] keeps_intros steady_intros; simp)
  show "harmless E W g0 rq s (Search_web E W kind profile rq s)"
    unfolding Search_web_def web_ready_def Let_def
    by (intro answer_harmless [OF assms] handles_quiet [OF assms(2)] keeps_intros steady_intros)
qed

lemma ResetPass_harmless:
  assumes "env_ok E" and "sys_inv E g0 s" and "prints W" and "wide s"
  shows "harmless E W g0 rq s (ResetPass_web E W C who rq s)"
proof -
  let ?ok = "\<lambda>y. st_success (rr_status y)"
  have "handles E s (modest E g0 s ?ok) (if who = ''_admin'' then at_master E (c_resetresp C) M_RESETPASS_EXTER (Exter_ResetPassAction E) m
      else if who = ''_user'' then at_master E (c_resetresp C) M_RESETPASS_USER (User_ResetPassAction E) m
      else raise (InitialException ''Unknown API used'' M_INVALID_PARAM))" for m
    using resets_handle [OF assms(1,2,4)] handles_quiet [OF assms(2) keeps_raise] by (auto intro!: handles_at_master [OF assms(2)])
  then have "handles E s (modest E g0 s (success_text W)) (bindA (if who = ''_admin'' then at_master E (c_resetresp C) M_RESETPASS_EXTER (Exter_ResetPassAction E) m
      else if who = ''_user'' then at_master E (c_resetresp C) M_RESETPASS_USER (User_ResetPassAction E) m
      else raise (InitialException ''Unknown API used'' M_INVALID_PARAM)) (\<lambda>resp. liftR (\<lambda>_. status_out W False (rr_status resp))))" for m
    by (rule handles_result) (rule status_success [OF assms(3)])
  then show ?thesis
    unfolding ResetPass_web_def by (intro answer_harmless [OF assms(1,2)] handles_liftR aborts_modest [OF assms(2)] handles_ready [OF assms(2)])
qed

lemma unchanged_harmless: "env_ok E \<Longrightarrow> sys_inv E g0 s \<Longrightarrow> steady E s t \<Longrightarrow> harmless E W g0 rq s (a, t)"
  by (simp add: harmless_def steadyD steady_inv)

definition web_harmless :: "('b, 'd) env \<Rightarrow> web \<Rightarrow> 'b lookup \<Rightarrow> http_request \<Rightarrow> ('b, 'd) shared \<Rightarrow> string option \<times> ('b, 'd) shared \<Rightarrow> bool" where
  "web_harmless E W g0 rq s p \<longleftrightarrow> (case fst p of None \<Rightarrow> snd p = s | Some a \<Rightarrow> harmless E W g0 rq s (a, snd p))"

lemma WebServer_harmless:
  assumes "env_ok E" and "sys_inv E g0 s" and "prints W" and "wide s"
  shows "web_harmless E W g0 rq s (WebServer E W C helplist rq s)"
proof (cases "find_resource (\<lambda>g h. h g rq s) (web_resources E W C helplist) rq")
  case None
  then show ?thesis
    using unchanged_harmless [OF assms(1,2) inv_steady [OF assms(1,2)]] by (auto simp: WebServer_def web_harmless_def)
next
  case (Some y)
  then obtain re h g where h: "(re, hr_method rq, h) \<in> set (web_resources E W C helplist)" and y: "y = h g rq s"
    by (rule find_resource_cases)
  have u: "harmless E W g0 rq s (Help_web helplist 1 rq, s)" "harmless E W g0 rq s (Info_web E W rq s)"
    using unchanged_harmless [OF assms(1,2) inv_steady [OF assms(1,2)]]
      unchanged_harmless [OF assms(1,2) steady_tick [OF inv_steady [OF assms(1,2)]]] by (simp_all add: Info_web_def Let_def)
  have "harmless E W g0 rq s (h g rq s)"
    using h write_handlers_harmless [OF assms] read_handlers_harmless [OF assms(1,2)] ResetPass_harmless [OF assms] u
    unfolding web_resources_def by auto
  with Some y show ?thesis by (cases "h g rq s") (simp add: WebServer_def web_harmless_def)
qed

section \<open>From the bytes\<close>

lemma serve_bytes_run:
  assumes "env_ok E" and "sys_inv E g0 s" and "prints W" and "wide s" and "serve_bytes E W C helplist bytes s = (ans, s')"
  shows "sys_inv E g0 s' \<and> administrators E (kv_get E (db s')) = administrators E (kv_get E (db s)) \<and> maincounter s \<le> maincounter s' \<and> unat (maincounter s') \<le> unat (maincounter s) + web_ids \<and>
    logcounter s' \<in> {logcounter s, logcounter s + 1} \<and> (db s' = db s \<and> logcounter s' = logcounter s \<or> is_master s \<and>
      (\<exists>rq st out. RequestMessage_parse bytes = Some rq \<and> st_success st \<and> js_print (j_status W) st = Some out \<and> ans = Some (json_answer rq out)))"
proof (cases "RequestMessage_parse bytes")
  case None
  with assms(2,5) show ?thesis by (simp add: serve_bytes_def)
next
  case (Some rq)
  have "web_harmless E W g0 rq s (ans, s')"
    using WebServer_harmless [OF assms(1-4), of rq C helplist] assms(5) Some by (simp add: serve_bytes_def)
  with Some assms(2) show ?thesis by (cases ans) (auto simp: web_harmless_def harmless_def)
qed

text \<open>C6: Whatever bytes a client sends, data changes only by a request that a master answers with success: when the answer is
  an error, or there is none, data and log are exactly as before, although half of the work may have been done
  when the error occurred. In every case the invariant of the node holds afterwards.\<close>

theorem web_change_answered:
  assumes "env_ok E" and "sys_inv E g0 s" and "prints W" and "wide s"
  shows "case serve_bytes E W C helplist bytes s of (ans, s') \<Rightarrow> sys_inv E g0 s' \<and>
    (db s' = db s \<and> logcounter s' = logcounter s \<or> is_master s \<and>
      (\<exists>rq st out. RequestMessage_parse bytes = Some rq \<and> st_success st \<and> js_print (j_status W) st = Some out \<and> ans = Some (json_answer rq out)))"
  using serve_bytes_run [OF assms] by (auto split: prod.split)

text \<open>C31: What a request can use up is bounded: at most one number of the log, and of the ids at most one more than the greatest
  number of records the services accept, since the single payload is added after the list of payloads is counted.\<close>

theorem web_bounds:
  assumes "env_ok E" and "sys_inv E g0 s" and "prints W" and "wide s"
  shows "case serve_bytes E W C helplist bytes s of (ans, s') \<Rightarrow> unat (maincounter s) \<le> unat (maincounter s') \<and>
    unat (maincounter s') \<le> unat (maincounter s) + ZPDS_UPLOAD_MAX_RECORDS + 1 \<and> logcounter s' \<in> {logcounter s, logcounter s + 1}"
proof -
  obtain ans s' where "serve_bytes E W C helplist bytes s = (ans, s')" by force
  with serve_bytes_run [OF assms this] show ?thesis by (simp add: web_ids_def word_le_nat_alt)
qed

end
