(* ===== verification/StartLaws.thy ===== *)
theory StartLaws
  imports CommitLaws
begin

text \<open>
  The beginning of a node's life, and of each later one: opening an empty store establishes the invariant of the
  node, and opening the store of a node that was stopped re-establishes it, with caches empty and counters
  read from the keys.
\<close>

definition zero_records :: "('b, 'd) env \<Rightarrow> 'b lookup" where
  "zero_records E = (\<lambda>k. if fence [K_NONODE .. K_MAXNODE] k then Some (blank E) else None)"

lemma fence_iff: "fence [K_NONODE .. K_MAXNODE] k \<longleftrightarrow> (\<exists>kt. K_NONODE \<le> kt \<and> kt \<le> K_MAXNODE \<and> k = EncodePrimaryKey kt 0)"
  by (auto simp: fence_def)

lemma zero_records_Some: "zero_records E k = Some v \<longleftrightarrow> v = blank E \<and> (\<exists>kt. K_NONODE \<le> kt \<and> kt \<le> K_MAXNODE \<and> k = EncodePrimaryKey kt 0)"
  by (auto simp: zero_records_def fence_iff)

lemma zero_id: "K_NONODE \<le> kt \<Longrightarrow> kt \<le> K_MAXNODE \<Longrightarrow> zero_records E (EncodePrimaryKey kt i) \<noteq> None \<Longrightarrow> i = 0"
  by (auto simp: zero_records_Some EncodePrimaryKey_def id_key.enc_append_inject primary_range_byte append_eq_append_conv)

lemma zero_type:
  assumes "byte_keytype u" and "starts_with k (ZPDS_FMT_ID_KEY u)" and "zero_records E k \<noteq> None"
  shows "k = EncodePrimaryKey u 0 \<and> K_NONODE \<le> u \<and> u \<le> K_MAXNODE"
proof -
  from assms(3) obtain kt where kt: "K_NONODE \<le> kt" "kt \<le> K_MAXNODE" "k = EncodePrimaryKey kt 0" by (auto simp: zero_records_Some)
  with assms(1,2) have "kt = u" by (simp add: EncodePrimaryKey_def id_key.starts_with_enc primary_range_byte)
  with kt show ?thesis by simp
qed

context table_laws
begin

lemma zero_range: "K_NONODE \<le> PrimaryKey T" "PrimaryKey T \<le> K_MAXNODE" "byte_keytype (PrimaryKey T)"
  using pkey_range by (simp_all add: keytype_defs byte_keytype_def)

lemma abs_table_zero: "abs_table T (zero_records E) = (\<lambda>_. None)"
  using zero_id [OF zero_range(1,2), of E] by (auto simp: abs_table_def split: option.split)

lemma wf_table_zero: "wf_table E' T (zero_records E)"
proof -
  have "zero_records E k = None" if "u \<in> set (unique_keys T)" "starts_with k (ZPDS_FMT_ID_KEY u)" for u k
  proof (rule ccontr)
    assume "zero_records E k \<noteq> None"
    with zero_type [of u k E] unique_range [OF that(1)] that(2) show False by (simp add: keytype_defs)
  qed
  moreover have "primary_only T (zero_records E)"
    unfolding primary_only_def
  proof (intro allI impI)
    fix k assume "starts_with k (ZPDS_FMT_ID_KEY (PrimaryKey T))" and "zero_records E k \<noteq> None"
    from zero_type [OF zero_range(3) this] show "\<exists>i. k = EncodePrimaryKey (PrimaryKey T) i" by (intro exI [of _ 0]) simp
  qed
  moreover have "zero_records E (EncodePrimaryKey (PrimaryKey T) i) = None" if "i \<noteq> 0" for i
    using zero_id [OF zero_range(1,2), of E i] that by blast
  ultimately show ?thesis
    by (auto simp: wf_table_def records_ok_def index_complete_def index_sound_def abs_table_zero)
qed

lemma ids_below_zero: "ids_below T (zero_records E) m"
  by (simp add: ids_below_def abs_table_zero)

end

lemma tables_zero: "tables_wf E (zero_records E)" "tables_below E (zero_records E) m"
  by (simp_all add: tables_wf_def tables_below_def tagdata_tbl.wf_table_zero category_tbl.wf_table_zero
      exterdata_tbl.wf_table_zero userdata_tbl.wf_table_zero localdata_tbl.wf_table_zero wikidata_tbl.wf_table_zero
      tagdata_tbl.ids_below_zero category_tbl.ids_below_zero exterdata_tbl.ids_below_zero userdata_tbl.ids_below_zero
      localdata_tbl.ids_below_zero wikidata_tbl.ids_below_zero)

lemma replica_zero:
  assumes "pb_ok E"
  shows "replica E (zero_records E) (zero_records E) 0"
proof -
  let ?g = "zero_records E"
  have r: "K_NONODE \<le> K_LOGNODE" "K_LOGNODE \<le> K_MAXNODE" "byte_keytype K_LOGNODE" by (simp_all add: keytype_defs byte_keytype_def)
  have "?g (log_key 0) = Some (blank E)" unfolding zero_records_Some log_key_def by (intro conjI refl exI [of _ K_LOGNODE] r(1,2))
  moreover have "par (c_trans E) (blank E) = (True, TransactionT_new)" using assms unfolding pb_ok_def codec_ok_def by blast
  ultimately have e: "log_entry E ?g 0 = Some TransactionT_new" by (simp add: log_entry_def)
  have n: "?g (log_key i) = None" if "0 < i" for i
  proof (rule ccontr)
    assume "?g (log_key i) \<noteq> None"
    with zero_id [OF r(1,2), of E i] that show False by (simp add: log_key_def)
  qed
  have l: "\<exists>i. k = log_key i" if "log_key_like k" "?g k \<noteq> None" for k
    using zero_type [OF r(3), of k E] that unfolding log_key_like_def log_key_def by blast
  have "log_ok E ?g 0" using e n l by (simp add: log_ok_def TransactionT_new_def)
  moreover have "log_data E ?g 0" by (simp add: log_data_def)
  moreover have "replays E ?g ?g 0" by (simp add: replays_def replay_def)
  moreover have "store_key k" if "?g k \<noteq> None" for k
  proof -
    from that obtain kt where "K_NONODE \<le> kt" "kt \<le> K_MAXNODE" "k = EncodePrimaryKey kt 0" by (auto simp: zero_records_Some)
    with store_key_primary primary_range_byte show ?thesis by simp
  qed
  ultimately show ?thesis unfolding replica_def store_keys_ok_def by blast
qed

lemma fenced_zero: "fenced (zero_records E)"
  unfolding fenced_def zero_records_def by (auto simp: fence_iff)

text \<open>Opening an empty store beside an empty index writes the zero record of every primary type and establishes
  the invariant of the node.\<close>

lemma InitCounters_empty':
  assumes "env_ok E" and "kv_get E (db s) = (\<lambda>_. None)" and "dbcache s = (\<lambda>_. None)" and "xaplog s = []"
  shows "\<exists>s'. InitCounters E s = (Inr (), s') \<and> sys_inv E (zero_records E) s' \<and> kv_get E (db s') = zero_records E \<and>
    logcounter s' = 0 \<and> maincounter s' = 1"
proof -
  have e: "kv_ok E" "writes_succeed E" "pb_ok E" using assms(1) by (simp_all add: env_ok_def)
  have "store_keys_ok (kv_get E (db s))" by (simp add: assms(2) store_keys_ok_def)
  from Initialize_run [OF e(1,2) this] obtain d pk lk where i: "Initialize E (db s) 0 0 = Inr (d, pk, lk)"
    and g: "kv_get E d = zero_records E" and k: "pk = 0" "lk = 0"
    by (auto simp: assms(2) zero_records_def fun_eq_iff)
  have "caches_ok E (s\<lparr>db := d, maincounter := 1, logcounter := 0\<rparr>)"
    using assms(3,4) by (simp add: caches_ok_def cache_agrees_def index_ok_def indexed_def g
      localdata_tbl.abs_table_zero wikidata_tbl.abs_table_zero)
  with i g k show ?thesis
    by (simp add: InitCounters_def sys_inv_def replica_zero [OF e(3)] tables_zero fenced_zero)
qed

context table_laws
begin

lemma ids_below_greatest:
  assumes "\<forall>kt i. K_NONODE \<le> kt \<and> kt < K_LOGNODE \<and> g (EncodePrimaryKey kt i) \<noteq> None \<longrightarrow> i \<le> pk" and "pk \<le> m"
  shows "ids_below T g m"
  unfolding ids_below_def
proof (intro allI impI)
  fix i r assume "abs_table T g i = Some r"
  then have "g (EncodePrimaryKey (PrimaryKey T) i) \<noteq> None" by (auto simp: abs_table_def split: if_splits option.splits)
  with assms pkey_range have "i \<le> pk" by (metis order_less_imp_le)
  with assms(2) show "i \<le> m" by simp
qed

end

lemma log_counter_greatest:
  assumes "log_ok E g n" and "\<forall>i. g (EncodePrimaryKey K_LOGNODE i) \<noteq> None \<longrightarrow> i \<le> lk"
    and "lk = 0 \<or> g (EncodePrimaryKey K_LOGNODE lk) \<noteq> None"
  shows "lk = n"
proof -
  obtain t where "log_entry E g n = Some t" using assms(1) order_refl [of n] unfolding log_ok_def by blast
  then have "g (log_key n) \<noteq> None" by (auto simp: log_entry_def split: option.splits)
  then have "n \<le> lk" using assms(2) by (simp add: log_key_def)
  moreover have "\<not> n < lk" using assms(1,3) unfolding log_ok_def log_key_def by auto
  ultimately show ?thesis by simp
qed

lemma InitCounters_restart':
  assumes "env_ok E" and "sys_inv E g0 s" and "db t = db s" and "dbcache t = (\<lambda>_. None)"
    and "xaplog t = xaplog s" and "no_xapian t = no_xapian s"
  shows "\<exists>t'. InitCounters E t = (Inr (), t') \<and> sys_inv E g0 t' \<and> kv_get E (db t') = kv_get E (db s) \<and> logcounter t' = logcounter s"
proof -
  have e: "kv_ok E" "writes_succeed E" using assms(1) by (simp_all add: env_ok_def)
  let ?g = "kv_get E (db s)"
  have r: "store_keys_ok ?g" "log_ok E ?g (logcounter s)" using sys_invD(1) [OF assms(2)] unfolding replica_def by blast+
  from Initialize_run [OF e r(1)] obtain d pk lk where i: "Initialize E (db s) 0 0 = Inr (d, pk, lk)"
    and g: "\<forall>k. kv_get E d k = (if fence [K_NONODE .. K_MAXNODE] k \<and> ?g k = None then Some (blank E) else ?g k)"
    and pk: "\<forall>kt i. K_NONODE \<le> kt \<and> kt < K_LOGNODE \<and> ?g (EncodePrimaryKey kt i) \<noteq> None \<longrightarrow> i \<le> pk"
    and lk: "\<forall>i. ?g (EncodePrimaryKey K_LOGNODE i) \<noteq> None \<longrightarrow> i \<le> lk" "lk = 0 \<or> ?g (EncodePrimaryKey K_LOGNODE lk) \<noteq> None" by blast
  let ?m = "if pk > 0 then pk else 1"
  have d: "kv_get E d = ?g" using g sys_invD(5) [OF assms(2)] by (auto simp: fenced_def fence_iff fun_eq_iff)
  have m: "pk \<le> ?m" by (simp add: not_less)
  have "tables_below E ?g ?m"
    unfolding tables_below_def
    by (intro conjI tagdata_tbl.ids_below_greatest [OF pk m] category_tbl.ids_below_greatest [OF pk m] exterdata_tbl.ids_below_greatest [OF pk m]
      userdata_tbl.ids_below_greatest [OF pk m] localdata_tbl.ids_below_greatest [OF pk m] wikidata_tbl.ids_below_greatest [OF pk m])
  moreover have "caches_ok E (t\<lparr>db := d, maincounter := ?m, logcounter := lk\<rparr>)"
    using assms(4-6) sys_invD(4) [OF assms(2)] by (simp add: caches_ok_def cache_agrees_def index_ok_def d)
  moreover have "lk = logcounter s" by (rule log_counter_greatest [OF r(2) lk])
  ultimately show ?thesis
    using i d sys_invD(1,2,5) [OF assms(2)] assms(3) by (simp add: InitCounters_def sys_inv_def)
qed

text \<open>C24: A node that is stopped and started again, with its caches lost, its search index as it was and its counters read from the store, satisfies
  the invariant again: the data and the log are what they were, the log counter is restored exactly and no
  id in use is above the restored counter.\<close>

theorem InitCounters_restart:
  assumes "env_ok E" and "sys_inv E g0 s" and "db t = db s" and "dbcache t = (\<lambda>_. None)"
    and "xaplog t = xaplog s" and "no_xapian t = no_xapian s"
  shows "\<exists>t'. InitCounters E t = (Inr (), t') \<and> sys_inv E g0 t' \<and> kv_get E (db t') = kv_get E (db s) \<and> logcounter t' = logcounter s"
  by (rule InitCounters_restart' [OF assms])

end
