(* ===== verification/NodeLaws.thy ===== *)
theory NodeLaws
  imports WebLaws StartLaws
begin

text \<open>
  A node over its whole life as a master: \<open>serve\<close> has one equation per kind of request it serves, from the other
  hosts and from clients over HTTP, and every state it reaches satisfies the invariant of the node.
\<close>

section \<open>The requests a node serves\<close>

datatype 'b event =
    MasterRequest "'b hrpc_request" | RemoteRequest "'b hrpc_request"
  | ChangeTags "TagDataT DataRespT" | ChangeCategories "CategoryT DataRespT" | ChangeExters "UserDataT DataRespT"
  | ChangeUsers "UserDataT DataRespT" | ChangeLocal "ItemDataT DataRespT" | ChangeWiki "ItemDataT DataRespT"
  | ResetExter ResetRespT | ResetUser ResetRespT | AdminCreate UserDataT bool bool bool
  | LoginExter LoginRespT | LoginUser LoginRespT
  | ReadTags "TagDataT DataRespT" | ReadCategories "CategoryT DataRespT" | ReadExters "UserDataT DataRespT"
  | ReadUsers "UserDataT DataRespT" | ReadLocal "ItemDataT DataRespT" | ReadWiki "ItemDataT DataRespT"
  | TellHosts | HttpRequest string | Restart

text \<open>A restart loses the caches, the list of hosts and what was pushed, and reads the counters from the store. The
  index stays, as it is committed when it is closed; it is off afterwards if it was off before.\<close>

fun serve :: "('b, 'd) env \<Rightarrow> web \<times> HelpT list \<Rightarrow> 'b master_codecs \<Rightarrow> (RemoteT, 'b) codec \<Rightarrow> 'b event \<Rightarrow> ('b, 'd) shared \<Rightarrow> ('b, 'd) shared" where
  "serve E W C cr (MasterRequest rq) s = snd (MasterEndpoint E C rq s)"
| "serve E W C cr (RemoteRequest rq) s = snd (RemoteEndpoint E cr rq s)"
| "serve E W C cr (ChangeTags r) s = snd (TagData_ManageDataAction E r s)"
| "serve E W C cr (ChangeCategories r) s = snd (Category_ManageDataAction E r s)"
| "serve E W C cr (ChangeExters r) s = snd (Exter_ManageDataAction E r s)"
| "serve E W C cr (ChangeUsers r) s = snd (User_ManageDataAction E r s)"
| "serve E W C cr (ChangeLocal r) s = snd (Item_ManageDataAction E (LocalDataService E) r s)"
| "serve E W C cr (ChangeWiki r) s = snd (Item_ManageDataAction E (WikiDataService E) r s)"
| "serve E W C cr (ResetExter r) s = snd (Exter_ResetPassAction E r s)"
| "serve E W C cr (ResetUser r) s = snd (User_ResetPassAction E r s)"
| "serve E W C cr (AdminCreate u up adm prof) s = snd (AdminCreateAction E u up adm prof s)"
| "serve E W C cr (LoginExter l) s = snd (GetSession E (Exter_Get E) l s)"
| "serve E W C cr (LoginUser l) s = snd (GetSession E (User_Get E) l s)"
| "serve E W C cr (ReadTags r) s = snd (TagData_ReadDataAction E r s)"
| "serve E W C cr (ReadCategories r) s = snd (Category_ReadDataAction E r s)"
| "serve E W C cr (ReadExters r) s = snd (Exter_ReadDataAction E r s)"
| "serve E W C cr (ReadUsers r) s = snd (User_ReadDataAction E r s)"
| "serve E W C cr (ReadLocal r) s = snd (Item_ReadDataAction E (LocalDataService E) r s)"
| "serve E W C cr (ReadWiki r) s = snd (Item_ReadDataAction E (WikiDataService E) r s)"
| "serve E W C cr TellHosts s = snd (HostUpdate E s)"
| "serve E W C cr (HttpRequest bytes) s = snd (serve_bytes E (fst W) C (snd W) bytes s)"
| "serve E W C cr Restart s = snd (InitCounters E (s\<lparr>dbcache := \<lambda>_. None, tmpcache := \<lambda>_. None, remotes := [],
     transactions := [], lastslave := []\<rparr>))"

text \<open>The counters must have room for the ids a request may draw.\<close>

definition body_room :: "('m DataRespT, 'b) codec \<Rightarrow> 'b hrpc_request \<Rightarrow> ('b, 'd) shared \<Rightarrow> bool" where
  "body_room c rq s \<longleftrightarrow> (case parse_body c rq of Inl e \<Rightarrow> True | Inr m \<Rightarrow> room s (dr_payloads m))"

fun has_room :: "'b master_codecs \<Rightarrow> 'b event \<Rightarrow> ('b, 'd) shared \<Rightarrow> bool" where
  "has_room C (MasterRequest rq) s \<longleftrightarrow> logcounter s + 1 \<noteq> 0 \<and> body_room (c_tagresp C) rq s \<and> body_room (c_catresp C) rq s \<and>
     body_room (c_userresp C) rq s \<and> body_room (c_itemresp C) rq s"
| "has_room C (ChangeTags r) s = room s (dr_payloads r)"
| "has_room C (ChangeCategories r) s = room s (dr_payloads r)"
| "has_room C (ChangeExters r) s = room s (dr_payloads r)"
| "has_room C (ChangeUsers r) s = room s (dr_payloads r)"
| "has_room C (ChangeLocal r) s = room s (dr_payloads r)"
| "has_room C (ChangeWiki r) s = room s (dr_payloads r)"
| "has_room C (ResetExter r) s \<longleftrightarrow> logcounter s + 1 \<noteq> 0"
| "has_room C (ResetUser r) s \<longleftrightarrow> logcounter s + 1 \<noteq> 0"
| "has_room C (HttpRequest bytes) s = wide s"
| "has_room C (AdminCreate u up adm prof) s = room s [u]"
| "has_room C ev s = True"

text \<open>What a node that starts with an empty store and an empty index can become.\<close>

inductive reachable :: "('b, 'd) env \<Rightarrow> web \<times> HelpT list \<Rightarrow> 'b master_codecs \<Rightarrow> (RemoteT, 'b) codec \<Rightarrow> ('b, 'd) shared \<Rightarrow> bool"
  for E W C cr where
  opened: "kv_get E (db s) = (\<lambda>_. None) \<Longrightarrow> dbcache s = (\<lambda>_. None) \<Longrightarrow> xaplog s = [] \<Longrightarrow> reachable E W C cr (snd (InitCounters E s))"
| served: "reachable E W C cr s \<Longrightarrow> has_room C ev s \<Longrightarrow> reachable E W C cr (serve E W C cr ev s)"

section \<open>Every request keeps the invariant\<close>

text \<open>The invariant, and the administrators of the state \<open>s0\<close> the request started in.\<close>

definition safe :: "('b, 'd) env \<Rightarrow> 'b lookup \<Rightarrow> ('b, 'd) shared \<Rightarrow> ('b, 'd) shared \<Rightarrow> bool" where
  "safe E g0 s0 s \<longleftrightarrow> sys_inv E g0 s \<and> administrators E (kv_get E (db s)) = administrators E (kv_get E (db s0))"

definition inv_after :: "('b, 'd) env \<Rightarrow> 'b lookup \<Rightarrow> ('b, 'd) shared \<Rightarrow> 'y res \<times> ('b, 'd) shared \<Rightarrow> bool" where
  "inv_after E g0 s0 p \<longleftrightarrow> safe E g0 s0 (snd p)"

lemma safe_steady: "sys_inv E g0 s0 \<Longrightarrow> steady E s0 s \<Longrightarrow> safe E g0 s0 s"
  by (simp add: safe_def steady_inv steadyD)

lemma safe_from: "steady E s0 s \<Longrightarrow> safe E g0 s s' \<Longrightarrow> safe E g0 s0 s'"
  by (simp add: safe_def steadyD)

lemma aborts_inv: "sys_inv E g0 s0 \<Longrightarrow> aborts E s0 (inv_after E g0 s0)"
  by (auto simp: aborts_def inv_after_def safe_steady)

lemma steady_room: "steady E s0 s \<Longrightarrow> room s0 ms \<Longrightarrow> room s ms"
  by (simp add: room_def steadyD)

lemma handles_steady: "sys_inv E g0 s0 \<Longrightarrow> keeps (steady E s0) m \<Longrightarrow> handles E s0 (inv_after E g0 s0) m"
  unfolding handles_def inv_after_def by (metis keepsD safe_steady)

text \<open>The services behind the endpoint of the master.\<close>

definition serves_inv :: "('b, 'd) env \<Rightarrow> 'b lookup \<Rightarrow> ('b, 'd) shared \<Rightarrow> ('m \<Rightarrow> bool) \<Rightarrow> ('m \<Rightarrow> (('b, 'd) shared, 'm) act) \<Rightarrow> bool" where
  "serves_inv E g0 s0 fits serv \<longleftrightarrow> (\<forall>m s. fits m \<longrightarrow> steady E s0 s \<longrightarrow> safe E g0 s0 (snd (serv m s)))"

lemma serves_atomic:
  assumes "\<And>s m. sys_inv E g0 s \<Longrightarrow> room s (dr_payloads m) \<Longrightarrow> atomic_request E g0 T u uk (who m s) (fits m) (xs m) s (serv m s)" and "sys_inv E g0 s0"
    and "\<And>s m. sys_inv E g0 s \<Longrightarrow> room s (dr_payloads m) \<Longrightarrow> administrators E (kv_get E (db (snd (serv m s)))) = administrators E (kv_get E (db s))"
  shows "serves_inv E g0 s0 (\<lambda>m. room s0 (dr_payloads m)) serv"
proof -
  have "safe E g0 s (snd (serv m s))" if "sys_inv E g0 s" "room s (dr_payloads m)" for s m
    using assms(1,3) [OF that] by (simp add: safe_def atomic_request_def)
  with assms(2) show ?thesis unfolding serves_inv_def by (blast intro: steady_inv steady_room safe_from)
qed

lemma serves_reset:
  assumes "\<And>s m. sys_inv E g0 s \<Longrightarrow> logcounter s + 1 \<noteq> 0 \<Longrightarrow> reset_effect E g0 T m s (serv m s)" and "sys_inv E g0 s0" and "logcounter s0 + 1 \<noteq> 0"
    and "\<And>s m. sys_inv E g0 s \<Longrightarrow> logcounter s + 1 \<noteq> 0 \<Longrightarrow> administrators E (kv_get E (db (snd (serv m s)))) = administrators E (kv_get E (db s))"
  shows "serves_inv E g0 s0 (\<lambda>_. True) serv"
proof -
  have "safe E g0 s (snd (serv m s))" if "sys_inv E g0 s" "logcounter s + 1 \<noteq> 0" for s m
    using assms(1,4) [OF that] by (simp add: safe_def reset_effect_def)
  with assms(2,3) show ?thesis unfolding serves_inv_def by (metis steady_inv steadyD(5) safe_from)
qed

lemma handle_hrpc_inv:
  assumes "sys_inv E g0 s0" and "serves_inv E g0 s0 fits serv" and "\<And>m. parse_body c rq = Inr m \<Longrightarrow> fits m"
  shows "handles E s0 (inv_after E g0 s0) (handle_hrpc c serv rq)"
  unfolding handle_hrpc_def
proof (intro handles_liftR aborts_inv assms(1))
  fix m s assume "parse_body c rq = Inr m"
  then have "fits m" by (rule assms(3))
  with assms(2) show "handles E s0 (inv_after E g0 s0) (bindA (serv m) (\<lambda>m'. ret (ser c m')))"
    by (auto simp: handles_def inv_after_def serves_inv_def bindA_def ret_def split: prod.splits sum.splits) (metis snd_conv)+
qed

lemma changes_inv:
  assumes "env_ok E" and "sys_inv E g0 s0"
  shows "serves_inv E g0 s0 (\<lambda>m. room s0 (dr_payloads m)) (TagData_ManageDataAction E)"
    "serves_inv E g0 s0 (\<lambda>m. room s0 (dr_payloads m)) (Category_ManageDataAction E)"
    "serves_inv E g0 s0 (\<lambda>m. room s0 (dr_payloads m)) (Exter_ManageDataAction E)"
    "serves_inv E g0 s0 (\<lambda>m. room s0 (dr_payloads m)) (User_ManageDataAction E)"
    "serves_inv E g0 s0 (\<lambda>m. room s0 (dr_payloads m)) (Item_ManageDataAction E (LocalDataService E))"
    "serves_inv E g0 s0 (\<lambda>m. room s0 (dr_payloads m)) (Item_ManageDataAction E (WikiDataService E))"
  by (rule serves_atomic [OF TagData_ManageDataAction_run [OF assms(1)] assms(2) admins_changes(1) [OF assms(1)]], assumption+,
      rule serves_atomic [OF Category_ManageDataAction_run [OF assms(1)] assms(2) admins_changes(2) [OF assms(1)]], assumption+,
      rule serves_atomic [OF Exter_ManageDataAction_run [OF assms(1)] assms(2) admins_changes(3) [OF assms(1)]], assumption+,
      rule serves_atomic [OF User_ManageDataAction_run [OF assms(1)] assms(2) admins_changes(4) [OF assms(1)]], assumption+,
      rule serves_atomic [OF Local_ManageDataAction_atomic [OF assms(1)] assms(2) admins_changes(5) [OF assms(1)]], assumption+,
      rule serves_atomic [OF Wiki_ManageDataAction_atomic [OF assms(1)] assms(2) admins_changes(6) [OF assms(1)]], assumption+)

lemma resets_inv:
  assumes "env_ok E" and "sys_inv E g0 s0" and "logcounter s0 + 1 \<noteq> 0"
  shows "serves_inv E g0 s0 (\<lambda>_. True) (User_ResetPassAction E)" "serves_inv E g0 s0 (\<lambda>_. True) (Exter_ResetPassAction E)"
proof -
  have "reset_effect E g0 (UserDataTable E) m s (User_ResetPassAction E m s)"
    and "reset_effect E g0 (ExterDataTable E) m s (Exter_ResetPassAction E m s)" if "sys_inv E g0 s" "logcounter s + 1 \<noteq> 0" for s m
    using handlesD [OF User_reset_handles [OF assms(1) that] inv_steady [OF assms(1) that(1)]]
      handlesD [OF Exter_reset_handles [OF assms(1) that] inv_steady [OF assms(1) that(1)]] by simp_all
  note r = this
  show "serves_inv E g0 s0 (\<lambda>_. True) (User_ResetPassAction E)" by (rule serves_reset [OF r(1) assms(2,3) admins_resets(1) [OF assms(1)]])
  show "serves_inv E g0 s0 (\<lambda>_. True) (Exter_ResetPassAction E)" by (rule serves_reset [OF r(2) assms(2,3) admins_resets(2) [OF assms(1)]])
qed

lemma handles_tick:
  assumes "handles E s0 (inv_after E g0 s0) m"
  shows "handles E s0 (inv_after E g0 s0) (bindA m (\<lambda>out. bindA (CURRTIME_MS E) (\<lambda>_. ret out)))"
proof -
  have t: "safe E g0 s0 (s\<lparr>ticks := n\<rparr>) = safe E g0 s0 s" for s n
    using caches_ok_frame [of "s\<lparr>ticks := n\<rparr>" s E] by (simp add: safe_def sys_inv_def)
  from assms show ?thesis
    by (auto simp: handles_def inv_after_def bindA_def CURRTIME_MS_def ret_def t split: prod.split sum.split)
qed

lemma handles_if: "handles E s Q m \<Longrightarrow> handles E s Q k \<Longrightarrow> handles E s Q (if b then m else k)"
  by simp

lemma body_roomD: "body_room c rq s \<Longrightarrow> parse_body c rq = Inr m \<Longrightarrow> room s (dr_payloads m)"
  by (simp add: body_room_def)

lemma master_action_handles:
  assumes "env_ok E" and "sys_inv E g0 s0" and "has_room C (MasterRequest rq) s0"
  shows "handles E s0 (inv_after E g0 s0) (master_action E C rq)"
proof -
  have lc: "logcounter s0 + 1 \<noteq> 0" using assms(3) by simp
  have room: "body_room (c_tagresp C) rq s0" "body_room (c_catresp C) rq s0" "body_room (c_userresp C) rq s0" "body_room (c_itemresp C) rq s0"
    using assms(3) by simp_all
  note ab = aborts_inv [OF assms(2)]
  note ch = handle_hrpc_inv [OF assms(2) changes_inv(1) [OF assms(1,2)]] handle_hrpc_inv [OF assms(2) changes_inv(2) [OF assms(1,2)]]
    handle_hrpc_inv [OF assms(2) changes_inv(3) [OF assms(1,2)]] handle_hrpc_inv [OF assms(2) changes_inv(4) [OF assms(1,2)]]
    handle_hrpc_inv [OF assms(2) changes_inv(5) [OF assms(1,2)]] handle_hrpc_inv [OF assms(2) changes_inv(6) [OF assms(1,2)]]
    handle_hrpc_inv [OF assms(2) resets_inv(1) [OF assms(1,2) lc]] handle_hrpc_inv [OF assms(2) resets_inv(2) [OF assms(1,2) lc]]
  have commands: "handles E s0 (inv_after E g0 s0) (if sname = M_MANAGE_TAGS then handle_hrpc (c_tagresp C) (TagData_ManageDataAction E) rq
     else if sname = M_MANAGE_CATEGORY then handle_hrpc (c_catresp C) (Category_ManageDataAction E) rq
     else if sname = M_MANAGE_EXTER then handle_hrpc (c_userresp C) (Exter_ManageDataAction E) rq
     else if sname = M_MANAGE_USER then handle_hrpc (c_userresp C) (User_ManageDataAction E) rq
     else if sname = M_RESETPASS_EXTER then handle_hrpc (c_resetresp C) (Exter_ResetPassAction E) rq
     else if sname = M_RESETPASS_USER then handle_hrpc (c_resetresp C) (User_ResetPassAction E) rq
     else if sname = M_MANAGE_LOCALDATA then handle_hrpc (c_itemresp C) (Item_ManageDataAction E (LocalDataService E)) rq
     else if sname = M_MANAGE_WIKIDATA then handle_hrpc (c_itemresp C) (Item_ManageDataAction E (WikiDataService E)) rq
     else bindA (CURRTIME_MS E) (\<lambda>_. raise e))" for sname e
    by (intro handles_if ch room [THEN body_roomD] TrueI handles_steady [OF assms(2)] keeps_intros steady_intros)
  show ?thesis
    unfolding master_action_def
    by (intro handles_bind [OF ab keeps_throwIf] handles_bind [OF ab keeps_readA] handles_bind [OF ab keeps_liftR]
        handles_bind [OF ab steady_CURRTIME] handles_tick commands)
qed

lemma safe_restarted:
  assumes "env_ok E" and "sys_inv E g0 s"
  shows "safe E g0 s (serve E W C cr Restart s)"
  using InitCounters_restart' [OF assms, of "s\<lparr>dbcache := \<lambda>_. None, tmpcache := \<lambda>_. None, remotes := [], transactions := [], lastslave := []\<rparr>"]
  by (auto simp: safe_def)

lemma keeps_safe: "env_ok E \<Longrightarrow> sys_inv E g0 s \<Longrightarrow> keeps (steady E s) m \<Longrightarrow> safe E g0 s (snd (m s))"
  by (rule safe_steady [OF _ keepsD [where P = "steady E s", OF _ inv_steady]])

lemma serves_invD: "env_ok E \<Longrightarrow> sys_inv E g0 s \<Longrightarrow> serves_inv E g0 s fits serv \<Longrightarrow> fits m \<Longrightarrow> safe E g0 s (snd (serv m s))"
  unfolding serves_inv_def using inv_steady by blast

fun makes_admin :: "'b event \<Rightarrow> bool" where
  "makes_admin (AdminCreate u up adm prof) = True"
| "makes_admin ev = False"

lemma serve_safe:
  assumes "env_ok E" and "sys_inv E g0 s" and "has_room C ev s" and "prints (fst W)" and "\<not> makes_admin ev"
  shows "safe E g0 s (serve E W C cr ev s)"
proof -
  note st = inv_steady [OF assms(1,2)]
  note quiet = keeps_safe [OF assms(1,2)] and changed = changes_inv [OF assms(1,2), THEN serves_invD [OF assms(1,2)]]
    and reset = resets_inv [OF assms(1,2), THEN serves_invD [OF assms(1,2)]]
  show ?thesis
  proof (cases ev)
    case (MasterRequest rq)
    from handlesD [OF master_action_handles [OF assms(1,2) assms(3) [unfolded MasterRequest]] st] MasterRequest show ?thesis
      by (auto simp: MasterEndpoint_def inv_after_def split: prod.split sum.split exn.split)
  next
    case (RemoteRequest rq)
    from quiet [OF steady_remote_action] RemoteRequest show ?thesis
      by (auto simp: RemoteEndpoint_def split: prod.split sum.split) (metis snd_conv)+
  next
    case (HttpRequest bytes)
    obtain ans s' where r: "serve_bytes E (fst W) C (snd W) bytes s = (ans, s')" by force
    from serve_bytes_run [OF assms(1,2,4) _ r] assms(3) HttpRequest r show ?thesis by (simp add: safe_def)
  next
    case Restart
    with safe_restarted [OF assms(1,2)] show ?thesis by simp
  qed (use assms(3,5) quiet in \<open>auto simp: changed reset intro!: steady_intros\<close>)
qed

lemma serve_inv:
  assumes "env_ok E" and "sys_inv E g0 s" and "has_room C ev s" and "prints (fst W)"
  shows "sys_inv E g0 (serve E W C cr ev s)"
proof (cases "makes_admin ev")
  case True
  then obtain u up adm prof where "ev = AdminCreate u up adm prof" by (cases ev) auto
  with handlesD [OF AdminCreate_handles [OF assms(1,2)] inv_steady [OF assms(1,2)], of u up adm prof] assms(3)
  show ?thesis by (simp add: admin_effect_def)
qed (use serve_safe [OF assms] in \<open>simp add: safe_def\<close>)

lemma reachable_inv':
  assumes "env_ok E" and "prints (fst W)" and "reachable E W C cr s"
  shows "sys_inv E (zero_records E) s"
  using assms(3)
proof (induction rule: reachable.induct)
  case (opened s)
  from InitCounters_empty' [OF assms(1) opened] show ?case by auto
next
  case (served s ev)
  show ?case by (rule serve_inv [OF assms(1) served.IH served.hyps(2) assms(2)])
qed

text \<open>C1: In every state a master can reach from an empty store, by any sequence of the requests it serves, from
  other hosts and from clients over HTTP, and of restarts, the invariant of the node holds: the log is complete and its replay over the zero records gives
  the data, every table has its records under their ids and unique keys and nothing else, no id is above
  the counter, what the caches hold is what the tables hold, and the calls made to the search index, while it is on, leave there what
  the tables of items hold.\<close>

theorem reachable_inv:
  assumes "env_ok E" and "prints (fst W)" and "reachable E W C cr s"
  shows "sys_inv E (zero_records E) s"
  by (rule reachable_inv' [OF assms])

text \<open>The types of what is stored: under a primary key a record of the table of its key type, with the id of the key; under
  a unique key the node of a record that is there; under a key of the log the transaction of that number.\<close>

definition typed_in :: "('b, 'd) env \<Rightarrow> ('r, 'b) table \<Rightarrow> 'b lookup \<Rightarrow> bool" where
  "typed_in E T g \<longleftrightarrow>
     (\<forall>i v. i \<noteq> 0 \<longrightarrow> g (EncodePrimaryKey (PrimaryKey T) i) = Some v \<longrightarrow> (\<exists>r. par (rcodec T) v = (True, r) \<and> rid T r = i)) \<and>
     (\<forall>u \<in> set (unique_keys T). \<forall>k v. starts_with k (ZPDS_FMT_ID_KEY u) \<longrightarrow> g k = Some v \<longrightarrow>
        (\<exists>i. par (c_node E) v = (True, \<lparr>node_keytype = PrimaryKey T, node_id = i\<rparr>) \<and> i \<noteq> 0 \<and> g (EncodePrimaryKey (PrimaryKey T) i) \<noteq> None)) \<and>
     (\<forall>u \<in> set (unique_keys T). \<forall>r. \<exists>y. GetOne E T g r u = Inr y)"

definition well_typed :: "('b, 'd) env \<Rightarrow> 'b lookup \<Rightarrow> 64 word \<Rightarrow> bool" where
  "well_typed E g n \<longleftrightarrow> store_keys_ok g \<and>
     (\<forall>i v. g (log_key i) = Some v \<longrightarrow> i \<le> n \<and> (\<exists>t. par (c_trans E) v = (True, t) \<and> tr_id t = i)) \<and>
     typed_in E (TagDataTable E) g \<and> typed_in E (CategoryTable E) g \<and> typed_in E (ExterDataTable E) g \<and>
     typed_in E (UserDataTable E) g \<and> typed_in E (LocalDataTable E) g \<and> typed_in E (WikiDataTable E) g"

context table_laws
begin

lemma wf_typed: "wf_table E T g \<Longrightarrow> typed_in E T g"
proof -
  assume w: "wf_table E T g"
  have "\<exists>r. par (rcodec T) v = (True, r) \<and> rid T r = i" if "i \<noteq> 0" "g (EncodePrimaryKey (PrimaryKey T) i) = Some v" for i v
    using w that unfolding wf_table_def records_ok_def by blast
  moreover have "\<exists>i. par (c_node E) v = (True, \<lparr>node_keytype = PrimaryKey T, node_id = i\<rparr>) \<and> i \<noteq> 0 \<and> g (EncodePrimaryKey (PrimaryKey T) i) \<noteq> None"
    if u: "u \<in> set (unique_keys T)" "starts_with k (ZPDS_FMT_ID_KEY u)" "g k = Some v" for u k v
  proof -
    from w u obtain i r where i: "abs_table T g i = Some r" "node_at E T g k i" unfolding wf_table_def index_sound_def by (elim conjE ballE [of _ _ u] allE [of _ k] exE) (auto intro: that)
    then have "i \<noteq> 0" "g (EncodePrimaryKey (PrimaryKey T) i) \<noteq> None" by (auto simp: abs_table_def split: if_splits option.splits)
    with i(2) u(3) show ?thesis unfolding node_at_def by (metis option.inject)
  qed
  moreover have "\<exists>y. GetOne E T g r u = Inr y" if "u \<in> set (unique_keys T)" for u r
    using GetOne_unique [OF w that, of r] by auto
  ultimately show ?thesis unfolding typed_in_def by (intro conjI allI ballI impI) simp_all
qed

end

text \<open>C16: What is stored is well typed in every state a node can reach: every key is one of the key formats; what is stored
  under it parses as the message its key type stands for, with the id or the number of the key; the node under a
  unique key points to a record. So no lookup by a unique key ever ends in an exception for a record that cannot be parsed.\<close>

theorem store_typed:
  assumes "env_ok E" and "prints (fst W)" and "reachable E W C cr s"
  shows "well_typed E (kv_get E (db s)) (logcounter s)"
proof -
  have i: "sys_inv E (zero_records E) s" by (rule reachable_inv' [OF assms])
  note t = tables_wfD [OF sys_invD(2) [OF i]]
  have l: "log_ok E (kv_get E (db s)) (logcounter s)" and k: "store_keys_ok (kv_get E (db s))"
    using sys_invD(1) [OF i] by (simp_all add: replica_def)
  have "i \<le> logcounter s \<and> (\<exists>t. par (c_trans E) v = (True, t) \<and> tr_id t = i)" if v: "kv_get E (db s) (log_key i) = Some v" for i v
  proof -
    from l v have "i \<le> logcounter s" unfolding log_ok_def by (metis not_le option.distinct(1))
    with l obtain t where "log_entry E (kv_get E (db s)) i = Some t" "tr_id t = i" unfolding log_ok_def by blast
    with v \<open>i \<le> logcounter s\<close> show ?thesis by (intro conjI exI [of _ t]) (auto simp: log_entry_def prod_eq_iff split: if_splits)
  qed
  with k show ?thesis
    by (simp add: well_typed_def tagdata_tbl.wf_typed [OF t(1)] category_tbl.wf_typed [OF t(2)] exterdata_tbl.wf_typed [OF t(3)]
        userdata_tbl.wf_typed [OF t(4)] localdata_tbl.wf_typed [OF t(5)] wikidata_tbl.wf_typed [OF t(6)])
qed

text \<open>C2: What the code does, against what the documents of the repository say. Nobody becomes an administrator, and no
  administrator is lost or renamed, by any request a node serves in a state it can reach: not by those of other hosts, not by
  whatever bytes a client sends, and not by a restart. Only \<open>AdminCreateAction\<close>, which no request leads to, can do that. An
  administrator is a record of an exter with the flag \<open>is_admin\<close>, marked deleted or not: a request to delete sets marks,
  which neither the login nor the check of a session reads.\<close>

theorem administrators_kept:
  assumes "env_ok E" and "prints (fst W)" and "reachable E W C cr s" and "has_room C ev s" and "\<not> makes_admin ev"
  shows "administrators E (kv_get E (db (serve E W C cr ev s))) = administrators E (kv_get E (db s))"
  using serve_safe [OF assms(1) reachable_inv' [OF assms(1-3)] assms(4,2,5), of cr] by (simp add: safe_def)

end
