(* ===== verification/TransparentLaws.thy ===== *)
theory TransparentLaws
  imports ReplicationLaws WebServer
begin

text \<open>
  A client may talk to any host: a change sent to a slave is made by the master, and the client gets the answer
  the master would have given. Only errors lose something on the way: their code and, but for those
  of one kind, their text.
\<close>

section \<open>What the master makes of a forwarded message\<close>

lemma stoi10_digit: "n < 10 \<Longrightarrow> stoi10 (to_dec n) = Inr (int n)"
proof -
  assume n: "n < 10"
  have c: "(of_char (to_dec_digit n) :: nat) = 48 + n" using n by (simp add: to_dec_digit_def of_char_of)
  have "to_dec n = [to_dec_digit n]" using n by (simp add: to_dec.simps)
  moreover have "strip_sign [to_dec_digit n] = (False, [to_dec_digit n])"
  proof -
    have "to_dec_digit n \<noteq> CHR ''-''" "to_dec_digit n \<noteq> CHR ''+''" using c by auto
    then show ?thesis by (cases "to_dec_digit n") auto
  qed
  moreover have "\<not> isspace (to_dec_digit n)" "dval (to_dec_digit n) = Some n" using n c by (simp_all add: isspace_def dval_def isdigit_def)
  ultimately show ?thesis using n by (simp add: stoi10_def Let_def)
qed

lemma stoi10_commands:
  "stoi10 (to_dec (nat M_MANAGE_TAGS)) = Inr M_MANAGE_TAGS" "stoi10 (to_dec (nat M_MANAGE_CATEGORY)) = Inr M_MANAGE_CATEGORY"
  "stoi10 (to_dec (nat M_MANAGE_EXTER)) = Inr M_MANAGE_EXTER" "stoi10 (to_dec (nat M_MANAGE_USER)) = Inr M_MANAGE_USER"
  "stoi10 (to_dec (nat M_RESETPASS_EXTER)) = Inr M_RESETPASS_EXTER" "stoi10 (to_dec (nat M_RESETPASS_USER)) = Inr M_RESETPASS_USER"
  "stoi10 (to_dec (nat M_MANAGE_LOCALDATA)) = Inr M_MANAGE_LOCALDATA" "stoi10 (to_dec (nat M_MANAGE_WIKIDATA)) = Inr M_MANAGE_WIKIDATA"
  using stoi10_digit by (simp_all add: master_cmd_defs)

text \<open>\<open>runs F C sid c serv\<close>: the endpoint of the master runs \<open>serv\<close> for the command \<open>sid\<close>.\<close>

definition runs :: "('b, 'd) env \<Rightarrow> 'b master_codecs \<Rightarrow> int \<Rightarrow> ('m, 'b) codec \<Rightarrow> ('m \<Rightarrow> (('b, 'd) shared, 'm) act) \<Rightarrow> bool" where
  "runs F C sid c serv \<longleftrightarrow> (\<forall>q t. hq_service q = sid \<longrightarrow> hq_secret q = shared_secret t \<longrightarrow> is_ready t \<longrightarrow> is_master t \<longrightarrow>
     master_action F C (request_of q) t = bindA (CURRTIME_MS F) (\<lambda>_. bindA (handle_hrpc c serv (request_of q)) (\<lambda>out.
       bindA (CURRTIME_MS F) (\<lambda>_. ret out))) t)"

lemma master_checks:
  assumes "hq_secret q = shared_secret t" and "is_ready t" and "is_master t" and "stoi10 (to_dec (nat (hq_service q))) = Inr (hq_service q)"
  shows "master_action F C (request_of q) t = bindA (CURRTIME_MS F) (\<lambda>_. bindA (
     if hq_service q = M_MANAGE_TAGS then handle_hrpc (c_tagresp C) (TagData_ManageDataAction F) (request_of q)
     else if hq_service q = M_MANAGE_CATEGORY then handle_hrpc (c_catresp C) (Category_ManageDataAction F) (request_of q)
     else if hq_service q = M_MANAGE_EXTER then handle_hrpc (c_userresp C) (Exter_ManageDataAction F) (request_of q)
     else if hq_service q = M_MANAGE_USER then handle_hrpc (c_userresp C) (User_ManageDataAction F) (request_of q)
     else if hq_service q = M_RESETPASS_EXTER then handle_hrpc (c_resetresp C) (Exter_ResetPassAction F) (request_of q)
     else if hq_service q = M_RESETPASS_USER then handle_hrpc (c_resetresp C) (User_ResetPassAction F) (request_of q)
     else if hq_service q = M_MANAGE_LOCALDATA then handle_hrpc (c_itemresp C) (Item_ManageDataAction F (LocalDataService F)) (request_of q)
     else if hq_service q = M_MANAGE_WIKIDATA then handle_hrpc (c_itemresp C) (Item_ManageDataAction F (WikiDataService F)) (request_of q)
     else bindA (CURRTIME_MS F) (\<lambda>_. raise (BadDataException ''Service Name unknown or unimplemented'' 0))) (\<lambda>out.
     bindA (CURRTIME_MS F) (\<lambda>_. ret out))) t"
  using assms
  by (simp add: master_action_def run_simps ProtoRequest_def request_of_def SharedSecretOK_def ServiceName_def starts_with_def)

lemma runs_commands:
  "runs F C M_MANAGE_TAGS (c_tagresp C) (TagData_ManageDataAction F)"
  "runs F C M_MANAGE_CATEGORY (c_catresp C) (Category_ManageDataAction F)"
  "runs F C M_MANAGE_EXTER (c_userresp C) (Exter_ManageDataAction F)"
  "runs F C M_MANAGE_USER (c_userresp C) (User_ManageDataAction F)"
  "runs F C M_RESETPASS_EXTER (c_resetresp C) (Exter_ResetPassAction F)"
  "runs F C M_RESETPASS_USER (c_resetresp C) (User_ResetPassAction F)"
  "runs F C M_MANAGE_LOCALDATA (c_itemresp C) (Item_ManageDataAction F (LocalDataService F))"
  "runs F C M_MANAGE_WIKIDATA (c_itemresp C) (Item_ManageDataAction F (WikiDataService F))"
  unfolding runs_def
  by (intro allI impI, rule trans [OF master_checks], assumption+, simp only: stoi10_commands, simp add: master_cmd_defs)+

text \<open>An error of the service, as the answer of the endpoint carries it.\<close>

fun error_text :: "exn \<Rightarrow> string" where
  "error_text (LocalException msg c) = msg"
| "error_text e = ''Unknown Error''"

lemma MasterEndpoint_runs:
  assumes "runs F C sid c serv" and "hq_service q = sid" "hq_secret q = shared_secret t" "is_ready t" "is_master t"
    and "\<And>x. par c (ser c x) = (True, x)" and "hq_body q = ser c m" and "serv m (t\<lparr>ticks := ticks t + 1\<rparr>) = (r, t')"
  shows "fst (MasterEndpoint F C (request_of q) t) = (case r of Inr y \<Rightarrow> ServiceOK (ser c y) | Inl e \<Rightarrow> ServiceErr M_UNKNOWN (error_text e))"
    and "\<exists>n. snd (MasterEndpoint F C (request_of q) t) = t'\<lparr>ticks := n\<rparr>"
proof -
  have a: "master_action F C (request_of q) t = bindA (CURRTIME_MS F) (\<lambda>_. bindA (handle_hrpc c serv (request_of q)) (\<lambda>out.
      bindA (CURRTIME_MS F) (\<lambda>_. ret out))) t"
    using assms(1-5) unfolding runs_def by blast
  have p: "parse_body c (request_of q) = Inr m" using assms(6,7) by (simp add: parse_body_def request_of_def)
  have "\<exists>n. MasterEndpoint F C (request_of q) t = (case r of Inr y \<Rightarrow> ServiceOK (ser c y) | Inl e \<Rightarrow> ServiceErr M_UNKNOWN (error_text e), t'\<lparr>ticks := n\<rparr>)"
  proof (cases r)
    case (Inr y)
    then show ?thesis
      using assms(8) by (intro exI [of _ "ticks t' + 1"]) (simp add: MasterEndpoint_def a handle_hrpc_def p run_simps bindA_def CURRTIME_MS_def)
  next
    case (Inl e)
    then show ?thesis
      using assms(8) by (intro exI [of _ "ticks t'"], cases e) (simp_all add: MasterEndpoint_def a handle_hrpc_def p run_simps bindA_def CURRTIME_MS_def)
  qed
  then show "fst (MasterEndpoint F C (request_of q) t) = (case r of Inr y \<Rightarrow> ServiceOK (ser c y) | Inl e \<Rightarrow> ServiceErr M_UNKNOWN (error_text e))"
    "\<exists>n. snd (MasterEndpoint F C (request_of q) t) = t'\<lparr>ticks := n\<rparr>" by auto
qed

section \<open>What the slave makes of the answer\<close>

text \<open>The slave's messages are answered by the endpoint of the master in the state \<open>t\<close>; both share the secret.\<close>

definition linked :: "('b, 'd) env \<Rightarrow> ('b, 'd) env \<Rightarrow> 'b master_codecs \<Rightarrow> 'b \<Rightarrow> ('b, 'd) shared \<Rightarrow> ('b, 'd) shared \<Rightarrow> bool" where
  "linked E F C e s t \<longleftrightarrow> \<not> is_master s \<and> is_ready s \<and> is_master t \<and> is_ready t \<and> shared_secret s = shared_secret t \<and>
     good_address (sh_master s) \<and> (\<forall>n q. http_post E n q = Some (http_of e (fst (MasterEndpoint F C (request_of q) t))))"

definition slave_result :: "'m res \<Rightarrow> 'm res" where
  "slave_result r = (case r of Inr y \<Rightarrow> Inr y | Inl e \<Rightarrow> Inl (LocalException (error_text e) M_UNKNOWN))"

lemma to_master_run:
  assumes "runs F C sid c serv" and "sid \<noteq> M_NOACTION" and c: "\<And>x. par c (ser c x) = (True, x)" and l: "linked E F C e s t"
    and "serv m (t\<lparr>ticks := ticks t + 1\<rparr>) = (r, t')"
  shows "\<exists>q s' n. to_master E c sid m s = (slave_result r, s') \<and> outbox s' = outbox s @ [q] \<and>
    snd (MasterEndpoint F C (request_of q) t) = t'\<lparr>ticks := n\<rparr> \<and>
    fst (MasterEndpoint F C (request_of q) t) = (case r of Inr y \<Rightarrow> ServiceOK (ser c y) | Inl e \<Rightarrow> ServiceErr M_UNKNOWN (error_text e))"
proof -
  obtain h p port where hp: "host_port (sh_master s) = Inr (h, p)" "stoi10 p = Inr port"
    using l by (auto simp: linked_def good_address_def)
  define q where "q = \<lparr>hq_host = h, hq_port = port, hq_endpoint = ''/_zpds/master/v1/endpoint'', hq_service = sid,
                hq_secret = shared_secret s, hq_body = ser c m\<rparr>"
  define s' where "s' = s\<lparr>sends := sends s + 1, outbox := outbox s @ [q]\<rparr>"
  have q: "hq_service q = sid" "hq_secret q = shared_secret t" "hq_body q = ser c m" using l by (simp_all add: q_def linked_def)
  have t: "is_ready t" "is_master t" using l by (simp_all add: linked_def)
  note M = MasterEndpoint_runs [where q = q and t = t, OF assms(1) q(1,2) t c q(3) assms(5)]
  have post: "http_post E (sends s) q = Some (http_of e (fst (MasterEndpoint F C (request_of q) t)))" using l by (simp add: linked_def)
  have "to_master E c sid m s = (slave_result r, s')"
    using hp post M(1) assms(2) c
    by (cases r) (simp_all add: to_master_def SendToMaster_def SendFunction_def q_def [symmetric] s'_def Let_def handle_response_def
        http_of_def slave_result_def M_UNKNOWN_def ZPDS_M_ERROR_MIN_def ZPDS_M_ERROR_MAX_def)
  with M show ?thesis by (auto simp: s'_def)
qed

text \<open>\<open>transparent\<close>: a handler at the slave either answers like the same handler at the master, which changes nothing, without asking
  it; or it sends one message. Then the master ends in the state in which its own handler would have left it, and
  the client gets the same answer when the service succeeded, and the error the master sent when it did not.\<close>

definition transparent :: "('b, 'd) env \<Rightarrow> 'b master_codecs \<Rightarrow> http_request \<Rightarrow> (http_request \<Rightarrow> ('b, 'd) shared \<Rightarrow> string \<times> ('b, 'd) shared) \<Rightarrow>
    (http_request \<Rightarrow> ('b, 'd) shared \<Rightarrow> string \<times> ('b, 'd) shared) \<Rightarrow> ('b, 'd) shared \<Rightarrow> ('b, 'd) shared \<Rightarrow> bool" where
  "transparent F C rq hs ht s t \<longleftrightarrow> db (snd (hs rq s)) = db s \<and>
     (outbox (snd (hs rq s)) = outbox s \<and> fst (hs rq s) = fst (ht rq t) \<and> db (snd (ht rq t)) = db t \<or>
      (\<exists>q n. outbox (snd (hs rq s)) = outbox s @ [q] \<and> (snd (MasterEndpoint F C (request_of q) t))\<lparr>ticks := n\<rparr> = snd (ht rq t) \<and>
        (case fst (MasterEndpoint F C (request_of q) t) of
           ServiceOK b \<Rightarrow> fst (hs rq s) = fst (ht rq t)
         | ServiceErr c msg \<Rightarrow> fst (hs rq s) = json_answer rq (err2json c (c_str msg)) \<and>
             (\<exists>e. fst (ht rq t) = json_answer rq (err2json (ecode e) (what e))))))"

lemma linked_tick: "linked E F C e s t \<Longrightarrow> linked E F C e (s\<lparr>ticks := k\<rparr>) t"
  by (simp add: linked_def)

lemma at_master_run: "is_master s \<Longrightarrow> at_master E c sid serv m s = serv m s" "\<not> is_master s \<Longrightarrow> at_master E c sid serv m s = to_master E c sid m s"
  by (simp_all add: at_master_def)

lemma same_store_to_master: "same_store s (snd (to_master E c sid m s))"
  using SendFunction_same_store [of s E c "sh_master s" "''/_zpds/master/v1/endpoint''" sid m True]
  by (auto simp: to_master_def SendToMaster_def split: prod.splits sum.splits)

text \<open>The handlers that write have this shape: what is sent is read, then the service runs, then its status is printed.\<close>

definition forwarding :: "('b, 'd) env \<Rightarrow> ('m \<times> 'h) res \<Rightarrow> ('m \<Rightarrow> (('b, 'd) shared, 'm) act) \<Rightarrow> ('h \<Rightarrow> 'm \<Rightarrow> string res) \<Rightarrow> http_request \<Rightarrow> ('b, 'd) shared \<Rightarrow> string \<times> ('b, 'd) shared" where
  "forwarding E inp serv out rq = answer E rq (
     bindA (liftR (\<lambda>_. inp)) (\<lambda>(getp, hide). bindA web_ready (\<lambda>_. bindA (serv getp) (\<lambda>resp. liftR (\<lambda>_. out hide resp)))))"

lemma forwarding_transparent:
  assumes "runs F C sid c serv" and "sid \<noteq> M_NOACTION" and "\<And>x. par c (ser c x) = (True, x)" and l: "linked E F C e s t"
  shows "transparent F C rq (\<lambda>rq. forwarding E (inp rq) (at_master E c sid servE) out rq) (\<lambda>rq. forwarding F (inp rq) (at_master F c sid serv) out rq) s t"
proof (cases "inp rq")
  case (Inl x)
  then show ?thesis by (simp add: transparent_def forwarding_def answer_def run_simps CURRTIME_MS_def)
next
  case (Inr mh)
  obtain m hide where mh: "mh = (m, hide)" by force
  note Inr = Inr [unfolded mh]
  let ?s = "s\<lparr>ticks := ticks s + 1\<rparr>" and ?t = "t\<lparr>ticks := ticks t + 1\<rparr>"
  have f: "\<not> is_master s" "is_ready s" "is_master t" "is_ready t" using l by (simp_all add: linked_def)
  obtain r t' where r: "serv m ?t = (r, t')" by force
  obtain q s' n where q: "to_master E c sid m ?s = (slave_result r, s')" "outbox s' = outbox s @ [q]"
    "snd (MasterEndpoint F C (request_of q) t) = t'\<lparr>ticks := n\<rparr>"
    "fst (MasterEndpoint F C (request_of q) t) = (case r of Inr y \<Rightarrow> ServiceOK (ser c y) | Inl e \<Rightarrow> ServiceErr M_UNKNOWN (error_text e))"
    using to_master_run [OF assms(1-3) linked_tick [OF l, of "ticks s + 1"] r] by auto
  have d: "db s' = db s" using same_storeD(1) [OF same_store_to_master [of ?s E c sid m]] q(1) by simp
  have hs: "bindA (liftR (\<lambda>_. inp rq)) (\<lambda>(getp, hide). bindA web_ready (\<lambda>_. bindA (at_master E c sid servE getp) (\<lambda>resp. liftR (\<lambda>_. out hide resp)))) ?s =
      (case slave_result r of Inl x \<Rightarrow> (Inl x, s') | Inr y \<Rightarrow> (out hide y, s'))"
    using f q(1) by (simp add: Inr run_simps web_ready_def bindA_assoc at_master_run bindA_def split: sum.split)
  have ht: "bindA (liftR (\<lambda>_. inp rq)) (\<lambda>(getp, hide). bindA web_ready (\<lambda>_. bindA (at_master F c sid serv getp) (\<lambda>resp. liftR (\<lambda>_. out hide resp)))) ?t =
      (case r of Inl x \<Rightarrow> (Inl x, t') | Inr y \<Rightarrow> (out hide y, t'))"
    using f r by (simp add: Inr run_simps web_ready_def bindA_assoc at_master_run bindA_def split: sum.split)
  show ?thesis
    unfolding transparent_def forwarding_def answer_def using hs ht q(2-4) d
    by (cases r) (auto simp: CURRTIME_MS_def slave_result_def M_UNKNOWN_def split: sum.split intro!: exI [of _ q] exI [of _ "ticks t' + 1"])
qed

section \<open>The handlers\<close>

text \<open>The codecs of the messages that are forwarded.\<close>

definition codecs_fit :: "'b master_codecs \<Rightarrow> bool" where
  "codecs_fit C \<longleftrightarrow> (\<forall>x. par (c_tagresp C) (ser (c_tagresp C) x) = (True, x)) \<and> (\<forall>x. par (c_catresp C) (ser (c_catresp C) x) = (True, x)) \<and>
     (\<forall>x. par (c_userresp C) (ser (c_userresp C) x) = (True, x)) \<and> (\<forall>x. par (c_resetresp C) (ser (c_resetresp C) x) = (True, x)) \<and>
     (\<forall>x. par (c_itemresp C) (ser (c_itemresp C) x) = (True, x))"

lemma web_write_forwarding:
  "web_write E W J n path serv rq = forwarding E (bindR (read_data J n rq) path) serv (\<lambda>hide resp. status_out W hide (dr_status resp)) rq"
  by (simp add: web_write_def forwarding_def)

lemma item_at_master_kinds:
  "item_at_master E C ''localdata'' = at_master E (c_itemresp C) M_MANAGE_LOCALDATA (Item_ManageDataAction E (LocalDataService E))"
  "item_at_master E C ''wikidata'' = at_master E (c_itemresp C) M_MANAGE_WIKIDATA (Item_ManageDataAction E (WikiDataService E))"
  by (simp_all add: item_at_master_def at_master_def fun_eq_iff)

lemma bindA_paired: "bindA (liftR (\<lambda>_. bindR r (\<lambda>m. Inr (m, ())))) (\<lambda>(m, h). k m) = bindA (liftR (\<lambda>_. r)) k"
  by (cases r) (simp_all add: fun_eq_iff bindA_liftR)

lemma ResetPass_forwarding:
  "ResetPass_web E W C ''_admin'' rq = forwarding E (bindR (read_form (j_reset W) ResetRespT_descriptor ResetRespT_new rq) (\<lambda>m. Inr (m, ())))
     (at_master E (c_resetresp C) M_RESETPASS_EXTER (Exter_ResetPassAction E)) (\<lambda>_ resp. status_out W False (rr_status resp)) rq"
  "ResetPass_web E W C ''_user'' rq = forwarding E (bindR (read_form (j_reset W) ResetRespT_descriptor ResetRespT_new rq) (\<lambda>m. Inr (m, ())))
     (at_master E (c_resetresp C) M_RESETPASS_USER (User_ResetPassAction E)) (\<lambda>_ resp. status_out W False (rr_status resp)) rq"
  unfolding ResetPass_web_def forwarding_def bindA_paired by simp_all

text \<open>C5: A host that is not the master is as good as the master for a client who changes categories, tags, users, exters or items or resets a
  password: what the master's own handler would refuse without touching data is refused alike; anything else is
  sent to the master, which does exactly what it would have done for the client, and the client gets the same
  answer. When the master's service fails the client gets an error too, with the code 101 and a text that may be lost.\<close>

theorem slave_transparent:
  assumes "linked E F C e s t" and "codecs_fit C"
  shows "transparent F C rq (Category_web_write E W C act) (Category_web_write F W C act) s t \<and>
    transparent F C rq (TagData_web_write E W C act) (TagData_web_write F W C act) s t \<and>
    transparent F C rq (User_web_write E W C who act) (User_web_write F W C who act) s t \<and>
    transparent F C rq (Exter_web_write E W C act) (Exter_web_write F W C act) s t \<and>
    transparent F C rq (Item_web_write E W C ''localdata'' act) (Item_web_write F W C ''localdata'' act) s t \<and>
    transparent F C rq (Item_web_write E W C ''wikidata'' act) (Item_web_write F W C ''wikidata'' act) s t \<and>
    transparent F C rq (ResetPass_web E W C ''_admin'') (ResetPass_web F W C ''_admin'') s t \<and>
    transparent F C rq (ResetPass_web E W C ''_user'') (ResetPass_web F W C ''_user'') s t"
proof -
  have n: "M_MANAGE_TAGS \<noteq> M_NOACTION" "M_MANAGE_CATEGORY \<noteq> M_NOACTION" "M_MANAGE_EXTER \<noteq> M_NOACTION" "M_MANAGE_USER \<noteq> M_NOACTION"
    "M_RESETPASS_EXTER \<noteq> M_NOACTION" "M_RESETPASS_USER \<noteq> M_NOACTION" "M_MANAGE_LOCALDATA \<noteq> M_NOACTION" "M_MANAGE_WIKIDATA \<noteq> M_NOACTION"
    by (simp_all add: master_cmd_defs M_NOACTION_def)
  have c: "par (c_tagresp C) (ser (c_tagresp C) x1) = (True, x1)" "par (c_catresp C) (ser (c_catresp C) x2) = (True, x2)"
    "par (c_userresp C) (ser (c_userresp C) x3) = (True, x3)" "par (c_resetresp C) (ser (c_resetresp C) x4) = (True, x4)"
    "par (c_itemresp C) (ser (c_itemresp C) x5) = (True, x5)" for x1 x2 x3 x4 x5
    using assms(2) by (simp_all add: codecs_fit_def)
  note ft = forwarding_transparent [OF _ _ _ assms(1)] and r = runs_commands
  show ?thesis
    unfolding Category_web_write_def TagData_web_write_def User_web_write_def Exter_web_write_def Item_web_write_def item_at_master_kinds
      web_write_forwarding [abs_def] ResetPass_forwarding [abs_def]
    by (intro conjI ft [OF r(2) n(2) c(2)] ft [OF r(1) n(1) c(1)] ft [OF r(4) n(4) c(3)] ft [OF r(3) n(3) c(3)] ft [OF r(7) n(7) c(5)]
        ft [OF r(8) n(8) c(5)] ft [OF r(5) n(5) c(4)] ft [OF r(6) n(6) c(4)])
qed

end
