(* ===== verification/SecrecyLaws.thy ===== *)
theory SecrecyLaws
  imports ReadLaws
begin

text \<open>
  What a read discloses. \<open>user_seen\<close> and \<open>exter_seen\<close> say what a requester may learn of a record of a user or of an exter;
  two nodes whose records look alike to him answer his reads alike. So passkeys, keys and one-time passwords never
  leave the node, and what is meant for the user himself does not reach others.
\<close>

section \<open>What a requester may see\<close>

definition user_seen :: "UserDataT \<Rightarrow> UserDataT \<Rightarrow> int \<times> UserDataT" where
  "user_seen reader c =
     (let role = user_reader reader c; exter = role \<in> {R_ADMIN, R_CREATR, R_SELF, R_OTHER}; private = role \<in> {R_ADMIN, R_CREATR, R_SELF};
          c1 = (if exter then UserDataT_new\<lparr>user_description := user_description c, user_given_name := user_given_name c,
                  user_subscription := user_subscription c, user_is_invited := user_is_invited c, user_tags := read_tags (user_tags c),
                  user_categories := user_categories c\<rparr> else UserDataT_new)
      in (role, if private then c1\<lparr>user_primary_mobile := user_primary_mobile c, user_primary_email := user_primary_email c\<rparr> else c1))"

definition exter_seen :: "UserDataT \<Rightarrow> UserDataT \<Rightarrow> int \<times> UserDataT" where
  "exter_seen reader c =
     (let role = exter_reader reader c in
      (role, if role \<in> {R_ADMIN, R_SELF}
         then UserDataT_new\<lparr>user_can_add_tags := user_can_add_tags c, user_can_add_category := user_can_add_category c,
           user_can_add_users := user_can_add_users c, user_can_add_items := user_can_add_items c, user_description := user_description c,
           user_given_name := user_given_name c, user_primary_mobile := user_primary_mobile c, user_primary_email := user_primary_email c,
           user_profiles := user_profiles c, user_tags := read_tags (user_tags c)\<rparr>
         else UserDataT_new))"

lemma read_tags_idem: "read_tags (read_tags ts) = read_tags ts"
  by (simp add: read_tags_def TagDataT_new_def)

text \<open>The permissions of each role.\<close>

lemmas role_defs = R_NONE_def R_SELF_def R_ADMIN_def R_CREATR_def R_OTHER_def R_USER_def R_PUBLIC_def

lemma roles_distinct [simp]:
  "R_SELF \<noteq> R_ADMIN" "R_CREATR \<noteq> R_ADMIN" "R_OTHER \<noteq> R_ADMIN" "R_USER \<noteq> R_ADMIN" "R_PUBLIC \<noteq> R_ADMIN"
  "R_OTHER \<noteq> R_SELF" "R_USER \<noteq> R_SELF" "R_PUBLIC \<noteq> R_SELF" "R_CREATR \<noteq> R_SELF"
  "R_OTHER \<noteq> R_CREATR" "R_USER \<noteq> R_CREATR" "R_PUBLIC \<noteq> R_CREATR" "R_USER \<noteq> R_OTHER" "R_PUBLIC \<noteq> R_OTHER"
  by (simp_all add: role_defs)

lemma user_read_perms:
  assumes "role \<in> {R_ADMIN, R_CREATR, R_SELF, R_OTHER, R_USER, R_PUBLIC}"
  shows "has (ReaderTypeFilter role) ZPDS_READUD_INFO = (role \<in> {R_ADMIN, R_CREATR, R_SELF, R_OTHER})"
    "has (ReaderTypeFilter role) ZPDS_READUD_GNAME = (role \<in> {R_ADMIN, R_CREATR, R_SELF, R_OTHER})"
    "has (ReaderTypeFilter role) ZPDS_READUD_SUBSCR = (role \<in> {R_ADMIN, R_CREATR, R_SELF, R_OTHER})"
    "has (ReaderTypeFilter role) ZPDS_READUD_INVITED = (role \<in> {R_ADMIN, R_CREATR, R_SELF, R_OTHER})"
    "has (ReaderTypeFilter role) ZPDS_READUD_TAGS = (role \<in> {R_ADMIN, R_CREATR, R_SELF, R_OTHER})"
    "has (ReaderTypeFilter role) ZPDS_READUD_CATEGORIES = (role \<in> {R_ADMIN, R_CREATR, R_SELF, R_OTHER})"
    "has (ReaderTypeFilter role) ZPDS_READUD_MOBILE = (role \<in> {R_ADMIN, R_CREATR, R_SELF})"
    "has (ReaderTypeFilter role) ZPDS_READUD_EMAIL = (role \<in> {R_ADMIN, R_CREATR, R_SELF})"
    "\<not> has (ReaderTypeFilter role) ZPDS_READUD_PROFILES"
  using assms unfolding has_def ReaderTypeFilter_def role_defs service_defs by auto

lemma exter_read_perms:
  assumes "role \<in> {R_ADMIN, R_CREATR, R_SELF, R_OTHER}"
  shows "has (ReaderTypeFilter role) ZPDS_READED_ROLE = (role \<in> {R_ADMIN, R_SELF})"
    "has (ReaderTypeFilter role) ZPDS_READED_INFO = (role \<in> {R_ADMIN, R_SELF})"
    "has (ReaderTypeFilter role) ZPDS_READED_GNAME = (role \<in> {R_ADMIN, R_SELF})"
    "has (ReaderTypeFilter role) ZPDS_READED_MOBILE = (role \<in> {R_ADMIN, R_SELF})"
    "has (ReaderTypeFilter role) ZPDS_READED_EMAIL = (role \<in> {R_ADMIN, R_SELF})"
    "has (ReaderTypeFilter role) ZPDS_READED_PROFILES = (role \<in> {R_ADMIN, R_SELF})"
    "has (ReaderTypeFilter role) ZPDS_READED_TAGS = (role \<in> {R_ADMIN, R_SELF})"
  using assms unfolding has_def ReaderTypeFilter_def role_defs service_defs by auto

lemma reader_roles:
  "user_reader r c \<in> {R_ADMIN, R_CREATR, R_SELF, R_OTHER, R_USER, R_PUBLIC}" "exter_reader r c \<in> {R_ADMIN, R_CREATR, R_SELF, R_OTHER}"
  by (simp_all add: user_reader_def exter_reader_def)

text \<open>A field at a time: what a record has after a read.\<close>

lemma update_if:
  "(if b then r\<lparr>user_description := x1\<rparr> else r) = r\<lparr>user_description := if b then x1 else user_description r\<rparr>"
  "(if b then r\<lparr>user_given_name := x1\<rparr> else r) = r\<lparr>user_given_name := if b then x1 else user_given_name r\<rparr>"
  "(if b then r\<lparr>user_subscription := x3\<rparr> else r) = r\<lparr>user_subscription := if b then x3 else user_subscription r\<rparr>"
  "(if b then r\<lparr>user_primary_mobile := x1\<rparr> else r) = r\<lparr>user_primary_mobile := if b then x1 else user_primary_mobile r\<rparr>"
  "(if b then r\<lparr>user_primary_email := x1\<rparr> else r) = r\<lparr>user_primary_email := if b then x1 else user_primary_email r\<rparr>"
  "(if b then r\<lparr>user_profiles := x4\<rparr> else r) = r\<lparr>user_profiles := if b then x4 else user_profiles r\<rparr>"
  "(if b then r\<lparr>user_is_invited := x5\<rparr> else r) = r\<lparr>user_is_invited := if b then x5 else user_is_invited r\<rparr>"
  "(if b then r\<lparr>user_tags := x6\<rparr> else r) = r\<lparr>user_tags := if b then x6 else user_tags r\<rparr>"
  "(if b then r\<lparr>user_categories := x7\<rparr> else r) = r\<lparr>user_categories := if b then x7 else user_categories r\<rparr>"
  "(if b then r\<lparr>user_can_add_tags := x5, user_can_add_category := x8, user_can_add_users := x9, user_can_add_items := x10\<rparr> else r) =
    r\<lparr>user_can_add_tags := if b then x5 else user_can_add_tags r, user_can_add_category := if b then x8 else user_can_add_category r,
      user_can_add_users := if b then x9 else user_can_add_users r, user_can_add_items := if b then x10 else user_can_add_items r\<rparr>"
  by simp_all

lemma user_copy_seen: "user_copy flds (ReaderTypeFilter (user_reader r c)) c d = user_copy flds (ReaderTypeFilter (fst (user_seen r c))) (snd (user_seen r c)) d"
proof -
  note p = user_read_perms [OF reader_roles(1) [of r c]]
  show ?thesis
    unfolding user_copy_def may_def user_seen_def Let_def update_if
    by (simp add: p read_tags_idem cong: if_cong)
qed

lemma exter_copy_seen: "exter_copy flds (ReaderTypeFilter (exter_reader r c)) c d = exter_copy flds (ReaderTypeFilter (fst (exter_seen r c))) (snd (exter_seen r c)) d"
proof -
  note p = exter_read_perms [OF reader_roles(2) [of r c]]
  show ?thesis
    unfolding exter_copy_def may_def exter_seen_def Let_def update_if
    by (simp add: p read_tags_idem cong: if_cong)
qed

section \<open>What a read tells\<close>

text \<open>\<open>alike\<close>: on two nodes the same names are taken, and of the records that have them the requester may see the same.\<close>

definition alike :: "(UserDataT, 'b) table \<Rightarrow> (UserDataT \<Rightarrow> 'v) \<Rightarrow> 'b lookup \<Rightarrow> 'b lookup \<Rightarrow> bool" where
  "alike T seen g h \<longleftrightarrow> (\<forall>n v. (\<exists>u. has_user T g n u \<and> seen u = v) \<longleftrightarrow> (\<exists>u. has_user T h n u \<and> seen u = v))"

text \<open>\<open>same_view\<close>: the check of the session refuses on both nodes alike, or it admits on both a requester of the same name, type
  and administrator's right, for whom they are alike.\<close>

definition same_view :: "('b, 'd) env \<Rightarrow> (UserDataT, 'b) table \<Rightarrow> (UserDataT \<Rightarrow> UserDataT \<Rightarrow> 'v) \<Rightarrow> (('b, 'd) shared, UserDataT) act \<Rightarrow>
    ('b, 'd) shared \<Rightarrow> ('b, 'd) shared \<Rightarrow> bool" where
  "same_view E T seen check s t \<longleftrightarrow>
     (case (fst (check s), fst (check t)) of
        (Inl e, Inl f) \<Rightarrow> e = f
      | (Inr u, Inr w) \<Rightarrow> user_name u = user_name w \<and> user_keytype u = user_keytype w \<and> user_is_admin u = user_is_admin w \<and>
          alike T (seen u) (kv_get E (db s)) (kv_get E (db t))
      | _ \<Rightarrow> False)"

lemma reader_cong:
  assumes "user_name u = user_name w" and "user_keytype u = user_keytype w" and "user_is_admin u = user_is_admin w"
  shows "user_reader u = user_reader w" and "exter_reader u = exter_reader w"
  using assms by (simp_all add: fun_eq_iff user_reader_def exter_reader_def)

lemma ReadData_cong:
  assumes "user_reader u = user_reader w" and "exter_reader u = exter_reader w"
  shows "User_ReadData E g u flds d = User_ReadData E g w flds d" and "Exter_ReadData E g u flds d = Exter_ReadData E g w flds d"
  unfolding User_ReadData_def Exter_ReadData_def assms by (rule refl)+

lemma lookup_alike:
  assumes "alike T seen g h" and "\<And>u w. has_user T h n u \<Longrightarrow> has_user T h n w \<Longrightarrow> u = w"
    and "(\<exists>u. has_user T g n u \<and> P u \<and> G = Inr (True, u)) \<or> (G = Inr (False, d) \<and> (\<forall>u. \<not> has_user T g n u))"
    and "(\<exists>u. has_user T h n u \<and> P u \<and> H = Inr (True, u)) \<or> (H = Inr (False, d) \<and> (\<forall>u. \<not> has_user T h n u))"
  shows "(\<exists>u w. G = Inr (True, u) \<and> H = Inr (True, w) \<and> seen u = seen w) \<or> (G = Inr (False, d) \<and> H = Inr (False, d))"
  using assms(3)
proof (elim disjE exE conjE)
  fix u assume "has_user T g n u" "G = Inr (True, u)"
  moreover from this assms(1) obtain w where "has_user T h n w" "seen u = seen w" unfolding alike_def by metis
  ultimately show ?thesis using assms(2,4) by auto
next
  assume g: "G = Inr (False, d)" "\<forall>u. \<not> has_user T g n u"
  with assms(1) have "\<forall>u. \<not> has_user T h n u" unfolding alike_def by blast
  with g assms(4) show ?thesis by auto
qed

lemma User_ReadData_alike:
  assumes "wf_table E (UserDataTable E) g" and "wf_table E (UserDataTable E) h" and "alike (UserDataTable E) (user_seen reader) g h"
  shows "User_ReadData E g reader flds d = User_ReadData E h reader flds d"
proof -
  let ?d = "UserDataT_new\<lparr>user_name := user_name d\<rparr>"
  have "u = w" if "has_user (UserDataTable E) h (user_name ?d) u" "has_user (UserDataTable E) h (user_name ?d) w" for u w
    using that by (rule has_user_unique(2) [OF assms(2)])
  from lookup_alike [OF assms(3) this user_lookup [OF assms(1), of ?d] user_lookup [OF assms(2), of ?d]] show ?thesis
    using user_copy_seen [of flds reader _ d] by (auto simp: User_ReadData_def)
qed

lemma Exter_ReadData_alike:
  assumes "wf_table E (ExterDataTable E) g" and "wf_table E (ExterDataTable E) h" and "alike (ExterDataTable E) (exter_seen reader) g h"
  shows "Exter_ReadData E g reader flds d = Exter_ReadData E h reader flds d"
proof -
  let ?d = "UserDataT_new\<lparr>user_name := user_name d\<rparr>"
  have "u = w" if "has_user (ExterDataTable E) h (user_name ?d) u" "has_user (ExterDataTable E) h (user_name ?d) w" for u w
    using that by (rule has_user_unique(1) [OF assms(2)])
  from lookup_alike [OF assms(3) this exter_lookup [OF assms(1), of ?d] exter_lookup [OF assms(2), of ?d]] show ?thesis
    using exter_copy_seen [of flds reader _ d] by (auto simp: Exter_ReadData_def)
qed

section \<open>Two runs side by side\<close>

text \<open>\<open>agree d d' m m'\<close>: from states with the databases \<open>d\<close> and \<open>d'\<close> the two actions have the same result and leave the databases alone.\<close>

definition agree :: "'d \<Rightarrow> 'd \<Rightarrow> (('b, 'd) shared, 'y) act \<Rightarrow> (('b, 'd) shared, 'y) act \<Rightarrow> bool" where
  "agree d d' m m' \<longleftrightarrow> (\<forall>s t. db s = d \<longrightarrow> db t = d' \<longrightarrow> fst (m s) = fst (m' t) \<and> db (snd (m s)) = d \<and> db (snd (m' t)) = d')"

named_theorems agree_intros \<open>rules for \<open>agree\<close>\<close>

lemma agree_ret [agree_intros]: "agree d d' (ret y) (ret y)"
  by (simp add: agree_def ret_def)

lemma agree_bindA [agree_intros]:
  fixes d d' :: 'd and m m' :: "(('b, 'd) shared, 'x) act"
  assumes "agree d d' m m'" and "\<And>x. agree d d' (f x) (f' x)"
  shows "agree d d' (bindA m f) (bindA m' f')"
  unfolding agree_def
proof (intro allI impI)
  fix s t :: "('b, 'd) shared" assume "db s = d" "db t = d'"
  with assms(1) have m: "fst (m s) = fst (m' t)" "db (snd (m s)) = d" "db (snd (m' t)) = d'" unfolding agree_def by blast+
  obtain r s1 r' t1 where "m s = (r, s1)" "m' t = (r', t1)" by force
  with m assms(2) show "fst (bindA m f s) = fst (bindA m' f' t) \<and> db (snd (bindA m f s)) = d \<and> db (snd (bindA m' f' t)) = d'"
    by (cases r) (auto simp: bindA_def agree_def)
qed

lemma agree_foldA [agree_intros]: "(\<And>x y. agree d d' (f x y) (f' x y)) \<Longrightarrow> agree d d' (foldA f xs y) (foldA f' xs y)"
  by (induction xs arbitrary: y) (simp_all add: agree_ret agree_bindA)

lemma agree_mapA [agree_intros]: "(\<And>x. agree d d' (f x) (f' x)) \<Longrightarrow> agree d d' (mapA f xs) (mapA f' xs)"
  unfolding mapA_def by (intro agree_foldA agree_bindA agree_ret)

lemma agree_if [agree_intros]: "(b \<Longrightarrow> agree d d' m m') \<Longrightarrow> (\<not> b \<Longrightarrow> agree d d' k k') \<Longrightarrow> agree d d' (if b then m else k) (if b then m' else k')"
  by simp

lemma agree_prod [agree_intros]: "(\<And>a b. agree d d' (f a b) (f' a b)) \<Longrightarrow> agree d d' (case p of (a, b) \<Rightarrow> f a b) (case p of (a, b) \<Rightarrow> f' a b)"
  by (cases p) simp

lemma agree_lookup: "F (kv_get E d) = G (kv_get E d') \<Longrightarrow> agree d d' (liftR (\<lambda>s. F (kv_get E (db s)))) (liftR (\<lambda>s. G (kv_get E (db s))))"
  by (auto simp: agree_def liftR_def split: sum.split)

text \<open>After a check that leaves the node as it is.\<close>

lemma agree_after:
  assumes "keeps (steady E s) check" and "keeps (steady E t) check" and "steady E s s" and "steady E t t" and "same_view E T seen check s t"
    and "\<And>u w. user_reader u = user_reader w \<Longrightarrow> exter_reader u = exter_reader w \<Longrightarrow> alike T (seen u) (kv_get E (db s)) (kv_get E (db t)) \<Longrightarrow>
      agree (db s) (db t) (f u) (f w)"
  shows "fst (bindA check f s) = fst (bindA check f t)"
proof -
  obtain r s1 r' t1 where c: "check s = (r, s1)" "check t = (r', t1)" by force
  with steadyD(4) [OF keepsD [OF assms(1,3)]] steadyD(4) [OF keepsD [OF assms(2,4)]] have d: "db s1 = db s" "db t1 = db t" by simp_all
  from assms(5) c consider e where "r = Inl e" "r' = Inl e" | u w where "r = Inr u" "r' = Inr w" "user_name u = user_name w"
      "user_keytype u = user_keytype w" "user_is_admin u = user_is_admin w" "alike T (seen u) (kv_get E (db s)) (kv_get E (db t))"
    by (auto simp: same_view_def split: sum.splits)
  then show ?thesis
  proof cases
    case 2
    with assms(6) [OF reader_cong] have "agree (db s) (db t) (f u) (f w)" by blast
    with d have "fst (f u s1) = fst (f w t1)" unfolding agree_def by blast
    with c 2 show ?thesis by (simp add: bindA_def)
  qed (use c in \<open>simp add: bindA_def\<close>)
qed

section \<open>Secrets stay\<close>

lemma User_read_alike:
  assumes "env_ok E" and "sys_inv E g0 s" and "sys_inv E g1 t"
    and "same_view E (UserDataTable E) user_seen (session_of E (dr_username resp) (dr_sessionkey resp) (dr_keytype resp) False
      (BadDataException ''Invalid reader or Invalid session'' M_INVALID_PARAM)) s t"
  shows "fst (User_ReadDataAction E resp s) = fst (User_ReadDataAction E resp t)"
proof -
  note st = inv_steady [OF assms(1,2)] inv_steady [OF assms(1,3)]
  have w: "wf_table E (UserDataTable E) (kv_get E (db s))" "wf_table E (UserDataTable E) (kv_get E (db t))"
    using st [THEN steadyD(2)] by (simp_all add: tables_wfD)
  show ?thesis
    unfolding User_ReadDataAction_def Let_def
  proof (rule agree_after [OF steady_session_of steady_session_of st assms(4)], goal_cases)
    case (1 u v)
    have "User_ReadData E (kv_get E (db s)) u flds d = User_ReadData E (kv_get E (db t)) v flds d" for flds d
      using User_ReadData_alike [OF w 1(3)] ReadData_cong(1) [OF 1(1,2)] by simp
    then show ?case by (intro agree_intros agree_lookup)
  qed
qed

lemma Exter_read_alike:
  assumes "env_ok E" and "sys_inv E g0 s" and "sys_inv E g1 t"
    and "same_view E (ExterDataTable E) exter_seen (session_of E (dr_username resp) (dr_sessionkey resp) K_EXTERDATA True
      (BadDataException ''Invalid reader or Invalid session'' M_INVALID_PARAM)) s t"
  shows "fst (Exter_ReadDataAction E resp s) = fst (Exter_ReadDataAction E resp t)"
proof -
  note st = inv_steady [OF assms(1,2)] inv_steady [OF assms(1,3)]
  have w: "wf_table E (ExterDataTable E) (kv_get E (db s))" "wf_table E (ExterDataTable E) (kv_get E (db t))"
    using st [THEN steadyD(2)] by (simp_all add: tables_wfD)
  show ?thesis
    unfolding Exter_ReadDataAction_def Let_def
  proof (rule agree_after [OF steady_session_of steady_session_of st assms(4)], goal_cases)
    case (1 u v)
    have "Exter_ReadData E (kv_get E (db s)) u flds d = Exter_ReadData E (kv_get E (db t)) v flds d" for flds d
      using Exter_ReadData_alike [OF w 1(3)] ReadData_cong(2) [OF 1(1,2)] by simp
    then show ?case by (intro agree_intros agree_lookup)
  qed
qed

text \<open>C9: Reads disclose nothing but what the requester may see. Two nodes may differ in every passkey, secret key and one-time
  password, and in all the fields of users and exters that the requester has no right to: if they admit him alike,
  what they answer to a read of users or of exters is the same.\<close>

theorem reads_disclose_only:
  assumes "env_ok E" and "sys_inv E g0 s" and "sys_inv E g1 t"
  shows "(same_view E (UserDataTable E) user_seen (session_of E (dr_username resp) (dr_sessionkey resp) (dr_keytype resp) False
        (BadDataException ''Invalid reader or Invalid session'' M_INVALID_PARAM)) s t \<longrightarrow>
      fst (User_ReadDataAction E resp s) = fst (User_ReadDataAction E resp t)) \<and>
    (same_view E (ExterDataTable E) exter_seen (session_of E (dr_username resp) (dr_sessionkey resp) K_EXTERDATA True
        (BadDataException ''Invalid reader or Invalid session'' M_INVALID_PARAM)) s t \<longrightarrow>
      fst (Exter_ReadDataAction E resp s) = fst (Exter_ReadDataAction E resp t))"
  using User_read_alike [OF assms] Exter_read_alike [OF assms] by blast

end
