(* ===== verification/NodeSamples.thy ===== *)
theory NodeSamples
  imports NetSamples NodeLaws TransparentLaws SecrecyLaws
begin

text \<open>
  A node for the witnesses of the theorems on requests: \<open>toy_node\<close> has just opened an empty store,
  \<open>toy_node1\<close> has the administrator \<open>root1\<close> as well.
\<close>

lemma toy_env_ok [simp]: "env_ok toy_env"
  by (simp add: env_ok_def echoes_def) (simp add: toy_env_def)

definition toy_node :: toy_shared where
  "toy_node = snd (InitCounters toy_env (toy_shared [] 0))"

definition toy_root :: UserDataT where
  "toy_root = UserDataT_new\<lparr>user_name := ''root1'', user_passkey := ''pw''\<rparr>"

definition toy_node1 :: toy_shared where
  "toy_node1 = snd (AdminCreateAction toy_env toy_root False True False toy_node)"

definition toy_request :: "'m \<Rightarrow> 'm list \<Rightarrow> 'm DataRespT" where
  "toy_request p ps = \<lparr>dr_username = ''root1'', dr_sessionkey = ''t'', dr_status = \<lparr>st_success = False, st_inputcount = 0, st_updatecount = 0\<rparr>,
     dr_action = W_CREATE, dr_keytype = 0, dr_fields = 0, dr_payload = p, dr_payloads = ps\<rparr>"

definition toy_reset :: ResetRespT where
  "toy_reset = \<lparr>rr_username = ''root1'', rr_oldpass = ''pw'', rr_newpass = ''pw2'', rr_otp = [],
     rr_status = \<lparr>st_success = False, st_inputcount = 0, st_updatecount = 0\<rparr>\<rparr>"

lemma toy_root_simps [simp]: "user_name toy_root = ''root1''" "user_passkey toy_root = ''pw''"
  by (simp_all add: toy_root_def)

lemma toy_request_payloads [simp]: "dr_payloads (toy_request p ps) = ps"
  by (simp add: toy_request_def)

lemma toy_node_run:
  "\<exists>s'. InitCounters toy_env (toy_shared [] 0) = (Inr (), s') \<and> sys_inv toy_env (zero_records toy_env) s' \<and>
     kv_get toy_env (db s') = zero_records toy_env \<and> logcounter s' = 0 \<and> maincounter s' = 1"
  by (rule InitCounters_empty') (simp, simp add: toy_env_def toy_entries_def, simp, simp add: toy_shared_def)

lemma toy_node_inv: "sys_inv toy_env (zero_records toy_env) toy_node"
  and toy_node_db: "kv_get toy_env (db toy_node) = zero_records toy_env"
  and toy_node_counters [simp]: "logcounter toy_node = 0" "maincounter toy_node = 1"
  using toy_node_run by (auto simp: toy_node_def)

lemma InitCounters_flags: "is_master (snd (InitCounters E s)) = is_master s" "is_ready (snd (InitCounters E s)) = is_ready s"
  "shared_secret (snd (InitCounters E s)) = shared_secret s" "sh_master (snd (InitCounters E s)) = sh_master s"
  by (simp_all add: InitCounters_def split: sum.split)

lemma toy_node_flags [simp]: "is_master toy_node" "is_ready toy_node" "shared_secret toy_node = ''s''" "sh_master toy_node = ''m:1''"
  by (simp_all add: toy_node_def InitCounters_flags) (simp_all add: toy_shared_def)

lemma toy_node_room: "length xs < 10 \<Longrightarrow> room toy_node xs"
  by (simp add: room_def)

lemma toy_node_exters: "abs_table (ExterDataTable toy_env) (kv_get toy_env (db toy_node)) = (\<lambda>_. None)"
  unfolding toy_node_db by (rule exterdata_tbl.abs_table_zero)

definition toy_key1 :: SignKeyT where
  "toy_key1 = \<lparr>sk_pubkey = B64_Encode toy_b64 [], sk_seckey = B64_Encode toy_b64 (replicate 16 (CHR ''x'')), sk_algo = ENCODEKEY_ALGO_AES128CBC\<rparr>"

lemma toy_rand: "rand_str toy_env n AES_LEN = replicate 16 (CHR ''x'')"
  by (simp add: toy_env_def AES_LEN_def)

lemma toy_node1_run:
  "\<exists>r. AdminCreateAction toy_env toy_root False True False toy_node = (Inr (), toy_node1) \<and>
     sys_inv toy_env (zero_records toy_env) toy_node1 \<and>
     abs_table (ExterDataTable toy_env) (kv_get toy_env (db toy_node1)) = [2 \<mapsto> r] \<and> user_name r = ''root1'' \<and> user_passkey r = ''pw'' \<and>
     user_is_admin r \<and> user_signkey r = toy_key1 \<and> logcounter toy_node1 = 1"
proof -
  have "\<exists>s' r. AdminCreateAction toy_env toy_root False True False toy_node = (Inr (), s') \<and> sys_inv toy_env (zero_records toy_env) s' \<and>
    abs_table (ExterDataTable toy_env) (kv_get toy_env (db s')) =
      (abs_table (ExterDataTable toy_env) (kv_get toy_env (db toy_node)))(maincounter toy_node + 1 \<mapsto> r) \<and>
    user_name r = user_name toy_root \<and> user_passkey r = user_passkey toy_root \<and> user_is_admin r = True \<and>
    user_signkey r = \<lparr>sk_pubkey = B64_Encode toy_b64 [], sk_seckey = B64_Encode toy_b64 (rand_str toy_env (draws toy_node) AES_LEN), sk_algo = ENCODEKEY_ALGO_AES128CBC\<rparr> \<and>
    logcounter s' = logcounter toy_node + 1"
    by (rule AdminCreate_run [of toy_env, unfolded toy_env_b64]) (simp_all add: toy_node_inv toy_node_room toy_node_exters)
  then show ?thesis by (auto simp: toy_node1_def toy_node_exters toy_key1_def toy_rand)
qed

section \<open>The web server and two linked hosts\<close>

text \<open>Codecs of the messages to the master that lose nothing, and a JSON library that reads nothing and prints \<open>{}\<close>.\<close>

definition toy_codecs :: "toy master_codecs" where
  "toy_codecs = \<lparr>
     c_tagresp = \<lparr>ser = TTagResp, par = (\<lambda>b. case b of TTagResp x \<Rightarrow> (True, x) | _ \<Rightarrow> (False, toy_request TagDataT_new []))\<rparr>,
     c_catresp = \<lparr>ser = TCatResp, par = (\<lambda>b. case b of TCatResp x \<Rightarrow> (True, x) | _ \<Rightarrow> (False, toy_request CategoryT_new []))\<rparr>,
     c_userresp = \<lparr>ser = TUserResp, par = (\<lambda>b. case b of TUserResp x \<Rightarrow> (True, x) | _ \<Rightarrow> (False, toy_request UserDataT_new []))\<rparr>,
     c_resetresp = \<lparr>ser = TResetResp, par = (\<lambda>b. case b of TResetResp x \<Rightarrow> (True, x) | _ \<Rightarrow> (False, ResetRespT_new))\<rparr>,
     c_itemresp = \<lparr>ser = TItemResp, par = (\<lambda>b. case b of TItemResp x \<Rightarrow> (True, x) | _ \<Rightarrow> (False, toy_request ItemDataT_new []))\<rparr>\<rparr>"

definition toy_json :: "'m \<Rightarrow> 'm json" where
  "toy_json m = \<lparr>js_parse = (\<lambda>txt. (True, m)), js_print = (\<lambda>m. Some ''{}'')\<rparr>"

text \<open>A search engine for the witnesses. A query is the terms a document must have, each after a blank and a plus; the
  documents that have them are sorted by the key. A number has as many digits as it is large.\<close>

definition toy_split :: "char \<Rightarrow> string list \<Rightarrow> string list" where
  "toy_split c ws = (if c = CHR '' '' then [] # ws else (case ws of [] \<Rightarrow> [[c]] | w # ws' \<Rightarrow> (c # w) # ws'))"

definition toy_terms :: "string \<Rightarrow> string list" where
  "toy_terms q = map (drop 1) (drop 1 (foldr toy_split q [[]]))"

definition toy_mset :: "xdb \<Rightarrow> string \<Rightarrow> (xdoc \<Rightarrow> string) \<Rightarrow> bool \<Rightarrow> nat \<Rightarrow> xdoc list" where
  "toy_mset d q key down n = take n ((if down then rev else id)
     (sort_key key (filter (\<lambda>x. set (toy_terms q) \<subseteq> doc_terms x) (map snd d))))"

definition toy_searcher :: searcher where
  "toy_searcher = \<lparr>ix_serialise = (\<lambda>x. replicate (nat \<lfloor>x\<rfloor>) CHR ''i''), ix_coords = (\<lambda>lat lon. ''here''), ix_stem = (\<lambda>w. w),
     sx_unserialise = (\<lambda>t. real (length t)), sx_metric = (\<lambda>lat lon t. 0), sx_mset = toy_mset,
     sx_correct = (\<lambda>lang t. t), sx_double = (\<lambda>t. None), sx_strtod = (\<lambda>t. 0), sx_before = CHR 0x00\<rparr>"

definition toy_web :: web where
  "toy_web = \<lparr>j_tag = toy_json (toy_request TagDataT_new []), j_cat = toy_json (toy_request CategoryT_new [CategoryT_new\<lparr>cat_name := ''food''\<rparr>]),
     j_user = toy_json (toy_request UserDataT_new []), j_item = toy_json (toy_request ItemDataT_new []),
     j_login = toy_json LoginRespT_new, j_reset = toy_json toy_reset, j_status = toy_json StatusT_new,
     j_err = toy_json \<lparr>err_status = [], err_msg = []\<rparr>,
     j_info = toy_json \<lparr>inf_hostname = [], inf_master = [], inf_is_master = False, inf_is_ready = False, inf_ts = 0\<rparr>,
     j_photon = toy_json \<lparr>ph_type = [], ph_features = []\<rparr>, j_wiki = toy_json \<lparr>ir_records = []\<rparr>,
     w_searcher = toy_searcher, w_flushed = (\<lambda>_. 0)\<rparr>"

lemma toy_codecs_fit: "codecs_fit toy_codecs"
  by (simp add: codecs_fit_def toy_codecs_def)

lemma toy_prints [simp]: "prints toy_web"
  by (simp add: prints_def toy_web_def toy_json_def)

lemma toy_node_wide: "wide toy_node"
  by (simp add: wide_def web_ids_def ZPDS_UPLOAD_MAX_RECORDS_def)

definition toy_slave :: toy_shared where
  "toy_slave = toy_node\<lparr>is_master := False\<rparr>"

definition toy_link :: "(toy, (string \<times> toy) list) env" where
  "toy_link = toy_env\<lparr>http_post := \<lambda>n q. Some (http_of TBlank (fst (MasterEndpoint toy_env toy_codecs (request_of q) toy_node)))\<rparr>"

lemma toy_address: "good_address ''m:1''"
  by (simp add: good_address_def host_port_def Regex_colon_def stoi10_def dval_def isdigit_def isspace_def trim_copy_def)

lemma toy_linked: "linked toy_link toy_env toy_codecs TBlank toy_slave toy_node"
  by (simp add: linked_def toy_slave_def toy_address toy_link_def)

section \<open>Two nodes that differ in a passkey\<close>

definition toy_fresh :: "toy_shared \<Rightarrow> toy_shared" where
  "toy_fresh s = s\<lparr>dbcache := \<lambda>_. None, ticks := 0\<rparr>"

definition toy_node2 :: toy_shared where
  "toy_node2 = snd (Exter_ResetPassAction toy_env toy_reset toy_node1)"

definition toy_token :: string where
  "toy_token = replicate 16 (CHR ''x'') @ aes_enc toy_env (replicate 16 (CHR ''x'')) (replicate 16 (CHR ''x'')) (TUser (session_msg ''root1'' 1000000))"

definition toy_ask :: "UserDataT DataRespT" where
  "toy_ask = (toy_request (UserDataT_new\<lparr>user_name := ''root1''\<rparr>) [])\<lparr>dr_sessionkey := toy_token, dr_keytype := K_EXTERDATA, dr_fields := ZPDS_MAX_HEX_VALUE_FIFTEEN\<rparr>"

lemma toy_fresh_inv: "sys_inv toy_env g0 s \<Longrightarrow> sys_inv toy_env g0 (toy_fresh s)"
  by (simp add: sys_inv_def toy_fresh_def caches_ok_def cache_agrees_def) (simp add: index_ok_def)

lemma toy_node2_run:
  assumes "abs_table (ExterDataTable toy_env) (kv_get toy_env (db toy_node1)) = [2 \<mapsto> r]"
  shows "sys_inv toy_env (zero_records toy_env) toy_node2 \<and> (\<exists>p t. abs_table (ExterDataTable toy_env) (kv_get toy_env (db toy_node2)) =
    [2 \<mapsto> r\<lparr>user_passkey := p, user_updated_at := t\<rparr>])"
proof -
  have i: "sys_inv toy_env (zero_records toy_env) toy_node1" and l: "logcounter toy_node1 + 1 \<noteq> 0" using toy_node1_run by auto
  have "reset_effect toy_env (zero_records toy_env) (ExterDataTable toy_env) toy_reset toy_node1 (Exter_ResetPassAction toy_env toy_reset toy_node1)"
    by (rule handlesD [OF Exter_reset_handles [OF toy_env_ok i l] inv_steady [OF toy_env_ok i]])
  note e = this [unfolded reset_effect_def toy_node2_def [symmetric]]
  have self: "r\<lparr>user_passkey := user_passkey r, user_updated_at := user_updated_at r\<rparr> = r" by simp
  show ?thesis
  proof (cases "fst (Exter_ResetPassAction toy_env toy_reset toy_node1)")
    case (Inl x)
    with e assms have "abs_table (ExterDataTable toy_env) (kv_get toy_env (db toy_node2)) = [2 \<mapsto> r]" by simp
    then have "abs_table (ExterDataTable toy_env) (kv_get toy_env (db toy_node2)) =
      [2 \<mapsto> r\<lparr>user_passkey := user_passkey r, user_updated_at := user_updated_at r\<rparr>]" unfolding self .
    moreover from e have "sys_inv toy_env (zero_records toy_env) toy_node2" by simp
    ultimately show ?thesis by blast
  next
    case (Inr y)
    with e assms show ?thesis by (auto split: if_splits)
  qed
qed

lemma toy_admitted:
  assumes "sys_inv toy_env g0 s" and "abs_table (ExterDataTable toy_env) (kv_get toy_env (db s)) = [2 \<mapsto> v]"
    and "user_name v = ''root1''" and "user_signkey v = toy_key1"
  shows "fst (session_of toy_env ''root1'' toy_token K_EXTERDATA True bad (toy_fresh s)) = Inr (v\<lparr>user_keytype := K_EXTERDATA\<rparr>)"
proof -
  let ?d = "UserDataT_new\<lparr>user_name := ''root1'', user_sessionkey := toy_token, user_keytype := K_EXTERDATA\<rparr>"
  let ?T = "ExterDataTable toy_env" and ?c = "ser (c_user toy_env) (Exter_Pack v)"
  have wf: "wf_table toy_env ?T (kv_get toy_env (db s))" using inv_wf(1) [OF assms(1)] .
  have h: "has_user ?T (kv_get toy_env (db s)) ''root1'' u \<longleftrightarrow> u = v" for u using assms(2,3) by (auto simp: has_user_def split: if_splits)
  from exter_lookup [OF wf, of ?d] h have g: "\<not> user_notfound v" "GetOne toy_env ?T (kv_get toy_env (db s)) ?d U_EXTERDATA_NAME = Inr (True, v)" by auto
  have get: "Exter_Get toy_env ?d (toy_fresh s) = (Inr (v\<lparr>user_keytype := K_EXTERDATA\<rparr>), (toy_fresh s)\<lparr>dbcache := [exter_key ''root1'' \<mapsto> ?c]\<rparr>)"
    using g(2) assms(3) by (simp add: Exter_Get_def bindA_assoc GetAssoc_def run_simps SetCache_def SetAssoc_def toy_fresh_def)
  have key: "Create_keys toy_env (sk_algo toy_key1) (sk_seckey toy_key1) = Inr (replicate 16 (CHR ''x''))"
    by (simp add: toy_key1_def Create_keys_def toy_env_b64 B64_Decode_Encode [OF toy_boost_ok])
  have c: "ser (c_user toy_env) m = TUser m" "par (c_user toy_env) (TUser m) = (True, m)" "clock toy_env 0 = 1000000" for m by (simp_all add: toy_env_def)
  have dec: "AES_Decode toy_env (replicate 16 (CHR ''x'')) toy_token = (True, TUser (session_msg ''root1'' 1000000))"
    using toy_aes_ok c(1) by (simp add: AES_Decode_def aes_ok_def AES_LEN_def toy_token_def)
  have t: "ticks (toy_fresh s) = 0" "toy_token \<noteq> []" by (simp_all add: toy_fresh_def toy_token_def)
  have "fst (CheckSessionBase toy_env (Exter_Get toy_env) ?d (toy_fresh s)) = Inr (True, v\<lparr>user_keytype := K_EXTERDATA\<rparr>)"
    using g(1) assms(3,4) t
    by (simp add: CheckSessionBase_def bindA_step [where m = "Exter_Get toy_env ?d", OF get] run_simps key dec c Let_def session_msg_def)
  then obtain s' where "CheckSessionBase toy_env (Exter_Get toy_env) ?d (toy_fresh s) = (Inr (True, v\<lparr>user_keytype := K_EXTERDATA\<rparr>), s')"
    by (metis prod.collapse)
  then show ?thesis by (simp add: session_of_def CheckSession_def bindA_step [where m = "CheckSessionBase toy_env (Exter_Get toy_env) ?d"] run_simps)
qed

lemma toy_ask_simps [simp]: "dr_username toy_ask = ''root1''" "dr_sessionkey toy_ask = toy_token"
  by (simp_all add: toy_ask_def toy_request_def)

text \<open>The records of \<open>root1\<close> look alike to himself, whatever his passkey.\<close>

lemma toy_same_view:
  "same_view toy_env (ExterDataTable toy_env) exter_seen (session_of toy_env ''root1'' toy_token K_EXTERDATA True bad) (toy_fresh toy_node1) (toy_fresh toy_node2)"
proof -
  obtain r where r: "sys_inv toy_env (zero_records toy_env) toy_node1" "abs_table (ExterDataTable toy_env) (kv_get toy_env (db toy_node1)) = [2 \<mapsto> r]"
    "user_name r = ''root1''" "user_signkey r = toy_key1"
    using toy_node1_run by auto
  from toy_node2_run [OF r(2)] obtain p t where t: "sys_inv toy_env (zero_records toy_env) toy_node2"
    "abs_table (ExterDataTable toy_env) (kv_get toy_env (db toy_node2)) = [2 \<mapsto> r\<lparr>user_passkey := p, user_updated_at := t\<rparr>]" by auto
  have seen: "exter_seen u (r\<lparr>user_passkey := p, user_updated_at := t\<rparr>) = exter_seen u r" for u
    by (simp add: exter_seen_def exter_reader_def Let_def)
  have "alike (ExterDataTable toy_env) (exter_seen u) (kv_get toy_env (db toy_node1)) (kv_get toy_env (db toy_node2))" for u
    using r(2) t(2) seen by (auto simp: alike_def has_user_def split: if_splits)
  then show ?thesis
    using toy_admitted [OF r] toy_admitted [OF t] r(3,4) by (simp add: same_view_def) (simp add: toy_fresh_def)
qed

end
