(* ===== verification/SearchLaws.thy ===== *)
theory SearchLaws
  imports SearchQuery "HOL-Library.Multiset"
begin

text \<open>
  What the search gives. The results of a round of rules are the first hits of each item by the rules
  that ran, in the order of rule weight, score and id; a rule is left out only when heavier ones have found
  enough. An item is found by the words of its text, and by the place of whoever searches.
\<close>

section \<open>The order of sort keys\<close>

lemma to_hex_16: "16 ^ 15 \<le> n \<Longrightarrow> n < 16 ^ 16 \<Longrightarrow> to_hex n = hexn 16 n"
proof -
  assume n: "16 ^ 15 \<le> n" "n < 16 ^ 16"
  have len: "w < length (to_hex m)" if "16 ^ w \<le> m" for w m
    using that
  proof (induction w arbitrary: m)
    case 0
    then show ?case by (subst to_hex.simps) simp
  next
    case (Suc w)
    from Suc.prems have m: "16 * 16 ^ w \<le> m" by simp
    from div_le_mono [OF m, of 16] have "16 ^ w \<le> m div 16" by simp
    moreover have "(1 :: nat) \<le> 16 ^ w" by simp
    with m have "\<not> m < 16" by linarith
    ultimately show ?case using Suc.IH [of "m div 16"] by (subst to_hex.simps) simp
  qed
  from n(2) have "ZPDS_MACRO_HEX 16 n = hexn 16 n" using ZPDS_MACRO_HEX_hexn [of n 15] by simp
  with len [OF n(1)] show ?thesis by (simp add: ZPDS_MACRO_HEX_def)
qed

lemma uint_sort_uint64:
  "uint (MakeSortKey_uint64 t) = min (uint t) DR_BUFF_MAX * DR_BUFF_INT + INT64_MAX"
proof -
  have b: "0 \<le> min (uint t) DR_BUFF_MAX" "min (uint t) DR_BUFF_MAX \<le> DR_BUFF_MAX" by (simp_all add: DR_BUFF_MAX_def)
  have "MakeSortKey_uint64 t = word_of_int (min (uint t) DR_BUFF_MAX * DR_BUFF_INT + INT64_MAX)"
    by (auto simp: MakeSortKey_uint64_def Let_def min_def not_less)
  then have "uint (MakeSortKey_uint64 t) = take_bit 64 (min (uint t) DR_BUFF_MAX * DR_BUFF_INT + INT64_MAX)"
    by (simp only: uint_word_of_int take_bit_eq_mod) (simp add: take_bit_eq_mod)
  also have "\<dots> = min (uint t) DR_BUFF_MAX * DR_BUFF_INT + INT64_MAX"
    using b by (intro take_bit_int_eq_self) (simp_all add: DR_BUFF_INT_def DR_BUFF_MAX_def INT64_MAX_def)
  finally show ?thesis .
qed

lemma uint_sort_double:
  assumes "0 < t" and "t < 2 ^ 40"
  shows "uint (MakeSortKey_double t) = llround (t * 10000) + INT64_MAX" and "0 \<le> llround (t * 10000)"
    and "llround (t * 10000) < 2 ^ 54"
proof -
  show l: "0 \<le> llround (t * 10000)" using assms by (simp add: llround_def)
  have "t * 10000 + 1 / 2 < 2 ^ 54" using assms(2) by simp
  then show u: "llround (t * 10000) < 2 ^ 54" using assms(1) by (simp add: llround_def floor_less_iff)
  have "uint (MakeSortKey_double t) = take_bit 64 (llround (t * 10000) + INT64_MAX)"
    using assms(1) by (simp only: MakeSortKey_double_def DR_BUFF_INT_def if_True uint_word_of_int take_bit_eq_mod) simp
  also have "\<dots> = llround (t * 10000) + INT64_MAX"
    using l u by (intro take_bit_int_eq_self) (simp_all add: INT64_MAX_def)
  finally show "uint (MakeSortKey_double t) = llround (t * 10000) + INT64_MAX" .
qed

text \<open>How a score is compared: zero is below everything else, and then it is rounded to four decimal places.\<close>

definition score_rank :: "real \<Rightarrow> int" where
  "score_rank t = (if t = 0 then - 1 else llround (t * 10000))"

lemma score_text:
  assumes "0 \<le> t" and "t < 2 ^ 40"
  shows "to_hex (unat (MakeSortKey_double t)) =
    (if t = 0 then ''0'' else hexn 16 (nat (score_rank t + INT64_MAX)))"
proof (cases "t = 0")
  case True
  have "hexd 0 = CHR ''0''" by code_simp
  with True show ?thesis by (simp add: MakeSortKey_double_def llround_def to_hex.simps)
next
  case False
  with assms(1) have "0 < t" by simp
  note u = uint_sort_double [OF this assms(2)]
  have n: "unat (MakeSortKey_double t) = nat (score_rank t + INT64_MAX)"
    using False u(1) by (simp add: score_rank_def unat_eq_nat_uint)
  have "16 ^ 15 \<le> nat (score_rank t + INT64_MAX)" "nat (score_rank t + INT64_MAX) < 16 ^ 16"
    using False u(2,3) by (simp_all add: score_rank_def INT64_MAX_def)
  from to_hex_16 [OF this] False show ?thesis by (simp add: n)
qed

lemma number_text:
  "to_hex (unat (MakeSortKey_uint64 t)) = hexn 16 (nat (min (uint t) DR_BUFF_MAX * DR_BUFF_INT + INT64_MAX))"
  "ZPDS_MACRO_HEX 16 (unat (MakeSortKey_uint64 t)) = hexn 16 (nat (min (uint t) DR_BUFF_MAX * DR_BUFF_INT + INT64_MAX))"
proof -
  have n: "unat (MakeSortKey_uint64 t) = nat (min (uint t) DR_BUFF_MAX * DR_BUFF_INT + INT64_MAX)"
    by (simp add: unat_eq_nat_uint uint_sort_uint64)
  have b: "0 \<le> min (uint t) DR_BUFF_MAX" "min (uint t) DR_BUFF_MAX \<le> DR_BUFF_MAX" by (simp_all add: DR_BUFF_MAX_def)
  then have r: "16 ^ 15 \<le> unat (MakeSortKey_uint64 t)" "unat (MakeSortKey_uint64 t) < 16 ^ 16"
    unfolding n by (simp_all add: DR_BUFF_INT_def DR_BUFF_MAX_def INT64_MAX_def le_nat_iff)
  show "to_hex (unat (MakeSortKey_uint64 t)) = hexn 16 (nat (min (uint t) DR_BUFF_MAX * DR_BUFF_INT + INT64_MAX))"
    using to_hex_16 [OF r] by (simp add: n)
  show "ZPDS_MACRO_HEX 16 (unat (MakeSortKey_uint64 t)) = hexn 16 (nat (min (uint t) DR_BUFF_MAX * DR_BUFF_INT + INT64_MAX))"
    using ZPDS_MACRO_HEX_hexn [of "unat (MakeSortKey_uint64 t)" 15] r(2) by (simp add: n)
qed

text \<open>A hit: the weight of the rule, the score and the id. The keys of hits with numbers and scores of usual size
  are in the order of weight, score and id.\<close>

type_synonym hit = "64 word \<times> real \<times> 64 word"

definition hit_key :: "hit \<Rightarrow> string" where
  "hit_key = (\<lambda>(w, t, i). EncodeSortKey w t i)"

definition hit_id :: "hit \<Rightarrow> 64 word" where
  "hit_id = (\<lambda>(w, t, i). i)"

definition usual :: "hit \<Rightarrow> bool" where
  "usual = (\<lambda>(w, t, i). uint w < 2 ^ 31 \<and> 0 \<le> t \<and> t < 2 ^ 40 \<and> uint i < 2 ^ 31)"

definition before :: "hit \<Rightarrow> hit \<Rightarrow> bool" where
  "before = (\<lambda>(w, t, i) (w', t', i').
     w < w' \<or> (w = w' \<and> (score_rank t < score_rank t' \<or> (score_rank t = score_rank t' \<and> i < i'))))"

lemma hexn_Cons: "hexn (Suc w) n = hexd (n div 16 ^ w mod 16) # hexn w n"
proof (induction w arbitrary: n)
  case (Suc w)
  have "hexn (Suc (Suc w)) n = hexn (Suc w) (n div 16) @ [hexd (n mod 16)]" by (simp only: hexn.simps)
  also have "\<dots> = hexd (n div 16 div 16 ^ w mod 16) # hexn w (n div 16) @ [hexd (n mod 16)]"
    by (simp only: Suc.IH append_Cons)
  also have "n div 16 div 16 ^ w = n div 16 ^ Suc w" by (simp add: div_mult2_eq)
  finally show ?case by (simp only: hexn.simps)
qed simp

lemma hexn_16_first:
  assumes "16 ^ 15 \<le> n" and "n < 16 ^ 16"
  shows "\<exists>c cs. hexn 16 n = c # cs \<and> CHR ''0'' < c"
proof -
  have "1 \<le> n div 16 ^ 15" using div_le_mono [OF assms(1), of "16 ^ 15"] by simp
  moreover have "n div 16 ^ 15 < 16" using assms(2) by (simp add: less_mult_imp_div_less)
  ultimately have "hexd 0 < hexd (n div 16 ^ 15 mod 16)" by (subst hexd_less_iff) simp_all
  then show ?thesis using hexn_Cons [of 15 n] by simp
qed

lemma hexn_nat:
  assumes "0 \<le> a" "a < 2 ^ 63" "0 \<le> b" "b < 2 ^ 63"
  shows "hexn 16 (nat (a + INT64_MAX)) < hexn 16 (nat (b + INT64_MAX)) \<longleftrightarrow> a < b"
    and "hexn 16 (nat (a + INT64_MAX)) = hexn 16 (nat (b + INT64_MAX)) \<longleftrightarrow> a = b"
proof -
  have r: "nat (a + INT64_MAX) < 16 ^ 16" "nat (b + INT64_MAX) < 16 ^ 16" using assms by (simp_all add: INT64_MAX_def)
  show "hexn 16 (nat (a + INT64_MAX)) < hexn 16 (nat (b + INT64_MAX)) \<longleftrightarrow> a < b"
    using hexn_less [OF r] assms by (simp add: INT64_MAX_def)
  show "hexn 16 (nat (a + INT64_MAX)) = hexn 16 (nat (b + INT64_MAX)) \<longleftrightarrow> a = b"
    using hexn_inject [OF r] assms by (simp add: INT64_MAX_def eq_nat_nat_iff)
qed

lemma number_key:
  assumes "uint t < 2 ^ 31" "uint t' < 2 ^ 31"
  shows "to_hex (unat (MakeSortKey_uint64 t)) < to_hex (unat (MakeSortKey_uint64 t')) \<longleftrightarrow> t < t'"
    and "to_hex (unat (MakeSortKey_uint64 t)) = to_hex (unat (MakeSortKey_uint64 t')) \<longleftrightarrow> t = t'"
    and "ZPDS_MACRO_HEX 16 (unat (MakeSortKey_uint64 t)) = to_hex (unat (MakeSortKey_uint64 t))"
    and "length (to_hex (unat (MakeSortKey_uint64 t))) = 16"
proof -
  have m: "min (uint u) DR_BUFF_MAX = uint u" if "uint u < 2 ^ 31" for u :: "64 word"
    using that by (simp add: DR_BUFF_MAX_def)
  have r: "0 \<le> uint t * DR_BUFF_INT" "uint t * DR_BUFF_INT < 2 ^ 63" "0 \<le> uint t' * DR_BUFF_INT" "uint t' * DR_BUFF_INT < 2 ^ 63"
    using assms by (simp_all add: DR_BUFF_INT_def)
  note n = number_text(1) [of t, unfolded m [OF assms(1)]] number_text(1) [of t', unfolded m [OF assms(2)]]
  show "to_hex (unat (MakeSortKey_uint64 t)) < to_hex (unat (MakeSortKey_uint64 t')) \<longleftrightarrow> t < t'"
    unfolding n hexn_nat(1) [OF r] by (simp add: DR_BUFF_INT_def word_less_def)
  show "to_hex (unat (MakeSortKey_uint64 t)) = to_hex (unat (MakeSortKey_uint64 t')) \<longleftrightarrow> t = t'"
    unfolding n hexn_nat(2) [OF r] by (simp add: DR_BUFF_INT_def word_uint_eq_iff)
  show "ZPDS_MACRO_HEX 16 (unat (MakeSortKey_uint64 t)) = to_hex (unat (MakeSortKey_uint64 t))"
    using number_text [of t] by simp
  show "length (to_hex (unat (MakeSortKey_uint64 t))) = 16" unfolding n by simp
qed

text \<open>The text of a score, with what follows it\<close>

lemma score_key:
  assumes "0 \<le> t" "t < 2 ^ 40" "0 \<le> t'" "t' < 2 ^ 40" and "length u = length v"
  shows "to_hex (unat (MakeSortKey_double t)) @ u < to_hex (unat (MakeSortKey_double t')) @ v \<longleftrightarrow>
      score_rank t < score_rank t' \<or> (score_rank t = score_rank t' \<and> u < v)"
    and "to_hex (unat (MakeSortKey_double t)) @ u = to_hex (unat (MakeSortKey_double t')) @ v \<longleftrightarrow>
      score_rank t = score_rank t' \<and> u = v"
proof -
  have z: "to_hex (unat (MakeSortKey_double 0)) = ''0''" using score_text [of 0] by simp
  have r: "0 \<le> score_rank s" "score_rank s < 2 ^ 54" if "s \<noteq> 0" "0 \<le> s" "s < 2 ^ 40" for s
    using uint_sort_double(2,3) [of s] that by (simp_all add: score_rank_def)
  have f: "\<exists>c cs. hexn 16 (nat (score_rank s + INT64_MAX)) = c # cs \<and> CHR ''0'' < c" if "s \<noteq> 0" "0 \<le> s" "s < 2 ^ 40" for s
    using r [OF that] by (intro hexn_16_first) (simp_all add: INT64_MAX_def)
  show "to_hex (unat (MakeSortKey_double t)) @ u < to_hex (unat (MakeSortKey_double t')) @ v \<longleftrightarrow>
      score_rank t < score_rank t' \<or> (score_rank t = score_rank t' \<and> u < v)"
  proof (cases "t = 0"; cases "t' = 0")
    assume c: "t = 0" "t' \<noteq> 0"
    with f [of t'] r(1) [of t'] assms(3,4) show ?thesis
      by (auto simp: z score_text [OF assms(1,2)] score_text [OF assms(3,4)] score_rank_def)
  next
    assume c: "t \<noteq> 0" "t' = 0"
    with f [of t] r(1) [of t] assms(1,2) show ?thesis
      by (auto simp: z score_text [OF assms(1,2)] score_text [OF assms(3,4)] score_rank_def)
  next
    assume c: "t \<noteq> 0" "t' \<noteq> 0"
    with r [of t] r [of t'] assms(1-4) have
      "0 \<le> score_rank t" "score_rank t < 2 ^ 63" "0 \<le> score_rank t'" "score_rank t' < 2 ^ 63" by fastforce+
    with c show ?thesis
      by (simp add: score_text [OF assms(1,2)] score_text [OF assms(3,4)] less_append_iff hexn_nat del: hexn.simps)
  qed (simp add: z score_rank_def)
  show "to_hex (unat (MakeSortKey_double t)) @ u = to_hex (unat (MakeSortKey_double t')) @ v \<longleftrightarrow>
      score_rank t = score_rank t' \<and> u = v"
  proof (cases "t = 0"; cases "t' = 0")
    assume c: "t = 0" "t' \<noteq> 0"
    with f [of t'] r(1) [of t'] assms(3,4) show ?thesis
      by (auto simp: z score_text [OF assms(1,2)] score_text [OF assms(3,4)] score_rank_def)
  next
    assume c: "t \<noteq> 0" "t' = 0"
    with f [of t] r(1) [of t] assms(1,2) show ?thesis
      by (auto simp: z score_text [OF assms(1,2)] score_text [OF assms(3,4)] score_rank_def)
  next
    assume c: "t \<noteq> 0" "t' \<noteq> 0"
    with r [of t] r [of t'] assms(1-4) have
      "0 \<le> score_rank t" "score_rank t < 2 ^ 63" "0 \<le> score_rank t'" "score_rank t' < 2 ^ 63" by fastforce+
    with c show ?thesis
      by (simp add: score_text [OF assms(1,2)] score_text [OF assms(3,4)] hexn_nat del: hexn.simps)
  qed (simp add: z score_rank_def)
qed

lemma hit_key_less:
  assumes "usual h" and "usual k"
  shows "hit_key h < hit_key k \<longleftrightarrow> before h k"
    and "hit_key h = hit_key k \<Longrightarrow> hit_id h = hit_id k"
proof -
  obtain w t i where h: "h = (w, t, i)" by (metis prod.exhaust)
  obtain w' t' i' where k: "k = (w', t', i')" by (metis prod.exhaust)
  from assms have u: "uint w < 2 ^ 31" "0 \<le> t" "t < 2 ^ 40" "uint i < 2 ^ 31"
    and u': "uint w' < 2 ^ 31" "0 \<le> t'" "t' < 2 ^ 40" "uint i' < 2 ^ 31" by (simp_all add: usual_def h k)
  note n = number_key [OF u(1) u'(1)] number_key(3,4) [OF u'(1) u(1)]
  note i = number_key [OF u(4) u'(4)] number_key(3,4) [OF u'(4) u(4)]
  note s = score_key [OF u(2,3) u'(2,3)]
  show "hit_key h < hit_key k \<longleftrightarrow> before h k"
    by (simp add: hit_key_def before_def h k EncodeSortKey_def n i less_append_iff s)
  show "hit_key h = hit_key k \<Longrightarrow> hit_id h = hit_id k"
    by (simp add: hit_key_def hit_id_def h k EncodeSortKey_def n i append_eq_append_conv s)
qed

section \<open>The results of a round\<close>

text \<open>The hits of a rule, and of several hits of one item the first\<close>

definition rule_hits :: "searcher \<Rightarrow> xdirs \<Rightarrow> UsedParamsT \<Rightarrow> QueryRuleT \<Rightarrow> hit list" where
  "rule_hits X dirs qr rule = (case RuleSearch X dirs qr rule of Inl _ \<Rightarrow> []
     | Inr (_, p) \<Rightarrow> map (\<lambda>(i, t). (qr_weight rule, t, i)) (zip (up_ids p) (up_scores p)))"

fun first_hits :: "hit list \<Rightarrow> hit list" where
  "first_hits [] = []"
| "first_hits (h # hs) = h # filter (\<lambda>k. hit_id k \<noteq> hit_id h) (first_hits hs)"

definition add_hit :: "hit \<Rightarrow> hit list \<Rightarrow> hit list" where
  "add_hit h hs = (if hit_id h \<in> hit_id ` set hs then hs else hs @ [h])"

lemma filter_ids: "hit_id ` set (filter (\<lambda>k. hit_id k \<noteq> a) hs) = hit_id ` set hs - {a}"
  by auto

lemma first_hits_ids: "hit_id ` set (first_hits hs) = hit_id ` set hs"
  by (induction hs) (auto simp only: first_hits.simps list.set image_insert filter_ids)

lemma first_hits_distinct: "distinct (map hit_id (first_hits hs))"
  by (induction hs) (auto simp: distinct_map_filter)

lemma first_hits_subset: "set (first_hits hs) \<subseteq> set hs"
  by (induction hs) auto

lemma first_hits_snoc: "first_hits (hs @ [h]) = add_hit h (first_hits hs)"
proof (induction hs)
  case (Cons k hs)
  have "add_hit h (k # filter (\<lambda>j. hit_id j \<noteq> hit_id k) hs') =
      (if hit_id h = hit_id k then k # filter (\<lambda>j. hit_id j \<noteq> hit_id k) hs'
       else k # filter (\<lambda>j. hit_id j \<noteq> hit_id k) (add_hit h hs'))" for hs'
    using filter_ids [of "hit_id k" hs'] by (simp add: add_hit_def)
  moreover have "filter (\<lambda>j. hit_id j \<noteq> hit_id k) (add_hit h hs') = filter (\<lambda>j. hit_id j \<noteq> hit_id k) hs'"
    if "hit_id h = hit_id k" for hs'
    using that by (simp add: add_hit_def)
  ultimately show ?case using Cons.IH by (cases "hit_id h = hit_id k") simp_all
qed (simp add: add_hit_def)

lemma fold_add_hit: "fold add_hit hs (first_hits gs) = first_hits (gs @ hs)"
proof (induction hs arbitrary: gs)
  case (Cons h hs)
  have "fold add_hit (h # hs) (first_hits gs) = fold add_hit hs (first_hits (gs @ [h]))"
    by (simp add: first_hits_snoc)
  with Cons show ?case by simp
qed simp

text \<open>What the loop keeps: the ids of the hits, and the map of their keys\<close>

definition holds_hits :: "hit list \<Rightarrow> found \<Rightarrow> bool" where
  "holds_hits hs f \<longleftrightarrow> fd_ids f = map hit_id hs \<and>
     sorted_wrt (<) (map fst (fd_map f)) \<and> set (fd_map f) \<subseteq> (\<lambda>h. (hit_key h, hit_id h)) ` set hs \<and>
     (list_all usual hs \<longrightarrow> set (fd_map f) = (\<lambda>h. (hit_key h, hit_id h)) ` set hs)"

lemma emplace_key_sorted:
  assumes "sorted_wrt (<) (map fst m)"
  shows "sorted_wrt (<) (map fst (emplace_key k v m))"
proof (cases "k \<in> fst ` set m")
  case False
  have "mset (map fst (insort_key fst (k, v) m)) = mset (k # map fst m)" by simp
  then have "distinct (map fst (insort_key fst (k, v) m)) \<longleftrightarrow> distinct (k # map fst m)"
    by (rule mset_eq_imp_distinct_iff)
  moreover have "sorted (map fst (insort_key fst (k, v) m))" using assms by (simp add: sorted_insort_key strict_sorted_iff)
  ultimately show ?thesis using assms False by (simp add: emplace_key_def strict_sorted_iff)
qed (use assms in \<open>simp add: emplace_key_def\<close>)

lemma set_emplace_key: "set (emplace_key k v m) = (if k \<in> fst ` set m then set m else insert (k, v) (set m))"
  by (simp add: emplace_key_def set_insort_key)

lemma add_result_hits:
  assumes "holds_hits hs f"
  shows "holds_hits (add_hit (w, t, i) hs) (add_result w (i, t) f)"
proof (cases "i \<in> hit_id ` set hs")
  case True
  moreover from this assms have "i \<in> set (fd_ids f)" by (simp add: holds_hits_def)
  ultimately show ?thesis using assms by (simp add: add_hit_def add_result_def hit_id_def)
next
  case False
  with assms have ni: "i \<notin> set (fd_ids f)" by (simp add: holds_hits_def)
  have f: "add_result w (i, t) f = f\<lparr>fd_ids := fd_ids f @ [i], fd_map := emplace_key (hit_key (w, t, i)) i (fd_map f)\<rparr>"
    using ni by (simp add: add_result_def hit_key_def)
  have a: "add_hit (w, t, i) hs = hs @ [(w, t, i)]" using False by (simp add: add_hit_def hit_id_def)
  have h: "hit_id (w, t, i) = i" by (simp add: hit_id_def)
  have new: "hit_key (w, t, i) \<notin> fst ` set (fd_map f)" if "list_all usual (hs @ [(w, t, i)])"
  proof
    assume "hit_key (w, t, i) \<in> fst ` set (fd_map f)"
    with assms obtain k where k: "k \<in> set hs" "hit_key (w, t, i) = hit_key k" by (auto simp: holds_hits_def)
    with that have "hit_id (w, t, i) = hit_id k" by (intro hit_key_less(2)) (auto simp: list_all_iff)
    with False k(1) h show False by auto
  qed
  show ?thesis
    using assms new unfolding f a holds_hits_def
    by (simp add: h emplace_key_sorted set_emplace_key) (auto simp: h)
qed

lemma fold_add_result:
  assumes "holds_hits (first_hits gs) f"
  shows "holds_hits (first_hits (gs @ map (\<lambda>(i, t). (w, t, i)) ps)) (fold (add_result w) ps f)"
  using assms
proof (induction ps arbitrary: gs f)
  case (Cons p ps)
  obtain i t where p: "p = (i, t)" by fastforce
  have "holds_hits (first_hits (gs @ [(w, t, i)])) (add_result w (i, t) f)"
    unfolding first_hits_snoc by (rule add_result_hits [OF Cons.prems])
  from Cons.IH [OF this] show ?case by (simp add: p)
qed simp

lemma fd_weight_set: "fd_weight (f\<lparr>fd_weight := w\<rparr>) = w"
  by simp

lemma rules_loop_hits:
  assumes "rules_loop X dirs counter qr rules f0 = Inr f" and "holds_hits (first_hits gs) f0"
  shows "\<exists>n\<le>length rules.
    (n < length rules \<longrightarrow> counter \<le> of_nat (length (fd_ids f)) \<and>
       qr_weight (rules ! n) < (if n = 0 then fd_weight f0 else qr_weight (rules ! (n - 1)))) \<and>
    holds_hits (first_hits (gs @ concat (map (rule_hits X dirs qr) (take n rules)))) f"
  using assms
proof (induction rules arbitrary: f0 gs)
  case Nil
  then show ?case by simp
next
  case (Cons rule rules)
  show ?case
  proof (cases "fd_weight f0 > qr_weight rule \<and> of_nat (length (fd_ids f0)) \<ge> counter")
    case True
    with Cons.prems show ?thesis by (intro exI [of _ 0]) simp
  next
    case False
    with Cons.prems(1) obtain b p where r: "RuleSearch X dirs qr rule = Inr (b, p)"
      and l: "rules_loop X dirs counter qr rules
        ((fold (add_result (qr_weight rule)) (zip (up_ids p) (up_scores p)) f0)\<lparr>fd_weight := qr_weight rule\<rparr>) = Inr f"
      by (auto simp: bindR_Inr_iff simp del: not_less)
    have "holds_hits (first_hits (gs @ rule_hits X dirs qr rule))
        ((fold (add_result (qr_weight rule)) (zip (up_ids p) (up_scores p)) f0)\<lparr>fd_weight := qr_weight rule\<rparr>)"
      using fold_add_result [OF Cons.prems(2), of "qr_weight rule" "zip (up_ids p) (up_scores p)"]
      by (simp add: rule_hits_def r holds_hits_def)
    from Cons.IH [OF l this, unfolded fd_weight_set] obtain n where n: "n \<le> length rules"
      "n < length rules \<longrightarrow> counter \<le> of_nat (length (fd_ids f)) \<and>
         qr_weight (rules ! n) < (if n = 0 then qr_weight rule else qr_weight (rules ! (n - 1)))"
      "holds_hits (first_hits ((gs @ rule_hits X dirs qr rule) @ concat (map (rule_hits X dirs qr) (take n rules)))) f"
      by auto
    show ?thesis
      using n by (intro exI [of _ "Suc n"]) (auto simp: nth_Cons' split: if_splits)
  qed
qed

text \<open>The map, read from its end, lists the hits from the best one on.\<close>

lemma holds_hits_ranked:
  assumes "holds_hits (first_hits gs) f" and "list_all usual (first_hits gs)"
  shows "\<exists>hs. mset hs = mset (first_hits gs) \<and> sorted_wrt (\<lambda>a b. before b a) hs \<and> map snd (rev (fd_map f)) = map hit_id hs"
proof -
  define hits where "hits = first_hits gs"
  define hit where "hit = inv_into (set hits) hit_id"
  have inj: "inj_on hit_id (set hits)" using first_hits_distinct [of gs] by (simp add: hits_def distinct_map)
  have m: "set (fd_map f) = (\<lambda>h. (hit_key h, hit_id h)) ` set hits" and srt: "sorted_wrt (<) (map fst (fd_map f))"
    using assms by (simp_all add: holds_hits_def hits_def)
  have hit: "hit (hit_id h) = h" if "h \<in> set hits" for h using inj that by (simp add: hit_def)
  have pair: "fst p = hit_key (hit (snd p)) \<and> hit_id (hit (snd p)) = snd p \<and> hit (snd p) \<in> set hits" if "p \<in> set (fd_map f)" for p
    using that hit by (auto simp: m)
  define hs where "hs = map (hit \<circ> snd) (fd_map f)"
  have keys: "map hit_key hs = map fst (fd_map f)" and ids: "map hit_id hs = map snd (fd_map f)"
    using pair by (auto simp: hs_def)
  from keys srt have "sorted_wrt (<) (map hit_key hs)" by simp
  moreover have us: "usual h" if "h \<in> set hs" for h
    using that pair assms(2) by (auto simp: hs_def hits_def list_all_iff)
  ultimately have "sorted_wrt before hs"
    using sorted_wrt_mono_rel [of hs "\<lambda>x y. hit_key x < hit_key y" before] by (simp add: sorted_wrt_map hit_key_less(1))
  moreover have "mset hs = mset hits"
  proof (rule set_eq_iff_mset_eq_distinct [THEN iffD1])
    from keys srt have "distinct (map hit_key hs)" by (simp add: strict_sorted_iff)
    then show "distinct hs" by (simp add: distinct_map)
    show "distinct hits" using first_hits_distinct [of gs] by (simp add: hits_def distinct_map)
    show "set hs = set hits" using hit by (auto simp: hs_def m image_image)
  qed
  ultimately show ?thesis
    by (intro exI [of _ "rev hs"]) (simp add: hits_def sorted_wrt_rev ids flip: rev_map)
qed

text \<open>C17: a round of rules gives the hits of the rules that ran, of several hits of one item the first; if
  weights, scores and ids are of usual size (the weights and ids below 2^31, the scores not negative) they
  come in the order of falling weight, then score, then id. A rule is left out, with all that follow it,
  only if enough is found and its weight is less than that of the rule before it.\<close>

theorem results_ranked:
  assumes "rules_loop X dirs counter qr rules (found_new\<lparr>fd_weight := w0\<rparr>) = Inr f"
  shows "\<exists>n\<le>length rules.
    (n < length rules \<longrightarrow> counter \<le> of_nat (length (fd_ids f)) \<and>
       qr_weight (rules ! n) < (if n = 0 then w0 else qr_weight (rules ! (n - 1)))) \<and>
    (let hits = first_hits (concat (map (rule_hits X dirs qr) (take n rules))) in
       fd_ids f = map hit_id hits \<and>
       (list_all usual hits \<longrightarrow> (\<exists>hs. mset hs = mset hits \<and> sorted_wrt (\<lambda>a b. before b a) hs \<and>
          map snd (rev (fd_map f)) = map hit_id hs)))"
proof -
  have "holds_hits (first_hits []) (found_new\<lparr>fd_weight := w0\<rparr>)" by (simp add: holds_hits_def found_new_def)
  from rules_loop_hits [OF assms this, unfolded fd_weight_set] obtain n where n: "n \<le> length rules"
    "n < length rules \<longrightarrow> counter \<le> of_nat (length (fd_ids f)) \<and>
       qr_weight (rules ! n) < (if n = 0 then w0 else qr_weight (rules ! (n - 1)))"
    "holds_hits (first_hits (concat (map (rule_hits X dirs qr) (take n rules)))) f"
    by auto
  then show ?thesis
    using holds_hits_ranked [OF n(3)] by (intro exI [of _ n]) (simp add: holds_hits_def Let_def)
qed

end
