(* ===== verification/GeoHashLaws.thy ===== *)
theory GeoHashLaws
  imports GeoHash
begin

text \<open>
  What the grid of \<open>GeoHash\<close> is: names of cells as columns and rows, the tables of neighbours as steps from
  cell to cell, the loops of \<open>Encode\<close> and \<open>Decode\<close> as bisections. Proved: \<open>Encode\<close> gives the one name of
  its length whose cell, as \<open>Decode\<close> computes it, holds the point; the neighbour of a cell is the cell that
  lies next to it, and the neighbours at a level are the ring of cells around it, but nothing is found
  across the borders of the 32 cells named by one character.
\<close>

section \<open>The grid\<close>

text \<open>The column and the row of a cell, counted from the south west, by the names of the cells read
  from the end. A character at an odd place gives three bits of the longitude and two of the latitude,
  at an even place the other way round.\<close>

definition bits3 :: "nat \<Rightarrow> nat" where
  "bits3 i = 4 * (i div 16 mod 2) + 2 * (i div 4 mod 2) + i mod 2"

definition bits2 :: "nat \<Rightarrow> nat" where
  "bits2 i = 2 * (i div 8 mod 2) + i div 2 mod 2"

definition idx :: "char \<Rightarrow> nat" where
  "idx c = (case find_char char_map c of None \<Rightarrow> 0 | Some i \<Rightarrow> i)"

fun rcell :: "string \<Rightarrow> int \<times> int" where
  "rcell [] = (0, 0)"
| "rcell (c # r) = (case rcell r of (x, y) \<Rightarrow>
     if even (length r) then (8 * x + int (bits3 (idx c)), 4 * y + int (bits2 (idx c)))
     else (4 * x + int (bits2 (idx c)), 8 * y + int (bits3 (idx c))))"

definition cell :: "string \<Rightarrow> int \<times> int" where
  "cell h = rcell (rev h)"

definition geohash :: "string \<Rightarrow> bool" where
  "geohash h \<longleftrightarrow> set h \<subseteq> set char_map"

text \<open>How many bits of the longitude and of the latitude a name has\<close>

fun lon_bits :: "nat \<Rightarrow> nat" where
  "lon_bits 0 = 0"
| "lon_bits (Suc n) = lon_bits n + (if even n then 3 else 2)"

fun lat_bits :: "nat \<Rightarrow> nat" where
  "lat_bits 0 = 0"
| "lat_bits (Suc n) = lat_bits n + (if even n then 2 else 3)"

definition step :: "nat \<Rightarrow> int \<times> int \<Rightarrow> int \<times> int" where
  "step d = (\<lambda>(x, y). if d = ZPDS_NORTH then (x, y + 1) else if d = ZPDS_EAST then (x + 1, y)
     else if d = ZPDS_SOUTH then (x, y - 1) else (x - 1, y))"

text \<open>The position of a character within the cell of the name before it, column and row, and the size
  of that cell.\<close>

definition local_pos :: "bool \<Rightarrow> nat \<Rightarrow> int \<times> int" where
  "local_pos b i = (if b then (int (bits3 i), int (bits2 i)) else (int (bits2 i), int (bits3 i)))"

definition local_size :: "bool \<Rightarrow> int \<times> int" where
  "local_size b = (if b then (8, 4) else (4, 8))"

text \<open>What the tables of neighbours and borders say of one character: its neighbour is the next position,
  and at a border, where there is none, the position on the opposite side.\<close>

definition table_ok :: "bool \<Rightarrow> nat \<Rightarrow> char \<Rightarrow> bool" where
  "table_ok b d c =
     (case find_char ((if b then odd_neighbours else even_neighbours) ! d) c of None \<Rightarrow> False
      | Some k \<Rightarrow> k < 32 \<and>
         (case (step d (local_pos b (idx c)), local_size b) of ((x, y), (w, h)) \<Rightarrow>
            local_pos b k = (x mod w, y mod h) \<and>
            (find_char ((if b then odd_borders else even_borders) ! d) c = None \<longleftrightarrow>
              0 \<le> x \<and> x < w \<and> 0 \<le> y \<and> y < h)))"

lemma tables_ok: "list_all (\<lambda>(b, d). list_all (table_ok b d) char_map) (List.product [True, False] [0, 1, 2, 3])"
  by code_simp

lemma char_map_idx: "list_all (\<lambda>i. idx (char_map ! i) = i \<and> bits3 i < 8 \<and> bits2 i < 4) [0..<32]"
  by code_simp

definition unbits :: "nat \<Rightarrow> nat \<Rightarrow> nat" where
  "unbits a b = 16 * (a div 4) + 8 * (b div 2) + 4 * (a div 2 mod 2) + 2 * (b mod 2) + a mod 2"

lemma unbits: "list_all (\<lambda>i. unbits (bits3 i) (bits2 i) = i) [0..<32]"
  by code_simp

lemma length_char_map [simp]: "length char_map = 32"
  by (simp add: char_map_def)

lemma idx_nth [simp]: "i < 32 \<Longrightarrow> idx (char_map ! i) = i"
  and bits3_less: "i < 32 \<Longrightarrow> bits3 i < 8"
  and bits2_less: "i < 32 \<Longrightarrow> bits2 i < 4"
  using char_map_idx by (auto simp: list_all_iff)

lemma char_map_cases:
  assumes "c \<in> set char_map"
  shows "idx c < 32" and "char_map ! idx c = c" and "find_char char_map c = Some (idx c)"
proof -
  from assms obtain i where "i < 32" "c = char_map ! i" by (auto simp: in_set_conv_nth)
  then show "idx c < 32" "char_map ! idx c = c" by simp_all
  from assms show "find_char char_map c = Some (idx c)" by (simp add: find_char_def idx_def)
qed

lemma local_pos_range:
  assumes "i < 32" and "local_pos b i = (u, v)" and "local_size b = (w, h)"
  shows "0 \<le> u" "u < w" "0 \<le> v" "v < h"
  using assms bits3_less [OF assms(1)] bits2_less [OF assms(1)]
  by (auto simp: local_pos_def local_size_def split: if_splits)

lemma local_pos_inject:
  assumes "i < 32" and "j < 32" and "local_pos b i = local_pos b j"
  shows "i = j"
proof -
  from assms(3) have "bits3 i = bits3 j" "bits2 i = bits2 j" by (auto simp: local_pos_def split: if_splits)
  moreover have "unbits (bits3 k) (bits2 k) = k" if "k < 32" for k
    using unbits that by (simp add: list_all_iff)
  ultimately show ?thesis using assms(1,2) by metis
qed

lemma cell_Nil [simp]: "cell [] = (0, 0)"
  by (simp add: cell_def)

lemma cell_snoc:
  "cell (h @ [c]) = (case (cell h, local_pos (even (length h)) (idx c), local_size (even (length h))) of
     ((x, y), (u, v), (w, z)) \<Rightarrow> (w * x + u, z * y + v))"
  by (simp add: cell_def local_pos_def local_size_def split: prod.split)

lemma geohash_snoc [simp]: "geohash (h @ [c]) \<longleftrightarrow> geohash h \<and> c \<in> set char_map"
  by (auto simp: geohash_def)

lemma geohash_Nil [simp]: "geohash []"
  by (simp add: geohash_def)

text \<open>Division with remainder in both coordinates\<close>

lemma grid_split:
  fixes w x u x' u' :: int
  assumes "w * x + u = w * x' + u'" and "0 \<le> u" "u < w" "0 \<le> u'" "u' < w"
  shows "x = x'" "u = u'"
proof -
  from assms(2-5) have "(w * x + u) div w = x" "(w * x' + u') div w = x'" by simp_all
  with assms(1) show "x = x'" by metis
  with assms(1) show "u = u'" by simp
qed

lemma cell_snoc_inject:
  assumes "cell (g @ [c]) = cell (g' @ [c'])" and "length g = length g'"
    and "c \<in> set char_map" "c' \<in> set char_map"
  shows "cell g = cell g'" "c = c'"
proof -
  obtain x y where x: "cell g = (x, y)" by fastforce
  obtain x' y' where x': "cell g' = (x', y')" by fastforce
  obtain u v where u: "local_pos (even (length g)) (idx c) = (u, v)" by fastforce
  obtain u' v' where u': "local_pos (even (length g)) (idx c') = (u', v')" by fastforce
  obtain w z where w: "local_size (even (length g)) = (w, z)" by fastforce
  note r = local_pos_range [OF char_map_cases(1) [OF assms(3)] u w]
    local_pos_range [OF char_map_cases(1) [OF assms(4)] u' w]
  from assms(1) have e: "w * x + u = w * x' + u'" "z * y + v = z * y' + v'"
    using u u' w by (simp_all add: cell_snoc x x' assms(2))
  from grid_split [OF e(1) r(1,2,5,6)] grid_split [OF e(2) r(3,4,7,8)]
  have i: "x = x'" "y = y'" "u = u'" "v = v'" by simp_all
  then show "cell g = cell g'" by (simp add: x x')
  from i u u' have "idx c = idx c'"
    using char_map_cases(1) [OF assms(3)] char_map_cases(1) [OF assms(4)] local_pos_inject by metis
  then show "c = c'" using char_map_cases(2) assms(3,4) by metis
qed

lemma cell_inject:
  assumes "length h = length h'" and "geohash h" and "geohash h'" and "cell h = cell h'"
  shows "h = h'"
  using assms
proof (induction h h' rule: rev_induct2)
  case (4 c g c' g')
  from 4 cell_snoc_inject [of g c g' c'] show ?case by auto
qed simp_all

section \<open>The neighbour is the next cell\<close>

lemma step_shift: "step d (x + a, y + b) = (case step d (a, b) of (p, q) \<Rightarrow> (x + p, y + q))"
  by (auto simp: step_def)

text \<open>A step within a cell stays in it or leads to the opposite side of the next cell.\<close>

lemma step_local:
  assumes "0 \<le> u" "u < w" "0 \<le> v" "v < z" and "step d (u, v) = (p, q)"
  shows "(x + p div w, y + q div z) =
    (if 0 \<le> p \<and> p < w \<and> 0 \<le> q \<and> q < z then (x, y) else step d (x, y))"
proof -
  have m: "(- 1) div w = - 1" "(- 1) div z = - 1" using assms(1-4) by (simp_all add: div_eq_minus1)
  have n: "(u + 1) div w = (if u + 1 < w then 0 else 1)" "(v + 1) div z = (if v + 1 < z then 0 else 1)"
    using assms(1-4) by (cases "u + 1 = w"; cases "v + 1 = z"; simp)+
  from assms show ?thesis
    by (auto simp: step_def m n split: if_splits)
qed

lemma neighbour_char:
  assumes "d \<le> ZPDS_WEST" and "c \<in> set char_map"
  obtains k where "find_char ((if b then odd_neighbours else even_neighbours) ! d) c = Some k" and "k < 32"
    and "table_ok b d c"
proof -
  from assms(1) have "d \<in> {0, 1, 2, 3}" by (auto simp: ZPDS_WEST_def)
  with tables_ok have "list_all (table_ok b d) char_map" by (cases b) auto
  with assms(2) have t: "table_ok b d c" by (simp add: list_all_iff)
  with that show ?thesis by (auto simp: table_ok_def split: option.splits)
qed

text \<open>One character of the walk, whatever the name before it: it is replaced by the one for the next
  position, and the name before it is stepped when the position is at the border.\<close>

lemma neighbour_last:
  assumes "d \<le> ZPDS_WEST" and "c \<in> set char_map"
  obtains k border where "k \<in> set char_map"
    and "GetOneNeighbour (g @ [c]) d =
      (if g = [] then Inl BadGeoHashException
       else bindR (if border then GetOneNeighbour g d else Inr g) (\<lambda>g'. Inr (g' @ [k])))"
    and "\<forall>g' c'. length g' = length g \<longrightarrow> c' \<in> set char_map \<longrightarrow>
      cell (g' @ [c']) = step d (cell (g @ [c])) \<longleftrightarrow> c' = k \<and> cell g' = (if border then step d (cell g) else cell g)"
proof -
  define b where "b = even (length g)"
  from neighbour_char [OF assms, of b] obtain i where
    i: "find_char ((if b then odd_neighbours else even_neighbours) ! d) c = Some i" "i < 32" and t: "table_ok b d c" .
  define border where "border = (find_char ((if b then odd_borders else even_borders) ! d) c \<noteq> None)"
  obtain u v where u: "local_pos b (idx c) = (u, v)" by fastforce
  obtain w z where w: "local_size b = (w, z)" by fastforce
  obtain p q where p: "step d (u, v) = (p, q)" by fastforce
  note r = local_pos_range [OF char_map_cases(1) [OF assms(2)] u w]
  from t i u w p have k: "local_pos b i = (p mod w, q mod z)"
    and b: "border \<longleftrightarrow> \<not> (0 \<le> p \<and> p < w \<and> 0 \<le> q \<and> q < z)"
    by (simp_all add: table_ok_def border_def)
  have kc: "char_map ! i \<in> set char_map" "idx (char_map ! i) = i" using i(2) by simp_all
  have "GetOneNeighbour (g @ [c]) d =
      (if g = [] then Inl BadGeoHashException
       else bindR (if border then GetOneNeighbour g d else Inr g) (\<lambda>g'. Inr (g' @ [char_map ! i])))"
  proof -
    have "(length (g @ [c]) mod 2 = 1) = b" unfolding b_def by simp presburger
    moreover have "length (g @ [c]) < 2 \<longleftrightarrow> g = []" by (cases g) auto
    ultimately show ?thesis
      using assms(1) i by (simp add: GetOneNeighbour.simps [of "g @ [c]"] border_def Let_def del: length_append)
  qed
  moreover have "cell (g' @ [c']) = step d (cell (g @ [c])) \<longleftrightarrow>
      c' = char_map ! i \<and> cell g' = (if border then step d (cell g) else cell g)"
    if l: "length g' = length g" and c': "c' \<in> set char_map" for g' c'
  proof -
    note l = b_def [symmetric] l
    obtain x y where x: "cell g = (x, y)" by fastforce
    have "step d (cell (g @ [c])) = (w * (x + p div w) + p mod w, z * (y + q div z) + q mod z)"
      using l u w p by (simp add: cell_snoc x step_shift distrib_left)
    moreover have "(if border then step d (cell g) else cell g) = (x + p div w, y + q div z)"
      using step_local [OF r p, of x y] by (simp add: b x)
    moreover obtain x' y' where x': "cell g' = (x', y')" by fastforce
    moreover obtain u' v' where u': "local_pos b (idx c') = (u', v')" by fastforce
    moreover have "cell (g' @ [c']) = (w * x' + u', z * y' + v')" using l w x' u' by (simp add: cell_snoc)
    moreover have "c' = char_map ! i \<longleftrightarrow> (u', v') = (p mod w, q mod z)"
      using k u' local_pos_inject [OF char_map_cases(1) [OF c'] i(2), of b] char_map_cases(2) [OF c'] kc(2) by metis
    ultimately show ?thesis
      using grid_split [of w x' u' "x + p div w" "p mod w"] grid_split [of z y' v' "y + q div z" "q mod z"]
        local_pos_range [OF char_map_cases(1) [OF c'] u' w] r
      by (auto simp del: if_split)
  qed
  ultimately show ?thesis using that [OF kc(1), of border] by blast
qed

lemma step_neq: "step d p \<noteq> p"
  by (cases p) (auto simp: step_def)

lemma GetOneNeighbour_iff:
  assumes "geohash h" and "d \<le> ZPDS_WEST"
  shows "GetOneNeighbour h d = Inr h' \<longleftrightarrow>
    geohash h' \<and> length h' = length h \<and> take 1 h' = take 1 h \<and> cell h' = step d (cell h)"
  using assms(1)
proof (induction h arbitrary: h' rule: rev_induct)
  case Nil
  then show ?case using step_neq [of d "(0, 0)"] by (auto simp: GetOneNeighbour.simps [of "[]"])
next
  case (snoc c g)
  then have g: "geohash g" and c: "c \<in> set char_map" by simp_all
  obtain k border where k: "k \<in> set char_map"
    and e: "GetOneNeighbour (g @ [c]) d =
      (if g = [] then Inl BadGeoHashException
       else bindR (if border then GetOneNeighbour g d else Inr g) (\<lambda>g'. Inr (g' @ [k])))"
    and s: "\<forall>g' c'. length g' = length g \<longrightarrow> c' \<in> set char_map \<longrightarrow>
      cell (g' @ [c']) = step d (cell (g @ [c])) \<longleftrightarrow> c' = k \<and> cell g' = (if border then step d (cell g) else cell g)"
    by (rule neighbour_last [OF assms(2) c, of g]) (rule that)
  show ?case
  proof (cases "g = []")
    case True
    have "h' \<noteq> [c]" if "cell h' = step d (cell [c])" using that step_neq by metis
    then have "\<not> (length h' = 1 \<and> take 1 h' = [c] \<and> cell h' = step d (cell [c]))" by auto
    moreover from True e have "GetOneNeighbour (g @ [c]) d = Inl BadGeoHashException" by simp
    ultimately show ?thesis using True by simp
  next
    case False
    have "GetOneNeighbour (g @ [c]) d = Inr h' \<longleftrightarrow>
      (\<exists>g'. h' = g' @ [k] \<and> (if border then GetOneNeighbour g d = Inr g' else g' = g))"
      using False e by (auto simp: bindR_Inr_iff)
    also have "\<dots> \<longleftrightarrow> (\<exists>g'. h' = g' @ [k] \<and> geohash g' \<and> length g' = length g \<and> take 1 g' = take 1 g \<and>
        cell g' = (if border then step d (cell g) else cell g))"
      using snoc.IH [OF g] cell_inject g by (cases border) auto
    also have "\<dots> \<longleftrightarrow> geohash h' \<and> length h' = length (g @ [c]) \<and> take 1 h' = take 1 (g @ [c]) \<and>
        cell h' = step d (cell (g @ [c]))"
      using s k False not_less_eq_eq [of 0 "length g"] by (cases h' rule: rev_cases) (auto simp: Suc_le_eq)
    finally show ?thesis .
  qed
qed

lemma GetOneNeighbour_Inl: "GetOneNeighbour h d = Inl e \<Longrightarrow> e = BadGeoHashException"
proof (induction h d rule: GetOneNeighbour.induct)
  case (1 hash direction)
  from 1(2) 1(1) show ?case
    by (auto simp: GetOneNeighbour.simps [of hash] Let_def bindR_def split: if_splits option.splits sum.splits)
qed

section \<open>The box of a name\<close>

text \<open>The interval number \<open>x\<close> of the 2^\<open>k\<close> into which the interval of width \<open>w\<close> from \<open>lo\<close> on is divided\<close>

definition span :: "real \<Rightarrow> real \<Rightarrow> int \<Rightarrow> nat \<Rightarrow> IntervalT" where
  "span lo w x k = \<lparr>iv_high = lo + w * (of_int x + 1) / 2 ^ k, iv_low = lo + w * of_int x / 2 ^ k\<rparr>"

definition lon_span :: "int \<Rightarrow> nat \<Rightarrow> IntervalT" where
  "lon_span = span (- 180) 360"

definition lat_span :: "int \<Rightarrow> nat \<Rightarrow> IntervalT" where
  "lat_span = span (- 90) 180"

lemma span_half:
  shows "(span lo w x k)\<lparr>iv_low := iv_low (span lo w x k) + (iv_high (span lo w x k) - iv_low (span lo w x k)) / 2\<rparr> =
      span lo w (2 * x + 1) (Suc k)"
    and "(span lo w x k)\<lparr>iv_high := iv_high (span lo w x k) - (iv_high (span lo w x k) - iv_low (span lo w x k)) / 2\<rparr> =
      span lo w (2 * x) (Suc k)"
  by (simp_all add: span_def field_simps)

lemma Decode_bit_span:
  "Decode_bit i j (lat_span y m, lon_span x k, e) =
     (if even e then (lat_span y m, lon_span (2 * x + of_bool (odd (i div 2 ^ (4 - j)))) (Suc k), Suc e)
      else (lat_span (2 * y + of_bool (odd (i div 2 ^ (4 - j)))) (Suc m), lon_span x k, Suc e))"
proof -
  have "(e + 1) mod 2 \<noteq> 0 \<longleftrightarrow> even e" by presburger
  then show ?thesis
    by (simp add: Decode_bit_def Let_def lon_span_def lat_span_def span_half)
qed

lemma of_bool_odd_int: "of_bool (odd n) = int (n mod 2)"
  by (simp add: mod_2_eq_odd)

lemma Decode_char:
  "fold (Decode_bit i) [0..<5] (lat_span y m, lon_span x k, e) =
     (if even e then (lat_span (4 * y + int (bits2 i)) (m + 2), lon_span (8 * x + int (bits3 i)) (k + 3), e + 5)
      else (lat_span (8 * y + int (bits3 i)) (m + 3), lon_span (4 * x + int (bits2 i)) (k + 2), e + 5))"
proof -
  have l: "fold f [0..<5] s = f 4 (f 3 (f 2 (f 1 (f 0 s))))" for f :: "nat \<Rightarrow> 'a \<Rightarrow> 'a" and s
    by (simp add: upt_rec eval_nat_numeral)
  have d: "i div 2 ^ (4 - 0) = i div 16" "i div 2 ^ (4 - 1) = i div 8" "i div 2 ^ (4 - 2) = i div 4"
      "i div 2 ^ (4 - 3) = i div 2" "i div 2 ^ (4 - 4) = i"
    by simp_all
  have 2: "2 * (2 * z + of_bool (odd (i div 8))) + of_bool (odd (i div 2)) = 4 * z + int (bits2 i)" for z
    by (simp add: of_bool_odd_int bits2_def)
  have 3: "2 * (2 * (2 * z + of_bool (odd (i div 16))) + of_bool (odd (i div 4))) + of_bool (odd i) = 8 * z + int (bits3 i)" for z
    by (simp add: of_bool_odd_int bits3_def)
  have n: "k + 2 = Suc (Suc k)" "k + 3 = Suc (Suc (Suc k))" "k + 5 = Suc (Suc (Suc (Suc (Suc k))))" for k
    by simp_all
  show ?thesis
    unfolding l Decode_bit_span d
    by (cases "even e") (simp_all only: Decode_bit_span d 2 3 if_True if_False even_Suc not_not not_True_eq_False not_False_eq_True, simp_all only: n)
qed

definition boxed :: "string \<Rightarrow> IntervalT \<times> IntervalT" where
  "boxed h = (lat_span (snd (cell h)) (lat_bits (length h)), lon_span (fst (cell h)) (lon_bits (length h)))"

lemma Decode_loop_snoc:
  "geohash h \<Longrightarrow> c \<in> set char_map \<Longrightarrow>
    Decode_loop (h @ [c]) st = fold (Decode_bit (idx c)) [0..<5] (Decode_loop h st)"
  by (induction h arbitrary: st) (auto simp: geohash_def char_map_cases(3))

lemma Decode_loop_cell:
  "geohash h \<Longrightarrow> Decode_loop h (world_lat, world_lon, 0) = (fst (boxed h), snd (boxed h), 5 * length h)"
proof (induction h rule: rev_induct)
  case Nil
  show ?case by (simp add: boxed_def world_lat_def world_lon_def lat_span_def lon_span_def span_def
      ZPDS_DEFAULT_MAX_LAT_def ZPDS_DEFAULT_MIN_LAT_def ZPDS_DEFAULT_MAX_LON_def ZPDS_DEFAULT_MIN_LON_def)
next
  case (snoc c h)
  obtain x y where "cell h = (x, y)" by fastforce
  with snoc show ?case
    by (simp add: Decode_loop_snoc boxed_def cell_snoc Decode_char local_pos_def local_size_def del: upt.simps upt_rec_numeral)
qed

lemma Decode_box:
  assumes "geohash h" and "h \<noteq> []"
  shows "gc_news (Decode h) = \<lparr>north = iv_high (fst (boxed h)), east = iv_high (snd (boxed h)),
      south = iv_low (fst (boxed h)), west = iv_low (snd (boxed h))\<rparr>"
    and "gc_lat (Decode h) = (south (gc_news (Decode h)) + north (gc_news (Decode h))) / 2"
    and "gc_lon (Decode h) = (west (gc_news (Decode h)) + east (gc_news (Decode h))) / 2"
  using assms by (simp_all add: Decode_def Decode_loop_cell field_simps)

lemma halve_span:
  "halve c (span lo w x k) =
     (let b = c > lo + w * (2 * of_int x + 1) / 2 ^ Suc k in (b, span lo w (2 * x + of_bool b) (Suc k)))"
proof -
  have "(iv_low (span lo w x k) + iv_high (span lo w x k)) / 2 = lo + w * (2 * of_int x + 1) / 2 ^ Suc k"
    by (simp add: span_def field_simps)
  then show ?thesis by (simp add: halve_def Let_def) (simp add: span_def field_simps)
qed

text \<open>The half-open interval that holds a coordinate, the least one belongs to the first interval\<close>

definition holds :: "real \<Rightarrow> IntervalT \<Rightarrow> real \<Rightarrow> bool" where
  "holds lo iv c \<longleftrightarrow> c \<le> iv_high iv \<and> (iv_low iv < c \<or> iv_low iv = lo \<and> c = lo)"

lemma holds_halve: "holds lo iv c \<Longrightarrow> holds lo (snd (halve c iv)) c"
  by (auto simp: holds_def halve_def Let_def)

lemma holds_unique:
  assumes "holds lo (span lo w x k) c" and "holds lo (span lo w x' k) c" and "0 \<le> x" and "0 \<le> x'" and "0 < w"
  shows "x = x'"
proof -
  have "y \<le> y'" if "holds lo (span lo w y k) c" "holds lo (span lo w y' k) c" "0 \<le> y'" for y y'
  proof (cases "iv_low (span lo w y k) < c")
    case True
    with that(2) have "w * of_int y / 2 ^ k < w * (of_int y' + 1) / 2 ^ k" by (simp add: holds_def span_def)
    with assms(5) have "(of_int y :: real) < of_int (y' + 1)" by (simp add: divide_less_cancel)
    then show ?thesis unfolding of_int_less_iff by simp
  next
    case False
    with that(1) assms(5) have "y = 0" by (simp add: holds_def span_def)
    with that(3) show ?thesis by simp
  qed
  from this [OF assms(1,2,4)] this [OF assms(2,1,3)] show ?thesis by simp
qed

section \<open>Encoding finds the box\<close>

definition encoded :: "real \<Rightarrow> real \<Rightarrow> string \<Rightarrow> encoding \<Rightarrow> bool" where
  "encoded lat lon h st \<longleftrightarrow> geohash h \<and> st = \<lparr>en_lat = fst (boxed h), en_lon = snd (boxed h), en_bits = 0, en_out = h\<rparr> \<and>
     holds (- 90) (fst (boxed h)) lat \<and> holds (- 180) (snd (boxed h)) lon"

text \<open>Five rounds, beginning with the longitude or with the latitude, give one character.\<close>

definition quint :: "bool \<Rightarrow> bool \<Rightarrow> bool \<Rightarrow> bool \<Rightarrow> bool \<Rightarrow> nat" where
  "quint a b c d e = 2 * (2 * (2 * (2 * of_bool a + of_bool b) + of_bool c) + of_bool d) + of_bool e"

lemma quint:
  "quint a b c d e < 32" "int (bits3 (quint a b c d e)) = 4 * of_bool a + 2 * of_bool c + of_bool e"
  "int (bits2 (quint a b c d e)) = 2 * of_bool b + of_bool d"
  by (cases a; cases b; cases c; cases d; cases e; simp add: quint_def bits3_def bits2_def)+

lemma Encode_bit_run:
  "Encode_bit lat lon i \<lparr>en_lat = la, en_lon = lo, en_bits = k, en_out = out\<rparr> =
     (if odd i then (case halve lon lo of (b, iv) \<Rightarrow>
        \<lparr>en_lat = la, en_lon = iv, en_bits = (if 5 dvd i then 0 else 2 * k + of_bool b),
         en_out = (if 5 dvd i then out @ [char_map ! (2 * k + of_bool b)] else out)\<rparr>)
      else (case halve lat la of (b, iv) \<Rightarrow>
        \<lparr>en_lat = iv, en_lon = lo, en_bits = (if 5 dvd i then 0 else 2 * k + of_bool b),
         en_out = (if 5 dvd i then out @ [char_map ! (2 * k + of_bool b)] else out)\<rparr>))"
  by (simp add: Encode_bit_def Let_def odd_iff_mod_2_eq_one dvd_eq_mod_eq_0 split: prod.split)

text \<open>Two and three halvings of an interval that holds the coordinate\<close>

lemma halve_holds:
  assumes "holds lo (span lo w x k) c"
  obtains b where "halve c (span lo w x k) = (b, span lo w (2 * x + of_bool b) (Suc k))"
    and "holds lo (span lo w (2 * x + of_bool b) (Suc k)) c"
proof -
  obtain b where h: "halve c (span lo w x k) = (b, span lo w (2 * x + of_bool b) (Suc k))"
    by (simp add: halve_span Let_def)
  with holds_halve [OF assms] have "holds lo (span lo w (2 * x + of_bool b) (Suc k)) c" by simp
  with h that show ?thesis by blast
qed

lemma halve2:
  assumes "holds lo (span lo w x k) c"
  obtains a b iv where "halve c (span lo w x k) = (a, iv)"
    and "halve c iv = (b, span lo w (4 * x + 2 * of_bool a + of_bool b) (k + 2))"
    and "holds lo (span lo w (4 * x + 2 * of_bool a + of_bool b) (k + 2)) c"
  by (rule halve_holds [OF assms], erule halve_holds) (simp add: that)

lemma halve3:
  assumes "holds lo (span lo w x k) c"
  obtains a b d iv iv' where "halve c (span lo w x k) = (a, iv)" and "halve c iv = (b, iv')"
    and "halve c iv' = (d, span lo w (8 * x + 4 * of_bool a + 2 * of_bool b + of_bool d) (k + 3))"
    and "holds lo (span lo w (8 * x + 4 * of_bool a + 2 * of_bool b + of_bool d) (k + 3)) c"
  by (rule halve2 [OF assms], erule halve_holds) (simp add: that numeral_3_eq_3)

lemma fold_rounds:
  "fold f [5 * n + 1..<5 * Suc n + 1] s = f (5 * n + 5) (f (5 * n + 4) (f (5 * n + 3) (f (5 * n + 2) (f (5 * n + 1) s))))"
  by (simp add: upt_rec eval_nat_numeral)

lemma round_arith:
  "\<not> 5 dvd 5 * n + 1" "\<not> 5 dvd 5 * n + 2" "\<not> 5 dvd 5 * n + 3" "\<not> 5 dvd 5 * n + 4" "5 dvd 5 * n + (5 :: nat)"
  "odd (5 * n + 1) = even n" "odd (5 * n + 2) = odd n" "odd (5 * n + 3) = even n" "odd (5 * n + 4) = odd n"
  "odd (5 * n + 5) = even n"
  by presburger+

lemma Encode_char:
  assumes "encoded lat lon h st"
  obtains c where "encoded lat lon (h @ [c]) (fold (Encode_bit lat lon) [5 * length h + 1..<5 * Suc (length h) + 1] st)"
proof -
  obtain x y where xy: "cell h = (x, y)" by fastforce
  define m k where "m = lat_bits (length h)" and "k = lon_bits (length h)"
  from assms have h: "geohash h"
    and st: "st = \<lparr>en_lat = lat_span y m, en_lon = lon_span x k, en_bits = 0, en_out = h\<rparr>"
    and la: "holds (- 90) (lat_span y m) lat" and lo: "holds (- 180) (lon_span x k) lon"
    by (auto simp: encoded_def boxed_def xy m_def k_def)
  have nth: "char_map ! i \<in> set char_map" if "i < 32" for i using that by simp
  note run = st fold_rounds Encode_bit_run round_arith
  note cond = if_True if_False not_True_eq_False not_False_eq_True prod.case
  show ?thesis
  proof (cases "even (length h)")
    case True
    obtain a c e ia ic where lon: "halve lon (lon_span x k) = (a, ia)" "halve lon ia = (c, ic)"
        "halve lon ic = (e, lon_span (8 * x + 4 * of_bool a + 2 * of_bool c + of_bool e) (k + 3))"
      and hlon: "holds (- 180) (lon_span (8 * x + 4 * of_bool a + 2 * of_bool c + of_bool e) (k + 3)) lon"
      using halve3 [OF lo [unfolded lon_span_def], folded lon_span_def] .
    obtain b d ib where lat: "halve lat (lat_span y m) = (b, ib)"
        "halve lat ib = (d, lat_span (4 * y + 2 * of_bool b + of_bool d) (m + 2))"
      and hlat: "holds (- 90) (lat_span (4 * y + 2 * of_bool b + of_bool d) (m + 2)) lat"
      using halve2 [OF la [unfolded lat_span_def], folded lat_span_def] .
    let ?q = "quint a b c d e"
    have "boxed (h @ [char_map ! ?q]) = (lat_span (4 * y + 2 * of_bool b + of_bool d) (m + 2),
        lon_span (8 * x + 4 * of_bool a + 2 * of_bool c + of_bool e) (k + 3))"
      using True by (simp add: boxed_def cell_snoc xy local_pos_def local_size_def quint m_def k_def add.assoc)
    moreover have "fold (Encode_bit lat lon) [5 * length h + 1..<5 * Suc (length h) + 1] st =
        \<lparr>en_lat = lat_span (4 * y + 2 * of_bool b + of_bool d) (m + 2),
         en_lon = lon_span (8 * x + 4 * of_bool a + 2 * of_bool c + of_bool e) (k + 3),
         en_bits = 0, en_out = h @ [char_map ! ?q]\<rparr>"
      using True by (simp only: run cond lon lat) (simp only: quint_def mult_0_right add_0)
    ultimately show ?thesis
      using that [of "char_map ! ?q"] h hlat hlon nth [OF quint(1)] by (simp add: encoded_def)
  next
    case False
    obtain a c e ia ic where lat: "halve lat (lat_span y m) = (a, ia)" "halve lat ia = (c, ic)"
        "halve lat ic = (e, lat_span (8 * y + 4 * of_bool a + 2 * of_bool c + of_bool e) (m + 3))"
      and hlat: "holds (- 90) (lat_span (8 * y + 4 * of_bool a + 2 * of_bool c + of_bool e) (m + 3)) lat"
      using halve3 [OF la [unfolded lat_span_def], folded lat_span_def] .
    obtain b d ib where lon: "halve lon (lon_span x k) = (b, ib)"
        "halve lon ib = (d, lon_span (4 * x + 2 * of_bool b + of_bool d) (k + 2))"
      and hlon: "holds (- 180) (lon_span (4 * x + 2 * of_bool b + of_bool d) (k + 2)) lon"
      using halve2 [OF lo [unfolded lon_span_def], folded lon_span_def] .
    let ?q = "quint a b c d e"
    have "boxed (h @ [char_map ! ?q]) = (lat_span (8 * y + 4 * of_bool a + 2 * of_bool c + of_bool e) (m + 3),
        lon_span (4 * x + 2 * of_bool b + of_bool d) (k + 2))"
      using False by (simp add: boxed_def cell_snoc xy local_pos_def local_size_def quint m_def k_def add.assoc)
    moreover have "fold (Encode_bit lat lon) [5 * length h + 1..<5 * Suc (length h) + 1] st =
        \<lparr>en_lat = lat_span (8 * y + 4 * of_bool a + 2 * of_bool c + of_bool e) (m + 3),
         en_lon = lon_span (4 * x + 2 * of_bool b + of_bool d) (k + 2),
         en_bits = 0, en_out = h @ [char_map ! ?q]\<rparr>"
      using False by (simp only: run cond lon lat) (simp only: quint_def mult_0_right add_0)
    ultimately show ?thesis
      using that [of "char_map ! ?q"] h hlat hlon nth [OF quint(1)] by (simp add: encoded_def)
  qed
qed

lemma Encode_run:
  assumes "- 180 \<le> lon" "lon \<le> 180" "- 90 \<le> lat" "lat \<le> 90"
  shows "\<exists>h. length h = n \<and> encoded lat lon h (fold (Encode_bit lat lon) [1..<5 * n + 1] Encode_start)"
proof (induction n)
  case 0
  have "boxed [] = (world_lat, world_lon)"
    using Decode_loop_cell [of "[]"] by (simp add: prod_eq_iff)
  with assms show ?case
    by (simp add: encoded_def Encode_start_def holds_def world_lat_def world_lon_def
        ZPDS_DEFAULT_MAX_LAT_def ZPDS_DEFAULT_MIN_LAT_def ZPDS_DEFAULT_MAX_LON_def ZPDS_DEFAULT_MIN_LON_def) linarith
next
  case (Suc n)
  then obtain h where h: "length h = n" and e: "encoded lat lon h (fold (Encode_bit lat lon) [1..<5 * n + 1] Encode_start)"
    by blast
  have "[1..<5 * Suc n + 1] = [1..<5 * n + 1] @ [5 * n + 1..<5 * Suc n + 1]"
    using upt_add_eq_append [of 1 "5 * n + 1" 5] by (simp add: algebra_simps del: upt.simps upt_rec_numeral)
  moreover obtain c where "encoded lat lon (h @ [c]) (fold (Encode_bit lat lon) [5 * length h + 1..<5 * Suc (length h) + 1]
      (fold (Encode_bit lat lon) [1..<5 * n + 1] Encode_start))"
    using Encode_char [OF e] .
  ultimately have "encoded lat lon (h @ [c]) (fold (Encode_bit lat lon) [1..<5 * Suc n + 1] Encode_start)"
    by (simp add: h del: upt.simps upt_rec_numeral)
  with h show ?case by (intro exI [of _ "h @ [c]"]) simp
qed

lemma cell_nonneg:
  assumes "geohash h"
  shows "0 \<le> fst (cell h)" "0 \<le> snd (cell h)"
proof -
  have "0 \<le> fst (cell h) \<and> 0 \<le> snd (cell h)"
    using assms
    by (induction h rule: rev_induct) (auto simp: cell_snoc local_pos_def local_size_def split: prod.split)
  then show "0 \<le> fst (cell h)" "0 \<le> snd (cell h)" by simp_all
qed

text \<open>The point lies in the cell: in its box without the west and the south side, except that the least
  longitude belongs to the first column.\<close>

definition in_cell :: "string \<Rightarrow> real \<Rightarrow> real \<Rightarrow> bool" where
  "in_cell h lat lon =
     (let b = gc_news (Decode h) in
        south b < lat \<and> lat \<le> north b \<and> (west b < lon \<or> west b = - 180 \<and> lon = - 180) \<and> lon \<le> east b)"

lemma in_cell_boxed:
  assumes "geohash h" and "h \<noteq> []" and "- 90 < lat"
  shows "in_cell h lat lon \<longleftrightarrow> holds (- 90) (fst (boxed h)) lat \<and> holds (- 180) (snd (boxed h)) lon"
  using assms(3) by (auto simp: in_cell_def Decode_box(1) [OF assms(1,2)] holds_def)

lemma in_cell_unique:
  assumes "geohash h" "geohash h'" "length h = length h'" "h \<noteq> []" "- 90 < lat"
    and "in_cell h lat lon" "in_cell h' lat lon"
  shows "h = h'"
proof -
  from assms(3,4) have "h' \<noteq> []" by auto
  note b = in_cell_boxed [OF assms(1,4,5), THEN iffD1, OF assms(6)]
    in_cell_boxed [OF assms(2) this assms(5), THEN iffD1, OF assms(7)]
  have "fst (cell h) = fst (cell h')" "snd (cell h) = snd (cell h')"
    using b cell_nonneg [OF assms(1)] cell_nonneg [OF assms(2)] assms(3)
    by (auto simp: boxed_def lon_span_def lat_span_def intro: holds_unique)
  with assms(1-3) show ?thesis by (intro cell_inject prod_eqI)
qed

definition allowed :: "real \<Rightarrow> real \<Rightarrow> bool" where
  "allowed lat lon \<longleftrightarrow> - 85.05113 \<le> lat \<and> lat \<le> 85.05113 \<and> - 180 \<le> lon \<and> lon \<le> 180"

lemma Encode_in_cell:
  assumes "allowed lat lon" and "1 \<le> n" and "n \<le> 12"
  shows "\<exists>h. Encode lat lon n = Inr h \<and> geohash h \<and> length h = n \<and> in_cell h lat lon"
proof -
  from assms(1) have r: "- 180 \<le> lon" "lon \<le> 180" "- 90 \<le> lat" "lat \<le> 90" "- 90 < lat"
    by (simp_all add: allowed_def)
  obtain h where h: "length h = n" "encoded lat lon h (fold (Encode_bit lat lon) [1..<5 * n + 1] Encode_start)"
    using Encode_run [OF r(1-4)] by blast
  have "Encode lat lon n = Inr (en_out (fold (Encode_bit lat lon) [1..<5 * n + 1] Encode_start))"
    using assms by (simp add: Encode_def allowed_def ZPDS_ALLOWED_MAX_LON_def ZPDS_ALLOWED_MIN_LON_def
        ZPDS_ALLOWED_MAX_LAT_def ZPDS_ALLOWED_MIN_LAT_def Let_def mult.commute del: upt.simps upt_rec_numeral)
  moreover from h assms(2) have "h \<noteq> []" by auto
  ultimately show ?thesis
    using h r(5) by (simp add: encoded_def in_cell_boxed del: upt.simps upt_rec_numeral)
qed

lemma Encode_iff:
  assumes "allowed lat lon" and "1 \<le> n" and "n \<le> 12"
  shows "Encode lat lon n = Inr h \<longleftrightarrow> geohash h \<and> length h = n \<and> in_cell h lat lon"
proof -
  obtain h0 where h0: "Encode lat lon n = Inr h0" "geohash h0" "length h0 = n" "in_cell h0 lat lon"
    using Encode_in_cell [OF assms] by blast
  moreover have "h = h0" if "geohash h" "length h = n" "in_cell h lat lon"
    using that h0 assms by (intro in_cell_unique [of h h0 lat lon]) (auto simp: allowed_def)
  ultimately show ?thesis by auto
qed

lemma cell_less:
  assumes "geohash h"
  shows "fst (cell h) < 2 ^ lon_bits (length h)" "snd (cell h) < 2 ^ lat_bits (length h)"
proof -
  have "fst (cell h) < 2 ^ lon_bits (length h) \<and> snd (cell h) < 2 ^ lat_bits (length h)"
    using assms
  proof (induction h rule: rev_induct)
    case (snoc c h)
    then show ?case
      using bits3_less [OF char_map_cases(1), of c] bits2_less [OF char_map_cases(1), of c]
      by (auto simp: cell_snoc local_pos_def local_size_def power_add split: prod.split)
  qed simp
  then show "fst (cell h) < 2 ^ lon_bits (length h)" "snd (cell h) < 2 ^ lat_bits (length h)" by simp_all
qed

lemma span_within:
  assumes "0 \<le> x" and "x < 2 ^ k" and "0 < w"
  shows "lo \<le> iv_low (span lo w x k)" "iv_high (span lo w x k) \<le> lo + w"
    "iv_low (span lo w x k) < iv_high (span lo w x k)"
proof -
  from assms(2) have "of_int (x + 1) \<le> (of_int (2 ^ k) :: real)" by (simp only: of_int_le_iff zless_imp_add1_zle)
  then have "of_int x + 1 \<le> (2 :: real) ^ k" by simp
  with assms(3) show "iv_high (span lo w x k) \<le> lo + w" by (simp add: span_def divide_le_eq)
  from assms(1,3) show "lo \<le> iv_low (span lo w x k)" by (simp add: span_def)
  from assms(3) show "iv_low (span lo w x k) < iv_high (span lo w x k)"
    by (simp add: span_def divide_strict_right_mono)
qed

text \<open>The middle of a cell is encoded as the cell.\<close>

lemma Encode_Decode:
  assumes "geohash h" and "1 \<le> length h" and "length h \<le> 12" and "\<bar>gc_lat (Decode h)\<bar> \<le> 85.05113"
  shows "Encode (gc_lat (Decode h)) (gc_lon (Decode h)) (length h) = Inr h"
proof -
  from assms(2) have n: "h \<noteq> []" by auto
  have lon: "- 180 \<le> iv_low (snd (boxed h))" "iv_high (snd (boxed h)) \<le> 180"
      "iv_low (snd (boxed h)) < iv_high (snd (boxed h))"
    using span_within [OF cell_nonneg(1) [OF assms(1)] cell_less(1) [OF assms(1)], of 360 "- 180"]
    by (simp_all add: boxed_def lon_span_def)
  have lat: "iv_low (fst (boxed h)) < iv_high (fst (boxed h))"
    using span_within [OF cell_nonneg(2) [OF assms(1)] cell_less(2) [OF assms(1)], of 180 "- 90"]
    by (simp_all add: boxed_def lat_span_def)
  have "in_cell h (gc_lat (Decode h)) (gc_lon (Decode h))"
    using lon lat by (simp add: in_cell_def Decode_box [OF assms(1) n])
  moreover have "allowed (gc_lat (Decode h)) (gc_lon (Decode h))"
    using assms(4) lon unfolding allowed_def abs_le_iff by (simp add: Decode_box(1,3) [OF assms(1) n])
  ultimately show ?thesis using assms by (simp add: Encode_iff)
qed

section \<open>The neighbours are the ring around the cell\<close>

text \<open>The cells of the same precision within the same one of the 32 cells named by one character\<close>

definition same_area :: "string \<Rightarrow> string \<Rightarrow> bool" where
  "same_area h g \<longleftrightarrow> geohash g \<and> length g = length h \<and> take 1 g = take 1 h"

definition inside :: "string \<Rightarrow> int \<times> int \<Rightarrow> bool" where
  "inside h p \<longleftrightarrow> (\<exists>g. same_area h g \<and> cell g = p)"

lemma quint_all: "list_all (\<lambda>u. list_all (\<lambda>v. \<exists>i\<in>set [0..<32]. bits3 i = u \<and> bits2 i = v) [0..<4]) [0..<8]"
  by code_simp

lemma local_pos_exists:
  assumes "local_size b = (w, z)" and "0 \<le> u" "u < w" "0 \<le> v" "v < z"
  shows "\<exists>c\<in>set char_map. local_pos b (idx c) = (u, v)"
proof -
  have e: "\<exists>i<32. int (bits3 i) = r \<and> int (bits2 i) = t" if "0 \<le> r" "r < 8" "0 \<le> t" "t < 4" for r t :: int
  proof -
    have "nat r < 8" "nat t < 4" using that by auto
    then have "\<exists>i\<in>set [0..<32]. bits3 i = nat r \<and> bits2 i = nat t" using quint_all by (simp add: list_all_iff)
    then show ?thesis using that by auto
  qed
  have "\<exists>i<32. local_pos b i = (u, v)"
    using assms e [of u v] e [of v u] by (cases b) (auto simp: local_pos_def local_size_def)
  then obtain i where "i < 32" "local_pos b i = (u, v)" by blast
  then show ?thesis by (intro bexI [of _ "char_map ! i"]) simp_all
qed

lemma inside_snoc:
  assumes "h \<noteq> []" and "local_size (even (length h)) = (w, z)"
  shows "inside (h @ [c]) (x, y) \<longleftrightarrow> inside h (x div w, y div z)"
proof
  have wz: "0 < w" "0 < z" using assms(2) by (auto simp: local_size_def split: if_splits)
  have t: "take 1 (h @ [c]) = take 1 h" for c using assms(1) by (cases h) auto
  {
    assume "inside (h @ [c]) (x, y)"
    then obtain k where k: "geohash k" "length k = Suc (length h)" "take 1 k = take 1 h" "cell k = (x, y)"
      unfolding inside_def same_area_def t by auto
    then obtain g c' where "k = g @ [c']" by (cases k rule: rev_cases) auto
    with k have g: "geohash g" "length g = length h" "take 1 (g @ [c']) = take 1 h"
        "c' \<in> set char_map" "cell (g @ [c']) = (x, y)" by simp_all
    obtain x' y' where x': "cell g = (x', y')" by fastforce
    obtain u v where u: "local_pos (even (length h)) (idx c') = (u, v)" by fastforce
    note r = local_pos_range [OF char_map_cases(1) [OF g(4)] u assms(2)]
    from g(5) have "x = w * x' + u" "y = z * y' + v"
      using x' u assms(2) by (simp_all add: cell_snoc g(2))
    with r have "x div w = x'" "y div z = y'" by simp_all
    moreover have "take 1 g = take 1 h" using g(2,3) assms(1) by (cases g) auto
    ultimately show "inside h (x div w, y div z)" using g(1,2) x' by (auto simp: inside_def same_area_def)
  }
  assume "inside h (x div w, y div z)"
  then obtain g where g: "geohash g" "length g = length h" "take 1 g = take 1 h" "cell g = (x div w, y div z)"
    by (auto simp: inside_def same_area_def)
  from local_pos_exists [OF assms(2), of "x mod w" "y mod z"] wz obtain c'
    where c': "c' \<in> set char_map" "local_pos (even (length h)) (idx c') = (x mod w, y mod z)" by auto
  from g(4) c'(2) assms(2) have "cell (g @ [c']) = (x, y)" by (simp add: cell_snoc g(2))
  moreover have "take 1 (g @ [c']) = take 1 h" using g(2,3) assms(1) by (cases g) auto
  ultimately show "inside (h @ [c]) (x, y)"
    using g c'(1) unfolding inside_def same_area_def t by (intro exI [of _ "g @ [c']"]) simp
qed

lemma inside_single: "inside h p \<Longrightarrow> length h \<le> 1 \<Longrightarrow> p = cell h"
proof -
  assume "length h \<le> 1"
  assume "inside h p"
  then obtain g where "cell g = p" "length g = length h" "take 1 g = take 1 h"
    unfolding inside_def same_area_def by blast
  moreover from \<open>length h \<le> 1\<close> have "take 1 h = h" by (rule take_all)
  moreover from \<open>length g = length h\<close> \<open>length h \<le> 1\<close> have "take 1 g = g" by (metis take_all)
  ultimately show "p = cell h" by metis
qed

lemma inside_single_convex:
  assumes "length h \<le> 1" and "inside h (x1, y1)" and "inside h (x2, y2)" and "x1 \<le> x" "x \<le> x2" "y1 \<le> y" "y \<le> y2"
  shows "inside h (x, y)"
proof -
  from assms(1-3) inside_single have "(x1, y1) = (x2, y2)" by metis
  with assms(4-7) have "(x, y) = (x1, y1)" by simp
  with assms(2) show ?thesis by simp
qed

text \<open>Such a set of cells is a rectangle.\<close>

lemma inside_convex:
  assumes "inside h (x1, y1)" and "inside h (x2, y2)" and "x1 \<le> x" "x \<le> x2" "y1 \<le> y" "y \<le> y2"
  shows "inside h (x, y)"
  using assms
proof (induction h arbitrary: x1 x2 x y1 y2 y rule: rev_induct)
  case Nil
  show ?case by (rule inside_single_convex [OF _ Nil]) simp
next
  case (snoc c h)
  show ?case
  proof (cases "h = []")
    case True
    show ?thesis by (rule inside_single_convex [OF _ snoc.prems]) (simp add: True)
  next
    case False
    obtain w z where w: "local_size (even (length h)) = (w, z)" by fastforce
    then have "0 < w" "0 < z" by (auto simp: local_size_def split: if_splits)
    with snoc.prems(3-6) have d: "x1 div w \<le> x div w" "x div w \<le> x2 div w" "y1 div z \<le> y div z" "y div z \<le> y2 div z"
      by (simp_all add: zdiv_mono1)
    from snoc.prems(1,2) have "inside h (x1 div w, y1 div z)" "inside h (x2 div w, y2 div z)"
      by (simp_all add: inside_snoc [OF False w])
    from snoc.IH [OF this d] show ?thesis by (simp add: inside_snoc [OF False w])
  qed
qed

lemma same_area_trans: "same_area h g \<Longrightarrow> same_area g k \<longleftrightarrow> same_area h k"
  by (auto simp: same_area_def)

lemma inside_same_area: "same_area h g \<Longrightarrow> inside g = inside h"
  by (simp add: inside_def same_area_trans fun_eq_iff)

lemma GetOneNeighbour_same_area:
  assumes "geohash h" and "d \<le> ZPDS_WEST"
  shows "GetOneNeighbour h d = Inr g \<longleftrightarrow> same_area h g \<and> cell g = step d (cell h)"
  using GetOneNeighbour_iff [OF assms] by (auto simp: same_area_def)

definition stepn :: "nat \<Rightarrow> int \<Rightarrow> int \<times> int \<Rightarrow> int \<times> int" where
  "stepn d n = (\<lambda>(x, y). if d = ZPDS_NORTH then (x, y + n) else if d = ZPDS_EAST then (x + n, y)
     else if d = ZPDS_SOUTH then (x, y - n) else (x - n, y))"

lemma stepn_step: "stepn d n (step d p) = stepn d (1 + n) p"
  by (cases p) (auto simp: stepn_def step_def)

lemma stepn_simps: "stepn d 0 p = p" "stepn d 1 p = step d p"
  by (cases p; auto simp: stepn_def step_def)+

definition walk_cells :: "nat \<Rightarrow> nat \<Rightarrow> int \<times> int \<Rightarrow> (int \<times> int) list" where
  "walk_cells d i p = map (\<lambda>j. stepn d (1 + int j) p) [0..<i]"

lemma walk_cells_Suc: "walk_cells d (Suc i) p = step d p # walk_cells d i (step d p)"
proof -
  have "[0..<Suc i] = 0 # map Suc [0..<i]" by (simp add: map_Suc_upt upt_conv_Cons del: upt_Suc)
  then show ?thesis
    unfolding walk_cells_def by (simp add: stepn_step comp_def stepn_simps del: upt_Suc)
qed

lemma neighbour_walk_inside:
  assumes "geohash h" and "d \<le> ZPDS_WEST" and "\<forall>p\<in>set (walk_cells d i (cell h)). inside h p"
  shows "\<exists>g ns. neighbour_walk i d h = Inr (g, ns) \<and> same_area h g \<and> cell g = stepn d (int i) (cell h) \<and>
    list_all (same_area h) ns \<and> map cell ns = walk_cells d i (cell h)"
  using assms(1,3)
proof (induction i arbitrary: h)
  case 0
  then show ?case by (simp add: walk_cells_def stepn_simps same_area_def)
next
  case (Suc i)
  from Suc.prems(2) have "inside h (step d (cell h))" by (simp add: walk_cells_Suc)
  then obtain k where k: "same_area h k" "cell k = step d (cell h)" by (auto simp: inside_def)
  then have e: "GetOneNeighbour h d = Inr k" using GetOneNeighbour_same_area [OF Suc.prems(1) assms(2)] by simp
  from k Suc.prems(2) have "geohash k" "\<forall>p\<in>set (walk_cells d i (cell k)). inside k p"
    by (simp_all add: walk_cells_Suc same_area_def inside_same_area [OF k(1)])
  from Suc.IH [OF this] obtain g ns where "neighbour_walk i d k = Inr (g, ns)" "same_area k g"
    "cell g = stepn d (int i) (cell k)" "list_all (same_area k) ns" "map cell ns = walk_cells d i (cell k)" by blast
  with e k show ?case
    by (auto simp: walk_cells_Suc stepn_step same_area_trans [OF k(1)] fun_eq_iff list_all_iff)
qed

lemma neighbour_walk_Inr:
  assumes "geohash h" and "d \<le> ZPDS_WEST" and "neighbour_walk i d h = Inr (g, ns)"
  shows "\<forall>p\<in>set (walk_cells d i (cell h)). inside h p" "same_area h g" "cell g = stepn d (int i) (cell h)"
proof -
  have "(\<forall>p\<in>set (walk_cells d i (cell h)). inside h p) \<and> same_area h g \<and> cell g = stepn d (int i) (cell h)"
    using assms(1,3)
  proof (induction i arbitrary: h ns)
    case 0
    then show ?case by (simp add: walk_cells_def stepn_simps same_area_def)
  next
    case (Suc i)
    from Suc.prems(2) obtain k ms where k: "GetOneNeighbour h d = Inr k" "neighbour_walk i d k = Inr (g, ms)"
      by (auto simp: bindR_Inr_iff)
    then have a: "same_area h k" "cell k = step d (cell h)"
      using GetOneNeighbour_same_area [OF Suc.prems(1) assms(2)] by simp_all
    then have "geohash k" by (simp add: same_area_def)
    from Suc.IH [OF this k(2)] a show ?case
      by (auto simp: walk_cells_Suc stepn_step inside_same_area [OF a(1)] same_area_trans [OF a(1)] inside_def)
  qed
  then show "\<forall>p\<in>set (walk_cells d i (cell h)). inside h p" "same_area h g" "cell g = stepn d (int i) (cell h)" by simp_all
qed

definition cell_dist :: "int \<times> int \<Rightarrow> int \<times> int \<Rightarrow> int" where
  "cell_dist = (\<lambda>(x, y) (x', y'). max \<bar>x - x'\<bar> \<bar>y - y'\<bar>)"

text \<open>All cells at a distance of at most the level lie within the same of the 32 cells.\<close>

definition fits :: "string \<Rightarrow> nat \<Rightarrow> bool" where
  "fits h level \<longleftrightarrow> (\<forall>p. cell_dist (cell h) p \<le> int level \<longrightarrow> inside h p)"

lemma fits_corners:
  assumes "cell h = (x, y)"
  shows "fits h n \<longleftrightarrow> inside h (x - int n, y - int n) \<and> inside h (x + int n, y + int n)"
proof
  assume "fits h n"
  then show "inside h (x - int n, y - int n) \<and> inside h (x + int n, y + int n)"
    by (simp add: fits_def assms cell_dist_def)
next
  assume c: "inside h (x - int n, y - int n) \<and> inside h (x + int n, y + int n)"
  have "inside h (x', y')" if "cell_dist (x, y) (x', y') \<le> int n" for x' y'
    using that by (intro inside_convex [OF conjunct1 [OF c] conjunct2 [OF c]]) (auto simp: cell_dist_def)
  then show "fits h n" by (auto simp: fits_def assms)
qed

lemmas dirs = ZPDS_NORTH_def ZPDS_EAST_def ZPDS_SOUTH_def ZPDS_WEST_def

lemma stepn_dirs:
  "stepn ZPDS_NORTH n (x, y) = (x, y + n)" "stepn ZPDS_EAST n (x, y) = (x + n, y)"
  "stepn ZPDS_SOUTH n (x, y) = (x, y - n)" "stepn ZPDS_WEST n (x, y) = (x - n, y)"
  by (simp_all add: stepn_def dirs)

definition ring_cells :: "nat \<Rightarrow> int \<times> int \<Rightarrow> (int \<times> int) list" where
  "ring_cells n p = (let l = int n; s = (\<lambda>d k p. stepn d k p); p0 = s ZPDS_NORTH l p; p1 = s ZPDS_EAST l p0;
      p2 = s ZPDS_SOUTH (2 * l) p1; p3 = s ZPDS_WEST (2 * l) p2; p4 = s ZPDS_NORTH (2 * l) p3
    in [p0] @ walk_cells ZPDS_EAST n p0 @ walk_cells ZPDS_SOUTH (n * 2) p1 @ walk_cells ZPDS_WEST (n * 2) p2 @
       walk_cells ZPDS_NORTH (n * 2) p3 @ walk_cells ZPDS_EAST (n - 1) p4)"

lemma set_walk_cells:
  "set (walk_cells d n p) = (\<lambda>k. stepn d k p) ` {1..int n}"
proof -
  have "(\<lambda>j. 1 + int j) ` {0..<n} = {1..int n}"
  proof (intro equalityI subsetI)
    fix k assume "k \<in> {1..int n}"
    then have "k = 1 + int (nat (k - 1))" "nat (k - 1) \<in> {0..<n}" by auto
    then show "k \<in> (\<lambda>j. 1 + int j) ` {0..<n}" by (rule image_eqI)
  qed auto
  then show ?thesis by (simp add: walk_cells_def image_image [symmetric, of "\<lambda>k. stepn d k p" "\<lambda>j. 1 + int j"])
qed

lemma distinct_walk_cells: "distinct (walk_cells d n p)"
  by (cases p) (auto simp: walk_cells_def distinct_map inj_on_def stepn_def)

lemma walk_cells_mem:
  "(a, b) \<in> set (walk_cells ZPDS_NORTH n (x, y)) \<longleftrightarrow> a = x \<and> y < b \<and> b \<le> y + int n"
  "(a, b) \<in> set (walk_cells ZPDS_EAST n (x, y)) \<longleftrightarrow> b = y \<and> x < a \<and> a \<le> x + int n"
  "(a, b) \<in> set (walk_cells ZPDS_SOUTH n (x, y)) \<longleftrightarrow> a = x \<and> b < y \<and> y \<le> b + int n"
  "(a, b) \<in> set (walk_cells ZPDS_WEST n (x, y)) \<longleftrightarrow> b = y \<and> a < x \<and> x \<le> a + int n"
proof -
  have i: "(\<exists>k\<in>{1..m}. c = z + k) \<longleftrightarrow> z < c \<and> c \<le> z + m" "(\<exists>k\<in>{1..m}. c = z - k) \<longleftrightarrow> c < z \<and> z \<le> c + m" for m c z :: int
    by (auto intro: bexI [of _ "c - z"] bexI [of _ "z - c"])
  show "(a, b) \<in> set (walk_cells ZPDS_NORTH n (x, y)) \<longleftrightarrow> a = x \<and> y < b \<and> b \<le> y + int n"
    using i(1) [of "int n" b y] by (auto simp: set_walk_cells image_iff stepn_def dirs)
  show "(a, b) \<in> set (walk_cells ZPDS_EAST n (x, y)) \<longleftrightarrow> b = y \<and> x < a \<and> a \<le> x + int n"
    using i(1) [of "int n" a x] by (auto simp: set_walk_cells image_iff stepn_def dirs)
  show "(a, b) \<in> set (walk_cells ZPDS_SOUTH n (x, y)) \<longleftrightarrow> a = x \<and> b < y \<and> y \<le> b + int n"
    using i(2) [of "int n" b y] by (auto simp: set_walk_cells image_iff stepn_def dirs)
  show "(a, b) \<in> set (walk_cells ZPDS_WEST n (x, y)) \<longleftrightarrow> b = y \<and> a < x \<and> x \<le> a + int n"
    using i(2) [of "int n" a x] by (auto simp: set_walk_cells image_iff stepn_def dirs)
qed

lemma ring_cells_eq:
  "ring_cells n (x, y) = [(x, y + int n)] @ walk_cells ZPDS_EAST n (x, y + int n) @
     walk_cells ZPDS_SOUTH (n * 2) (x + int n, y + int n) @ walk_cells ZPDS_WEST (n * 2) (x + int n, y - int n) @
     walk_cells ZPDS_NORTH (n * 2) (x - int n, y - int n) @ walk_cells ZPDS_EAST (n - 1) (x - int n, y + int n)"
  by (simp add: ring_cells_def stepn_dirs Let_def algebra_simps)

lemma ring_cells_set:
  assumes "0 < n"
  shows "set (ring_cells n (x, y)) = {p. cell_dist (x, y) p = int n}"
proof (intro set_eqI)
  fix p :: "int \<times> int"
  obtain a b where p: "p = (a, b)" by fastforce
  have l: "int (n * 2) = 2 * int n" "int (n - 1) = int n - 1" using assms by auto
  have "p \<in> set (ring_cells n (x, y)) \<longleftrightarrow>
    a = x \<and> b = y + int n \<or> b = y + int n \<and> x < a \<and> a \<le> x + int n \<or> a = x + int n \<and> b < y + int n \<and> y + int n \<le> b + 2 * int n \<or>
    b = y - int n \<and> a < x + int n \<and> x + int n \<le> a + 2 * int n \<or> a = x - int n \<and> y - int n < b \<and> b \<le> y - int n + 2 * int n \<or>
    b = y + int n \<and> x - int n < a \<and> a \<le> x - int n + (int n - 1)"
    unfolding ring_cells_eq p set_append Un_iff walk_cells_mem l by simp
  also have "\<dots> \<longleftrightarrow> max \<bar>x - a\<bar> \<bar>y - b\<bar> = int n" using assms by (simp add: max_def abs_if) presburger
  finally show "p \<in> set (ring_cells n (x, y)) \<longleftrightarrow> p \<in> {p. cell_dist (x, y) p = int n}"
    by (simp add: p cell_dist_def)
qed

lemma ring_cells_distinct:
  assumes "0 < n"
  shows "distinct (ring_cells n (x, y))"
proof -
  have l: "int (n * 2) = 2 * int n" "int (n - 1) = int n - 1" using assms by auto
  show ?thesis
    unfolding ring_cells_eq using assms
    by (auto simp: distinct_walk_cells walk_cells_mem l)
qed

lemma same_area_refl: "geohash h \<Longrightarrow> same_area h h"
  by (simp add: same_area_def)

lemma neighbour_ring_fits:
  assumes "geohash h" and "fits h n" and "0 < n"
  shows "\<exists>ns. neighbour_ring h n = Inr ns \<and> list_all (same_area h) ns \<and> map cell ns = ring_cells n (cell h)"
proof -
  obtain x y where xy: "cell h = (x, y)" by fastforce
  have near: "set (ring_cells n (x, y)) \<subseteq> {q. cell_dist (x, y) q \<le> int n}"
    "set (walk_cells ZPDS_NORTH n (x, y)) \<subseteq> {q. cell_dist (x, y) q \<le> int n}"
    using ring_cells_set [OF assms(3), of x y] by (auto simp: walk_cells_mem cell_dist_def)
  note near = near(1) [unfolded ring_cells_eq set_append Un_subset_iff] near(2)
  have walk: "\<exists>g ns. neighbour_walk i d k = Inr (g, ns) \<and> same_area h g \<and> cell g = stepn d (int i) p \<and>
      list_all (same_area h) ns \<and> map cell ns = walk_cells d i p"
    if "same_area h k" "cell k = p" "d \<le> ZPDS_WEST" "set (walk_cells d i p) \<subseteq> {q. cell_dist (x, y) q \<le> int n}" for i d k p
  proof -
    have "\<forall>q\<in>set (walk_cells d i (cell k)). inside k q"
      using that(2,4) assms(2) by (auto simp: inside_same_area [OF that(1)] fits_def xy)
    from neighbour_walk_inside [OF _ that(3) this] that(1,2) show ?thesis
      by (auto simp: same_area_def list_all_iff)
  qed
  have le: "ZPDS_NORTH \<le> ZPDS_WEST" "ZPDS_EAST \<le> ZPDS_WEST" "ZPDS_SOUTH \<le> ZPDS_WEST" "ZPDS_WEST \<le> ZPDS_WEST"
    by (simp_all add: dirs)
  obtain h0 n0 where 0: "neighbour_walk n ZPDS_NORTH h = Inr (h0, n0)" "same_area h h0" "cell h0 = (x, y + int n)"
    using walk [OF same_area_refl [OF assms(1)] xy le(1), of n]
    using near by (auto simp: stepn_dirs)
  obtain h1 n1 where 1: "neighbour_walk n ZPDS_EAST h0 = Inr (h1, n1)" "same_area h h1" "cell h1 = (x + int n, y + int n)"
    "list_all (same_area h) n1" "map cell n1 = walk_cells ZPDS_EAST n (x, y + int n)"
    using walk [OF 0(2,3) le(2), of n] using near by (auto simp: stepn_dirs)
  obtain h2 n2 where 2: "neighbour_walk (n * 2) ZPDS_SOUTH h1 = Inr (h2, n2)" "same_area h h2" "cell h2 = (x + int n, y - int n)"
    "list_all (same_area h) n2" "map cell n2 = walk_cells ZPDS_SOUTH (n * 2) (x + int n, y + int n)"
    using walk [OF 1(2,3) le(3), of "n * 2"] using near by (auto simp: stepn_dirs)
  obtain h3 n3 where 3: "neighbour_walk (n * 2) ZPDS_WEST h2 = Inr (h3, n3)" "same_area h h3" "cell h3 = (x - int n, y - int n)"
    "list_all (same_area h) n3" "map cell n3 = walk_cells ZPDS_WEST (n * 2) (x + int n, y - int n)"
    using walk [OF 2(2,3) le(4), of "n * 2"] using near by (auto simp: stepn_dirs)
  obtain h4 n4 where 4: "neighbour_walk (n * 2) ZPDS_NORTH h3 = Inr (h4, n4)" "same_area h h4" "cell h4 = (x - int n, y + int n)"
    "list_all (same_area h) n4" "map cell n4 = walk_cells ZPDS_NORTH (n * 2) (x - int n, y - int n)"
    using walk [OF 3(2,3) le(1), of "n * 2"] using near by (auto simp: stepn_dirs)
  obtain h5 n5 where 5: "neighbour_walk (n - 1) ZPDS_EAST h4 = Inr (h5, n5)"
    "list_all (same_area h) n5" "map cell n5 = walk_cells ZPDS_EAST (n - 1) (x - int n, y + int n)"
    using walk [OF 4(2,3) le(2), of "n - 1"] using near by (auto simp: stepn_dirs)
  show ?thesis
    using 0 1 2 3 4 5 by (simp add: neighbour_ring_def ring_cells_eq xy)
qed

lemma neighbour_ring_Inr:
  assumes "geohash h" and "neighbour_ring h n = Inr ns"
  shows "fits h n"
proof -
  obtain x y where xy: "cell h = (x, y)" by fastforce
  have le: "ZPDS_NORTH \<le> ZPDS_WEST" "ZPDS_EAST \<le> ZPDS_WEST" "ZPDS_SOUTH \<le> ZPDS_WEST" "ZPDS_WEST \<le> ZPDS_WEST"
    by (simp_all add: dirs)
  from assms(2) obtain h0 n0 h1 n1 h2 n2 h3 n3 where
    w: "neighbour_walk n ZPDS_NORTH h = Inr (h0, n0)" "neighbour_walk n ZPDS_EAST h0 = Inr (h1, n1)"
      "neighbour_walk (n * 2) ZPDS_SOUTH h1 = Inr (h2, n2)" "neighbour_walk (n * 2) ZPDS_WEST h2 = Inr (h3, n3)"
    by (auto simp: neighbour_ring_def bindR_Inr_iff split: prod.splits)
  note 0 = neighbour_walk_Inr(2,3) [OF assms(1) le(1) w(1)]
  then have g: "geohash h0" by (simp add: same_area_def)
  note 1 = neighbour_walk_Inr(2,3) [OF g le(2) w(2)]
  then have g: "geohash h1" by (simp add: same_area_def)
  note 2 = neighbour_walk_Inr(2,3) [OF g le(3) w(3)]
  then have g: "geohash h2" by (simp add: same_area_def)
  note 3 = neighbour_walk_Inr(2,3) [OF g le(4) w(4)]
  from 0 1 2 3 have "same_area h h1" "same_area h h3" using same_area_trans by blast+
  moreover from 0 1 2 3 have "cell h1 = (x + int n, y + int n)" "cell h3 = (x - int n, y - int n)"
    by (simp_all add: stepn_dirs xy)
  ultimately show ?thesis by (auto simp: fits_corners [OF xy] inside_def)
qed

lemma GetNeighbours_ring:
  assumes "geohash h" and "0 < n"
  shows "distinct (GetNeighbours h n)"
    and "set (GetNeighbours h n) = (if fits h n then {g. geohash g \<and> length g = length h \<and> cell_dist (cell h) (cell g) = int n} else {})"
proof -
  obtain x y where xy: "cell h = (x, y)" by fastforce
  show "distinct (GetNeighbours h n)"
  proof (cases "fits h n")
    case True
    from neighbour_ring_fits [OF assms(1) this assms(2)] obtain ns where
      ns: "neighbour_ring h n = Inr ns" "map cell ns = ring_cells n (cell h)" by blast
    with ring_cells_distinct [OF assms(2), of x y] have "distinct (map cell ns)" by (simp only: xy)
    then have "distinct ns" by (simp add: distinct_map)
    with ns(1) show ?thesis using assms(2) by (simp add: GetNeighbours_def)
  next
    case False
    with neighbour_ring_Inr [OF assms(1)] show ?thesis
      by (auto simp: GetNeighbours_def split: sum.split)
  qed
  show "set (GetNeighbours h n) = (if fits h n then {g. geohash g \<and> length g = length h \<and> cell_dist (cell h) (cell g) = int n} else {})"
  proof (cases "fits h n")
    case True
    from neighbour_ring_fits [OF assms(1) this assms(2)] obtain ns where
      ns: "neighbour_ring h n = Inr ns" "list_all (same_area h) ns" "map cell ns = ring_cells n (cell h)" by blast
    from ns(3) have c: "cell ` set ns = {p. cell_dist (cell h) p = int n}"
      using ring_cells_set [OF assms(2), of x y] xy by (metis set_map)
    have "set ns = {g. geohash g \<and> length g = length h \<and> cell_dist (cell h) (cell g) = int n}"
    proof (intro equalityI subsetI)
      fix g assume "g \<in> set ns"
      with ns(2) c show "g \<in> {g. geohash g \<and> length g = length h \<and> cell_dist (cell h) (cell g) = int n}"
        by (auto simp: list_all_iff same_area_def)
    next
      fix g assume g: "g \<in> {g. geohash g \<and> length g = length h \<and> cell_dist (cell h) (cell g) = int n}"
      with c have "cell g \<in> cell ` set ns" by auto
      then obtain k where "k \<in> set ns" "cell k = cell g" by auto
      moreover from this ns(2) have "same_area h k" by (simp add: list_all_iff)
      ultimately show "g \<in> set ns" using g cell_inject [of k g] by (auto simp: same_area_def)
    qed
    with True ns(1) assms(2) show ?thesis by (simp add: GetNeighbours_def)
  next
    case False
    with neighbour_ring_Inr [OF assms(1)] show ?thesis
      by (auto simp: GetNeighbours_def split: sum.split)
  qed
qed

section \<open>The properties\<close>

text \<open>C19: for coordinates in the allowed range and a precision from 1 to 12, \<open>Encode\<close> gives a name if and
  only if the name has that many characters of the alphabet and its cell, as \<open>Decode\<close> computes the sides,
  holds the point; so the names of each length divide the map without gaps and overlaps.\<close>

theorem Encode_finds_cell:
  assumes "allowed lat lon" and "1 \<le> n" and "n \<le> 12"
  shows "Encode lat lon n = Inr h \<longleftrightarrow> geohash h \<and> length h = n \<and> in_cell h lat lon"
  by (rule Encode_iff [OF assms])

lemma geohash_code: "geohash h \<longleftrightarrow> list_all (\<lambda>c. c \<in> set char_map) h"
  by (auto simp: geohash_def list_all_iff)

lemma Encode_finds_cell_witness: "Encode 48.669 (- 4.329) 5 = Inr ''gbsuv''"
proof -
  have c: "cell ''gbsuv'' = (3997, 3155)" by code_simp
  have g: "geohash ''gbsuv''" unfolding geohash_code by code_simp
  have b: "boxed ''gbsuv'' = (lat_span 3155 12, lon_span 3997 13)"
  proof -
    have "lat_bits 5 = 12" "lon_bits 5 = 13" by code_simp+
    then show ?thesis by (simp add: boxed_def c)
  qed
  have "in_cell ''gbsuv'' 48.669 (- 4.329)"
    by (subst in_cell_boxed [OF g]) (simp_all add: b holds_def lat_span_def lon_span_def span_def)
  then show ?thesis
    using Encode_finds_cell [of "48.669" "- 4.329" 5 "''gbsuv''"] g by (simp add: allowed_def)
qed

text \<open>The box \<open>b'\<close> lies next to the box \<open>b\<close>: they share a side, and the sides beside it are in line.\<close>

definition next_to :: "nat \<Rightarrow> NewsT \<Rightarrow> NewsT \<Rightarrow> bool" where
  "next_to d b b' \<longleftrightarrow>
     (if d = ZPDS_NORTH then south b' = north b \<and> west b' = west b \<and> east b' = east b
      else if d = ZPDS_EAST then west b' = east b \<and> south b' = south b \<and> north b' = north b
      else if d = ZPDS_SOUTH then north b' = south b \<and> west b' = west b \<and> east b' = east b
      else east b' = west b \<and> south b' = south b \<and> north b' = north b)"

lemma span_sides:
  assumes "0 < w"
  shows "iv_low (span lo w x k) = iv_low (span lo w x' k) \<longleftrightarrow> x = x'"
    and "iv_high (span lo w x k) = iv_high (span lo w x' k) \<longleftrightarrow> x = x'"
    and "iv_low (span lo w x k) = iv_high (span lo w x' k) \<longleftrightarrow> x = x' + 1"
    and "iv_high (span lo w x k) = iv_low (span lo w x' k) \<longleftrightarrow> x + 1 = x'"
proof -
  have i: "(of_int a :: real) = of_int b + 1 \<longleftrightarrow> a = b + 1" "(of_int b :: real) + 1 = of_int a \<longleftrightarrow> b + 1 = a" for a b :: int
    by (metis of_int_1 of_int_add of_int_eq_iff)+
  show "iv_low (span lo w x k) = iv_low (span lo w x' k) \<longleftrightarrow> x = x'"
    and "iv_high (span lo w x k) = iv_high (span lo w x' k) \<longleftrightarrow> x = x'"
    and "iv_low (span lo w x k) = iv_high (span lo w x' k) \<longleftrightarrow> x = x' + 1"
    and "iv_high (span lo w x k) = iv_low (span lo w x' k) \<longleftrightarrow> x + 1 = x'"
    using assms by (simp_all add: span_def i)
qed

lemma next_to_step:
  assumes "geohash h" "geohash g" "length g = length h" "h \<noteq> []"
  shows "next_to d (gc_news (Decode h)) (gc_news (Decode g)) \<longleftrightarrow> cell g = step d (cell h)"
proof -
  obtain x y where h: "cell h = (x, y)" by fastforce
  obtain x' y' where g: "cell g = (x', y')" by fastforce
  from assms(3,4) have "g \<noteq> []" by auto
  note news = Decode_box(1) [OF assms(1,4)] Decode_box(1) [OF assms(2) this]
  show ?thesis
    unfolding next_to_def news boxed_def assms(3) h g
    by (auto simp: lat_span_def lon_span_def span_sides step_def)
qed

text \<open>C29: the neighbour of a cell in a direction is the cell of the same precision that lies next to it in
  that direction, if the two lie in the same one of the 32 cells named by one character; otherwise there
  is none and \<open>BadGeoHashException\<close> is thrown.\<close>

theorem GetOneNeighbour_next:
  assumes "geohash h" and "h \<noteq> []" and "d \<le> ZPDS_WEST"
  shows "(\<forall>g. GetOneNeighbour h d = Inr g \<longleftrightarrow>
      geohash g \<and> length g = length h \<and> take 1 g = take 1 h \<and> next_to d (gc_news (Decode h)) (gc_news (Decode g))) \<and>
    (\<forall>e. GetOneNeighbour h d = Inl e \<longrightarrow> e = BadGeoHashException)"
proof -
  have "GetOneNeighbour h d = Inr g \<longleftrightarrow>
      geohash g \<and> length g = length h \<and> take 1 g = take 1 h \<and> next_to d (gc_news (Decode h)) (gc_news (Decode g))" for g
    using GetOneNeighbour_iff [OF assms(1,3), of g] next_to_step [OF assms(1) _ _ assms(2), of g d] by blast
  then show ?thesis using GetOneNeighbour_Inl by blast
qed

lemma GetOneNeighbour_next_witness:
  "GetOneNeighbour ''u09'' ZPDS_EAST = Inr ''u0d'' \<and>
   next_to ZPDS_EAST (gc_news (Decode ''u09'')) (gc_news (Decode ''u0d'')) \<and>
   GetOneNeighbour ''u09'' ZPDS_WEST = Inr ''u08''"
proof -
  have g: "geohash ''u09''" unfolding geohash_code by code_simp
  have "GetOneNeighbour ''u09'' ZPDS_EAST = Inr ''u0d''" by code_simp
  moreover have "next_to ZPDS_EAST (gc_news (Decode ''u09'')) (gc_news (Decode ''u0d''))"
    using GetOneNeighbour_next [OF g, THEN conjunct1, THEN spec, THEN iffD1, OF _ _ calculation]
    by (simp add: dirs)
  moreover have "GetOneNeighbour ''u09'' ZPDS_WEST = Inr ''u08''" by code_simp
  ultimately show ?thesis by blast
qed

text \<open>C30: the neighbours at a level are, each once, the cells of the same precision at that distance, the
  ring around the square of side 2 * level - 1; but when the ring does not lie within the same one of the
  32 cells named by one character, no neighbour is given at all.\<close>

theorem GetNeighbours_are_ring:
  assumes "geohash h" and "0 < n"
  shows "distinct (GetNeighbours h n) \<and> set (GetNeighbours h n) =
    (if fits h n then {g. geohash g \<and> length g = length h \<and> cell_dist (cell h) (cell g) = int n} else {})"
  using GetNeighbours_ring [OF assms] by blast

lemma GetNeighbours_are_ring_witness:
  "fits ''u33'' 1 \<and> distinct (GetNeighbours ''u33'' 1) \<and>
   set (GetNeighbours ''u33'' 1) = {g. geohash g \<and> length g = 3 \<and> cell_dist (cell ''u33'') (cell g) = 1} \<and>
   GetNeighbours ''gcp'' 1 = [] \<and> \<not> fits ''gcp'' 1"
proof -
  have g: "geohash ''u33''" "geohash ''gcp''" unfolding geohash_code by code_simp+
  have "GetNeighbours ''u33'' 1 \<noteq> []" by code_simp
  then have u: "fits ''u33'' 1" using GetNeighbours_are_ring [OF g(1), of 1] by (auto split: if_splits)
  have e: "GetNeighbours ''gcp'' 1 = []" by code_simp
  have "fits h 1 \<Longrightarrow> neighbour_ring h 1 \<noteq> Inr []" if "geohash h" for h
    using neighbour_ring_fits [OF that, of 1] ring_cells_eq [of 1 "fst (cell h)" "snd (cell h)"] by auto
  then have "\<not> fits ''gcp'' 1"
    using neighbour_ring_fits [OF g(2), of 1] g(2) e by (auto simp: GetNeighbours_def)
  with u e show ?thesis using GetNeighbours_are_ring [OF g(1), of 1] by (simp add: numeral_3_eq_3)
qed

end
