(* ===== verification/SearchFinds.thy ===== *)
theory SearchFinds
  imports SearchQuery GeoHashLaws IndexLaws "HOL-Library.Multiset"
begin

text \<open>
  By what an item is found. The terms of a document are compared with the terms a search asks for: the words
  typed, the last of them as a beginning, and the cell of the map where the searcher is.
\<close>

section \<open>The terms of a document\<close>

lemma doc_terms_simps [simp]:
  "doc_terms xdoc_new = {}"
  "doc_terms (add_posting p d) = insert (fst p) (doc_terms d)"
  "doc_terms (add_term t d) = insert t (doc_terms d)"
  "doc_terms (add_value n v d) = doc_terms d"
  by (auto simp: doc_terms_def xdoc_new_def add_posting_def add_term_def add_value_def)

lemma doc_terms_postings: "doc_terms (fold add_posting ps d) = fst ` set ps \<union> doc_terms d"
  by (induction ps arbitrary: d) auto

lemma doc_terms_terms: "doc_terms (fold add_term ts d) = set ts \<union> doc_terms d"
  by (induction ts arbitrary: d) auto

definition text_terms :: "(string \<Rightarrow> string) \<Rightarrow> string \<Rightarrow> string \<Rightarrow> string \<Rightarrow> bool \<Rightarrow> string set" where
  "text_terms kstem item full_prefix part_prefix with_stem =
     (\<Union>i<length (LowerNoQuote item). fst ` set (full_postings kstem (LowerNoQuote item) full_prefix with_stem False i) \<union>
        fst ` set (part_postings (LowerNoQuote item) part_prefix False i))"

lemma doc_terms_postings_loop:
  "doc_terms (fold (\<lambda>i. fold add_posting (ps i)) ns d) = (\<Union>i\<in>set ns. fst ` set (ps i)) \<union> doc_terms d"
  by (induction ns arbitrary: d) (auto simp: doc_terms_postings)

lemma doc_terms_IndexWithPart:
  "doc_terms (IndexWithPart kstem item fp pp ws False d) = text_terms kstem item fp pp ws \<union> doc_terms d"
  unfolding IndexWithPart_def Let_def doc_terms_postings_loop
  by (simp add: text_terms_def atLeast0LessThan image_Un)

lemma doc_terms_IndexOneWord: "doc_terms (IndexOneWord item fp d) = insert (fp @ item) (doc_terms d)"
  by (simp add: IndexOneWord_def)

lemma doc_terms_categories: "doc_terms (index_categories r d) = (\<lambda>c. XAP_CATEGORY_PREFIX @ c) ` set (item_categories r) \<union> doc_terms d"
proof -
  have "doc_terms (fold (\<lambda>c. IndexOneWord c p) cs d) = (\<lambda>c. p @ c) ` set cs \<union> doc_terms d" for cs p
    by (induction cs arbitrary: d) (auto simp: doc_terms_IndexOneWord)
  then show ?thesis by (simp add: index_categories_def)
qed

lemma doc_terms_tags:
  "doc_terms (index_tags r d) =
     (\<lambda>t. XAP_TAG_PREFIX @ FormatTag (tag_name t) (tag_value t)) ` {t \<in> set (item_tags r). tag_is_searchable t} \<union> doc_terms d"
proof -
  have "doc_terms (fold (\<lambda>t. if \<not> tag_is_searchable t then id else IndexOneWord (FormatTag (tag_name t) (tag_value t)) p) ts d) =
      (\<lambda>t. p @ FormatTag (tag_name t) (tag_value t)) ` {t \<in> set ts. tag_is_searchable t} \<union> doc_terms d" for ts p
    by (induction ts arbitrary: d) (auto simp: doc_terms_IndexOneWord)
  then show ?thesis by (simp add: index_tags_def)
qed

lemma doc_terms_term_if: "doc_terms (term_if b t d) = (if b then insert t (doc_terms d) else doc_terms d)"
  by (simp add: term_if_def)

definition geo_terms :: "real \<Rightarrow> real \<Rightarrow> string set" where
  "geo_terms lat lon = (if lat = 0 \<and> lon = 0 then {} else (case Encode lat lon 9 of Inl _ \<Rightarrow> {}
     | Inr h \<Rightarrow> {FormatPrefix (take 3 h) XAP_GEOHASH3_PREFIX, FormatPrefix (take 5 h) XAP_GEOHASH5_PREFIX,
         FormatPrefix (take 7 h) XAP_GEOHASH7_PREFIX, FormatPrefix (take 9 h) XAP_GEOHASH9_PREFIX} \<union>
         (\<lambda>g. FormatPrefix g XAP_NBRHASH3_PREFIX) ` insert (take 3 h) (set (GetNeighbours (take 3 h) 1)) \<union>
         (\<lambda>g. FormatPrefix g XAP_NBRHASH5_PREFIX) `
           insert (take 5 h) (set (GetNeighbours (take 5 h) 1) \<union> set (GetNeighbours (take 5 h) 2))))"

lemma doc_terms_IndexGeo: "doc_terms (IndexGeo X lat lon d) = geo_terms lat lon \<union> doc_terms d"
  by (auto simp: IndexGeo_def geo_terms_def Let_def doc_terms_terms split: sum.split)

lemma doc_terms_values: "doc_terms (index_values X r d) = insert (idterm r) (doc_terms d)"
  by (simp add: index_values_def)

lemma doc_terms_texts:
  "doc_terms (index_texts X ws suggest name d) = text_terms (ix_stem X) suggest [] XAP_PARTWORD_PREFIX ws \<union>
     (if name \<noteq> [] then text_terms (ix_stem X) name XAP_NAMEFULL_PREFIX XAP_NAMEPART_PREFIX ws else {}) \<union>
     (if Split_Space name \<noteq> [] then text_terms (ix_stem X) (hd (Split_Space name)) XAP_BEGINFULL_PREFIX XAP_BEGINPART_PREFIX ws else {}) \<union>
     doc_terms d"
  by (auto simp: index_texts_def Let_def doc_terms_IndexWithPart hd_conv_nth)

lemmas doc_terms_create = CreateDoc_def CreateDoc_local_def CreateDoc_wiki_def Let_def doc_terms_values doc_terms_IndexGeo
  doc_terms_term_if doc_terms_tags doc_terms_categories doc_terms_texts

definition suggest_text :: "keytype \<Rightarrow> ItemDataT \<Rightarrow> string" where
  "suggest_text kt r = (if kt = K_LOCALDATA then suggest_local r else suggest_wiki r)"

lemma suggested_terms:
  "text_terms (ix_stem X) (suggest_text kt r) [] XAP_PARTWORD_PREFIX (item_lang r = LANG_EN) \<subseteq> doc_terms (CreateDoc X kt r)"
  by (auto simp: doc_terms_create suggest_text_def)

text \<open>The words of the text, their stems and their beginnings are terms.\<close>

lemma full_terms:
  assumes "w \<in> set (LowerNoQuote item)"
  shows "fp @ w \<in> text_terms kstem item fp pp ws" and "ws \<Longrightarrow> fp @ stem_word kstem w \<in> text_terms kstem item fp pp ws"
    and "0 < n \<Longrightarrow> pp @ take n w \<in> text_terms kstem item fp pp ws"
proof -
  from assms obtain i where i: "i < length (LowerNoQuote item)" "LowerNoQuote item ! i = w" by (auto simp: in_set_conv_nth)
  show word: "fp @ w \<in> text_terms kstem item fp pp ws"
    using i by (auto simp: text_terms_def full_postings_def Let_def)
  show "fp @ stem_word kstem w \<in> text_terms kstem item fp pp ws" if ws
  proof (cases "stem_word kstem w = w")
    case True
    then show ?thesis using word by simp
  next
    case False
    then have "(fp @ stem_word kstem w, Suc i) \<in> set (full_postings kstem (LowerNoQuote item) fp ws False i)"
      using i \<open>ws\<close> by (auto simp: full_postings_def Let_def stem_word_def split: if_splits)
    then show ?thesis using i(1) unfolding text_terms_def by force
  qed
  have "w \<noteq> []" using LowerNoQuote_clean [OF assms] by (simp add: clean_word_def)
  show "pp @ take n w \<in> text_terms kstem item fp pp ws" if "0 < n"
  proof -
    define j where "j = min n (length w) - 1"
    have "j < length w" "take n w = take (j + 1) w" using \<open>w \<noteq> []\<close> that by (cases w; auto simp: j_def min_def)+
    then have "(pp @ take n w, Suc i) \<in> set (part_postings (LowerNoQuote item) pp False i)"
      using i by (auto simp: part_postings_def)
    then show ?thesis using i(1) unfolding text_terms_def by force
  qed
qed

section \<open>What Xapian is asked, and what it promises\<close>

text \<open>The query parser takes a text of words, each after a plus, as the terms a document must have.\<close>

definition plain_term :: "string \<Rightarrow> bool" where
  "plain_term t \<longleftrightarrow> t \<noteq> [] \<and> length t \<le> 245 \<and> (\<forall>c\<in>set t. isdigit c \<or> islower c \<or> c = CHR ''_'')"

definition plus_query :: "string list \<Rightarrow> string" where
  "plus_query ts = concat (map (\<lambda>t. '' +'' @ t) ts)"

definition matching :: "xdb \<Rightarrow> string list \<Rightarrow> xdoc multiset" where
  "matching d ts = mset (filter (\<lambda>x. set ts \<subseteq> doc_terms x) (map snd d))"

definition mset_ok :: "searcher \<Rightarrow> bool" where
  "mset_ok X \<longleftrightarrow> (\<forall>d ts key down n. ts \<noteq> [] \<longrightarrow> list_all plain_term ts \<longrightarrow>
     (let m = sx_mset X d (plus_query ts) key down n in
      mset m \<subseteq># matching d ts \<and> length m = min n (size (matching d ts)) \<and>
      sorted_wrt (\<lambda>x y. if down then key y \<le> key x else key x \<le> key y) m \<and>
      (\<forall>x \<in># matching d ts - mset m. \<forall>y \<in> set m. if down then key x \<le> key y else key y \<le> key x)))"

lemma mset_okD:
  assumes "mset_ok X" and "ts \<noteq> []" and "list_all plain_term ts"
  shows "mset (sx_mset X d (plus_query ts) key down n) \<subseteq># matching d ts"
    "length (sx_mset X d (plus_query ts) key down n) = min n (size (matching d ts))"
    "\<forall>x \<in># matching d ts - mset (sx_mset X d (plus_query ts) key down n). \<forall>y \<in> set (sx_mset X d (plus_query ts) key down n).
       if down then key x \<le> key y else key y \<le> key x"
    "set (sx_mset X d (plus_query ts) key down n) \<subseteq> {x \<in> snd ` set d. set ts \<subseteq> doc_terms x}"
proof -
  let ?m = "sx_mset X d (plus_query ts) key down n"
  from assms show m: "mset ?m \<subseteq># matching d ts" "length ?m = min n (size (matching d ts))"
    "\<forall>x \<in># matching d ts - mset ?m. \<forall>y \<in> set ?m. if down then key x \<le> key y else key y \<le> key x"
    unfolding mset_ok_def Let_def by blast+
  show "set ?m \<subseteq> {x \<in> snd ` set d. set ts \<subseteq> doc_terms x}" using set_mset_mono [OF m(1)] by (auto simp: matching_def)
qed

lemma mset_ok_found:
  assumes "mset_ok X" and "ts \<noteq> []" and "list_all plain_term ts" and "(i, x) \<in> set d" and "set ts \<subseteq> doc_terms x"
  shows "x \<in> set (sx_mset X d (plus_query ts) key down n) \<or>
    length (sx_mset X d (plus_query ts) key down n) = n \<and>
      (\<forall>y \<in> set (sx_mset X d (plus_query ts) key down n). if down then key x \<le> key y else key y \<le> key x)"
proof -
  let ?m = "sx_mset X d (plus_query ts) key down n"
  note m = mset_okD [OF assms(1-3), of d key down n]
  have x: "x \<in># matching d ts" using assms(4,5) by (force simp: matching_def)
  show "x \<in> set ?m \<or> length ?m = n \<and> (\<forall>y \<in> set ?m. if down then key x \<le> key y else key y \<le> key x)"
  proof (cases "x \<in> set ?m")
    case False
    then have "count (mset ?m) x = 0" by (simp only: count_mset_0_iff not_False_eq_True)
    moreover have "0 < count (matching d ts) x" using x by (simp only: count_greater_zero_iff)
    ultimately have r: "x \<in># matching d ts - mset ?m" by (simp only: in_diff_count)
    then have "size (matching d ts - mset ?m) \<noteq> 0" by auto
    then have "length ?m < size (matching d ts)" using size_Diff_submset [OF m(1)] by simp
    with m(2) have "length ?m = n" by simp
    with m(3) r show ?thesis by blast
  qed simp
qed

section \<open>The items found\<close>

lemma doc_values:
  "xd_values (CreateDoc X kt r) XAP_ROCKSID_POS = to_dec (unat (item_id r))"
  "xd_values (CreateDoc X kt r) XAP_IMPORTANCE_POS = ix_serialise X (item_importance r)"
  by (simp_all add: CreateDoc_def CreateDoc_local_def CreateDoc_wiki_def Let_def index_values_def add_value_def add_term_def
      XAP_ROCKSID_POS_def XAP_IMPORTANCE_POS_def XAP_UNIQUEID_POS_def)

lemma lexical_to_dec: "lexical_uint64 (to_dec (unat i)) = Inr i"
  using to_dec_value [of "unat i"] unat64_less [of i] by (simp add: lexical_uint64_def dec_value_def [symmetric])

definition item_docs :: "indexer \<Rightarrow> xdoc set \<Rightarrow> bool" where
  "item_docs X D \<longleftrightarrow> (\<forall>x \<in> D. \<exists>kt r. x = CreateDoc X kt r)"

definition doc_id :: "xdoc \<Rightarrow> 64 word" where
  "doc_id x = (case lexical_uint64 (xd_values x XAP_ROCKSID_POS) of Inl _ \<Rightarrow> 0 | Inr i \<Rightarrow> i)"

lemma doc_id_item [simp]: "doc_id (CreateDoc X kt r) = item_id r"
  by (simp add: doc_id_def doc_values lexical_to_dec)

lemma add_found_run:
  assumes "item_docs X (set m)"
  shows "foldR (add_found key) m qr = Inr (qr\<lparr>up_ids := up_ids qr @ map doc_id m, up_sortkeys := up_sortkeys qr @ map key m\<rparr>)"
  using assms
proof (induction m arbitrary: qr)
  case (Cons x m)
  then obtain kt r where "x = CreateDoc X kt r" by (auto simp: item_docs_def)
  with Cons show ?case by (simp add: add_found_def doc_values lexical_to_dec item_docs_def)
qed simp

text \<open>A request that asks for nothing but words\<close>

definition words_only :: "UsedParamsT \<Rightarrow> bool" where
  "words_only qr \<longleftrightarrow> up_extra qr = [] \<and> up_filter_categories qr = [] \<and> up_filter_tags qr = [] \<and> \<not> up_use_name qr \<and>
     \<not> up_all_partial qr \<and> up_ids qr = [] \<and> up_sortkeys qr = [] \<and> up_scores qr = []"

definition word_terms :: "bool \<Rightarrow> string list \<Rightarrow> string list" where
  "word_terms partial ws = map (\<lambda>i. if partial \<and> i = length ws - 1 then XAP_PARTWORD_PREFIX @ ws ! i else ws ! i) [0..<length ws]"

lemma find_query_words: "words_only qr \<Longrightarrow> find_query qr ws = plus_query (word_terms (up_last_partial qr) ws)"
  by (simp add: words_only_def find_query_def GetQueryString_def plus_query_def word_terms_def comp_def)
    (auto intro!: arg_cong [where f = concat])

text \<open>Words that are not merged: no word repeats the one before it, and of two neighbours one is longer than a character\<close>

definition apart :: "string list \<Rightarrow> bool" where
  "apart ws \<longleftrightarrow> (\<forall>i. Suc i < length ws \<longrightarrow> ws ! Suc i \<noteq> ws ! i \<and> (1 < length (ws ! Suc i) \<or> 1 < length (ws ! i)))"

lemma merge_loop_apart: "apart (p # ws) \<Longrightarrow> merge_loop p ws = p # ws"
proof (induction ws arbitrary: p)
  case (Cons w ws)
  then have "w \<noteq> p \<and> (1 < length w \<or> 1 < length p)" unfolding apart_def by force
  moreover from Cons.prems have "apart (w # ws)" unfolding apart_def by (metis Suc_less_eq length_Cons nth_Cons_Suc)
  ultimately show ?case using Cons.IH by (auto simp: XAP_MERGE_LIMIT_def)
qed simp

lemma SplitMerge_apart: "apart (LowerNoQuote s) \<Longrightarrow> SplitMerge s = LowerNoQuote s"
  by (cases "LowerNoQuote s") (simp_all add: SplitMerge_def merge_loop_apart)

lemma FindFull_run:
  assumes "dirs (db_number (up_lang qr) (up_dtyp qr)) = Some d" and "words_only qr" and "mset_ok X" and "item_docs Y (snd ` set d)"
    and "SplitMerge (up_query qr) = ws" and "ws \<noteq> []" and "list_all plain_term (word_terms (up_last_partial qr) ws)"
    and m: "m = sx_mset X d (plus_query (word_terms (up_last_partial qr) ws)) importance_key True (unat (up_items qr))"
  shows "FindFull X dirs qr = Inr (m \<noteq> [], qr\<lparr>up_ids := map doc_id m, up_sortkeys := map importance_key m\<rparr>)"
proof -
  have "word_terms (up_last_partial qr) ws \<noteq> []" using assms(6) by (simp add: word_terms_def)
  from mset_okD(4) [OF assms(3) this assms(7)] assms(4) m have "item_docs Y (set m)" unfolding item_docs_def by blast
  from add_found_run [OF this, of importance_key qr] assms(1,2,5,6) m show ?thesis
    by (simp add: FindFull_def ReadIndex_Get_def find_query_words Let_def words_only_def)
qed

section \<open>Typed words\<close>

text \<open>The words typed occur in a text, the last one perhaps as the beginning of a word.\<close>

definition words_in :: "bool \<Rightarrow> string list \<Rightarrow> string list \<Rightarrow> bool" where
  "words_in partial ws text \<longleftrightarrow> ws \<noteq> [] \<and> (\<forall>i<length ws.
     if partial \<and> i = length ws - 1 then \<exists>w \<in> set text. \<exists>n. ws ! i = take n w else ws ! i \<in> set text)"

lemma length_stemmed [simp]: "length (stemmed kstem notlast ws) = length ws"
  by (induction ws) simp_all

lemma nth_stemmed:
  "i < length ws \<Longrightarrow> stemmed kstem notlast ws ! i = (if notlast \<and> i = length ws - 1 then ws ! i else stem_word kstem (ws ! i))"
proof (induction ws arbitrary: i)
  case (Cons w ws)
  show ?case
  proof (cases i)
    case (Suc j)
    with Cons.prems have "ws \<noteq> []" "j < length ws" by auto
    with Suc Cons.IH [of j] show ?thesis by (cases ws) auto
  qed (use Cons.prems in auto)
qed simp

lemma plain_clean: "clean_word w \<Longrightarrow> length w \<le> 240 \<Longrightarrow> plain_term w \<and> plain_term (XAP_PARTWORD_PREFIX @ w)"
  by (auto simp: plain_term_def clean_word_def isalnum_def XAP_PARTWORD_PREFIX_def islower_def isdigit_def)

lemma word_terms_plain:
  assumes "\<forall>w \<in> set ws. clean_word w \<and> length w \<le> 240"
  shows "list_all plain_term (word_terms partial ws)"
  using assms plain_clean by (auto simp: word_terms_def list_all_iff)

text \<open>The terms of the typed words, stemmed, are terms of the document of an English item.\<close>

lemma typed_terms:
  assumes "words_in partial ws (LowerNoQuote (suggest_text kt r))" and "item_lang r = LANG_EN" and "\<forall>w \<in> set ws. clean_word w"
  shows "set (word_terms partial (stemmed (ix_stem X) partial ws)) \<subseteq> doc_terms (CreateDoc X kt r)"
proof
  fix t assume "t \<in> set (word_terms partial (stemmed (ix_stem X) partial ws))"
  then obtain i where i: "i < length ws" and t: "t = (if partial \<and> i = length ws - 1 then XAP_PARTWORD_PREFIX @ ws ! i else stem_word (ix_stem X) (ws ! i))"
    by (auto simp: word_terms_def nth_stemmed split: if_splits)
  have "t \<in> text_terms (ix_stem X) (suggest_text kt r) [] XAP_PARTWORD_PREFIX (item_lang r = LANG_EN)"
  proof (cases "partial \<and> i = length ws - 1")
    case True
    with assms(1) i obtain w n where w: "w \<in> set (LowerNoQuote (suggest_text kt r))" "ws ! i = take n w" unfolding words_in_def by metis
    have "clean_word (ws ! i)" using assms(3) i by simp
    with w(2) have "0 < n" by (cases n) (simp_all add: clean_word_def)
    from full_terms(3) [OF w(1) this] True w(2) t show ?thesis by simp
  next
    case False
    with assms(1) i have "ws ! i \<in> set (LowerNoQuote (suggest_text kt r))" unfolding words_in_def by metis
    from full_terms(2) [OF this, of True "[]"] False assms(2) t show ?thesis by auto
  qed
  with suggested_terms show "t \<in> doc_terms (CreateDoc X kt r)" by blast
qed

text \<open>A rule without special demands\<close>

definition default_rule :: "QueryRuleT \<Rightarrow> bool" where
  "default_rule rule \<longleftrightarrow> qr_input_type rule = I_DEFAULT \<and> qr_limit_type rule = 0 \<and> qr_search_type rule = 0 \<and> qr_order_type rule = 0"

lemma add_scores_frame:
  "up_ids (fold (\<lambda>i q. add_score X ot (up_sortkeys q ! i) q) is p) = up_ids p"
  "up_sortkeys (fold (\<lambda>i q. add_score X ot (up_sortkeys q ! i) q) is p) = up_sortkeys p"
  "length (up_scores (fold (\<lambda>i q. add_score X ot (up_sortkeys q ! i) q) is p)) = length (up_scores p) + length is"
  by (induction "is" arbitrary: p) (simp_all add: add_score_def Let_def)

definition rule_params :: "UsedParamsT \<Rightarrow> QueryRuleT \<Rightarrow> UsedParamsT" where
  "rule_params p rule =
     (let p1 = p\<lparr>up_items := KeepInBound (qr_max_records rule) 1 (up_items p)\<rparr>;
          p2 = (if qr_distance_def rule > 0 then p1\<lparr>up_distance_def := qr_distance_def rule\<rparr> else p1);
          p3 = (if qr_distance_band rule > 0 then p2\<lparr>up_distance_band := qr_distance_band rule\<rparr> else p2)
      in p3\<lparr>up_extra := []\<rparr>)"

lemma RuleSearch_default:
  assumes "default_rule rule" and "FindFull X dirs (rule_params p rule) = Inr (b, q)"
    and "length (up_ids q) = length (up_sortkeys q)" and "up_scores q = []"
  shows "\<exists>p'. RuleSearch X dirs p rule = Inr (True, p') \<and> up_ids p' = up_ids q \<and> up_sortkeys p' = up_sortkeys q"
proof -
  have o: "O_DIST_BAND \<noteq> 0" "O_DIST_ONLY \<noteq> 0" "S_BEGINWITH \<noteq> 0" "I_ONEWORD \<noteq> I_DEFAULT" "S_PARTIAL \<noteq> 0" "S_FULLWORD \<noteq> 0" "S_NAME \<noteq> 0"
    "limit_extra p3 0 = Some []" for p3
    by (simp_all add: O_DIST_BAND_def O_DIST_ONLY_def S_BEGINWITH_def I_ONEWORD_def I_DEFAULT_def S_PARTIAL_def S_FULLWORD_def S_NAME_def
        limit_extra_def Let_def L_CCODE_def L_CITY_def L_PINCODE_def L_GEOHASH3_def L_GEOHASH5_def L_GEOHASH7_def L_GEOHASH9_def L_NBRHASH3_def L_NBRHASH5_def)
  have "RuleSearch X dirs p rule = bindR (FindFull X dirs (rule_params p rule)) (\<lambda>(_, p5). rule_scores X 0 p5)"
    using assms(1) o by (simp add: RuleSearch_def default_rule_def rule_params_def search_type_def Let_def)
  moreover have "\<exists>p'. rule_scores X 0 q = Inr (True, p') \<and> up_ids p' = up_ids q \<and> up_sortkeys p' = up_sortkeys q"
    using assms(3,4) by (simp add: rule_scores_def Let_def add_scores_frame)
  ultimately show ?thesis using assms(2) by auto
qed

lemma prepared:
  assumes "\<not> up_full_words p" and "stems (ix_stem X)"
  shows "LowerNoQuote (up_query (fst (prepare_query X p))) =
      stemmed (ix_stem X) (back_char X (up_raw_query p) \<noteq> CHR '' '') (LowerNoQuote (up_raw_query p))"
    and "up_last_partial (fst (prepare_query X p)) \<longleftrightarrow> back_char X (up_raw_query p) \<noteq> CHR '' ''"
    and "words_only p \<Longrightarrow> words_only (fst (prepare_query X p))" "up_items (fst (prepare_query X p)) = up_items p"
    "up_lang (fst (prepare_query X p)) = up_lang p" "up_dtyp (fst (prepare_query X p)) = up_dtyp p"
  using assms StemQuery_words FlattenCount_words(1) [of "up_raw_query p"]
  by (auto simp: prepare_query_def Let_def words_only_def split: prod.split)

lemma rule_params_frame:
  "up_query (rule_params p rule) = up_query p" "up_last_partial (rule_params p rule) = up_last_partial p"
  "up_items (rule_params p rule) = KeepInBound (qr_max_records rule) 1 (up_items p)" "up_lang (rule_params p rule) = up_lang p"
  "up_dtyp (rule_params p rule) = up_dtyp p" "words_only p \<Longrightarrow> words_only (rule_params p rule)"
  by (simp_all add: rule_params_def Let_def words_only_def)

text \<open>What a search by words gives: ids of documents that have the terms, and the id of the item, or as many ids as were asked
  for, of items at least as important.\<close>

definition gives_item :: "searcher \<Rightarrow> xdb \<Rightarrow> string list \<Rightarrow> nat \<Rightarrow> ItemDataT \<Rightarrow> (bool \<times> UsedParamsT) res \<Rightarrow> bool" where
  "gives_item X d ts n r res \<longleftrightarrow> (\<exists>p. res = Inr (True, p) \<and>
     (\<forall>i \<in> set (up_ids p). \<exists>x \<in> snd ` set d. doc_id x = i \<and> set ts \<subseteq> doc_terms x) \<and>
     (item_id r \<in> set (up_ids p) \<or>
      length (up_ids p) = n \<and> (\<forall>k \<in> set (up_sortkeys p). ix_serialise X (item_importance r) \<le> k)))"

lemma typed_words_found':
  fixes X :: searcher and p :: UsedParamsT
  defines "partial \<equiv> back_char X (up_raw_query p) \<noteq> CHR '' ''" and "ws \<equiv> LowerNoQuote (up_raw_query p)"
  assumes "mset_ok X" and "stems (ix_stem X)" and "words_only p" and "\<not> up_full_words p" and "default_rule rule"
    and "dirs (db_number (up_lang p) (up_dtyp p)) = Some d" and "item_docs Y (snd ` set d)"
    and "(t, CreateDoc Y kt r) \<in> set d" and "ix_stem Y = ix_stem X" and "ix_serialise Y = ix_serialise X" and "item_lang r = LANG_EN"
    and "words_in partial ws (LowerNoQuote (suggest_text kt r))"
    and "apart (stemmed (ix_stem X) partial ws)" and "\<forall>w \<in> set (stemmed (ix_stem X) partial ws). length w \<le> 240"
  shows "gives_item X d (word_terms partial (stemmed (ix_stem X) partial ws)) (unat (KeepInBound (qr_max_records rule) 1 (up_items p))) r
    (RuleSearch X dirs (fst (prepare_query X p)) rule)"
proof -
  let ?q = "rule_params (fst (prepare_query X p)) rule" and ?qs = "stemmed (ix_stem X) partial ws"
  let ?ts = "word_terms partial ?qs" and ?n = "unat (KeepInBound (qr_max_records rule) 1 (up_items p))"
  let ?m = "sx_mset X d (plus_query ?ts) importance_key True ?n"
  note pr = prepared [OF assms(6,4), folded partial_def ws_def]
  have w: "\<forall>w \<in> set ws. clean_word w" by (simp add: ws_def LowerNoQuote_clean)
  have "clean_word (?qs ! i)" if "i < length ws" for i
    using that w stem_word_clean [OF assms(4)] by (simp add: nth_stemmed)
  with assms(16) have "\<forall>w \<in> set ?qs. clean_word w \<and> length w \<le> 240" by (auto simp: in_set_conv_nth)
  then have pl: "list_all plain_term ?ts" by (rule word_terms_plain)
  have ne: "?ts \<noteq> []" "?qs \<noteq> []" using assms(14) by (auto simp: word_terms_def words_in_def dest: arg_cong [where f = length])
  have "SplitMerge (up_query ?q) = ?qs"
    using SplitMerge_apart [of "up_query ?q"] assms(15) pr(1) by (simp add: rule_params_frame)
  moreover have "words_only ?q" using pr(3) assms(5) rule_params_frame(6) by blast
  ultimately have f: "FindFull X dirs ?q = Inr (?m \<noteq> [], ?q\<lparr>up_ids := map doc_id ?m, up_sortkeys := map importance_key ?m\<rparr>)"
    using assms(8) ne(2) pl by (intro FindFull_run [OF _ _ assms(3,9)]) (simp_all add: rule_params_frame pr)
  from \<open>words_only ?q\<close> have "up_scores ?q = []" by (simp add: words_only_def)
  with RuleSearch_default [OF assms(7) f] obtain p' where p': "RuleSearch X dirs (fst (prepare_query X p)) rule = Inr (True, p')"
    "up_ids p' = map doc_id ?m" "up_sortkeys p' = map importance_key ?m" by auto
  have "set ?ts \<subseteq> doc_terms (CreateDoc Y kt r)"
    using typed_terms [OF assms(14,13) w, of Y] assms(11) by simp
  from mset_ok_found [OF assms(3) ne(1) pl assms(10) this, of importance_key True ?n]
  have "item_id r \<in> set (up_ids p') \<or> length (up_ids p') = ?n \<and> (\<forall>k \<in> set (up_sortkeys p'). ix_serialise X (item_importance r) \<le> k)"
    by (auto simp: p' importance_key_def doc_values assms(12) intro!: image_eqI [where x = "CreateDoc Y kt r"])
  moreover have "\<forall>i \<in> set (up_ids p'). \<exists>x \<in> snd ` set d. doc_id x = i \<and> set ?ts \<subseteq> doc_terms x"
    using mset_okD(4) [OF assms(3) ne(1) pl, of d importance_key True ?n] by (auto simp: p')
  ultimately show ?thesis using p'(1) unfolding gives_item_def by blast
qed

section \<open>Places nearby\<close>

text \<open>A shorter name is the beginning of a longer one.\<close>

lemma Encode_take:
  assumes "allowed lat lon" and "1 \<le> m" and "m \<le> n" and "n \<le> 12" and "Encode lat lon n = Inr h"
  shows "Encode lat lon m = Inr (take m h)"
proof -
  from assms(1) have r: "- 180 \<le> lon" "lon \<le> 180" "- 90 \<le> lat" "lat \<le> 90" by (simp_all add: allowed_def)
  define out where "out k = en_out (fold (Encode_bit lat lon) [1..<5 * k + 1] Encode_start)" for k
  have step: "\<exists>c. out (Suc k) = out k @ [c]" and len: "length (out k) = k" for k
  proof -
    obtain x where x: "length x = k" and e: "encoded lat lon x (fold (Encode_bit lat lon) [1..<5 * k + 1] Encode_start)"
      using Encode_run [OF r] by blast
    have u: "[1..<5 * Suc k + 1] = [1..<5 * k + 1] @ [5 * k + 1..<5 * Suc k + 1]"
      using upt_add_eq_append [of 1 "5 * k + 1" 5] by (simp add: algebra_simps del: upt.simps upt_rec_numeral)
    obtain c where "encoded lat lon (x @ [c]) (fold (Encode_bit lat lon) [5 * length x + 1..<5 * Suc (length x) + 1]
        (fold (Encode_bit lat lon) [1..<5 * k + 1] Encode_start))" using Encode_char [OF e] .
    then have "out (Suc k) = x @ [c]" unfolding out_def u by (simp add: encoded_def x del: upt.simps upt_rec_numeral)
    moreover have "out k = x" using e by (simp add: out_def encoded_def del: upt.simps upt_rec_numeral)
    ultimately show "\<exists>c. out (Suc k) = out k @ [c]" "length (out k) = k" using x by simp_all
  qed
  have "take m (out (m + d)) = out m" for d
  proof (induction d)
    case (Suc d)
    obtain c where "out (Suc (m + d)) = out (m + d) @ [c]" using step by blast
    with Suc len [of "m + d"] show ?case by simp
  qed (simp add: len)
  from this [of "n - m"] assms(3) have t: "take m (out n) = out m" by simp
  have "Encode lat lon k = Inr (out k)" if "1 \<le> k" "k \<le> 12" for k
    using that assms(1) by (simp add: Encode_def out_def allowed_def ZPDS_ALLOWED_MAX_LON_def ZPDS_ALLOWED_MIN_LON_def
        ZPDS_ALLOWED_MAX_LAT_def ZPDS_ALLOWED_MIN_LAT_def Let_def mult.commute del: upt.simps upt_rec_numeral)
  with assms(2-5) t show ?thesis by (metis dual_order.trans sum.inject(2))
qed

lemma geohash_term: "geohash g \<Longrightarrow> FormatPrefix g pre = pre @ g"
proof -
  have "list_all (\<lambda>c. isalnum c \<and> tolower c = c) char_map" by code_simp
  then have c: "isalnum c \<and> tolower c = c" if "c \<in> set char_map" for c using that by (simp add: list_all_iff)
  assume "geohash g"
  then have "\<forall>c\<in>set g. isalnum c \<and> tolower c = c" using c unfolding geohash_def by blast
  then have "filter isalnum g = g" "map tolower g = g" by (auto intro: map_idI)
  then show ?thesis by (simp add: FormatPrefix_def NoSpace_def)
qed

lemma text_terms_words:
  assumes "stems kstem" and "t \<in> text_terms kstem item fp pp ws"
  obtains w where "\<forall>c\<in>set w. isalnum c" and "t = fp @ w \<or> t = pp @ w"
proof -
  have cl: "\<forall>c\<in>set (LowerNoQuote item ! i). isalnum c" "\<forall>c\<in>set (StemWord kstem (LowerNoQuote item ! i)). isalnum c"
    if "i < length (LowerNoQuote item)" for i
  proof -
    have "clean_word (LowerNoQuote item ! i)" using that by (intro LowerNoQuote_clean [of _ item] nth_mem)
    moreover from clean_take [OF this, of 25] assms(1) have "clean_word (StemWord kstem (LowerNoQuote item ! i))"
      unfolding StemWord_def stems_def by simp
    ultimately show "\<forall>c\<in>set (LowerNoQuote item ! i). isalnum c" "\<forall>c\<in>set (StemWord kstem (LowerNoQuote item ! i)). isalnum c"
      unfolding clean_word_def by blast+
  qed
  from assms(2) obtain i where i: "i < length (LowerNoQuote item)"
    and t: "t \<in> fst ` set (full_postings kstem (LowerNoQuote item) fp ws False i) \<or> t \<in> fst ` set (part_postings (LowerNoQuote item) pp False i)"
    unfolding text_terms_def by blast
  from t have "\<exists>w. (\<forall>c\<in>set w. isalnum c) \<and> (t = fp @ w \<or> t = pp @ w)"
  proof
    assume "t \<in> fst ` set (full_postings kstem (LowerNoQuote item) fp ws False i)"
    then have "t = fp @ LowerNoQuote item ! i \<or> t = fp @ StemWord kstem (LowerNoQuote item ! i) \<or>
        t = fp @ LowerNoQuote item ! (i - 1) @ LowerNoQuote item ! i"
      by (auto simp: full_postings_def Let_def split: if_splits)
    moreover have "\<forall>c\<in>set (LowerNoQuote item ! (i - 1) @ LowerNoQuote item ! i). isalnum c" using cl(1) [of i] cl(1) [of "i - 1"] i by auto
    ultimately show ?thesis using cl [OF i] by blast
  next
    assume "t \<in> fst ` set (part_postings (LowerNoQuote item) pp False i)"
    then obtain j where "t = pp @ take j (LowerNoQuote item ! i)" by (auto simp: part_postings_def)
    moreover have "\<forall>c\<in>set (take j (LowerNoQuote item ! i)). isalnum c" using cl(1) [OF i] by (auto dest: in_set_takeD)
    ultimately show ?thesis by blast
  qed
  with that show thesis by blast
qed

lemma text_terms_no_place:
  assumes "stems kstem" and "fp = [] \<or> hd fp < CHR ''i''" and "pp \<noteq> []" and "hd pp < CHR ''i''"
  shows "XAP_NBRHASH5_PREFIX @ x \<notin> text_terms kstem item fp pp ws"
proof
  assume "XAP_NBRHASH5_PREFIX @ x \<in> text_terms kstem item fp pp ws"
  from text_terms_words [OF assms(1) this] obtain w where w: "\<forall>c\<in>set w. isalnum c"
    and t: "CHR ''o'' # CHR ''_'' # x = fp @ w \<or> CHR ''o'' # CHR ''_'' # x = pp @ w"
    by (auto simp: XAP_NBRHASH5_PREFIX_def)
  have n: "\<not> isalnum CHR ''_''" by (simp add: isalnum_def isdigit_def isupper_def islower_def)
  have o: "\<not> CHR ''o'' < CHR ''i''" by (simp add: less_char_def)
  from t show False
  proof
    assume "CHR ''o'' # CHR ''_'' # x = fp @ w"
    with assms(2) w n o show False by (cases fp) auto
  next
    assume "CHR ''o'' # CHR ''_'' # x = pp @ w"
    with assms(3,4) o show False by (cases pp) auto
  qed
qed

lemma place_terms:
  assumes "stems (ix_stem X)" and t: "t = XAP_NBRHASH5_PREFIX @ x"
  shows "t \<in> doc_terms (CreateDoc X kt r) \<longleftrightarrow> t \<in> geo_terms (item_lat r) (item_lon r)"
proof -
  have h: "hd XAP_PARTWORD_PREFIX < CHR ''i''" "hd XAP_NAMEFULL_PREFIX < CHR ''i''" "hd XAP_NAMEPART_PREFIX < CHR ''i''"
    "hd XAP_BEGINFULL_PREFIX < CHR ''i''" "hd XAP_BEGINPART_PREFIX < CHR ''i''"
    "XAP_PARTWORD_PREFIX \<noteq> []" "XAP_NAMEPART_PREFIX \<noteq> []" "XAP_BEGINPART_PREFIX \<noteq> []"
    by (simp_all add: prefixes less_char_def)
  have n: "t \<notin> text_terms (ix_stem X) item [] XAP_PARTWORD_PREFIX ws" "t \<notin> text_terms (ix_stem X) item XAP_NAMEFULL_PREFIX XAP_NAMEPART_PREFIX ws"
    "t \<notin> text_terms (ix_stem X) item XAP_BEGINFULL_PREFIX XAP_BEGINPART_PREFIX ws" for item ws
    unfolding t using text_terms_no_place [OF assms(1)] h by blast+
  have p: "t \<noteq> XAP_PINCODE_PREFIX @ y" "t \<noteq> XAP_CITY_PREFIX @ y" "t \<noteq> XAP_CCODE_PREFIX @ y" "t \<noteq> XAP_CATEGORY_PREFIX @ y"
    "t \<noteq> XAP_TAG_PREFIX @ y" "t \<noteq> idterm r" for y
    by (simp_all add: t prefixes idterm_def)
  have i: "t \<notin> (@) XAP_CATEGORY_PREFIX ` A" "t \<notin> (\<lambda>z. XAP_TAG_PREFIX @ g z) ` B" for A g B
    using p(4,5) by auto
  have texts: "t \<in> doc_terms (index_texts X ws suggest name d) \<longleftrightarrow> t \<in> doc_terms d" for ws suggest name d
    using n by (simp add: doc_terms_texts)
  have "t \<in> doc_terms (CreateDoc_local X r) \<longleftrightarrow> t \<in> geo_terms (item_lat r) (item_lon r)"
    by (simp add: p i CreateDoc_local_def Let_def doc_terms_values doc_terms_IndexGeo doc_terms_term_if doc_terms_tags doc_terms_categories texts FormatPrefix_def)
  moreover have "t \<in> doc_terms (CreateDoc_wiki X r) \<longleftrightarrow> t \<in> geo_terms (item_lat r) (item_lon r)"
    by (simp add: p i CreateDoc_wiki_def Let_def doc_terms_values doc_terms_IndexGeo doc_terms_term_if doc_terms_tags doc_terms_categories texts FormatPrefix_def)
  ultimately show ?thesis by (simp add: CreateDoc_def)
qed

text \<open>C28: a rule that asks for the vicinity finds an item by the cells of five characters: if and only if the cell of the item is that of
  the searcher, or it is one or two cells away and the cells around the cell of the item up to that distance lie
  all within the same one of the 32 cells named by one character.\<close>

theorem near_items_found:
  assumes "stems (ix_stem X)" and "allowed (item_lat r) (item_lon r)" and "item_lat r \<noteq> 0 \<or> item_lon r \<noteq> 0"
    and "allowed lat lon" and "Encode (item_lat r) (item_lon r) 5 = Inr h" and "Encode lat lon 9 = Inr (pl_geohash (up_location p))"
    and "\<not> pl_dont_use (up_location p)"
  shows "\<exists>g t. Encode lat lon 5 = Inr g \<and> limit_extra p L_NBRHASH5 = Some ('' +'' @ t) \<and>
    (t \<in> doc_terms (CreateDoc X kt r) \<longleftrightarrow> cell h = cell g \<or>
       cell_dist (cell h) (cell g) = 1 \<and> fits h 1 \<or> cell_dist (cell h) (cell g) = 2 \<and> fits h 2)"
proof -
  let ?g = "take 5 (pl_geohash (up_location p))" and ?t = "XAP_NBRHASH5_PREFIX @ take 5 (pl_geohash (up_location p))"
  obtain h9 where h9: "Encode (item_lat r) (item_lon r) 9 = Inr h9" using Encode_in_cell [OF assms(2), of 9] by auto
  from Encode_take [OF assms(2) _ _ _ this, of 5] assms(5) have h: "h = take 5 h9" by simp
  have g5: "Encode lat lon 5 = Inr ?g" by (rule Encode_take [OF assms(4) _ _ _ assms(6)]) simp_all
  have gh: "geohash ?g" "length ?g = 5" "geohash h" "length h = 5"
    using Encode_iff [OF assms(4), of 5 ?g] g5 Encode_iff [OF assms(2), of 5 h] assms(5) by simp_all
  have fp: "FormatPrefix x pre = pre @ x" if "geohash x" for x pre by (rule geohash_term [OF that])
  have l: "limit_extra p L_NBRHASH5 = Some ('' +'' @ ?t)"
    using assms(7) fp [OF gh(1)]
    by (simp add: limit_extra_def Let_def L_CCODE_def L_CITY_def L_PINCODE_def L_GEOHASH3_def L_GEOHASH5_def L_GEOHASH7_def
        L_GEOHASH9_def L_NBRHASH3_def L_NBRHASH5_def)
  have ring: "set (GetNeighbours h n) = (if fits h n then {g. geohash g \<and> length g = 5 \<and> cell_dist (cell h) (cell g) = int n} else {})"
    if "0 < n" for n using GetNeighbours_ring(2) [OF gh(3) that] gh(4) by simp
  have c: "geohash h9" using Encode_iff [OF assms(2), of 9 h9] h9 by simp
  have other: "?t \<noteq> FormatPrefix x pre" if "pre \<in> {XAP_GEOHASH3_PREFIX, XAP_GEOHASH5_PREFIX, XAP_GEOHASH7_PREFIX, XAP_GEOHASH9_PREFIX, XAP_NBRHASH3_PREFIX}" for x pre
    using that by (auto simp: FormatPrefix_def prefixes)
  let ?C = "insert h (set (GetNeighbours h 1) \<union> set (GetNeighbours h 2))"
  have "?t \<in> geo_terms (item_lat r) (item_lon r) \<longleftrightarrow> ?t \<in> (\<lambda>x. FormatPrefix x XAP_NBRHASH5_PREFIX) ` ?C"
    using assms(3) other by (auto simp: geo_terms_def h9 h)
  also have "\<dots> \<longleftrightarrow> ?g \<in> ?C"
  proof -
    have "(\<lambda>x. FormatPrefix x XAP_NBRHASH5_PREFIX) ` ?C = (\<lambda>x. XAP_NBRHASH5_PREFIX @ x) ` ?C"
      using gh(3) by (intro image_cong refl fp) (auto simp: ring split: if_splits)
    then show ?thesis by auto
  qed
  also have "?g = h \<longleftrightarrow> cell h = cell ?g" using cell_inject [of h ?g] gh by auto
  then have "?g \<in> ?C \<longleftrightarrow> cell h = cell ?g \<or> cell_dist (cell h) (cell ?g) = 1 \<and> fits h 1 \<or> cell_dist (cell h) (cell ?g) = 2 \<and> fits h 2"
    using gh by (auto simp: ring)
  finally show ?thesis using g5 l place_terms [OF assms(1) refl, of "?g" kt r] by blast
qed

end
