(* ===== verification/NodeSearch.thy ===== *)
theory NodeSearch
  imports NodeSamples SearchLaws SearchFinds
begin

text \<open>
  The search of a node: what is in the index is what is in the tables of items, and an item of the tables is found
  by the words of its text. A database, and a search engine, for the witnesses.
\<close>

section \<open>The index and the tables\<close>

text \<open>The table a kind of items is in\<close>

definition items_of :: "('b, 'd) env \<Rightarrow> keytype \<Rightarrow> ('b, 'd) shared \<Rightarrow> 64 word \<Rightarrow> ItemDataT option" where
  "items_of E kt s = (if kt = K_LOCALDATA then abs_table (LocalDataTable E) (kv_get E (db s))
     else abs_table (WikiDataTable E) (kv_get E (db s)))"

lemma index_items:
  assumes "sys_inv E g0 s" and "\<not> no_xapian s" and "kt \<in> index_kinds"
  shows "indexed kt (xaplog s) = items_of E kt s" and "\<forall>e \<in> set (xaplog s). adds_item e"
proof -
  have "index_ok E s" using sys_invD(4) [OF assms(1)] by (simp add: caches_ok_def)
  moreover have "K_LOCALDATA \<noteq> K_WIKIDATA" by (simp add: keytype_defs)
  ultimately show "indexed kt (xaplog s) = items_of E kt s" "\<forall>e \<in> set (xaplog s). adds_item e"
    using assms(2,3) by (auto simp: index_ok_def items_of_def index_kinds_def)
qed

lemma index_exact':
  assumes "sys_inv E g0 s" and "\<not> no_xapian s" and "kt \<in> index_kinds"
  shows "items_of E kt s i = Some r \<Longrightarrow> in_index X (xaplog s) kt (item_lang r) (idterm r) = Some (CreateDoc X kt r)"
    and "in_index X (xaplog s) kt l t = Some d \<Longrightarrow>
      \<exists>i r. items_of E kt s i = Some r \<and> t = idterm r \<and> (item_lang r = l \<longrightarrow> d = CreateDoc X kt r)"
  using in_index_indexed [OF index_items(2) [OF assms] assms(3)] unfolding index_items(1) [OF assms] by blast+

text \<open>C7: while the search is on, the index of a node is what its tables make of it. The document made of a record of
  an item stands in the database of its language, under its id; and every document in a database is the one made of a record of
  the tables, unless that record is now in another language (the document of the old one is not removed).\<close>

theorem index_exact:
  assumes "sys_inv E g0 s" and "\<not> no_xapian s" and "kt \<in> index_kinds"
  shows "(\<forall>i r. items_of E kt s i = Some r \<longrightarrow> in_index X (xaplog s) kt (item_lang r) (idterm r) = Some (CreateDoc X kt r)) \<and>
    (\<forall>l t d. in_index X (xaplog s) kt l t = Some d \<longrightarrow>
      (\<exists>i r. items_of E kt s i = Some r \<and> t = idterm r \<and> (item_lang r = l \<longrightarrow> d = CreateDoc X kt r)))"
  using index_exact' [OF assms] by blast

text \<open>A database holds one document for each of its items.\<close>

definition db_items :: "indexer \<Rightarrow> keytype \<Rightarrow> xdb \<Rightarrow> bool" where
  "db_items X kt d \<longleftrightarrow> distinct (map fst d) \<and> (\<forall>(t, x) \<in> set d. \<exists>r. t = idterm r \<and> x = CreateDoc X kt r)"

lemma db_items_AddOne: "db_items X kt d \<Longrightarrow> db_items X kt (AddOne (idterm r) (CreateDoc X kt r) d)"
  by (auto simp: db_items_def distinct_AddOne) (auto simp: AddOne_def split: if_splits)

lemma db_items_written:
  assumes "\<forall>e \<in> set evs. adds_item e" and "kt \<in> index_kinds"
  shows "db_items X kt (wi_written (index_of X evs) (db_number l (GetIndexType kt)))"
  using assms(1)
proof (induction evs rule: rev_induct)
  case Nil
  then show ?case by (simp add: index_of_def write_index_new_def db_items_def)
next
  case (snoc e evs)
  show ?case
  proof (cases e)
    case (XapAdd k r)
    with snoc.prems have "k \<in> index_kinds" by (simp add: index_kinds_def)
    with snoc XapAdd assms(2) show ?thesis
      by (auto simp: index_of_snoc Index_AddRecord_def WriteIndex_Update_def db_number_kinds db_items_AddOne)
  next
    case XapCommit
    with snoc show ?thesis by (simp add: index_of_snoc WriteIndex_CommitData_def)
  qed (use snoc.prems in simp)
qed

section \<open>Searching the items of a node\<close>

definition words_request :: "keytype \<Rightarrow> UsedParamsT \<Rightarrow> bool" where
  "words_request kt p \<longleftrightarrow> words_only p \<and> \<not> up_full_words p \<and> up_lang p = LANG_EN \<and> up_dtyp p = GetIndexType kt"

text \<open>The terms a request asks for, and the requests that type words of the text of an item: at least one, the last one perhaps
  begun only, none of more than 240 characters, no two neighbours that would be merged\<close>

definition asked_words :: "searcher \<Rightarrow> UsedParamsT \<Rightarrow> string list" where
  "asked_words X p = stemmed (ix_stem X) (back_char X (up_raw_query p) \<noteq> CHR '' '') (LowerNoQuote (up_raw_query p))"

definition asked_terms :: "searcher \<Rightarrow> UsedParamsT \<Rightarrow> string list" where
  "asked_terms X p = word_terms (back_char X (up_raw_query p) \<noteq> CHR '' '') (asked_words X p)"

definition types_words :: "searcher \<Rightarrow> keytype \<Rightarrow> ItemDataT \<Rightarrow> UsedParamsT \<Rightarrow> bool" where
  "types_words X kt r p \<longleftrightarrow>
     words_in (back_char X (up_raw_query p) \<noteq> CHR '' '') (LowerNoQuote (up_raw_query p)) (LowerNoQuote (suggest_text kt r)) \<and>
     apart (asked_words X p) \<and> (\<forall>w \<in> set (asked_words X p). length w \<le> 240)"

lemma read_all:
  assumes "last_commit evs = length evs" and "kt \<in> index_kinds"
  shows "read_dirs X flushed evs (db_number LANG_EN (GetIndexType kt)) =
    Some (wi_written (index_of (indexer.truncate X) evs) (db_number LANG_EN (GetIndexType kt)))"
  using assms by (auto simp: read_dirs_def index_kinds_def GetIndexType_def max_def)

text \<open>C4: an item of the tables is found by the words of its text. While the search is on and the index is committed, a
  request for words of the text of an English item, by a rule without special demands, gives the id of the item, or as many ids as the rule and the request
  allow, of items that are all at least as important; and every id it gives is one of an item of the tables, whose
  document has the words asked for if the item is in English now. The request: words only, no filter and not \<open>f=1\<close>
  (\<open>words_request\<close>); the words: whole words of the text, the last one perhaps begun only, which, stemmed, have at most 240
  characters and no two neighbours that the search would merge (\<open>types_words\<close>). So \<open>a b\<close> for the item \<open>A B Cafe\<close> is not
  covered: it is merged to the beginning \<open>ab\<close>, which does not find the item.\<close>

theorem items_found:
  assumes "sys_inv E g0 s" and "\<not> no_xapian s" and "kt \<in> index_kinds" and "last_commit (xaplog s) = length (xaplog s)"
    and "items_of E kt s i = Some r" and "item_lang r = LANG_EN"
    and "mset_ok X" and "stems (ix_stem X)" and "words_request kt p" and "types_words X kt r p" and "default_rule rule"
  shows "\<exists>q. RuleSearch X (read_dirs X flushed (xaplog s)) (fst (prepare_query X p)) rule = Inr (True, q) \<and>
    (\<forall>j \<in> set (up_ids q). \<exists>r'. items_of E kt s j = Some r' \<and>
       (item_lang r' = LANG_EN \<longrightarrow> set (asked_terms X p) \<subseteq> doc_terms (CreateDoc (indexer.truncate X) kt r'))) \<and>
    (i \<in> set (up_ids q) \<or> length (up_ids q) = unat (KeepInBound (qr_max_records rule) 1 (up_items p)) \<and>
       (\<forall>k \<in> set (up_sortkeys q). ix_serialise X (item_importance r) \<le> k))"
proof -
  let ?Y = "indexer.truncate X" and ?n = "db_number LANG_EN (GetIndexType kt)"
  let ?d = "wi_written (index_of ?Y (xaplog s)) ?n"
  note ix = index_items [OF assms(1-3)]
  have id: "item_id r' = i'" if "items_of E kt s i' = Some r'" for i' r' using indexed_id [OF ix(2), of kt i' r'] that ix(1) by simp
  have items: "db_items ?Y kt ?d" by (rule db_items_written [OF ix(2) assms(3)])
  have at: "in_index ?Y (xaplog s) kt LANG_EN t = Some x" if "(t, x) \<in> set ?d" for t x
    using items that by (simp add: in_index_def db_items_def)
  from index_exact'(1) [OF assms(1-3,5), of ?Y] assms(6) have mem: "(idterm r, CreateDoc ?Y kt r) \<in> set ?d"
    by (auto simp: in_index_def dest: map_of_SomeD)
  have docs: "item_docs ?Y (snd ` set ?d)" using items unfolding item_docs_def db_items_def by fastforce
  have req: "words_only p" "\<not> up_full_words p" "up_lang p = LANG_EN" "up_dtyp p = GetIndexType kt"
    using assms(9) by (simp_all add: words_request_def)
  have "gives_item X ?d (asked_terms X p) (unat (KeepInBound (qr_max_records rule) 1 (up_items p))) r
      (RuleSearch X (read_dirs X flushed (xaplog s)) (fst (prepare_query X p)) rule)"
    unfolding asked_terms_def asked_words_def
    using assms(10) by (intro typed_words_found' [OF assms(7,8) req(1,2) assms(11) _ docs mem])
      (simp_all add: types_words_def asked_words_def req read_all [OF assms(4,3)] assms(6) indexer.defs)
  then obtain q where q: "RuleSearch X (read_dirs X flushed (xaplog s)) (fst (prepare_query X p)) rule = Inr (True, q)"
    and ids: "\<forall>j \<in> set (up_ids q). \<exists>x \<in> snd ` set ?d. doc_id x = j \<and> set (asked_terms X p) \<subseteq> doc_terms x"
    and found: "item_id r \<in> set (up_ids q) \<or> length (up_ids q) = unat (KeepInBound (qr_max_records rule) 1 (up_items p)) \<and>
       (\<forall>k \<in> set (up_sortkeys q). ix_serialise X (item_importance r) \<le> k)"
    unfolding gives_item_def by blast
  have "\<exists>r'. items_of E kt s j = Some r' \<and> (item_lang r' = LANG_EN \<longrightarrow> set (asked_terms X p) \<subseteq> doc_terms (CreateDoc ?Y kt r'))"
    if "j \<in> set (up_ids q)" for j
  proof -
    from ids that obtain t x where x: "(t, x) \<in> set ?d" "doc_id x = j" "set (asked_terms X p) \<subseteq> doc_terms x" by force
    from index_exact'(2) [OF assms(1-3) at [OF x(1)]] obtain i' r' where r': "items_of E kt s i' = Some r'" "t = idterm r'"
      "item_lang r' = LANG_EN \<longrightarrow> x = CreateDoc ?Y kt r'" by blast
    from items x(1) obtain r'' where "t = idterm r''" "x = CreateDoc ?Y kt r''" by (auto simp: db_items_def)
    with r'(2) x(2) have "item_id r' = j" by (simp add: idterm_eq)
    with id [OF r'(1)] r' x(3) show ?thesis by auto
  qed
  with q found id [OF assms(5)] show ?thesis by blast
qed

section \<open>A node with one item\<close>

definition toy_cafe :: ItemDataT where
  "toy_cafe = ItemDataT_new\<lparr>item_id := 1, item_unique_id := ''x1'', item_fld_name := ''Corner Cafe'', item_importance := 3\<rparr>"

lemma toy_cafe_simps [simp]: "item_id toy_cafe = 1" "\<not> item_notfound toy_cafe" "item_lang toy_cafe = LANG_EN"
  by (simp_all add: toy_cafe_def ItemDataT_new_def LANG_EN_def)

text \<open>The node after the commit of the item, and of the index\<close>

definition toy_cafe_node :: "toy TransactionT \<Rightarrow> toy_shared" where
  "toy_cafe_node t = (let s = snd (Commit toy_env 7 t True toy_node) in s\<lparr>xaplog := xaplog s @ [XapCommit]\<rparr>)"

lemma toy_cafe_run:
  "\<exists>t. sys_inv toy_env (zero_records toy_env) (toy_cafe_node t) \<and> items_of toy_env K_LOCALDATA (toy_cafe_node t) 1 = Some toy_cafe \<and>
     \<not> no_xapian (toy_cafe_node t)"
proof -
  let ?T = "LocalDataTable toy_env" and ?g = "kv_get toy_env (db toy_node)"
  have none: "abs_table ?T ?g = (\<lambda>_. None)" unfolding toy_node_db by (rule localdata_tbl.abs_table_zero)
  have wf: "wf_table toy_env ?T ?g" using sys_invD(2) [OF toy_node_inv] by (simp add: tables_wf_def)
  obtain t where t: "AddRecord toy_env ?T ?g toy_cafe False TransactionT_new = Inr (True, t)"
    using localdata_tbl.fresh_AddRecord [OF wf, of toy_cafe False TransactionT_new] none by auto
  then have "adds toy_env ?T ?g [toy_cafe] TransactionT_new t" by (blast intro: adds.intros)
  then have b: "batch toy_env ?T ?g (maincounter toy_node) [toy_cafe] t" by (simp add: batch_def none)
  have "logcounter toy_node + 1 \<noteq> 0" by simp
  from local_commit [OF toy_env_ok toy_node_inv this refl b, of 7]
  have c: "sys_inv toy_env (zero_records toy_env) (snd (Commit toy_env 7 t True toy_node))"
    "abs_table ?T (kv_get toy_env (db (snd (Commit toy_env 7 t True toy_node)))) 1 = Some toy_cafe"
    "frame (snd (Commit toy_env 7 t True toy_node)) = frame toy_node"
    by (simp_all add: commits_def none upd_abs_def)
  have "\<not> no_xapian toy_node" by (simp add: toy_node_def InitCounters_def toy_shared_def split: sum.split)
  with c(3) have "\<not> no_xapian (snd (Commit toy_env 7 t True toy_node))" by (simp add: frame_def)
  moreover have "sys_inv toy_env (zero_records toy_env) (toy_cafe_node t)"
    using steady_inv [OF steady_xapian(2) [OF inv_steady [OF toy_env_ok c(1)]] c(1)] by (simp add: toy_cafe_node_def Let_def)
  ultimately show ?thesis using c(2) by (intro exI [of _ t]) (simp add: toy_cafe_node_def Let_def items_of_def)
qed

lemma index_exact_witness:
  "\<exists>s. items_of toy_env K_LOCALDATA s 1 = Some toy_cafe \<and>
     in_index (indexer.truncate toy_searcher) (xaplog s) K_LOCALDATA LANG_EN (idterm toy_cafe) =
       Some (CreateDoc (indexer.truncate toy_searcher) K_LOCALDATA toy_cafe)"
proof -
  obtain t where t: "sys_inv toy_env (zero_records toy_env) (toy_cafe_node t)" "items_of toy_env K_LOCALDATA (toy_cafe_node t) 1 = Some toy_cafe"
    "\<not> no_xapian (toy_cafe_node t)" using toy_cafe_run by blast
  have "K_LOCALDATA \<in> index_kinds" by (simp add: index_kinds_def)
  from index_exact [OF t(1,3) this, of "indexer.truncate toy_searcher"] t(2) show ?thesis by (intro exI [of _ "toy_cafe_node t"]) fastforce
qed

section \<open>The search engine of the witnesses\<close>

lemma toy_split_word: "CHR '' '' \<notin> set w \<Longrightarrow> foldr toy_split w ([] # ws) = w # ws"
  by (induction w) (auto simp: toy_split_def)

lemma toy_split_query: "\<forall>t \<in> set ts. CHR '' '' \<notin> set t \<Longrightarrow> foldr toy_split (plus_query ts) [[]] = [] # map (\<lambda>t. CHR ''+'' # t) ts"
  by (induction ts) (simp_all add: plus_query_def toy_split_word toy_split_def)

lemma toy_terms_query:
  assumes "list_all plain_term ts"
  shows "toy_terms (plus_query ts) = ts"
proof -
  have "\<not> (isdigit CHR '' '' \<or> islower CHR '' '' \<or> CHR '' '' = CHR ''_'')" by (simp add: isdigit_def islower_def)
  with assms have "\<forall>t \<in> set ts. CHR '' '' \<notin> set t" unfolding plain_term_def list_all_iff by blast
  from toy_split_query [OF this] show ?thesis by (simp add: toy_terms_def comp_def)
qed

lemma toy_mset_ok: "mset_ok toy_searcher"
  unfolding mset_ok_def Let_def
proof (intro allI impI)
  fix d :: xdb and ts and key :: "xdoc \<Rightarrow> string" and down n assume ts: "ts \<noteq> []" "list_all plain_term ts"
  let ?le = "\<lambda>x y. if down then key y \<le> key x else key x \<le> key y"
  define l where "l = (if down then rev else id) (sort_key key (filter (\<lambda>x. set ts \<subseteq> doc_terms x) (map snd d)))"
  have m: "sx_mset toy_searcher d (plus_query ts) key down n = take n l"
    by (simp add: toy_searcher_def toy_mset_def toy_terms_query [OF ts(2)] l_def)
  have ms: "mset l = matching d ts" by (simp add: l_def matching_def)
  have "sorted_wrt (\<lambda>x y. key x \<le> key y) (sort_key key xs)" for xs :: "xdoc list"
    using sorted_sort_key [of key xs] by (simp only: sorted_wrt_map)
  then have s: "sorted_wrt ?le l" by (simp add: l_def sorted_wrt_rev)
  then have o: "sorted_wrt ?le (take n l)" "\<forall>y \<in> set (take n l). \<forall>x \<in> set (drop n l). ?le y x"
    using append_take_drop_id [of n l] sorted_wrt_append [of ?le "take n l" "drop n l"] by simp_all
  have split: "matching d ts = mset (take n l) + mset (drop n l)"
    unfolding ms [symmetric] mset_append [symmetric] append_take_drop_id ..
  have "length (take n l) = min n (size (matching d ts))" unfolding ms [symmetric] by simp
  with o split show "mset (sx_mset toy_searcher d (plus_query ts) key down n) \<subseteq># matching d ts \<and>
      length (sx_mset toy_searcher d (plus_query ts) key down n) = min n (size (matching d ts)) \<and>
      sorted_wrt ?le (sx_mset toy_searcher d (plus_query ts) key down n) \<and>
      (\<forall>x \<in># matching d ts - mset (sx_mset toy_searcher d (plus_query ts) key down n).
         \<forall>y \<in> set (sx_mset toy_searcher d (plus_query ts) key down n). if down then key x \<le> key y else key y \<le> key x)"
    unfolding m by simp
qed

lemma toy_stems: "stems (ix_stem toy_searcher)"
  by (simp add: stems_def toy_searcher_def)

text \<open>Looking for \<open>Corner Ca\<close>\<close>

definition toy_words :: UsedParamsT where
  "toy_words = UsedParamsT_new\<lparr>up_raw_query := ''Corner Ca'', up_items := 10\<rparr>"

lemma toy_types: "types_words toy_searcher K_LOCALDATA toy_cafe toy_words"
proof -
  have l: "LowerNoQuote ''Corner Ca'' = [''corner'', ''ca'']" "LowerNoQuote (suggest_text K_LOCALDATA toy_cafe) = [''corner'', ''cafe'']"
    by code_simp+
  have st: "stem_word (\<lambda>w. w) ''corner'' = ''corner''" by code_simp
  have b: "back_char toy_searcher ''Corner Ca'' = CHR ''a''" "ix_stem toy_searcher = (\<lambda>w. w)" "up_raw_query toy_words = ''Corner Ca''"
    by (simp_all add: back_char_def toy_searcher_def toy_words_def)
  have "words_in True [''corner'', ''ca''] [''corner'', ''cafe'']"
    by (auto simp: words_in_def less_Suc_eq intro!: exI [of _ "2 :: nat"])
  moreover have "apart [''corner'', ''ca'']" by (auto simp: apart_def less_Suc_eq)
  ultimately show ?thesis by (simp add: types_words_def asked_words_def b l st)
qed

lemma items_found_witness:
  "\<exists>s q. items_of toy_env K_LOCALDATA s 1 = Some toy_cafe \<and>
     RuleSearch toy_searcher (read_dirs toy_searcher (\<lambda>_. 0) (xaplog s)) (fst (prepare_query toy_searcher toy_words)) QueryRuleT_new = Inr (True, q) \<and>
     (1 \<in> set (up_ids q) \<or> length (up_ids q) = unat (KeepInBound (qr_max_records QueryRuleT_new) 1 (10 :: 64 word)))"
proof -
  obtain t where t: "sys_inv toy_env (zero_records toy_env) (toy_cafe_node t)" "items_of toy_env K_LOCALDATA (toy_cafe_node t) 1 = Some toy_cafe"
    "\<not> no_xapian (toy_cafe_node t)" using toy_cafe_run by blast
  have "K_LOCALDATA \<in> index_kinds" by (simp add: index_kinds_def)
  moreover have "last_commit (xaplog (toy_cafe_node t)) = length (xaplog (toy_cafe_node t))"
    by (simp add: toy_cafe_node_def Let_def last_commit_def)
  moreover have "words_request K_LOCALDATA toy_words"
    by (simp add: words_request_def words_only_def toy_words_def UsedParamsT_new_def GetIndexType_def I_LOCALDATA_def LANG_EN_def)
  moreover have "default_rule QueryRuleT_new"
    by (simp add: default_rule_def QueryRuleT_new_def I_DEFAULT_def)
  moreover have "up_items toy_words = 10" by (simp add: toy_words_def)
  ultimately show ?thesis
    using items_found [OF t(1,3) _ _ t(2) toy_cafe_simps(3) toy_mset_ok toy_stems _ toy_types, of QueryRuleT_new "\<lambda>_. 0"] t(2) by metis
qed

section \<open>Ranking and places\<close>

text \<open>Two hits, the less important one first\<close>

definition toy_doc :: "nat \<Rightarrow> string \<Rightarrow> xdoc" where
  "toy_doc i s = add_value XAP_ROCKSID_POS (to_dec i) (add_value XAP_IMPORTANCE_POS s xdoc_new)"

definition toy_finder :: searcher where
  "toy_finder = toy_searcher\<lparr>sx_mset := (\<lambda>d q key down n. take n (map snd d))\<rparr>"

definition toy_rule :: QueryRuleT where
  "toy_rule = QueryRuleT_new\<lparr>qr_weight := 90, qr_max_records := 5\<rparr>"

definition toy_param :: UsedParamsT where
  "toy_param = UsedParamsT_new\<lparr>up_query := ''cafe'', up_items := 5\<rparr>"

lemma toy_finds:
  assumes "words_only p" and "up_query p = ''cafe''" and "up_items p = 5" and "i < 10"
  shows "\<exists>q. RuleSearch toy_finder (\<lambda>_. Some [(''Q7'', toy_doc 7 ''ii''), (t, toy_doc i ''iii'')]) p toy_rule = Inr (True, q) \<and>
     up_ids q = [7, of_nat i] \<and> up_scores q = [2, 3]"
proof -
  have "unat (of_nat i :: 64 word) = i" using assms(4) by (simp add: unat_of_nat take_bit_nat_eq_self)
  then have l: "lexical_uint64 (to_dec 7) = Inr 7" "lexical_uint64 (to_dec i) = Inr (of_nat i)"
    using lexical_to_dec [of 7] lexical_to_dec [of "of_nat i"] by simp_all
  have v: "xd_values (toy_doc n s) XAP_ROCKSID_POS = to_dec n" "importance_key (toy_doc n s) = s" for n s
    by (simp_all add: toy_doc_def add_value_def importance_key_def XAP_ROCKSID_POS_def XAP_IMPORTANCE_POS_def)
  have m: "SplitMerge ''cafe'' = [''cafe'']" by code_simp
  have u: "sx_unserialise toy_finder s = real (length s)" "sx_mset toy_finder d q key down n = take n (map snd d)" for s d q key down n
    by (simp_all add: toy_finder_def toy_searcher_def)
  have o: "O_DIST_BAND \<noteq> 0" "O_DIST_ONLY \<noteq> 0" "S_BEGINWITH \<noteq> 0" "S_PARTIAL \<noteq> 0" "S_FULLWORD \<noteq> 0" "S_NAME \<noteq> 0"
    by (simp_all add: O_DIST_BAND_def O_DIST_ONLY_def S_BEGINWITH_def S_PARTIAL_def S_FULLWORD_def S_NAME_def)
  have e: "limit_extra p 0 = Some []" for p
    by (simp add: limit_extra_def Let_def L_CCODE_def L_CITY_def L_PINCODE_def L_GEOHASH3_def L_GEOHASH5_def L_GEOHASH7_def
        L_GEOHASH9_def L_NBRHASH3_def L_NBRHASH5_def)
  have "up_ids p = []" "up_sortkeys p = []" "up_scores p = []" using assms(1) by (simp_all add: words_only_def)
  then show ?thesis
    using assms(2,3)
    by (simp add: RuleSearch_def toy_rule_def QueryRuleT_new_def I_DEFAULT_def I_ONEWORD_def KeepInBound_def
        search_type_def o e FindFull_def ReadIndex_Get_def m u add_found_def v l rule_scores_def add_score_def Let_def)
qed

lemma results_ranked_witness:
  "\<exists>f. rules_loop toy_finder (\<lambda>_. Some [(''Q7'', toy_doc 7 ''ii''), (''Q5'', toy_doc 5 ''iii'')]) 5 toy_param [toy_rule]
      (found_new\<lparr>fd_weight := 0\<rparr>) = Inr f \<and> fd_ids f = [7, 5] \<and> map snd (rev (fd_map f)) = [5, 7]"
proof -
  let ?d = "\<lambda>_ :: int. Some [(''Q7'', toy_doc 7 ''ii''), (''Q5'', toy_doc 5 ''iii'')]"
  obtain q where q: "RuleSearch toy_finder ?d toy_param toy_rule = Inr (True, q)" "up_ids q = [7, 5]" "up_scores q = [2, 3]"
    using toy_finds [of toy_param 5 "''Q5''"] by (auto simp: toy_param_def words_only_def UsedParamsT_new_def)
  have w: "qr_weight toy_rule = 90" by (simp add: toy_rule_def)
  obtain f where f: "rules_loop toy_finder ?d 5 toy_param [toy_rule] (found_new\<lparr>fd_weight := 0\<rparr>) = Inr f"
    by (simp add: q(1) found_new_def)
  have h: "rule_hits toy_finder ?d toy_param toy_rule = [(90, 2, 7), (90, 3, 5)]" by (simp add: rule_hits_def q w)
  have first: "first_hits [(90, 2, 7), (90, 3, 5)] = [(90, 2, 7), (90, 3, 5)]" by (simp add: hit_id_def)
  obtain n where n: "n \<le> length [toy_rule]" "n < length [toy_rule] \<longrightarrow> 5 \<le> (of_nat (length (fd_ids f)) :: 64 word) \<and>
      qr_weight ([toy_rule] ! n) < (if n = 0 then 0 else qr_weight ([toy_rule] ! (n - 1)))"
    "let hits = first_hits (concat (map (rule_hits toy_finder ?d toy_param) (take n [toy_rule]))) in
       fd_ids f = map hit_id hits \<and> (list_all usual hits \<longrightarrow> (\<exists>hs. mset hs = mset hits \<and> sorted_wrt (\<lambda>a b. before b a) hs \<and>
          map snd (rev (fd_map f)) = map hit_id hs))"
    using results_ranked [OF f] by blast
  have "n \<noteq> 0" using n(2) by (intro notI) simp
  with n(1) have "n = 1" by simp
  with n(3) have r: "fd_ids f = [7, 5]" "list_all usual [(90, 2, 7), (90, 3, 5)] \<longrightarrow>
      (\<exists>hs. mset hs = {#(90, 2, 7), (90, 3, 5)#} \<and> sorted_wrt (\<lambda>a b. before b a) hs \<and> map snd (rev (fd_map f)) = map hit_id hs)"
    by (simp_all add: h first hit_id_def Let_def)
  have "list_all usual [(90, 2, 7), (90, 3, 5)]" by (simp add: usual_def)
  with r(2) obtain hs where hs: "mset hs = {#(90, 2, 7), (90, 3, 5)#}" "sorted_wrt (\<lambda>a b. before b a) hs" "map snd (rev (fd_map f)) = map hit_id hs"
    by blast
  have "length hs = 2" using arg_cong [OF hs(1), of size] by simp
  then obtain a b where ab: "hs = [a, b]" by (auto simp: numeral_2_eq_2 length_Suc_conv)
  have "\<not> before (90, 3, 5) (90, 2, 7)" by (simp add: before_def score_rank_def llround_def)
  moreover have "{a, b} = {(90, 2, 7), (90, 3, 5)}" using arg_cong [OF hs(1), of set_mset] ab by simp
  ultimately have "hs = [(90, 3, 5), (90, 2, 7)]" using hs(2) ab by (auto simp: doubleton_eq_iff)
  with f r(1) hs(3) show ?thesis by (auto simp: hit_id_def)
qed

text \<open>An item one cell to the west of who searches\<close>

lemma near_items_found_witness:
  "\<exists>p t. up_location p = PointLocT_new\<lparr>pl_lat := 48.669, pl_lon := - 4.29, pl_geohash := pl_geohash (up_location p)\<rparr> \<and>
     limit_extra p L_NBRHASH5 = Some ('' +'' @ t) \<and>
     t \<in> doc_terms (CreateDoc (indexer.truncate toy_searcher) K_LOCALDATA (toy_cafe\<lparr>item_lat := 48.669, item_lon := - 4.329\<rparr>))"
proof -
  let ?r = "toy_cafe\<lparr>item_lat := 48.669, item_lon := - 4.329\<rparr>"
  have al: "allowed 48.669 (- 4.329)" "allowed 48.669 (- 4.29)" by (simp_all add: allowed_def)
  obtain h9 where h9: "Encode 48.669 (- 4.29) 9 = Inr h9" using Encode_in_cell [OF al(2), of 9] by auto
  let ?p = "UsedParamsT_new\<lparr>up_location := PointLocT_new\<lparr>pl_lat := 48.669, pl_lon := - 4.29, pl_geohash := h9\<rparr>\<rparr>"
  have c: "cell ''gbsuv'' = (3997, 3155)" "cell ''gbsuy'' = (3998, 3155)" by code_simp+
  have g: "geohash ''gbsuv''" "geohash ''gbsuy''" unfolding geohash_code by code_simp+
  have bits: "lat_bits 5 = 12" "lon_bits 5 = 13" by code_simp+
  have "boxed ''gbsuv'' = (lat_span 3155 12, lon_span 3997 13)" "boxed ''gbsuy'' = (lat_span 3155 12, lon_span 3998 13)"
    by (simp_all add: boxed_def c bits)
  then have "in_cell ''gbsuv'' 48.669 (- 4.329)" "in_cell ''gbsuy'' 48.669 (- 4.29)"
    by (simp_all add: in_cell_boxed [OF g(1)] in_cell_boxed [OF g(2)] holds_def lat_span_def lon_span_def span_def)
  then have e: "Encode 48.669 (- 4.329) 5 = Inr ''gbsuv''" "Encode 48.669 (- 4.29) 5 = Inr ''gbsuy''"
    using Encode_iff [OF al(1), of 5 "''gbsuv''"] Encode_iff [OF al(2), of 5 "''gbsuy''"] g by simp_all
  have "GetNeighbours ''gbsuv'' 1 \<noteq> []" by code_simp
  then have f: "fits ''gbsuv'' 1" using GetNeighbours_ring(2) [OF g(1), of 1] by (auto split: if_splits)
  have "stems (ix_stem (indexer.truncate toy_searcher))" using toy_stems by (simp add: indexer.defs)
  moreover have "item_lat ?r \<noteq> 0 \<or> item_lon ?r \<noteq> 0" by simp
  moreover have "\<not> pl_dont_use (up_location ?p)" by (simp add: PointLocT_new_def)
  ultimately show ?thesis
    using near_items_found [of "indexer.truncate toy_searcher" ?r "48.669" "- 4.29" "''gbsuv''" ?p K_LOCALDATA] al h9 e f
    by (intro exI [of _ ?p]) (auto simp: c cell_dist_def)
qed

end
