(* ===== verification/AnswerLaws.thy ===== *)
theory AnswerLaws
  imports NodeSearch
begin

text \<open>
  What a client gets of a search, whatever the search engine does: items of the tables only, none twice and no more
  than the request allows.
\<close>

section \<open>The ids found\<close>

text \<open>No id is found twice.\<close>

definition once :: "found \<Rightarrow> bool" where
  "once f \<longleftrightarrow> distinct (map snd (fd_map f)) \<and> snd ` set (fd_map f) \<subseteq> set (fd_ids f)"

lemma once_add_result: "once f \<Longrightarrow> once (add_result w p f)"
proof -
  assume f: "once f"
  obtain i t where p: "p = (i, t)" by fastforce
  have d: "distinct (map snd (emplace_key k i m)) \<longleftrightarrow> distinct (i # map snd m)" if "k \<notin> fst ` set m" for k and m :: "(string \<times> 64 word) list"
    using that by (intro mset_eq_imp_distinct_iff) (simp add: emplace_key_def)
  show "once (add_result w p f)"
  proof (cases "i \<in> set (fd_ids f) \<or> EncodeSortKey w t i \<in> fst ` set (fd_map f)")
    case True
    with f show ?thesis by (auto simp: once_def add_result_def p emplace_key_def)
  next
    case False
    then have "distinct (map snd (emplace_key (EncodeSortKey w t i) i (fd_map f))) \<longleftrightarrow> distinct (i # map snd (fd_map f))" by (intro d) simp
    moreover from f False have "i \<notin> snd ` set (fd_map f)" by (auto simp: once_def)
    ultimately show ?thesis using f False by (auto simp: once_def add_result_def p set_emplace_key)
  qed
qed

lemma once_results: "once f \<Longrightarrow> once (fold (add_result w) ps f)"
  by (induction ps arbitrary: f) (simp_all add: once_add_result)

lemma once_rules_loop: "once f0 \<Longrightarrow> rules_loop X dirs counter qr rules f0 = Inr f \<Longrightarrow> once f"
proof (induction rules arbitrary: f0)
  case (Cons rule rules)
  show ?case
  proof (cases "fd_weight f0 > qr_weight rule \<and> of_nat (length (fd_ids f0)) \<ge> counter")
    case True
    with Cons.prems show ?thesis by simp
  next
    case False
    with Cons.prems(2) obtain b p where "RuleSearch X dirs qr rule = Inr (b, p)" and l: "rules_loop X dirs counter qr rules
        ((fold (add_result (qr_weight rule)) (zip (up_ids p) (up_scores p)) f0)\<lparr>fd_weight := qr_weight rule\<rparr>) = Inr f"
      by (auto simp: bindR_Inr_iff simp del: not_less)
    have "once ((fold (add_result (qr_weight rule)) (zip (up_ids p) (up_scores p)) f0)\<lparr>fd_weight := qr_weight rule\<rparr>)"
      using once_results [OF Cons.prems(1)] by (simp add: once_def)
    from Cons.IH [OF this l] show ?thesis .
  qed
qed simp

lemma once_two_rounds: "two_rounds X dirs counter qr corrected rules = Inr (f, qr') \<Longrightarrow> once f"
proof -
  assume a: "two_rounds X dirs counter qr corrected rules = Inr (f, qr')"
  have "once found_new" by (simp add: once_def found_new_def)
  with a show ?thesis by (auto simp: two_rounds_def bindR_Inr_iff Let_def split: if_splits dest: once_rules_loop)
qed

lemma SearchByProfile_ids:
  assumes "SearchByProfile E X dirs query_type qr s = (Inr (recs, qr'), s')"
  shows "\<exists>is. distinct is \<and> recs = map (\<lambda>i. ItemDataT_new\<lparr>item_id := i\<rparr>) is"
proof -
  have e: "\<exists>is. distinct is \<and> [] = map (\<lambda>i. ItemDataT_new\<lparr>item_id := i\<rparr>) is" by (rule exI [of _ "[]"]) simp
  have f: "\<exists>is. distinct is \<and> map (\<lambda>p. ItemDataT_new\<lparr>item_id := snd p\<rparr>) (rev (fd_map (fst x))) = map (\<lambda>i. ItemDataT_new\<lparr>item_id := i\<rparr>) is"
    if "two_rounds X dirs counter q corrected rules = Inr x" for counter q corrected rules x
  proof -
    have "distinct (rev (map snd (fd_map (fst x))))" using once_two_rounds [of X dirs counter q corrected rules "fst x" "snd x"] that by (simp add: once_def)
    then show ?thesis by (intro exI [of _ "rev (map snd (fd_map (fst x)))"]) (simp add: rev_map comp_def)
  qed
  from assms e f show ?thesis
    by (auto simp: SearchByProfile_def bindA_Inr_iff Let_def case_prod_unfold split: option.splits if_splits)
qed

section \<open>The records found\<close>

text \<open>The record of an id, or the message it was asked with\<close>

definition item_or_none :: "('b, 'd) env \<Rightarrow> keytype \<Rightarrow> ('b, 'd) shared \<Rightarrow> 64 word \<Rightarrow> ItemDataT" where
  "item_or_none E kt s i = (case items_of E kt s i of Some r \<Rightarrow> r | None \<Rightarrow> ItemDataT_new\<lparr>item_id := i, item_notfound := True\<rparr>)"

lemma records_found:
  assumes "sys_inv E g0 s"
  shows "Local_GetManyRecords E (kv_get E (db s)) (map (\<lambda>i. ItemDataT_new\<lparr>item_id := i\<rparr>) is) = Inr (map (item_or_none E K_LOCALDATA s) is)"
    and "Wiki_GetManyRecords E (kv_get E (db s)) (map (\<lambda>i. ItemDataT_new\<lparr>item_id := i\<rparr>) is) = Inr (map (item_or_none E K_WIKIDATA s) is)"
proof -
  let ?g = "kv_get E (db s)" and ?q = "\<lambda>i. ItemDataT_new\<lparr>item_id := i\<rparr>"
  have ro: "records_ok (LocalDataTable E) ?g" "records_ok (WikiDataTable E) ?g"
    using tables_wfD(5,6) [OF sys_invD(2) [OF assms]] by (simp_all add: wf_table_def)
  have z: "abs_table (LocalDataTable E) ?g 0 = None" "abs_table (WikiDataTable E) ?g 0 = None" by (simp_all add: abs_table_def)
  have u: "item_unique_id (?q i) = []" "(?q i)\<lparr>item_id := j\<rparr> = ?q j" for i j by (simp_all add: ItemDataT_new_def)
  have kt: "K_WIKIDATA \<noteq> K_LOCALDATA" by (simp add: keytype_defs)
  have l: "Local_GetOneRecord E ?g (?q i) = Inr (case abs_table (LocalDataTable E) ?g i of None \<Rightarrow> (False, ?q i) | Some r \<Rightarrow> (True, r))" for i
    using localdata_tbl.GetOne_primary [OF ro(1), where i = i and r = "?q i"] z
    by (cases "i = 0") (simp_all add: Local_GetOneRecord_def u word_neq_0_conv cong: option.case_cong)
  have w: "Wiki_GetOneRecord E ?g (?q i) = Inr (case abs_table (WikiDataTable E) ?g i of None \<Rightarrow> (False, ?q i) | Some r \<Rightarrow> (True, r))" for i
    using wikidata_tbl.GetOne_primary [OF ro(2), where i = i and r = "?q i"] z
    by (cases "i = 0") (simp_all add: Wiki_GetOneRecord_def u word_neq_0_conv cong: option.case_cong)
  have "foldR (\<lambda>m out. bindR (Local_GetOneRecord E ?g m) (\<lambda>(ok, r). Inr (out @ [if ok then r else r\<lparr>item_notfound := True\<rparr>]))) (map ?q is) out =
      Inr (out @ map (item_or_none E K_LOCALDATA s) is)" for out
    by (induction "is" arbitrary: out) (simp_all add: l item_or_none_def items_of_def split: option.split)
  then show "Local_GetManyRecords E ?g (map ?q is) = Inr (map (item_or_none E K_LOCALDATA s) is)" by (simp add: Local_GetManyRecords_def)
  have "foldR (\<lambda>m out. bindR (Wiki_GetOneRecord E ?g m) (\<lambda>(ok, r). Inr (out @ [if ok then r else r\<lparr>item_notfound := True\<rparr>]))) (map ?q is) out =
      Inr (out @ map (item_or_none E K_WIKIDATA s) is)" for out
    by (induction "is" arbitrary: out) (simp_all add: w item_or_none_def items_of_def kt split: option.split)
  then show "Wiki_GetManyRecords E ?g (map ?q is) = Inr (map (item_or_none E K_WIKIDATA s) is)" by (simp add: Wiki_GetManyRecords_def)
qed

text \<open>Records of the tables, each once, and at most so many\<close>

definition answer_of :: "('b, 'd) env \<Rightarrow> keytype \<Rightarrow> ('b, 'd) shared \<Rightarrow> SearchCompletionRespT \<Rightarrow> ItemDataT list \<Rightarrow> bool" where
  "answer_of E kt s resp rs \<longleftrightarrow> distinct (map item_id rs) \<and> (\<forall>r \<in> set rs. items_of E kt s (item_id r) = Some r) \<and>
     length rs \<le> unat (KeepInBound (up_items (sc_cdata resp)) 1 100) \<and> length rs \<le> 100"

lemma items_of_record:
  assumes "sys_inv E g0 s" and "items_of E kt s i = Some r"
  shows "item_id r = i" and "\<not> item_notfound r"
proof -
  note wf = tables_wfD(5,6) [OF sys_invD(2) [OF assms(1)]]
  from assms(2) wf show "item_id r = i" "\<not> item_notfound r"
    using localdata_tbl.abs_table_rid [of E "kv_get E (db s)" i r] wikidata_tbl.abs_table_rid [of E "kv_get E (db s)" i r]
    by (auto simp: items_of_def wf_table_def split: if_splits)
qed

lemma some_found_answer:
  assumes "sys_inv E g0 s" and "distinct is"
  shows "answer_of E kt s resp (some_found (KeepInBound (up_items (sc_cdata resp)) 1 100) (map (item_or_none E kt s) is))"
proof -
  let ?n = "KeepInBound (up_items (sc_cdata resp)) 1 100"
  let ?rs = "filter (\<lambda>r. \<not> item_notfound r) (map (item_or_none E kt s) is)"
  have id: "item_id (item_or_none E kt s i) = i" for i
    using items_of_record(1) [OF assms(1)] by (simp add: item_or_none_def split: option.split)
  have "distinct (map item_id ?rs)" using assms(2) id by (simp add: distinct_map_filter comp_def)
  then have "distinct (map item_id (take (unat ?n) ?rs))" by (simp add: take_map [symmetric])
  moreover have "items_of E kt s (item_id r) = Some r" if "r \<in> set ?rs" for r
    using that id by (auto simp: item_or_none_def ItemDataT_new_def split: option.splits)
  then have "\<forall>r \<in> set (take (unat ?n) ?rs). items_of E kt s (item_id r) = Some r" by (blast dest: in_set_takeD)
  moreover have "?n \<le> 100" by (auto simp: KeepInBound_def)
  then have "unat ?n \<le> 100" by (simp add: word_le_nat_alt)
  ultimately show ?thesis by (simp add: answer_of_def some_found_def)
qed

lemma search_store:
  assumes "env_ok E" and "sys_inv E g0 s" and "SearchByProfile E X dirs qt p s = (y, s')"
  shows "sys_inv E g0 s'" and "db s' = db s"
proof -
  have "keeps (steady E s) (SearchByProfile E X dirs qt p)"
    unfolding SearchByProfile_def GetExterProfile_def Let_def by (intro keeps_intros steady_intros)
  from keepsD [OF this inv_steady [OF assms(1,2)]] assms(3) have st: "steady E s s'" by simp
  show "sys_inv E g0 s'" by (rule steady_inv [OF st assms(2)])
  show "db s' = db s" using st by (simp add: steady_def)
qed

text \<open>C18: whatever the search engine gives, a search answers with records of the tables as they are: the photon service with
  the features of local items, the other one with the titles of wiki items, none twice, no more than the limit of the
  request put between 1 and 100 (with a limit of 0 there may be one). Data and log stay as they are.\<close>

theorem answers_sound:
  assumes "env_ok E" and "sys_inv E g0 s"
  shows "(Local_CompletionQueryAction E X dirs resp s = (Inr resp', s') \<longrightarrow> db s' = db s \<and>
      (\<exists>rs. answer_of E K_LOCALDATA s resp rs \<and> ph_features (sc_photondata resp') = map (photon_feature X) rs)) \<and>
    (Wiki_CompletionQueryAction E X dirs resp s = (Inr resp', s') \<longrightarrow> db s' = db s \<and>
      (\<exists>rs. answer_of E K_WIKIDATA s resp rs \<and> ir_records (sc_wikidata resp') = map wiki_result rs))"
proof -
  let ?p = "SanitParams (sc_cdata resp)" and ?n = "KeepInBound (up_items (sc_cdata resp)) 1 100"
  have run: "db u = db s \<and> (\<exists>is. distinct is \<and>
      Local_GetManyRecords E (kv_get E (db u)) recs = Inr (map (item_or_none E K_LOCALDATA s) is) \<and>
      Wiki_GetManyRecords E (kv_get E (db u)) recs = Inr (map (item_or_none E K_WIKIDATA s) is))"
    if "SearchByProfile E X dirs qt ?p s = (Inr (recs, qr), u)" for qt recs qr u
    using SearchByProfile_ids [OF that] records_found [OF assms(2)] search_store(2) [OF assms that] by auto
  have "db s' = db s \<and> (\<exists>rs. answer_of E K_LOCALDATA s resp rs \<and> ph_features (sc_photondata resp') = map (photon_feature X) rs)"
    if "Local_CompletionQueryAction E X dirs resp s = (Inr resp', s')"
  proof -
    from that obtain qt recs qr recs' where r: "SearchByProfile E X dirs qt ?p s = (Inr (recs, qr), s')"
      "Local_GetManyRecords E (kv_get E (db s')) recs = Inr recs'" "ph_features (sc_photondata resp') = map (photon_feature X) (some_found ?n recs')"
      by (auto simp: Local_CompletionQueryAction_def bindA_Inr_iff Let_def)
    from run [OF r(1)] r(2) obtain "is" where "db s' = db s" "distinct is" "recs' = map (item_or_none E K_LOCALDATA s) is" by auto
    with some_found_answer [OF assms(2), of "is" K_LOCALDATA resp] r(3) show ?thesis by blast
  qed
  moreover have "db s' = db s \<and> (\<exists>rs. answer_of E K_WIKIDATA s resp rs \<and> ir_records (sc_wikidata resp') = map wiki_result rs)"
    if "Wiki_CompletionQueryAction E X dirs resp s = (Inr resp', s')"
  proof -
    from that obtain qt recs qr recs' where r: "SearchByProfile E X dirs qt ?p s = (Inr (recs, qr), s')"
      "Wiki_GetManyRecords E (kv_get E (db s')) recs = Inr recs'" "ir_records (sc_wikidata resp') = map wiki_result (some_found ?n recs')"
      by (auto simp: Wiki_CompletionQueryAction_def bindA_Inr_iff Let_def)
    from run [OF r(1)] r(2) obtain "is" where "db s' = db s" "distinct is" "recs' = map (item_or_none E K_WIKIDATA s) is" by auto
    with some_found_answer [OF assms(2), of "is" K_WIKIDATA resp] r(3) show ?thesis by blast
  qed
  ultimately show ?thesis by blast
qed

section \<open>A node with one item and the profile of a shop\<close>

definition toy_shop :: UserDataT where
  "toy_shop = UserDataT_new\<lparr>user_id := 1, user_name := ''shop'', user_profiles := [\<lparr>qp_query_type = QRY_COMPLETION_PHOTON, qp_rules = [toy_rule]\<rparr>]\<rparr>"

lemma toy_shop_simps [simp]: "user_id toy_shop = 1" "user_name toy_shop = ''shop''" "\<not> user_notfound toy_shop"
  "user_profiles toy_shop = [\<lparr>qp_query_type = QRY_COMPLETION_PHOTON, qp_rules = [toy_rule]\<rparr>]"
  by (simp_all add: toy_shop_def UserDataT_new_def)

lemma toy_shop_node:
  "\<exists>s :: toy_shared. sys_inv toy_env (zero_records toy_env) s \<and> dbcache s = (\<lambda>_. None) \<and>
     abs_table (ExterDataTable toy_env) (kv_get toy_env (db s)) 1 = Some toy_shop \<and> items_of toy_env K_LOCALDATA s = [1 \<mapsto> toy_cafe]"
proof -
  let ?T = "ExterDataTable toy_env" and ?g = "kv_get toy_env (db toy_node)"
  have wf: "wf_table toy_env ?T ?g" using sys_invD(2) [OF toy_node_inv] by (simp add: tables_wf_def)
  obtain t where "AddRecord toy_env ?T ?g toy_shop False TransactionT_new = Inr (True, t)"
    using exterdata_tbl.fresh_AddRecord [OF wf, of toy_shop False TransactionT_new] toy_node_exters by auto
  then have "adds toy_env ?T ?g [toy_shop] TransactionT_new t" by (blast intro: adds.intros)
  then have b: "batch toy_env ?T ?g (maincounter toy_node) [toy_shop] t" by (simp add: batch_def toy_node_exters)
  define s1 where "s1 = snd (Commit toy_env 7 t True toy_node)"
  have "logcounter toy_node + 1 \<noteq> 0" by simp
  from exter_commit [OF toy_env_ok toy_node_inv this refl b, of 7]
  have s1: "sys_inv toy_env (zero_records toy_env) s1" "abs_table ?T (kv_get toy_env (db s1)) = [1 \<mapsto> toy_shop]"
    "logcounter s1 = 1" "frame s1 = frame toy_node" "table_frame ?T ?g (kv_get toy_env (db s1))"
    by (simp_all add: s1_def commits_def toy_node_exters upd_abs_def)
  let ?L = "LocalDataTable toy_env" and ?g1 = "kv_get toy_env (db s1)"
  have "abs_table ?L ?g = (\<lambda>_. None)" unfolding toy_node_db by (rule localdata_tbl.abs_table_zero)
  with item_tables_kept(1) [OF s1(5) tables_disjoint(23)] have none: "abs_table ?L ?g1 = (\<lambda>_. None)" by simp
  have wf1: "wf_table toy_env ?L ?g1" using sys_invD(2) [OF s1(1)] by (simp add: tables_wf_def)
  obtain u where "AddRecord toy_env ?L ?g1 toy_cafe False TransactionT_new = Inr (True, u)"
    using localdata_tbl.fresh_AddRecord [OF wf1, of toy_cafe False TransactionT_new] none by auto
  then have "adds toy_env ?L ?g1 [toy_cafe] TransactionT_new u" by (blast intro: adds.intros)
  moreover have "maincounter s1 = 1" using s1(4) by (simp add: frame_def)
  ultimately have b1: "batch toy_env ?L ?g1 (maincounter s1) [toy_cafe] u" by (simp add: batch_def none)
  define s2 where "s2 = snd (Commit toy_env 7 u True s1)"
  have "logcounter s1 + 1 \<noteq> 0" by (simp add: s1(3))
  from local_commit [OF toy_env_ok s1(1) this refl b1, of 7]
  have s2: "sys_inv toy_env (zero_records toy_env) s2" "abs_table ?L (kv_get toy_env (db s2)) = [1 \<mapsto> toy_cafe]"
    "table_frame ?L ?g1 (kv_get toy_env (db s2))"
    by (simp_all add: s2_def commits_def none upd_abs_def)
  have "abs_table ?T (kv_get toy_env (db s2)) = [1 \<mapsto> toy_shop]"
    using exterdata_tbl.wf_table_cong(2) [of toy_env "kv_get toy_env (db s2)" "kv_get toy_env (db s1)"]
      exterdata_tbl.table_untouched(3) [OF s2(3) tables_disjoint(14)] s1(2) by simp
  with s2 toy_fresh_inv [OF s2(1)] show ?thesis
    by (intro exI [of _ "toy_fresh s2"]) (simp add: toy_fresh_def items_of_def)
qed

text \<open>The search engine gives two hits for \<open>cafe\<close>; only one of them is an item of the tables.\<close>

definition toy_ask_cafe :: SearchCompletionRespT where
  "toy_ask_cafe = SearchCompletionRespT_new\<lparr>sc_cdata := UsedParamsT_new\<lparr>up_profile := ''shop'', up_raw_query := ''Cafe '', up_items := 5,
     up_location := PointLocT_new\<lparr>pl_dont_use := True\<rparr>\<rparr>\<rparr>"

definition toy_dirs :: xdirs where
  "toy_dirs = (\<lambda>_. Some [(''Q7'', toy_doc 7 ''ii''), (''Q1'', toy_doc 1 ''iii'')])"

lemma toy_prepared:
  assumes "up_raw_query p = ''Cafe ''" and "\<not> up_full_words p"
  shows "prepare_query toy_finder p = (p\<lparr>up_last_partial := False, up_full_words := True, up_no_of_words := 1, up_query := ''cafe''\<rparr>, [])"
proof -
  have f: "FlattenCount ''Cafe '' = (''cafe '', 1)" "StemQuery (\<lambda>w. w) ''cafe '' False = ''cafe''" by code_simp+
  have "sx_correct toy_finder l t = t" "ix_stem toy_finder = (\<lambda>w. w)" for l t by (simp_all add: toy_finder_def toy_searcher_def)
  with assms f show ?thesis by (simp add: prepare_query_def back_char_def Let_def)
qed

lemma toy_search:
  fixes s :: toy_shared
  assumes "sys_inv toy_env g0 s" and "dbcache s = (\<lambda>_. None)" and "abs_table (ExterDataTable toy_env) (kv_get toy_env (db s)) 1 = Some toy_shop"
  shows "\<exists>recs qr s'. SearchByProfile toy_env toy_finder toy_dirs QRY_COMPLETION_PHOTON (SanitParams (sc_cdata toy_ask_cafe)) s =
    (Inr (recs, qr), s') \<and> ItemDataT_new\<lparr>item_id := 1\<rparr> \<in> set recs"
proof -
  let ?d = "UserDataT_new\<lparr>user_name := ''shop''\<rparr>" and ?T = "ExterDataTable toy_env" and ?g = "kv_get toy_env (db s)"
  have wf: "wf_table toy_env ?T ?g" using inv_wf(1) [OF assms(1)] .
  have "has_user ?T ?g ''shop'' toy_shop" using assms(3) by (auto simp: has_user_def)
  then have "GetOne toy_env ?T ?g ?d U_EXTERDATA_NAME = Inr (True, toy_shop)"
    using exter_lookup [OF wf, of ?d] has_user_unique(1) [OF wf, of "''shop''"] by auto
  then have "Exter_Get toy_env ?d s = (Inr (toy_shop\<lparr>user_keytype := K_EXTERDATA\<rparr>),
      s\<lparr>dbcache := [exter_key ''shop'' \<mapsto> ser (c_user toy_env) (Exter_Pack toy_shop)]\<rparr>)"
    using assms(2) by (simp add: Exter_Get_def bindA_assoc GetAssoc_def run_simps SetCache_def SetAssoc_def)
  then obtain u where g: "GetExterProfile toy_env ''shop'' QRY_COMPLETION_PHOTON s = (Inr (Some \<lparr>qp_query_type = QRY_COMPLETION_PHOTON, qp_rules = [toy_rule]\<rparr>), u)"
    by (simp add: GetExterProfile_def bindA_step [where m = "Exter_Get toy_env ?d"])
  define p where "p = UsedParamsT_new\<lparr>up_profile := ''shop'', up_raw_query := ''Cafe '', up_items := 5, up_location := PointLocT_new\<lparr>pl_dont_use := True\<rparr>,
     up_last_partial := False, up_full_words := True, up_no_of_words := 1, up_query := ''cafe''\<rparr>"
  obtain q where q: "RuleSearch toy_finder toy_dirs p toy_rule = Inr (True, q)" "up_ids q = [7, 1]" "up_scores q = [2, 3]"
    using toy_finds [of p 1 "''Q1''"] by (auto simp: p_def UsedParamsT_new_def words_only_def toy_dirs_def)
  define f where "f = (add_result 90 (1, 3) (add_result 90 (7, 2) found_new))\<lparr>fd_weight := 90\<rparr>"
  have "holds_hits [] found_new" by (simp add: holds_hits_def found_new_def)
  from add_result_hits [OF add_result_hits [OF this]] have "holds_hits (add_hit (90, 3, 1) (add_hit (90, 2, 7) [])) f"
    by (simp add: f_def holds_hits_def)
  moreover have "list_all usual (add_hit (90, 3, 1) (add_hit (90, 2, 7) []))" "(90, 3, 1) \<in> set (add_hit (90, 3, 1) (add_hit (90, 2, 7) []))"
    by (simp_all add: usual_def add_hit_def hit_id_def)
  ultimately have "(hit_key (90, 3, 1), hit_id (90, 3, 1)) \<in> set (fd_map f)" unfolding holds_hits_def by blast
  then have one: "1 \<in> snd ` set (fd_map f)" by (force simp: hit_id_def)
  have w: "qr_weight toy_rule = 90" by (simp add: toy_rule_def)
  have "two_rounds toy_finder toy_dirs 5 p [] [toy_rule] = Inr (f, p)"
    by (simp add: two_rounds_def q w f_def) (simp add: found_new_def)
  moreover have "SanitParams (sc_cdata toy_ask_cafe) = UsedParamsT_new\<lparr>up_profile := ''shop'', up_raw_query := ''Cafe '', up_items := 5,
     up_location := PointLocT_new\<lparr>pl_dont_use := True\<rparr>\<rparr>"
    by (simp add: SanitParams_def toy_ask_cafe_def UsedParamsT_new_def)
  moreover have "KeepInBound 5 1 100 = (5 :: 64 word)" by (simp add: KeepInBound_def)
  ultimately have "SearchByProfile toy_env toy_finder toy_dirs QRY_COMPLETION_PHOTON (SanitParams (sc_cdata toy_ask_cafe)) s =
      (Inr (map (\<lambda>(_, i). ItemDataT_new\<lparr>item_id := i\<rparr>) (rev (fd_map f)), p), u)"
    by (simp add: SearchByProfile_def bindA_def g toy_prepared p_def UsedParamsT_new_def)
  with one show ?thesis by force
qed

lemma answers_sound_witness:
  "\<exists>(s :: toy_shared) s' resp' rs. Local_CompletionQueryAction toy_env toy_finder toy_dirs toy_ask_cafe s = (Inr resp', s') \<and>
     ph_features (sc_photondata resp') = [photon_feature toy_finder toy_cafe] \<and>
     answer_of toy_env K_LOCALDATA s toy_ask_cafe rs \<and> ph_features (sc_photondata resp') = map (photon_feature toy_finder) rs"
proof -
  obtain s :: toy_shared where s: "sys_inv toy_env (zero_records toy_env) s" "dbcache s = (\<lambda>_. None)"
    "abs_table (ExterDataTable toy_env) (kv_get toy_env (db s)) 1 = Some toy_shop" "items_of toy_env K_LOCALDATA s = [1 \<mapsto> toy_cafe]"
    using toy_shop_node by blast
  let ?act = "Local_CompletionQueryAction toy_env toy_finder toy_dirs toy_ask_cafe" and ?cafe = "photon_feature toy_finder toy_cafe"
  obtain recs qr s' where r: "SearchByProfile toy_env toy_finder toy_dirs QRY_COMPLETION_PHOTON (SanitParams (sc_cdata toy_ask_cafe)) s = (Inr (recs, qr), s')"
    "ItemDataT_new\<lparr>item_id := 1\<rparr> \<in> set recs" using toy_search [OF s(1-3)] by blast
  from SearchByProfile_ids [OF r(1)] obtain "is" where i: "distinct is" "recs = map (\<lambda>i. ItemDataT_new\<lparr>item_id := i\<rparr>) is" by blast
  have "inj (\<lambda>i. ItemDataT_new\<lparr>item_id := i\<rparr>)" by (rule injI) (metis ItemDataT.select_convs(1) ItemDataT.surjective ItemDataT.update_convs(1))
  with i r(2) have "1 \<in> set is" by (auto dest: injD)
  with i(1) obtain as bs where ab: "is = as @ 1 # bs" "1 \<notin> set as" "1 \<notin> set bs" by (auto dest: split_list)
  have none: "item_or_none toy_env K_LOCALDATA s 1 = toy_cafe" "j \<noteq> 1 \<Longrightarrow> item_notfound (item_or_none toy_env K_LOCALDATA s j)" for j
    by (simp_all add: item_or_none_def s(4))
  have "filter (\<lambda>r. \<not> item_notfound r) (map (item_or_none toy_env K_LOCALDATA s) xs) = []" if "1 \<notin> set xs" for xs
    using that by (auto simp: filter_empty_conv intro!: none(2))
  with ab none(1) have one: "filter (\<lambda>r. \<not> item_notfound r) (map (item_or_none toy_env K_LOCALDATA s) is) = [toy_cafe]" by simp
  have db: "db s' = db s" by (rule search_store(2) [OF toy_env_ok s(1) r(1)])
  have p: "up_items (sc_cdata toy_ask_cafe) = 5" "\<not> up_noname (sc_cdata toy_ask_cafe)" "KeepInBound 5 1 100 = (5 :: 64 word)"
    by (simp_all add: toy_ask_cafe_def UsedParamsT_new_def KeepInBound_def)
  have "\<exists>resp'. ?act s = (Inr resp', s') \<and> ph_features (sc_photondata resp') = [?cafe]"
    using r(1) records_found(1) [OF s(1), of "is"] db i(2) one
    by (simp add: Local_CompletionQueryAction_def bindA_def p some_found_def)
  then obtain resp' where resp: "?act s = (Inr resp', s')" "ph_features (sc_photondata resp') = [?cafe]" by blast
  from answers_sound [OF toy_env_ok s(1), of toy_finder toy_dirs toy_ask_cafe resp' s'] resp show ?thesis by blast
qed

end
