(* ===== verification/SyncLaws.thy ===== *)
theory SyncLaws
  imports ReplicationLaws
begin

text \<open>
  Whether the synchronisation of a slave ends when it is told to: it does, whatever the other hosts answer and with few
  messages, if it is told after the flag has been cleared; what it is told before is lost.
\<close>

section \<open>Messages sent\<close>

definition mails :: "nat \<Rightarrow> (('b, 'd) shared, 'y) act \<Rightarrow> bool" where
  "mails n m \<longleftrightarrow> (\<forall>s. length (outbox (snd (m s))) \<le> length (outbox s) + n)"

named_theorems mails_intros \<open>rules for \<open>mails\<close>\<close>

lemma mails_pure [mails_intros]: "mails 0 (ret y)" "mails 0 (raise e)" "mails 0 (readA f)" "mails 0 (liftR g)" "mails 0 (throwIf b e)"
  by (simp_all add: mails_def ret_def raise_def readA_def liftR_def throwIf_def split: sum.split)

lemma mails_bindA [mails_intros]: "mails a m \<Longrightarrow> (\<And>x. mails b (f x)) \<Longrightarrow> mails (a + b) (bindA m f)"
proof -
  assume m: "mails a m" and f: "\<And>x. mails b (f x)"
  have "length (outbox (snd (bindA m f s))) \<le> length (outbox s) + (a + b)" for s
  proof -
    obtain r s1 where r: "m s = (r, s1)" by force
    with m have 1: "length (outbox s1) \<le> length (outbox s) + a" unfolding mails_def by (metis snd_conv)
    show ?thesis
    proof (cases r)
      case (Inr x)
      from f have "length (outbox (snd (f x s1))) \<le> length (outbox s1) + b" unfolding mails_def by blast
      with 1 r Inr show ?thesis by (simp add: bindA_def)
    qed (use 1 r in \<open>simp add: bindA_def\<close>)
  qed
  then show ?thesis by (simp add: mails_def)
qed

lemma mails_mono: "mails a m \<Longrightarrow> a \<le> b \<Longrightarrow> mails b m"
  unfolding mails_def by (meson add_left_mono le_trans)

lemma mails_if [mails_intros]: "mails a m \<Longrightarrow> mails b k \<Longrightarrow> mails (max a b) (if c then m else k)"
  by (auto intro: mails_mono)

lemma mails_prod [mails_intros]: "(\<And>x y. mails a (f x y)) \<Longrightarrow> mails a (case p of (x, y) \<Rightarrow> f x y)"
  by (cases p) simp

lemma mails_updA [mails_intros]: "(\<And>s. outbox (f s) = outbox s) \<Longrightarrow> mails 0 (updA f)"
  by (simp add: mails_def updA_def)

lemma mails_CURRTIME [mails_intros]: "mails 0 (CURRTIME_MS E)"
  by (simp add: mails_def CURRTIME_MS_def)

lemma mails_sendA [mails_intros]: "mails 1 (sendA E c a i msg nt)"
proof -
  have "length (outbox (snd (SendFunction E c a ep i msg fm s))) \<le> length (outbox s) + 1" for ep fm s
    by (auto simp: SendFunction_def Let_def split: sum.split prod.split option.split)
  then show ?thesis
    by (auto simp: mails_def sendA_def SendToRemote_def split: prod.split sum.split if_split) (metis snd_conv)+
qed

section \<open>A slave commits without sending\<close>

abbreviation sent :: "'b http_req list \<Rightarrow> ('b, 'd) shared \<Rightarrow> bool" where
  "sent b s \<equiv> outbox s = b"

lemma keeps_onS: "keeps P m \<Longrightarrow> keeps (\<lambda>(s, _). P s) (onS m)"
  by (fastforce simp: keeps_def onS_def split: prod.splits)

lemma keeps_with_namecache:
  assumes "keeps (\<lambda>(s, _). P s) body" and "\<And>s c. P s \<Longrightarrow> P (s\<lparr>tmpcache := c\<rparr>)"
  shows "keeps P (with_namecache body)"
proof (rule keepsI)
  fix s assume s: "P s"
  obtain r s' i where b: "body (s, []) = (r, (s', i))" by (metis prod.exhaust)
  with spec [OF assms(1) [unfolded keeps_def], of "(s, [])"] s have "P s'" by simp
  with b assms(2) show "P (snd (with_namecache body s))" by (simp add: with_namecache_def)
qed

lemma sent_cache_item: "keeps (sent b) (cache_item E it)"
  unfolding cache_item_def DelCache_def
  by (intro keeps_intros keeps_updA) (auto simp: keeps_def split: prod.split)

lemma sent_parts:
  "keeps (sent b) (CommitLog E ct txn False)" "keeps (sent b) (CommitData E txn)"
  "keeps (sent b) (push_lastslave E txn False)" "keeps (\<lambda>(s, _). sent b s) (slave_lock E m)"
  by (auto simp: keeps_def CommitLog_def CommitData_def push_lastslave_def slave_lock_def MultiTypeLock_def reserve_key_def bindA_def
      GetNext_log_def ret_def Let_def split: option.split)

lemma sent_AddToCache: "keeps (sent b) (AddToCache E txn)"
  unfolding AddToCache_def by (intro keeps_intros sent_cache_item) (auto simp: keeps_def)

lemma sent_Commit: "keeps (sent b) (Commit E ct txn False)"
  unfolding Commit_def by (intro keeps_with_namecache keeps_intros keeps_onS sent_parts sent_AddToCache) simp

lemma mails_Commit [mails_intros]: "mails 0 (Commit E ct txn False)"
  unfolding mails_def using keepsD [OF sent_Commit refl] by (metis add_0_right order_refl)

lemma mails_commit_received [mails_intros]: "mails 0 (commit_received E ts)"
proof (induction ts)
  case (Cons t ts)
  have "mails (0 + max 0 (0 + 0)) (commit_received E (t # ts))"
    unfolding commit_received.simps by (intro mails_intros Cons.IH)
  then show ?case by (rule mails_mono) simp
qed (simp add: mails_def)

section \<open>The loops\<close>

lemma mails_log_request [mails_intros]: "mails 0 (log_request E limit)"
proof -
  have "mails (0 + (0 + (0 + 0))) (log_request E limit)" unfolding log_request_def by (intro mails_intros)
  then show ?thesis by simp
qed

lemma mails_CompareLog: "mails 1 (CompareLog E a)"
proof -
  have "mails (0 + max 0 (1 + (0 + (0 + (0 + (0 + 0)))))) (CompareLog E a)"
    unfolding CompareLog_def ReadOne_def by (intro mails_intros)
  then show ?thesis by simp
qed

lemma mails_SyncFirst_round: "mails 1 (SyncFirst_round E)"
proof -
  have "mails (0 + (0 + (1 + (0 + 0)))) (SyncFirst_round E)" unfolding SyncFirst_round_def by (intro mails_intros)
  then show ?thesis by simp
qed

lemma mails_register_once: "mails 1 (register_once E)"
proof -
  have h: "mails 0 (SetHosts st)" for st
    by (auto simp: SetHosts_def Let_def intro!: mails_updA)
  have "mails (0 + (0 + (0 + (1 + (max 0 0 + 0))))) (register_once E)"
    unfolding register_once_def by (intro mails_intros h) simp_all
  then show ?thesis by simp
qed

lemma mails_find_master: "t \<le> 2 \<Longrightarrow> mails (3 - t) (find_master E t)"
proof (induction E t rule: find_master.induct)
  case (1 E t)
  have n: "mails (2 - t) (find_master E (t + 1))" if "\<not> t + 1 > 2" for found
    using 1 that by auto
  show ?case
    unfolding find_master.simps [of E t]
  proof (rule mails_mono [OF mails_bindA [where b = "2 - t", OF mails_register_once]])
    fix found
    show "mails (2 - t) (if t + 1 > 2 then raise (InitialException ''the pointed machine is not 1 hop away from master'' 0)
       else if \<not> found then find_master E (t + 1) else ret ())"
      using n by (auto intro: mails_mono [OF mails_pure(1)] mails_mono [OF mails_pure(2)])
  qed (use 1 in simp)
qed

text \<open>\<open>calls (i + k)\<close>: the server is stopped before round \<open>k\<close> of a loop that begins at moment \<open>i\<close>.\<close>

lemma SyncFirst_loop_stops:
  assumes "calls (i + k)" and "k < fuel"
  shows "\<exists>r fl' s'. SyncFirst_loop E calls fuel (f, i) s = Some (r, fl', s') \<and>
    SyncFirst_loop E calls (Suc k) (f, i) s = Some (r, fl', s') \<and> length (outbox s') \<le> length (outbox s) + k"
  using assms
proof (induction k arbitrary: fuel f i s)
  case 0
  then show ?case by (cases fuel) (auto simp: flag_get_def Let_def)
next
  case (Suc k)
  then obtain n where n: "fuel = Suc n" "k < n" by (cases fuel) auto
  obtain r s1 where r: "SyncFirst_round E s = (r, s1)" by force
  have l: "length (outbox s1) \<le> length (outbox s) + 1" using mails_SyncFirst_round [of E] r unfolding mails_def by (metis snd_conv)
  show ?case
  proof (cases "f \<or> calls i \<or> r \<noteq> Inr False")
    case True
    with r l show ?thesis by (cases r) (auto simp: n(1) flag_get_def Let_def)
  next
    case False
    obtain q fl' s' where "SyncFirst_loop E calls n (False, i + 1) s1 = Some (q, fl', s')" "SyncFirst_loop E calls (Suc k) (False, i + 1) s1 = Some (q, fl', s')"
      "length (outbox s') \<le> length (outbox s1) + k"
      using Suc.IH [of "i + 1" n False s1] Suc.prems(1) n(2) by (auto simp del: SyncFirst_loop.simps)
    with False r l show ?thesis
      by (simp add: n(1) flag_get_def Let_def SyncFirst_loop.simps(2) [of E calls n] SyncFirst_loop.simps(2) [of E calls "Suc k"] del: SyncFirst_loop.simps(2))
  qed
qed

lemma SyncFromMaster_loop_stops:
  assumes "calls (i + k)" and "k < fuel"
  shows "\<exists>r fl' s'. SyncFromMaster_loop E calls fuel (f, i) fc s = Some (r, fl', s') \<and>
    SyncFromMaster_loop E calls (Suc k) (f, i) fc s = Some (r, fl', s')"
  using assms
proof (induction k arbitrary: fuel f i fc s)
  case 0
  then show ?case by (cases fuel) (auto simp: flag_get_def Let_def)
next
  case (Suc k)
  then obtain n where n: "fuel = Suc n" "k < n" by (cases fuel) auto
  obtain r s1 where r: "SyncFromMaster_round E fc s = (r, s1)" by force
  show ?case
  proof (cases "f \<or> calls i \<or> (\<forall>fc'. r \<noteq> Inr (Some fc'))")
    case True
    with r show ?thesis by (auto simp: n(1) flag_get_def Let_def split: sum.split option.split)
  next
    case False
    then obtain fc' where fc': "r = Inr (Some fc')" by auto
    obtain q fl' s' where "SyncFromMaster_loop E calls n (False, i + 1) fc' s1 = Some (q, fl', s')" "SyncFromMaster_loop E calls (Suc k) (False, i + 1) fc' s1 = Some (q, fl', s')"
      using Suc.IH [of "i + 1" n False fc' s1] Suc.prems(1) n(2) by (auto simp del: SyncFromMaster_loop.simps)
    with False fc' r show ?thesis
      by (simp add: n(1) flag_get_def Let_def SyncFromMaster_loop.simps(2) [of E calls n] SyncFromMaster_loop.simps(2) [of E calls "Suc k"] del: SyncFromMaster_loop.simps(2))
  qed
qed

text \<open>A loop does not look at what was before it.\<close>

lemma loops_look_ahead:
  assumes "\<forall>j \<ge> i. calls' j = calls j"
  shows "SyncFirst_loop E calls' fuel (f, i) s = SyncFirst_loop E calls fuel (f, i) s"
    and "SyncFromMaster_loop E calls' fuel (f, i) fc s = SyncFromMaster_loop E calls fuel (f, i) fc s"
  using assms
proof (induction fuel arbitrary: f i s fc)
  case (Suc fuel)
  {
    case 1
    have "\<And>f s. SyncFirst_loop E calls' fuel (f, i + 1) s = SyncFirst_loop E calls fuel (f, i + 1) s" using Suc.IH(1) 1 by auto
    with 1 show ?case by (simp add: flag_get_def Let_def split: prod.split sum.split)
  next
    case 2
    have "\<And>f fc s. SyncFromMaster_loop E calls' fuel (f, i + 1) fc s = SyncFromMaster_loop E calls fuel (f, i + 1) fc s" using Suc.IH(2) 2 by auto
    with 2 show ?case by (simp add: flag_get_def Let_def split: prod.split sum.split option.split)
  }
qed simp_all

lemma earlier_stops_lost:
  assumes "\<forall>j > i. calls' j = calls j" and "\<not> is_master s"
  shows "map_option (\<lambda>(r, fl, t). (r, t)) (SyncFirst E calls' fuel (f', i) s) = map_option (\<lambda>(r, fl, t). (r, t)) (SyncFirst E calls fuel (f, i) s)"
    and "SyncFromMaster E calls' fuel (f', i) s = SyncFromMaster E calls fuel (f, i) s"
  using assms loops_look_ahead [of "i + 1" calls' calls E]
  by (auto simp: SyncFirst_def SyncFromMaster_def flag_set_def Let_def split: prod.split sum.split option.split)

text \<open>So whatever stops a slave that has started, up to the end of \<open>SyncFirst\<close> and the beginning of \<open>SyncFromMaster\<close>, does not.\<close>

lemma init_sync_forgets:
  assumes "\<not> is_master s" and "SyncFirst E calls fuel fl (s\<lparr>thisurl := url\<rparr>) = Some (Inr (), (f1, i1), s1)" and "\<not> is_master s1"
  shows "init_sync E calls fuel url fl s = SyncFromMaster E (\<lambda>j. i1 < j \<and> calls j) fuel (False, i1) s1"
proof -
  have "SyncFromMaster E (\<lambda>j. i1 < j \<and> calls j) fuel (False, i1) s1 = SyncFromMaster E calls fuel (f1, i1) s1"
    by (rule earlier_stops_lost(2)) (use assms(3) in auto)
  with assms show ?thesis by (simp add: init_sync_def Let_def)
qed

text \<open>As long as the master answers, a round does not end the loop.\<close>

lemma SyncFromMaster_round_run:
  fixes E :: "('b, 'd) env"
  assumes "kv_ok E" and "pb_ok E" and "writes_succeed E" and "log_ok E h n" and "log_data E h n"
    and "follows E g0 h n s" and "serves_log E rc h n (shared_secret s)" and "good_address (sh_master s)"
  shows "\<exists>s'. SyncFromMaster_round E (c, fd) s = (Inr (Some (0, fd)), s') \<and> follows E g0 h n s' \<and>
    shared_secret s' = shared_secret s \<and> sh_master s' = sh_master s"
proof -
  let ?a = "logcounter s"
  define t where "t = s\<lparr>transactions := []\<rparr>"
  define s0 where "s0 = t\<lparr>ticks := ticks s + 1\<rparr>"
  define l :: "'b TransListT" where "l = TransListT_new\<lparr>tl_endpoint := thisurl s, tl_ts := clock E (ticks s), tl_lastid := ?a, tl_limit := SYNCMASTER_CHUNK_SIZE\<rparr>"
  define m where "m = min (unat n - unat ?a) 6"
  have s0: "logcounter s0 = ?a" "db s0 = db s" "shared_secret s0 = shared_secret s" "sh_master s0 = sh_master s"
    by (simp_all add: s0_def t_def)
  have lr: "log_request E SYNCMASTER_CHUNK_SIZE t = (Inr l, s0)" by (simp add: log_request_run l_def s0_def t_def)
  have le: "?a \<le> n" and bound: "unat ?a + m \<le> unat n" using assms(6) by (auto simp: follows_def m_def word_le_nat_alt)
  have um: "unat (?a + of_nat m) = unat ?a + m" using unat_add_of_nat [OF bound] .
  have ll: "tl_lastid l = logcounter s0" "tl_trans l = []" "unat (tl_limit l) + 1 = 6"
    by (simp_all add: s0 l_def TransListT_new_def SYNCMASTER_CHUNK_SIZE_def)
  obtain l' s1 where a: "sendA E (c_tlist E) (sh_master s) R_TRANSLOG l True s0 = (Inr (True, l'), s1)" "same_store s0 s1"
    "tl_trans l' = log_run E h ?a m"
    using ask_log [OF assms(1,2,4) _ _ assms(8) ll(1,2), of rc True] le assms(7) unfolding ll(3) by (auto simp: s0 m_def Let_def)
  have s1: "logcounter s1 = ?a" "replica E g0 (kv_get E (db s1)) (logcounter s1)" "log_prefix E (kv_get E (db s1)) h (logcounter s1)"
    "shared_secret s1 = shared_secret s" "sh_master s1 = sh_master s"
    using same_storeD [OF a(2)] assms(6) by (simp_all add: s0 follows_def)
  obtain s' where c: "commit_received E (log_run E h ?a m) s1 = (Inr (), s')" "logcounter s' = ?a + of_nat m"
    "replica E g0 (kv_get E (db s')) (logcounter s')" "log_prefix E (kv_get E (db s')) h (logcounter s')" "frame s' = frame s1"
    using commit_received_run [OF assms(1-3) s1(2,3) assms(4,5), of m] bound s1(1) by auto
  have sm: "sh_master t = sh_master s" "transactions t = []" by (simp_all add: t_def)
  have "SyncFromMaster_round E (c, fd) t = (Inr (Some (0, fd)), s')"
    unfolding SyncFromMaster_round_def
    by (simp add: sm bindA_step [where m = "log_request E SYNCMASTER_CHUNK_SIZE", OF lr] s0(4)
        bindA_step [where m = "sendA E (c_tlist E) (sh_master s) R_TRANSLOG l True", OF a(1)] a(3)
        bindA_step [where m = "commit_received E (log_run E h ?a m)", OF c(1)])
  then have "SyncFromMaster_round E (c, fd) s = (Inr (Some (0, fd)), s')" using buffered_discarded' [of E "(c, fd)" s] by (simp add: t_def)
  moreover have "follows E g0 h n s'" using c um bound by (simp add: follows_def word_le_nat_alt)
  ultimately show ?thesis using c(5) s1 by (simp add: frame_def)
qed

lemma SyncFromMaster_loop_runs_on:
  assumes "kv_ok E" and "pb_ok E" and "writes_succeed E" and "log_ok E h n" and "log_data E h n"
    and "follows E g0 h n s" and "serves_log E rc h n (shared_secret s)" and "good_address (sh_master s)" and "\<forall>j \<ge> i. \<not> calls j"
  shows "SyncFromMaster_loop E calls fuel (False, i) (c, fd) s = None"
  using assms(6-9)
proof (induction fuel arbitrary: c i s)
  case (Suc fuel)
  obtain s' where "SyncFromMaster_round E (c, fd) s = (Inr (Some (0, fd)), s')" "follows E g0 h n s'"
    "shared_secret s' = shared_secret s" "sh_master s' = sh_master s"
    using SyncFromMaster_round_run [OF assms(1-5) Suc.prems(1-3)] by blast
  with Suc.IH [of s' "i + 1" 0] Suc.prems show ?case by (simp add: flag_get_def Let_def)
qed simp

text \<open>C32: Whether synchronising ends when the server is stopped depends on when \<open>stop\<close> is called; at moment \<open>i\<close> the
  functions begin, with any value \<open>f\<close> of the flag. First, if it is called after the flag has been cleared, before round \<open>k\<close>,
  both \<open>SyncFirst\<close> and \<open>SyncFromMaster\<close> return, whatever the other hosts answer, in at most \<open>k\<close> rounds (more fuel makes no
  difference), with success or with an exception, and \<open>SyncFirst\<close> sends at most one message per round and four besides,
  since it follows the pointers from host to host only three times. Second, every earlier call is lost, since both
  functions clear the flag: the run is the same as without it. So a slave that is stopped during \<open>SyncFirst\<close> goes on with
  \<open>SyncFromMaster\<close> as if it had not been; and third, while the master answers, \<open>SyncFromMaster\<close> then does not return,
  whatever the fuel.\<close>

theorem sync_stops:
  "(\<forall>k fuel. calls (i + 1 + k) \<longrightarrow> k < fuel \<longrightarrow> (\<exists>r fl' s' r' fl'' s''.
      SyncFirst E calls fuel (f, i) s = Some (r, fl', s') \<and> SyncFirst E calls (Suc k) (f, i) s = Some (r, fl', s') \<and>
      length (outbox s') \<le> length (outbox s) + k + 4 \<and>
      SyncFromMaster E calls fuel (f, i) s = Some (r', fl'', s'') \<and> SyncFromMaster E calls (Suc k) (f, i) s = Some (r', fl'', s''))) \<and>
   (\<not> is_master s \<longrightarrow> (\<forall>calls' f' fuel. (\<forall>j > i. calls' j = calls j) \<longrightarrow>
      map_option (\<lambda>(r, fl, t). (r, t)) (SyncFirst E calls' fuel (f', i) s) = map_option (\<lambda>(r, fl, t). (r, t)) (SyncFirst E calls fuel (f, i) s) \<and>
      SyncFromMaster E calls' fuel (f', i) s = SyncFromMaster E calls fuel (f, i) s)) \<and>
   (\<not> is_master s \<longrightarrow> (\<forall>j > i. \<not> calls j) \<longrightarrow> kv_ok E \<longrightarrow> pb_ok E \<longrightarrow> writes_succeed E \<longrightarrow> replica E g0 h n \<longrightarrow>
      CompareLog E (sh_master s) s = (Inr True, s1) \<longrightarrow> follows E g0 h n s1 \<longrightarrow> serves_log E rc h n (shared_secret s1) \<longrightarrow>
      good_address (sh_master s1) \<longrightarrow> (\<forall>fuel. SyncFromMaster E calls fuel (f, i) s = None))"
proof (intro conjI allI impI)
  fix k fuel
  assume k: "calls (i + 1 + k)" "k < fuel"
  obtain r0 s1 where c: "CompareLog E (sh_master s) s = (r0, s1)" by force
  have l: "length (outbox s1) \<le> length (outbox s) + 1" using mails_CompareLog [of E "sh_master s"] c unfolding mails_def by (metis snd_conv)
  obtain r fl2 s2 where f: "SyncFirst_loop E calls fuel (False, i + 1) s1 = Some (r, fl2, s2)" "SyncFirst_loop E calls (Suc k) (False, i + 1) s1 = Some (r, fl2, s2)"
    "length (outbox s2) \<le> length (outbox s1) + k"
    using SyncFirst_loop_stops [of calls "i + 1" k fuel E False s1] k by blast
  obtain r' fl3 s3 where m: "SyncFromMaster_loop E calls fuel (False, i + 1) (0, 0) s1 = Some (r', fl3, s3)"
    "SyncFromMaster_loop E calls (Suc k) (False, i + 1) (0, 0) s1 = Some (r', fl3, s3)"
    using SyncFromMaster_loop_stops [of calls "i + 1" k fuel E False "(0, 0)" s1] k by blast
  have h: "length (outbox (snd (find_master E 0 s2))) \<le> length (outbox s2) + 3" using mails_find_master [of 0 E] by (simp add: mails_def)
  obtain r4 s4 where g: "find_master E 0 s2 = (r4, s4)" by force
  have "\<exists>r fl' s'. SyncFirst E calls fuel (f, i) s = Some (r, fl', s') \<and> SyncFirst E calls (Suc k) (f, i) s = Some (r, fl', s') \<and>
      length (outbox s') \<le> length (outbox s) + k + 4"
    using c l f h g by (cases r; cases r0) (auto simp: SyncFirst_def flag_set_def simp del: SyncFirst_loop.simps)
  moreover have "\<exists>r fl' s'. SyncFromMaster E calls fuel (f, i) s = Some (r, fl', s') \<and> SyncFromMaster E calls (Suc k) (f, i) s = Some (r, fl', s')"
    using c m by (cases r0) (auto simp: SyncFromMaster_def flag_set_def Let_def simp del: SyncFromMaster_loop.simps)
  ultimately show "\<exists>r fl' s' r' fl'' s''. SyncFirst E calls fuel (f, i) s = Some (r, fl', s') \<and> SyncFirst E calls (Suc k) (f, i) s = Some (r, fl', s') \<and>
      length (outbox s') \<le> length (outbox s) + k + 4 \<and>
      SyncFromMaster E calls fuel (f, i) s = Some (r', fl'', s'') \<and> SyncFromMaster E calls (Suc k) (f, i) s = Some (r', fl'', s'')" by blast
next
  fix calls' f' fuel
  assume "\<not> is_master s" "\<forall>j > i. calls' j = calls j"
  then show "map_option (\<lambda>(r, fl, t). (r, t)) (SyncFirst E calls' fuel (f', i) s) = map_option (\<lambda>(r, fl, t). (r, t)) (SyncFirst E calls fuel (f, i) s)"
    and "SyncFromMaster E calls' fuel (f', i) s = SyncFromMaster E calls fuel (f, i) s"
    by (rule earlier_stops_lost [rotated])+
next
  fix fuel
  assume "\<not> is_master s" "\<forall>j > i. \<not> calls j" "kv_ok E" "pb_ok E" "writes_succeed E" "replica E g0 h n" "CompareLog E (sh_master s) s = (Inr True, s1)"
    "follows E g0 h n s1" "serves_log E rc h n (shared_secret s1)" "good_address (sh_master s1)"
  moreover from this have "SyncFromMaster_loop E calls fuel (False, i + 1) (0, 0) s1 = None"
    by (intro SyncFromMaster_loop_runs_on [of E h n g0 s1 rc]) (auto simp: replica_def)
  ultimately show "SyncFromMaster E calls fuel (f, i) s = None" by (simp add: SyncFromMaster_def flag_set_def Let_def)
qed

end
