(* ===== verification/Spec2Isabelle.thy ===== *)
theory Spec2Isabelle
  imports AnswerLaws SyncLaws
begin

text \<open>
  A verification of the core of Zapdos: the store, its replication log and the data services over it.

  \<^bold>\<open>The program.\<close> Zapdos keeps tags, categories, users (internal and external, "exters") and items in a
  key-value store (RocksDB), answers requests of its clients over HTTP and replicates itself from a
  master to slaves. A request to a data service checks the session, prepares the changed records against
  the tables, collects puts and deletes in a transaction, and commits it: the transaction becomes the
  next entry of the log, its items are written to the data, it is pushed to a slave, and the cached
  copies of the records are dropped. Slaves ask the master for the entries of its log that follow their own
  and commit them likewise.

  \<^bold>\<open>The theories, in the order of the layers.\<close>
  \<open>Prelude\<close>: exceptions, results and state actions, strings, characters (\<open>include/utils/BaseUtils.hpp\<close>).
  \<open>Keys\<close>, \<open>Base64\<close>: the encoding of keys and the sanitisers (\<open>src/store/StoreBase.cc\<close>), base64
  (\<open>src/utils/B64String.cc\<close>).
  \<open>Messages\<close>, \<open>Env\<close>: the protobuf messages as records; the libraries the program uses, as the fields of
  a record of functions, with their documented behaviour as named hypotheses.
  \<open>StoreTable\<close>, \<open>TableLaws\<close>, \<open>Tables\<close>: the class template \<open>StoreTable\<close>, the contract of a table as the
  locale \<open>table_laws\<close> with what follows from it, and the six tables of \<open>src/store/*Table.cc\<close>, each an
  interpretation of it.
  \<open>SharedState\<close>: the state shared by all services (\<open>include/utils/SharedTable.hpp\<close>), the cache, the
  reservations of names and the opening of the store.
  \<open>HrpcClient\<close>, \<open>StoreTrans\<close>, \<open>LogLaws\<close>: sending to other hosts, committing, reading the log, and the
  invariants of the log.
  \<open>Session\<close>: keys, login and session tokens; the virtual lookup of \<open>CredServiceBase\<close> is the locale
  \<open>cred_service\<close>, interpreted for exters and users.
  \<open>ServiceDefine\<close>, \<open>CategoryService\<close>, \<open>TagDataService\<close>, \<open>HandleData\<close>, \<open>Profiles\<close>, \<open>UserDataService\<close>,
  \<open>ExterDataService\<close>, \<open>ItemDataService\<close>: the data services.
  \<open>Replication\<close>: the hosts and the election of a master (\<open>src/hrpc/RemoteKeeper.cc\<close>), a slave that follows the
  master (\<open>src/hrpc/SyncServer.cc\<close>). \<open>Endpoints\<close>: what a node answers other hosts (\<open>include/hrpc/*EndpointService.hpp\<close>).
  \<open>ProtoForm\<close>, \<open>HttpServer\<close>, \<open>QueryServices\<close>, \<open>WebServer\<close>: forms (\<open>src/query/ProtoForm.cc\<close>), the parsing of requests
  and the choice of a resource (\<open>include/http\<close>), the handlers of \<open>include/query/*Service.hpp\<close>, and the list of their
  resources; \<open>serve_bytes\<close> goes from the bytes of a request to those of the answer.
  \<open>GeoHash\<close>, \<open>SearchText\<close>, \<open>SearchIndex\<close>, \<open>SearchQuery\<close>, \<open>SearchService\<close>: the search. The names of the cells of a map
  (\<open>src/search/GeoHashHelper.cc\<close>); words, stems and sort keys (\<open>src/utils/SplitWith.cc\<close>, \<open>src/search/BaseUtils.cc\<close>,
  \<open>include/utils/SortHelpers.hpp\<close>); the documents of items and the databases they are written to (\<open>IndexBase.cc\<close>,
  \<open>IndexLocal.cc\<close>, \<open>IndexWiki.cc\<close>, \<open>WriteIndex.cc\<close>); queries, rules and ranking (\<open>SearchBase.cc\<close>, \<open>ReadIndex.cc\<close>,
  \<open>DistanceSlabKeyMaker.cc\<close>); the answers (\<open>SearchLocal.cc\<close>, \<open>SearchWiki.cc\<close>) and the parameters of a request
  (\<open>include/query/SearchCompletionService.hpp\<close>). A commit records its calls to the index in \<open>xaplog\<close>;
  \<open>index_of\<close> carries them out, \<open>read_dirs\<close> is what a request sees of the result.

  \<^bold>\<open>What is proved, from the parts to the whole.\<close> \<open>ReplicationLaws\<close>: a slave converges to its master; elections and
  failover. \<open>SyncLaws\<close>: when synchronising ends on a stop, and when the stop is lost. \<open>CacheLaws\<close>: the caches and the calls to the index
  agree with the tables (\<open>steady\<close>: an action that only fills caches). \<open>IndexLaws\<close>: what a commit passes to the index, and
  what is then in it. \<open>CommitLaws\<close>: the invariant \<open>sys_inv\<close> of a node, kept by every commit of a batch.
  \<open>ServiceLaws\<close>, \<open>PrepareLaws\<close>, \<open>RequestLaws\<close>: the contract of a request that changes one table (\<open>atomic_request\<close>), what a
  request may make of a record, and the steps all requests share. \<open>SystemLaws\<close>: that contract for every data
  service; resetting passwords and making administrators. \<open>StartLaws\<close>: opening and restarting. \<open>ReadLaws\<close>,
  \<open>SecrecyLaws\<close>: reads change nothing and disclose only what the requester may see. \<open>AdminLaws\<close>: who is an
  administrator. \<open>WebLaws\<close>: what a client can do by sending bytes. \<open>TransparentLaws\<close>: a slave in front of its
  master. \<open>NodeLaws\<close>: a node over its whole life, as an inductive set of reachable states.
  \<open>GeoHashLaws\<close>: what the names of cells stand for. \<open>SearchLaws\<close>: how the hits of the rules are ranked. \<open>SearchFinds\<close>: by
  which words and places an item is found. \<open>NodeSearch\<close>: the index of a node is exact, and its search finds its items.
  \<open>AnswerLaws\<close>: what a search answers are items of the tables, whatever the search engine gives.
  \<open>Samples\<close>, \<open>NetSamples\<close>, \<open>NodeSamples\<close>: concrete stores, hosts and nodes for the witnesses. This theory: the
  properties that span layers, and the witnesses.

  \<^bold>\<open>How the code is modelled.\<close> A method that may throw or change the shared state is an action: a function
  from the state to a result (an exception or a value) and the state left behind, so that what is done
  before an exception is kept, as in the code. A message passed by pointer is an argument and part of
  the result; the response of a service is seen by the client only when no exception is thrown. Loops
  over lists are recursive functions. Numbers of the code's width are machine words, so the counters wrap
  around; where a theorem needs that they do not, it says so (\<open>room\<close>, \<open>wide\<close>). One request runs as a whole, although the
  code gives each a thread; the steps of the shared objects, each under its lock, are the atomic steps. The two
  loops of a slave take fuel; the flag \<open>to_stop_sync\<close> that ends them is part of their state, and a predicate \<open>calls\<close>
  says between which accesses to the flag another thread calls \<open>stop\<close>. \<open>sync_stops\<close> shows that as much fuel as there are
  rounds until a call is enough when the call comes after the functions have cleared the flag, and that calls before that are lost.

  \<^bold>\<open>Parameters.\<close> The key-value store, the generated codecs, the cipher, the base64 iterators of Boost, the clock, the random
  generator and the HTTP client are fields of \<open>env\<close>. \<open>kv_ok\<close>, \<open>pb_ok\<close>, \<open>aes_ok\<close> and \<open>boost_ok\<close> state what is documented of them, \<open>echoes\<close> that a
  host answers a pushed transaction with that transaction, as the endpoint of this program does; \<open>env_ok\<close> collects what
  the theorems on requests need; \<open>toy_env\<close> satisfies all of it. The JSON codecs of protobuf and the help texts are the
  parameters \<open>web\<close> and \<open>helplist\<close> of the web server, the codecs of the messages to the master are \<open>master_codecs\<close>;
  \<open>prints\<close> says that a status can be printed, \<open>codecs_fit\<close> that a message is parsed from what it was serialised to,
  \<open>linked\<close> that what a slave sends is answered by the endpoint of its master. Xapian, the stemmer, the spell checker and the
  conversion of text to floating point numbers are the fields of \<open>indexer\<close> and \<open>searcher\<close>; \<open>mset_ok\<close> states what Xapian
  documents of a query that lists the terms a document must have, \<open>stems\<close> that the stem of a word is a word, and \<open>w_flushed\<close> of
  \<open>web\<close> how many calls Xapian has made visible of itself before a commit.

  \<^bold>\<open>Not modelled.\<close> Xapian, the stemmer, the spell checker with the cache of its models (\<open>SearchCache.cc\<close>) and the other
  vendored libraries; the calls to Xapian are taken not to throw, and floating point numbers are real numbers. Of the helpers nothing
  calls, the distances and bounding boxes of \<open>GeoHashHelper.cc\<close>, which compute with rounding, \<open>EstimateExec\<close> and the unused
  instances of the templates for sort keys and joined strings. Sockets, TLS, time-outs and chunked transfer of the web server; the
  command line tools, the configuration and the start of the servers; the option of separate databases for data and log. The
  fields \<open>getall\<close> and \<open>is_self\<close> of the responses, which no modelled code reads, are left out of their records.
\<close>

section \<open>The store\<close>

text \<open>C38: keys of the primary types decode to the type and the id they were made from, and their order in the
  store is that of the types and, within a type, of the ids.\<close>

theorem primary_keys:
  assumes "K_NONODE \<le> k \<and> k \<le> K_MAXNODE" and "K_NONODE \<le> l \<and> l \<le> K_MAXNODE"
  shows "DecodePrimaryKey (EncodePrimaryKey k i) = Inr (k, i) \<and> CheckPrimaryKey (EncodePrimaryKey k i) = Inr True \<and>
    (EncodePrimaryKey k i < EncodePrimaryKey l j \<longleftrightarrow> k < l \<or> (k = l \<and> i < j))"
proof -
  have b: "byte_keytype k" "byte_keytype l" using assms by (simp_all add: byte_keytype_def keytype_defs)
  then have "EncodePrimaryKey k i < EncodePrimaryKey l j \<longleftrightarrow> k < l \<or> (k = l \<and> i < j)"
    using less_append_iff [of "ZPDS_FMT_ID_KEY k" "ZPDS_FMT_ID_KEY l" "ZPDS_FMT_NODE_ONLY i" "ZPDS_FMT_NODE_ONLY j"]
    by (simp add: EncodePrimaryKey_def ZPDS_FMT_ID_KEY_less ZPDS_FMT_ID_KEY_inject ZPDS_FMT_NODE_ONLY_less)
  with b assms show ?thesis by (simp add: DecodePrimaryKey_Encode CheckPrimaryKey_Encode)
qed

text \<open>C39: the base64 text of a key or a token is decoded to the bytes it was made from, if the iterators of Boost do what their
  documentation says.\<close>

theorem base64_roundtrip:
  assumes "boost_ok B"
  shows "B64_Decode B (B64_Encode B s) = Inr s"
  using assms by (rule B64_Decode_Encode)

theorem base64_roundtrip_witness:
  "B64_Encode toy_b64 ''hello'' = ''aGVsbG8='' \<and> B64_Decode toy_b64 ''aGVsbG8='' = Inr ''hello''"
proof -
  have "B64_Encode toy_b64 ''hello'' = ''aGVsbG8=''" by code_simp
  then show ?thesis using base64_roundtrip [OF toy_boost_ok, of "''hello''"] by simp
qed

text \<open>What the six tables are proved to do. A batch: records added by \<open>AddRecord\<close> against the same store with
  different ids and names; once its items are written, the table is consistent again, it is the old one
  with the records put in, and no other key is touched. A lookup by name: the record that has the name, if any.\<close>

definition batch_refines :: "('b, 'd) env \<Rightarrow> ('r, 'b) table \<Rightarrow> bool" where
  "batch_refines E T \<longleftrightarrow> (\<forall>g rs t t'. wf_table E T g \<longrightarrow> adds E T g rs t t' \<longrightarrow> distinct (map (rid T) rs) \<longrightarrow>
     (\<forall>u \<in> set (unique_keys T). distinct (map (\<lambda>r. GetKey T r u False) rs)) \<longrightarrow>
     (\<exists>its. t' = t\<lparr>tr_item := tr_item t @ its\<rparr> \<and> wf_table E T (apply_items its g) \<and>
        abs_table T (apply_items its g) = fold (upd_abs T) rs (abs_table T g) \<and>
        (\<forall>k. \<not> table_key T k \<longrightarrow> apply_items its g k = g k)))"

definition lookup_exact :: "('b, 'd) env \<Rightarrow> ('r, 'b) table \<Rightarrow> bool" where
  "lookup_exact E T \<longleftrightarrow> (\<forall>g r. \<forall>u \<in> set (unique_keys T). wf_table E T g \<longrightarrow>
     (\<exists>i x. abs_table T g i = Some x \<and> GetKey T x u False = GetKey T r u False \<and> GetOne E T g r u = Inr (True, x)) \<or>
     (GetOne E T g r u = Inr (False, r) \<and> (\<forall>i x. abs_table T g i = Some x \<longrightarrow> GetKey T x u False \<noteq> GetKey T r u False)))"

context table_laws
begin

lemma batch_refines: "codecs_ok E T \<Longrightarrow> batch_refines E T"
  unfolding batch_refines_def using adds_refines by blast

lemma lookup_exact: "lookup_exact E T"
  unfolding lookup_exact_def using GetOne_unique by blast

end

text \<open>C10: on each of the six tables, a batch of \<open>AddRecord\<close>s of records with different ids and different
  unique keys keeps the table consistent and refines the update
  of the map from ids to records, and touches no other table.\<close>

theorem tables_refine:
  assumes "pb_ok E"
  shows "batch_refines E (TagDataTable E) \<and> batch_refines E (CategoryTable E) \<and> batch_refines E (ExterDataTable E) \<and>
    batch_refines E (UserDataTable E) \<and> batch_refines E (LocalDataTable E) \<and> batch_refines E (WikiDataTable E)"
  using assms by (simp add: tagdata_tbl.batch_refines category_tbl.batch_refines exterdata_tbl.batch_refines
      userdata_tbl.batch_refines localdata_tbl.batch_refines wikidata_tbl.batch_refines)

text \<open>C14: on a consistent table of each of the six kinds, \<open>GetOne\<close> by the unique key returns the one record that
  has the key, and \<open>false\<close> with the message unchanged exactly when there is none; it never throws.\<close>

theorem tables_lookup:
  "lookup_exact E (TagDataTable E) \<and> lookup_exact E (CategoryTable E) \<and> lookup_exact E (ExterDataTable E) \<and>
   lookup_exact E (UserDataTable E) \<and> lookup_exact E (LocalDataTable E) \<and> lookup_exact E (WikiDataTable E)"
  by (simp add: tagdata_tbl.lookup_exact category_tbl.lookup_exact exterdata_tbl.lookup_exact
      userdata_tbl.lookup_exact localdata_tbl.lookup_exact wikidata_tbl.lookup_exact)

text \<open>C3: a committed transaction is the next entry of the log, the log has no gap afterwards, the data is
  what replaying the log gives, and every reserved name is as before.\<close>

theorem Commit_invariant:
  assumes "kv_ok E" and "pb_ok E" and "writes_succeed E" and "tr_item txn \<noteq> []" and "data_items txn"
    and "log_ok E (kv_get E (db s)) (logcounter s)" and "store_keys_ok (kv_get E (db s))"
    and "replays E g0 (kv_get E (db s)) (logcounter s)" and "logcounter s + 1 \<noteq> 0"
  shows "let s' = snd (Commit E ct txn m s); g' = kv_get E (db s'); n = logcounter s + 1 in
    logcounter s' = n \<and> log_ok E g' n \<and> store_keys_ok g' \<and> replays E g0 g' n \<and> tmpcache s' = tmpcache s \<and>
    log_entry E g' n = Some (logged ct m n txn)"
proof -
  let ?t = "logged ct m (logcounter s + 1) txn"
  have t: "data_items ?t" "tr_id ?t = logcounter s + 1" using assms(5) by (simp_all add: data_items_def logged_def)
  have "kv_get E (db (snd (Commit E ct txn m s))) = commit_view E ?t (kv_get E (db s))"
    "logcounter (snd (Commit E ct txn m s)) = logcounter s + 1" "tmpcache (snd (Commit E ct txn m s)) = tmpcache s"
    using Commit_state [OF assms(1,3,4) refl, of ct m s] by simp_all
  with log_ok_commit [OF assms(2,6) t assms(9)] store_keys_ok_commit [OF assms(7) t(1), of E]
    replays_commit [OF assms(2) t assms(9,8)] log_entry_commit [OF t(1) assms(2)] t(2)
  show ?thesis by (simp add: Let_def)
qed

text \<open>C37: when the store refuses the writes, \<open>Commit\<close> throws and neither the data nor the reserved names change;
  the log counter has moved on all the same, so the number it drew is lost.\<close>

theorem Commit_write_failure:
  assumes "\<And>ops. kv_write E (db s) ops = None" and "tr_item txn \<noteq> []"
  shows "Commit E ct txn m s = (Inl (BadDataException ''Insert failed for log'' 0), s\<lparr>logcounter := logcounter s + 1\<rparr>)"
  using assms by (rule Commit_fail)

section \<open>Witnesses\<close>

theorem ReadLog_run_witness:
  "ReadLog toy_env (TransListT_new\<lparr>tl_limit := 5\<rparr>) toy_state1 = (Inr \<lparr>tl_lastid = 1, tl_limit = 0,
     tl_trans = log_run toy_env (kv_get toy_env (db toy_state1)) 0 1, tl_currid = 1, tl_ts = 1000000, tl_endpoint = []\<rparr>,
     toy_state1\<lparr>ticks := 1\<rparr>)"
proof -
  have "log_ok toy_env (kv_get toy_env (db toy_state1)) (logcounter toy_state1)" using toy_log1 by simp
  from ReadLog_run [OF toy_kv_ok this, of "TransListT_new\<lparr>tl_limit := 5\<rparr>"] show ?thesis
    by (simp add: Let_def TransListT_new_def)
qed

theorem primary_keys_witness: "EncodePrimaryKey K_TAGDATA 10 < EncodePrimaryKey K_LOGNODE 9"
  using primary_keys [of K_TAGDATA K_LOGNODE 10 9] by (simp add: keytype_defs)

theorem tables_refine_witness: "batch_refines toy_env (ExterDataTable toy_env)"
  using tables_refine [OF toy_pb_ok] by simp

theorem Commit_write_failure_witness:
  "fst (Commit (toy_env\<lparr>kv_write := \<lambda>_ _. None\<rparr>) 7 toy_txn True toy_state0) = Inl (BadDataException ''Insert failed for log'' 0)"
  using Commit_write_failure [of "toy_env\<lparr>kv_write := \<lambda>_ _. None\<rparr>" toy_state0 toy_txn 7 True] toy_txn_ne by simp

theorem Commit_invariant_witness:
  "logcounter (snd (Commit toy_env 7 toy_txn True toy_state0)) = 1 \<and>
   log_entry toy_env (kv_get toy_env (db (snd (Commit toy_env 7 toy_txn True toy_state0)))) 1 = Some (logged 7 True 1 toy_txn)"
proof -
  have r: "replays toy_env (kv_get toy_env (db toy_state0)) (kv_get toy_env (db toy_state0)) (logcounter toy_state0)"
    by (simp add: replays_def replay_def toy_state0_def)
  have k: "store_keys_ok (kv_get toy_env (db toy_state0))"
    using store_key_log by (simp add: toy_get0 store_keys_ok_def)
  have l: "log_ok toy_env (kv_get toy_env (db toy_state0)) (logcounter toy_state0)"
    using toy_log0 by (simp add: toy_state0_def)
  have d: "data_items toy_txn" using toy_data_items [of toy_state0] by (simp add: data_items_def logged_def)
  from Commit_invariant [OF toy_kv_ok toy_pb_ok toy_writes toy_txn_ne d l k r, of 7 True]
  show ?thesis by (simp add: Let_def toy_state0_def)
qed

theorem ReadLog_end_witness:
  "fst (ReadLog toy_env (TransListT_new\<lparr>tl_lastid := 2\<rparr>) toy_state1) = Inl (BadDataException ''Remote Log Counter ahead'' 0)"
  using ReadLog_end [of "TransListT_new\<lparr>tl_lastid := 2\<rparr>" toy_state1 toy_env] by (simp add: TransListT_new_def)

theorem Initialize_counters_witness:
  "\<exists>d pk lk. Initialize toy_env [(log_key 3, TBlank)] 0 0 = Inr (d, pk, lk) \<and> 3 \<le> lk"
proof -
  have g: "kv_get toy_env [(log_key 3, TBlank)] = [log_key 3 \<mapsto> TBlank]" by (simp add: toy_env_def toy_entries_id)
  have "store_keys_ok (kv_get toy_env [(log_key 3, TBlank)])"
    using store_key_log by (simp add: g store_keys_ok_def)
  from Initialize_counters [OF toy_kv_ok toy_writes this] show ?thesis
    unfolding g by (metis fun_upd_same log_key_def option.distinct(1))
qed

theorem HandleStrings_spec_witness:
  "set (snd (HandleStrings [''a'', [], ''a''] [''b''] True)) = {''a'', ''b''}"
  using HandleStrings_spec [of "[''a'', [], ''a'']" "[''b'']" True True "[''b'', ''a'']"] by (auto simp: HandleStrings_def)

theorem order_rules_sorted_witness:
  "\<exists>rs. order_rules [QueryRuleT_new\<lparr>qr_weight := 3\<rparr>, QueryRuleT_new\<lparr>qr_weight := 7\<rparr>] = Inr rs \<and>
     sorted_wrt (\<lambda>q r. qr_weight q \<ge> qr_weight r) rs"
  using order_rules_sorted [of "[QueryRuleT_new\<lparr>qr_weight := 3\<rparr>, QueryRuleT_new\<lparr>qr_weight := 7\<rparr>]"]
  by (auto simp: ZPDS_MAX_RULE_WEIGHT_def QueryRuleT_new_def)

theorem exter_login_refused_witness:
  "\<exists>e s'. GetSession toy_env (Exter_Get toy_env) \<lparr>lr_username = ''admin'', lr_password = ''no'', lr_sessionkey = []\<rparr> toy_state1 = (Inl e, s')"
  using exter_login_refused [OF toy_exter_inv, of "\<lparr>lr_username = ''admin'', lr_password = ''no'', lr_sessionkey = []\<rparr>"]
  by (auto simp: toy_has_admin)

text \<open>The token of the roundtrip is the one handed out.\<close>

theorem exter_session_roundtrip_witness:
  "\<exists>token s1. GetSession toy_env (Exter_Get toy_env) \<lparr>lr_username = ''admin'', lr_password = ''pw'', lr_sessionkey = []\<rparr> toy_state1 =
     (Inr \<lparr>lr_username = ''admin'', lr_password = [], lr_sessionkey = token\<rparr>, s1) \<and>
   (\<exists>v. fst (CheckSession toy_env (UserDataT_new\<lparr>user_name := ''admin'', user_sessionkey := token, user_keytype := K_EXTERDATA\<rparr>)
      True toy_state1) = Inr (True, v) \<and> user_name v = ''admin'')"
proof -
  have h: "has_user (ExterDataTable toy_env) (kv_get toy_env (db toy_state1)) ''admin'' toy_admin" by (simp add: toy_has_admin)
  from exter_session_roundtrip [OF toy_aes_ok toy_exter_inv h, of "''pw''", OF _ _ _ toy_key _ toy_exter_inv h refl]
  show ?thesis by (simp add: Let_def AES_LEN_def ZPDS_SESSION_LIFETIME_MS_def)
qed

theorem exter_session_sound_witness:
  "\<exists>t r s'. CheckSession toy_env (UserDataT_new\<lparr>user_name := ''admin'', user_sessionkey := t, user_keytype := K_EXTERDATA\<rparr>)
     True toy_state1 = (Inr (True, r), s') \<and> user_name r = ''admin'' \<and> db s' = db toy_state1"
proof -
  have h: "has_user (ExterDataTable toy_env) (kv_get toy_env (db toy_state1)) ''admin'' toy_admin" by (simp add: toy_has_admin)
  let ?iv = "replicate 16 (CHR ''x'')"
  let ?d = "UserDataT_new\<lparr>user_name := ''admin'', user_sessionkey := ?iv @ aes_enc toy_env (replicate 16 (CHR ''k'')) ?iv
     (ser (c_user toy_env) (session_msg ''admin'' 1000000)), user_keytype := K_EXTERDATA\<rparr>"
  have "\<exists>r s'. CheckSessionBase toy_env (Exter_Get toy_env) ?d toy_state1 = (Inr (True, r), s')"
    using exter_cred.CheckSession_token [OF toy_exter_inv _ _ toy_pb_ok toy_aes_ok toy_key, of ?d ?iv 1000000] h
    by (auto simp: AES_LEN_def ZPDS_SESSION_LIFETIME_MS_def)
  then obtain r s' where c: "CheckSession toy_env ?d True toy_state1 = (Inr (True, r), s')" by (auto simp: CheckSession_def)
  from exter_session_sound [OF toy_exter_inv c] c show ?thesis by auto
qed

text \<open>Replication: the slave has the empty log, the master one entry.\<close>

lemma toy_slave0: "logcounter toy_state0 = 0" "shared_secret toy_state0 = ''s''" "good_address (sh_master toy_state0)"
proof -
  have "sh_master toy_state0 = ''m:1''" by (simp add: toy_state0_def toy_shared_def)
  then show "good_address (sh_master toy_state0)"
    by (simp add: good_address_def host_port_def Regex_colon_def stoi10_def dval_def isdigit_def isspace_def trim_copy_def)
qed (simp_all add: toy_state0_def toy_shared_def)

lemma toy_follows: "follows toy_net (kv_get toy_env (db toy_state0)) (kv_get toy_env (db toy_state1)) 1 toy_state0"
proof -
  have "log_prefix toy_net (kv_get toy_env (db toy_state0)) (kv_get toy_env (db toy_state1)) 0"
    using log_entry_commit [OF _ toy_pb_ok, of "logged 7 True 1 toy_txn" "kv_get toy_env (db toy_state0)" 0] toy_data_items [of toy_state0] toy_slave0(1)
    by (simp add: log_prefix_def toy_get1) (simp add: logged_def)
  then show ?thesis using toy_replica0 toy_slave0(1) by (simp add: follows_def)
qed

theorem SyncFirst_converges_witness:
  "\<exists>s' i. SyncFirst_loop toy_net (\<lambda>_. False) 1 (False, 0) toy_state0 = Some (Inr (), (False, i), s') \<and> logcounter s' = 1 \<and>
     (\<forall>k. data_key k \<longrightarrow> kv_get toy_env (db s') k = kv_get toy_env (db toy_state1) k)"
proof -
  have "unat (1 :: 64 word) - unat (logcounter toy_state0) \<le> 6 * 1" by simp
  from SyncFirst_converges [OF toy_net_ok toy_replica1 toy_follows, of toy_remote 1 0] this toy_serves toy_slave0
  show ?thesis by auto
qed

theorem election_agrees_witness:
  "let s = toy_state1\<lparr>is_master := False, thisurl := ''a:1'', remotes := [(''b:1'', 1, 5)]\<rparr>;
       t = toy_state1\<lparr>is_master := False, thisurl := ''b:1'', remotes := [(''a:1'', 1, 7)]\<rparr>
   in elect 3 (remotes s) (logcounter s) (thisurl s) = elect 3 (remotes t) (logcounter t) (thisurl t) \<and>
     \<not> (is_master (snd (MasterUpdate toy_env 3 s)) \<and> is_master (snd (MasterUpdate toy_env 3 t)))"
  unfolding Let_def by (rule election_agrees) (auto simp: own_entry_ok_def eligible_def)

theorem failover_witness:
  "\<exists>s' i. SyncFromMaster_loop toy_env (\<lambda>_. False) 20 (False, 0) (0, 0) (toy_state1\<lparr>is_master := False\<rparr>) = Some (Inr (), (True, i), s') \<and>
     is_master s' \<and> db s' = db toy_state1"
  using failover [of toy_env 20 "toy_state1\<lparr>is_master := False\<rparr>" 0]
  by (auto simp: silent_def toy_env_def elect_def toy_state1_def toy_shared_def)

theorem elect_greatest_witness: "elect 3 [(''b:1'', 1, 5), (''c:1'', 4, 2)] 1 ''a:1'' = ''b:1''"
proof -
  have "eligible 3 [(''b:1'', 1, 5), (''c:1'', 4, 2)] = {(1, ''b:1'')}" by (auto simp: eligible_def)
  then show ?thesis using elect_greatest [of "[(''b:1'', 1, 5), (''c:1'', 4, 2)]" 3 1 "''a:1''"]
    by (simp add: own_entry_ok_def max_def less_eq_prod_def)
qed

text \<open>Requests on a node that has just opened its store, and on the same node with an administrator.\<close>

theorem InitCounters_restart_witness:
  "\<exists>t'. InitCounters toy_env (toy_node1\<lparr>dbcache := \<lambda>_. None, logcounter := 9\<rparr>) = (Inr (), t') \<and> logcounter t' = logcounter toy_node1"
  using InitCounters_restart [OF toy_env_ok, of "zero_records toy_env" toy_node1 "toy_node1\<lparr>dbcache := \<lambda>_. None, logcounter := 9\<rparr>"]
    toy_node1_run by auto

theorem Category_ManageDataAction_atomic_witness:
  "atomic_request toy_env (zero_records toy_env) (CategoryTable toy_env) U_CATEGORY_NAME (\<lambda>x. category_key (cat_name x))
     (\<lambda>w. session_by toy_env toy_node K_EXTERDATA (toy_request CategoryT_new [CategoryT_new\<lparr>cat_name := ''food''\<rparr>]) w \<and>
        (user_is_admin w \<or> user_can_add_category w))
     (asked (toy_request CategoryT_new [CategoryT_new\<lparr>cat_name := ''food''\<rparr>]) category_fits)
     [CategoryT_new\<lparr>cat_name := ''food''\<rparr>] toy_node
     (Category_ManageDataAction toy_env (toy_request CategoryT_new [CategoryT_new\<lparr>cat_name := ''food''\<rparr>]) toy_node)"
  using Category_ManageDataAction_atomic [OF toy_env_ok toy_node_inv, of "toy_request CategoryT_new [CategoryT_new\<lparr>cat_name := ''food''\<rparr>]"]
  by (simp add: toy_node_room take_payload_def) (simp add: CategoryT_new_def toy_request_def)

theorem TagData_ManageDataAction_atomic_witness:
  "sys_inv toy_env (zero_records toy_env) (snd (TagData_ManageDataAction toy_env
     (toy_request TagDataT_new [TagDataT_new\<lparr>tag_name := ''x''\<rparr>, TagDataT_new\<lparr>tag_name := ''x''\<rparr>]) toy_node))"
  using TagData_ManageDataAction_atomic [OF toy_env_ok toy_node_inv,
      of "toy_request TagDataT_new [TagDataT_new\<lparr>tag_name := ''x''\<rparr>, TagDataT_new\<lparr>tag_name := ''x''\<rparr>]"]
  by (simp add: toy_node_room atomic_request_def)

theorem Exter_ManageDataAction_atomic_witness:
  "sys_inv toy_env (zero_records toy_env) (snd (Exter_ManageDataAction toy_env (toy_request UserDataT_new [toy_root]) toy_node))"
  using Exter_ManageDataAction_atomic [OF toy_env_ok toy_node_inv, of "toy_request UserDataT_new [toy_root]"]
  by (simp add: toy_node_room atomic_request_def)


theorem Item_ManageDataAction_atomic_witness:
  "sys_inv toy_env (zero_records toy_env) (snd (Item_ManageDataAction toy_env (WikiDataService toy_env)
     (toy_request ItemDataT_new [ItemDataT_new\<lparr>item_unique_id := ''q1''\<rparr>]) toy_node))"
  using Item_ManageDataAction_atomic [OF toy_env_ok toy_node_inv, of "toy_request ItemDataT_new [ItemDataT_new\<lparr>item_unique_id := ''q1''\<rparr>]"]
  by (simp add: toy_node_room atomic_request_def)

theorem ResetPassAction_effect_witness:
  "reset_effect toy_env (zero_records toy_env) (ExterDataTable toy_env) toy_reset toy_node (Exter_ResetPassAction toy_env toy_reset toy_node)"
  using ResetPassAction_effect [OF toy_env_ok toy_node_inv, of toy_reset] by simp

theorem AdminCreateAction_effect_witness:
  "admin_effect toy_env (zero_records toy_env) toy_root False True toy_node (AdminCreateAction toy_env toy_root False True False toy_node)"
  using AdminCreateAction_effect [OF toy_env_ok toy_node_inv, of toy_root False True False] by (simp add: toy_node_room)

theorem admin_can_login_witness:
  "\<exists>s1 token s2. AdminCreateAction toy_env toy_root False True False toy_node = (Inr (), s1) \<and>
     GetSession toy_env (Exter_Get toy_env) \<lparr>lr_username = ''root1'', lr_password = ''pw'', lr_sessionkey = []\<rparr> s1 =
       (Inr \<lparr>lr_username = ''root1'', lr_password = [], lr_sessionkey = token\<rparr>, s2)"
  using admin_can_login [OF toy_env_ok toy_aes_ok _ toy_node_inv, of toy_root False True False] by (auto simp: toy_boost_ok toy_node_room toy_node_exters)

lemma toy_reachable: "reachable toy_env (toy_web, []) C toy_remote toy_node"
  unfolding toy_node_def by (rule reachable.opened) (simp add: toy_env_def toy_entries_def, simp, simp add: toy_shared_def)

theorem reachable_inv_witness:
  "\<forall>C. sys_inv toy_env (zero_records toy_env) (serve toy_env (toy_web, []) C toy_remote (HttpRequest ''GET /info'')
     (serve toy_env (toy_web, []) C toy_remote (LoginExter LoginRespT_new) toy_node))"
proof (intro allI reachable_inv [OF toy_env_ok])
  fix C
  let ?t = "serve toy_env (toy_web, []) C toy_remote (LoginExter LoginRespT_new) toy_node"
  have "reachable toy_env (toy_web, []) C toy_remote ?t" by (rule reachable.served [OF toy_reachable]) simp
  moreover have "has_room C (HttpRequest ''GET /info'') ?t"
    using toy_node_wide steadyD [OF keepsD [OF steady_GetSession [OF steady_Exter_Get] inv_steady [OF toy_env_ok toy_node_inv]]]
    by (simp add: wide_def)
  ultimately show "reachable toy_env (toy_web, []) C toy_remote (serve toy_env (toy_web, []) C toy_remote (HttpRequest ''GET /info'') ?t)"
    by (rule reachable.served)
qed simp

theorem administrators_kept_witness:
  "administrators toy_env (kv_get toy_env (db (serve toy_env (toy_web, []) toy_codecs toy_remote (HttpRequest ''POST /info'') toy_node))) =
   administrators toy_env (kv_get toy_env (db toy_node))"
  using administrators_kept [OF toy_env_ok _ toy_reachable, where C = toy_codecs and ev = "HttpRequest ''POST /info''"] by (simp add: toy_node_wide)

theorem web_change_answered_witness:
  "sys_inv toy_env (zero_records toy_env) (snd (serve_bytes toy_env toy_web toy_codecs [] ''x'' toy_node))"
  using web_change_answered [OF toy_env_ok toy_node_inv toy_prints toy_node_wide, where C = toy_codecs and helplist = "[]" and bytes = "''x''"] by (simp split: prod.splits)

theorem web_bounds_witness:
  "unat (maincounter (snd (serve_bytes toy_env toy_web toy_codecs [] ''x'' toy_node))) \<le> 10002"
  using web_bounds [OF toy_env_ok toy_node_inv toy_prints toy_node_wide, where C = toy_codecs and helplist = "[]" and bytes = "''x''"]
  by (simp add: ZPDS_UPLOAD_MAX_RECORDS_def split: prod.splits)

theorem slave_transparent_witness:
  "\<forall>rq0. transparent toy_env toy_codecs rq0 (Category_web_write toy_link toy_web toy_codecs ''create'') (Category_web_write toy_env toy_web toy_codecs ''create'') toy_slave toy_node"
  using slave_transparent [OF toy_linked toy_codecs_fit] by blast

theorem reads_disclose_only_witness:
  "fst (Exter_ReadDataAction toy_env toy_ask (toy_fresh toy_node1)) = fst (Exter_ReadDataAction toy_env toy_ask (toy_fresh toy_node2))"
proof -
  obtain r where "sys_inv toy_env (zero_records toy_env) toy_node1" "abs_table (ExterDataTable toy_env) (kv_get toy_env (db toy_node1)) = [2 \<mapsto> r]"
    using toy_node1_run by auto
  with toy_node2_run have i: "sys_inv toy_env (zero_records toy_env) (toy_fresh toy_node1)" "sys_inv toy_env (zero_records toy_env) (toy_fresh toy_node2)"
    by (simp_all add: toy_fresh_inv)
  show ?thesis using reads_disclose_only [OF toy_env_ok i, of toy_ask] toy_same_view by simp
qed

theorem store_typed_witness: "well_typed toy_env (kv_get toy_env (db toy_node)) 0"
  using store_typed [OF toy_env_ok _ toy_reachable [of toy_codecs]] by simp

text \<open>A slave that is stopped before its fourth round returns. One that is stopped before it begins does not return.\<close>

theorem sync_stops_witness:
  "let s = toy_state0\<lparr>is_master := False\<rparr> in
    (\<exists>r fl s'. SyncFirst toy_net (\<lambda>j. j = 4) 100 (False, 0) s = Some (r, fl, s') \<and> length (outbox s') \<le> length (outbox s) + 7) \<and>
    SyncFromMaster toy_net (\<lambda>j. j = 4 \<or> j = 0) 100 (True, 0) s = SyncFromMaster toy_net (\<lambda>j. j = 4) 100 (False, 0) s \<and>
    (\<forall>fuel. SyncFromMaster toy_net (\<lambda>j. j = 0) fuel (True, 0) s = None)"
proof -
  let ?s = "toy_state0\<lparr>is_master := False\<rparr>"
  have s: "\<not> is_master ?s" by simp
  note st = sync_stops [of _ 0 toy_net _ ?s]
  have c: "CompareLog toy_net (sh_master ?s) ?s = (Inr True, ?s)" using toy_slave0(1) by (simp add: CompareLog_def run_simps)
  have f: "follows toy_net (kv_get toy_env (db toy_state0)) (kv_get toy_env (db toy_state1)) 1 ?s" using toy_follows by (simp add: follows_def)
  have 1: "\<exists>r fl s'. SyncFirst toy_net (\<lambda>j. j = 4) 100 (False, 0) ?s = Some (r, fl, s') \<and> length (outbox s') \<le> length (outbox ?s) + 3 + 4"
    using mp [OF mp [OF spec [OF spec [OF conjunct1 [OF st [of "\<lambda>j. j = 4" False]], of 3], of 100]]] by auto
  have 2: "SyncFromMaster toy_net (\<lambda>j. j = 4 \<or> j = 0) 100 (True, 0) ?s = SyncFromMaster toy_net (\<lambda>j. j = 4) 100 (False, 0) ?s"
    using mp [OF conjunct1 [OF conjunct2 [OF st [of "\<lambda>j. j = 4"]]] s] by auto
  have 3: "\<forall>fuel. SyncFromMaster toy_net (\<lambda>j. j = 0) fuel (True, 0) ?s = None"
    using mp [OF conjunct2 [OF conjunct2 [OF st [of "\<lambda>j. j = 0"]]] s] toy_net_ok toy_replica1 c f toy_serves toy_slave0 by auto
  from 1 2 3 show ?thesis by (simp add: Let_def add.commute)
qed

end
